(* ===== verification/Prelude.thy ===== *)
theory Prelude
  imports Main "HOL-Library.Multiset" "HOL-Library.Signed_Division"
begin

text \<open>
  Shared vocabulary of the development.

  \<^item> Go's \<open>(value, error)\<close> returns are sums: \<open>Inl\<close> carries the error, \<open>Inr\<close> the value.
    \<open>bindE\<close> is the \<open>if err != nil { return ..., err }\<close> step, \<open>mapE\<close> and \<open>foldE\<close> are
    the loops that stop at the first error.
  \<^item> A Go runtime panic (index out of range, slice bounds, division by zero) is \<open>None\<close>
    of an \<open>option\<close>; the properties that a function does not panic say that \<open>None\<close> is
    never returned.
  \<^item> The loops that keep the first occurrence of every key in a \<open>seen\<close> map
    (staging paths, snapshot paths, barcodes) are \<open>first_seen\<close>.
  \<^item> The loops that cut a work list into batches of at most \<open>n\<close> (drive-sets and
    burn-sets) are characterised by \<open>batches\<close>.
\<close>

named_theorems run_simps \<open>rewriting facts for results and loops\<close>
named_theorems size_facts \<open>bounds on byte counts\<close>

section \<open>Results\<close>

definition bindE :: "'e + 'a \<Rightarrow> ('a \<Rightarrow> 'e + 'b) \<Rightarrow> 'e + 'b" where
  "bindE m f = (case m of Inl e \<Rightarrow> Inl e | Inr x \<Rightarrow> f x)"

lemma bindE_simps [simp]:
  "bindE (Inl e) f = Inl e"
  "bindE (Inr x) f = f x"
  by (simp_all add: bindE_def)

lemma bindE_eq_Inr [run_simps]: "bindE m f = Inr y \<longleftrightarrow> (\<exists>x. m = Inr x \<and> f x = Inr y)"
  by (cases m) simp_all

lemma bindE_eq_Inl [run_simps]:
  "bindE m f = Inl e \<longleftrightarrow> m = Inl e \<or> (\<exists>x. m = Inr x \<and> f x = Inl e)"
  by (cases m) auto

lemma bindE_unit_iff: "bindE m f = Inr y \<longleftrightarrow> m = Inr () \<and> f () = Inr y"
  by (cases m) simp_all

lemma bindE_cong [fundef_cong]:
  "m = m' \<Longrightarrow> (\<And>x. m' = Inr x \<Longrightarrow> f x = g x) \<Longrightarrow> bindE m f = bindE m' g"
  by (cases m') simp_all

definition guardE :: "bool \<Rightarrow> 'e \<Rightarrow> 'e + unit" where
  "guardE b e = (if b then Inr () else Inl e)"

lemma guardE_eq [run_simps]:
  "guardE b e = Inr u \<longleftrightarrow> b"
  "guardE b e = Inl e' \<longleftrightarrow> \<not> b \<and> e' = e"
  by (auto simp: guardE_def)

lemma guardE_simps [simp]: "guardE True e = Inr ()" "guardE False e = Inl e"
  by (simp_all add: guardE_def)

fun mapE :: "('a \<Rightarrow> 'e + 'b) \<Rightarrow> 'a list \<Rightarrow> 'e + 'b list" where
  "mapE f [] = Inr []"
| "mapE f (x # xs) = bindE (f x) (\<lambda>y. bindE (mapE f xs) (\<lambda>ys. Inr (y # ys)))"

lemma mapE_Inr_length: "mapE f xs = Inr ys \<Longrightarrow> length ys = length xs"
  by (induction xs arbitrary: ys) (auto simp: run_simps)

lemma mapE_Inr_iff: "mapE f xs = Inr ys \<longleftrightarrow> list_all2 (\<lambda>x y. f x = Inr y) xs ys"
proof (induction xs arbitrary: ys)
  case Nil
  then show ?case by auto
next
  case (Cons x xs)
  then show ?case by (cases ys) (auto simp: run_simps)
qed

lemma mapE_map: "(\<And>x. x \<in> set xs \<Longrightarrow> f x = Inr (g x)) \<Longrightarrow> mapE f xs = Inr (map g xs)"
  by (induction xs) auto

fun foldE :: "('s \<Rightarrow> 'a \<Rightarrow> 'e + 's) \<Rightarrow> 's \<Rightarrow> 'a list \<Rightarrow> 'e + 's" where
  "foldE f s [] = Inr s"
| "foldE f s (x # xs) = bindE (f s x) (\<lambda>s'. foldE f s' xs)"

lemma foldE_append: "foldE f s (xs @ ys) = bindE (foldE f s xs) (\<lambda>s'. foldE f s' ys)"
  by (induction xs arbitrary: s) (auto simp: bindE_def split: sum.splits)

text \<open>A loop invariant for \<open>foldE\<close>: kept by every successful step.\<close>

lemma foldE_invariant:
  assumes "foldE f s xs = Inr s'" and "P s"
    and "\<And>x s t. x \<in> set xs \<Longrightarrow> P s \<Longrightarrow> f s x = Inr t \<Longrightarrow> P t"
  shows "P s'"
  using assms by (induction xs arbitrary: s) (auto simp: run_simps)

section \<open>Loops with a seen set\<close>

fun first_seen :: "('a \<Rightarrow> bool) \<Rightarrow> 'a list \<Rightarrow> 'a list \<Rightarrow> 'a list" where
  "first_seen P seen [] = []"
| "first_seen P seen (x # xs) =
     (if \<not> P x \<or> x \<in> set seen then first_seen P seen xs
      else x # first_seen P (x # seen) xs)"

lemma set_first_seen: "set (first_seen P seen xs) = {x \<in> set xs. P x} - set seen"
  by (induction xs arbitrary: seen) auto

lemma distinct_first_seen: "distinct (first_seen P seen xs)"
  by (induction xs arbitrary: seen) (auto simp: set_first_seen)

lemma first_seen_prefix_independent:
  "first_seen P seen xs = filter (\<lambda>x. x \<notin> set seen) (first_seen P [] xs)"
proof (induction xs arbitrary: seen)
  case Nil
  then show ?case by simp
next
  case (Cons x xs)
  have "first_seen P (x # seen) xs = filter (\<lambda>y. y \<notin> set (x # seen)) (first_seen P [] xs)"
    by (rule Cons.IH)
  moreover have "first_seen P [x] xs = filter (\<lambda>y. y \<notin> set [x]) (first_seen P [] xs)"
    by (rule Cons.IH)
  ultimately show ?case using Cons.IH [of seen]
    by (auto simp: set_first_seen intro: filter_cong)
qed

section \<open>Batches\<close>

text \<open>
  \<open>batches n bs xs\<close>: \<open>bs\<close> cuts \<open>xs\<close> into consecutive non-empty batches of at most \<open>n\<close>.
\<close>

definition batches :: "nat \<Rightarrow> 'a list list \<Rightarrow> 'a list \<Rightarrow> bool" where
  "batches n bs xs \<longleftrightarrow> concat bs = xs \<and> (\<forall>b \<in> set bs. b \<noteq> [] \<and> length b \<le> n)"

lemma batches_concat: "batches n bs xs \<Longrightarrow> concat bs = xs"
  by (simp add: batches_def)

lemma batches_bound: "batches n bs xs \<Longrightarrow> b \<in> set bs \<Longrightarrow> b \<noteq> [] \<and> length b \<le> n"
  by (simp add: batches_def)

section \<open>Integer arithmetic\<close>

text \<open>
  Go's \<open>int64\<close> division truncates towards zero: \<open>sdiv\<close> of \<open>HOL-Library.Signed_Division\<close>.
  Byte counts are \<open>int\<close>; the theories that use them state the bounds within which no
  64-bit intermediate of the code wraps.
\<close>

definition ceilDiv :: "int \<Rightarrow> int \<Rightarrow> int" where
  "ceilDiv numerator denominator = (numerator + denominator - 1) sdiv denominator"

lemma sdiv_nonneg: "0 \<le> (a::int) \<Longrightarrow> 0 < b \<Longrightarrow> a sdiv b = a div b"
  by (cases "a = 0") (simp_all add: signed_divide_int_def)

lemma div_mult_le: "0 < (b::int) \<Longrightarrow> a div b * b \<le> a"
  using minus_mod_eq_div_mult [of a b] pos_mod_sign [of b a] by linarith

lemma ceilDiv_div: "0 \<le> a \<Longrightarrow> 0 < b \<Longrightarrow> ceilDiv a b = (a + b - 1) div b"
  by (simp add: ceilDiv_def sdiv_nonneg)

lemma ceilDiv_upper: "0 \<le> a \<Longrightarrow> 0 < b \<Longrightarrow> a \<le> ceilDiv a b * b"
proof -
  assume a: "0 \<le> a" and b: "0 < b"
  have "(a + b - 1) div b * b + (a + b - 1) mod b = a + b - 1" by simp
  moreover have "(a + b - 1) mod b < b" using b by simp
  ultimately have "a \<le> (a + b - 1) div b * b" by linarith
  then show ?thesis by (simp add: ceilDiv_div a b)
qed

lemma ceilDiv_lower: "0 \<le> a \<Longrightarrow> 0 < b \<Longrightarrow> ceilDiv a b * b \<le> a + b - 1"
proof -
  assume a: "0 \<le> a" and b: "0 < b"
  have "(a + b - 1) div b * b + (a + b - 1) mod b = a + b - 1" by simp
  moreover have "0 \<le> (a + b - 1) mod b" using b by simp
  ultimately have "(a + b - 1) div b * b \<le> a + b - 1" by linarith
  then show ?thesis by (simp only: ceilDiv_div [OF a b])
qed

lemma ceilDiv_nonneg: "0 \<le> a \<Longrightarrow> 0 < b \<Longrightarrow> 0 \<le> ceilDiv a b"
  by (simp add: ceilDiv_div pos_imp_zdiv_nonneg_iff)

lemma ceilDiv_le_iff: "0 \<le> a \<Longrightarrow> 0 < b \<Longrightarrow> ceilDiv a b \<le> k \<longleftrightarrow> a \<le> k * b"
proof
  assume a: "0 \<le> a" and b: "0 < b" and "ceilDiv a b \<le> k"
  then have "ceilDiv a b * b \<le> k * b" by simp
  with ceilDiv_upper [OF a b] show "a \<le> k * b" by linarith
next
  assume a: "0 \<le> a" and b: "0 < b" and k: "a \<le> k * b"
  show "ceilDiv a b \<le> k"
  proof (rule ccontr)
    assume "\<not> ceilDiv a b \<le> k"
    then have "(k + 1) * b \<le> ceilDiv a b * b" using b by simp
    with ceilDiv_lower [OF a b] k b show False by (simp add: algebra_simps)
  qed
qed

lemma ceilDiv_mono: "0 \<le> a \<Longrightarrow> a \<le> a' \<Longrightarrow> 0 < b \<Longrightarrow> ceilDiv a b \<le> ceilDiv a' b"
  by (simp add: ceilDiv_div zdiv_mono1)

lemma ceilDiv_zero [simp]: "0 < b \<Longrightarrow> ceilDiv 0 b = 0"
  by (simp add: ceilDiv_div)

lemma ceilDiv_le_self: "0 \<le> a \<Longrightarrow> 0 < b \<Longrightarrow> ceilDiv a b \<le> a"
  using mult_left_mono [of 1 b a] by (simp add: ceilDiv_le_iff)

section \<open>Bit length\<close>

text \<open>The number of bits needed to write a number: \<open>math/bits.Len64\<close> on its argument.\<close>

function bit_len :: "int \<Rightarrow> nat" where
  "bit_len n = (if n \<le> 0 then 0 else Suc (bit_len (n div 2)))"
  by pat_completeness auto
termination by (relation "measure nat") (auto simp: nat_less_iff)

declare bit_len.simps [simp del]

lemma bit_len_nonpos [simp]: "n \<le> 0 \<Longrightarrow> bit_len n = 0"
  by (simp add: bit_len.simps)

lemma bit_len_pos: "0 < n \<Longrightarrow> bit_len n = Suc (bit_len (n div 2))"
  by (simp add: bit_len.simps [of n])

lemma bit_len_mono: "m \<le> n \<Longrightarrow> bit_len m \<le> bit_len n"
proof (induction n arbitrary: m rule: bit_len.induct)
  case (1 n)
  show ?case
  proof (cases "m \<le> 0")
    case False
    then have "\<not> n \<le> 0" using 1(2) by simp
    then have "bit_len (m div 2) \<le> bit_len (n div 2)"
      using 1 by (intro 1(1)) (auto intro: zdiv_mono1)
    with False \<open>\<not> n \<le> 0\<close> show ?thesis by (simp add: bit_len_pos)
  qed simp
qed

lemma bit_len_bound: "n < 2 ^ k \<Longrightarrow> bit_len n \<le> k"
proof (induction k arbitrary: n)
  case 0
  then show ?case by simp
next
  case (Suc k)
  show ?case
  proof (cases "n \<le> 0")
    case False
    moreover from Suc have "bit_len (n div 2) \<le> k" by auto
    ultimately show ?thesis by (simp add: bit_len_pos)
  qed simp
qed

lemma bit_len_less: "0 \<le> n \<Longrightarrow> n < 2 ^ bit_len n"
proof (induction n rule: bit_len.induct)
  case (1 n)
  show ?case
  proof (cases "n = 0")
    case False
    with 1(2) have n: "0 < n" by simp
    then have "n div 2 < 2 ^ bit_len (n div 2)" using 1 by simp
    then show ?thesis using n by (simp add: bit_len_pos)
  qed simp
qed

lemma bit_len_le: "0 < n \<Longrightarrow> 2 ^ (bit_len n - 1) \<le> n"
proof (induction n rule: bit_len.induct)
  case (1 n)
  show ?case
  proof (cases "n div 2 = 0")
    case True
    with 1 have "n = 1" by simp
    then show ?thesis by (simp add: bit_len_pos)
  next
    case False
    with 1(2) have n: "0 < n div 2" by simp
    then have "2 ^ (bit_len (n div 2) - 1) \<le> n div 2" using 1 by simp
    moreover from n have "bit_len (n div 2) \<noteq> 0" by (simp add: bit_len_pos)
    ultimately have "2 ^ bit_len (n div 2) \<le> n"
      by (cases "bit_len (n div 2)") auto
    then show ?thesis using 1(2) by (simp add: bit_len_pos)
  qed
qed

section \<open>Checks over a list with a seen set\<close>

text \<open>
  The validation loops: every element passes its own check and none was seen before; the first
  offender, in list order, is the error.
\<close>

fun uniqueE :: "(nat \<Rightarrow> 'a \<Rightarrow> 'e option) \<Rightarrow> (nat \<Rightarrow> 'a \<Rightarrow> 'e) \<Rightarrow> nat \<Rightarrow> 'a list \<Rightarrow> 'a list \<Rightarrow> 'e + unit" where
  "uniqueE check dup i seen [] = Inr ()"
| "uniqueE check dup i seen (x # xs) =
     (case check i x of
        Some e \<Rightarrow> Inl e
      | None \<Rightarrow> if x \<in> set seen then Inl (dup i x) else uniqueE check dup (Suc i) (x # seen) xs)"

lemma uniqueE_ok:
  "uniqueE check dup i seen xs = Inr () \<longleftrightarrow>
     distinct xs \<and> set xs \<inter> set seen = {} \<and> (\<forall>k < length xs. check (i + k) (xs ! k) = None)"
proof (induction xs arbitrary: i seen)
  case Nil
  then show ?case by simp
next
  case (Cons x xs)
  show ?case
    by (cases "check i x") (auto simp: Cons.IH less_Suc_eq_0_disj)
qed

fun eachE :: "(nat \<Rightarrow> 'a \<Rightarrow> 'e + unit) \<Rightarrow> nat \<Rightarrow> 'a list \<Rightarrow> 'e + unit" where
  "eachE check i [] = Inr ()"
| "eachE check i (x # xs) = bindE (check i x) (\<lambda>_. eachE check (Suc i) xs)"

lemma eachE_ok: "eachE check i xs = Inr () \<longleftrightarrow> (\<forall>k < length xs. check (i + k) (xs ! k) = Inr ())"
  by (induction xs arbitrary: i) (auto simp: run_simps less_Suc_eq_0_disj)

lemma eachE_error:
  "eachE check i xs = Inl e \<longleftrightarrow>
     (\<exists>k < length xs. check (i + k) (xs ! k) = Inl e \<and> (\<forall>j < k. check (i + j) (xs ! j) = Inr ()))"
proof (induction xs arbitrary: i)
  case Nil
  then show ?case by simp
next
  case (Cons x xs)
  show ?case
  proof (cases "check i x")
    case (Inl e')
    then have "k = 0" if "\<forall>j < k. check (i + j) ((x # xs) ! j) = Inr ()" for k
      using that by (cases k) auto
    with Inl show ?thesis by force
  next
    case (Inr u)
    then show ?thesis by (simp add: Cons.IH Ex_less_Suc2 All_less_Suc2)
  qed
qed

lemma eachE_all:
  assumes "\<And>i x. check i x = Inr () \<longleftrightarrow> P x"
  shows "eachE check n xs = Inr () \<longleftrightarrow> (\<forall>x \<in> set xs. P x)"
  by (induction xs arbitrary: n) (auto simp: run_simps assms)

end
