(* ===== verification/Par2.thy ===== *)
theory Par2
  imports Prelude "HOL-Library.Word"
begin

unbundle bit_operations_syntax

text \<open>
  Sizing of PAR2 recovery sets (\<open>pkg/par2/par2.go\<close>, \<open>pkg/par2/memory.go\<close>): the block
  size, the bound on the on-disk size of a set that Pack reserves with, and the memory
  plan handed to the par2 binary. Sizes are \<open>int\<close>; \<open>max_output_bytes_no_overflow\<close> gives
  the range in which the code's \<open>int64\<close> arithmetic cannot wrap.
\<close>

section \<open>Constants\<close>

definition maxSourceBlocks :: int where "maxSourceBlocks = 32768"

definition targetSourceBlocks :: int where "targetSourceBlocks = 2000"

definition blockSizeMultiple :: int where "blockSizeMultiple = 4"

definition recoveryPacketOverhead :: int where "recoveryPacketOverhead = 68"

definition sliceChecksumBytesPerBlock :: int where "sliceChecksumBytesPerBlock = 20"

definition criticalPerFileBytes :: int where "criticalPerFileBytes = 512"

definition criticalFixedBytes :: int where "criticalFixedBytes = 4096"

lemmas par2_constants = maxSourceBlocks_def targetSourceBlocks_def blockSizeMultiple_def
  recoveryPacketOverhead_def sliceChecksumBytesPerBlock_def criticalPerFileBytes_def
  criticalFixedBytes_def

section \<open>Block size\<close>

definition ComputeBlockSize :: "int \<Rightarrow> int \<Rightarrow> int" where
  "ComputeBlockSize totalSize fileCount =
     (let blockSize0 =
            (if fileCount < targetSourceBlocks sdiv 2
             then ceilDiv totalSize (targetSourceBlocks - fileCount)
             else ceilDiv totalSize (fileCount - 1));
          capacity0 = maxSourceBlocks - fileCount;
          capacity = (if capacity0 < 1 then 1 else capacity0);
          minimum = ceilDiv totalSize capacity;
          blockSize1 = (if blockSize0 < minimum then minimum else blockSize0);
          blockSize2 = ceilDiv blockSize1 blockSizeMultiple * blockSizeMultiple
      in if blockSize2 < blockSizeMultiple then blockSizeMultiple else blockSize2)"

text \<open>Rounding up to a multiple of four, and never below one multiple.\<close>

lemma round_up_multiple:
  assumes "0 \<le> b"
  shows "b \<le> ceilDiv b 4 * 4" "ceilDiv b 4 * 4 \<le> b + 3"
  using ceilDiv_upper [of b 4] ceilDiv_lower [of b 4] assms by simp_all

lemma ComputeBlockSize_mult4: "4 dvd ComputeBlockSize tot n"
  by (simp add: ComputeBlockSize_def Let_def blockSizeMultiple_def)

lemma ComputeBlockSize_ge4: "4 \<le> ComputeBlockSize tot n"
  by (simp add: ComputeBlockSize_def Let_def blockSizeMultiple_def)

lemma ComputeBlockSize_pos [simp]: "0 < ComputeBlockSize tot n"
  using ComputeBlockSize_ge4 [of tot n] by linarith

lemma ComputeBlockSize_ge_capacity:
  assumes "0 \<le> tot"
  shows "ceilDiv tot (max 1 (maxSourceBlocks - n)) \<le> ComputeBlockSize tot n"
proof -
  let ?cap = "if maxSourceBlocks - n < 1 then 1 else maxSourceBlocks - n"
  have cap: "?cap = max 1 (maxSourceBlocks - n)" "0 < ?cap" by auto
  define b0 where "b0 = (if n < targetSourceBlocks sdiv 2
             then ceilDiv tot (targetSourceBlocks - n) else ceilDiv tot (n - 1))"
  define b1 where "b1 = (if b0 < ceilDiv tot ?cap then ceilDiv tot ?cap else b0)"
  have m: "0 \<le> ceilDiv tot ?cap" using assms cap(2) by (rule ceilDiv_nonneg)
  have "ceilDiv tot ?cap \<le> b1" by (simp add: b1_def)
  moreover have "0 \<le> b1" using m by (auto simp: b1_def)
  then have "b1 \<le> ceilDiv b1 4 * 4" by (rule round_up_multiple)
  moreover have "ceilDiv b1 4 * 4 \<le> ComputeBlockSize tot n"
    by (simp add: ComputeBlockSize_def Let_def b1_def b0_def blockSizeMultiple_def)
  ultimately show ?thesis by (simp add: cap(1) [symmetric])
qed

text \<open>
  The number of source blocks par2 counts: every file is cut on its own, so each file may
  end in a partial block.
\<close>

definition source_blocks :: "int list \<Rightarrow> int \<Rightarrow> int" where
  "source_blocks fileSizes blockSize = sum_list (map (\<lambda>size. ceilDiv size blockSize) fileSizes)"

lemma source_blocks_nonneg:
  "(\<And>s. s \<in> set sizes \<Longrightarrow> 0 \<le> s) \<Longrightarrow> 0 < b \<Longrightarrow> 0 \<le> source_blocks sizes b"
  by (auto simp: source_blocks_def intro!: sum_list_nonneg ceilDiv_nonneg)

lemma source_blocks_upper:
  assumes "\<And>s. s \<in> set sizes \<Longrightarrow> 0 \<le> s" and "0 < b"
  shows "source_blocks sizes b * b \<le> sum_list sizes + int (length sizes) * (b - 1)"
  using assms
proof (induction sizes)
  case Nil
  then show ?case by (simp add: source_blocks_def)
next
  case (Cons s sizes)
  have "ceilDiv s b * b \<le> s + b - 1" using Cons.prems by (intro ceilDiv_lower) auto
  moreover have "source_blocks sizes b * b \<le> sum_list sizes + int (length sizes) * (b - 1)"
    using Cons.prems by (intro Cons.IH) auto
  ultimately show ?case by (simp add: source_blocks_def algebra_simps)
qed

lemma source_blocks_lower:
  assumes "\<And>s. s \<in> set sizes \<Longrightarrow> 0 \<le> s" and "0 < b"
  shows "sum_list sizes \<le> source_blocks sizes b * b"
  using assms
proof (induction sizes)
  case Nil
  then show ?case by (simp add: source_blocks_def)
next
  case (Cons s sizes)
  have "s \<le> ceilDiv s b * b" using Cons.prems by (intro ceilDiv_upper) auto
  moreover have "sum_list sizes \<le> source_blocks sizes b * b"
    using Cons.prems by (intro Cons.IH) auto
  ultimately show ?case by (simp add: source_blocks_def algebra_simps)
qed

lemma source_blocks_limit:
  assumes "\<And>s. s \<in> set sizes \<Longrightarrow> 0 \<le> s" and "int (length sizes) < maxSourceBlocks"
  shows "source_blocks sizes (ComputeBlockSize (sum_list sizes) (int (length sizes))) \<le> maxSourceBlocks"
proof -
  let ?n = "int (length sizes)" and ?t = "sum_list sizes"
  let ?b = "ComputeBlockSize ?t ?n" and ?c = "maxSourceBlocks - ?n"
  have t: "0 \<le> ?t" using assms(1) by (rule sum_list_nonneg)
  have c: "0 < ?c" using assms(2) by simp
  have "ceilDiv ?t ?c \<le> ?b"
    using ComputeBlockSize_ge_capacity [OF t, of ?n] c by (simp add: max_def split: if_splits)
  then have "?t \<le> ?b * ?c" by (simp add: ceilDiv_le_iff [OF t c])
  moreover have "source_blocks sizes ?b * ?b \<le> ?t + ?n * (?b - 1)"
    using assms(1) by (intro source_blocks_upper) auto
  ultimately have "source_blocks sizes ?b * ?b \<le> ?b * ?c + ?n * ?b - ?n"
    by (simp add: algebra_simps)
  also have "\<dots> \<le> maxSourceBlocks * ?b" by (simp add: algebra_simps)
  finally show ?thesis by (simp add: mult_le_cancel_right)
qed

section \<open>Bound on the recovery set\<close>

text \<open>\<open>math/bits.Len64\<close>: the number of bits needed to write a 64-bit value.\<close>

definition bits_Len64 :: "64 word \<Rightarrow> int" where
  "bits_Len64 x = int (bit_len (uint x))"

definition MaxOutputBytes :: "int \<Rightarrow> int \<Rightarrow> int \<Rightarrow> int" where
  "MaxOutputBytes dataBytes fileCount0 redundancyPercent =
     (let fileCount = (if fileCount0 < 1 then 1 else fileCount0);
          blockSize = ComputeBlockSize dataBytes fileCount;
          sourceBlocks0 = ceilDiv dataBytes blockSize + fileCount - 1;
          sourceBlocks = (if sourceBlocks0 < 1 then 1 else sourceBlocks0);
          recoveryBlocks = ceilDiv (sourceBlocks * redundancyPercent) 100 + 1;
          recoveryBytes = recoveryBlocks * (blockSize + recoveryPacketOverhead);
          criticalPerCopy = sliceChecksumBytesPerBlock * sourceBlocks
            + criticalPerFileBytes * fileCount + criticalFixedBytes;
          fileBits = bits_Len64 (word_of_int recoveryBlocks);
          criticalCopies = (fileBits + 2) * (fileBits + 1)
      in recoveryBytes + criticalPerCopy * criticalCopies)"

text \<open>The pieces of the bound, named for the proofs.\<close>

definition mo_files :: "int \<Rightarrow> int" where "mo_files n = max 1 n"

definition mo_block :: "int \<Rightarrow> int \<Rightarrow> int" where
  "mo_block d n = ComputeBlockSize d (mo_files n)"

definition mo_source :: "int \<Rightarrow> int \<Rightarrow> int" where
  "mo_source d n = max 1 (ceilDiv d (mo_block d n) + mo_files n - 1)"

definition mo_recovery :: "int \<Rightarrow> int \<Rightarrow> int \<Rightarrow> int" where
  "mo_recovery d n p = ceilDiv (mo_source d n * p) 100 + 1"

definition mo_critical :: "int \<Rightarrow> int \<Rightarrow> int" where
  "mo_critical d n = 20 * mo_source d n + 512 * mo_files n + 4096"

definition mo_copies :: "int \<Rightarrow> int" where
  "mo_copies r = (bits_Len64 (word_of_int r) + 2) * (bits_Len64 (word_of_int r) + 1)"

lemma MaxOutputBytes_split:
  "MaxOutputBytes d n p =
     mo_recovery d n p * (mo_block d n + 68) + mo_critical d n * mo_copies (mo_recovery d n p)"
proof -
  have s: "(if x < 1 then 1 else x) = max 1 x" for x :: int by (simp add: max_def)
  show ?thesis
    by (simp only: MaxOutputBytes_def Let_def s par2_constants mo_files_def mo_block_def mo_source_def
        mo_recovery_def mo_critical_def mo_copies_def)
qed

lemma mo_files_ge1: "1 \<le> mo_files n"
  by (simp add: mo_files_def)

lemma mo_source_ge1: "1 \<le> mo_source d n"
  by (simp add: mo_source_def)

lemma mo_recovery_ge1: "0 \<le> p \<Longrightarrow> 1 \<le> mo_recovery d n p"
  using mo_source_ge1 [of d n] by (simp add: mo_recovery_def ceilDiv_nonneg)

lemma mo_recovery_mono: "0 \<le> p \<Longrightarrow> p \<le> q \<Longrightarrow> mo_recovery d n p \<le> mo_recovery d n q"
  using mo_source_ge1 [of d n] by (auto simp: mo_recovery_def intro!: ceilDiv_mono mult_left_mono)

lemma uint_of_pos_int: "0 \<le> r \<Longrightarrow> r < 2 ^ 64 \<Longrightarrow> uint (word_of_int r :: 64 word) = r"
  by (simp add: uint_word_of_int)

lemma mo_copies_nonneg: "0 \<le> mo_copies r"
  by (simp add: mo_copies_def bits_Len64_def)

lemma mo_copies_mono: "0 \<le> r \<Longrightarrow> r \<le> s \<Longrightarrow> s < 2 ^ 64 \<Longrightarrow> mo_copies r \<le> mo_copies s"
proof -
  assume rs: "0 \<le> r" "r \<le> s" "s < 2 ^ 64"
  have "bit_len r \<le> bit_len s" using rs by (intro bit_len_mono) auto
  then show ?thesis using rs
    by (simp add: mo_copies_def bits_Len64_def uint_of_pos_int) (intro mult_mono, auto)
qed

text \<open>
  Pack and fill mode search the percentage upwards and stop at the first overflow, which is
  only right because the bound is monotone in the percentage.
\<close>

lemma MaxOutputBytes_mono:
  assumes "0 \<le> p" "p \<le> q" "mo_recovery d n q < 2 ^ 64"
  shows "MaxOutputBytes d n p \<le> MaxOutputBytes d n q"
proof -
  have r: "mo_recovery d n p \<le> mo_recovery d n q" using assms by (intro mo_recovery_mono)
  have b: "0 < mo_block d n" by (simp add: mo_block_def)
  have c: "0 \<le> mo_critical d n" using mo_source_ge1 [of d n] mo_files_ge1 [of n]
    by (simp add: mo_critical_def)
  have p1: "1 \<le> mo_recovery d n p" using assms(1) by (rule mo_recovery_ge1)
  have "mo_copies (mo_recovery d n p) \<le> mo_copies (mo_recovery d n q)"
    using p1 r assms(3) by (intro mo_copies_mono) auto
  then show ?thesis unfolding MaxOutputBytes_split
    using r b c p1 by (intro add_mono mult_right_mono mult_left_mono) auto
qed

lemma MaxOutputBytes_pos: "0 \<le> p \<Longrightarrow> 0 < MaxOutputBytes d n p"
proof -
  assume p: "0 \<le> p"
  have "0 < mo_recovery d n p * (mo_block d n + 68)"
    using mo_recovery_ge1 [OF p, of d n] by (intro mult_pos_pos) (auto simp: mo_block_def add_pos_pos)
  moreover have "0 \<le> mo_critical d n * mo_copies (mo_recovery d n p)"
    using mo_source_ge1 [of d n] mo_files_ge1 [of n] mo_copies_nonneg
    by (intro mult_nonneg_nonneg) (auto simp: mo_critical_def)
  ultimately show ?thesis by (simp add: MaxOutputBytes_split)
qed

lemma MaxOutputBytes_covers:
  assumes "0 \<le> d" "0 \<le> p"
  shows "d * p \<le> 100 * MaxOutputBytes d n p"
proof -
  let ?b = "mo_block d n" and ?s = "mo_source d n" and ?r = "mo_recovery d n p"
  have b: "0 < ?b" by (simp add: mo_block_def)
  have "d \<le> ceilDiv d ?b * ?b" using assms b by (intro ceilDiv_upper)
  also have "\<dots> \<le> ?s * ?b" using b mo_files_ge1 [of n] by (intro mult_right_mono) (auto simp: mo_source_def)
  finally have "d * p \<le> ?s * p * ?b" using assms(2) mult_right_mono [of d "?s * ?b" p] by (simp add: ac_simps)
  also have "?s * p \<le> ceilDiv (?s * p) 100 * 100"
    using assms(2) mo_source_ge1 [of d n] by (intro ceilDiv_upper) auto
  then have "?s * p * ?b \<le> ?r * 100 * ?b"
    using b by (intro mult_right_mono) (auto simp: mo_recovery_def)
  also have "\<dots> \<le> 100 * (?r * (?b + 68))"
    using mo_recovery_ge1 [OF assms(2), of d n] by (simp add: algebra_simps)
  also have "\<dots> \<le> 100 * MaxOutputBytes d n p"
    using mo_source_ge1 [of d n] mo_files_ge1 [of n] mo_copies_nonneg
    by (simp add: MaxOutputBytes_split mo_critical_def)
  finally show ?thesis .
qed


section \<open>Memory plan\<close>

definition mebibyte :: int where "mebibyte = 2 ^ 20"

definition maxChunkBytes :: int where "maxChunkBytes = 32 * 2 ^ 20"

definition transferBuffers :: int where "transferBuffers = 2"

definition maxStagingBuffers :: int where "maxStagingBuffers = 24"

definition MinMemoryLimit :: int where "MinMemoryLimit = 128 * 2 ^ 20"

definition MaxMemoryBudget :: int where "MaxMemoryBudget = 8 * 2 ^ 30"

lemmas memory_constants = mebibyte_def maxChunkBytes_def transferBuffers_def
  maxStagingBuffers_def MinMemoryLimit_def MaxMemoryBudget_def

record MemoryPlan =
  BlockSize :: int
  SourceBlocks :: int
  RecoveryBlocks :: int
  Limit :: int
  ChunkSize :: int
  Passes :: int
  InputReads :: int

text \<open>
  The plan, in the order of the code. A division by zero in Go panics: \<open>ceilDiv blockSize 0\<close>
  in the computation of \<open>Passes\<close> is the only candidate, and is \<open>None\<close>.
\<close>

definition PlanMemory :: "int list \<Rightarrow> int \<Rightarrow> int \<Rightarrow> MemoryPlan option" where
  "PlanMemory fileSizes redundancyPercent budget =
     (let tot = foldl (+) 0 fileSizes;
          blockSize = ComputeBlockSize tot (int (length fileSizes));
          sourceBlocks = foldl (\<lambda>acc size. acc + ceilDiv size blockSize) 0 fileSizes;
          recoveryBlocks = max ((sourceBlocks * redundancyPercent + 50) sdiv 100) 1;
          buffers = recoveryBlocks + transferBuffers + min maxStagingBuffers (sourceBlocks + 1);
          limit0 = ceilDiv (min blockSize maxChunkBytes * buffers) mebibyte * mebibyte;
          limit1 = min limit0 (budget sdiv mebibyte * mebibyte);
          limit = max limit1 mebibyte;
          chunkSize0 =
            (if blockSize * buffers > limit then (limit sdiv buffers) AND NOT 3 else blockSize);
          chunkSize = min chunkSize0 maxChunkBytes;
          inputReads = (if chunkSize = blockSize then 1 else 2)
      in if chunkSize = 0 then None
         else Some \<lparr> BlockSize = blockSize, SourceBlocks = sourceBlocks,
                RecoveryBlocks = recoveryBlocks, Limit = limit, ChunkSize = chunkSize,
                Passes = ceilDiv blockSize chunkSize, InputReads = inputReads \<rparr>)"

definition BudgetFor :: "int \<Rightarrow> int" where
  "BudgetFor available = min (max (available sdiv 2) MinMemoryLimit) MaxMemoryBudget"

record headroomMin =
  hr_value :: int
  hr_limited :: bool

definition headroomMin_add :: "headroomMin \<Rightarrow> int \<Rightarrow> bool \<Rightarrow> headroomMin" where
  "headroomMin_add h headroom ok =
     (if ok \<and> (\<not> hr_limited h \<or> headroom < hr_value h)
      then h\<lparr> hr_value := max headroom 0, hr_limited := True \<rparr> else h)"


subsection \<open>The plan, piece by piece\<close>

lemma foldl_sum: "foldl (+) a xs = a + sum_list (xs :: int list)"
  by (induction xs arbitrary: a) (simp_all add: ac_simps)

lemma foldl_source_blocks:
  "foldl (\<lambda>acc size. acc + ceilDiv size b) a sizes = a + source_blocks sizes b"
  by (induction sizes arbitrary: a) (simp_all add: source_blocks_def ac_simps)

lemma push_drop_bit: "push_bit k (drop_bit k x) = x AND NOT (mask k)" for x :: int
  by (rule bit_eqI) (auto simp: bit_simps)

lemma and_not_3: "x AND NOT 3 = 4 * (x div 4)" for x :: int
  using push_drop_bit [of 2 x] by (simp add: mask_eq_exp_minus_1 push_bit_eq_mult drop_bit_eq_div)

text \<open>The inputs par2 is planned for: real sizes, a file count par2 accepts, a percentage.\<close>

definition plan_input :: "int list \<Rightarrow> int \<Rightarrow> bool" where
  "plan_input fileSizes redundancyPercent \<longleftrightarrow>
     (\<forall>s \<in> set fileSizes. 0 \<le> s) \<and> int (length fileSizes) < maxSourceBlocks
     \<and> 0 \<le> redundancyPercent \<and> redundancyPercent \<le> 100"

definition pm_block :: "int list \<Rightarrow> int" where
  "pm_block sizes = ComputeBlockSize (sum_list sizes) (int (length sizes))"

definition pm_recovery :: "int list \<Rightarrow> int \<Rightarrow> int" where
  "pm_recovery sizes p = max ((source_blocks sizes (pm_block sizes) * p + 50) sdiv 100) 1"

definition pm_buffers :: "int list \<Rightarrow> int \<Rightarrow> int" where
  "pm_buffers sizes p =
     pm_recovery sizes p + 2 + min 24 (source_blocks sizes (pm_block sizes) + 1)"

definition pm_wanted :: "int list \<Rightarrow> int \<Rightarrow> int" where
  "pm_wanted sizes p =
     ceilDiv (min (pm_block sizes) maxChunkBytes * pm_buffers sizes p) mebibyte * mebibyte"

definition pm_limit :: "int list \<Rightarrow> int \<Rightarrow> int \<Rightarrow> int" where
  "pm_limit sizes p budget =
     max (min (pm_wanted sizes p) (budget sdiv mebibyte * mebibyte)) mebibyte"

definition pm_chunk :: "int list \<Rightarrow> int \<Rightarrow> int \<Rightarrow> int" where
  "pm_chunk sizes p budget =
     min (if pm_block sizes * pm_buffers sizes p > pm_limit sizes p budget
          then 4 * (pm_limit sizes p budget sdiv pm_buffers sizes p div 4) else pm_block sizes)
       maxChunkBytes"

lemma PlanMemory_split:
  "PlanMemory sizes p budget =
     (if pm_chunk sizes p budget = 0 then None
      else Some \<lparr> BlockSize = pm_block sizes,
        SourceBlocks = source_blocks sizes (pm_block sizes),
        RecoveryBlocks = pm_recovery sizes p, Limit = pm_limit sizes p budget,
        ChunkSize = pm_chunk sizes p budget,
        Passes = ceilDiv (pm_block sizes) (pm_chunk sizes p budget),
        InputReads = (if pm_chunk sizes p budget = pm_block sizes then 1 else 2) \<rparr>)"
  by (simp only: PlanMemory_def Let_def foldl_sum foldl_source_blocks and_not_3 pm_block_def
      pm_recovery_def pm_buffers_def pm_wanted_def pm_limit_def pm_chunk_def transferBuffers_def
      maxStagingBuffers_def add_0)

lemma pm_block_pos [simp]: "0 < pm_block sizes" "4 \<le> pm_block sizes"
  by (simp_all add: pm_block_def ComputeBlockSize_ge4)

lemma pm_source_bounds:
  assumes "plan_input sizes p"
  shows "0 \<le> source_blocks sizes (pm_block sizes)" "source_blocks sizes (pm_block sizes) \<le> 32768"
  using assms source_blocks_nonneg [of sizes "pm_block sizes"] source_blocks_limit [of sizes]
  by (auto simp: plan_input_def pm_block_def maxSourceBlocks_def)

lemma pm_recovery_bounds:
  assumes "plan_input sizes p"
  shows "1 \<le> pm_recovery sizes p" "pm_recovery sizes p \<le> 32768"
proof -
  let ?s = "source_blocks sizes (pm_block sizes)"
  note s = pm_source_bounds [OF assms]
  have p: "0 \<le> p" "p \<le> 100" using assms by (simp_all add: plan_input_def)
  have nn: "0 \<le> ?s * p" using s p by simp
  moreover have "?s * p \<le> 32768 * 100" using s p by (intro mult_mono) auto
  ultimately show "pm_recovery sizes p \<le> 32768" by (simp add: pm_recovery_def sdiv_nonneg)
qed (simp add: pm_recovery_def)

lemma pm_buffers_bounds:
  assumes "plan_input sizes p"
  shows "4 \<le> pm_buffers sizes p" "pm_buffers sizes p \<le> 32794"
  using pm_recovery_bounds [OF assms] pm_source_bounds [OF assms] by (auto simp: pm_buffers_def)

lemma pm_limit_ge: "mebibyte \<le> pm_limit sizes p budget"
  by (simp add: pm_limit_def)

lemma pm_chunk_pos:
  assumes "plan_input sizes p"
  shows "0 < pm_chunk sizes p budget"
proof -
  let ?l = "pm_limit sizes p budget" and ?b = "pm_buffers sizes p"
  note b = pm_buffers_bounds [OF assms]
  have "mebibyte div 32794 \<le> mebibyte div ?b"
    using b by (intro zdiv_mono2) (auto simp: mebibyte_def)
  also have "\<dots> \<le> ?l div ?b" using b pm_limit_ge by (intro zdiv_mono1) auto
  finally have "31 \<le> ?l div ?b" by (simp add: mebibyte_def)
  moreover have "?l sdiv ?b = ?l div ?b"
    using b pm_limit_ge [of sizes p budget] by (intro sdiv_nonneg) (auto simp: mebibyte_def)
  ultimately show ?thesis by (simp add: pm_chunk_def maxChunkBytes_def)
qed

lemma pm_chunk_le_max: "pm_chunk sizes p budget \<le> maxChunkBytes"
  by (simp add: pm_chunk_def)

lemma pm_chunk_le_block:
  assumes "plan_input sizes p"
  shows "pm_chunk sizes p budget \<le> pm_block sizes"
proof (cases "pm_block sizes * pm_buffers sizes p > pm_limit sizes p budget")
  case True
  let ?l = "pm_limit sizes p budget" and ?b = "pm_buffers sizes p"
  have b: "0 < ?b" using pm_buffers_bounds [OF assms] by simp
  have l: "0 \<le> ?l" using pm_limit_ge [of sizes p budget] by (simp add: mebibyte_def)
  have "?l div ?b * ?b \<le> ?l" using b by (rule div_mult_le)
  also have "\<dots> < pm_block sizes * ?b" by (rule True)
  finally have "?l div ?b < pm_block sizes" using b by simp
  with True show ?thesis by (simp add: pm_chunk_def sdiv_nonneg [OF l b])
qed (simp add: pm_chunk_def)

lemma pm_chunk_fits:
  assumes "plan_input sizes p"
  shows "pm_chunk sizes p budget * pm_buffers sizes p \<le> pm_limit sizes p budget"
proof -
  let ?l = "pm_limit sizes p budget" and ?b = "pm_buffers sizes p"
  have b: "0 < ?b" using pm_buffers_bounds [OF assms] by simp
  have l: "0 \<le> ?l" using pm_limit_ge [of sizes p budget] by (simp add: mebibyte_def)
  have m: "min x y * ?b \<le> x * ?b" for x y using b by simp
  show ?thesis
  proof (cases "pm_block sizes * ?b > ?l")
    case True
    have "4 * (?l div ?b div 4) * ?b \<le> ?l div ?b * ?b"
      using b by (intro mult_right_mono) auto
    also have "\<dots> \<le> ?l" using b by (rule div_mult_le)
    finally show ?thesis
      using m [of "4 * (?l div ?b div 4)" maxChunkBytes] True
      by (simp add: pm_chunk_def sdiv_nonneg [OF l b])
  next
    case False
    then show ?thesis using m [of "pm_block sizes" maxChunkBytes] by (simp add: pm_chunk_def)
  qed
qed


lemma pm_wanted_within_budget:
  assumes "plan_input sizes p" and "pm_wanted sizes p \<le> budget"
  shows "pm_chunk sizes p budget = min (pm_block sizes) maxChunkBytes"
proof -
  let ?b = "pm_buffers sizes p" and ?m = "min (pm_block sizes) maxChunkBytes"
  have b: "0 < ?b" using pm_buffers_bounds [OF assms(1)] by simp
  have m: "0 < ?m" by (simp add: maxChunkBytes_def)
  have up: "?m * ?b \<le> pm_wanted sizes p"
    unfolding pm_wanted_def using mult_pos_pos [OF m b]
    by (intro ceilDiv_upper) (auto simp: mebibyte_def)
  then have pos: "0 < pm_wanted sizes p" using mult_pos_pos [OF m b] by linarith
  have "pm_wanted sizes p = pm_wanted sizes p div mebibyte * mebibyte"
    by (simp add: pm_wanted_def mebibyte_def)
  also have "\<dots> \<le> budget div mebibyte * mebibyte"
    using assms(2) by (intro mult_right_mono zdiv_mono1) (auto simp: mebibyte_def)
  finally have "pm_wanted sizes p \<le> budget sdiv mebibyte * mebibyte"
    using pos assms(2) by (simp add: sdiv_nonneg mebibyte_def)
  then have l: "pm_limit sizes p budget = max (pm_wanted sizes p) mebibyte"
    by (simp add: pm_limit_def)
  have up2: "?m * ?b \<le> pm_limit sizes p budget" using up by (simp add: l)
  show ?thesis
  proof (cases "pm_block sizes \<le> maxChunkBytes")
    case True
    then show ?thesis using up2 by (simp add: pm_chunk_def)
  next
    case False
    then have "maxChunkBytes * ?b \<le> pm_limit sizes p budget" using up2 by simp
    then have "maxChunkBytes * ?b div ?b \<le> pm_limit sizes p budget div ?b"
      using b by (intro zdiv_mono1)
    then have q: "2 ^ 25 \<le> pm_limit sizes p budget div ?b" using b by (simp add: maxChunkBytes_def)
    then have "2 ^ 25 div 4 \<le> pm_limit sizes p budget div ?b div 4" by (intro zdiv_mono1) auto
    moreover have "pm_limit sizes p budget sdiv ?b = pm_limit sizes p budget div ?b"
      using b pm_limit_ge [of sizes p budget] by (intro sdiv_nonneg) (auto simp: mebibyte_def)
    ultimately show ?thesis using False by (simp add: pm_chunk_def maxChunkBytes_def)
  qed
qed

lemma ComputeBlockSize_upper:
  assumes "0 \<le> d" "1 \<le> n"
  shows "ComputeBlockSize d n \<le> d + 4"
proof -
  have c: "ceilDiv d k \<le> d" if "0 < k" for k using assms(1) that by (rule ceilDiv_le_self)
  define b0 where "b0 = (if n < targetSourceBlocks sdiv 2
             then ceilDiv d (targetSourceBlocks - n) else ceilDiv d (n - 1))"
  define m where "m = ceilDiv d (if maxSourceBlocks - n < 1 then 1 else maxSourceBlocks - n)"
  have "b0 \<le> d" by (auto simp: b0_def targetSourceBlocks_def sdiv_nonneg intro!: c)
  moreover have "m \<le> d" "0 \<le> m" using assms(1) by (auto simp: m_def intro!: c ceilDiv_nonneg)
  ultimately have "(if b0 < m then m else b0) \<le> d" "0 \<le> (if b0 < m then m else b0)" by auto
  then have "ceilDiv (if b0 < m then m else b0) 4 * 4 \<le> d + 3"
    using round_up_multiple(2) [of "if b0 < m then m else b0"] by linarith
  then show ?thesis using assms(1)
    unfolding ComputeBlockSize_def Let_def blockSizeMultiple_def b0_def [symmetric] m_def [symmetric]
    by simp
qed

lemma mo_source_upper:
  assumes "0 \<le> d" "0 \<le> n"
  shows "mo_source d n * mo_block d n \<le> d + mo_files n * mo_block d n + mo_block d n"
    "mo_source d n \<le> d + mo_files n"
proof -
  have b: "0 < mo_block d n" by (simp add: mo_block_def)
  have "ceilDiv d (mo_block d n) * mo_block d n \<le> d + mo_block d n - 1"
    using assms(1) b by (rule ceilDiv_lower)
  then show "mo_source d n * mo_block d n \<le> d + mo_files n * mo_block d n + mo_block d n"
    using assms b mo_files_ge1 [of n] by (simp add: mo_source_def max_def algebra_simps)
  show "mo_source d n \<le> d + mo_files n"
    using assms mo_files_ge1 [of n] ceilDiv_le_self [OF assms(1) b] by (simp add: mo_source_def)
qed


lemma mo_copies_bound: "0 \<le> r \<Longrightarrow> r < 2 ^ 46 \<Longrightarrow> mo_copies r \<le> 48 * 47"
proof -
  assume r: "0 \<le> r" "r < 2 ^ 46"
  have "bit_len r \<le> 46" using r by (intro bit_len_bound) simp
  then have "(int (bit_len r) + 2) * (int (bit_len r) + 1) \<le> 48 * 47"
    by (intro mult_mono) auto
  then show ?thesis using r by (simp add: mo_copies_def bits_Len64_def uint_of_pos_int)
qed

text \<open>
  Per-file rounding never exceeds what the bound allows for: par2's own block count, over any
  split of the bytes into files, is at most \<open>mo_source\<close>.
\<close>

lemma source_blocks_le_mo_source:
  assumes "\<And>s. s \<in> set sizes \<Longrightarrow> 0 \<le> s" "sizes \<noteq> []"
  shows "source_blocks sizes (pm_block sizes)
           \<le> mo_source (sum_list sizes) (int (length sizes))"
proof -
  let ?n = "int (length sizes)" and ?b = "pm_block sizes" and ?d = "sum_list sizes"
  have n: "mo_files ?n = ?n" using assms(2) by (cases sizes) (auto simp: mo_files_def)
  have b: "mo_block ?d ?n = ?b" "0 < ?b" by (simp_all add: mo_block_def n pm_block_def)
  have d: "0 \<le> ?d" using assms(1) by (rule sum_list_nonneg)
  have "source_blocks sizes ?b * ?b \<le> ?d + ?n * (?b - 1)"
    using assms(1) b(2) by (rule source_blocks_upper)
  also have "\<dots> \<le> ceilDiv ?d ?b * ?b + ?n * (?b - 1)" using d b(2) ceilDiv_upper [of ?d ?b] by simp
  also have "\<dots> < (ceilDiv ?d ?b + ?n) * ?b"
    using assms(2) by (cases sizes) (auto simp: algebra_simps)
  finally have "source_blocks sizes ?b < ceilDiv ?d ?b + ?n" using b(2) by simp
  then show ?thesis by (simp add: mo_source_def b n)
qed

section \<open>Properties\<close>

text \<open>Whatever the file sizes, \<open>ComputeBlockSize\<close> yields a block size par2 accepts:
  a positive multiple of four under which the files, each cut into blocks on its own, need
  no more than the format's 32,768 source blocks.\<close>

theorem compute_block_size_valid:
  assumes "\<forall>s \<in> set fileSizes. 0 \<le> s" and "int (length fileSizes) < maxSourceBlocks"
    and "blockSize = ComputeBlockSize (sum_list fileSizes) (int (length fileSizes))"
  shows "4 dvd blockSize \<and> 4 \<le> blockSize \<and> source_blocks fileSizes blockSize \<le> maxSourceBlocks"
  using assms ComputeBlockSize_mult4 ComputeBlockSize_ge4 source_blocks_limit [of fileSizes] by auto

lemma compute_block_size_valid_witness:
  "4 dvd (8::int) \<and> 4 \<le> (8::int) \<and> source_blocks [10000, 5001] 8 \<le> maxSourceBlocks"
  by (rule compute_block_size_valid)
    (simp_all add: maxSourceBlocks_def ComputeBlockSize_def Let_def par2_constants ceilDiv_div sdiv_nonneg)

text \<open>The bound Pack reserves with dominates what par2 writes: however the bytes are split
  into files, the recovery blocks of par2's own rounding (the count \<open>PlanMemory\<close> derives),
  each with its packet header, together with a full copy of the per-block checksums, fit under
  \<open>MaxOutputBytes\<close>, which also covers the naive share \<open>percent / 100\<close> of the data.\<close>

theorem max_output_bytes_dominates:
  assumes "plan_input fileSizes percent" and "fileSizes \<noteq> []"
    and "PlanMemory fileSizes percent budget = Some plan"
    and "bound = MaxOutputBytes (sum_list fileSizes) (int (length fileSizes)) percent"
  shows "RecoveryBlocks plan * (BlockSize plan + recoveryPacketOverhead)
      + sliceChecksumBytesPerBlock * SourceBlocks plan \<le> bound
    \<and> sum_list fileSizes * percent \<le> 100 * bound"
proof -
  let ?d = "sum_list fileSizes" and ?n = "int (length fileSizes)"
  let ?s = "source_blocks fileSizes (pm_block fileSizes)"
  have p: "0 \<le> percent" and sizes: "\<And>x. x \<in> set fileSizes \<Longrightarrow> 0 \<le> x"
    using assms(1) by (simp_all add: plan_input_def)
  have s: "0 \<le> ?s" "?s \<le> mo_source ?d ?n"
    using pm_source_bounds [OF assms(1)] source_blocks_le_mo_source [OF sizes assms(2)] by auto
  have "(?s * percent + 50) div 100 \<le> (mo_source ?d ?n * percent + 100 - 1) div 100"
    using s p mult_right_mono [of ?s "mo_source ?d ?n" percent] by (intro zdiv_mono1) auto
  then have r: "pm_recovery fileSizes percent \<le> mo_recovery ?d ?n percent"
    using s p mo_recovery_ge1 [OF p, of ?d ?n] mo_source_ge1 [of ?d ?n]
    by (simp add: pm_recovery_def mo_recovery_def ceilDiv_div sdiv_nonneg)
  have n: "mo_files ?n = ?n" using assms(2) by (cases fileSizes) (auto simp: mo_files_def)
  have b: "mo_block ?d ?n = pm_block fileSizes" by (simp add: mo_block_def n pm_block_def)
  have "pm_recovery fileSizes percent * (pm_block fileSizes + 68)
      \<le> mo_recovery ?d ?n percent * (mo_block ?d ?n + 68)"
    unfolding b using r pm_block_pos(1) [of fileSizes] by (intro mult_right_mono) (simp_all del: pm_block_pos)
  moreover have "20 * ?s \<le> mo_critical ?d ?n * mo_copies (mo_recovery ?d ?n percent)"
  proof -
    have "20 * ?s \<le> mo_critical ?d ?n" using s mo_files_ge1 [of ?n] by (simp add: mo_critical_def)
    moreover have "1 \<le> mo_copies x" for x 
      by (simp add: mo_copies_def bits_Len64_def algebra_simps)
    ultimately show ?thesis using s
        mult_mono [of "20 * ?s" "mo_critical ?d ?n" 1 "mo_copies (mo_recovery ?d ?n percent)"]
      by simp
  qed
  moreover have "?d * percent \<le> 100 * MaxOutputBytes ?d ?n percent"
    using sizes p by (intro MaxOutputBytes_covers sum_list_nonneg)
  ultimately show ?thesis using assms(3, 4)
    by (auto simp: PlanMemory_split MaxOutputBytes_split par2_constants split: if_splits)
qed

definition example_plan :: MemoryPlan where
  "example_plan = \<lparr> BlockSize = 8, SourceBlocks = 1876, RecoveryBlocks = 188, Limit = 2 ^ 20,
     ChunkSize = 8, Passes = 1, InputReads = 1 \<rparr>"

lemma plan_example: "PlanMemory [10000, 5001] 10 (2 ^ 20) = Some example_plan"
  by code_simp

lemma max_output_bytes_dominates_witness:
  "RecoveryBlocks example_plan * (BlockSize example_plan + recoveryPacketOverhead)
     + sliceChecksumBytesPerBlock * SourceBlocks example_plan \<le> MaxOutputBytes 15001 2 10
   \<and> 15001 * 10 \<le> 100 * MaxOutputBytes 15001 2 10"
  using max_output_bytes_dominates [of "[10000, 5001]" 10 "2 ^ 20" example_plan] plan_example
  by (simp add: plan_input_def maxSourceBlocks_def)

text \<open>Within the sizes a tape archive can have (32 TiB in at most 32,767 files), the bound
  and its intermediate values stay inside \<open>int64\<close>, and a larger percentage never lowers it;
  the reserve search and fill mode both rely on that to stop at the first overflow.\<close>

theorem max_output_bytes_no_overflow:
  assumes "0 \<le> dataBytes" "dataBytes \<le> 2 ^ 45" "0 \<le> fileCount" "fileCount < maxSourceBlocks"
    and "0 \<le> percent" "percent \<le> percent'" "percent' \<le> 100"
  shows "0 < MaxOutputBytes dataBytes fileCount percent
    \<and> MaxOutputBytes dataBytes fileCount percent \<le> MaxOutputBytes dataBytes fileCount percent'
    \<and> MaxOutputBytes dataBytes fileCount percent' < 2 ^ 63"
proof -
  note d = assms(1,2) and n = assms(3,4)
  let ?s = "mo_source dataBytes fileCount" and ?b = "mo_block dataBytes fileCount"
  let ?r = "mo_recovery dataBytes fileCount percent'" and ?f = "mo_files fileCount"
  have f: "1 \<le> ?f" "?f \<le> 32767" using n by (auto simp: mo_files_def maxSourceBlocks_def)
  have b: "4 \<le> ?b" "?b \<le> 2 ^ 45 + 4"
    using ComputeBlockSize_upper [OF d(1) f(1)] d(2) by (auto simp: mo_block_def ComputeBlockSize_ge4)
  have s: "1 \<le> ?s" "?s \<le> 2 ^ 45 + 32767" "?s * ?b \<le> dataBytes + ?f * ?b + ?b"
    using mo_source_upper [OF d(1) n(1)] mo_source_ge1 d(2) f(2) by auto
  have fb: "?f * ?b \<le> 32767 * (2 ^ 45 + 4)" using f b by (intro mult_mono) auto
  have r: "1 \<le> ?r" "?r \<le> ?s + 1"
  proof -
    show "1 \<le> ?r" using assms by (intro mo_recovery_ge1) auto
    have "?s * percent' \<le> ?s * 100" using s assms(7) by (intro mult_left_mono) auto
    then show "?r \<le> ?s + 1"
      using s assms by (simp add: mo_recovery_def ceilDiv_le_iff)
  qed
  have r46: "?r < 2 ^ 46" using r s by simp
  have "?r * (?b + 68) \<le> (?s + 1) * (?b + 68)" using r b by (intro mult_right_mono) auto
  also have "\<dots> = ?s * ?b + 68 * ?s + ?b + 68" by (simp add: algebra_simps)
  also have "\<dots> \<le> 2 ^ 61" using s fb b d by simp
  finally have rec: "?r * (?b + 68) \<le> 2 ^ 61" .
  have crit: "0 \<le> mo_critical dataBytes fileCount"
      "mo_critical dataBytes fileCount \<le> 20 * 2 ^ 45 + 2 ^ 26"
    using s f by (auto simp: mo_critical_def)
  have "mo_critical dataBytes fileCount * mo_copies ?r \<le> (20 * 2 ^ 45 + 2 ^ 26) * (48 * 47)"
    using crit mo_copies_bound [of ?r] mo_copies_nonneg r r46 by (intro mult_mono) auto
  then have "MaxOutputBytes dataBytes fileCount percent' < 2 ^ 63"
    using rec by (simp add: MaxOutputBytes_split)
  moreover have "MaxOutputBytes dataBytes fileCount percent
      \<le> MaxOutputBytes dataBytes fileCount percent'"
    using assms r46 by (intro MaxOutputBytes_mono) auto
  ultimately show ?thesis using assms(5) by (simp add: MaxOutputBytes_pos)
qed

lemma max_output_bytes_no_overflow_witness:
  "0 < MaxOutputBytes (2 ^ 40) 12 5
    \<and> MaxOutputBytes (2 ^ 40) 12 5 \<le> MaxOutputBytes (2 ^ 40) 12 100
    \<and> MaxOutputBytes (2 ^ 40) 12 100 < 2 ^ 63"
  by (rule max_output_bytes_no_overflow) (simp_all add: maxSourceBlocks_def)

text \<open>The memory plan is always usable. \<open>PlanMemory\<close> does not panic; the limit is a
  whole number of MiB, at least one and otherwise within the budget; one chunk for every
  buffer fits in it; the passes are the fewest chunks that cover the block; par2 reads the
  input once exactly when one pass suffices; and when the budget holds a full set of buffers
  the chunk is the largest par2 ever uses.\<close>

theorem plan_memory_sound:
  assumes "plan_input fileSizes percent" and "0 \<le> budget"
  shows "\<exists>plan. PlanMemory fileSizes percent budget = Some plan
    \<and> 0 < ChunkSize plan \<and> ChunkSize plan \<le> BlockSize plan \<and> ChunkSize plan \<le> maxChunkBytes
    \<and> mebibyte dvd Limit plan \<and> mebibyte \<le> Limit plan \<and> Limit plan \<le> max budget mebibyte
    \<and> ChunkSize plan * (RecoveryBlocks plan + transferBuffers
         + min maxStagingBuffers (SourceBlocks plan + 1)) \<le> Limit plan
    \<and> BlockSize plan \<le> Passes plan * ChunkSize plan
    \<and> (Passes plan - 1) * ChunkSize plan < BlockSize plan
    \<and> (InputReads plan = 1 \<longleftrightarrow> Passes plan = 1)
    \<and> (pm_wanted fileSizes percent \<le> budget
         \<longrightarrow> ChunkSize plan = min (BlockSize plan) maxChunkBytes)"
proof -
  let ?c = "pm_chunk fileSizes percent budget" and ?b = "pm_block fileSizes"
  let ?l = "pm_limit fileSizes percent budget" and ?k = "ceilDiv ?b ?c"
  note c = pm_chunk_pos [OF assms(1), of budget] pm_chunk_le_block [OF assms(1), of budget]
  have b: "0 \<le> ?b" using pm_block_pos(1) [of fileSizes] by (rule less_imp_le)
  have cover: "?b \<le> ?k * ?c" "(?k - 1) * ?c < ?b"
    using ceilDiv_upper [OF b c(1)] ceilDiv_lower [OF b c(1)] by (simp_all add: algebra_simps)
  have one: "?c = ?b \<longleftrightarrow> ?k = 1"
  proof
    assume "?c = ?b"
    then have "1 * ?c \<le> ?k * ?c" "(?k - 1) * ?c < 1 * ?c" using cover by simp_all
    then have "1 \<le> ?k" "?k - 1 < 1" using c(1) by (auto simp only: mult_le_cancel_right mult_less_cancel_right)
    then show "?k = 1" by simp
  next
    assume "?k = 1"
    then show "?c = ?b" using cover(1) c(2) by simp
  qed
  have "?l \<le> max budget mebibyte" using assms(2) div_mult_le [of mebibyte budget]
    by (auto simp: pm_limit_def sdiv_nonneg mebibyte_def)
  moreover have "mebibyte dvd ?l"
    by (auto simp: pm_limit_def pm_wanted_def max_def min_def)
  moreover have "?c * (pm_recovery fileSizes percent + transferBuffers
      + min maxStagingBuffers (source_blocks fileSizes ?b + 1)) \<le> ?l"
    using pm_chunk_fits [OF assms(1)] by (simp add: pm_buffers_def memory_constants)
  ultimately show ?thesis
    using c cover one pm_limit_ge pm_wanted_within_budget [OF assms(1)] pm_chunk_le_max
    by (auto simp: PlanMemory_split)
qed


lemma plan_memory_sound_witness:
  "\<exists>plan. PlanMemory [10000, 5001] 10 (2 ^ 20) = Some plan
    \<and> 0 < ChunkSize plan \<and> ChunkSize plan \<le> BlockSize plan \<and> ChunkSize plan \<le> maxChunkBytes
    \<and> mebibyte dvd Limit plan \<and> mebibyte \<le> Limit plan \<and> Limit plan \<le> max (2 ^ 20) mebibyte
    \<and> ChunkSize plan * (RecoveryBlocks plan + transferBuffers
         + min maxStagingBuffers (SourceBlocks plan + 1)) \<le> Limit plan
    \<and> BlockSize plan \<le> Passes plan * ChunkSize plan
    \<and> (Passes plan - 1) * ChunkSize plan < BlockSize plan
    \<and> (InputReads plan = 1 \<longleftrightarrow> Passes plan = 1)
    \<and> (pm_wanted [10000, 5001] 10 \<le> 2 ^ 20
         \<longrightarrow> ChunkSize plan = min (BlockSize plan) maxChunkBytes)"
  by (rule plan_memory_sound) (simp_all add: plan_input_def maxSourceBlocks_def)

end
