(* ===== verification/GoStrings.thy ===== *)
theory GoStrings
  imports Prelude "HOL-Library.Sublist" "HOL-Library.Char_ord" "HOL-Library.List_Lexorder"
begin

text \<open>
  The functions of Go's \<open>strings\<close> and \<open>strconv\<close> packages the code uses, on byte strings
  (\<open>string\<close>, one \<open>char\<close> per byte). White space is Unicode's, recognised on its UTF-8 encoding.
  Strings compare byte by byte (\<open>List_Lexorder\<close>).
\<close>

section \<open>Searching\<close>

definition HasPrefix :: "string \<Rightarrow> string \<Rightarrow> bool" where
  "HasPrefix s p = prefix p s"

definition HasSuffix :: "string \<Rightarrow> string \<Rightarrow> bool" where
  "HasSuffix s p = suffix p s"

definition TrimPrefix :: "string \<Rightarrow> string \<Rightarrow> string" where
  "TrimPrefix s p = (if prefix p s then drop (length p) s else s)"

definition ContainsChar :: "string \<Rightarrow> char \<Rightarrow> bool" where
  "ContainsChar s c \<longleftrightarrow> c \<in> set s"

definition ContainsAny :: "string \<Rightarrow> string \<Rightarrow> bool" where
  "ContainsAny s cs \<longleftrightarrow> (\<exists>c \<in> set s. c \<in> set cs)"

text \<open>\<open>Cut\<close> around the first occurrence of a one-byte separator.\<close>

definition Cut :: "string \<Rightarrow> char \<Rightarrow> string \<times> string \<times> bool" where
  "Cut s sep = (if sep \<in> set s
     then (takeWhile (\<lambda>c. c \<noteq> sep) s, tl (dropWhile (\<lambda>c. c \<noteq> sep) s), True)
     else (s, [], False))"

lemma Cut_join: "Cut s sep = (a, b, True) \<Longrightarrow> s = a @ sep # b \<and> sep \<notin> set a"
proof -
  assume c: "Cut s sep = (a, b, True)"
  then have m: "sep \<in> set s" and a: "a = takeWhile (\<lambda>c. c \<noteq> sep) s"
    and b: "b = tl (dropWhile (\<lambda>c. c \<noteq> sep) s)"
    by (auto simp: Cut_def split: if_splits)
  from m have ne: "dropWhile (\<lambda>c. c \<noteq> sep) s \<noteq> []" by auto
  then have "hd (dropWhile (\<lambda>c. c \<noteq> sep) s) = sep" using hd_dropWhile [OF ne] by simp
  then have "dropWhile (\<lambda>c. c \<noteq> sep) s = sep # b" using ne b by (cases "dropWhile (\<lambda>c. c \<noteq> sep) s") auto
  then have "s = a @ sep # b" using a takeWhile_dropWhile_id [of "\<lambda>c. c \<noteq> sep" s] by metis
  moreover have "sep \<notin> set a" using a by (auto dest: set_takeWhileD)
  ultimately show ?thesis ..
qed

lemma Cut_append: "sep \<notin> set a \<Longrightarrow> Cut (a @ sep # b) sep = (a, b, True)"
proof -
  assume n: "sep \<notin> set a"
  then have "takeWhile (\<lambda>c. c \<noteq> sep) (a @ sep # b) = a" "dropWhile (\<lambda>c. c \<noteq> sep) (a @ sep # b) = sep # b"
    by (induction a) auto
  then show ?thesis by (simp add: Cut_def)
qed

lemma Cut_none: "sep \<notin> set s \<Longrightarrow> Cut s sep = (s, [], False)"
  by (simp add: Cut_def)

section \<open>Trimming\<close>

text \<open>\<open>Trim\<close> with an ASCII cutset.\<close>

definition Trim :: "string \<Rightarrow> string \<Rightarrow> string" where
  "Trim s cutset = rev (dropWhile (\<lambda>c. c \<in> set cutset) (rev (dropWhile (\<lambda>c. c \<in> set cutset) s)))"

lemma Trim_empty_iff: "Trim s cutset = [] \<longleftrightarrow> set s \<subseteq> set cutset"
proof -
  have "Trim s cutset = [] \<longleftrightarrow> (\<forall>c \<in> set (dropWhile (\<lambda>c. c \<in> set cutset) s). c \<in> set cutset)"
    by (simp add: Trim_def)
  also have "\<dots> \<longleftrightarrow> (\<forall>c \<in> set s. c \<in> set cutset)" by (induction s) auto
  finally show ?thesis by auto
qed

text \<open>The UTF-8 encodings of the Unicode white-space characters.\<close>

definition space_seqs :: "string list" where
  "space_seqs = [[CHR 0x0A], [CHR 0x09], [CHR 0x0B], [CHR 0x0C], [CHR 0x0D], '' '',
     [CHR 0xC2, CHR 0x85], [CHR 0xC2, CHR 0xA0], [CHR 0xE1, CHR 0x9A, CHR 0x80]]
   @ map (\<lambda>b. [CHR 0xE2, CHR 0x80, b]) [CHR 0x80, CHR 0x81, CHR 0x82, CHR 0x83, CHR 0x84,
       CHR 0x85, CHR 0x86, CHR 0x87, CHR 0x88, CHR 0x89, CHR 0x8A, CHR 0xA8, CHR 0xA9, CHR 0xAF]
   @ [[CHR 0xE2, CHR 0x81, CHR 0x9F], [CHR 0xE3, CHR 0x80, CHR 0x80]]"

lemma space_seqs_nonempty: "q \<in> set space_seqs \<Longrightarrow> q \<noteq> []"
  by (auto simp: space_seqs_def)

fun strip_seqs :: "string list \<Rightarrow> nat \<Rightarrow> string \<Rightarrow> string" where
  "strip_seqs qs 0 s = s"
| "strip_seqs qs (Suc n) s =
     (case find (\<lambda>q. prefix q s) qs of
        None \<Rightarrow> s
      | Some q \<Rightarrow> strip_seqs qs n (drop (length q) s))"

definition TrimLeftSpace :: "string \<Rightarrow> string" where
  "TrimLeftSpace s = strip_seqs space_seqs (length s) s"

definition TrimRightSpace :: "string \<Rightarrow> string" where
  "TrimRightSpace s = rev (strip_seqs (map rev space_seqs) (length s) (rev s))"

definition TrimSpace :: "string \<Rightarrow> string" where
  "TrimSpace s = TrimRightSpace (TrimLeftSpace s)"

text \<open>The loop of \<open>strip_seqs\<close> runs to the end: its fuel is the length of the string.\<close>

lemma strip_seqs_done:
  assumes "\<And>q. q \<in> set qs \<Longrightarrow> q \<noteq> []" and "length s \<le> n" and "q \<in> set qs"
  shows "\<not> prefix q (strip_seqs qs n s)"
  using assms(2)
proof (induction n arbitrary: s)
  case 0
  then show ?case using assms(1, 3) by auto
next
  case (Suc n)
  show ?case
  proof (cases "find (\<lambda>q. prefix q s) qs")
    case None
    then have "\<not> prefix q s" using assms(3) by (auto simp: find_None_iff)
    then show ?thesis using None by simp
  next
    case (Some p)
    then have "p \<in> set qs" "prefix p s" by (auto simp: find_Some_iff)
    then have "p \<noteq> []" using assms(1) by blast
    then have "length (drop (length p) s) \<le> n" using Suc.prems by (cases p) auto
    then show ?thesis using Suc.IH Some by simp
  qed
qed

lemma TrimLeftSpace_done: "q \<in> set space_seqs \<Longrightarrow> \<not> prefix q (TrimLeftSpace s)"
  unfolding TrimLeftSpace_def by (rule strip_seqs_done) (auto dest: space_seqs_nonempty)

lemma TrimSpace_Nil [simp]: "TrimSpace [] = []"
  by (simp add: TrimSpace_def TrimLeftSpace_def TrimRightSpace_def)

section \<open>Facts on trimming\<close>

lemma Trim_decomp: "\<exists>a b. s = a @ Trim s cutset @ b \<and> set a \<subseteq> set cutset \<and> set b \<subseteq> set cutset"
proof -
  let ?P = "\<lambda>c. c \<in> set cutset" and ?m = "dropWhile (\<lambda>c. c \<in> set cutset) s"
  have "s = takeWhile ?P s @ ?m" by simp
  moreover have "?m = Trim s cutset @ rev (takeWhile ?P (rev ?m))"
    unfolding Trim_def by (metis rev_append rev_rev_ident takeWhile_dropWhile_id)
  moreover have "set (takeWhile ?P s) \<subseteq> set cutset" "set (rev (takeWhile ?P (rev ?m))) \<subseteq> set cutset"
    by (auto dest: set_takeWhileD)
  ultimately show ?thesis by metis
qed

lemma Trim_length: "length (Trim s cutset) \<le> length s"
  using Trim_decomp [of s cutset] by (metis le_add1 le_add2 length_append le_trans)

lemma hd_dropWhile_not: "dropWhile P xs \<noteq> [] \<Longrightarrow> \<not> P (hd (dropWhile P xs))"
  by (rule hd_dropWhile)

lemma Trim_ends:
  assumes "Trim s cutset \<noteq> []"
  shows "hd (Trim s cutset) \<notin> set cutset" "last (Trim s cutset) \<notin> set cutset"
proof -
  let ?P = "\<lambda>c. c \<in> set cutset"
  let ?m = "dropWhile ?P s"
  have r: "Trim s cutset = rev (dropWhile ?P (rev ?m))" by (simp add: Trim_def)
  have ne: "dropWhile ?P (rev ?m) \<noteq> []" using assms by (simp add: r)
  show "last (Trim s cutset) \<notin> set cutset"
    using hd_dropWhile_not [OF ne] ne by (simp add: r last_rev)
  obtain b where "rev ?m = b @ dropWhile ?P (rev ?m)" by (metis takeWhile_dropWhile_id)
  then have "?m = rev (dropWhile ?P (rev ?m)) @ rev b" by (metis rev_append rev_rev_ident)
  then have m: "?m = Trim s cutset @ rev b" by (simp only: r)
  have "hd ?m = hd (Trim s cutset)" "?m \<noteq> []" using assms by (simp_all add: m)
  then show "hd (Trim s cutset) \<notin> set cutset" using hd_dropWhile_not [of ?P s] by simp
qed

lemma Trim_id:
  assumes "s \<noteq> [] \<Longrightarrow> hd s \<notin> set cutset" "s \<noteq> [] \<Longrightarrow> last s \<notin> set cutset"
  shows "Trim s cutset = s"
proof (cases "s = []")
  case False
  then have "dropWhile (\<lambda>c. c \<in> set cutset) s = s" using assms(1) by (cases s) auto
  moreover have "dropWhile (\<lambda>c. c \<in> set cutset) (rev s) = rev s"
    using assms(2) False by (cases s rule: rev_cases) auto
  ultimately show ?thesis by (simp add: Trim_def)
qed (simp add: Trim_def)

section \<open>Decimal numbers\<close>

definition digit :: "nat \<Rightarrow> char" where
  "digit n = char_of (48 + n)"

fun itoa :: "nat \<Rightarrow> string" where
  "itoa n = (if n < 10 then [digit n] else itoa (n div 10) @ [digit (n mod 10)])"

declare itoa.simps [simp del]

definition digit_value :: "char \<Rightarrow> nat" where
  "digit_value c = of_char c - 48"

definition is_digit :: "char \<Rightarrow> bool" where
  "is_digit c \<longleftrightarrow> 48 \<le> (of_char c :: nat) \<and> (of_char c :: nat) \<le> 57"

definition atoi :: "string \<Rightarrow> nat" where
  "atoi s = foldl (\<lambda>n c. 10 * n + digit_value c) 0 s"

lemma digit_value_digit [simp]: "n < 10 \<Longrightarrow> digit_value (digit n) = n"
  by (simp add: digit_value_def digit_def)

lemma is_digit_digit [simp]: "n < 10 \<Longrightarrow> is_digit (digit n)"
  by (simp add: is_digit_def digit_def)

lemma atoi_itoa [simp]: "atoi (itoa n) = n"
proof (induction n rule: itoa.induct)
  case (1 n)
  then show ?case by (subst itoa.simps) (auto simp: atoi_def)
qed

lemma itoa_digits: "c \<in> set (itoa n) \<Longrightarrow> is_digit c"
proof (induction n rule: itoa.induct)
  case (1 n)
  then show ?case using itoa.simps [of n] by (auto split: if_splits)
qed

lemma itoa_nonempty [simp]: "itoa n \<noteq> []"
  by (subst itoa.simps) simp

lemma itoa_inj: "itoa m = itoa n \<longleftrightarrow> m = n"
  by (metis atoi_itoa)

lemma length_itoa_mono: "i \<le> j \<Longrightarrow> length (itoa i) \<le> length (itoa j)"
proof (induction j arbitrary: i rule: itoa.induct)
  case (1 n)
  show ?case
  proof (cases "i < 10")
    case True
    then have "length (itoa i) = 1" by (simp add: itoa.simps)
    then show ?thesis by (metis One_nat_def Suc_leI length_greater_0_conv itoa_nonempty)
  next
    case False
    then have n: "\<not> n < 10" using "1.prems" by simp
    have "length (itoa (i div 10)) \<le> length (itoa (n div 10))"
      using "1.IH" [OF n, of "i div 10"] "1.prems" by (simp add: div_le_mono)
    then show ?thesis using False n by (simp add: itoa.simps [of i] itoa.simps [of n])
  qed
qed

text \<open>\<open>%03d\<close>: zero-padded to a width, never cut.\<close>

definition pad0 :: "nat \<Rightarrow> string \<Rightarrow> string" where
  "pad0 width s = replicate (width - length s) (CHR ''0'') @ s"

lemma atoi_pad0 [simp]: "atoi (pad0 w (itoa n)) = n"
proof -
  have "foldl (\<lambda>n c. 10 * n + digit_value c) 0 (replicate k (CHR ''0'')) = 0" for k
    by (induction k) (simp_all add: digit_value_def)
  then show ?thesis using atoi_itoa [of n] by (simp add: atoi_def pad0_def)
qed

lemma pad0_digits: "c \<in> set (pad0 w (itoa n)) \<Longrightarrow> is_digit c"
  using itoa_digits [of c n] by (auto simp: pad0_def is_digit_def)

section \<open>Lower case and path elements\<close>

text \<open>
  \<open>ToLower\<close> on ASCII letters and on the two other characters whose lower case is ASCII: the
  Kelvin sign and the dotted capital I. Other non-ASCII characters keep their bytes here; the one
  caller replaces every non-ASCII character by a dash.
\<close>

definition lower_char :: "char \<Rightarrow> char" where
  "lower_char c = (if CHR ''A'' \<le> c \<and> c \<le> CHR ''Z'' then char_of (of_char c + 32 :: nat) else c)"

fun ToLower :: "string \<Rightarrow> string" where
  "ToLower [] = []"
| "ToLower (c # cs) =
     (if c = CHR 0xE2 \<and> take 2 cs = [CHR 0x84, CHR 0xAA] then CHR ''k'' # ToLower (drop 2 cs)
      else if c = CHR 0xC4 \<and> take 1 cs = [CHR 0xB0] then CHR ''i'' # ToLower (drop 1 cs)
      else lower_char c # ToLower cs)"

definition path_Base :: "string \<Rightarrow> string" where
  "path_Base p =
     (if p = [] then ''.''
      else
        let q = rev (dropWhile (\<lambda>c. c = CHR ''/'') (rev p));
            r = rev (takeWhile (\<lambda>c. c \<noteq> CHR ''/'') (rev q))
        in if r = [] then ''/'' else r)"

section \<open>Splitting\<close>

text \<open>\<open>Split\<close> on a one-byte separator.\<close>

fun split_on :: "char \<Rightarrow> string \<Rightarrow> string list" where
  "split_on sep [] = [[]]"
| "split_on sep (c # cs) =
     (if c = sep then [] # split_on sep cs
      else (case split_on sep cs of [] \<Rightarrow> [[c]] | w # ws \<Rightarrow> (c # w) # ws))"

lemma split_on_chars: "w \<in> set (split_on sep s) \<Longrightarrow> c \<in> set w \<Longrightarrow> c \<in> set s \<and> c \<noteq> sep"
proof (induction s arbitrary: w)
  case (Cons x s)
  then show ?case by (cases "split_on sep s") (force split: if_splits)+
qed simp

lemma split_on_nonempty [simp]: "split_on sep s \<noteq> []"
  by (induction s) (auto split: list.splits)

lemma split_on_covers: "c \<in> set s \<Longrightarrow> c \<noteq> sep \<Longrightarrow> \<exists>w \<in> set (split_on sep s). c \<in> set w"
  by (induction s) (auto split: list.splits)

section \<open>Substrings and paths\<close>

fun Contains :: "string \<Rightarrow> string \<Rightarrow> bool" where
  "Contains [] sub \<longleftrightarrow> sub = []"
| "Contains (c # cs) sub \<longleftrightarrow> prefix sub (c # cs) \<or> Contains cs sub"

definition TrimSuffix :: "string \<Rightarrow> string \<Rightarrow> string" where
  "TrimSuffix s p = (if suffix p s then take (length s - length p) s else s)"

text \<open>\<open>filepath.Clean\<close>: the shortest equivalent path, by lexical processing.\<close>

fun clean_step :: "bool \<Rightarrow> string list \<Rightarrow> string \<Rightarrow> string list" where
  "clean_step rooted acc w =
     (if w = [] \<or> w = ''.'' then acc
      else if w = ''..'' then
        (if acc \<noteq> [] \<and> last acc \<noteq> ''..'' then butlast acc
         else if rooted then acc else acc @ [w])
      else acc @ [w])"

fun join_with :: "string \<Rightarrow> string list \<Rightarrow> string" where
  "join_with sep [] = []"
| "join_with sep [w] = w"
| "join_with sep (w # v # ws) = w @ sep @ join_with sep (v # ws)"

definition IsAbs :: "string \<Rightarrow> bool" where
  "IsAbs p \<longleftrightarrow> p \<noteq> [] \<and> hd p = CHR ''/''"

definition path_Clean :: "string \<Rightarrow> string" where
  "path_Clean p =
     (let rooted = IsAbs p;
          ws = foldl (clean_step rooted) [] (split_on (CHR ''/'') p);
          body = join_with ''/'' ws
      in if rooted then CHR ''/'' # body else if body = [] then ''.'' else body)"

text \<open>\<open>filepath.Join\<close> of a clean directory and a plain name.\<close>

definition path_join :: "string \<Rightarrow> string \<Rightarrow> string" where
  "path_join dir name = dir @ ''/'' @ name"

section \<open>Parsing numbers\<close>

text \<open>\<open>ParseUint\<close> and \<open>ParseInt\<close> in base ten, with the 64-bit range checks.\<close>

definition ParseUint64 :: "string \<Rightarrow> int option" where
  "ParseUint64 s =
     (if s \<noteq> [] \<and> list_all is_digit s \<and> int (atoi s) < 2 ^ 64 then Some (int (atoi s)) else None)"

definition ParseInt64 :: "string \<Rightarrow> int option" where
  "ParseInt64 s =
     (let neg = (s \<noteq> [] \<and> hd s = CHR ''-'');
          digits = (if s \<noteq> [] \<and> (hd s = CHR ''-'' \<or> hd s = CHR ''+'') then tl s else s)
      in if digits \<noteq> [] \<and> list_all is_digit digits then
           (if neg then (if int (atoi digits) \<le> 2 ^ 63 then Some (- int (atoi digits)) else None)
            else (if int (atoi digits) < 2 ^ 63 then Some (int (atoi digits)) else None))
         else None)"

definition itoa_int :: "int \<Rightarrow> string" where
  "itoa_int n = (if n < 0 then CHR ''-'' # itoa (nat (- n)) else itoa (nat n))"

lemma itoa_all_digits: "list_all is_digit (itoa n)"
  using itoa_digits by (auto simp: list_all_iff)

lemma digit_not_sign: "is_digit c \<Longrightarrow> c \<noteq> CHR ''-'' \<and> c \<noteq> CHR ''+''"
  by (auto simp: is_digit_def)

text \<open>Printing and parsing a 64-bit number gives it back.\<close>

lemma ParseInt64_itoa_int:
  assumes "- (2 ^ 63) \<le> n" "n < 2 ^ 63"
  shows "ParseInt64 (itoa_int n) = Some n"
proof (cases "n < 0")
  case True
  then show ?thesis using assms by (simp add: ParseInt64_def itoa_int_def itoa_all_digits)
next
  case False
  obtain c cs where c: "itoa (nat n) = c # cs" by (cases "itoa (nat n)") auto
  then have "c \<noteq> CHR ''-'' \<and> c \<noteq> CHR ''+''" using itoa_digits [of c "nat n"] by (auto dest: digit_not_sign)
  then show ?thesis using assms False itoa_all_digits [of "nat n"] atoi_itoa [of "nat n"] c
    by (simp add: ParseInt64_def itoa_int_def)
qed

end
