(* ===== verification/GoFloat.thy ===== *)
theory GoFloat
  imports Prelude Complex_Main
begin

text \<open>
  The finite \<open>float64\<close> arithmetic of the sizing code. A finite, normal \<open>float64\<close> is the
  rational number it denotes; every operation of the code is the exact rational operation
  followed by \<open>rnd\<close>, rounding to 53 significant bits, ties to even. Overflow, subnormals,
  infinities and NaN do not arise for the byte counts and percentages of the code and are not
  modelled.
\<close>

section \<open>Powers of two with an integer exponent\<close>

definition pow2 :: "int \<Rightarrow> rat" where
  "pow2 e = (if 0 \<le> e then 2 ^ nat e else 1 / 2 ^ nat (- e))"

lemma pow2_pos [simp]: "0 < pow2 e" "pow2 e \<noteq> 0"
  by (simp_all add: pow2_def)

lemma pow2_nonneg [simp]: "0 \<le> pow2 e"
  by (simp add: less_imp_le)

lemma pow2_succ: "pow2 (e + 1) = 2 * pow2 e"
proof (cases "0 \<le> e")
  case True
  then show ?thesis by (simp add: pow2_def nat_add_distrib)
next
  case False
  then have "nat (- e) = Suc (nat (- (e + 1)))" by simp
  then show ?thesis using False by (cases "e = - 1") (auto simp: pow2_def)
qed

lemma pow2_add_nat: "pow2 (e + int n) = pow2 e * 2 ^ n"
proof (induction n)
  case (Suc n)
  have "pow2 (e + int (Suc n)) = 2 * pow2 (e + int n)"
    using pow2_succ [of "e + int n"] by (simp add: ac_simps)
  then show ?case by (simp add: Suc)
qed simp

lemma pow2_nat: "pow2 (int n) = 2 ^ n"
  by (simp add: pow2_def)

section \<open>Rounding\<close>

text \<open>Rounding of a non-negative rational to an integer, ties to even.\<close>

definition round_even :: "rat \<Rightarrow> int" where
  "round_even x = (let f = \<lfloor>x\<rfloor>; r = x - of_int f in
     if r < 1 / 2 then f else if 1 / 2 < r then f + 1 else if even f then f else f + 1)"

lemma round_even_error: "\<bar>of_int (round_even x) - x\<bar> \<le> 1 / 2"
proof -
  define f where "f = \<lfloor>x\<rfloor>"
  have "of_int f \<le> x" "x < of_int f + 1" unfolding f_def by linarith+
  then show ?thesis
    unfolding round_even_def Let_def f_def [symmetric] by (auto simp: abs_if)
qed

lemma round_even_int [simp]: "round_even (of_int k) = k"
  by (simp add: round_even_def)

text \<open>The binary exponent of a positive rational: \<open>2 ^ e \<le> x < 2 ^ (e + 1)\<close>.\<close>

definition exponent2 :: "rat \<Rightarrow> int" where
  "exponent2 x =
     (let (a, b) = quotient_of x;
          e = int (bit_len a) - int (bit_len b)
      in if pow2 e \<le> x then e else e - 1)"

lemma exponent2_bounds:
  assumes "0 < x"
  shows "pow2 (exponent2 x) \<le> x" "x < pow2 (exponent2 x + 1)"
proof -
  obtain a b where q: "quotient_of x = (a, b)" by fastforce
  have b: "0 < b" using quotient_of_denom_pos [OF q] .
  have x: "x = of_int a / of_int b" using quotient_of_div [OF q] .
  have a: "0 < a" using assms b by (simp add: x zero_less_divide_iff)
  define la lb where "la = bit_len a" and "lb = bit_len b"
  define e where "e = int la - int lb"
  have "a < 2 ^ la" "b < 2 ^ lb" using a b by (simp_all add: la_def lb_def bit_len_less)
  then have au: "(of_int a :: rat) < 2 ^ la" and bu: "(of_int b :: rat) < 2 ^ lb"
    by (metis of_int_less_iff of_int_numeral of_int_power)+
  have "0 < la" "0 < lb" using a b by (simp_all add: la_def lb_def bit_len_pos)
  have "2 ^ (la - 1) \<le> a" "2 ^ (lb - 1) \<le> b"
    using bit_len_le [OF a] bit_len_le [OF b] by (simp_all add: la_def lb_def)
  then have "(2 ^ (la - 1) :: rat) \<le> of_int a" "(2 ^ (lb - 1) :: rat) \<le> of_int b"
    by (metis of_int_le_iff of_int_numeral of_int_power)+
  then have al: "(2 ^ la :: rat) \<le> 2 * of_int a" and bl: "(2 ^ lb :: rat) \<le> 2 * of_int b"
    using \<open>0 < la\<close> \<open>0 < lb\<close> by (cases la; cases lb; simp)+
  have pe: "pow2 e * 2 ^ lb = 2 ^ la" using pow2_add_nat [of e lb] pow2_nat [of la] by (simp add: e_def)
  have bq: "(0 :: rat) < of_int b" using b by simp
  have up: "x < pow2 (e + 1)"
  proof -
    have "of_int a < pow2 e * 2 ^ lb" using au by (simp add: pe)
    also have "\<dots> \<le> pow2 e * (2 * of_int b)" using bl by (intro mult_left_mono) auto
    finally show ?thesis using bq pow2_succ [of e] by (simp add: x pos_divide_less_eq mult.assoc mult.left_commute)
  qed
  have low: "pow2 (e - 1) \<le> x"
  proof -
    have "pow2 e * of_int b \<le> pow2 e * 2 ^ lb" using bu by (intro mult_left_mono) auto
    also have "\<dots> \<le> 2 * of_int a" using al by (simp add: pe)
    finally have "2 * pow2 (e - 1) * of_int b \<le> 2 * of_int a" using pow2_succ [of "e - 1"] by simp
    then show ?thesis using bq by (simp add: x pos_le_divide_eq ac_simps)
  qed
  have ex: "exponent2 x = (if pow2 e \<le> x then e else e - 1)"
    by (simp add: exponent2_def q e_def la_def lb_def)
  show "pow2 (exponent2 x) \<le> x" using low by (simp add: ex)
  show "x < pow2 (exponent2 x + 1)" using up by (simp add: ex)
qed

text \<open>Rounding to \<open>float64\<close>: 53 significant bits, ties to even.\<close>

definition rnd :: "rat \<Rightarrow> rat" where
  "rnd x =
     (if x = 0 then 0
      else let y = \<bar>x\<bar>; u = pow2 (exponent2 y - 52)
           in sgn x * (of_int (round_even (y / u)) * u))"

lemma rnd_0 [simp]: "rnd 0 = 0"
  by (simp add: rnd_def)

lemma rnd_error:
  assumes "0 \<le> x"
  shows "\<bar>rnd x - x\<bar> \<le> x / 2 ^ 53"
proof (cases "x = 0")
  case False
  with assms have x: "0 < x" by simp
  define u where "u = pow2 (exponent2 x - 52)"
  have u: "0 < u" by (simp add: u_def)
  have "u * 2 ^ 52 \<le> x"
    using exponent2_bounds(1) [OF x] pow2_add_nat [of "exponent2 x - 52" 52] by (simp add: u_def)
  moreover have "\<bar>of_int (round_even (x / u)) * u - x\<bar> \<le> 1 / 2 * u"
  proof -
    have "of_int (round_even (x / u)) * u - x = (of_int (round_even (x / u)) - x / u) * u"
      using u by (simp add: field_simps)
    then show ?thesis using round_even_error [of "x / u"] u by (simp add: abs_mult)
  qed
  moreover have "rnd x = of_int (round_even (x / u)) * u" using x by (simp add: rnd_def Let_def u_def)
  ultimately show ?thesis by simp
qed simp

lemma rnd_nonneg: "0 \<le> x \<Longrightarrow> 0 \<le> rnd x"
proof -
  assume x: "0 \<le> x"
  have "x / 2 ^ 53 \<le> x" using x by (simp add: divide_le_eq)
  then show ?thesis using rnd_error [OF x] by linarith
qed

text \<open>Integers below \<open>2 ^ 53\<close> are exact: \<open>float64(n)\<close> of a byte count loses nothing.\<close>

lemma rnd_int:
  assumes "0 \<le> n" "n < 2 ^ 53"
  shows "rnd (of_int n) = of_int n"
proof (cases "n = 0")
  case False
  let ?x = "of_int n :: rat"
  define k where "k = nat (52 - exponent2 ?x)"
  have x: "0 < ?x" using False assms by simp
  have "exponent2 ?x \<le> 52"
  proof (rule ccontr)
    assume "\<not> exponent2 ?x \<le> 52"
    then have e: "53 + int (nat (exponent2 ?x - 53)) = exponent2 ?x" by simp
    have "pow2 53 * 1 \<le> pow2 53 * 2 ^ nat (exponent2 ?x - 53)" by (intro mult_left_mono) auto
    also have "\<dots> = pow2 (exponent2 ?x)" using pow2_add_nat [of 53 "nat (exponent2 ?x - 53)"]
      by (simp only: e)
    also have "\<dots> \<le> ?x" by (rule exponent2_bounds(1) [OF x])
    also have "\<dots> < of_int (2 ^ 53)" using assms by (simp only: of_int_less_iff)
    finally show False by (simp add: pow2_def)
  qed
  then have "pow2 (exponent2 ?x - 52) = 1 / 2 ^ k" by (auto simp: pow2_def k_def)
  moreover have "?x / (1 / 2 ^ k) = of_int (n * 2 ^ k)" by simp
  then have "round_even (?x / (1 / 2 ^ k)) = n * 2 ^ k" by (simp only: round_even_int)
  ultimately show ?thesis using x by (simp add: rnd_def Let_def)
qed simp

text \<open>Rounding never moves a value by more than one part in \<open>2 ^ 53\<close>, on either side.\<close>

lemma rnd_bounds:
  assumes "0 \<le> x"
  shows "x - x / 2 ^ 53 \<le> rnd x" "rnd x \<le> x + x / 2 ^ 53"
  using rnd_error [OF assms] by linarith+

section \<open>Conversions and the \<open>math\<close> functions\<close>

definition float64 :: "int \<Rightarrow> rat" where "float64 n = rnd (of_int n)"

definition fmul :: "rat \<Rightarrow> rat \<Rightarrow> rat" where "fmul x y = rnd (x * y)"

definition fdiv :: "rat \<Rightarrow> rat \<Rightarrow> rat" where "fdiv x y = rnd (x / y)"

definition fadd :: "rat \<Rightarrow> rat \<Rightarrow> rat" where "fadd x y = rnd (x + y)"

definition math_Ceil :: "rat \<Rightarrow> int" where "math_Ceil x = \<lceil>x\<rceil>"

definition math_Trunc :: "rat \<Rightarrow> int" where
  "math_Trunc x = (if 0 \<le> x then \<lfloor>x\<rfloor> else \<lceil>x\<rceil>)"

text \<open>Halves round away from zero.\<close>

definition math_Round :: "rat \<Rightarrow> int" where
  "math_Round x = (if 0 \<le> x then \<lfloor>x + 1 / 2\<rfloor> else - \<lfloor>1 / 2 - x\<rfloor>)"

lemma math_Round_int [simp]: "math_Round (of_int k) = k"
proof -
  have "\<lfloor>of_int k + 1 / 2 :: rat\<rfloor> = k" for k by linarith
  moreover have "\<lfloor>1 / 2 - of_int k :: rat\<rfloor> = - k" by linarith
  ultimately show ?thesis by (simp add: math_Round_def)
qed

lemma math_Ceil_int [simp]: "math_Ceil (of_int k) = k"
  by (simp add: math_Ceil_def)

lemma math_Trunc_int_iff: "x = of_int (math_Trunc x) \<longleftrightarrow> (\<exists>k. x = of_int k)"
  by (auto simp: math_Trunc_def)

section \<open>Rounding respects integers\<close>

lemma round_even_ge: "of_int m \<le> x \<Longrightarrow> m \<le> round_even x"
proof -
  assume "of_int m \<le> x"
  then have "m \<le> \<lfloor>x\<rfloor>" by (simp add: le_floor_iff)
  then show ?thesis by (auto simp: round_even_def Let_def)
qed

text \<open>A value at or above an exactly representable integer does not round below it.\<close>

lemma rnd_ge_int:
  assumes "0 \<le> n" "n < 2 ^ 53" "of_int n \<le> x"
  shows "of_int n \<le> rnd x"
proof (cases "x = 0")
  case True
  then show ?thesis using assms by simp
next
  case False
  with assms have x: "0 < x" by (simp add: order_less_le)
  let ?e = "exponent2 x"
  define u where "u = pow2 (?e - 52)"
  have u: "0 < u" by (simp add: u_def)
  have r: "rnd x = of_int (round_even (x / u)) * u" using x by (simp add: rnd_def Let_def u_def)
  show ?thesis
  proof (cases "?e \<le> 52")
    case True
    define k where "k = nat (52 - ?e)"
    have uk: "u = 1 / 2 ^ k" using True by (auto simp: u_def pow2_def k_def)
    have "of_int (n * 2 ^ k) \<le> x / u" using assms(3) by (simp add: uk)
    then have "n * 2 ^ k \<le> round_even (x / u)" by (rule round_even_ge)
    then have "of_int (n * 2 ^ k) \<le> (of_int (round_even (x / u)) :: rat)" by (simp only: of_int_le_iff)
    then show ?thesis by (simp add: r uk pos_le_divide_eq)
  next
    case False
    have "u * 2 ^ 52 = pow2 ?e" using pow2_add_nat [of "?e - 52" 52] by (simp add: u_def)
    moreover have "pow2 ?e \<le> x" by (rule exponent2_bounds(1) [OF x])
    ultimately have "of_int (2 ^ 52) \<le> x / u" using u by (simp add: pos_le_divide_eq ac_simps)
    then have "2 ^ 52 \<le> round_even (x / u)" by (rule round_even_ge)
    then have "of_int (2 ^ 52) \<le> (of_int (round_even (x / u)) :: rat)" by (simp only: of_int_le_iff)
    then have "2 ^ 52 * u \<le> rnd x" using u by (simp add: r)
    moreover have "pow2 53 \<le> pow2 ?e"
    proof -
      have "pow2 53 * 1 \<le> pow2 53 * 2 ^ nat (?e - 53)" by (intro mult_left_mono) auto
      moreover have "53 + int (nat (?e - 53)) = ?e" using False by simp
      ultimately show ?thesis using pow2_add_nat [of 53 "nat (?e - 53)"] by simp
    qed
    moreover have "(of_int n :: rat) \<le> of_int (2 ^ 53)" using assms(2) by (simp only: of_int_le_iff)
    ultimately show ?thesis using \<open>u * 2 ^ 52 = pow2 ?e\<close> by (simp add: pow2_def ac_simps)
  qed
qed

lemma round_even_le: "x \<le> of_int m \<Longrightarrow> round_even x \<le> m"
proof -
  assume x: "x \<le> of_int m"
  show ?thesis
  proof (cases "x = of_int m")
    case False
    with x have "\<lfloor>x\<rfloor> < m" by (simp add: floor_less_iff)
    then show ?thesis by (auto simp: round_even_def Let_def)
  qed simp
qed

text \<open>A value at or below an exactly representable integer does not round above it.\<close>

lemma rnd_le_int:
  assumes "n < 2 ^ 53" "0 \<le> x" "x \<le> of_int n"
  shows "rnd x \<le> of_int n"
proof (cases "x = 0")
  case False
  with assms have x: "0 < x" by simp
  let ?e = "exponent2 x"
  have "?e \<le> 52"
  proof (rule ccontr)
    assume "\<not> ?e \<le> 52"
    then have e: "53 + int (nat (?e - 53)) = ?e" by simp
    have "pow2 53 * 1 \<le> pow2 53 * 2 ^ nat (?e - 53)" by (intro mult_left_mono) auto
    also have "\<dots> = pow2 ?e" using pow2_add_nat [of 53 "nat (?e - 53)"] by (simp only: e)
    also have "\<dots> \<le> of_int n" using exponent2_bounds(1) [OF x] assms(3) by linarith
    also have "\<dots> < of_int (2 ^ 53)" using assms(1) by (simp only: of_int_less_iff)
    finally show False by (simp add: pow2_def)
  qed
  define k where "k = nat (52 - ?e)"
  define u where "u = pow2 (?e - 52)"
  have uk: "u = 1 / 2 ^ k" using \<open>?e \<le> 52\<close> by (auto simp: u_def pow2_def k_def)
  have "x / u \<le> of_int (n * 2 ^ k)" using assms(3) by (simp add: uk)
  then have "round_even (x / u) \<le> n * 2 ^ k" by (rule round_even_le)
  then have "(of_int (round_even (x / u)) :: rat) \<le> of_int (n * 2 ^ k)" by (simp only: of_int_le_iff)
  moreover have "rnd x = of_int (round_even (x / u)) * u" using x by (simp add: rnd_def Let_def u_def)
  ultimately show ?thesis by (simp add: uk pos_divide_le_eq)
qed (use assms in simp)

section \<open>Rounding is monotone\<close>

lemma round_even_mono: "x \<le> y \<Longrightarrow> round_even x \<le> round_even y"
proof (rule ccontr)
  assume xy: "x \<le> y" and n: "\<not> round_even x \<le> round_even y"
  have "\<lfloor>x\<rfloor> = \<lfloor>y\<rfloor>"
  proof (rule ccontr)
    assume "\<lfloor>x\<rfloor> \<noteq> \<lfloor>y\<rfloor>"
    then have "\<lfloor>x\<rfloor> + 1 \<le> \<lfloor>y\<rfloor>" using floor_mono [OF xy] by simp
    moreover have "round_even x \<le> \<lfloor>x\<rfloor> + 1" "\<lfloor>y\<rfloor> \<le> round_even y" by (auto simp: round_even_def Let_def)
    ultimately show False using n by simp
  qed
  then show False using xy n by (auto simp: round_even_def Let_def split: if_splits)
qed

lemma pow2_mono: "a \<le> b \<Longrightarrow> pow2 a \<le> pow2 b"
proof -
  assume "a \<le> b"
  then have "b = a + int (nat (b - a))" by simp
  then have "pow2 b = pow2 a * 2 ^ nat (b - a)" by (metis pow2_add_nat)
  moreover have "pow2 a * 1 \<le> pow2 a * 2 ^ nat (b - a)" by (intro mult_left_mono) auto
  ultimately show ?thesis by simp
qed

lemma exponent2_mono:
  assumes "0 < x" "x \<le> y"
  shows "exponent2 x \<le> exponent2 y"
proof (rule ccontr)
  assume "\<not> exponent2 x \<le> exponent2 y"
  then have "pow2 (exponent2 y + 1) \<le> pow2 (exponent2 x)" by (intro pow2_mono) simp
  then show False
    using exponent2_bounds(1) [OF assms(1)] exponent2_bounds(2) [of y] assms by linarith
qed

lemma rnd_mono:
  assumes "0 \<le> x" "x \<le> y"
  shows "rnd x \<le> rnd y"
proof (cases "x = 0")
  case True
  then show ?thesis using rnd_nonneg assms by simp
next
  case False
  then have x: "0 < x" and y: "0 < y" using assms by simp_all
  let ?e = "exponent2 x" and ?f = "exponent2 y"
  define u v where "u = pow2 (?e - 52)" and "v = pow2 (?f - 52)"
  have uv: "0 < u" "0 < v" by (simp_all add: u_def v_def)
  have rx: "rnd x = of_int (round_even (x / u)) * u" using x by (simp add: rnd_def Let_def u_def)
  have ry: "rnd y = of_int (round_even (y / v)) * v" using y by (simp add: rnd_def Let_def v_def)
  show ?thesis
  proof (cases "?e = ?f")
    case True
    then have "u = v" by (simp add: u_def v_def)
    moreover have "round_even (x / u) \<le> round_even (y / u)" using assms(2) uv by (intro round_even_mono divide_right_mono) simp_all
    ultimately show ?thesis using uv by (simp add: rx ry)
  next
    case False
    then have ef: "?e + 1 \<le> ?f" using exponent2_mono [OF x assms(2)] by simp
    have u53: "u * 2 ^ 53 = pow2 (?e + 1)" using pow2_add_nat [of "?e - 52" 53] by (simp add: u_def algebra_simps)
    have v52: "v * 2 ^ 52 = pow2 ?f" using pow2_add_nat [of "?f - 52" 52] by (simp add: v_def)
    have "x / u \<le> of_int (2 ^ 53)" using exponent2_bounds(2) [OF x] uv u53 by (simp add: pos_divide_le_eq ac_simps)
    then have "round_even (x / u) \<le> 2 ^ 53" by (rule round_even_le)
    then have "(of_int (round_even (x / u)) :: rat) \<le> of_int (2 ^ 53)" by (simp only: of_int_le_iff)
    then have "rnd x \<le> u * 2 ^ 53" using uv by (simp add: rx ac_simps)
    also have "\<dots> \<le> v * 2 ^ 52" unfolding u53 v52 using ef by (rule pow2_mono)
    also have "\<dots> \<le> rnd y"
    proof -
      have "of_int (2 ^ 52) \<le> y / v" using exponent2_bounds(1) [OF y] uv v52 by (simp add: pos_le_divide_eq ac_simps)
      then have "2 ^ 52 \<le> round_even (y / v)" by (rule round_even_ge)
      then have "of_int (2 ^ 52) \<le> (of_int (round_even (y / v)) :: rat)" by (simp only: of_int_le_iff)
      then show ?thesis using uv by (simp add: ry ac_simps)
    qed
    finally show ?thesis .
  qed
qed

lemma math_Round_mono: "0 \<le> x \<Longrightarrow> x \<le> y \<Longrightarrow> math_Round x \<le> math_Round y"
  by (simp add: math_Round_def floor_mono)

lemma float64_mono: "0 \<le> m \<Longrightarrow> m \<le> n \<Longrightarrow> float64 m \<le> float64 n"
  by (simp add: float64_def rnd_mono)

lemma float64_nonneg [simp]: "0 \<le> m \<Longrightarrow> 0 \<le> float64 m"
  by (simp add: float64_def rnd_nonneg)

lemma float64_pos: "0 < m \<Longrightarrow> 1 \<le> float64 m"
  using float64_mono [of 1 m] rnd_int [of 1] by (simp add: float64_def)

lemma rnd_below: "0 \<le> x \<Longrightarrow> x \<le> of_int n \<Longrightarrow> n < 2 ^ 53 \<Longrightarrow> 0 \<le> rnd x \<and> rnd x \<le> of_int n"
  by (simp add: rnd_nonneg rnd_le_int)

end
