(* ===== verification/Config.thy ===== *)
theory Config
  imports GoStrings GoFloat
begin

text \<open>
  The run configuration (\<open>internal/config/config.go\<close>) and its validation
  (\<open>internal/config/validate.go\<close>). A Go pointer that may be nil is an \<open>option\<close>, a
  \<open>float64\<close> the finite rational it denotes (JSON cannot encode NaN or infinities), a duration a
  number of nanoseconds. Every \<open>fmt.Errorf\<close> is a constructor of \<open>config_error\<close> that carries
  the values the message prints.
\<close>

section \<open>Configuration\<close>

definition second_ns :: int where "second_ns = 10 ^ 9"

definition hour_ns :: int where "hour_ns = 3600 * second_ns"

definition DefaultIOWaitTimeout :: int where "DefaultIOWaitTimeout = 12 * hour_ns"

definition DefaultWriteFailureWaitTimeout :: int where
  "DefaultWriteFailureWaitTimeout = 12 * hour_ns"

definition DefaultBurnWaitTimeout :: int where "DefaultBurnWaitTimeout = 12 * hour_ns"

definition DefaultFeasibilityOverhead :: rat where "DefaultFeasibilityOverhead = rnd (105 / 100)"

definition KindPVC :: string where "KindPVC = ''PersistentVolumeClaim''"

definition SelectAll :: string where "SelectAll = ''all''"

definition SelectNewestPerPVC :: string where "SelectNewestPerPVC = ''newestPerPVC''"

definition SnapshotNewest :: string where "SnapshotNewest = ''newest''"

record K8sRef =
  k8_APIVersion :: string
  k8_Kind :: string
  k8_Namespace :: string
  k8_Name :: string
  k8_LabelSelector :: string
  k8_Select :: string

record ZFSPathSource =
  zp_Name :: string
  zp_Snapshot :: string
  zp_Prefix :: string

record ZFSPropertySource =
  zq_Name :: string
  zq_Value :: string
  zq_Under :: string

record Source =
  src_Compression :: "bool option"
  src_K8s :: "K8sRef option"
  src_ZFSPath :: "ZFSPathSource option"
  src_ZFSProperty :: "ZFSPropertySource option"
  src_Label :: "string option"

record Library =
  lib_Changer :: string
  lib_Drives :: "string list"
  lib_BlankSlots :: "int list"
  lib_TapeCapacityBytes :: int
  lib_IOWaitTimeoutSeconds :: "int option"
  lib_WriteFailureWaitTimeoutSeconds :: "int option"
  lib_AllowNonBlankTapes :: bool
  lib_MirrorSourceChanger :: string

record FillConfig =
  fill_Floor :: rat

record Redundancy =
  red_TargetPercentage :: "rat option"
  red_FillToCapacity :: "FillConfig option"

record Encryption =
  enc_Recipients :: "string list"
  enc_Identity :: string

record OpticalBurn =
  ob_Drives :: "string list"
  ob_Copies :: int
  ob_AllowNonBlankDiscs :: bool
  ob_BurnWaitTimeoutSeconds :: "int option"

record Delivery =
  del_WebhookURL :: string
  del_OpticalBurn :: "OpticalBurn option"

record Config =
  cfg_Sources :: "Source list"
  cfg_Copies :: int
  cfg_Library :: Library
  cfg_Redundancy :: Redundancy
  cfg_Encryption :: Encryption
  cfg_Delivery :: Delivery
  cfg_FeasibilityOverhead :: "rat option"

section \<open>Effective values\<close>

definition EffectiveFeasibilityOverhead :: "Config \<Rightarrow> rat" where
  "EffectiveFeasibilityOverhead c =
     (case cfg_FeasibilityOverhead c of Some v \<Rightarrow> v | None \<Rightarrow> DefaultFeasibilityOverhead)"

definition EffectiveIOWaitTimeout :: "Library \<Rightarrow> int" where
  "EffectiveIOWaitTimeout l =
     (case lib_IOWaitTimeoutSeconds l of Some s \<Rightarrow> s * second_ns | None \<Rightarrow> DefaultIOWaitTimeout)"

definition EffectiveWriteFailureWaitTimeout :: "Library \<Rightarrow> int" where
  "EffectiveWriteFailureWaitTimeout l =
     (case lib_WriteFailureWaitTimeoutSeconds l of
        Some s \<Rightarrow> s * second_ns | None \<Rightarrow> DefaultWriteFailureWaitTimeout)"

definition OpticalBurn_Enabled :: "OpticalBurn option \<Rightarrow> bool" where
  "OpticalBurn_Enabled ob =
     (case ob of None \<Rightarrow> False | Some b \<Rightarrow> 0 < length (ob_Drives b) \<and> 0 < ob_Copies b)"

definition EffectiveBurnWaitTimeout :: "OpticalBurn option \<Rightarrow> int" where
  "EffectiveBurnWaitTimeout ob =
     (case ob of
        None \<Rightarrow> DefaultBurnWaitTimeout
      | Some b \<Rightarrow> (case ob_BurnWaitTimeoutSeconds b of
                    Some s \<Rightarrow> s * second_ns | None \<Rightarrow> DefaultBurnWaitTimeout))"

section \<open>Validation\<close>

datatype k8s_error = APIVersionEmpty | KindEmpty | NoNameOrSelector | NameAndSelector
  | ClaimAPIVersion string | ClaimSelect | SelectWithoutSelector | SelectUnknown string | NamespaceEmpty

datatype path_error = PathNameEmpty | PrefixWithoutSnapshot | SnapshotOfSnapshot string string
  | SnapshotUnknown string

datatype property_error = PropertyName string | PropertyValue | PropertyUnder string

datatype source_error = LabelBlank | NotExactlyOneKind | LabelOnClaimSelector | LabelOnProperty

datatype library_error = ChangerEmpty | NoDrives | EmptyDrive nat | DuplicateDrive nat string
  | NoBlankSlots | NegativeSlot nat int | DuplicateSlot nat int | CapacityNotPositive int
  | IOWaitNotPositive int | WriteFailureWaitNotPositive int

datatype redundancy_error = NoRedundancyMode | TwoRedundancyModes | PercentOutOfRange string rat

datatype burn_error = NoBurnDrives | BurnCopiesTooSmall int | EmptyBurnDrive nat
  | DuplicateBurnDrive nat string | BurnWaitNotPositive int

datatype config_error =
    NoSources
  | InSource nat source_error
  | InK8s nat k8s_error
  | InZFSPath nat path_error
  | InZFSProperty nat property_error
  | CopiesTooSmall int
  | InLibrary library_error
  | BlankSlotsNotMultiple nat int
  | InRedundancy redundancy_error
  | NoRecipients
  | EmptyRecipient nat
  | NoIdentity
  | OverheadBelowOne rat
  | InOpticalBurn burn_error

definition minRedundancyPercent :: int where "minRedundancyPercent = 1"

definition maxRedundancyPercent :: int where "maxRedundancyPercent = 100"

definition validateRedundancyPercent :: "string \<Rightarrow> rat \<Rightarrow> config_error + unit" where
  "validateRedundancyPercent field value =
     (if value < of_int minRedundancyPercent \<or> value > of_int maxRedundancyPercent
         \<or> value \<noteq> of_int (math_Trunc value)
      then Inl (InRedundancy (PercentOutOfRange field value)) else Inr ())"

definition Redundancy_validate :: "Redundancy \<Rightarrow> config_error + unit" where
  "Redundancy_validate r =
     (case (red_TargetPercentage r, red_FillToCapacity r) of
        (None, None) \<Rightarrow> Inl (InRedundancy NoRedundancyMode)
      | (Some _, Some _) \<Rightarrow> Inl (InRedundancy TwoRedundancyModes)
      | (Some percent, None) \<Rightarrow> validateRedundancyPercent ''redundancy.targetPercentage'' percent
      | (None, Some fill) \<Rightarrow>
          validateRedundancyPercent ''redundancy.fillToCapacity.floor'' (fill_Floor fill))"

definition OpticalBurn_validate :: "OpticalBurn option \<Rightarrow> config_error + unit" where
  "OpticalBurn_validate ob =
     (case ob of None \<Rightarrow> Inr () | Some b \<Rightarrow>
        bindE (guardE (length (ob_Drives b) \<noteq> 0) (InOpticalBurn NoBurnDrives)) (\<lambda>_.
        bindE (guardE (\<not> ob_Copies b < 1) (InOpticalBurn (BurnCopiesTooSmall (ob_Copies b)))) (\<lambda>_.
        bindE (uniqueE (\<lambda>i drive. if TrimSpace drive = [] then Some (InOpticalBurn (EmptyBurnDrive i)) else None)
                 (\<lambda>i drive. InOpticalBurn (DuplicateBurnDrive i drive)) 0 [] (ob_Drives b)) (\<lambda>_.
        (case ob_BurnWaitTimeoutSeconds b of
           Some s \<Rightarrow> guardE (\<not> s \<le> 0) (InOpticalBurn (BurnWaitNotPositive s))
         | None \<Rightarrow> Inr ())))))"

definition Delivery_validate :: "Delivery \<Rightarrow> config_error + unit" where
  "Delivery_validate d = OpticalBurn_validate (del_OpticalBurn d)"

definition zfsPropertyNameChars :: string where
  "zfsPropertyNameChars = ''abcdefghijklmnopqrstuvwxyz0123456789:-_.+''"

definition ZFSPropertySource_validate :: "nat \<Rightarrow> ZFSPropertySource \<Rightarrow> config_error + unit" where
  "ZFSPropertySource_validate index z =
     (if \<not> ContainsChar (zq_Name z) (CHR '':'') \<or> Trim (zq_Name z) zfsPropertyNameChars \<noteq> []
      then Inl (InZFSProperty index (PropertyName (zq_Name z)))
      else if zq_Value z = [] \<or> ContainsAny (zq_Value z) [CHR 0x09, CHR 0x0A, CHR 0x0D]
      then Inl (InZFSProperty index PropertyValue)
      else if ContainsChar (zq_Under z) (CHR ''@'') then Inl (InZFSProperty index (PropertyUnder (zq_Under z)))
      else Inr ())"

definition ZFSPathSource_validate :: "nat \<Rightarrow> ZFSPathSource \<Rightarrow> config_error + unit" where
  "ZFSPathSource_validate index z =
     (if zp_Name z = [] then Inl (InZFSPath index PathNameEmpty)
      else if zp_Snapshot z = [] then
        (if zp_Prefix z \<noteq> [] then Inl (InZFSPath index PrefixWithoutSnapshot) else Inr ())
      else if zp_Snapshot z = SnapshotNewest then
        (if ContainsChar (zp_Name z) (CHR ''@'')
         then Inl (InZFSPath index (SnapshotOfSnapshot (zp_Snapshot z) (zp_Name z))) else Inr ())
      else Inl (InZFSPath index (SnapshotUnknown (zp_Snapshot z))))"

definition K8sRef_validate :: "nat \<Rightarrow> K8sRef \<Rightarrow> config_error + unit" where
  "K8sRef_validate index k =
     (if k8_APIVersion k = [] then Inl (InK8s index APIVersionEmpty)
      else if k8_Kind k = [] then Inl (InK8s index KindEmpty)
      else
        let hasName = k8_Name k \<noteq> []; hasSelector = k8_LabelSelector k \<noteq> [] in
        if \<not> hasName \<and> \<not> hasSelector then Inl (InK8s index NoNameOrSelector)
        else if hasName \<and> hasSelector then Inl (InK8s index NameAndSelector)
        else if k8_Kind k = KindPVC \<and> k8_APIVersion k \<noteq> ''v1''
        then Inl (InK8s index (ClaimAPIVersion (k8_APIVersion k)))
        else if k8_Kind k = KindPVC \<and> k8_Select k \<noteq> [] then Inl (InK8s index ClaimSelect)
        else bindE
          (if k8_Select k = [] then Inr ()
           else if k8_Select k = SelectAll \<or> k8_Select k = SelectNewestPerPVC then
             guardE hasSelector (InK8s index SelectWithoutSelector)
           else Inl (InK8s index (SelectUnknown (k8_Select k))))
          (\<lambda>_. if hasName \<and> k8_Namespace k = [] then Inl (InK8s index NamespaceEmpty) else Inr ()))"

definition Source_validate :: "nat \<Rightarrow> Source \<Rightarrow> config_error + unit" where
  "Source_validate index s =
     (if (case src_Label s of Some label \<Rightarrow> TrimSpace label = [] | None \<Rightarrow> False)
      then Inl (InSource index LabelBlank)
      else
        let set_count = length (filter (\<lambda>present. present)
              [src_K8s s \<noteq> None, src_ZFSPath s \<noteq> None, src_ZFSProperty s \<noteq> None]) in
        if set_count \<noteq> 1 then Inl (InSource index NotExactlyOneKind)
        else (case src_K8s s of
            Some k \<Rightarrow>
              if src_Label s \<noteq> None \<and> k8_Kind k = KindPVC \<and> k8_LabelSelector k \<noteq> []
              then Inl (InSource index LabelOnClaimSelector) else K8sRef_validate index k
          | None \<Rightarrow> (case src_ZFSPath s of
              Some z \<Rightarrow> ZFSPathSource_validate index z
            | None \<Rightarrow>
                if src_Label s \<noteq> None then Inl (InSource index LabelOnProperty)
                else (case src_ZFSProperty s of
                    Some q \<Rightarrow> ZFSPropertySource_validate index q | None \<Rightarrow> Inr ()))))"

definition Library_validate :: "Library \<Rightarrow> config_error + unit" where
  "Library_validate l =
     bindE (guardE (lib_Changer l \<noteq> []) (InLibrary ChangerEmpty)) (\<lambda>_.
     bindE (guardE (length (lib_Drives l) \<noteq> 0) (InLibrary NoDrives)) (\<lambda>_.
     bindE (uniqueE (\<lambda>i drive. if TrimSpace drive = [] then Some (InLibrary (EmptyDrive i)) else None)
              (\<lambda>i drive. InLibrary (DuplicateDrive i drive)) 0 [] (lib_Drives l)) (\<lambda>_.
     bindE (guardE (length (lib_BlankSlots l) \<noteq> 0) (InLibrary NoBlankSlots)) (\<lambda>_.
     bindE (uniqueE (\<lambda>i slot. if slot < 0 then Some (InLibrary (NegativeSlot i slot)) else None)
              (\<lambda>i slot. InLibrary (DuplicateSlot i slot)) 0 [] (lib_BlankSlots l)) (\<lambda>_.
     bindE (guardE (\<not> lib_TapeCapacityBytes l \<le> 0) (InLibrary (CapacityNotPositive (lib_TapeCapacityBytes l)))) (\<lambda>_.
     bindE (case lib_IOWaitTimeoutSeconds l of
              Some s \<Rightarrow> guardE (\<not> s \<le> 0) (InLibrary (IOWaitNotPositive s)) | None \<Rightarrow> Inr ()) (\<lambda>_.
     (case lib_WriteFailureWaitTimeoutSeconds l of
        Some s \<Rightarrow> guardE (\<not> s \<le> 0) (InLibrary (WriteFailureWaitNotPositive s)) | None \<Rightarrow> Inr ()))))))))"

definition Validate :: "Config \<Rightarrow> config_error + unit" where
  "Validate c =
     bindE (guardE (length (cfg_Sources c) \<noteq> 0) NoSources) (\<lambda>_.
     bindE (eachE Source_validate 0 (cfg_Sources c)) (\<lambda>_.
     bindE (guardE (\<not> cfg_Copies c < 1) (CopiesTooSmall (cfg_Copies c))) (\<lambda>_.
     bindE (Library_validate (cfg_Library c)) (\<lambda>_.
     bindE (guardE (int (length (lib_BlankSlots (cfg_Library c))) mod cfg_Copies c = 0)
              (BlankSlotsNotMultiple (length (lib_BlankSlots (cfg_Library c))) (cfg_Copies c))) (\<lambda>_.
     bindE (Redundancy_validate (cfg_Redundancy c)) (\<lambda>_.
     bindE (guardE (length (enc_Recipients (cfg_Encryption c)) \<noteq> 0) NoRecipients) (\<lambda>_.
     bindE (eachE (\<lambda>i recipient. guardE (TrimSpace recipient \<noteq> []) (EmptyRecipient i)) 0
              (enc_Recipients (cfg_Encryption c))) (\<lambda>_.
     bindE (guardE (TrimSpace (enc_Identity (cfg_Encryption c)) \<noteq> []) NoIdentity) (\<lambda>_.
     bindE (case cfg_FeasibilityOverhead c of
              Some v \<Rightarrow> guardE (\<not> v < 1) (OverheadBelowOne v) | None \<Rightarrow> Inr ()) (\<lambda>_.
     Delivery_validate (cfg_Delivery c)))))))))))"

section \<open>What a valid configuration is\<close>

text \<open>
  The declarative reading of the rules, free of the order and the loops of the code.
\<close>

definition nonblank :: "string \<Rightarrow> bool" where
  "nonblank s \<longleftrightarrow> TrimSpace s \<noteq> []"

definition valid_device_list :: "string list \<Rightarrow> bool" where
  "valid_device_list ds \<longleftrightarrow> ds \<noteq> [] \<and> distinct ds \<and> (\<forall>d \<in> set ds. nonblank d)"

definition positive_if_set :: "int option \<Rightarrow> bool" where
  "positive_if_set v \<longleftrightarrow> (\<forall>s. v = Some s \<longrightarrow> 0 < s)"

definition valid_k8s :: "K8sRef \<Rightarrow> bool" where
  "valid_k8s k \<longleftrightarrow> k8_APIVersion k \<noteq> [] \<and> k8_Kind k \<noteq> []
     \<and> (k8_Name k = [] \<longleftrightarrow> k8_LabelSelector k \<noteq> [])
     \<and> (k8_Kind k = KindPVC \<longrightarrow> k8_APIVersion k = ''v1'' \<and> k8_Select k = [])
     \<and> k8_Select k \<in> {[], SelectAll, SelectNewestPerPVC}
     \<and> (k8_Select k \<noteq> [] \<longrightarrow> k8_LabelSelector k \<noteq> [])
     \<and> (k8_Name k \<noteq> [] \<longrightarrow> k8_Namespace k \<noteq> [])"

definition valid_zfs_path :: "ZFSPathSource \<Rightarrow> bool" where
  "valid_zfs_path z \<longleftrightarrow> zp_Name z \<noteq> []
     \<and> (zp_Snapshot z = [] \<and> zp_Prefix z = []
        \<or> zp_Snapshot z = SnapshotNewest \<and> CHR ''@'' \<notin> set (zp_Name z))"

definition valid_zfs_property :: "ZFSPropertySource \<Rightarrow> bool" where
  "valid_zfs_property q \<longleftrightarrow> CHR '':'' \<in> set (zq_Name q)
     \<and> set (zq_Name q) \<subseteq> set zfsPropertyNameChars \<and> zq_Value q \<noteq> []
     \<and> set (zq_Value q) \<inter> {CHR 0x09, CHR 0x0A, CHR 0x0D} = {} \<and> CHR ''@'' \<notin> set (zq_Under q)"

definition valid_source :: "Source \<Rightarrow> bool" where
  "valid_source s \<longleftrightarrow> (\<forall>l. src_Label s = Some l \<longrightarrow> nonblank l) \<and>
     ((\<exists>k. src_K8s s = Some k \<and> src_ZFSPath s = None \<and> src_ZFSProperty s = None \<and> valid_k8s k
         \<and> (src_Label s = None \<or> k8_Kind k \<noteq> KindPVC \<or> k8_LabelSelector k = []))
    \<or> (\<exists>z. src_K8s s = None \<and> src_ZFSPath s = Some z \<and> src_ZFSProperty s = None \<and> valid_zfs_path z)
    \<or> (\<exists>q. src_K8s s = None \<and> src_ZFSPath s = None \<and> src_ZFSProperty s = Some q
         \<and> valid_zfs_property q \<and> src_Label s = None))"

definition valid_library :: "Library \<Rightarrow> bool" where
  "valid_library l \<longleftrightarrow> lib_Changer l \<noteq> [] \<and> valid_device_list (lib_Drives l)
     \<and> lib_BlankSlots l \<noteq> [] \<and> distinct (lib_BlankSlots l) \<and> (\<forall>s \<in> set (lib_BlankSlots l). 0 \<le> s)
     \<and> 0 < lib_TapeCapacityBytes l \<and> positive_if_set (lib_IOWaitTimeoutSeconds l)
     \<and> positive_if_set (lib_WriteFailureWaitTimeoutSeconds l)"

definition whole_percent :: "rat \<Rightarrow> bool" where
  "whole_percent v \<longleftrightarrow> (\<exists>k. 1 \<le> k \<and> k \<le> 100 \<and> v = of_int k)"

definition valid_redundancy :: "Redundancy \<Rightarrow> bool" where
  "valid_redundancy r \<longleftrightarrow>
     (\<exists>p. red_TargetPercentage r = Some p \<and> red_FillToCapacity r = None \<and> whole_percent p)
   \<or> (\<exists>f. red_TargetPercentage r = None \<and> red_FillToCapacity r = Some f \<and> whole_percent (fill_Floor f))"

definition valid_burn :: "OpticalBurn option \<Rightarrow> bool" where
  "valid_burn ob \<longleftrightarrow> (\<forall>b. ob = Some b \<longrightarrow> valid_device_list (ob_Drives b) \<and> 1 \<le> ob_Copies b
     \<and> positive_if_set (ob_BurnWaitTimeoutSeconds b))"

definition valid_config :: "Config \<Rightarrow> bool" where
  "valid_config c \<longleftrightarrow> cfg_Sources c \<noteq> [] \<and> (\<forall>s \<in> set (cfg_Sources c). valid_source s)
     \<and> 1 \<le> cfg_Copies c \<and> valid_library (cfg_Library c)
     \<and> cfg_Copies c dvd int (length (lib_BlankSlots (cfg_Library c)))
     \<and> valid_redundancy (cfg_Redundancy c)
     \<and> enc_Recipients (cfg_Encryption c) \<noteq> [] \<and> (\<forall>r \<in> set (enc_Recipients (cfg_Encryption c)). nonblank r)
     \<and> nonblank (enc_Identity (cfg_Encryption c))
     \<and> (\<forall>v. cfg_FeasibilityOverhead c = Some v \<longrightarrow> 1 \<le> v)
     \<and> valid_burn (del_OpticalBurn (cfg_Delivery c))"

subsection \<open>Each validator decides its rules\<close>

lemma whole_percent_iff:
  "validateRedundancyPercent field v = Inr () \<longleftrightarrow> whole_percent v"
proof -
  have "v = of_int (math_Trunc v) \<longleftrightarrow> (\<exists>k. v = of_int k)" by (rule math_Trunc_int_iff)
  then have "validateRedundancyPercent field v = Inr () \<longleftrightarrow> 1 \<le> v \<and> v \<le> 100 \<and> (\<exists>k. v = of_int k)"
    by (simp add: validateRedundancyPercent_def minRedundancyPercent_def maxRedundancyPercent_def
        not_less [symmetric])
  also have "\<dots> \<longleftrightarrow> whole_percent v" by (auto simp: whole_percent_def)
  finally show ?thesis .
qed

lemma Redundancy_validate_ok: "Redundancy_validate r = Inr () \<longleftrightarrow> valid_redundancy r"
  by (auto simp: Redundancy_validate_def valid_redundancy_def whole_percent_iff split: option.splits)

lemma positive_if_set_ok:
  "(case v of Some s \<Rightarrow> guardE (\<not> s \<le> 0) (e s) | None \<Rightarrow> Inr ()) = Inr () \<longleftrightarrow> positive_if_set v"
  by (auto simp: positive_if_set_def run_simps split: option.splits)

lemma device_list_ok:
  "ds \<noteq> [] \<and> uniqueE (\<lambda>i d. if TrimSpace d = [] then Some (e i) else None) dup 0 [] ds = Inr ()
     \<longleftrightarrow> valid_device_list ds"
  by (auto simp: valid_device_list_def nonblank_def uniqueE_ok all_set_conv_all_nth split: if_splits)

lemma OpticalBurn_validate_ok: "OpticalBurn_validate ob = Inr () \<longleftrightarrow> valid_burn ob"
proof (cases ob)
  case (Some b)
  show ?thesis
    using device_list_ok [of "ob_Drives b" "\<lambda>i. InOpticalBurn (EmptyBurnDrive i)"
        "\<lambda>i drive. InOpticalBurn (DuplicateBurnDrive i drive)", symmetric]
    by (auto simp: Some OpticalBurn_validate_def valid_burn_def run_simps positive_if_set_ok)
qed (simp add: OpticalBurn_validate_def valid_burn_def)

lemma slots_ok:
  "uniqueE (\<lambda>i slot. if slot < 0 then Some (e i slot) else None) dup 0 [] (slots :: int list) = Inr ()
     \<longleftrightarrow> distinct slots \<and> (\<forall>s \<in> set slots. 0 \<le> s)"
  by (auto simp: uniqueE_ok all_set_conv_all_nth not_less split: if_splits)

lemma Library_validate_ok: "Library_validate l = Inr () \<longleftrightarrow> valid_library l"
  using device_list_ok [of "lib_Drives l" "\<lambda>i. InLibrary (EmptyDrive i)"
      "\<lambda>i drive. InLibrary (DuplicateDrive i drive)", symmetric]
  by (auto simp: Library_validate_def valid_library_def run_simps positive_if_set_ok slots_ok)

lemma K8sRef_validate_ok: "K8sRef_validate i k = Inr () \<longleftrightarrow> valid_k8s k"
  by (auto simp: K8sRef_validate_def valid_k8s_def Let_def run_simps)

lemma ZFSPathSource_validate_ok: "ZFSPathSource_validate i z = Inr () \<longleftrightarrow> valid_zfs_path z"
  by (auto simp: ZFSPathSource_validate_def valid_zfs_path_def ContainsChar_def SnapshotNewest_def)

lemma ZFSPropertySource_validate_ok:
  "ZFSPropertySource_validate i q = Inr () \<longleftrightarrow> valid_zfs_property q"
  by (auto simp: ZFSPropertySource_validate_def valid_zfs_property_def ContainsChar_def
      ContainsAny_def Trim_empty_iff)

lemma label_ok:
  "(case l of Some label \<Rightarrow> TrimSpace label = [] | None \<Rightarrow> False)
     \<longleftrightarrow> \<not> (\<forall>x. l = Some x \<longrightarrow> nonblank x)"
  by (simp add: nonblank_def split: option.splits)

lemma Source_validate_ok: "Source_validate i s = Inr () \<longleftrightarrow> valid_source s"
proof (cases "src_K8s s")
  case (Some k)
  then show ?thesis unfolding Source_validate_def valid_source_def label_ok
    by (simp add: K8sRef_validate_ok)
next
  case None
  show ?thesis
  proof (cases "src_ZFSPath s")
    case (Some z)
    with None show ?thesis unfolding Source_validate_def valid_source_def label_ok
      by (simp add: ZFSPathSource_validate_ok)
  next
    case path: None
    with None show ?thesis unfolding Source_validate_def valid_source_def label_ok
      by (cases "src_ZFSProperty s") (simp_all add: ZFSPropertySource_validate_ok)
  qed
qed

text \<open>C6: \<open>Validate\<close> accepts a configuration exactly when it is valid: its sources are each of
  one well-formed kind, drives, slots and burners are distinct and well-formed, the blank slots
  form whole copy sets, one redundancy mode is set to a whole percentage, and every timeout and
  multiplier is in range. Order of the checks and the seen-maps of the code do not matter to
  acceptance.\<close>

theorem validate_iff_valid: "Validate c = Inr () \<longleftrightarrow> valid_config c"
proof -
  have ns: "length xs \<noteq> 0 \<longleftrightarrow> xs \<noteq> []" for xs :: "'x list" by simp
  have ge: "\<not> cfg_Copies c < 1 \<longleftrightarrow> 1 \<le> cfg_Copies c" by (rule not_less)
  have ov: "(case v of Some x \<Rightarrow> guardE (\<not> x < 1) (OverheadBelowOne x) | None \<Rightarrow> Inr ()) = Inr ()
      \<longleftrightarrow> (\<forall>x. v = Some x \<longrightarrow> 1 \<le> x)" for v :: "rat option"
    by (cases v) (simp_all add: guardE_eq not_less)
  have rc: "eachE (\<lambda>i r. guardE (TrimSpace r \<noteq> []) (EmptyRecipient i)) 0 rs = Inr ()
      \<longleftrightarrow> (\<forall>r \<in> set rs. nonblank r)" for rs
    by (rule eachE_all) (simp add: guardE_eq nonblank_def)
  show ?thesis
    unfolding Validate_def valid_config_def bindE_unit_iff guardE_eq ns ge ov rc
      eachE_all [of Source_validate, OF Source_validate_ok] Library_validate_ok
      Redundancy_validate_ok Delivery_validate_def OpticalBurn_validate_ok nonblank_def
      dvd_eq_mod_eq_0 by blast
qed

fun error_source :: "config_error \<Rightarrow> nat option" where
  "error_source (InSource i e) = Some i"
| "error_source (InK8s i k) = Some i"
| "error_source (InZFSPath i p) = Some i"
| "error_source (InZFSProperty i q) = Some i"
| "error_source e = None"

lemma Source_validate_error: "Source_validate i s = Inl e \<Longrightarrow> error_source e = Some i"
  by (auto simp: Source_validate_def K8sRef_validate_def ZFSPathSource_validate_def
      ZFSPropertySource_validate_def Let_def run_simps split: if_splits option.splits)

lemma uniqueE_error:
  "uniqueE check dup i seen xs = Inl e \<Longrightarrow> (\<exists>k x. check k x = Some e \<or> dup k x = e)"
  by (induction xs arbitrary: i seen) (auto split: option.splits if_splits)

lemma error_source_later:
  "Library_validate l = Inl e \<Longrightarrow> error_source e = None"
  "Redundancy_validate r = Inl e \<Longrightarrow> error_source e = None"
  "Delivery_validate d = Inl e \<Longrightarrow> error_source e = None"
  by (auto simp: Library_validate_def Redundancy_validate_def Delivery_validate_def
      OpticalBurn_validate_def validateRedundancyPercent_def run_simps
      split: option.splits if_splits dest!: uniqueE_error)

lemma eachE_guard_error:
  "eachE (\<lambda>i x. guardE (P x) (E i)) n xs = Inl e \<Longrightarrow> \<exists>k. e = E k"
  by (induction xs arbitrary: n) (auto simp: run_simps)

text \<open>A rejection names the first fault: when \<open>Validate\<close> reports source \<open>i\<close>, every earlier
  source is valid and source \<open>i\<close> is not; when it reports anything else and there are sources,
  all sources are valid.\<close>

theorem validate_reports_first_source:
  assumes "Validate c = Inl e" and "cfg_Sources c \<noteq> []"
  shows "case error_source e of
      Some i \<Rightarrow> i < length (cfg_Sources c) \<and> \<not> valid_source (cfg_Sources c ! i)
        \<and> (\<forall>k < i. valid_source (cfg_Sources c ! k))
    | None \<Rightarrow> \<forall>s \<in> set (cfg_Sources c). valid_source s"
proof (cases "eachE Source_validate 0 (cfg_Sources c)")
  case (Inl e')
  then have "e' = e" using assms by (simp add: Validate_def)
  with Inl obtain k where k: "k < length (cfg_Sources c)" "Source_validate k (cfg_Sources c ! k) = Inl e"
    and before: "\<forall>j < k. Source_validate j (cfg_Sources c ! j) = Inr ()"
    by (auto simp: eachE_error)
  have "\<not> valid_source (cfg_Sources c ! k)"
    using k(2) Source_validate_ok [of k "cfg_Sources c ! k"] by simp
  then show ?thesis using k before Source_validate_error [OF k(2)] by (simp add: Source_validate_ok)
next
  case (Inr u)
  then have all: "\<forall>s \<in> set (cfg_Sources c). valid_source s"
    by (simp add: eachE_all [of Source_validate, OF Source_validate_ok])
  have "error_source e = None" using assms Inr
    by (auto simp: Validate_def run_simps split: option.splits
        dest: error_source_later dest!: eachE_guard_error)
  then show ?thesis using all by simp
qed

definition example_source :: "string \<Rightarrow> Source" where
  "example_source name = \<lparr> src_Compression = None, src_K8s = None,
     src_ZFSPath = Some \<lparr> zp_Name = name, zp_Snapshot = [], zp_Prefix = [] \<rparr>,
     src_ZFSProperty = None, src_Label = None \<rparr>"

definition example_config :: "Source list \<Rightarrow> Config" where
  "example_config sources = \<lparr> cfg_Sources = sources, cfg_Copies = 2,
     cfg_Library = \<lparr> lib_Changer = ''/dev/sch0'', lib_Drives = [''/dev/nst0'', ''/dev/nst1''],
       lib_BlankSlots = [1, 2, 5, 6], lib_TapeCapacityBytes = 18000000000000,
       lib_IOWaitTimeoutSeconds = None, lib_WriteFailureWaitTimeoutSeconds = Some 60,
       lib_AllowNonBlankTapes = False, lib_MirrorSourceChanger = [] \<rparr>,
     cfg_Redundancy = \<lparr> red_TargetPercentage = None,
       red_FillToCapacity = Some \<lparr> fill_Floor = 10 \<rparr> \<rparr>,
     cfg_Encryption = \<lparr> enc_Recipients = [''age1abc''], enc_Identity = ''AGE-SECRET-KEY-1'' \<rparr>,
     cfg_Delivery = \<lparr> del_WebhookURL = [], del_OpticalBurn = None \<rparr>,
     cfg_FeasibilityOverhead = None \<rparr>"

lemma example_config_valid: "Validate (example_config [example_source ''pool/a'']) = Inr ()"
  by code_simp

lemma example_config_invalid:
  "Validate (example_config [example_source ''pool/a'', example_source []])
     = Inl (InZFSPath 1 PathNameEmpty)"
  by code_simp

lemma validate_reports_first_source_witness:
  "(1::nat) < 2 \<and> \<not> valid_source (example_source []) \<and> valid_source (example_source ''pool/a'')"
  using validate_reports_first_source [OF example_config_invalid]
  by (simp add: example_config_def)

end
