(* ===== verification/Types.thy ===== *)
theory Types
  imports Config
begin

text \<open>
  The data passed between the phases of the backup workflow (\<open>workflows/backup/types.go\<close>).
  Field names carry a prefix of their Go struct. Sizes, slot addresses and indices are \<open>int\<close>
  or \<open>nat\<close> where the code only ever uses them as positions; times are nanoseconds.
\<close>

text \<open>The log pages of a drive after a write (\<open>pkg/tape/tape.go\<close>).\<close>

record TapeAlertFlag =
  taf_Number :: int
  taf_Description :: string
  taf_Set :: bool

record LogPageResult =
  lpr_TapeAlert :: "TapeAlertFlag list"
  lpr_Repositions :: int
  lpr_RepositionsMeasured :: bool

record ResolvedSnapshot =
  rs_ZFSPath :: string
  rs_Dataset :: string
  rs_SnapshotName :: string
  rs_Namespace :: string
  rs_VolumeSnapshot :: string
  rs_PVC :: string
  rs_RunScoped :: bool
  rs_CreatedAt :: int

record ResolvedArchive =
  ra_SourceIndex :: nat
  ra_Label :: string
  ra_Compression :: bool
  ra_Snapshots :: "ResolvedSnapshot list"
  ra_EstimatedBytes :: int
  ra_LogicalBytes :: int

record StagedSlice =
  sl_Path :: string
  sl_SHA256 :: string
  sl_SizeBytes :: int

record StagedArchive =
  sa_SourceIndex :: nat
  sa_Slices :: "StagedSlice list"
  sa_SizeBytes :: int

record PlannedArchive =
  pa_SourceIndex :: nat
  pa_DataBytes :: int
  pa_SliceCount :: int
  pa_PAR2ReservedBytes :: int

record PlannedTape =
  pt_Archives :: "PlannedArchive list"
  pt_UsableBytes :: int

record TapePlan =
  tp_Copies :: int
  tp_Tapes :: "PlannedTape list"

record PAR2Set =
  ps_SourceIndex :: nat
  ps_RedundancyPercent :: int
  ps_Files :: "StagedSlice list"

record TapeAssignment =
  ta_Drive :: string
  ta_DriveIndex :: nat
  ta_BlankSlot :: int
  ta_TapeIndex :: nat
  ta_CopyIndex :: nat

type_synonym driveSet = "TapeAssignment list"

record LoadedTape =
  lt_Barcode :: string
  lt_DriveIndex :: nat
  lt_TapeIndex :: nat
  lt_CopyIndex :: nat
  lt_SourceSlot :: int
  lt_STDevice :: string
  lt_SGDevice :: string
  lt_OverwroteNonBlank :: bool

text \<open>The drive rates are finite \<open>float64\<close> values, so they are rationals.\<close>

record WriteHealth =
  wh_Measured :: bool
  wh_ThroughputMBps :: rat
  wh_ThroughputUnmeasurable :: bool
  wh_FloorMBps :: rat
  wh_FloorKnown :: bool
  wh_BelowFloor :: bool
  wh_Repositions :: int
  wh_RepositionsMeasured :: bool
  wh_TapeAlertFlags :: "string list"

definition Healthy :: "WriteHealth \<Rightarrow> bool" where
  "Healthy h \<longleftrightarrow> wh_Measured h \<and> wh_FloorKnown h \<and> \<not> wh_BelowFloor h
     \<and> wh_RepositionsMeasured h \<and> wh_Repositions h = 0 \<and> wh_TapeAlertFlags h = []"

record WrittenTape =
  wt_Barcode :: string
  wt_DriveIndex :: nat
  wt_TapeIndex :: nat
  wt_CopyIndex :: nat
  wt_SourceSlot :: int
  wt_IndexXMLPath :: string
  wt_WriteHealth :: WriteHealth
  wt_MediaGeneration :: string
  wt_OverwroteNonBlank :: bool

record EjectResult =
  ej_InIOStation :: "string list"
  ej_Remaining :: "WrittenTape list"

record IOStatus =
  io_FreeSlots :: int
  io_AccessReported :: bool
  io_StationClosed :: bool

definition CanAutoResume :: "IOStatus \<Rightarrow> bool" where
  "CanAutoResume s \<longleftrightarrow> io_AccessReported s \<and> io_StationClosed s \<and> 0 < io_FreeSlots s"

datatype PauseKind = PauseNone | PauseEject | PauseWriteFailure | PauseBurn

record CurrentPause =
  cp_Kind :: PauseKind
  cp_Phase :: string
  cp_AffectedTapes :: "string list"
  cp_ReloadSlots :: "int list"
  cp_AwaitingExport :: nat
  cp_Devices :: "string list"
  cp_ErrorSummary :: string

definition noPause :: CurrentPause where
  "noPause = \<lparr> cp_Kind = PauseNone, cp_Phase = [], cp_AffectedTapes = [], cp_ReloadSlots = [],
     cp_AwaitingExport = 0, cp_Devices = [], cp_ErrorSummary = [] \<rparr>"

section \<open>Sizes of a planned tape\<close>

definition Footprint :: "PlannedArchive \<Rightarrow> int" where
  "Footprint p = pa_DataBytes p + pa_PAR2ReservedBytes p"

definition PlannedBytes :: "PlannedTape \<Rightarrow> int" where
  "PlannedBytes t = foldl (\<lambda>tot archive. tot + Footprint archive) 0 (pt_Archives t)"

definition DataBytes :: "PlannedTape \<Rightarrow> int" where
  "DataBytes t = foldl (\<lambda>tot archive. tot + pa_DataBytes archive) 0 (pt_Archives t)"

lemma foldl_add_sum: "foldl (\<lambda>tot x. tot + f x) a xs = a + sum_list (map f xs)" for a :: int
  by (induction xs arbitrary: a) (simp_all add: ac_simps)

lemma PlannedBytes_sum: "PlannedBytes t = sum_list (map Footprint (pt_Archives t))"
  by (simp add: PlannedBytes_def foldl_add_sum)

lemma DataBytes_sum: "DataBytes t = sum_list (map pa_DataBytes (pt_Archives t))"
  by (simp add: DataBytes_def foldl_add_sum)

lemma sum_list_map_mset_eq: "mset xs = mset ys \<Longrightarrow> sum_list (map f xs) = sum_list (map f ys)"
  for f :: "'a \<Rightarrow> int"
  by (metis mset_map sum_mset_sum_list)

end
