(* ===== verification/Pack.thy ===== *)
theory Pack
  imports Types Par2
begin

text \<open>
  The Pack phase (\<open>workflows/backup/plan.go\<close>): archives are placed on tapes by their measured
  size plus the PAR2 bound, first-fit in decreasing order of footprint.
\<close>

section \<open>Capacity and percentages\<close>

definition ltfsOverheadFraction :: rat where "ltfsOverheadFraction = rnd (5 / 100)"

definition minPAR2Percent :: int where "minPAR2Percent = 1"

definition maxPAR2Percent :: int where "maxPAR2Percent = 100"

definition usableCapacity :: "int \<Rightarrow> int" where
  "usableCapacity native =
     (let reserve = math_Ceil (fmul (float64 native) ltfsOverheadFraction) in native - reserve)"

definition clampPercent :: "int \<Rightarrow> int" where
  "clampPercent percent =
     (if percent < minPAR2Percent then minPAR2Percent
      else if percent > maxPAR2Percent then maxPAR2Percent else percent)"

definition par2ReservePercent :: "Redundancy \<Rightarrow> int" where
  "par2ReservePercent redundancy =
     (case red_TargetPercentage redundancy of
        Some percent \<Rightarrow> clampPercent (math_Round percent)
      | None \<Rightarrow> (case red_FillToCapacity redundancy of
          Some fill \<Rightarrow> clampPercent (math_Ceil (fill_Floor fill))
        | None \<Rightarrow> minPAR2Percent))"

definition reservedBytes :: "int \<Rightarrow> int \<Rightarrow> int \<Rightarrow> int" where
  "reservedBytes dataBytes sliceCount percent = MaxOutputBytes dataBytes sliceCount percent"

section \<open>First-fit decreasing\<close>

datatype pack_error =
    PackCopies int
  | NoUsableSpace int
  | FootprintTooLarge nat int int int int

definition planned_item :: "int \<Rightarrow> StagedArchive \<Rightarrow> PlannedArchive" where
  "planned_item reservePercent archive =
     \<lparr> pa_SourceIndex = sa_SourceIndex archive, pa_DataBytes = sa_SizeBytes archive,
       pa_SliceCount = int (length (sa_Slices archive)),
       pa_PAR2ReservedBytes =
         reservedBytes (sa_SizeBytes archive) (int (length (sa_Slices archive))) reservePercent \<rparr>"

definition pack_item :: "int \<Rightarrow> int \<Rightarrow> StagedArchive \<Rightarrow> pack_error + PlannedArchive" where
  "pack_item usable reservePercent archive =
     (let item = planned_item reservePercent archive; footprint = Footprint item in
      if footprint > usable
      then Inl (FootprintTooLarge (sa_SourceIndex archive) footprint (pa_DataBytes item)
             (pa_PAR2ReservedBytes item) usable)
      else Inr item)"

fun place_on :: "int \<Rightarrow> PlannedArchive \<Rightarrow> PlannedTape list \<Rightarrow> PlannedTape list" where
  "place_on usable item [] = [\<lparr> pt_Archives = [item], pt_UsableBytes = usable \<rparr>]"
| "place_on usable item (tape # tapes) =
     (if PlannedBytes tape + Footprint item \<le> usable
      then tape\<lparr> pt_Archives := pt_Archives tape @ [item] \<rparr> # tapes
      else tape # place_on usable item tapes)"

definition sort_tape :: "PlannedTape \<Rightarrow> PlannedTape" where
  "sort_tape tape = tape\<lparr> pt_Archives := sort_key pa_SourceIndex (pt_Archives tape) \<rparr>"

definition pack :: "Config \<Rightarrow> StagedArchive list \<Rightarrow> pack_error + TapePlan" where
  "pack cfg staged =
     (if staged = [] then Inr \<lparr> tp_Copies = cfg_Copies cfg, tp_Tapes = [] \<rparr>
      else
        let copies = cfg_Copies cfg in
        if copies < 1 then Inl (PackCopies copies)
        else
          let capacity = lib_TapeCapacityBytes (cfg_Library cfg); usable = usableCapacity capacity in
          if usable \<le> 0 then Inl (NoUsableSpace capacity)
          else bindE (mapE (pack_item usable (par2ReservePercent (cfg_Redundancy cfg))) staged) (\<lambda>items.
            let sorted_items = sort_key (\<lambda>item. - Footprint item) items;
                tapes = foldl (\<lambda>tapes item. place_on usable item tapes) [] sorted_items
            in Inr \<lparr> tp_Copies = copies, tp_Tapes = map sort_tape tapes \<rparr>))"

subsection \<open>Placement\<close>

definition tapes_mset :: "PlannedTape list \<Rightarrow> PlannedArchive multiset" where
  "tapes_mset tapes = sum_list (map (\<lambda>t. mset (pt_Archives t)) tapes)"

definition tape_fits :: "int \<Rightarrow> PlannedTape \<Rightarrow> bool" where
  "tape_fits usable t \<longleftrightarrow> pt_Archives t \<noteq> [] \<and> pt_UsableBytes t = usable \<and> PlannedBytes t \<le> usable"

lemma PlannedBytes_append [simp]:
  "PlannedBytes (t\<lparr> pt_Archives := pt_Archives t @ [item] \<rparr>) = PlannedBytes t + Footprint item"
  by (simp add: PlannedBytes_sum)

lemma place_on_mset: "tapes_mset (place_on usable item tapes) = add_mset item (tapes_mset tapes)"
  by (induction tapes) (auto simp: tapes_mset_def)

lemma place_on_fits:
  "Footprint item \<le> usable \<Longrightarrow> \<forall>t \<in> set tapes. tape_fits usable t \<Longrightarrow>
     \<forall>t \<in> set (place_on usable item tapes). tape_fits usable t"
proof (induction tapes)
  case Nil
  then show ?case by (simp add: tape_fits_def PlannedBytes_sum)
next
  case (Cons t ts)
  have "tape_fits usable (t\<lparr> pt_Archives := pt_Archives t @ [item] \<rparr>)"
    if "PlannedBytes t + Footprint item \<le> usable"
    using Cons.prems that by (simp add: tape_fits_def)
  then show ?case using Cons by simp
qed

text \<open>
  First-fit leaves no two tapes that could have been one: the later of any two was opened for an
  item that did not fit on the earlier.
\<close>

fun no_merge :: "int \<Rightarrow> PlannedTape list \<Rightarrow> bool" where
  "no_merge usable [] \<longleftrightarrow> True"
| "no_merge usable (t # ts) \<longleftrightarrow>
     (\<forall>u \<in> set ts. usable < PlannedBytes t + PlannedBytes u) \<and> no_merge usable ts"

lemma place_on_bytes:
  assumes "0 \<le> Footprint item" and "u \<in> set (place_on usable item tapes)"
  shows "(\<exists>t \<in> set tapes. PlannedBytes t \<le> PlannedBytes u) \<or> PlannedBytes u = Footprint item"
  using assms(2)
proof (induction tapes)
  case Nil
  then show ?case by (simp add: PlannedBytes_sum)
next
  case (Cons t ts)
  then show ?case using assms(1) by (cases "PlannedBytes t + Footprint item \<le> usable") auto
qed

lemma place_on_no_merge:
  assumes "0 \<le> Footprint item" and "no_merge usable tapes"
  shows "no_merge usable (place_on usable item tapes)"
  using assms(2)
proof (induction tapes)
  case Nil
  then show ?case by simp
next
  case (Cons t ts)
  show ?case
  proof (cases "PlannedBytes t + Footprint item \<le> usable")
    case True
    then show ?thesis using Cons.prems assms(1) by (auto intro: less_le_trans)
  next
    case False
    have "usable < PlannedBytes t + PlannedBytes u" if "u \<in> set (place_on usable item ts)" for u
      using place_on_bytes [OF assms(1) that] Cons.prems False by force
    then show ?thesis using False Cons by simp
  qed
qed

lemma foldl_place_mset:
  "tapes_mset (foldl (\<lambda>tapes item. place_on usable item tapes) tapes items) = tapes_mset tapes + mset items"
  by (induction items arbitrary: tapes) (simp_all add: place_on_mset)

lemma foldl_place_inv:
  assumes "\<forall>item \<in> set items. 0 \<le> Footprint item \<and> Footprint item \<le> usable"
    and "\<forall>t \<in> set tapes. tape_fits usable t" and "no_merge usable tapes"
  shows "(\<forall>t \<in> set (foldl (\<lambda>tapes item. place_on usable item tapes) tapes items). tape_fits usable t)
    \<and> no_merge usable (foldl (\<lambda>tapes item. place_on usable item tapes) tapes items)"
  using assms
proof (induction items arbitrary: tapes)
  case (Cons item items)
  have "\<forall>t \<in> set (place_on usable item tapes). tape_fits usable t"
    using Cons.prems by (intro place_on_fits) auto
  moreover have "no_merge usable (place_on usable item tapes)"
    using Cons.prems by (intro place_on_no_merge) auto
  ultimately show ?case using Cons.IH Cons.prems(1) by simp
qed simp

lemma sort_tape_simps [simp]:
  "mset (pt_Archives (sort_tape t)) = mset (pt_Archives t)"
  "pt_UsableBytes (sort_tape t) = pt_UsableBytes t"
  "PlannedBytes (sort_tape t) = PlannedBytes t"
  "pt_Archives (sort_tape t) = [] \<longleftrightarrow> pt_Archives t = []"
  by (simp_all add: sort_tape_def PlannedBytes_sum cong: sum_list_map_mset_eq)
     (auto intro: sum_list_map_mset_eq dest: arg_cong [of _ _ length])

lemma sort_tape_sorted: "sorted (map pa_SourceIndex (pt_Archives (sort_tape t)))"
  by (simp add: sort_tape_def)

lemma no_merge_sort_tape: "no_merge usable (map sort_tape ts) \<longleftrightarrow> no_merge usable ts"
  by (induction ts) auto

lemma tapes_mset_sort_tape: "tapes_mset (map sort_tape ts) = tapes_mset ts"
  by (simp add: tapes_mset_def o_def)

lemma sum_PlannedBytes_mset:
  "sum_list (map PlannedBytes ts) = (\<Sum>x \<in># tapes_mset ts. Footprint x)"
  by (induction ts) (simp_all add: tapes_mset_def PlannedBytes_sum sum_mset_sum_list [symmetric])

text \<open>First-fit wastes less than half: with at least two tapes, the data exceeds half of them.\<close>

lemma no_merge_total:
  assumes "no_merge usable ts" and "2 \<le> length ts"
  shows "int (length ts) * usable < 2 * sum_list (map PlannedBytes ts)"
  using assms
proof (induction ts)
  case (Cons t ts)
  have above: "\<forall>u \<in> set ts. usable - PlannedBytes t + 1 \<le> PlannedBytes u" using Cons.prems by force
  have sum_ge: "int (length us) * k \<le> sum_list (map PlannedBytes us)"
    if "\<forall>u \<in> set us. k \<le> PlannedBytes u" for us k
    using that by (induction us) (auto simp: algebra_simps)
  show ?case
  proof (cases "2 * PlannedBytes t \<ge> usable \<and> 2 \<le> length ts")
    case True
    then have "int (length ts) * usable < 2 * sum_list (map PlannedBytes ts)"
      using Cons by simp
    then show ?thesis using True by (simp add: algebra_simps)
  next
    case False
    define n where "n = int (length ts)"
    have n: "1 \<le> n" using Cons.prems by (simp add: n_def)
    have lower: "n * (usable - PlannedBytes t + 1) \<le> sum_list (map PlannedBytes ts)"
      using sum_ge [OF above] by (simp add: n_def)
    have "(n - 1) * (2 * PlannedBytes t) \<le> (n - 1) * usable"
      using False n by (cases "n = 1") (auto simp: n_def intro!: mult_left_mono)
    then have "(n + 1) * usable < 2 * PlannedBytes t + 2 * (n * (usable - PlannedBytes t + 1))"
      using n by (simp add: algebra_simps)
    then show ?thesis using lower by (simp add: n_def algebra_simps)
  qed
qed simp

subsection \<open>The whole of Pack\<close>

lemma pack_items_ok:
  "mapE (pack_item usable p) staged = Inr items \<longleftrightarrow>
     items = map (planned_item p) staged \<and> (\<forall>a \<in> set staged. Footprint (planned_item p a) \<le> usable)"
  by (induction staged arbitrary: items) (auto simp: run_simps pack_item_def Let_def)

lemma pack_items_error:
  "(\<exists>e. mapE (pack_item usable p) staged = Inl e) \<longleftrightarrow>
     (\<exists>a \<in> set staged. usable < Footprint (planned_item p a))"
proof (cases "mapE (pack_item usable p) staged")
  case (Inl e)
  then have "\<not> (\<forall>a \<in> set staged. Footprint (planned_item p a) \<le> usable)"
    using pack_items_ok [of usable p staged "map (planned_item p) staged"] by auto
  with Inl show ?thesis by (auto simp: not_le)
next
  case (Inr items)
  then show ?thesis using pack_items_ok [of usable p staged items] by (auto simp: not_less)
qed

definition packed :: "int \<Rightarrow> PlannedArchive list \<Rightarrow> PlannedTape list" where
  "packed usable items = map sort_tape
     (foldl (\<lambda>tapes item. place_on usable item tapes) [] (sort_key (\<lambda>item. - Footprint item) items))"

lemma pack_Inr_iff:
  "pack cfg staged = Inr plan \<longleftrightarrow>
     (if staged = [] then plan = \<lparr> tp_Copies = cfg_Copies cfg, tp_Tapes = [] \<rparr>
      else 1 \<le> cfg_Copies cfg \<and> 0 < usableCapacity (lib_TapeCapacityBytes (cfg_Library cfg))
        \<and> (\<forall>a \<in> set staged. Footprint (planned_item (par2ReservePercent (cfg_Redundancy cfg)) a)
               \<le> usableCapacity (lib_TapeCapacityBytes (cfg_Library cfg)))
        \<and> plan = \<lparr> tp_Copies = cfg_Copies cfg,
             tp_Tapes = packed (usableCapacity (lib_TapeCapacityBytes (cfg_Library cfg)))
               (map (planned_item (par2ReservePercent (cfg_Redundancy cfg))) staged) \<rparr>)"
  by (auto simp: pack_def Let_def run_simps pack_items_ok packed_def)

lemma packed_mset: "tapes_mset (packed usable items) = mset items"
  unfolding packed_def tapes_mset_sort_tape by (simp add: foldl_place_mset) (simp add: tapes_mset_def)

lemma packed_tapes:
  assumes "\<forall>item \<in> set items. Footprint item \<le> usable"
  shows "\<forall>t \<in> set (packed usable items). tape_fits usable t \<and> sorted (map pa_SourceIndex (pt_Archives t))"
proof -
  have "\<forall>t \<in> set (foldl (\<lambda>tapes item. place_on usable item tapes) ts items'). tape_fits usable t"
    if "\<forall>item \<in> set items'. Footprint item \<le> usable" "\<forall>t \<in> set ts. tape_fits usable t" for ts items'
    using that
  proof (induction items' arbitrary: ts)
    case (Cons item items')
    have "\<forall>t \<in> set (place_on usable item ts). tape_fits usable t"
      using Cons.prems by (intro place_on_fits) auto
    then show ?case using Cons by simp
  qed simp
  from this [of "sort_key (\<lambda>item. - Footprint item) items" "[]"] show ?thesis
    using assms sort_tape_sorted by (auto simp: packed_def tape_fits_def)
qed

lemma packed_no_merge:
  assumes "\<forall>item \<in> set items. 0 \<le> Footprint item \<and> Footprint item \<le> usable"
  shows "no_merge usable (packed usable items)"
  using foldl_place_inv [of "sort_key (\<lambda>item. - Footprint item) items" usable "[]"] assms
  by (simp add: packed_def no_merge_sort_tape)

lemma clampPercent_bounds: "1 \<le> clampPercent p" "clampPercent p \<le> 100"
  by (simp_all add: clampPercent_def minPAR2Percent_def maxPAR2Percent_def)

lemma clampPercent_id: "1 \<le> p \<Longrightarrow> p \<le> 100 \<Longrightarrow> clampPercent p = p"
  by (simp add: clampPercent_def minPAR2Percent_def maxPAR2Percent_def)

lemma par2ReservePercent_bounds: "1 \<le> par2ReservePercent r" "par2ReservePercent r \<le> 100"
  by (auto simp: par2ReservePercent_def clampPercent_bounds minPAR2Percent_def split: option.splits)

lemma planned_item_nonneg:
  "0 \<le> sa_SizeBytes a \<Longrightarrow> 0 \<le> p \<Longrightarrow> 0 \<le> Footprint (planned_item p a)"
  using MaxOutputBytes_pos [of p "sa_SizeBytes a" "int (length (sa_Slices a))"]
  by (simp add: planned_item_def Footprint_def reservedBytes_def)

text \<open>
  The reserve is five per cent up to the rounding of \<open>float64\<close> and the ceiling: for capacities
  up to 2 PiB the usable capacity is within two bytes of nineteen twentieths.
\<close>

lemma usableCapacity_bounds:
  assumes "0 \<le> native" "native \<le> 2 ^ 51"
  shows "19 * native - 21 \<le> 20 * usableCapacity native" "20 * usableCapacity native \<le> 19 * native + 1"
proof -
  define n where "n = (of_int native :: rat)"
  have n: "0 \<le> n" "n \<le> 2 ^ 51" using assms
    by (simp_all add: n_def)
  define f where "f = ltfsOverheadFraction"
  have f: "1 / 20 - 1 / 20 / 2 ^ 53 \<le> f" "f \<le> 1 / 20 + 1 / 20 / 2 ^ 53"
    using rnd_bounds [of "5 / 100"] by (simp_all add: f_def ltfsOverheadFraction_def)
  have f0: "0 \<le> f" using f by simp
  have exact: "float64 native = n" using assms by (simp add: float64_def n_def rnd_int)
  define y where "y = n * f"
  have "n * (1 / 20 - 1 / 20 / 2 ^ 53) \<le> y" "y \<le> n * (1 / 20 + 1 / 20 / 2 ^ 53)"
    unfolding y_def by (rule mult_left_mono [OF f(1) n(1)], rule mult_left_mono [OF f(2) n(1)])
  then have y: "n / 20 - 1 / 80 \<le> y" "y \<le> n / 20 + 1 / 80" using n by (simp_all add: field_simps)
  have y0: "0 \<le> y" using n f0 by (simp add: y_def)
  have "rnd y \<le> y + y / 2 ^ 53" "y - y / 2 ^ 53 \<le> rnd y" using rnd_bounds [OF y0] by auto
  moreover have "y / 2 ^ 53 \<le> 1 / 80 + 1 / 80" using y n by simp
  ultimately have r: "n / 20 - 1 / 20 \<le> rnd y" "rnd y \<le> n / 20 + 1 / 20" using y by linarith+
  define c where "c = \<lceil>rnd y\<rceil>"
  have "rnd y \<le> of_int c" "of_int c < rnd y + 1" by (simp_all add: c_def) linarith
  then have "n / 20 - 1 / 20 \<le> of_int c" "of_int c < n / 20 + 21 / 20" using r by linarith+
  then have "n - 1 \<le> of_int (20 * c)" "of_int (20 * c) < n + 21" by simp_all
  then have "native - 1 \<le> 20 * c" "20 * c < native + 21" by (simp_all add: n_def)
  moreover have "usableCapacity native = native - c"
    by (simp add: usableCapacity_def Let_def math_Ceil_def fmul_def exact c_def y_def f_def)
  ultimately show "19 * native - 21 \<le> 20 * usableCapacity native"
    "20 * usableCapacity native \<le> 19 * native + 1" by simp_all
qed

lemma pack_mset:
  "pack cfg staged = Inr plan \<Longrightarrow>
     tapes_mset (tp_Tapes plan) = mset (map (planned_item (par2ReservePercent (cfg_Redundancy cfg))) staged)"
  by (cases "staged = []") (simp_all add: pack_Inr_iff packed_mset, simp add: tapes_mset_def)

lemma pack_tapes:
  assumes "pack cfg staged = Inr plan"
  shows "\<forall>t \<in> set (tp_Tapes plan).
    tape_fits (usableCapacity (lib_TapeCapacityBytes (cfg_Library cfg))) t
    \<and> sorted (map pa_SourceIndex (pt_Archives t))"
  using assms packed_tapes [of "map (planned_item (par2ReservePercent (cfg_Redundancy cfg))) staged"
      "usableCapacity (lib_TapeCapacityBytes (cfg_Library cfg))"]
  by (auto simp: pack_Inr_iff split: if_splits)

section \<open>Properties\<close>

text \<open>C1: Pack loses and duplicates nothing and overfills nothing. Whenever it returns a plan,
  the archives over all tapes are, as a multiset, exactly the staged archives with their measured
  size and reserved PAR2 bound; no tape is empty, every tape's data plus reserve is within the
  capacity left by the LTFS overhead, and its archives are in source order.\<close>

theorem pack_sound:
  assumes "pack cfg staged = Inr plan"
  shows "tp_Copies plan = cfg_Copies cfg
    \<and> tapes_mset (tp_Tapes plan)
        = mset (map (planned_item (par2ReservePercent (cfg_Redundancy cfg))) staged)
    \<and> (\<forall>t \<in> set (tp_Tapes plan). pt_Archives t \<noteq> []
        \<and> pt_UsableBytes t = usableCapacity (lib_TapeCapacityBytes (cfg_Library cfg))
        \<and> PlannedBytes t \<le> pt_UsableBytes t \<and> sorted (map pa_SourceIndex (pt_Archives t)))"
  using assms pack_mset [OF assms] pack_tapes [OF assms]
  by (auto simp: tape_fits_def pack_Inr_iff split: if_splits)

text \<open>Pack fails exactly when it must: with nothing staged it always succeeds, and otherwise
  it succeeds if and only if there is a copy to write, some capacity remains after the LTFS
  reserve, and no single archive with its reserve is larger than a tape.\<close>

theorem pack_succeeds_iff:
  "(\<exists>plan. pack cfg staged = Inr plan) \<longleftrightarrow> staged = []
     \<or> 1 \<le> cfg_Copies cfg \<and> 0 < usableCapacity (lib_TapeCapacityBytes (cfg_Library cfg))
       \<and> (\<forall>a \<in> set staged. sa_SizeBytes a
            + MaxOutputBytes (sa_SizeBytes a) (int (length (sa_Slices a)))
                (par2ReservePercent (cfg_Redundancy cfg))
            \<le> usableCapacity (lib_TapeCapacityBytes (cfg_Library cfg)))"
  by (cases "staged = []")
    (simp_all add: pack_Inr_iff planned_item_def Footprint_def reservedBytes_def)

text \<open>Pack is never badly wasteful: no two tapes of a plan could have been merged, so a plan
  of at least two tapes fills more than half of them, with five per cent of the native capacity
  set aside up to rounding.\<close>

theorem pack_tape_count:
  assumes "pack cfg staged = Inr plan" and "\<forall>a \<in> set staged. 0 \<le> sa_SizeBytes a"
    and "capacity = lib_TapeCapacityBytes (cfg_Library cfg)"
    and "usable = usableCapacity capacity" and "0 \<le> capacity" "capacity \<le> 2 ^ 51"
  shows "no_merge usable (tp_Tapes plan)
    \<and> (2 \<le> length (tp_Tapes plan) \<longrightarrow> int (length (tp_Tapes plan)) * usable
         < 2 * (\<Sum>a \<leftarrow> staged. sa_SizeBytes a + MaxOutputBytes (sa_SizeBytes a)
                  (int (length (sa_Slices a))) (par2ReservePercent (cfg_Redundancy cfg))))
    \<and> 19 * capacity - 21 \<le> 20 * usable \<and> 20 * usable \<le> 19 * capacity + 1"
proof -
  let ?p = "par2ReservePercent (cfg_Redundancy cfg)"
  have nm: "no_merge usable (tp_Tapes plan)"
  proof (cases "staged = []")
    case False
    then have "\<forall>item \<in> set (map (planned_item ?p) staged). 0 \<le> Footprint item \<and> Footprint item \<le> usable"
      using assms par2ReservePercent_bounds(1) [of "cfg_Redundancy cfg"]
      by (auto simp: pack_Inr_iff intro!: planned_item_nonneg)
    then have "no_merge usable (packed usable (map (planned_item ?p) staged))"
      by (rule packed_no_merge)
    then show ?thesis using False assms by (simp add: pack_Inr_iff)
  qed (use assms in \<open>simp add: pack_Inr_iff\<close>)
  have "sum_list (map PlannedBytes (tp_Tapes plan)) = (\<Sum>a \<leftarrow> staged. Footprint (planned_item ?p a))"
    unfolding sum_PlannedBytes_mset pack_mset [OF assms(1)]
    by (simp add: sum_mset_sum_list [symmetric] image_mset.compositionality o_def)
  moreover have "Footprint (planned_item ?p a)
      = sa_SizeBytes a + MaxOutputBytes (sa_SizeBytes a) (int (length (sa_Slices a))) ?p" for a
    by (simp add: planned_item_def Footprint_def reservedBytes_def)
  ultimately show ?thesis
    using nm no_merge_total [OF nm] usableCapacity_bounds [OF assms(5,6)] assms(4) by auto
qed

section \<open>Pack on a concrete configuration\<close>

definition example_staged :: "StagedArchive list" where
  "example_staged = map (\<lambda>(i, size). \<lparr> sa_SourceIndex = i,
       sa_Slices = [\<lparr> sl_Path = ''a'', sl_SHA256 = ''00'', sl_SizeBytes = size \<rparr>],
       sa_SizeBytes = size \<rparr>)
     [(0, 6000000000000), (1, 9000000000000), (2, 5000000000000)]"

definition example_packed :: TapePlan where
  "example_packed = (case pack (example_config []) example_staged of
     Inr plan \<Rightarrow> plan | Inl e \<Rightarrow> \<lparr> tp_Copies = 0, tp_Tapes = [] \<rparr>)"

lemma example_pack_shape:
  "map (map pa_SourceIndex \<circ> pt_Archives) (tp_Tapes example_packed) = [[0, 1], [2]]"
  by code_simp

lemma example_pack: "pack (example_config []) example_staged = Inr example_packed"
proof (cases "pack (example_config []) example_staged")
  case (Inl e)
  then have "tp_Tapes example_packed = []" by (simp add: example_packed_def)
  then show ?thesis using example_pack_shape by simp
qed (simp add: example_packed_def)

lemma pack_sound_witness:
  "tp_Copies example_packed = 2 \<and> size (tapes_mset (tp_Tapes example_packed)) = 3"
  using pack_sound [OF example_pack] by (simp add: example_config_def example_staged_def)

lemma pack_succeeds_iff_witness:
  "\<not> (\<exists>plan. pack (example_config []) [\<lparr> sa_SourceIndex = 0, sa_Slices = [], sa_SizeBytes = 19000000000000 \<rparr>]
     = Inr plan)"
proof -
  have "usableCapacity 18000000000000 < 19000000000000" by code_simp
  moreover have "0 \<le> MaxOutputBytes 19000000000000 0 (par2ReservePercent (cfg_Redundancy (example_config [])))"
    by code_simp
  moreover have "lib_TapeCapacityBytes (cfg_Library (example_config [])) = 18000000000000" by code_simp
  ultimately show ?thesis by (subst pack_succeeds_iff) simp
qed

lemma pack_tape_count_witness:
  "19 * 18000000000000 - 21 \<le> 20 * usableCapacity 18000000000000
     \<and> length (tp_Tapes example_packed) = 2"
proof -
  have "length (map (map pa_SourceIndex \<circ> pt_Archives) (tp_Tapes example_packed)) = 2"
    by (simp only: example_pack_shape) simp
  then show ?thesis
    using pack_tape_count [OF example_pack, of 18000000000000 "usableCapacity 18000000000000"]
    by (simp add: example_config_def example_staged_def)
qed

end
