(* ===== verification/Fill.thy ===== *)
theory Fill
  imports Pack
begin

text \<open>
  The redundancy of every archive (\<open>workflows/backup/par2.go\<close>): a fixed percentage, or in
  fill mode the largest percentage whose modelled PAR2 output fits the slack of the tape. The
  scan upwards that stops at the first overflow is a locale over any bound that is monotone in
  the percentage; \<open>tapePAR2Bound\<close> is its interpretation.
\<close>

section \<open>The scan\<close>

fun scan_up :: "(int \<Rightarrow> int) \<Rightarrow> int \<Rightarrow> int \<Rightarrow> int list \<Rightarrow> int" where
  "scan_up bound slack best [] = best"
| "scan_up bound slack best (percent # percents) =
     (if bound percent > slack then best else scan_up bound slack percent percents)"

locale percent_bound =
  fixes ok :: "'t \<Rightarrow> bool" and bound :: "'t \<Rightarrow> int \<Rightarrow> int"
  assumes bound_mono: "ok t \<Longrightarrow> 1 \<le> p \<Longrightarrow> p \<le> q \<Longrightarrow> q \<le> 100 \<Longrightarrow> bound t p \<le> bound t q"
begin

lemma scan_largest:
  assumes "ok t" "0 \<le> p" "p \<le> q" "q \<le> 100" "bound t p \<le> slack"
  shows "p \<le> scan_up (bound t) slack p [p + 1..q] \<and> scan_up (bound t) slack p [p + 1..q] \<le> q
    \<and> bound t (scan_up (bound t) slack p [p + 1..q]) \<le> slack
    \<and> (\<forall>x. scan_up (bound t) slack p [p + 1..q] < x \<and> x \<le> q \<longrightarrow> slack < bound t x)"
  using assms(2-5)
proof (induction "nat (q - p)" arbitrary: p)
  case 0
  then show ?case by simp
next
  case (Suc n)
  then have u: "[p + 1..q] = (p + 1) # [p + 1 + 1..q]" by (intro upto_rec1) simp
  show ?case
  proof (cases "bound t (p + 1) > slack")
    case True
    have "slack < bound t x" if "p < x" "x \<le> q" for x
      using bound_mono [OF assms(1), of "p + 1" x] that True Suc.prems by auto
    then show ?thesis using True Suc.prems by (simp add: u)
  next
    case False
    have "p + 1 \<le> scan_up (bound t) slack (p + 1) [p + 1 + 1..q]
        \<and> scan_up (bound t) slack (p + 1) [p + 1 + 1..q] \<le> q
        \<and> bound t (scan_up (bound t) slack (p + 1) [p + 1 + 1..q]) \<le> slack
        \<and> (\<forall>x. scan_up (bound t) slack (p + 1) [p + 1 + 1..q] < x \<and> x \<le> q \<longrightarrow> slack < bound t x)"
      using Suc.hyps(2) Suc.prems False by (intro Suc.hyps(1)) auto
    then show ?thesis using False by (simp add: u)
  qed
qed

text \<open>
  The code starts the scan at the floor itself, with the floor as its best so far: the result is
  the largest percentage that fits when the floor does, and the floor when it does not.
\<close>

lemma scan_from_floor:
  assumes "ok t" "1 \<le> floor_p" "floor_p \<le> 100"
    and "r = scan_up (bound t) slack floor_p [floor_p..100]"
  shows "floor_p \<le> r \<and> r \<le> 100 \<and> (bound t floor_p \<le> slack \<longrightarrow> bound t r \<le> slack)
    \<and> (\<forall>x. r < x \<and> x \<le> 100 \<longrightarrow> slack < bound t x)"
proof -
  have u: "[floor_p..100] = floor_p # [floor_p + 1..100]" using assms by (intro upto_rec1) simp
  show ?thesis
  proof (cases "bound t floor_p \<le> slack")
    case True
    then show ?thesis using scan_largest [OF assms(1), of floor_p 100 slack] assms(2,3)
      by (simp add: assms(4) u)
  next
    case False
    have "slack < bound t x" if "floor_p < x" "x \<le> 100" for x
      using bound_mono [OF assms(1), of floor_p x] that False assms(2) by auto
    then show ?thesis using False assms(3) by (simp add: assms(4) u)
  qed
qed

end

section \<open>Percentages\<close>

fun par2_bound_loop :: "int \<Rightarrow> int \<Rightarrow> PlannedArchive list \<Rightarrow> int" where
  "par2_bound_loop percent tot [] = tot"
| "par2_bound_loop percent tot (archive # archives) =
     par2_bound_loop percent
       (tot + MaxOutputBytes (pa_DataBytes archive) (pa_SliceCount archive) percent) archives"

definition tapePAR2Bound :: "PlannedTape \<Rightarrow> int \<Rightarrow> int" where
  "tapePAR2Bound tape percent = par2_bound_loop percent 0 (pt_Archives tape)"

definition fillPercent :: "PlannedTape \<Rightarrow> int \<Rightarrow> int" where
  "fillPercent tape floor0 =
     (let floor_p = clampPercent floor0; data = DataBytes tape in
      if data \<le> 0 then floor_p
      else
        let slack0 = pt_UsableBytes tape - data; slack = (if slack0 < 0 then 0 else slack0)
        in scan_up (tapePAR2Bound tape) slack floor_p [floor_p..maxPAR2Percent])"

definition assign_percent :: "int \<Rightarrow> PlannedTape \<Rightarrow> (nat \<rightharpoonup> int) \<Rightarrow> (nat \<rightharpoonup> int)" where
  "assign_percent percent tape m =
     foldl (\<lambda>m archive. m(pa_SourceIndex archive \<mapsto> percent)) m (pt_Archives tape)"

definition par2Percentages :: "Redundancy \<Rightarrow> TapePlan \<Rightarrow> redundancy_error + (nat \<rightharpoonup> int)" where
  "par2Percentages redundancy plan =
     (case red_TargetPercentage redundancy of
        Some target \<Rightarrow>
          let percent = clampPercent (math_Round target)
          in Inr (foldl (\<lambda>m tape. assign_percent percent tape m) Map.empty (tp_Tapes plan))
      | None \<Rightarrow> (case red_FillToCapacity redundancy of
          Some fill \<Rightarrow>
            let floor_p = clampPercent (math_Ceil (fill_Floor fill))
            in Inr (foldl (\<lambda>m tape. assign_percent (fillPercent tape floor_p) tape m)
                      Map.empty (tp_Tapes plan))
        | None \<Rightarrow> Inl NoRedundancyMode))"

subsection \<open>The bound of a tape is monotone\<close>

text \<open>Archives of at most 32 TiB in at most 32,767 slices, so no arithmetic of the bound wraps.\<close>

definition tape_sizes_ok :: "PlannedTape \<Rightarrow> bool" where
  "tape_sizes_ok tape \<longleftrightarrow> (\<forall>a \<in> set (pt_Archives tape).
     0 \<le> pa_DataBytes a \<and> pa_DataBytes a \<le> 2 ^ 45 \<and> 0 \<le> pa_SliceCount a
     \<and> pa_SliceCount a < maxSourceBlocks)"

lemma tapePAR2Bound_sum:
  "tapePAR2Bound tape p =
     (\<Sum>a \<leftarrow> pt_Archives tape. MaxOutputBytes (pa_DataBytes a) (pa_SliceCount a) p)"
proof -
  have "par2_bound_loop p tot as
      = tot + (\<Sum>a \<leftarrow> as. MaxOutputBytes (pa_DataBytes a) (pa_SliceCount a) p)" for tot as
    by (induction as arbitrary: tot) simp_all
  then show ?thesis by (simp add: tapePAR2Bound_def)
qed

lemma mo_recovery_small:
  assumes "0 \<le> d" "d \<le> 2 ^ 45" "0 \<le> n" "n < maxSourceBlocks" "0 \<le> q" "q \<le> 100"
  shows "mo_recovery d n q < 2 ^ 64"
proof -
  have "mo_source d n * q \<le> mo_source d n * 100"
    using assms mo_source_ge1 [of d n] by (intro mult_left_mono) auto
  moreover have "mo_source d n \<le> d + mo_files n" using assms(1,3) by (rule mo_source_upper)
  moreover have "mo_files n \<le> 32767" using assms by (auto simp: mo_files_def maxSourceBlocks_def)
  moreover have "d + 32767 \<le> 2 ^ 46" using assms(2) by simp
  ultimately have "mo_source d n * q \<le> 2 ^ 46 * 100" by simp
  then have "ceilDiv (mo_source d n * q) 100 \<le> 2 ^ 46"
    using assms mo_source_ge1 [of d n] by (subst ceilDiv_le_iff) auto
  then show ?thesis by (simp add: mo_recovery_def)
qed

interpretation fill: percent_bound tape_sizes_ok tapePAR2Bound
proof
  fix tape p q
  assume ok: "tape_sizes_ok tape" and p: "(1::int) \<le> p" "p \<le> q" "q \<le> 100"
  have "MaxOutputBytes (pa_DataBytes a) (pa_SliceCount a) p
      \<le> MaxOutputBytes (pa_DataBytes a) (pa_SliceCount a) q" if "a \<in> set (pt_Archives tape)" for a
    using ok that p by (intro MaxOutputBytes_mono mo_recovery_small) (auto simp: tape_sizes_ok_def)
  then show "tapePAR2Bound tape p \<le> tapePAR2Bound tape q"
    unfolding tapePAR2Bound_sum by (rule sum_list_mono)
qed

section \<open>The percentage of an archive\<close>

lemma foldl_map_upd_other:
  "i \<notin> f ` set xs \<Longrightarrow> foldl (\<lambda>m x. m(f x \<mapsto> p)) m xs i = m i"
  by (induction xs arbitrary: m) auto

lemma foldl_map_upd_in:
  "i \<in> f ` set xs \<or> m i = Some p \<Longrightarrow> foldl (\<lambda>m x. m(f x \<mapsto> p)) m xs i = Some p"
  by (induction xs arbitrary: m) auto

lemma assign_percent_other:
  "i \<notin> pa_SourceIndex ` set (pt_Archives tape) \<Longrightarrow> assign_percent p tape m i = m i"
  unfolding assign_percent_def by (rule foldl_map_upd_other)

lemma assign_percent_in:
  "i \<in> pa_SourceIndex ` set (pt_Archives tape) \<Longrightarrow> assign_percent p tape m i = Some p"
  unfolding assign_percent_def by (rule foldl_map_upd_in) simp

text \<open>When every archive is on one tape, its percentage is the one computed for that tape.\<close>

definition disjoint_tapes :: "PlannedTape list \<Rightarrow> bool" where
  "disjoint_tapes tapes \<longleftrightarrow> distinct (concat (map (\<lambda>t. map pa_SourceIndex (pt_Archives t)) tapes))"

lemma assigned_other:
  "\<forall>t \<in> set tapes. i \<notin> pa_SourceIndex ` set (pt_Archives t) \<Longrightarrow>
     foldl (\<lambda>m tape. assign_percent (f tape) tape m) m tapes i = m i"
  by (induction tapes arbitrary: m) (auto simp: assign_percent_other)

lemma assigned_percent:
  assumes "disjoint_tapes tapes" "t \<in> set tapes" "a \<in> set (pt_Archives t)"
  shows "foldl (\<lambda>m tape. assign_percent (f tape) tape m) m tapes (pa_SourceIndex a) = Some (f t)"
  using assms
proof (induction tapes arbitrary: m)
  case (Cons u us)
  show ?case
  proof (cases "t \<in> set us")
    case True
    then show ?thesis using Cons by (simp add: disjoint_tapes_def)
  next
    case False
    with Cons.prems have t: "t = u" by simp
    have "\<forall>v \<in> set us. pa_SourceIndex a \<notin> pa_SourceIndex ` set (pt_Archives v)"
      using Cons.prems t by (fastforce simp: disjoint_tapes_def)
    then show ?thesis using Cons.prems t by (simp add: assigned_other assign_percent_in)
  qed
qed simp

text \<open>A tape Pack planned, at the percentage it reserved with, stays within its capacity.\<close>

lemma fillPercent_fits:
  assumes "tape_sizes_ok tape"
    and "tapePAR2Bound tape (clampPercent floor_p) + DataBytes tape \<le> pt_UsableBytes tape"
  shows "clampPercent floor_p \<le> fillPercent tape floor_p \<and> fillPercent tape floor_p \<le> 100
    \<and> tapePAR2Bound tape (fillPercent tape floor_p) + DataBytes tape \<le> pt_UsableBytes tape
    \<and> (0 < DataBytes tape \<longrightarrow> (\<forall>p. fillPercent tape floor_p < p \<and> p \<le> 100
         \<longrightarrow> pt_UsableBytes tape < tapePAR2Bound tape p + DataBytes tape))"
proof (cases "0 < DataBytes tape")
  case True
  let ?f = "clampPercent floor_p" and ?slack = "pt_UsableBytes tape - DataBytes tape"
  have "0 \<le> tapePAR2Bound tape ?f"
    using clampPercent_bounds(1) [of floor_p] unfolding tapePAR2Bound_sum
    by (intro sum_list_nonneg) (auto intro!: less_imp_le MaxOutputBytes_pos)
  then have r: "fillPercent tape floor_p = scan_up (tapePAR2Bound tape) ?slack ?f [?f..100]"
    using assms True by (simp add: fillPercent_def Let_def maxPAR2Percent_def)
  show ?thesis
    using fill.scan_from_floor [OF assms(1) clampPercent_bounds r] assms(2) by (auto simp: algebra_simps)
next
  case False
  then show ?thesis using assms clampPercent_bounds by (simp add: fillPercent_def Let_def)
qed

section \<open>Properties\<close>

text \<open>C3: Fill mode spends the slack and never more. For a tape whose archives are of sizes a tape
  can hold and whose floor fits (Pack reserved it), the chosen percentage is between the floor and
  100, its modelled PAR2 output together with the data fits the usable capacity, and every larger
  percentage would not.\<close>

theorem fill_percent_largest:
  assumes "tape_sizes_ok tape" and "0 < DataBytes tape"
    and "tapePAR2Bound tape (clampPercent floor_p) + DataBytes tape \<le> pt_UsableBytes tape"
  shows "clampPercent floor_p \<le> fillPercent tape floor_p \<and> fillPercent tape floor_p \<le> 100
    \<and> tapePAR2Bound tape (fillPercent tape floor_p) + DataBytes tape \<le> pt_UsableBytes tape
    \<and> (\<forall>p. fillPercent tape floor_p < p \<and> p \<le> 100
         \<longrightarrow> pt_UsableBytes tape < tapePAR2Bound tape p + DataBytes tape)"
  using fillPercent_fits [OF assms(1,3)] assms(2) by simp

definition example_tape :: PlannedTape where
  "example_tape = \<lparr> pt_Archives = [\<lparr> pa_SourceIndex = 4, pa_DataBytes = 2000000000000,
     pa_SliceCount = 20, pa_PAR2ReservedBytes = 0 \<rparr>], pt_UsableBytes = 3985000000000 \<rparr>"

lemma fill_percent_largest_witness:
  "98 \<le> fillPercent example_tape 98 \<and> fillPercent example_tape 98 = 98
    \<and> tapePAR2Bound example_tape (fillPercent example_tape 98) + DataBytes example_tape
        \<le> pt_UsableBytes example_tape"
proof -
  have "tape_sizes_ok example_tape" by code_simp
  moreover have "0 < DataBytes example_tape" by code_simp
  moreover have "tapePAR2Bound example_tape (clampPercent 98) + DataBytes example_tape
      \<le> pt_UsableBytes example_tape" by code_simp
  moreover have "fillPercent example_tape 98 = 98" by code_simp
  ultimately show ?thesis using fill_percent_largest [of example_tape 98] by (simp add: clampPercent_id)
qed

end
