(* ===== verification/Verify.thy ===== *)
theory Verify
  imports Fill
begin

text \<open>
  The Verify gate (\<open>workflows/backup/verify.go\<close>, \<open>pkg/checksum/checksum.go\<close>): every staged
  slice and PAR2 file of every planned tape is re-read and re-hashed, and the tape's tree must fit
  its usable capacity. The staging filesystem and SHA-256 are parameters: \<open>fs\<close> maps a path to
  what reading it gives, \<open>sha256hex\<close> is the lowercase hex digest of the standard library.
\<close>

datatype file_read = OpenFails | ReadFails | CloseFails "8 word list" | Contents "8 word list"

datatype checksum_error = Opening string | Reading string | Closing string
  | Mismatch string string string

definition SHA256File ::
  "(string \<Rightarrow> file_read) \<Rightarrow> (8 word list \<Rightarrow> string) \<Rightarrow> string \<Rightarrow> checksum_error + string" where
  "SHA256File fs sha256hex path =
     (case fs path of
        OpenFails \<Rightarrow> Inl (Opening path)
      | ReadFails \<Rightarrow> Inl (Reading path)
      | CloseFails content \<Rightarrow> Inl (Closing path)
      | Contents content \<Rightarrow> Inr (sha256hex content))"

definition checksum_Verify ::
  "(string \<Rightarrow> file_read) \<Rightarrow> (8 word list \<Rightarrow> string) \<Rightarrow> string \<Rightarrow> string \<Rightarrow> checksum_error + unit" where
  "checksum_Verify fs sha256hex path expected =
     bindE (SHA256File fs sha256hex path) (\<lambda>actual.
       if actual \<noteq> expected then Inl (Mismatch path expected actual) else Inr ())"

text \<open>Errors carry the context the code wraps them in: the tape, the source, slices or PAR2 set.\<close>

datatype file_error = ContextDone | Checksum checksum_error

datatype tape_error =
    NotStaged nat
  | NoRecoverySet nat
  | SlicesError nat file_error
  | SetError nat file_error
  | TreeTooLarge int int

datatype verify_error = OnTape nat tape_error

text \<open>\<open>ctx_done\<close> is whether the activity context is cancelled when a file is reached.\<close>

fun verifyFiles_loop ::
  "(string \<Rightarrow> bool) \<Rightarrow> (string \<Rightarrow> string \<Rightarrow> checksum_error + unit) \<Rightarrow> int \<Rightarrow> StagedSlice list \<Rightarrow> file_error + int" where
  "verifyFiles_loop ctx_done check tot [] = Inr tot"
| "verifyFiles_loop ctx_done check tot (file # files) =
     (if ctx_done (sl_Path file) then Inl ContextDone
      else (case check (sl_Path file) (sl_SHA256 file) of
              Inl e \<Rightarrow> Inl (Checksum e)
            | Inr _ \<Rightarrow> verifyFiles_loop ctx_done check (tot + sl_SizeBytes file) files))"

definition verifyFiles ::
  "(string \<Rightarrow> bool) \<Rightarrow> (string \<Rightarrow> string \<Rightarrow> checksum_error + unit) \<Rightarrow> StagedSlice list \<Rightarrow> file_error + int" where
  "verifyFiles ctx_done check files = verifyFiles_loop ctx_done check 0 files"

fun verifyTape_loop ::
  "(StagedSlice list \<Rightarrow> file_error + int) \<Rightarrow> (nat \<rightharpoonup> StagedArchive) \<Rightarrow> (nat \<rightharpoonup> PAR2Set)
     \<Rightarrow> int \<Rightarrow> PlannedArchive list \<Rightarrow> tape_error + int" where
  "verifyTape_loop verify_files slicesByIndex par2ByIndex onDiskBytes [] = Inr onDiskBytes"
| "verifyTape_loop verify_files slicesByIndex par2ByIndex onDiskBytes (placement # placements) =
     (case slicesByIndex (pa_SourceIndex placement) of
        None \<Rightarrow> Inl (NotStaged (pa_SourceIndex placement))
      | Some archive \<Rightarrow> (case par2ByIndex (pa_SourceIndex placement) of
          None \<Rightarrow> Inl (NoRecoverySet (pa_SourceIndex placement))
        | Some recovery \<Rightarrow> (case verify_files (sa_Slices archive) of
            Inl e \<Rightarrow> Inl (SlicesError (pa_SourceIndex placement) e)
          | Inr sliceBytes \<Rightarrow> (case verify_files (ps_Files recovery) of
              Inl e \<Rightarrow> Inl (SetError (pa_SourceIndex placement) e)
            | Inr par2Bytes \<Rightarrow>
                verifyTape_loop verify_files slicesByIndex par2ByIndex
                  (onDiskBytes + (sliceBytes + par2Bytes)) placements))))"

definition verifyTape ::
  "(StagedSlice list \<Rightarrow> file_error + int) \<Rightarrow> (nat \<rightharpoonup> StagedArchive) \<Rightarrow> (nat \<rightharpoonup> PAR2Set)
     \<Rightarrow> PlannedTape \<Rightarrow> tape_error + int" where
  "verifyTape verify_files slicesByIndex par2ByIndex tape =
     bindE (verifyTape_loop verify_files slicesByIndex par2ByIndex 0 (pt_Archives tape)) (\<lambda>onDiskBytes.
       if onDiskBytes > pt_UsableBytes tape
       then Inl (TreeTooLarge onDiskBytes (pt_UsableBytes tape)) else Inr onDiskBytes)"

fun verify_tapes ::
  "(PlannedTape \<Rightarrow> tape_error + int) \<Rightarrow> nat \<Rightarrow> int \<Rightarrow> PlannedTape list \<Rightarrow> verify_error + int" where
  "verify_tapes verify_tape tapeIndex totalBytes [] = Inr totalBytes"
| "verify_tapes verify_tape tapeIndex totalBytes (tape # tapes) =
     (case verify_tape tape of
        Inl e \<Rightarrow> Inl (OnTape tapeIndex e)
      | Inr onDiskBytes \<Rightarrow> verify_tapes verify_tape (Suc tapeIndex) (totalBytes + onDiskBytes) tapes)"

definition slices_index :: "StagedArchive list \<Rightarrow> nat \<rightharpoonup> StagedArchive" where
  "slices_index staged = foldl (\<lambda>m archive. m(sa_SourceIndex archive \<mapsto> archive)) Map.empty staged"

definition par2_index :: "PAR2Set list \<Rightarrow> nat \<rightharpoonup> PAR2Set" where
  "par2_index recovery_sets = foldl (\<lambda>m s. m(ps_SourceIndex s \<mapsto> s)) Map.empty recovery_sets"

text \<open>\<open>verify\<close>; the value of \<open>VerifiedPlan\<close> is the empty struct, \<open>unit\<close>.\<close>

definition verify_plan ::
  "(string \<Rightarrow> bool) \<Rightarrow> (string \<Rightarrow> string \<Rightarrow> checksum_error + unit) \<Rightarrow> TapePlan \<Rightarrow> StagedArchive list
     \<Rightarrow> PAR2Set list \<Rightarrow> verify_error + unit" where
  "verify_plan ctx_done check plan staged recovery_sets =
     bindE (verify_tapes
              (verifyTape (verifyFiles ctx_done check) (slices_index staged) (par2_index recovery_sets))
              0 0 (tp_Tapes plan)) (\<lambda>totalBytes. Inr ())"

text \<open>\<open>classifyVerifyError\<close>: only cancellation stays retryable.\<close>

fun retryable_verify_error :: "verify_error \<Rightarrow> bool" where
  "retryable_verify_error (OnTape i (SlicesError j ContextDone)) = True"
| "retryable_verify_error (OnTape i (SetError j ContextDone)) = True"
| "retryable_verify_error e = False"

section \<open>What the loops decide\<close>

lemma checksum_Verify_ok:
  "checksum_Verify fs sha256hex path expected = Inr () \<longleftrightarrow>
     (\<exists>content. fs path = Contents content \<and> sha256hex content = expected)"
  by (auto simp: checksum_Verify_def SHA256File_def run_simps split: file_read.splits)

definition file_ok :: "(string \<Rightarrow> bool) \<Rightarrow> (string \<Rightarrow> string \<Rightarrow> checksum_error + unit) \<Rightarrow> StagedSlice \<Rightarrow> bool" where
  "file_ok ctx_done check f \<longleftrightarrow> \<not> ctx_done (sl_Path f) \<and> check (sl_Path f) (sl_SHA256 f) = Inr ()"

definition files_bytes :: "StagedSlice list \<Rightarrow> int" where
  "files_bytes files = sum_list (map sl_SizeBytes files)"

lemma verifyFiles_ok:
  "verifyFiles ctx_done check files = Inr n \<longleftrightarrow>
     (\<forall>f \<in> set files. file_ok ctx_done check f) \<and> n = files_bytes files"
proof -
  have "verifyFiles_loop ctx_done check tot files = Inr n \<longleftrightarrow>
     (\<forall>f \<in> set files. file_ok ctx_done check f) \<and> n = tot + files_bytes files" for tot
    by (induction files arbitrary: tot)
      (auto simp: file_ok_def files_bytes_def split: sum.splits)
  then show ?thesis by (simp add: verifyFiles_def)
qed

lemma foldl_index_in:
  assumes "distinct (map f xs)" and "x \<in> set xs"
  shows "foldl (\<lambda>m x. m(f x \<mapsto> x)) m xs (f x) = Some x"
proof -
  have other: "i \<notin> f ` set xs \<Longrightarrow> foldl (\<lambda>m x. m(f x \<mapsto> x)) m xs i = m i" for i m xs
    by (induction xs arbitrary: m) auto
  show ?thesis using assms by (induction xs arbitrary: m) (auto simp: other)
qed

lemma slices_index_in:
  "distinct (map sa_SourceIndex staged) \<Longrightarrow> a \<in> set staged \<Longrightarrow>
     slices_index staged (sa_SourceIndex a) = Some a"
  unfolding slices_index_def by (rule foldl_index_in)

lemma par2_index_in:
  "distinct (map ps_SourceIndex sets) \<Longrightarrow> s \<in> set sets \<Longrightarrow>
     par2_index sets (ps_SourceIndex s) = Some s"
  unfolding par2_index_def by (rule foldl_index_in)

text \<open>The bytes of one placement: its slices and its recovery set, both present and hashing right.\<close>

definition placement_ok ::
  "(StagedSlice \<Rightarrow> bool) \<Rightarrow> (nat \<rightharpoonup> StagedArchive) \<Rightarrow> (nat \<rightharpoonup> PAR2Set) \<Rightarrow> PlannedArchive \<Rightarrow> bool" where
  "placement_ok ok slices recovery p \<longleftrightarrow>
     (case (slices (pa_SourceIndex p), recovery (pa_SourceIndex p)) of
        (Some a, Some s) \<Rightarrow> (\<forall>f \<in> set (sa_Slices a). ok f) \<and> (\<forall>f \<in> set (ps_Files s). ok f)
      | _ \<Rightarrow> False)"

definition placement_bytes ::
  "(nat \<rightharpoonup> StagedArchive) \<Rightarrow> (nat \<rightharpoonup> PAR2Set) \<Rightarrow> PlannedArchive \<Rightarrow> int" where
  "placement_bytes slices recovery p =
     (case (slices (pa_SourceIndex p), recovery (pa_SourceIndex p)) of
        (Some a, Some s) \<Rightarrow> files_bytes (sa_Slices a) + files_bytes (ps_Files s)
      | _ \<Rightarrow> 0)"

lemma verifyTape_loop_ok:
  "verifyTape_loop (verifyFiles ctx_done check) slices recovery tot ps = Inr n \<longleftrightarrow>
     (\<forall>p \<in> set ps. placement_ok (file_ok ctx_done check) slices recovery p)
     \<and> n = tot + sum_list (map (placement_bytes slices recovery) ps)"
proof (induction ps arbitrary: tot)
  case Nil
  then show ?case by auto
next
  case (Cons p ps)
  show ?case
  proof (cases "slices (pa_SourceIndex p)")
    case None
    then show ?thesis by (simp add: placement_ok_def)
  next
    case (Some a)
    show ?thesis
    proof (cases "recovery (pa_SourceIndex p)")
      case None
      then show ?thesis using Some by (simp add: placement_ok_def)
    next
      case set: (Some s)
      show ?thesis
      proof (cases "\<exists>x y. verifyFiles ctx_done check (sa_Slices a) = Inr x
          \<and> verifyFiles ctx_done check (ps_Files s) = Inr y")
        case True
        then have "verifyFiles ctx_done check (sa_Slices a) = Inr (files_bytes (sa_Slices a))"
            "verifyFiles ctx_done check (ps_Files s) = Inr (files_bytes (ps_Files s))"
          by (auto simp: verifyFiles_ok)
        moreover have "placement_ok (file_ok ctx_done check) slices recovery p"
            "placement_bytes slices recovery p = files_bytes (sa_Slices a) + files_bytes (ps_Files s)"
          using True Some set by (auto simp: placement_ok_def placement_bytes_def verifyFiles_ok)
        ultimately show ?thesis using Some set by (simp add: Cons.IH ac_simps)
      next
        case False
        then have "\<not> placement_ok (file_ok ctx_done check) slices recovery p"
          using Some set by (auto simp: placement_ok_def verifyFiles_ok)
        then show ?thesis using False Some set by (auto split: sum.splits)
      qed
    qed
  qed
qed

lemma verifyTape_ok:
  "verifyTape (verifyFiles ctx_done check) slices recovery tape = Inr n \<longleftrightarrow>
     (\<forall>p \<in> set (pt_Archives tape). placement_ok (file_ok ctx_done check) slices recovery p)
     \<and> n = sum_list (map (placement_bytes slices recovery) (pt_Archives tape))
     \<and> n \<le> pt_UsableBytes tape"
  by (auto simp: verifyTape_def run_simps verifyTape_loop_ok)

lemma verify_tapes_ok:
  "(\<exists>n. verify_tapes f i tot tapes = Inr n) \<longleftrightarrow> (\<forall>t \<in> set tapes. \<exists>n. f t = Inr n)"
  by (induction tapes arbitrary: i tot) (auto split: sum.splits)

lemma verify_plan_ok:
  "verify_plan ctx_done check plan staged sets = Inr () \<longleftrightarrow>
     (\<forall>t \<in> set (tp_Tapes plan).
        (\<forall>p \<in> set (pt_Archives t).
           placement_ok (file_ok ctx_done check) (slices_index staged) (par2_index sets) p)
        \<and> sum_list (map (placement_bytes (slices_index staged) (par2_index sets)) (pt_Archives t))
            \<le> pt_UsableBytes t)"
proof -
  have "verify_plan ctx_done check plan staged sets = Inr () \<longleftrightarrow>
    (\<exists>n. verify_tapes (verifyTape (verifyFiles ctx_done check) (slices_index staged) (par2_index sets))
       0 0 (tp_Tapes plan) = Inr n)"
    by (simp add: verify_plan_def run_simps)
  then show ?thesis by (simp add: verify_tapes_ok verifyTape_ok)
qed

section \<open>From Pack to Verify\<close>

lemma tapes_mset_concat:
  "tapes_mset tapes = mset (concat (map pt_Archives tapes))"
  by (induction tapes) (simp_all add: tapes_mset_def)

lemma pack_disjoint:
  assumes "pack cfg staged = Inr plan" and "distinct (map sa_SourceIndex staged)"
  shows "disjoint_tapes (tp_Tapes plan)"
proof -
  let ?p = "par2ReservePercent (cfg_Redundancy cfg)"
  have "mset (map pa_SourceIndex (concat (map pt_Archives (tp_Tapes plan))))
      = image_mset pa_SourceIndex (mset (map (planned_item ?p) staged))"
    using pack_mset [OF assms(1)] by (simp add: tapes_mset_concat)
  also have "\<dots> = mset (map sa_SourceIndex staged)"
    by (simp add: image_mset.compositionality o_def planned_item_def)
  finally have "distinct (map pa_SourceIndex (concat (map pt_Archives (tp_Tapes plan))))"
    using assms(2) mset_eq_imp_distinct_iff by blast
  then show ?thesis by (simp add: disjoint_tapes_def map_concat o_def)
qed

lemma pack_archive:
  assumes "pack cfg staged = Inr plan" and "t \<in> set (tp_Tapes plan)" and "p \<in> set (pt_Archives t)"
  obtains a where "a \<in> set staged" "p = planned_item (par2ReservePercent (cfg_Redundancy cfg)) a"
proof -
  have "p \<in># tapes_mset (tp_Tapes plan)" using assms(2,3) by (auto simp: tapes_mset_concat)
  then have "p \<in> planned_item (par2ReservePercent (cfg_Redundancy cfg)) ` set staged"
    unfolding pack_mset [OF assms(1)] by simp
  then show ?thesis using that by blast
qed

lemma reserve_within:
  assumes "pack cfg staged = Inr plan" and "t \<in> set (tp_Tapes plan)"
  shows "tapePAR2Bound t (par2ReservePercent (cfg_Redundancy cfg)) + DataBytes t \<le> pt_UsableBytes t"
proof -
  let ?p = "par2ReservePercent (cfg_Redundancy cfg)"
  have "Footprint x = MaxOutputBytes (pa_DataBytes x) (pa_SliceCount x) ?p + pa_DataBytes x"
    if x: "x \<in> set (pt_Archives t)" for x
  proof -
    obtain a where "x = planned_item ?p a" using pack_archive [OF assms x] by metis
    then show ?thesis by (simp add: planned_item_def Footprint_def reservedBytes_def)
  qed
  then have eq: "map Footprint (pt_Archives t)
      = map (\<lambda>x. MaxOutputBytes (pa_DataBytes x) (pa_SliceCount x) ?p + pa_DataBytes x) (pt_Archives t)"
    by simp
  have "PlannedBytes t = tapePAR2Bound t ?p + DataBytes t"
    unfolding PlannedBytes_sum tapePAR2Bound_sum DataBytes_sum eq by (rule sum_list_addf)
  then show ?thesis using pack_tapes [OF assms(1)] assms(2) by (auto simp: tape_fits_def)
qed

text \<open>What par2 is relied on for: every archive has one recovery set, of at most the bound.\<close>

definition par2_within_bound ::
  "(nat \<rightharpoonup> int) \<Rightarrow> StagedArchive list \<Rightarrow> PAR2Set list \<Rightarrow> bool" where
  "par2_within_bound percents staged sets \<longleftrightarrow> distinct (map ps_SourceIndex sets) \<and>
     (\<forall>a \<in> set staged. \<exists>s \<in> set sets. \<exists>p. ps_SourceIndex s = sa_SourceIndex a
        \<and> percents (sa_SourceIndex a) = Some p
        \<and> files_bytes (ps_Files s) \<le> MaxOutputBytes (sa_SizeBytes a) (int (length (sa_Slices a))) p)"

definition staged_ok :: "StagedArchive list \<Rightarrow> bool" where
  "staged_ok staged \<longleftrightarrow> distinct (map sa_SourceIndex staged) \<and>
     (\<forall>a \<in> set staged. sa_SizeBytes a = files_bytes (sa_Slices a) \<and> 0 \<le> sa_SizeBytes a
        \<and> sa_SizeBytes a \<le> 2 ^ 45 \<and> int (length (sa_Slices a)) < maxSourceBlocks)"

lemma par2Percentages_tape:
  assumes "pack cfg staged = Inr plan" "staged_ok staged"
    and "par2Percentages (cfg_Redundancy cfg) plan = Inr percents" and "t \<in> set (tp_Tapes plan)"
  obtains p where "\<forall>x \<in> set (pt_Archives t). percents (pa_SourceIndex x) = Some p"
    and "tapePAR2Bound t p + DataBytes t \<le> pt_UsableBytes t"
proof -
  have dis: "disjoint_tapes (tp_Tapes plan)"
    using pack_disjoint [OF assms(1)] assms(2) by (simp add: staged_ok_def)
  note within = reserve_within [OF assms(1,4)]
  show ?thesis
  proof (cases "red_TargetPercentage (cfg_Redundancy cfg)")
    case (Some target)
    then have "\<forall>x \<in> set (pt_Archives t).
        percents (pa_SourceIndex x) = Some (par2ReservePercent (cfg_Redundancy cfg))"
      using assms(3) assigned_percent [OF dis assms(4)]
      by (auto simp: par2Percentages_def par2ReservePercent_def Let_def)
    then show ?thesis using within by (rule that)
  next
    case None
    then obtain fill where f: "red_FillToCapacity (cfg_Redundancy cfg) = Some fill"
      using assms(3) by (auto simp: par2Percentages_def split: option.splits)
    let ?floor = "clampPercent (math_Ceil (fill_Floor fill))"
    have "\<forall>x \<in> set (pt_Archives t). percents (pa_SourceIndex x) = Some (fillPercent t ?floor)"
      using assms(3) assigned_percent [OF dis assms(4)] None f
      by (auto simp: par2Percentages_def Let_def)
    moreover have "tape_sizes_ok t"
      unfolding tape_sizes_ok_def
    proof
      fix x assume "x \<in> set (pt_Archives t)"
      then obtain a where "a \<in> set staged" "x = planned_item (par2ReservePercent (cfg_Redundancy cfg)) a"
        by (rule pack_archive [OF assms(1,4)])
      moreover from this(1) have "0 \<le> sa_SizeBytes a \<and> sa_SizeBytes a \<le> 2 ^ 45
          \<and> int (length (sa_Slices a)) < maxSourceBlocks"
        using assms(2) unfolding staged_ok_def by blast
      ultimately show "0 \<le> pa_DataBytes x \<and> pa_DataBytes x \<le> 2 ^ 45 \<and> 0 \<le> pa_SliceCount x
          \<and> pa_SliceCount x < maxSourceBlocks"
        by (simp add: planned_item_def)
    qed
    moreover have "clampPercent ?floor = ?floor" using clampPercent_bounds by (intro clampPercent_id)
    moreover from this have "tapePAR2Bound t (clampPercent ?floor) + DataBytes t \<le> pt_UsableBytes t"
      using within None f \<open>clampPercent ?floor = ?floor\<close> by (simp add: par2ReservePercent_def)
    ultimately show ?thesis
      using fillPercent_fits [of t ?floor] that [of "fillPercent t ?floor"] by blast
  qed
qed

definition reads_back :: "(string \<Rightarrow> file_read) \<Rightarrow> (8 word list \<Rightarrow> string) \<Rightarrow> StagedSlice \<Rightarrow> bool" where
  "reads_back fs sha256hex f \<longleftrightarrow>
     (\<exists>content. fs (sl_Path f) = Contents content \<and> sha256hex content = sl_SHA256 f)"

section \<open>Properties\<close>

text \<open>C2: The gate before the tapes is exact: \<open>verify\<close> passes if and only if every planned
  archive was staged and has a recovery set, every file of both still reads back with the recorded
  SHA-256, no cancellation intervened, and the recorded sizes on each tape add up to at most its
  usable capacity.\<close>

theorem verify_exact:
  "verify_plan ctx_done (checksum_Verify fs sha256hex) plan staged recovery_sets = Inr () \<longleftrightarrow>
    (\<forall>t \<in> set (tp_Tapes plan).
       (\<forall>p \<in> set (pt_Archives t). \<exists>a s. slices_index staged (pa_SourceIndex p) = Some a
          \<and> par2_index recovery_sets (pa_SourceIndex p) = Some s
          \<and> (\<forall>f \<in> set (sa_Slices a) \<union> set (ps_Files s).
               \<not> ctx_done (sl_Path f) \<and> reads_back fs sha256hex f))
       \<and> (\<Sum>p \<leftarrow> pt_Archives t. placement_bytes (slices_index staged) (par2_index recovery_sets) p)
           \<le> pt_UsableBytes t)"
proof -
  have "placement_ok (file_ok ctx_done (checksum_Verify fs sha256hex)) sl ps p \<longleftrightarrow>
      (\<exists>a s. sl (pa_SourceIndex p) = Some a \<and> ps (pa_SourceIndex p) = Some s
          \<and> (\<forall>f \<in> set (sa_Slices a) \<union> set (ps_Files s).
               \<not> ctx_done (sl_Path f) \<and> reads_back fs sha256hex f))" for sl ps p
    by (auto simp: placement_ok_def file_ok_def checksum_Verify_ok reads_back_def split: option.splits)
  then show ?thesis by (simp add: verify_plan_ok)
qed

text \<open>C4: What Pack plans and fill mode grows, Verify accepts: for a plan of Pack over staged
  archives of sizes a tape can hold, with every recovery set no larger than the bound at the
  percentage \<open>par2Percentages\<close> chose, and every file reading back as recorded, Verify clears the
  run. A run cannot fail on capacity after the PAR2 computation.\<close>

theorem pack_fill_verify:
  assumes "pack cfg staged = Inr plan" and "staged_ok staged"
    and "par2Percentages (cfg_Redundancy cfg) plan = Inr percents"
    and "par2_within_bound percents staged recovery_sets"
    and "\<forall>a \<in> set staged. \<forall>f \<in> set (sa_Slices a). file_ok ctx_done check f"
    and "\<forall>s \<in> set recovery_sets. \<forall>f \<in> set (ps_Files s). file_ok ctx_done check f"
  shows "verify_plan ctx_done check plan staged recovery_sets = Inr ()"
  unfolding verify_plan_ok
proof
  fix t assume t: "t \<in> set (tp_Tapes plan)"
  let ?sl = "slices_index staged" and ?ps = "par2_index recovery_sets"
  have dis: "distinct (map sa_SourceIndex staged)" "distinct (map ps_SourceIndex recovery_sets)"
    using assms(2,4) by (simp_all add: staged_ok_def par2_within_bound_def)
  obtain pct where pct: "\<forall>x \<in> set (pt_Archives t). percents (pa_SourceIndex x) = Some pct"
    and fits: "tapePAR2Bound t pct + DataBytes t \<le> pt_UsableBytes t"
    using par2Percentages_tape [OF assms(1-3) t] .
  have each: "placement_ok (file_ok ctx_done check) ?sl ?ps x \<and> placement_bytes ?sl ?ps x
      \<le> pa_DataBytes x + MaxOutputBytes (pa_DataBytes x) (pa_SliceCount x) pct"
    if x: "x \<in> set (pt_Archives t)" for x
  proof -
    obtain a where a: "a \<in> set staged" "x = planned_item (par2ReservePercent (cfg_Redundancy cfg)) a"
      using pack_archive [OF assms(1) t x] .
    have xi: "pa_SourceIndex x = sa_SourceIndex a" "pa_DataBytes x = sa_SizeBytes a"
      "pa_SliceCount x = int (length (sa_Slices a))" using a(2) by (simp_all add: planned_item_def)
    obtain s where s: "s \<in> set recovery_sets" "ps_SourceIndex s = sa_SourceIndex a"
      "files_bytes (ps_Files s) \<le> MaxOutputBytes (sa_SizeBytes a) (int (length (sa_Slices a))) pct"
      using assms(4) a(1) pct x xi(1) unfolding par2_within_bound_def by fastforce
    have look: "?sl (pa_SourceIndex x) = Some a" "?ps (pa_SourceIndex x) = Some s"
      using slices_index_in [OF dis(1) a(1)] par2_index_in [OF dis(2) s(1)] xi(1) s(2) by simp_all
    then show ?thesis using assms(2,5,6) a(1) s xi
      by (auto simp: placement_ok_def placement_bytes_def staged_ok_def)
  qed
  have "(\<Sum>x \<leftarrow> pt_Archives t. placement_bytes ?sl ?ps x)
      \<le> (\<Sum>x \<leftarrow> pt_Archives t. pa_DataBytes x + MaxOutputBytes (pa_DataBytes x) (pa_SliceCount x) pct)"
    using each by (intro sum_list_mono) auto
  also have "\<dots> = tapePAR2Bound t pct + DataBytes t"
    by (simp add: sum_list_addf tapePAR2Bound_sum DataBytes_sum)
  finally show "(\<forall>p \<in> set (pt_Archives t). placement_ok (file_ok ctx_done check) ?sl ?ps p)
      \<and> sum_list (map (placement_bytes ?sl ?ps) (pt_Archives t)) \<le> pt_UsableBytes t"
    using each fits by simp
qed

definition example_plan :: "int \<Rightarrow> TapePlan" where
  "example_plan usable = \<lparr> tp_Copies = 1, tp_Tapes = [\<lparr> pt_Archives = [\<lparr> pa_SourceIndex = 0, pa_DataBytes = 7,
     pa_SliceCount = 1, pa_PAR2ReservedBytes = 3 \<rparr>], pt_UsableBytes = usable \<rparr>] \<rparr>"

text \<open>Ten bytes of slices and recovery: accepted on a tape of ten bytes, rejected on one of nine.\<close>

definition example_slices :: "StagedArchive list" where
  "example_slices = [\<lparr> sa_SourceIndex = 0,
     sa_Slices = [\<lparr> sl_Path = ''a'', sl_SHA256 = ''00'', sl_SizeBytes = 7 \<rparr>], sa_SizeBytes = 7 \<rparr>]"

definition example_recovery :: "PAR2Set list" where
  "example_recovery = [\<lparr> ps_SourceIndex = 0, ps_RedundancyPercent = 10,
     ps_Files = [\<lparr> sl_Path = ''p'', sl_SHA256 = ''00'', sl_SizeBytes = 3 \<rparr>] \<rparr>]"

lemma verify_exact_witness:
  "verify_plan (\<lambda>path. False) (checksum_Verify (\<lambda>path. Contents [0]) (\<lambda>content. ''00'')) (example_plan 10)
       example_slices example_recovery = Inr ()
   \<and> verify_plan (\<lambda>path. False) (checksum_Verify (\<lambda>path. Contents [0]) (\<lambda>content. ''00'')) (example_plan 9)
       example_slices example_recovery \<noteq> Inr ()"
  unfolding verify_exact
  by (simp add: example_plan_def example_slices_def example_recovery_def slices_index_def
      par2_index_def reads_back_def placement_bytes_def files_bytes_def)

definition example_sets :: "PAR2Set list" where
  "example_sets = map (\<lambda>i. \<lparr> ps_SourceIndex = i, ps_RedundancyPercent = 10,
     ps_Files = [\<lparr> sl_Path = ''p'', sl_SHA256 = ''11'', sl_SizeBytes = 400000000000 \<rparr>] \<rparr>) [0, 1, 2]"

definition example_target_config :: Config where
  "example_target_config = (example_config [])\<lparr> cfg_Redundancy :=
     \<lparr> red_TargetPercentage = Some 10, red_FillToCapacity = None \<rparr> \<rparr>"

definition example_percents :: "nat \<rightharpoonup> int" where
  "example_percents = foldl (\<lambda>m tape. assign_percent 10 tape m) Map.empty (tp_Tapes example_packed)"

lemma pack_cong:
  "cfg_Copies c = cfg_Copies d \<Longrightarrow> cfg_Library c = cfg_Library d \<Longrightarrow>
     par2ReservePercent (cfg_Redundancy c) = par2ReservePercent (cfg_Redundancy d) \<Longrightarrow>
     pack c staged = pack d staged"
  by (simp only: pack_def)

lemma example_target_pack: "pack example_target_config example_staged = Inr example_packed"
proof -
  have "par2ReservePercent (cfg_Redundancy example_target_config) = 10"
    "par2ReservePercent (cfg_Redundancy (example_config [])) = 10" by code_simp+
  then have "pack example_target_config example_staged = pack (example_config []) example_staged"
    by (intro pack_cong) (simp_all add: example_target_config_def)
  then show ?thesis by (simp add: example_pack)
qed

lemma example_percents_ok:
  "par2Percentages (cfg_Redundancy example_target_config) example_packed = Inr example_percents"
proof -
  have "clampPercent (math_Round 10) = 10" by code_simp
  then show ?thesis
    by (simp add: par2Percentages_def example_target_config_def example_percents_def)
qed

lemma example_par2_bound: "par2_within_bound example_percents example_staged example_sets"
proof -
  have p: "map example_percents [0, 1, 2] = [Some 10, Some 10, Some 10]" by code_simp
  have b: "\<forall>a \<in> set example_staged.
      400000000000 \<le> MaxOutputBytes (sa_SizeBytes a) (int (length (sa_Slices a))) 10"
  proof
    fix a assume "a \<in> set example_staged"
    then have "5000000000000 \<le> sa_SizeBytes a" by (auto simp: example_staged_def)
    then show "400000000000 \<le> MaxOutputBytes (sa_SizeBytes a) (int (length (sa_Slices a))) 10"
      using MaxOutputBytes_covers [of "sa_SizeBytes a" 10 "int (length (sa_Slices a))"] by linarith
  qed
  have s: "\<forall>a \<in> set example_staged. \<exists>s \<in> set example_sets.
      ps_SourceIndex s = sa_SourceIndex a \<and> files_bytes (ps_Files s) = 400000000000"
    by (simp add: example_staged_def example_sets_def files_bytes_def)
  have c: "\<forall>a \<in> set example_staged. example_percents (sa_SourceIndex a) = Some 10"
    using p by (simp add: example_staged_def)
  have d: "distinct (map ps_SourceIndex example_sets)" by (simp add: example_sets_def)
  show ?thesis
    unfolding par2_within_bound_def
  proof (intro conjI ballI d)
    fix a assume a: "a \<in> set example_staged"
    obtain s where "s \<in> set example_sets" "ps_SourceIndex s = sa_SourceIndex a"
      "files_bytes (ps_Files s) = 400000000000" using s a by blast
    then show "\<exists>s \<in> set example_sets. \<exists>p. ps_SourceIndex s = sa_SourceIndex a
        \<and> example_percents (sa_SourceIndex a) = Some p
        \<and> files_bytes (ps_Files s) \<le> MaxOutputBytes (sa_SizeBytes a) (int (length (sa_Slices a))) p"
      using b c a by auto
  qed
qed

lemma pack_fill_verify_witness:
  "verify_plan (\<lambda>path. False) (checksum_Verify (\<lambda>path. Contents (if path = ''a'' then [0] else [1]))
       (\<lambda>content. if content = [0] then ''00'' else ''11''))
     example_packed example_staged example_sets = Inr ()"
  by (rule pack_fill_verify [OF example_target_pack _ example_percents_ok example_par2_bound])
    (auto simp: staged_ok_def example_staged_def example_sets_def files_bytes_def maxSourceBlocks_def
      file_ok_def checksum_Verify_def SHA256File_def)

end
