(* ===== verification/Label.thy ===== *)
theory Label
  imports Types
begin

text \<open>
  Archive directory names (\<open>workflows/backup/label.go\<close>): a sanitised label after the
  zero-padded source index.
\<close>

definition maxLabelLen :: nat where "maxLabelLen = 40"

definition fallbackLabel :: string where "fallbackLabel = ''archive''"

definition label_char :: "char \<Rightarrow> bool" where
  "label_char c \<longleftrightarrow> (CHR ''a'' \<le> c \<and> c \<le> CHR ''z'') \<or> (CHR ''0'' \<le> c \<and> c \<le> CHR ''9'')
     \<or> c = CHR ''.'' \<or> c = CHR ''_'' \<or> c = CHR ''-''"

text \<open>
  The loop of \<open>sanitizeLabel\<close>, byte by byte: a multi-byte character becomes one dash, because
  its remaining bytes fall under \<open>lastDash\<close>.
\<close>

fun sanitize_loop :: "bool \<Rightarrow> string \<Rightarrow> string" where
  "sanitize_loop lastDash [] = []"
| "sanitize_loop lastDash (c # cs) =
     (if label_char c
      then (if c = CHR ''-'' \<and> lastDash then sanitize_loop lastDash cs
            else c # sanitize_loop (c = CHR ''-'') cs)
      else if lastDash then sanitize_loop lastDash cs
      else CHR ''-'' # sanitize_loop True cs)"

definition sanitizeLabel :: "string \<Rightarrow> string" where
  "sanitizeLabel raw =
     (let label = Trim (sanitize_loop False (ToLower raw)) ''-.''
      in if length label > maxLabelLen then Trim (take maxLabelLen label) ''-.'' else label)"

definition sourceLabel :: "Source \<Rightarrow> string" where
  "sourceLabel source =
     (let override = (case src_Label source of Some l \<Rightarrow> sanitizeLabel l | None \<Rightarrow> []) in
      if override \<noteq> [] then override
      else
        let raw = (case src_ZFSPath source of
              Some z \<Rightarrow> path_Base (fst (Cut (zp_Name z) (CHR ''@'')))
            | None \<Rightarrow> (case src_K8s source of
                Some k \<Rightarrow> if k8_Name k \<noteq> [] then k8_Name k else k8_LabelSelector k
              | None \<Rightarrow> []));
            label = sanitizeLabel raw
        in if label \<noteq> [] then label else fallbackLabel)"

definition archiveDirName :: "nat \<Rightarrow> string \<Rightarrow> string" where
  "archiveDirName sourceIndex label =
     (if label = [] then ''archives/'' @ pad0 3 (itoa sourceIndex)
      else ''archives/'' @ pad0 3 (itoa sourceIndex) @ ''-'' @ label)"

section \<open>Clean labels\<close>

definition clean :: "string \<Rightarrow> bool" where
  "clean s \<longleftrightarrow> (\<forall>c \<in> set s. label_char c)
     \<and> successively (\<lambda>a b. \<not> (a = CHR ''-'' \<and> b = CHR ''-'')) s"

lemma clean_append: "clean (a @ b) \<Longrightarrow> clean a \<and> clean b"
  by (auto simp: clean_def successively_append_iff)

lemma clean_Trim: "clean s \<Longrightarrow> clean (Trim s cutset)"
  using Trim_decomp [of s cutset] clean_append by metis

lemma clean_take: "clean s \<Longrightarrow> clean (take n s)"
  using clean_append [of "take n s" "drop n s"] by simp

lemma sanitize_loop_clean:
  "clean (sanitize_loop b s) \<and> (b \<longrightarrow> sanitize_loop b s = [] \<or> hd (sanitize_loop b s) \<noteq> CHR ''-'')"
proof (induction b s rule: sanitize_loop.induct)
  case (1 b)
  then show ?case by (simp add: clean_def)
next
  case (2 b c cs)
  have dash: "label_char (CHR ''-'')" by (simp add: label_char_def)
  have cons: "clean (x # s)" if "label_char x" "clean s" "x = CHR ''-'' \<Longrightarrow> s = [] \<or> hd s \<noteq> CHR ''-''"
    for x s using that by (cases s) (auto simp: clean_def)
  show ?case using 2 dash by (auto intro!: cons)
qed

lemma sanitize_loop_id:
  "clean s \<Longrightarrow> (b \<Longrightarrow> s = [] \<or> hd s \<noteq> CHR ''-'') \<Longrightarrow> sanitize_loop b s = s"
proof (induction s arbitrary: b)
  case (Cons c s)
  have "clean s" using clean_append [of "[c]" s] Cons.prems(1) by simp
  moreover have "c = CHR ''-'' \<Longrightarrow> s = [] \<or> hd s \<noteq> CHR ''-''"
    using Cons.prems(1) by (cases s) (auto simp: clean_def)
  ultimately have "sanitize_loop (c = CHR ''-'') s = s" by (intro Cons.IH) auto
  moreover have "label_char c" using Cons.prems(1) by (simp add: clean_def)
  ultimately show ?case using Cons.prems(2) by auto
qed simp

lemma label_char_lower: "label_char c \<Longrightarrow> lower_char c = c \<and> c \<noteq> CHR 0xE2 \<and> c \<noteq> CHR 0xC4"
proof -
  assume "label_char c"
  then have "\<not> (CHR ''A'' \<le> c \<and> c \<le> CHR ''Z'')" "c \<noteq> CHR 0xE2" "c \<noteq> CHR 0xC4"
    by (auto simp: label_char_def less_eq_char_def)
  then show ?thesis unfolding lower_char_def by (simp only: if_False simp_thms)
qed

lemma ToLower_clean: "(\<And>c. c \<in> set s \<Longrightarrow> label_char c) \<Longrightarrow> ToLower s = s"
  by (induction s) (auto simp: label_char_lower)

lemma sanitizeLabel_shape:
  "clean (sanitizeLabel raw) \<and> length (sanitizeLabel raw) \<le> maxLabelLen
     \<and> (sanitizeLabel raw \<noteq> [] \<longrightarrow>
          hd (sanitizeLabel raw) \<notin> set ''-.'' \<and> last (sanitizeLabel raw) \<notin> set ''-.'')"
proof -
  let ?l = "Trim (sanitize_loop False (ToLower raw)) ''-.''"
  have c: "clean ?l" using sanitize_loop_clean by (intro clean_Trim) simp
  show ?thesis
  proof (cases "length ?l > maxLabelLen")
    case True
    then have "sanitizeLabel raw = Trim (take maxLabelLen ?l) ''-.''"
      by (simp add: sanitizeLabel_def Let_def)
    moreover have "length (Trim (take maxLabelLen ?l) ''-.'') \<le> maxLabelLen"
      using Trim_length [of "take maxLabelLen ?l" "''-.''"] by simp
    ultimately show ?thesis using Trim_ends c by (metis clean_Trim clean_take)
  next
    case False
    then have "sanitizeLabel raw = ?l" by (simp add: sanitizeLabel_def Let_def)
    then show ?thesis using Trim_ends c False by (metis not_less)
  qed
qed

lemma sanitizeLabel_id:
  assumes "clean s" "length s \<le> maxLabelLen"
    and "s \<noteq> [] \<Longrightarrow> hd s \<notin> set ''-.'' \<and> last s \<notin> set ''-.''"
  shows "sanitizeLabel s = s"
proof -
  have "ToLower s = s" using assms(1) by (intro ToLower_clean) (simp add: clean_def)
  moreover have "sanitize_loop False s = s" using assms(1) by (intro sanitize_loop_id) auto
  moreover have "Trim s ''-.'' = s" using assms(3) by (intro Trim_id) auto
  ultimately show ?thesis using assms(2) by (simp add: sanitizeLabel_def)
qed

text \<open>Labels are safe path elements. A sanitised label has at most 40 characters of
  \<open>[a-z0-9._-]\<close>, no two dashes in a row, and neither starts nor ends with a dash or a dot, so it
  is never \<open>.\<close> or \<open>..\<close> and never contains a slash; sanitising it again changes nothing; and the
  label of a source is such a label and never empty.\<close>

theorem label_safe:
  "clean (sanitizeLabel raw) \<and> length (sanitizeLabel raw) \<le> 40
    \<and> CHR ''/'' \<notin> set (sanitizeLabel raw)
    \<and> (sanitizeLabel raw = [] \<or> (hd (sanitizeLabel raw) \<notin> {CHR ''-'', CHR ''.''}
         \<and> last (sanitizeLabel raw) \<notin> {CHR ''-'', CHR ''.''}))
    \<and> sanitizeLabel (sanitizeLabel raw) = sanitizeLabel raw
    \<and> sourceLabel source \<noteq> [] \<and> sanitizeLabel (sourceLabel source) = sourceLabel source"
proof -
  have idem: "sanitizeLabel (sanitizeLabel r) = sanitizeLabel r" for r
    using sanitizeLabel_shape [of r] by (intro sanitizeLabel_id) auto
  have fb: "sanitizeLabel fallbackLabel = fallbackLabel" by code_simp
  have "\<exists>r. sourceLabel source = sanitizeLabel r \<or> sourceLabel source = fallbackLabel"
    by (cases "src_Label source") (auto simp: sourceLabel_def Let_def)
  then have "sanitizeLabel (sourceLabel source) = sourceLabel source" using idem fb by metis
  moreover have "sourceLabel source \<noteq> []" by (simp add: sourceLabel_def Let_def fallbackLabel_def)
  moreover have "\<not> label_char (CHR ''/'')" by (simp add: label_char_def less_eq_char_def)
  then have "CHR ''/'' \<notin> set (sanitizeLabel raw)"
    using sanitizeLabel_shape [of raw] by (auto simp: clean_def)
  ultimately show ?thesis
    using sanitizeLabel_shape [of raw] idem [of raw] by (auto simp: maxLabelLen_def)
qed

text \<open>Archive directories are kept apart by the index alone, and the name determines both
  the index and the label: the directory of archive \<open>i\<close> is the directory of archive \<open>j\<close> only if
  \<open>i = j\<close>, however the labels are chosen.\<close>

theorem archive_dir_inj:
  "archiveDirName i label = archiveDirName j label' \<longleftrightarrow> i = j \<and> label = label'"
proof
  assume eq: "archiveDirName i label = archiveDirName j label'"
  have num: "takeWhile is_digit (pad0 3 (itoa k) @ r) = pad0 3 (itoa k)"
    if "r = [] \<or> hd r = CHR ''-''" for k r
    using that pad0_digits [of _ 3 k]
    by (cases r) (auto simp: takeWhile_append is_digit_def)
  have "takeWhile is_digit (drop 9 (archiveDirName k l)) = pad0 3 (itoa k)" for k l
    using num [of "[]" k] num [of "''-'' @ l" k] by (simp add: archiveDirName_def)
  with eq have "pad0 3 (itoa i) = pad0 3 (itoa j)" by metis
  then have "i = j" by (metis atoi_pad0)
  with eq show "i = j \<and> label = label'" by (auto simp: archiveDirName_def split: if_splits)
qed simp

end
