(* ===== verification/Slices.thy ===== *)
theory Slices
  imports Pack
begin

text \<open>
  The arithmetic of Resolve (\<open>workflows/backup/resolve.go\<close>): the feasibility estimate, the
  slice size derived from the estimates, and the guard on the activity payload.
\<close>

section \<open>Feasibility estimate\<close>

definition par2Fraction :: "Redundancy \<Rightarrow> rat" where
  "par2Fraction redundancy =
     (case red_TargetPercentage redundancy of
        Some percent \<Rightarrow> fdiv percent 100
      | None \<Rightarrow> (case red_FillToCapacity redundancy of
          Some fill \<Rightarrow> fdiv (fill_Floor fill) 100 | None \<Rightarrow> 0))"

definition feasibilityEstimate :: "int \<Rightarrow> rat \<Rightarrow> rat \<Rightarrow> int" where
  "feasibilityEstimate logical overhead par2 =
     math_Ceil (fmul (fmul (float64 logical) overhead) (fadd 1 par2))"

lemma fadd_ge_1: "0 \<le> p \<Longrightarrow> 1 \<le> fadd 1 p"
  using rnd_ge_int [of 1 "1 + p"] by (simp add: fadd_def)

lemma fdiv_nonneg: "0 \<le> p \<Longrightarrow> 0 < q \<Longrightarrow> 0 \<le> fdiv p q"
  by (simp add: fdiv_def rnd_nonneg)

lemma feasibilityEstimate_ge:
  assumes "0 \<le> logical" "logical < 2 ^ 53" "1 \<le> overhead" "0 \<le> par2"
  shows "logical \<le> feasibilityEstimate logical overhead par2"
proof -
  let ?l = "of_int logical :: rat"
  have l: "0 \<le> ?l" using assms(1) by simp
  have step: "?l \<le> fmul x y" if "?l \<le> x" "1 \<le> y" for x y
  proof -
    have "?l * 1 \<le> x * y" using that l by (intro mult_mono) auto
    then show ?thesis unfolding fmul_def using assms(1,2) by (intro rnd_ge_int) auto
  qed
  have "float64 logical = ?l" using assms by (simp add: float64_def rnd_int)
  then have "?l \<le> fmul (fmul (float64 logical) overhead) (fadd 1 par2)"
    using assms by (intro step fadd_ge_1) auto
  then show ?thesis by (simp add: feasibilityEstimate_def math_Ceil_def le_ceiling_iff less_le_trans)
qed

section \<open>Slice size\<close>

definition temporalPayloadLimitBytes :: int where "temporalPayloadLimitBytes = 2 * 1024 * 1024"

definition perStagedSliceBytes :: int where "perStagedSliceBytes = 256"

definition payloadBoundBudgetBytes :: int where
  "payloadBoundBudgetBytes = temporalPayloadLimitBytes div 2"

definition bytesPerGiB :: int where "bytesPerGiB = 2 ^ 30"

definition minSliceSizeBytes :: int where "minSliceSizeBytes = bytesPerGiB"

definition runSliceCountTarget :: int where "runSliceCountTarget = 3500"

definition archiveSliceCountTarget :: int where "archiveSliceCountTarget = 800"

lemmas slice_constants = temporalPayloadLimitBytes_def perStagedSliceBytes_def
  payloadBoundBudgetBytes_def bytesPerGiB_def minSliceSizeBytes_def runSliceCountTarget_def
  archiveSliceCountTarget_def

definition DeriveSliceSize :: "ResolvedArchive list \<Rightarrow> int" where
  "DeriveSliceSize resolved =
     (let (totalEstimated, largestEstimated) =
            foldl (\<lambda>(tot, largest) archive.
                (tot + ra_EstimatedBytes archive,
                 if ra_EstimatedBytes archive > largest then ra_EstimatedBytes archive else largest))
              (0, 0) resolved;
          runTerm = ceilDiv totalEstimated runSliceCountTarget;
          archiveTerm = ceilDiv largestEstimated archiveSliceCountTarget;
          sliceSize0 = (if archiveTerm > runTerm then archiveTerm else runTerm);
          sliceSize = ceilDiv sliceSize0 bytesPerGiB * bytesPerGiB
      in if sliceSize < minSliceSizeBytes then minSliceSizeBytes else sliceSize)"

datatype payload_error =
    SliceSizeNotPositive int
  | PayloadTooLarge int int int int

definition checkPayloadBound :: "ResolvedArchive list \<Rightarrow> int \<Rightarrow> payload_error + unit" where
  "checkPayloadBound resolved sliceSizeBytes =
     (if sliceSizeBytes \<le> 0 then Inl (SliceSizeNotPositive sliceSizeBytes)
      else
        let (totalEstimated, sliceCount) =
              foldl (\<lambda>(tot, count) archive.
                  (tot + ra_EstimatedBytes archive,
                   count + ceilDiv (ra_EstimatedBytes archive) sliceSizeBytes))
                (0, 0) resolved;
            payloadBytes = sliceCount * perStagedSliceBytes
        in if payloadBytes \<le> payloadBoundBudgetBytes then Inr ()
           else Inl (PayloadTooLarge sliceSizeBytes sliceCount payloadBytes totalEstimated))"

subsection \<open>What the loops compute\<close>

definition total_estimate :: "ResolvedArchive list \<Rightarrow> int" where
  "total_estimate resolved = sum_list (map ra_EstimatedBytes resolved)"

definition largest_estimate :: "ResolvedArchive list \<Rightarrow> int" where
  "largest_estimate resolved = foldl max 0 (map ra_EstimatedBytes resolved)"

definition slice_count :: "int \<Rightarrow> ResolvedArchive list \<Rightarrow> int" where
  "slice_count sz resolved = sum_list (map (\<lambda>a. ceilDiv (ra_EstimatedBytes a) sz) resolved)"

lemma derive_fold:
  "foldl (\<lambda>(tot, largest) a. (tot + ra_EstimatedBytes a,
       if ra_EstimatedBytes a > largest then ra_EstimatedBytes a else largest)) (t, l) resolved
     = (t + total_estimate resolved, foldl max l (map ra_EstimatedBytes resolved))"
  by (induction resolved arbitrary: t l) (auto simp: total_estimate_def max_def)

lemma check_fold:
  "foldl (\<lambda>(tot, count) a. (tot + ra_EstimatedBytes a, count + ceilDiv (ra_EstimatedBytes a) sz))
       (t, c) resolved = (t + total_estimate resolved, c + slice_count sz resolved)"
  by (induction resolved arbitrary: t c) (auto simp: total_estimate_def slice_count_def)

lemma foldl_max_ge: "a \<le> foldl max a xs \<and> (\<forall>x \<in> set xs. x \<le> foldl max a xs)"
  for a :: int
proof (induction xs arbitrary: a)
  case (Cons x xs)
  show ?case using Cons.IH [of "max a x"] by auto
qed simp

lemma largest_estimate_ge:
  "0 \<le> largest_estimate resolved" "a \<in> set resolved \<Longrightarrow> ra_EstimatedBytes a \<le> largest_estimate resolved"
  using foldl_max_ge [of 0 "map ra_EstimatedBytes resolved"] by (auto simp: largest_estimate_def)

lemma DeriveSliceSize_eq:
  "DeriveSliceSize resolved =
     max bytesPerGiB (ceilDiv (max (ceilDiv (total_estimate resolved) 3500)
       (ceilDiv (largest_estimate resolved) 800)) bytesPerGiB * bytesPerGiB)"
  unfolding DeriveSliceSize_def derive_fold Let_def
  by (simp add: slice_constants largest_estimate_def max_def)

lemma checkPayloadBound_eq:
  "0 < sz \<Longrightarrow> checkPayloadBound resolved sz =
     (if slice_count sz resolved \<le> 4096 then Inr ()
      else Inl (PayloadTooLarge sz (slice_count sz resolved) (slice_count sz resolved * 256)
        (total_estimate resolved)))"
  unfolding checkPayloadBound_def check_fold Let_def by (simp add: slice_constants)

definition estimates_ok :: "ResolvedArchive list \<Rightarrow> bool" where
  "estimates_ok resolved \<longleftrightarrow> (\<forall>a \<in> set resolved. 0 \<le> ra_EstimatedBytes a)"

lemma total_estimate_nonneg: "estimates_ok resolved \<Longrightarrow> 0 \<le> total_estimate resolved"
  by (auto simp: estimates_ok_def total_estimate_def intro!: sum_list_nonneg)

lemma DeriveSliceSize_ge:
  assumes "estimates_ok resolved"
  shows "bytesPerGiB \<le> DeriveSliceSize resolved"
    "ceilDiv (total_estimate resolved) 3500 \<le> DeriveSliceSize resolved"
    "ceilDiv (largest_estimate resolved) 800 \<le> DeriveSliceSize resolved"
proof -
  let ?m = "max (ceilDiv (total_estimate resolved) 3500) (ceilDiv (largest_estimate resolved) 800)"
  have "0 \<le> ?m" using ceilDiv_nonneg [of "total_estimate resolved" 3500] total_estimate_nonneg [OF assms]
    by simp
  then have "?m \<le> ceilDiv ?m bytesPerGiB * bytesPerGiB"
    by (intro ceilDiv_upper) (auto simp: bytesPerGiB_def)
  then show "ceilDiv (total_estimate resolved) 3500 \<le> DeriveSliceSize resolved"
    "ceilDiv (largest_estimate resolved) 800 \<le> DeriveSliceSize resolved"
    unfolding DeriveSliceSize_eq by linarith+
qed (simp add: DeriveSliceSize_eq)

lemma DeriveSliceSize_pos: "0 < DeriveSliceSize resolved"
  by (simp add: DeriveSliceSize_eq bytesPerGiB_def)

lemma slice_count_bounds:
  assumes "estimates_ok resolved" "0 < sz"
  shows "slice_count sz resolved * sz \<le> total_estimate resolved + int (length resolved) * (sz - 1)"
    "\<forall>a \<in> set resolved. 0 < ra_EstimatedBytes a \<Longrightarrow> int (length resolved) \<le> slice_count sz resolved"
proof -
  show "slice_count sz resolved * sz \<le> total_estimate resolved + int (length resolved) * (sz - 1)"
    using source_blocks_upper [of "map ra_EstimatedBytes resolved" sz] assms
    by (auto simp: source_blocks_def slice_count_def total_estimate_def estimates_ok_def o_def)
  assume pos: "\<forall>a \<in> set resolved. 0 < ra_EstimatedBytes a"
  have "1 \<le> ceilDiv x sz" if "0 < x" for x
    using that assms(2) ceilDiv_le_iff [of x sz 0] by simp
  then show "int (length resolved) \<le> slice_count sz resolved"
    using pos by (induction resolved) (force simp: slice_count_def)+
qed

section \<open>Properties\<close>

text \<open>The derived slice size is a whole number of GiB, at least one, under which no archive
  has more than 800 slices and the run has at most 3,500 plus one per archive; so with up to 596
  archives the slice metadata stays inside the payload budget the next check enforces.\<close>

theorem derive_slice_size_sound:
  assumes "estimates_ok resolved" and "sz = DeriveSliceSize resolved"
  shows "bytesPerGiB dvd sz \<and> bytesPerGiB \<le> sz
    \<and> (\<forall>a \<in> set resolved. ceilDiv (ra_EstimatedBytes a) sz \<le> 800)
    \<and> slice_count sz resolved \<le> 3500 + int (length resolved)
    \<and> (length resolved \<le> 596 \<longrightarrow> checkPayloadBound resolved sz = Inr ())"
proof -
  have pos: "0 < sz" by (simp add: assms(2) DeriveSliceSize_pos)
  have "bytesPerGiB dvd sz" by (simp add: assms(2) DeriveSliceSize_eq max_def)
  moreover have "ceilDiv (ra_EstimatedBytes a) sz \<le> 800" if a: "a \<in> set resolved" for a
  proof -
    have "0 \<le> ra_EstimatedBytes a" using assms(1) a by (simp add: estimates_ok_def)
    moreover have "largest_estimate resolved \<le> sz * 800"
      using DeriveSliceSize_ge(3) [OF assms(1)] ceilDiv_le_iff [of "largest_estimate resolved" 800 sz]
        largest_estimate_ge(1) by (simp add: assms(2))
    ultimately show ?thesis using largest_estimate_ge(2) [OF a] pos by (simp add: ceilDiv_le_iff mult.commute)
  qed
  moreover have cnt: "slice_count sz resolved \<le> 3500 + int (length resolved)"
  proof -
    have "total_estimate resolved \<le> sz * 3500"
      using DeriveSliceSize_ge(2) [OF assms(1)] total_estimate_nonneg [OF assms(1)]
        ceilDiv_le_iff [of "total_estimate resolved" 3500 sz] by (simp add: assms(2))
    moreover have "slice_count sz resolved * sz
        \<le> total_estimate resolved + int (length resolved) * (sz - 1)"
      using assms(1) pos by (rule slice_count_bounds)
    ultimately have "slice_count sz resolved * sz \<le> (3500 + int (length resolved)) * sz"
      by (simp add: algebra_simps)
    then show ?thesis using pos by simp
  qed
  moreover have "length resolved \<le> 596 \<longrightarrow> checkPayloadBound resolved sz = Inr ()"
    using cnt checkPayloadBound_eq [OF pos, of resolved] by auto
  ultimately show ?thesis using DeriveSliceSize_ge(1) [OF assms(1)] by (simp add: assms(2))
qed

text \<open>C27: The payload guard is not satisfied by construction, as its comment has it: every
  archive takes at least one slice, so a run of more than 4,096 non-empty archives, however small,
  derives a slice size that its own guard rejects.\<close>

theorem payload_bound_not_by_construction:
  assumes "\<forall>a \<in> set resolved. 0 < ra_EstimatedBytes a" and "4096 < length resolved"
  shows "\<exists>e. checkPayloadBound resolved (DeriveSliceSize resolved) = Inl e"
proof -
  have ok: "estimates_ok resolved" using assms(1) by (auto simp: estimates_ok_def intro: less_imp_le)
  have "int (length resolved) \<le> slice_count (DeriveSliceSize resolved) resolved"
    using slice_count_bounds(2) [OF ok DeriveSliceSize_pos assms(1)] .
  then show ?thesis using assms(2) by (simp add: checkPayloadBound_eq [OF DeriveSliceSize_pos])
qed

definition example_archive :: "int \<Rightarrow> ResolvedArchive" where
  "example_archive bytes = \<lparr> ra_SourceIndex = 0, ra_Label = ''a'', ra_Compression = True,
     ra_Snapshots = [], ra_EstimatedBytes = bytes, ra_LogicalBytes = bytes \<rparr>"

lemma derive_slice_size_sound_witness:
  "checkPayloadBound [example_archive (2 ^ 43), example_archive 5]
     (DeriveSliceSize [example_archive (2 ^ 43), example_archive 5]) = Inr ()
   \<and> DeriveSliceSize [example_archive (2 ^ 43), example_archive 5] = 11 * bytesPerGiB"
proof -
  have "DeriveSliceSize [example_archive (2 ^ 43), example_archive 5] = 11 * bytesPerGiB" by code_simp
  then show ?thesis
    using derive_slice_size_sound [of "[example_archive (2 ^ 43), example_archive 5]"]
    by (simp add: estimates_ok_def example_archive_def)
qed

lemma payload_bound_not_by_construction_witness:
  "\<exists>e. checkPayloadBound (replicate 5000 (example_archive 1))
     (DeriveSliceSize (replicate 5000 (example_archive 1))) = Inl e"
  by (rule payload_bound_not_by_construction) (simp_all add: example_archive_def)

end
