(* ===== verification/K8s.thy ===== *)
theory K8s
  imports GoStrings
begin

text \<open>
  Resolution of Kubernetes objects to ZFS names (\<open>pkg/k8ssnap\<close>). The API server is a
  parameter: functions from names to objects or errors. Only the fields the code reads are kept;
  an optional field of the API object is an \<open>option\<close>, a creation time a number.
\<close>

section \<open>API objects\<close>

record VolumeSnapshot =
  vs_Namespace :: string
  vs_Name :: string
  vs_PVC :: "string option"
  vs_BoundContent :: "string option"
  vs_Ready :: "bool option"
  vs_CreationTime :: "int option"

record VolumeSnapshotContent =
  vc_SnapshotHandle :: "string option"

record PersistentVolumeClaim =
  pvc_Namespace :: string
  pvc_Name :: string
  pvc_UID :: string
  pvc_Phase :: string
  pvc_VolumeName :: string

record PersistentVolume =
  pv_Name :: string
  pv_ClaimRef :: "(string \<times> string \<times> string) option"
  pv_CSI :: "(string \<times> string) option"

section \<open>Results\<close>

record Ref =
  ref_Namespace :: string
  ref_Name :: string
  ref_LabelSelector :: string
  ref_NewestPerPVC :: bool

record Snapshot =
  sn_Namespace :: string
  sn_VolumeSnapshot :: string
  sn_PVC :: string
  sn_Dataset :: string
  sn_SnapshotName :: string
  sn_Handle :: string

record Group =
  gr_Members :: "Snapshot list"
  gr_UnreadyPVCs :: "string list"

type_synonym ClaimRef = "string \<times> string"

record Claim =
  cl_Namespace :: string
  cl_Name :: string
  cl_Volume :: string
  cl_Dataset :: string

definition Snapshot_ZFSPath :: "Snapshot \<Rightarrow> string" where
  "Snapshot_ZFSPath s = sn_Dataset s @ ''@'' @ sn_SnapshotName s"

text \<open>Errors; \<open>ErrNoClaims\<close> and \<open>ErrUnsupportedClaim\<close> are the sentinels the caller tests for.\<close>

datatype handle_error = NotAtSnapshot string | EmptyVolume string | BadSnapshotName string string

datatype snapshot_error = GetSnapshot | NotBound string | NotReady string | GetContent string
  | NoHandle string string | Handle string handle_error

datatype group_error = ListFailed | NoMatch string | NoSourcePVC string string | NoReadyMatch string
  | Member snapshot_error

datatype claim_error = ClaimAPI string | ErrNoClaims string | ErrUnsupportedClaim string

section \<open>Snapshot handles\<close>

definition hex_char :: "char \<Rightarrow> bool" where
  "hex_char c \<longleftrightarrow> (CHR ''0'' \<le> c \<and> c \<le> CHR ''9'') \<or> (CHR ''a'' \<le> c \<and> c \<le> CHR ''f'')
     \<or> (CHR ''A'' \<le> c \<and> c \<le> CHR ''F'')"

text \<open>The pattern \<open>^snapshot-[hex]{8}-[hex]{4}-[hex]{4}-[hex]{4}-[hex]{12}$\<close>.\<close>

fun hex_groups :: "nat list \<Rightarrow> string \<Rightarrow> bool" where
  "hex_groups [] s \<longleftrightarrow> False"
| "hex_groups [n] s \<longleftrightarrow> length s = n \<and> (\<forall>c \<in> set s. hex_char c)"
| "hex_groups (n # m # ns) s \<longleftrightarrow> n < length s \<and> (\<forall>c \<in> set (take n s). hex_char c)
     \<and> s ! n = CHR ''-'' \<and> hex_groups (m # ns) (drop (Suc n) s)"

definition snapshotNamePattern :: "string \<Rightarrow> bool" where
  "snapshotNamePattern s \<longleftrightarrow> HasPrefix s ''snapshot-''
     \<and> hex_groups [8, 4, 4, 4, 12] (drop (length ''snapshot-'') s)"

definition parseHandle :: "string \<Rightarrow> handle_error + string \<times> string" where
  "parseHandle handle =
     (let (volume, snapshot, found) = Cut handle (CHR ''@'') in
      if \<not> found then Inl (NotAtSnapshot handle)
      else if volume = [] then Inl (EmptyVolume handle)
      else if \<not> snapshotNamePattern snapshot then Inl (BadSnapshotName handle snapshot)
      else Inr (volume, snapshot))"

definition absoluteDataset :: "string \<Rightarrow> string \<Rightarrow> string" where
  "absoluteDataset datasetParent volume =
     (if datasetParent = [] then volume
      else (if suffix ''/'' datasetParent then butlast datasetParent else datasetParent) @ ''/'' @ volume)"

section \<open>VolumeSnapshots\<close>

definition resolveSnapshot ::
  "(string \<Rightarrow> VolumeSnapshotContent option) \<Rightarrow> string \<Rightarrow> VolumeSnapshot \<Rightarrow> snapshot_error + Snapshot" where
  "resolveSnapshot getContent datasetParent vs =
     (let ident = vs_Namespace vs @ ''/'' @ vs_Name vs in
      case vs_BoundContent vs of
        None \<Rightarrow> Inl (NotBound ident)
      | Some contentName \<Rightarrow>
          if contentName = [] then Inl (NotBound ident)
          else if vs_Ready vs \<noteq> Some True then Inl (NotReady ident)
          else (case getContent contentName of
              None \<Rightarrow> Inl (GetContent contentName)
            | Some content \<Rightarrow> (case vc_SnapshotHandle content of
                None \<Rightarrow> Inl (NoHandle contentName ident)
              | Some handle \<Rightarrow>
                  if handle = [] then Inl (NoHandle contentName ident)
                  else (case parseHandle handle of
                      Inl e \<Rightarrow> Inl (Handle ident e)
                    | Inr (volume, snapshotName) \<Rightarrow>
                        Inr \<lparr> sn_Namespace = vs_Namespace vs, sn_VolumeSnapshot = vs_Name vs,
                          sn_PVC = (case vs_PVC vs of Some p \<Rightarrow> p | None \<Rightarrow> []),
                          sn_Dataset = absoluteDataset datasetParent volume,
                          sn_SnapshotName = snapshotName, sn_Handle = handle \<rparr>))))"

definition Resolve ::
  "(string \<Rightarrow> string \<Rightarrow> VolumeSnapshot option) \<Rightarrow> (string \<Rightarrow> VolumeSnapshotContent option) \<Rightarrow> string
     \<Rightarrow> Ref \<Rightarrow> snapshot_error + Snapshot" where
  "Resolve getSnapshot getContent datasetParent ref =
     (case getSnapshot (ref_Namespace ref) (ref_Name ref) of
        None \<Rightarrow> Inl GetSnapshot
      | Some vs \<Rightarrow> resolveSnapshot getContent datasetParent vs)"

definition isNewer :: "VolumeSnapshot \<Rightarrow> VolumeSnapshot \<Rightarrow> bool" where
  "isNewer candidate current =
     (let candidateTime = the (vs_CreationTime candidate); currentTime = the (vs_CreationTime current) in
      if candidateTime \<noteq> currentTime then candidateTime > currentTime
      else vs_Name candidate > vs_Name current)"

definition usable_snapshot :: "VolumeSnapshot \<Rightarrow> bool" where
  "usable_snapshot vs \<longleftrightarrow> vs_Ready vs = Some True \<and> vs_CreationTime vs \<noteq> None"

definition pvc_key :: "VolumeSnapshot \<Rightarrow> string" where
  "pvc_key vs = vs_Namespace vs @ ''/'' @ (case vs_PVC vs of Some p \<Rightarrow> p | None \<Rightarrow> [])"

text \<open>
  The scan: \<open>newest\<close> maps a key to the index of its newest ready snapshot so far, or to
  \<open>None\<close> (the code's \<open>-1\<close>) when none was ready; \<open>order\<close> lists the keys as first met.
\<close>

definition newest_takes :: "VolumeSnapshot list \<Rightarrow> (string \<rightharpoonup> nat option) \<Rightarrow> VolumeSnapshot \<Rightarrow> bool" where
  "newest_takes all newest vs \<longleftrightarrow> usable_snapshot vs
     \<and> (case the (newest (pvc_key vs)) of None \<Rightarrow> True | Some current \<Rightarrow> isNewer vs (all ! current))"

fun newest_scan ::
  "VolumeSnapshot list \<Rightarrow> nat \<Rightarrow> string list \<Rightarrow> (string \<rightharpoonup> nat option) \<Rightarrow> VolumeSnapshot list
     \<Rightarrow> group_error + string list \<times> (string \<rightharpoonup> nat option)" where
  "newest_scan all index order newest [] = Inr (order, newest)"
| "newest_scan all index order newest (vs # rest) =
     (if vs_PVC vs = None \<or> vs_PVC vs = Some []
      then Inl (NoSourcePVC (vs_Namespace vs) (vs_Name vs))
      else
        let key = pvc_key vs;
            order1 = (if newest key = None then order @ [key] else order);
            newest1 = (if newest key = None then newest(key \<mapsto> None) else newest)
        in newest_scan all (Suc index) order1
             (if newest_takes all newest1 vs then newest1(key \<mapsto> Some index) else newest1) rest)"

definition newestPerPVC ::
  "VolumeSnapshot list \<Rightarrow> group_error + VolumeSnapshot list \<times> string list" where
  "newestPerPVC volumeSnapshots =
     bindE (newest_scan volumeSnapshots 0 [] Map.empty volumeSnapshots) (\<lambda>(order, newest).
       let kept = List.map_filter (\<lambda>key. the (newest key)) order;
           unready = filter (\<lambda>key. the (newest key) = None) order
       in Inr (map (\<lambda>index. volumeSnapshots ! index) (sort kept), unready))"

definition ResolveGroup ::
  "(string \<Rightarrow> string \<Rightarrow> VolumeSnapshot list option) \<Rightarrow> (string \<Rightarrow> VolumeSnapshotContent option) \<Rightarrow> string
     \<Rightarrow> Ref \<Rightarrow> group_error + Group" where
  "ResolveGroup listSnapshots getContent datasetParent ref =
     (case listSnapshots (ref_Namespace ref) (ref_LabelSelector ref) of
        None \<Rightarrow> Inl ListFailed
      | Some volumeSnapshots \<Rightarrow>
          if volumeSnapshots = [] then Inl (NoMatch (ref_LabelSelector ref))
          else bindE
            (if ref_NewestPerPVC ref then
               bindE (newestPerPVC volumeSnapshots) (\<lambda>(selected, unready).
                 if selected = [] then Inl (NoReadyMatch (ref_LabelSelector ref))
                 else Inr (selected, unready))
             else Inr (volumeSnapshots, []))
            (\<lambda>(selected, unready).
               bindE (mapE (\<lambda>vs. case resolveSnapshot getContent datasetParent vs of
                               Inl e \<Rightarrow> Inl (Member e) | Inr s \<Rightarrow> Inr s) selected)
                 (\<lambda>members. Inr \<lparr> gr_Members = members, gr_UnreadyPVCs = unready \<rparr>)))"

section \<open>PersistentVolumeClaims\<close>

definition ListClaims ::
  "(string \<Rightarrow> string \<Rightarrow> PersistentVolumeClaim list option) \<Rightarrow> string \<Rightarrow> string
     \<Rightarrow> claim_error + ClaimRef list" where
  "ListClaims listClaims namespace labelSelector =
     (case listClaims namespace labelSelector of
        None \<Rightarrow> Inl (ClaimAPI labelSelector)
      | Some claims \<Rightarrow>
          if claims = [] then Inl (ErrNoClaims labelSelector)
          else Inr (sort_key fst (sort_key snd (map (\<lambda>c. (pvc_Namespace c, pvc_Name c)) claims))))"

definition handle_first_char :: "char \<Rightarrow> bool" where
  "handle_first_char c \<longleftrightarrow> (CHR ''A'' \<le> c \<and> c \<le> CHR ''Z'') \<or> (CHR ''a'' \<le> c \<and> c \<le> CHR ''z'')
     \<or> (CHR ''0'' \<le> c \<and> c \<le> CHR ''9'') \<or> c = CHR ''_'' \<or> c = CHR '':''"

definition handleComponentPattern :: "string \<Rightarrow> bool" where
  "handleComponentPattern s \<longleftrightarrow> s \<noteq> [] \<and> handle_first_char (hd s)
     \<and> (\<forall>c \<in> set (tl s). handle_first_char c \<or> c = CHR ''.'' \<or> c = CHR ''-'')"

definition validVolumeHandle :: "string \<Rightarrow> bool" where
  "validVolumeHandle handle \<longleftrightarrow> (\<forall>component \<in> set (split_on (CHR ''/'') handle). handleComponentPattern component)"

definition ResolveClaim ::
  "(string \<Rightarrow> string \<Rightarrow> PersistentVolumeClaim option) \<Rightarrow> (string \<Rightarrow> PersistentVolume option)
     \<Rightarrow> string \<Rightarrow> string \<Rightarrow> ClaimRef \<Rightarrow> claim_error + Claim" where
  "ResolveClaim getClaim getVolume datasetParent driver ref =
     (let ident = fst ref @ ''/'' @ snd ref in
      case getClaim (fst ref) (snd ref) of
        None \<Rightarrow> Inl (ClaimAPI ident)
      | Some claim \<Rightarrow>
          if pvc_Phase claim \<noteq> ''Bound'' \<or> pvc_VolumeName claim = [] then Inl (ErrUnsupportedClaim ident)
          else (case getVolume (pvc_VolumeName claim) of
              None \<Rightarrow> Inl (ClaimAPI ident)
            | Some volume \<Rightarrow>
                if pv_ClaimRef volume \<noteq> Some (pvc_Namespace claim, pvc_Name claim, pvc_UID claim)
                then Inl (ErrUnsupportedClaim ident)
                else (case pv_CSI volume of
                    None \<Rightarrow> Inl (ErrUnsupportedClaim ident)
                  | Some (csi_driver, handle) \<Rightarrow>
                      if csi_driver \<noteq> driver then Inl (ErrUnsupportedClaim ident)
                      else if \<not> validVolumeHandle handle then Inl (ErrUnsupportedClaim ident)
                      else Inr \<lparr> cl_Namespace = pvc_Namespace claim, cl_Name = pvc_Name claim,
                             cl_Volume = pv_Name volume,
                             cl_Dataset = absoluteDataset datasetParent handle \<rparr>)))"

section \<open>Ownership\<close>

definition managedResourceProperty :: string where
  "managedResourceProperty = ''democratic-csi:managed_resource''"

datatype verify_dataset_error = ReadProperty string | NotManaged string string

definition k8s_Verify ::
  "(string \<Rightarrow> string \<Rightarrow> string option) \<Rightarrow> Snapshot \<Rightarrow> verify_dataset_error + unit" where
  "k8s_Verify userProperty snapshot =
     (let path = Snapshot_ZFSPath snapshot in
      case userProperty path managedResourceProperty of
        None \<Rightarrow> Inl (ReadProperty path)
      | Some managed \<Rightarrow> if managed \<noteq> ''true'' then Inl (NotManaged path managed) else Inr ())"

definition VerifyDataset ::
  "(string \<Rightarrow> string \<Rightarrow> string option) \<Rightarrow> string \<Rightarrow> verify_dataset_error + unit" where
  "VerifyDataset userProperty dataset =
     (case userProperty dataset managedResourceProperty of
        None \<Rightarrow> Inl (ReadProperty dataset)
      | Some managed \<Rightarrow> if managed \<noteq> ''true'' then Inl (NotManaged dataset managed) else Inr ())"

section \<open>The newest snapshot of every claim\<close>

definition scan_inv ::
  "VolumeSnapshot list \<Rightarrow> nat \<Rightarrow> string list \<Rightarrow> (string \<rightharpoonup> nat option) \<Rightarrow> bool" where
  "scan_inv all i order newest \<longleftrightarrow> distinct order \<and> dom newest = set order
     \<and> set order = pvc_key ` set (take i all)
     \<and> (\<forall>k. newest k = Some None \<longrightarrow> (\<forall>j < i. j < length all \<and> pvc_key (all ! j) = k \<longrightarrow> \<not> usable_snapshot (all ! j)))
     \<and> (\<forall>k c. newest k = Some (Some c) \<longrightarrow> c < i \<and> c < length all \<and> pvc_key (all ! c) = k \<and> usable_snapshot (all ! c)
          \<and> (\<forall>j < i. j < length all \<and> pvc_key (all ! j) = k \<and> usable_snapshot (all ! j)
               \<longrightarrow> \<not> isNewer (all ! j) (all ! c)))"

lemma isNewer_irrefl: "\<not> isNewer a a"
  by (simp add: isNewer_def)

lemma isNewer_step: "\<not> isNewer x c \<Longrightarrow> isNewer v c \<Longrightarrow> \<not> isNewer x v"
  by (auto simp: isNewer_def Let_def split: if_splits)

lemma scan_inv_step:
  assumes inv: "scan_inv all i order newest" and i: "i < length all" and vs: "vs = all ! i"
    and key: "key = pvc_key vs"
    and order1: "order1 = (if newest key = None then order @ [key] else order)"
    and newest1: "newest1 = (if newest key = None then newest(key \<mapsto> None) else newest)"
  shows "scan_inv all (Suc i) order1
    (if newest_takes all newest1 vs then newest1(key \<mapsto> Some i) else newest1)"
proof -
  let ?n = "if newest_takes all newest1 vs then newest1(key \<mapsto> Some i) else newest1"
  note inv' = inv [unfolded scan_inv_def]
  have tk: "set (take (Suc i) all) = insert vs (set (take i all))"
    using i vs by (simp add: take_Suc_conv_app_nth)
  have kn: "newest key = None \<longleftrightarrow> key \<notin> set order" using inv' by (metis domIff)
  have "set order1 = insert key (set order)" by (auto simp: order1 kn)
  moreover have "dom ?n = insert key (dom newest)" by (auto simp: newest1)
  moreover have "distinct order1" using inv' by (simp add: order1 kn)
  ultimately have d: "distinct order1" "dom ?n = set order1"
      "set order1 = pvc_key ` set (take (Suc i) all)"
    using inv' by (simp_all add: tk key)
  have less: "j < Suc i \<longleftrightarrow> j < i \<or> j = i" for j by auto
  have n1: "newest1 k = Some None \<longrightarrow>
      (\<forall>j < i. j < length all \<and> pvc_key (all ! j) = k \<longrightarrow> \<not> usable_snapshot (all ! j))" for k
  proof (cases "newest key = None \<and> k = key")
    case True
    then have "key \<notin> pvc_key ` set (take i all)" using inv' by (metis domIff)
    moreover have "all ! j \<in> set (take i all)" if "j < i" "j < length all" for j
      using that nth_mem [of j "take i all"] by simp
    ultimately show ?thesis using True by blast
  next
    case False
    then show ?thesis using inv' by (auto simp: newest1)
  qed
  have n2: "newest1 k = Some (Some c) \<longrightarrow> newest k = Some (Some c)" for k c
    by (auto simp: newest1)
  have "?n k = Some None \<longrightarrow>
      (\<forall>j < Suc i. j < length all \<and> pvc_key (all ! j) = k \<longrightarrow> \<not> usable_snapshot (all ! j))" for k
    using n1 [of k] by (auto simp: less newest_takes_def key vs split: option.splits)
  moreover have "?n k = Some (Some c) \<longrightarrow> c < Suc i \<and> c < length all \<and> pvc_key (all ! c) = k
      \<and> usable_snapshot (all ! c) \<and> (\<forall>j < Suc i. j < length all \<and> pvc_key (all ! j) = k
          \<and> usable_snapshot (all ! j) \<longrightarrow> \<not> isNewer (all ! j) (all ! c))" for k c
  proof
    assume k: "?n k = Some (Some c)"
    show "c < Suc i \<and> c < length all \<and> pvc_key (all ! c) = k
      \<and> usable_snapshot (all ! c) \<and> (\<forall>j < Suc i. j < length all \<and> pvc_key (all ! j) = k
          \<and> usable_snapshot (all ! j) \<longrightarrow> \<not> isNewer (all ! j) (all ! c))"
    proof (cases "newest_takes all newest1 vs \<and> k = key")
      case True
      then have c: "c = i" using k by simp
      have "\<not> isNewer (all ! j) vs"
        if j: "j < i" "j < length all" "pvc_key (all ! j) = key" "usable_snapshot (all ! j)" for j
      proof (cases "the (newest1 key)")
        case None
        then have "newest1 key = Some None"
          using newest1 by (cases "newest1 key") (auto split: if_splits)
        then show ?thesis using n1 [of key] j by blast
      next
        case (Some current)
        then have "newest1 key = Some (Some current)"
          using newest1 by (cases "newest1 key") (auto split: if_splits)
        then have "newest key = Some (Some current)" by (rule n2 [THEN mp])
        then have "\<not> isNewer (all ! j) (all ! current)" using inv' j by blast
        moreover have "isNewer vs (all ! current)" using True Some by (simp add: newest_takes_def key)
        ultimately show ?thesis by (rule isNewer_step)
      qed
      then show ?thesis using True c i vs key isNewer_irrefl by (auto simp: less newest_takes_def)
    next
      case False
      then have k1: "newest1 k = Some (Some c)" using k by (auto split: if_splits)
      then have old: "newest k = Some (Some c)" by (rule n2 [THEN mp])
      have "\<not> isNewer vs (all ! c)" if "pvc_key vs = k" "usable_snapshot vs"
        using False that k1 by (auto simp: newest_takes_def key)
      then show ?thesis using inv' old vs by (auto simp: less)
    qed
  qed
  ultimately show ?thesis using d by (simp only: scan_inv_def) blast
qed

lemma newest_scan_inv:
  assumes "newest_scan all i order newest rest = Inr (order', newest')"
    and "scan_inv all i order newest" and "rest = drop i all" and "i \<le> length all"
  shows "scan_inv all (length all) order' newest'"
  using assms
proof (induction rest arbitrary: i order newest)
  case Nil
  then show ?case by simp
next
  case (Cons vs rest)
  then have i: "i < length all" and vs: "vs = all ! i" "rest = drop (Suc i) all"
    by (metis drop_eq_Nil le_neq_implies_less list.distinct(1),
        metis Cons_nth_drop_Suc drop_eq_Nil le_less list.inject list.simps(3),
        metis Cons.prems(3) drop_Suc list.sel(3) tl_drop)
  have "\<not> (vs_PVC vs = None \<or> vs_PVC vs = Some [])" using Cons.prems(1) by (auto split: if_splits)
  from Cons.prems(1) [unfolded newest_scan.simps Let_def if_not_P [OF this]]
  show ?case
    using scan_inv_step [OF Cons.prems(2) i vs(1) refl refl refl] vs(2) i by (intro Cons.IH) auto
qed

lemma newest_scan_total:
  assumes "newest_scan all 0 [] Map.empty all = Inr (order, newest)"
  shows "scan_inv all (length all) order newest"
  using assms by (rule newest_scan_inv) (auto simp: scan_inv_def)

text \<open>The indices kept by the selection.\<close>

lemma kept_indices:
  assumes inv: "scan_inv all (length all) order newest"
  defines "kept \<equiv> List.map_filter (\<lambda>key. the (newest key)) order"
  shows "distinct kept" "\<forall>c \<in> set kept. c < length all"
    "\<forall>c \<in> set kept. newest (pvc_key (all ! c)) = Some (Some c)"
    "\<forall>k c. newest k = Some (Some c) \<longrightarrow> c \<in> set kept"
proof -
  note inv' = inv [unfolded scan_inv_def]
  have dom: "k \<in> set order \<longleftrightarrow> newest k \<noteq> None" for k using inv' by (metis domIff)
  have setk: "set kept = {c. \<exists>k. newest k = Some (Some c)}"
    using dom by (force simp: kept_def map_filter_def)
  show "\<forall>c \<in> set kept. c < length all" "\<forall>c \<in> set kept. newest (pvc_key (all ! c)) = Some (Some c)"
    "\<forall>k c. newest k = Some (Some c) \<longrightarrow> c \<in> set kept"
    using inv' by (auto simp: setk)
  have inj: "inj_on (\<lambda>k. the (the (newest k))) {k \<in> set order. the (newest k) \<noteq> None}"
  proof (rule inj_onI)
    fix a b
    assume "a \<in> {k \<in> set order. the (newest k) \<noteq> None}" "b \<in> {k \<in> set order. the (newest k) \<noteq> None}"
      and eq: "the (the (newest a)) = the (the (newest b))"
    then obtain x y where "newest a = Some (Some x)" "newest b = Some (Some y)" by (auto simp: dom)
    then show "a = b" using eq inv' by (metis option.sel)
  qed
  have "distinct (map (\<lambda>k. the (the (newest k))) (filter (\<lambda>k. the (newest k) \<noteq> None) order))"
    using inv' inj by (auto simp: distinct_map)
  moreover have "kept = map (\<lambda>k. the (the (newest k))) (filter (\<lambda>k. the (newest k) \<noteq> None) order)"
    unfolding kept_def map_filter_def o_def ..
  ultimately show "distinct kept" by simp
qed

section \<open>Properties\<close>

text \<open>\<open>newestPerPVC\<close> keeps exactly the newest ready snapshot of every claim. When it
  succeeds, the selection is in list order and has one snapshot per claim; each selected snapshot
  is ready and no other ready snapshot of its claim is newer; every claim with a ready snapshot is
  represented; and the claims reported unready are exactly those of the list with none.\<close>

theorem newest_per_pvc_selects:
  assumes "newestPerPVC snapshots = Inr (selected, unready)"
  shows "(\<exists>I. sorted I \<and> distinct I \<and> (\<forall>i \<in> set I. i < length snapshots)
           \<and> selected = map (\<lambda>i. snapshots ! i) I)
    \<and> distinct (map pvc_key selected)
    \<and> (\<forall>s \<in> set selected. usable_snapshot s
         \<and> (\<forall>s' \<in> set snapshots. pvc_key s' = pvc_key s \<and> usable_snapshot s' \<longrightarrow> \<not> isNewer s' s))
    \<and> (\<forall>s \<in> set snapshots. usable_snapshot s \<longrightarrow> pvc_key s \<in> pvc_key ` set selected)
    \<and> set unready = pvc_key ` set snapshots - pvc_key ` set selected"
proof -
  obtain order newest where scan: "newest_scan snapshots 0 [] Map.empty snapshots = Inr (order, newest)"
    and sel: "selected = map (\<lambda>i. snapshots ! i) (sort (List.map_filter (\<lambda>key. the (newest key)) order))"
    and un: "unready = filter (\<lambda>key. the (newest key) = None) order"
    using assms by (auto simp: newestPerPVC_def run_simps Let_def)
  note inv = newest_scan_total [OF scan]
  define kept where "kept = List.map_filter (\<lambda>key. the (newest key)) order"
  note k = kept_indices [OF inv, folded kept_def]
  note inv' = inv [unfolded scan_inv_def]
  have dom: "key \<in> set order \<longleftrightarrow> newest key \<noteq> None" for key using inv' by (metis domIff)
  have keys: "set order = pvc_key ` set snapshots" using inv' by simp
  have "inj_on (\<lambda>i. pvc_key (snapshots ! i)) (set (sort kept))"
    using k(3) by (intro inj_onI) (metis option.inject set_sort)
  then have dist: "distinct (map pvc_key selected)"
    using k(1) by (simp add: sel kept_def [symmetric] distinct_map o_def)
  have best: "usable_snapshot s \<and> (\<forall>s' \<in> set snapshots. pvc_key s' = pvc_key s \<and> usable_snapshot s'
      \<longrightarrow> \<not> isNewer s' s)" if "s \<in> set selected" for s
  proof -
    from that obtain c where c: "c \<in> set kept" "s = snapshots ! c" by (auto simp: sel kept_def)
    then have "newest (pvc_key s) = Some (Some c)" using k(3) by simp
    then show ?thesis using inv' c(2) by (metis in_set_conv_nth)
  qed
  have represented: "pvc_key s \<in> pvc_key ` set selected" if s: "s \<in> set snapshots" "usable_snapshot s" for s
  proof -
    have "newest (pvc_key s) \<noteq> None" using s(1) keys dom by auto
    moreover have "newest (pvc_key s) \<noteq> Some None" using inv' s by (metis in_set_conv_nth)
    ultimately obtain c where c: "newest (pvc_key s) = Some (Some c)" by auto
    then have "c \<in> set kept" using k(4) by blast
    moreover have "pvc_key (snapshots ! c) = pvc_key s" using inv' c by blast
    ultimately show ?thesis by (auto simp: sel kept_def [symmetric] intro: rev_image_eqI)
  qed
  have "key \<in> set unready \<longleftrightarrow> key \<in> pvc_key ` set snapshots - pvc_key ` set selected" for key
  proof
    assume "key \<in> set unready"
    then have n: "newest key = Some None" "key \<in> set order" by (auto simp: un dom)
    then have "key \<notin> pvc_key ` set selected" using k(3) by (auto simp: sel kept_def [symmetric])
    then show "key \<in> pvc_key ` set snapshots - pvc_key ` set selected" using n(2) keys by blast
  next
    assume a: "key \<in> pvc_key ` set snapshots - pvc_key ` set selected"
    then have o: "key \<in> set order" using keys by blast
    have "newest key \<noteq> Some (Some c)" for c
    proof
      assume c: "newest key = Some (Some c)"
      then have "c \<in> set kept" "pvc_key (snapshots ! c) = key" using k(4) inv' by blast+
      then have "key \<in> pvc_key ` set selected"
        by (auto simp: sel kept_def [symmetric] intro: rev_image_eqI)
      then show False using a by blast
    qed
    then have "newest key = Some None" using o dom by (metis not_None_eq)
    then show "key \<in> set unready" using o by (simp add: un)
  qed
  then have "set unready = pvc_key ` set snapshots - pvc_key ` set selected" by blast
  moreover have "\<exists>I. sorted I \<and> distinct I \<and> (\<forall>i \<in> set I. i < length snapshots)
      \<and> selected = map (\<lambda>i. snapshots ! i) I"
    using k(1,2) by (intro exI [of _ "sort kept"]) (simp add: sel kept_def)
  ultimately show ?thesis using dist best represented by blast
qed

text \<open>A claim resolves only to a dataset below the configured parent. Whenever
  \<open>ResolveClaim\<close> succeeds, the claim is bound, its volume is bound back to the same claim object
  and uses the expected driver, and the dataset is the parent followed by path components none of
  which is empty, \<open>.\<close>, \<open>..\<close>, an option, or contains a snapshot separator.\<close>

theorem resolve_claim_confined:
  assumes "ResolveClaim getClaim getVolume parent driver (ns, name) = Inr claim"
  shows "\<exists>c v handle. getClaim ns name = Some c \<and> pvc_Phase c = ''Bound''
    \<and> getVolume (pvc_VolumeName c) = Some v
    \<and> pv_ClaimRef v = Some (pvc_Namespace c, pvc_Name c, pvc_UID c) \<and> pv_CSI v = Some (driver, handle)
    \<and> cl_Dataset claim = absoluteDataset parent handle
    \<and> (\<forall>w \<in> set (split_on (CHR ''/'') handle). w \<notin> {[], ''.'', ''..''} \<and> hd w \<noteq> CHR ''-'')
    \<and> CHR ''@'' \<notin> set handle"
proof -
  obtain c v handle where cv: "getClaim ns name = Some c" "pvc_Phase c = ''Bound''"
    "getVolume (pvc_VolumeName c) = Some v" "pv_CSI v = Some (driver, handle)"
    "pv_ClaimRef v = Some (pvc_Namespace c, pvc_Name c, pvc_UID c)"
    "cl_Dataset claim = absoluteDataset parent handle" and valid: "validVolumeHandle handle"
    using assms by (auto simp: ResolveClaim_def Let_def split: option.splits if_splits)
  have first: "\<not> handle_first_char (CHR ''.'')" "\<not> handle_first_char (CHR ''-'')"
      "\<not> handle_first_char (CHR ''@'')"
    by (simp_all add: handle_first_char_def less_eq_char_def)
  have comp: "handleComponentPattern w" if "w \<in> set (split_on (CHR ''/'') handle)" for w
    using valid that by (simp add: validVolumeHandle_def)
  have "w \<notin> {[], ''.'', ''..''} \<and> hd w \<noteq> CHR ''-''" if "w \<in> set (split_on (CHR ''/'') handle)" for w
    using comp [OF that] first by (auto simp: handleComponentPattern_def)
  moreover have "CHR ''@'' \<notin> set handle"
  proof
    assume "CHR ''@'' \<in> set handle"
    then obtain w where "w \<in> set (split_on (CHR ''/'') handle)" "CHR ''@'' \<in> set w"
      using split_on_covers [of "CHR ''@''" handle "CHR ''/''"] by auto
    then have "handleComponentPattern w" "CHR ''@'' \<in> set w" using comp by simp_all
    then show False using first by (cases w) (auto simp: handleComponentPattern_def)
  qed
  ultimately show ?thesis using cv by blast
qed

definition example_snapshots :: "VolumeSnapshot list" where
  "example_snapshots = map (\<lambda>(name, pvc, ready, time). \<lparr> vs_Namespace = ''ns'', vs_Name = name,
       vs_PVC = Some pvc, vs_BoundContent = Some ''c'', vs_Ready = Some ready, vs_CreationTime = Some time \<rparr>)
     [(''a'', ''p'', True, 5), (''b'', ''q'', False, 9), (''c'', ''p'', True, 7), (''d'', ''p'', False, 8)]"

lemma newest_per_pvc_selects_witness:
  "newestPerPVC example_snapshots = Inr ([example_snapshots ! 2], [''ns/q''])
     \<and> usable_snapshot (example_snapshots ! 2)"
proof -
  have n: "newestPerPVC example_snapshots = Inr ([example_snapshots ! 2], [''ns/q''])"
    by code_simp
  then show ?thesis using newest_per_pvc_selects [OF n] by simp
qed

definition example_claim :: PersistentVolumeClaim where
  "example_claim = \<lparr> pvc_Namespace = ''media'', pvc_Name = ''films'', pvc_UID = ''u1'',
     pvc_Phase = ''Bound'', pvc_VolumeName = ''pv1'' \<rparr>"

definition example_volume :: PersistentVolume where
  "example_volume = \<lparr> pv_Name = ''pv1'', pv_ClaimRef = Some (''media'', ''films'', ''u1''),
     pv_CSI = Some (''org.democratic-csi.nfs'', ''pvc-12'') \<rparr>"

lemma resolve_claim_confined_witness:
  "\<exists>handle. absoluteDataset ''tank/k8s'' ''pvc-12'' = absoluteDataset ''tank/k8s'' handle
     \<and> CHR ''@'' \<notin> set handle"
proof -
  have "ResolveClaim (\<lambda>ns name. Some example_claim) (\<lambda>name. Some example_volume) ''tank/k8s''
      ''org.democratic-csi.nfs'' (''media'', ''films'')
    = Inr \<lparr> cl_Namespace = ''media'', cl_Name = ''films'', cl_Volume = ''pv1'',
        cl_Dataset = absoluteDataset ''tank/k8s'' ''pvc-12'' \<rparr>"
    by code_simp
  from resolve_claim_confined [OF this] show ?thesis by auto
qed

end
