(* ===== verification/Zfs.thy ===== *)
theory Zfs
  imports GoStrings
begin

text \<open>
  The wrapper over the \<open>zfs\<close> command line (\<open>pkg/zfs/zfs.go\<close>). The binary is a parameter:
  \<open>run\<close> takes the state of the pools and an argument list to what the command printed and
  whether it succeeded, and the state after it. The wrapper's argument lists, its reading of the
  output and its tolerance of particular failures are modelled.
\<close>

record exec_result =
  ex_out :: string
  ex_err :: string
  ex_ok :: bool

type_synonym 'z zfs_cli = "'z \<Rightarrow> string list \<Rightarrow> exec_result \<times> 'z"

text \<open>
  An error keeps the command and the trimmed standard error it is formatted from; \<open>NotExist\<close> is
  the error wrapping \<open>ErrNotExist\<close>.
\<close>

datatype zfs_error =
    CommandFailed "string list" string
  | NotExist "string list" string
  | ParseFailed string
  | RefusedDestroy string

definition ErrNotExist :: string where "ErrNotExist = ''dataset does not exist''"

text \<open>\<open>strings.Contains(err.Error(), ...)\<close> on the text of such an error.\<close>

definition joined :: "string list \<Rightarrow> string" where
  "joined args = join_with '' '' (''zfs'' # args)"

fun error_mentions :: "zfs_error \<Rightarrow> string \<Rightarrow> bool" where
  "error_mentions (CommandFailed args msg) s \<longleftrightarrow> Contains (joined args) s \<or> Contains msg s"
| "error_mentions (NotExist args msg) s \<longleftrightarrow>
     Contains (joined args) s \<or> Contains ErrNotExist s \<or> Contains msg s"
| "error_mentions (ParseFailed text) s \<longleftrightarrow> Contains text s"
| "error_mentions (RefusedDestroy text) s \<longleftrightarrow> Contains text s"

section \<open>Parsing\<close>

definition newline :: char where "newline = CHR 0x0A"

definition tab :: char where "tab = CHR 0x09"

definition parseMounted :: "string \<Rightarrow> zfs_error + bool" where
  "parseMounted out =
     (let v = TrimSpace out in
      if v = ''yes'' then Inr True else if v = ''no'' then Inr False else Inl (ParseFailed v))"

definition parseLogicalReferenced :: "string \<Rightarrow> zfs_error + int" where
  "parseLogicalReferenced out =
     (let line = TrimSpace out; fields = split_on tab line in
      if length fields < 3 then Inl (ParseFailed line)
      else (case ParseInt64 (fields ! 2) of
          None \<Rightarrow> Inl (ParseFailed (fields ! 2)) | Some v \<Rightarrow> Inr v))"

record SnapshotInfo =
  si_Name :: string
  si_Creation :: int
  si_CreateTXG :: int

fun parse_snapshot_lines :: "string \<Rightarrow> string list \<Rightarrow> zfs_error + SnapshotInfo list" where
  "parse_snapshot_lines dataset [] = Inr []"
| "parse_snapshot_lines dataset (line # rest) =
     (if line = [] then parse_snapshot_lines dataset rest
      else
        let fields = split_on tab line in
        if length fields \<noteq> 3 then Inl (ParseFailed line)
        else
          let (owner, name, found) = Cut (fields ! 0) (CHR ''@'') in
          if \<not> found \<or> owner \<noteq> dataset then parse_snapshot_lines dataset rest
          else (case ParseInt64 (fields ! 1) of
              None \<Rightarrow> Inl (ParseFailed (fields ! 0))
            | Some creation \<Rightarrow> (case ParseUint64 (fields ! 2) of
                None \<Rightarrow> Inl (ParseFailed (fields ! 0))
              | Some txg \<Rightarrow>
                  bindE (parse_snapshot_lines dataset rest) (\<lambda>infos.
                    Inr (\<lparr> si_Name = name, si_Creation = creation, si_CreateTXG = txg \<rparr> # infos)))))"

definition parseSnapshots :: "string \<Rightarrow> string \<Rightarrow> zfs_error + SnapshotInfo list" where
  "parseSnapshots dataset out = parse_snapshot_lines dataset (split_on newline out)"

definition parseHolds :: "string \<Rightarrow> string list" where
  "parseHolds out =
     List.map_filter (\<lambda>line.
       if line = [] then None
       else let fields = split_on tab line in
            if length fields < 2 then None else Some (fields ! 1)) (split_on newline out)"

definition parse_property_line :: "string \<Rightarrow> (string \<rightharpoonup> string) \<Rightarrow> (string \<rightharpoonup> string)" where
  "parse_property_line line properties =
     (if line = [] then properties
      else
        let (name, v, found) = Cut line tab in
        if \<not> found \<or> \<not> ContainsChar name (CHR '':'') then properties else properties(name \<mapsto> v))"

definition parseUserProperties :: "string \<Rightarrow> string \<rightharpoonup> string" where
  "parseUserProperties out =
     foldl (\<lambda>properties line. parse_property_line line properties) Map.empty (split_on newline out)"

type_synonym PropertyRecord = "string \<times> string"

definition parsePropertyRecords :: "string \<Rightarrow> PropertyRecord list" where
  "parsePropertyRecords out =
     List.map_filter (\<lambda>line.
       let (name, v, found) = Cut line tab in
       if \<not> found \<or> name = [] then None else Some (name, v)) (split_on newline out)"

record Filesystem =
  fs_Name :: string
  fs_Mountpoint :: string
  fs_Mounted :: bool

fun parse_filesystem_lines :: "string list \<Rightarrow> zfs_error + Filesystem list" where
  "parse_filesystem_lines [] = Inr []"
| "parse_filesystem_lines (line # rest) =
     (if line = [] then parse_filesystem_lines rest
      else
        let fields = split_on tab line in
        if length fields \<noteq> 3 then Inl (ParseFailed line)
        else bindE (parse_filesystem_lines rest) (\<lambda>fss.
               Inr (\<lparr> fs_Name = fields ! 0, fs_Mountpoint = fields ! 1,
                      fs_Mounted = (fields ! 2 = ''yes'') \<rparr> # fss)))"

definition parseFilesystems :: "string \<Rightarrow> zfs_error + Filesystem list" where
  "parseFilesystems out = parse_filesystem_lines (split_on newline out)"

text \<open>The mounted filesystem whose mountpoint is the longest prefix of the path.\<close>

definition mount_contains :: "string \<Rightarrow> string \<Rightarrow> bool" where
  "mount_contains mount path \<longleftrightarrow> path = mount \<or> prefix (TrimSuffix mount ''/'' @ ''/'') path"

fun containing_loop :: "string \<Rightarrow> string \<Rightarrow> int \<Rightarrow> Filesystem list \<Rightarrow> string" where
  "containing_loop path best bestLen [] = best"
| "containing_loop path best bestLen (f # fs) =
     (if \<not> fs_Mounted f \<or> \<not> IsAbs (fs_Mountpoint f) then containing_loop path best bestLen fs
      else
        let mount = path_Clean (fs_Mountpoint f) in
        if \<not> mount_contains mount path then containing_loop path best bestLen fs
        else if int (length mount) > bestLen
        then containing_loop path (fs_Name f) (int (length mount)) fs
        else containing_loop path best bestLen fs)"

definition ContainingFilesystem :: "Filesystem list \<Rightarrow> string \<Rightarrow> string" where
  "ContainingFilesystem filesystems path = containing_loop (path_Clean path) [] (- 1) filesystems"

section \<open>Commands\<close>

definition fail_with :: "string list \<Rightarrow> exec_result \<Rightarrow> zfs_error" where
  "fail_with args r = CommandFailed args (TrimSpace (ex_err r))"

definition LogicalReferenced :: "'z zfs_cli \<Rightarrow> 'z \<Rightarrow> string \<Rightarrow> (zfs_error + int) \<times> 'z" where
  "LogicalReferenced run z dataset =
     (let args = [''get'', ''-Hp'', ''logicalreferenced'', dataset]; (r, z') = run z args in
      (if ex_ok r then parseLogicalReferenced (ex_out r) else Inl (fail_with args r), z'))"

definition Mountpoint :: "'z zfs_cli \<Rightarrow> 'z \<Rightarrow> string \<Rightarrow> (zfs_error + string) \<times> 'z" where
  "Mountpoint run z dataset =
     (let args = [''get'', ''-Hp'', ''-o'', ''value'', ''mountpoint'', dataset]; (r, z') = run z args;
          mountpoint = TrimSpace (ex_out r) in
      (if \<not> ex_ok r then Inl (fail_with args r)
       else if mountpoint = [] then Inl (ParseFailed dataset) else Inr mountpoint, z'))"

definition Mounted :: "'z zfs_cli \<Rightarrow> 'z \<Rightarrow> string \<Rightarrow> (zfs_error + bool) \<times> 'z" where
  "Mounted run z dataset =
     (let args = [''get'', ''-Hp'', ''-o'', ''value'', ''mounted'', dataset]; (r, z') = run z args in
      (if ex_ok r then parseMounted (ex_out r) else Inl (fail_with args r), z'))"

definition UserProperties :: "'z zfs_cli \<Rightarrow> 'z \<Rightarrow> string \<Rightarrow> (zfs_error + (string \<rightharpoonup> string)) \<times> 'z" where
  "UserProperties run z dataset =
     (let args = [''get'', ''-Hp'', ''-o'', ''property,value'', ''all'', dataset]; (r, z') = run z args in
      (if ex_ok r then Inr (parseUserProperties (ex_out r)) else Inl (fail_with args r), z'))"

definition user_property_args :: "string \<Rightarrow> string \<Rightarrow> string list" where
  "user_property_args dataset property = [''get'', ''-Hp'', ''-o'', ''value'', property, dataset]"

definition UserProperty :: "'z zfs_cli \<Rightarrow> 'z \<Rightarrow> string \<Rightarrow> string \<Rightarrow> (zfs_error + string) \<times> 'z" where
  "UserProperty run z dataset property =
     (let args = user_property_args dataset property; (r, z') = run z args in
      (if ex_ok r then Inr (TrimSpace (ex_out r)) else Inl (fail_with args r), z'))"

definition Snapshots :: "'z zfs_cli \<Rightarrow> 'z \<Rightarrow> string \<Rightarrow> (zfs_error + SnapshotInfo list) \<times> 'z" where
  "Snapshots run z dataset =
     (let args = [''list'', ''-Hp'', ''-t'', ''snapshot'', ''-d'', ''1'', ''-s'', ''createtxg'', ''-o'',
            ''name,creation,createtxg'', dataset]; (r, z') = run z args in
      (if ex_ok r then parseSnapshots dataset (ex_out r) else Inl (fail_with args r), z'))"

definition Hold :: "'z zfs_cli \<Rightarrow> 'z \<Rightarrow> string \<Rightarrow> string \<Rightarrow> (zfs_error + unit) \<times> 'z" where
  "Hold run z tag snapshot =
     (let args = [''hold'', tag, snapshot]; (r, z') = run z args; msg = TrimSpace (ex_err r) in
      (if ex_ok r then Inr ()
       else if Contains msg ''tag already exists'' then Inr ()
       else if Contains msg ErrNotExist then Inl (NotExist args msg)
       else Inl (CommandFailed args msg), z'))"

definition Release :: "'z zfs_cli \<Rightarrow> 'z \<Rightarrow> string \<Rightarrow> string \<Rightarrow> (zfs_error + unit) \<times> 'z" where
  "Release run z tag snapshot =
     (let args = [''release'', tag, snapshot]; (r, z') = run z args; msg = TrimSpace (ex_err r) in
      (if ex_ok r then Inr ()
       else if Contains msg ''no such tag'' \<or> Contains msg ErrNotExist then Inr ()
       else Inl (CommandFailed args msg), z'))"

definition Holds :: "'z zfs_cli \<Rightarrow> 'z \<Rightarrow> string \<Rightarrow> (zfs_error + string list) \<times> 'z" where
  "Holds run z snapshot =
     (let args = [''holds'', ''-H'', snapshot]; (r, z') = run z args in
      (if ex_ok r then Inr (parseHolds (ex_out r)) else Inl (fail_with args r), z'))"

text \<open>\<open>CreateSnapshots\<close> with its properties as a list sorted by key, as the code sorts the map.\<close>

definition CreateSnapshots ::
  "'z zfs_cli \<Rightarrow> 'z \<Rightarrow> (string \<times> string) list \<Rightarrow> string list \<Rightarrow> (zfs_error + unit) \<times> 'z" where
  "CreateSnapshots run z properties snapshots =
     (if snapshots = [] then (Inr (), z)
      else
        let args = ''snapshot''
              # concat (map (\<lambda>(key, v). [''-o'', key @ ''='' @ v]) (sort_key fst properties)) @ snapshots;
            (r, z') = run z args
        in (if ex_ok r then Inr () else Inl (fail_with args r), z'))"

definition destroyable :: "string \<Rightarrow> bool" where
  "destroyable snapshot \<longleftrightarrow>
     (let (dataset, name, found) = Cut snapshot (CHR ''@'') in
      found \<and> dataset \<noteq> [] \<and> name \<noteq> [] \<and> \<not> HasPrefix dataset ''-'' \<and> \<not> ContainsAny name ''@%,'')"

definition DestroySnapshot :: "'z zfs_cli \<Rightarrow> 'z \<Rightarrow> string \<Rightarrow> (zfs_error + unit) \<times> 'z" where
  "DestroySnapshot run z snapshot =
     (if \<not> destroyable snapshot then (Inl (RefusedDestroy snapshot), z)
      else
        let args = [''destroy'', snapshot]; (r, z') = run z args; msg = TrimSpace (ex_err r) in
        (if ex_ok r then Inr ()
         else if Contains msg ErrNotExist \<or> Contains msg ''could not find any snapshots'' then Inr ()
         else Inl (CommandFailed args msg), z'))"

definition Creation :: "'z zfs_cli \<Rightarrow> 'z \<Rightarrow> string \<Rightarrow> (zfs_error + int) \<times> 'z" where
  "Creation run z name =
     (let args = [''get'', ''-Hp'', ''-o'', ''value'', ''creation'', name]; (r, z') = run z args in
      (if \<not> ex_ok r then Inl (fail_with args r)
       else (case ParseInt64 (TrimSpace (ex_out r)) of
           None \<Rightarrow> Inl (ParseFailed name) | Some v \<Rightarrow> Inr v), z'))"

definition PropertySource :: "'z zfs_cli \<Rightarrow> 'z \<Rightarrow> string \<Rightarrow> string \<Rightarrow> (zfs_error + string) \<times> 'z" where
  "PropertySource run z name property =
     (let args = [''get'', ''-H'', ''-o'', ''source'', property, name]; (r, z') = run z args in
      (if ex_ok r then Inr (TrimSpace (ex_out r)) else Inl (fail_with args r), z'))"

definition LocalProperty ::
  "'z zfs_cli \<Rightarrow> 'z \<Rightarrow> string \<Rightarrow> string \<Rightarrow> string \<Rightarrow> (zfs_error + PropertyRecord list) \<times> 'z" where
  "LocalProperty run z property datasetType root =
     (let args = [''get'', ''-Hp'', ''-s'', ''local'', ''-t'', datasetType, ''-o'', ''name,value'']
            @ (if root \<noteq> [] then [''-r'', property, root] else [property]);
          (r, z') = run z args in
      (if ex_ok r then Inr (parsePropertyRecords (ex_out r)) else Inl (fail_with args r), z'))"

definition Filesystems :: "'z zfs_cli \<Rightarrow> 'z \<Rightarrow> (zfs_error + Filesystem list) \<times> 'z" where
  "Filesystems run z =
     (let args = [''list'', ''-Hp'', ''-t'', ''filesystem'', ''-o'', ''name,mountpoint,mounted''];
          (r, z') = run z args in
      (if ex_ok r then parseFilesystems (ex_out r) else Inl (fail_with args r), z'))"

section \<open>Command log\<close>

text \<open>A \<open>zfs\<close> binary whose calls and results are recorded, to state what was issued.\<close>

type_synonym 'z logged = "'z \<times> (string list \<times> exec_result) list"

definition logged :: "'z zfs_cli \<Rightarrow> 'z logged zfs_cli" where
  "logged run s args = (let (z, log) = s; (r, z') = run z args in (r, (z', log @ [(args, r)])))"

definition is_destroy :: "string list \<times> exec_result \<Rightarrow> bool" where
  "is_destroy entry \<longleftrightarrow> (case fst entry of a # _ \<Rightarrow> a = ''destroy'' | [] \<Rightarrow> False)"

section \<open>Round trip of the snapshot list\<close>

text \<open>What \<open>zfs list\<close> prints for a dataset's own snapshots, one tab-separated line each.\<close>

definition print_snapshot :: "string \<Rightarrow> SnapshotInfo \<Rightarrow> string" where
  "print_snapshot dataset i = dataset @ ''@'' @ si_Name i @ [tab] @ itoa_int (si_Creation i)
     @ [tab] @ itoa_int (si_CreateTXG i) @ [newline]"

definition print_snapshots :: "string \<Rightarrow> SnapshotInfo list \<Rightarrow> string" where
  "print_snapshots dataset infos = concat (map (print_snapshot dataset) infos)"

definition snapshot_info_ok :: "SnapshotInfo \<Rightarrow> bool" where
  "snapshot_info_ok i \<longleftrightarrow> tab \<notin> set (si_Name i) \<and> newline \<notin> set (si_Name i)
     \<and> - (2 ^ 63) \<le> si_Creation i \<and> si_Creation i < 2 ^ 63
     \<and> 0 \<le> si_CreateTXG i \<and> si_CreateTXG i < 2 ^ 64"

lemma split_on_append: "sep \<notin> set a \<Longrightarrow> split_on sep (a @ sep # b) = a # split_on sep b"
  by (induction a) auto

lemma split_on_none: "sep \<notin> set a \<Longrightarrow> split_on sep a = [a]"
  by (induction a) auto

lemma itoa_int_clean: "c \<in> set (itoa_int n) \<Longrightarrow> c \<noteq> tab \<and> c \<noteq> newline"
  using itoa_digits [of c "nat n"] itoa_digits [of c "nat (- n)"]
  by (auto simp: itoa_int_def is_digit_def tab_def newline_def split: if_splits)

lemma ParseUint64_itoa_int: "0 \<le> n \<Longrightarrow> n < 2 ^ 64 \<Longrightarrow> ParseUint64 (itoa_int n) = Some n"
  using itoa_all_digits [of "nat n"] by (simp add: ParseUint64_def itoa_int_def)

text \<open>Parsing inverts what \<open>zfs list\<close> prints: for a dataset name without \<open>@\<close>, tab or newline
  and any snapshots whose names have no tab or newline and whose numbers are in range, the printed
  lines parse back to exactly those snapshots, in order.\<close>

theorem parse_snapshots_roundtrip:
  assumes "set dataset \<inter> {CHR ''@'', tab, newline} = {}" and "\<forall>i \<in> set infos. snapshot_info_ok i"
  shows "parseSnapshots dataset (print_snapshots dataset infos) = Inr infos"
  using assms(2)
proof (induction infos)
  case Nil
  then show ?case by (simp add: parseSnapshots_def print_snapshots_def)
next
  case (Cons i infos)
  let ?line = "dataset @ ''@'' @ si_Name i @ [tab] @ itoa_int (si_Creation i) @ [tab] @ itoa_int (si_CreateTXG i)"
  have ok: "snapshot_info_ok i" using Cons.prems by simp
  have nt: "tab \<noteq> CHR ''@''" "newline \<noteq> CHR ''@''" "newline \<noteq> tab" by (simp_all add: tab_def newline_def)
  have "newline \<notin> set ?line"
    using ok assms(1) nt itoa_int_clean by (auto simp: snapshot_info_ok_def)
  then have split: "split_on newline (print_snapshots dataset (i # infos))
      = ?line # split_on newline (print_snapshots dataset infos)"
    using split_on_append [of newline ?line "print_snapshots dataset infos"]
    by (simp add: print_snapshots_def print_snapshot_def)
  have ni: "tab \<notin> set (itoa_int n)" for n using itoa_int_clean by blast
  have "split_on tab ?line = [dataset @ ''@'' @ si_Name i, itoa_int (si_Creation i), itoa_int (si_CreateTXG i)]"
    using ok assms(1) nt ni
      split_on_append [of tab "dataset @ ''@'' @ si_Name i"
        "itoa_int (si_Creation i) @ tab # itoa_int (si_CreateTXG i)"]
      split_on_append [of tab "itoa_int (si_Creation i)" "itoa_int (si_CreateTXG i)"]
      split_on_none [of tab "itoa_int (si_CreateTXG i)"]
    by (auto simp: snapshot_info_ok_def)
  moreover have "Cut (dataset @ ''@'' @ si_Name i) (CHR ''@'') = (dataset, si_Name i, True)"
    using assms(1) Cut_append [of "CHR ''@''" dataset "si_Name i"] by simp
  moreover have "ParseInt64 (itoa_int (si_Creation i)) = Some (si_Creation i)"
    "ParseUint64 (itoa_int (si_CreateTXG i)) = Some (si_CreateTXG i)"
    using ok by (simp_all add: snapshot_info_ok_def ParseInt64_itoa_int ParseUint64_itoa_int)
  moreover have "parse_snapshot_lines dataset (split_on newline (print_snapshots dataset infos)) = Inr infos"
    using Cons by (simp add: parseSnapshots_def)
  ultimately show ?case by (simp add: parseSnapshots_def split)
qed

lemma parse_snapshots_roundtrip_witness:
  "parseSnapshots ''tank/a'' (print_snapshots ''tank/a''
      [\<lparr> si_Name = ''daily'', si_Creation = 1700000000, si_CreateTXG = 42 \<rparr>])
     = Inr [\<lparr> si_Name = ''daily'', si_Creation = 1700000000, si_CreateTXG = 42 \<rparr>]"
  by (rule parse_snapshots_roundtrip) (simp_all add: snapshot_info_ok_def tab_def newline_def)

end
