(* ===== verification/RunSnapshot.thy ===== *)
theory RunSnapshot
  imports Zfs Types
begin

text \<open>
  Run-scoped snapshots and holds (\<open>workflows/backup/runsnapshot.go\<close>, \<open>hold.go\<close>): the snapshots a
  run takes of live datasets, their destruction at its end, the removal of snapshots leaked by
  earlier runs, and the holds that pin every source snapshot. The activities thread the state of
  the \<open>zfs\<close> binary; log lines are left out.
\<close>

section \<open>Names\<close>

definition runSnapshotPrefix :: string where "runSnapshotPrefix = ''tape-archiver-''"

definition RunIDProperty :: string where "RunIDProperty = ''tape-archiver:run-id''"

definition holdTagPrefix :: string where "holdTagPrefix = ''tape-archiver-hold-''"

definition HoldTag :: "string \<Rightarrow> string" where "HoldTag runID = holdTagPrefix @ runID"

definition run_char :: "char \<Rightarrow> bool" where
  "run_char c \<longleftrightarrow> (CHR ''a'' \<le> c \<and> c \<le> CHR ''z'') \<or> (CHR ''A'' \<le> c \<and> c \<le> CHR ''Z'')
     \<or> (CHR ''0'' \<le> c \<and> c \<le> CHR ''9'') \<or> c = CHR ''-'' \<or> c = CHR ''_'' \<or> c = CHR ''.'' \<or> c = CHR '':''"

text \<open>The width of the first UTF-8 character; an invalid byte counts as one character.\<close>

definition cont_byte :: "nat \<Rightarrow> nat \<Rightarrow> string \<Rightarrow> nat \<Rightarrow> bool" where
  "cont_byte lo hi s i \<longleftrightarrow> i < length s \<and> lo \<le> of_char (s ! i) \<and> of_char (s ! i) \<le> hi"

definition rune_width :: "string \<Rightarrow> nat" where
  "rune_width s =
     (if s = [] then 0
      else
        let c = of_char (hd s) :: nat; k = cont_byte 0x80 0xBF s in
        if c < 0xC2 then 1
        else if c \<le> 0xDF then (if k 1 then 2 else 1)
        else if c \<le> 0xEF then
          (if cont_byte (if c = 0xE0 then 0xA0 else 0x80) (if c = 0xED then 0x9F else 0xBF) s 1 \<and> k 2
           then 3 else 1)
        else if c \<le> 0xF4 then
          (if cont_byte (if c = 0xF0 then 0x90 else 0x80) (if c = 0xF4 then 0x8F else 0xBF) s 1
              \<and> k 2 \<and> k 3 then 4 else 1)
        else 1)"

function map_run_id :: "string \<Rightarrow> string" where
  "map_run_id [] = []"
| "map_run_id (c # cs) =
     (if run_char c then c # map_run_id cs
      else CHR ''-'' # map_run_id (drop (rune_width (c # cs) - 1) cs))"
  by pat_completeness auto
termination by (relation "measure length") auto

definition RunSnapshotName :: "string \<Rightarrow> string" where
  "RunSnapshotName runID = runSnapshotPrefix @ map_run_id runID"

section \<open>Planning\<close>

definition needs_run_snapshot :: "ResolvedSnapshot \<Rightarrow> bool" where
  "needs_run_snapshot s \<longleftrightarrow> \<not> (rs_Dataset s \<noteq> [] \<or> ContainsChar (rs_ZFSPath s) (CHR ''@''))"

definition plan_snapshot :: "string \<Rightarrow> ResolvedSnapshot \<Rightarrow> ResolvedSnapshot" where
  "plan_snapshot name s =
     (if \<not> needs_run_snapshot s then s
      else s\<lparr> rs_Dataset := rs_ZFSPath s, rs_SnapshotName := name,
              rs_ZFSPath := rs_ZFSPath s @ ''@'' @ name, rs_RunScoped := True \<rparr>)"

definition plan_archive :: "string \<Rightarrow> ResolvedArchive \<Rightarrow> ResolvedArchive" where
  "plan_archive name a = a\<lparr> ra_Snapshots := map (plan_snapshot name) (ra_Snapshots a) \<rparr>"

text \<open>The resolved list after planning, and the distinct paths taken, in order.\<close>

definition planRunScopedSnapshots ::
  "ResolvedArchive list \<Rightarrow> string \<Rightarrow> ResolvedArchive list \<times> string list" where
  "planRunScopedSnapshots resolved runID =
     (let name = RunSnapshotName runID in
      (map (plan_archive name) resolved,
       first_seen (\<lambda>path. True) []
         (map (rs_ZFSPath \<circ> plan_snapshot name)
            (filter needs_run_snapshot (concat (map ra_Snapshots resolved))))))"

definition runScopedSnapshotPaths :: "ResolvedArchive list \<Rightarrow> string list" where
  "runScopedSnapshotPaths resolved =
     first_seen (\<lambda>path. True) []
       (map rs_ZFSPath (filter rs_RunScoped (concat (map ra_Snapshots resolved))))"

definition holdSnapshotPaths :: "ResolvedArchive list \<Rightarrow> string list" where
  "holdSnapshotPaths resolved =
     first_seen (\<lambda>path. ContainsChar path (CHR ''@'')) []
       (map rs_ZFSPath (concat (map ra_Snapshots resolved)))"

section \<open>Holds\<close>

datatype hold_error = HoldFailed string zfs_error bool

text \<open>The flag of \<open>HoldFailed\<close>: a vanished snapshot is non-retryable.\<close>

fun HoldSnapshots :: "'z zfs_cli \<Rightarrow> 'z \<Rightarrow> string \<Rightarrow> string list \<Rightarrow> (hold_error + unit) \<times> 'z" where
  "HoldSnapshots run z tag [] = (Inr (), z)"
| "HoldSnapshots run z tag (snapshot # snapshots) =
     (case Hold run z tag snapshot of
        (Inl e, z') \<Rightarrow>
          (Inl (HoldFailed snapshot e (case e of NotExist args msg \<Rightarrow> True | _ \<Rightarrow> False)), z')
      | (Inr _, z') \<Rightarrow> HoldSnapshots run z' tag snapshots)"

fun ReleaseSnapshots ::
  "'z zfs_cli \<Rightarrow> 'z \<Rightarrow> string \<Rightarrow> string list \<Rightarrow> (string \<times> zfs_error) list \<times> 'z" where
  "ReleaseSnapshots run z tag [] = ([], z)"
| "ReleaseSnapshots run z tag (snapshot # snapshots) =
     (let (r, z1) = Release run z tag snapshot; (errs, z2) = ReleaseSnapshots run z1 tag snapshots in
      (case r of Inl e \<Rightarrow> (snapshot, e) # errs | Inr _ \<Rightarrow> errs, z2))"

section \<open>Leaked snapshots\<close>

definition isLeakedRunSnapshot :: "'z zfs_cli \<Rightarrow> 'z \<Rightarrow> PropertyRecord \<Rightarrow> bool \<times> 'z" where
  "isLeakedRunSnapshot run z record =
     (let (name, v) = record; (dataset, short, found) = Cut name (CHR ''@'') in
      if \<not> found \<or> v = [] \<or> v = ''-'' \<or> short \<noteq> RunSnapshotName v then (False, z)
      else
        let (r, z1) = UserProperty run z name RunIDProperty in
        if r \<noteq> Inr v then (False, z1)
        else let (source, z2) = PropertySource run z1 name RunIDProperty in (source = Inr ''local'', z2))"

fun release_own_holds :: "'z zfs_cli \<Rightarrow> 'z \<Rightarrow> string \<Rightarrow> string list \<Rightarrow> (zfs_error + unit) \<times> 'z" where
  "release_own_holds run z snapshot [] = (Inr (), z)"
| "release_own_holds run z snapshot (tag # tags) =
     (if \<not> HasPrefix tag holdTagPrefix then release_own_holds run z snapshot tags
      else (case Release run z tag snapshot of
          (Inl e, z') \<Rightarrow> (Inl e, z')
        | (Inr _, z') \<Rightarrow> release_own_holds run z' snapshot tags))"

definition destroyLeaked :: "'z zfs_cli \<Rightarrow> 'z \<Rightarrow> string \<Rightarrow> (zfs_error + unit) \<times> 'z" where
  "destroyLeaked run z snapshot =
     (case Holds run z snapshot of
        (Inl e, z1) \<Rightarrow> (Inl e, z1)
      | (Inr tags, z1) \<Rightarrow> (case release_own_holds run z1 snapshot tags of
          (Inl e, z2) \<Rightarrow> (Inl e, z2)
        | (Inr _, z2) \<Rightarrow> DestroySnapshot run z2 snapshot))"

text \<open>Best effort: a failure on one record is logged and the next is tried.\<close>

fun remove_leaked_loop :: "'z zfs_cli \<Rightarrow> 'z \<Rightarrow> string \<Rightarrow> PropertyRecord list \<Rightarrow> 'z" where
  "remove_leaked_loop run z runID [] = z"
| "remove_leaked_loop run z runID (record # records) =
     (if snd record = runID then remove_leaked_loop run z runID records
      else
        let (leaked, z1) = isLeakedRunSnapshot run z record in
        if \<not> leaked then remove_leaked_loop run z1 runID records
        else remove_leaked_loop run (snd (destroyLeaked run z1 (fst record))) runID records)"

definition removeLeaked :: "'z zfs_cli \<Rightarrow> 'z \<Rightarrow> string \<Rightarrow> 'z" where
  "removeLeaked run z runID =
     (case LocalProperty run z RunIDProperty ''snapshot'' [] of
        (Inl e, z1) \<Rightarrow> z1
      | (Inr records, z1) \<Rightarrow> remove_leaked_loop run z1 runID records)"

section \<open>Creating and destroying\<close>

datatype run_snapshot_error =
    CheckFailed string zfs_error
  | Conflict string string
  | TakeFailed string zfs_error
  | CreationFailed string zfs_error
  | DestroyFailed string zfs_error

definition snapshot_pool :: "string \<Rightarrow> string" where
  "snapshot_pool snapshot = fst (Cut (fst (Cut snapshot (CHR ''/''))) (CHR ''@''))"

text \<open>\<open>byPool\<close> as an association list from pool to the snapshots to take, in order.\<close>

definition add_by_pool :: "string \<Rightarrow> string \<Rightarrow> (string \<times> string list) list \<Rightarrow> (string \<times> string list) list" where
  "add_by_pool pool snapshot byPool =
     (if pool \<in> fst ` set byPool
      then map (\<lambda>(p, ss). (p, if p = pool then ss @ [snapshot] else ss)) byPool
      else byPool @ [(pool, [snapshot])])"

fun check_run_snapshots ::
  "'z zfs_cli \<Rightarrow> 'z \<Rightarrow> string \<Rightarrow> (string \<times> string list) list \<Rightarrow> string list
     \<Rightarrow> (run_snapshot_error + (string \<times> string list) list) \<times> 'z" where
  "check_run_snapshots run z runID byPool [] = (Inr byPool, z)"
| "check_run_snapshots run z runID byPool (snapshot # snapshots) =
     (case UserProperty run z snapshot RunIDProperty of
        (Inl e, z1) \<Rightarrow>
          if error_mentions e ErrNotExist
          then check_run_snapshots run z1 runID (add_by_pool (snapshot_pool snapshot) snapshot byPool) snapshots
          else (Inl (CheckFailed snapshot e), z1)
      | (Inr owner, z1) \<Rightarrow>
          if owner \<noteq> runID then (Inl (Conflict snapshot owner), z1)
          else check_run_snapshots run z1 runID byPool snapshots)"

fun take_run_snapshots ::
  "'z zfs_cli \<Rightarrow> 'z \<Rightarrow> string \<Rightarrow> (string \<times> string list) list \<Rightarrow> (run_snapshot_error + unit) \<times> 'z" where
  "take_run_snapshots run z runID [] = (Inr (), z)"
| "take_run_snapshots run z runID ((pool, snapshots) # pools) =
     (case CreateSnapshots run z [(RunIDProperty, runID)] snapshots of
        (Inl e, z1) \<Rightarrow> (Inl (TakeFailed pool e), z1)
      | (Inr _, z1) \<Rightarrow> take_run_snapshots run z1 runID pools)"

fun read_creations ::
  "'z zfs_cli \<Rightarrow> 'z \<Rightarrow> string list \<Rightarrow> (run_snapshot_error + (string \<times> int) list) \<times> 'z" where
  "read_creations run z [] = (Inr [], z)"
| "read_creations run z (snapshot # snapshots) =
     (case Creation run z snapshot of
        (Inl e, z1) \<Rightarrow> (Inl (CreationFailed snapshot e), z1)
      | (Inr creation, z1) \<Rightarrow> (case read_creations run z1 snapshots of
          (Inl e, z2) \<Rightarrow> (Inl e, z2)
        | (Inr created, z2) \<Rightarrow> (Inr ((snapshot, creation) # created), z2)))"

definition CreateRunSnapshots ::
  "'z zfs_cli \<Rightarrow> 'z \<Rightarrow> string \<Rightarrow> string list \<Rightarrow> (run_snapshot_error + (string \<times> int) list) \<times> 'z" where
  "CreateRunSnapshots run z runID snapshots =
     (let z0 = removeLeaked run z runID in
      case check_run_snapshots run z0 runID [] snapshots of
        (Inl e, z1) \<Rightarrow> (Inl e, z1)
      | (Inr byPool, z1) \<Rightarrow> (case take_run_snapshots run z1 runID (sort_key fst byPool) of
          (Inl e, z2) \<Rightarrow> (Inl e, z2)
        | (Inr _, z2) \<Rightarrow> read_creations run z2 snapshots))"

text \<open>\<open>DestroyRunSnapshots\<close> collects its errors; it succeeds when there are none.\<close>

fun DestroyRunSnapshots ::
  "'z zfs_cli \<Rightarrow> 'z \<Rightarrow> string \<Rightarrow> string list \<Rightarrow> run_snapshot_error list \<times> 'z" where
  "DestroyRunSnapshots run z runID [] = ([], z)"
| "DestroyRunSnapshots run z runID (snapshot # snapshots) =
     (case UserProperty run z snapshot RunIDProperty of
        (Inl e, z1) \<Rightarrow>
          if error_mentions e ErrNotExist then DestroyRunSnapshots run z1 runID snapshots
          else let (errs, z2) = DestroyRunSnapshots run z1 runID snapshots
               in (CheckFailed snapshot e # errs, z2)
      | (Inr owner, z1) \<Rightarrow>
          if owner \<noteq> runID then DestroyRunSnapshots run z1 runID snapshots
          else
            let (d, z2) = DestroySnapshot run z1 snapshot;
                (errs, z3) = DestroyRunSnapshots run z2 runID snapshots
            in (case d of Inl e \<Rightarrow> DestroyFailed snapshot e # errs | Inr _ \<Rightarrow> errs, z3))"

text \<open>The workflow's record of the creation times (\<open>createRunSnapshots\<close>).\<close>

definition record_creations :: "(string \<times> int) list \<Rightarrow> ResolvedArchive list \<Rightarrow> ResolvedArchive list" where
  "record_creations created resolved =
     (let creation = foldl (\<lambda>m (path, t). m(path \<mapsto> t)) Map.empty created in
      map (\<lambda>a. a\<lparr> ra_Snapshots := map (\<lambda>s.
             if rs_RunScoped s
             then s\<lparr> rs_CreatedAt := (case creation (rs_ZFSPath s) of Some t \<Rightarrow> t | None \<Rightarrow> 0) \<rparr>
             else s) (ra_Snapshots a) \<rparr>) resolved)"

section \<open>Names are safe\<close>

lemma map_run_id_chars: "c \<in> set (map_run_id s) \<Longrightarrow> run_char c"
proof (induction s rule: map_run_id.induct)
  case (2 c' cs)
  have dash: "run_char (CHR ''-'')" by (simp add: run_char_def)
  show ?case using 2 dash by (auto split: if_splits)
qed simp

lemma RunSnapshotName_chars:
  "set (RunSnapshotName runID) \<inter> {CHR ''@'', CHR ''%'', CHR '','', CHR ''/''} = {}" "RunSnapshotName runID \<noteq> []"
proof -
  have "\<not> run_char (CHR ''@'')" "\<not> run_char (CHR ''%'')" "\<not> run_char (CHR '','')" "\<not> run_char (CHR ''/'')"
    by (simp_all add: run_char_def less_eq_char_def)
  then show "set (RunSnapshotName runID) \<inter> {CHR ''@'', CHR ''%'', CHR '','', CHR ''/''} = {}"
    using map_run_id_chars [of _ runID] by (auto simp: RunSnapshotName_def runSnapshotPrefix_def)
qed (simp add: RunSnapshotName_def runSnapshotPrefix_def)

lemma destroyable_run_snapshot:
  assumes "dataset \<noteq> []" "CHR ''@'' \<notin> set dataset" "hd dataset \<noteq> CHR ''-''"
  shows "destroyable (dataset @ ''@'' @ RunSnapshotName runID)"
proof -
  have "Cut (dataset @ ''@'' @ RunSnapshotName runID) (CHR ''@'') = (dataset, RunSnapshotName runID, True)"
    using Cut_append [OF assms(2), of "RunSnapshotName runID"] by simp
  moreover have "\<not> prefix ''-'' dataset" using assms by (cases dataset) auto
  moreover have "\<not> ContainsAny (RunSnapshotName runID) ''@%,''"
    using RunSnapshotName_chars(1) [of runID] by (auto simp: ContainsAny_def)
  ultimately show ?thesis
    using assms(1) RunSnapshotName_chars(2) by (simp add: destroyable_def HasPrefix_def)
qed

section \<open>The plan\<close>

definition resolved_ok :: "ResolvedArchive list \<Rightarrow> bool" where
  "resolved_ok resolved \<longleftrightarrow> (\<forall>a \<in> set resolved. \<forall>s \<in> set (ra_Snapshots a). \<not> rs_RunScoped s
     \<and> (rs_Dataset s \<noteq> [] \<longrightarrow> CHR ''@'' \<in> set (rs_ZFSPath s)))"

lemma plan_snapshot_simps:
  "needs_run_snapshot s \<Longrightarrow> rs_ZFSPath (plan_snapshot name s) = rs_ZFSPath s @ ''@'' @ name"
  "needs_run_snapshot s \<Longrightarrow> rs_RunScoped (plan_snapshot name s)"
  "\<not> needs_run_snapshot s \<Longrightarrow> plan_snapshot name s = s"
  by (simp_all add: plan_snapshot_def)

text \<open>After planning, everything a run reads is a snapshot it can pin. For resolved archives in
  which only Kubernetes snapshots carry a dataset, no path without \<open>@\<close> remains, existing snapshots
  are untouched, each bare dataset became the run's own snapshot of it, the returned list is exactly
  what the cleanup later recomputes from the state, and every one of those is also held.\<close>

theorem plan_run_snapshots_sound:
  assumes "resolved_ok resolved" and "planRunScopedSnapshots resolved runID = (planned, paths)"
  shows "(\<forall>a \<in> set planned. \<forall>s \<in> set (ra_Snapshots a). CHR ''@'' \<in> set (rs_ZFSPath s))
    \<and> map (map rs_RunScoped \<circ> ra_Snapshots) planned = map (map needs_run_snapshot \<circ> ra_Snapshots) resolved
    \<and> paths = runScopedSnapshotPaths planned \<and> distinct paths
    \<and> set paths = {rs_ZFSPath s @ ''@'' @ RunSnapshotName runID | a s.
         a \<in> set resolved \<and> s \<in> set (ra_Snapshots a) \<and> CHR ''@'' \<notin> set (rs_ZFSPath s)}
    \<and> set paths \<subseteq> set (holdSnapshotPaths planned)"
proof -
  define name where "name = RunSnapshotName runID"
  have planned: "planned = map (plan_archive name) resolved"
    and paths: "paths = first_seen (\<lambda>path. True) [] (map (rs_ZFSPath \<circ> plan_snapshot name)
       (filter needs_run_snapshot (concat (map ra_Snapshots resolved))))"
    using assms(2) by (auto simp: planRunScopedSnapshots_def Let_def name_def)
  have need: "needs_run_snapshot s \<longleftrightarrow> CHR ''@'' \<notin> set (rs_ZFSPath s)"
    if "a \<in> set resolved" "s \<in> set (ra_Snapshots a)" for a s
    using assms(1) that by (auto simp: resolved_ok_def needs_run_snapshot_def ContainsChar_def)
  have scoped: "rs_RunScoped (plan_snapshot name s) \<longleftrightarrow> needs_run_snapshot s"
    if "a \<in> set resolved" "s \<in> set (ra_Snapshots a)" for a s
    using assms(1) that by (cases "needs_run_snapshot s") (auto simp: resolved_ok_def plan_snapshot_simps)
  have at: "CHR ''@'' \<in> set (rs_ZFSPath (plan_snapshot name s))"
    if "a \<in> set resolved" "s \<in> set (ra_Snapshots a)" for a s
    using need [OF that] by (cases "needs_run_snapshot s") (auto simp: plan_snapshot_simps)
  have all: "concat (map ra_Snapshots planned)
      = map (plan_snapshot name) (concat (map ra_Snapshots resolved))"
    by (simp add: planned plan_archive_def map_concat o_def)
  have "filter rs_RunScoped (map (plan_snapshot name) (concat (map ra_Snapshots resolved)))
      = map (plan_snapshot name) (filter needs_run_snapshot (concat (map ra_Snapshots resolved)))"
    using scoped by (auto simp: filter_map intro!: map_cong filter_cong)
  then have run: "paths = runScopedSnapshotPaths planned"
    by (simp add: runScopedSnapshotPaths_def paths all)
  have setp: "set paths = {rs_ZFSPath s @ ''@'' @ name | a s.
      a \<in> set resolved \<and> s \<in> set (ra_Snapshots a) \<and> CHR ''@'' \<notin> set (rs_ZFSPath s)}"
    using need by (fastforce simp: paths set_first_seen plan_snapshot_simps image_iff)
  have "set paths \<subseteq> set (holdSnapshotPaths planned)"
    using at by (auto simp: holdSnapshotPaths_def set_first_seen all paths ContainsChar_def)
  moreover have "\<forall>a \<in> set planned. \<forall>s \<in> set (ra_Snapshots a). CHR ''@'' \<in> set (rs_ZFSPath s)"
    using at by (auto simp: planned plan_archive_def)
  moreover have "map (map rs_RunScoped \<circ> ra_Snapshots) planned
      = map (map needs_run_snapshot \<circ> ra_Snapshots) resolved"
    using scoped by (simp add: planned plan_archive_def)
  moreover have "distinct paths" by (simp add: paths distinct_first_seen)
  ultimately show ?thesis using run setp unfolding name_def by blast
qed

section \<open>What is destroyed\<close>

text \<open>
  A log is justified when every \<open>destroy\<close> in it is justified by the entries before it.
\<close>

definition justified ::
  "((string list \<times> exec_result) list \<Rightarrow> string list \<times> exec_result \<Rightarrow> bool)
     \<Rightarrow> (string list \<times> exec_result) list \<Rightarrow> bool" where
  "justified J lg \<longleftrightarrow> (\<forall>i < length lg. is_destroy (lg ! i) \<longrightarrow> J (take i lg) (lg ! i))"

lemma justified_Nil [simp]: "justified J []"
  by (simp add: justified_def)

lemma justified_snoc: "justified J (lg @ [e]) \<longleftrightarrow> justified J lg \<and> (is_destroy e \<longrightarrow> J lg e)"
proof -
  have "(\<forall>i < length lg. is_destroy ((lg @ [e]) ! i) \<longrightarrow> J (take i (lg @ [e])) ((lg @ [e]) ! i))
      \<longleftrightarrow> (\<forall>i < length lg. is_destroy (lg ! i) \<longrightarrow> J (take i lg) (lg ! i))"
    by (intro all_cong) (simp add: nth_append)
  then show ?thesis by (simp add: justified_def All_less_Suc conj_commute)
qed

text \<open>A justified log once every command of the run is one of the recorded ones, and only grown.\<close>

definition grown ::
  "((string list \<times> exec_result) list \<Rightarrow> string list \<times> exec_result \<Rightarrow> bool)
     \<Rightarrow> 'z logged \<Rightarrow> 'z logged \<Rightarrow> bool" where
  "grown J s s' \<longleftrightarrow> prefix (snd s) (snd s') \<and> (justified J (snd s) \<longrightarrow> justified J (snd s'))"

lemma grown_refl: "grown J s s"
  by (simp add: grown_def)

lemma grown_trans [trans]: "grown J s t \<Longrightarrow> grown J t u \<Longrightarrow> grown J s u"
  by (auto simp: grown_def intro: prefix_order.trans)

lemma grown_set: "grown J s s' \<Longrightarrow> e \<in> set (snd s) \<Longrightarrow> e \<in> set (snd s')"
  by (auto simp: grown_def prefix_def)

lemma logged_eq:
  "logged run (z, lg) args = (fst (run z args), (snd (run z args), lg @ [(args, fst (run z args))]))"
  by (simp add: logged_def case_prod_beta)

lemmas one_command = logged_eq Let_def case_prod_beta grown_def justified_snoc is_destroy_def

lemma grown_command:
  "args = [] \<or> hd args \<noteq> ''destroy'' \<Longrightarrow> grown J s (snd (logged run s args))"
  by (cases s; cases args) (auto simp: one_command)

lemma grown_ops:
  "grown J s (snd (UserProperty (logged run) s d p))" "grown J s (snd (PropertySource (logged run) s d p))"
  "grown J s (snd (LocalProperty (logged run) s p t base))" "grown J s (snd (Holds (logged run) s d))"
  "grown J s (snd (Release (logged run) s tag d))" "grown J s (snd (Creation (logged run) s d))"
  "grown J s (snd (CreateSnapshots (logged run) s props snaps))"
  by (simp_all add: UserProperty_def PropertySource_def LocalProperty_def Holds_def Release_def
      Creation_def CreateSnapshots_def user_property_args_def Let_def case_prod_beta grown_command grown_refl)

lemma UserProperty_read:
  assumes "UserProperty (logged run) s d p = (Inr v, s')"
  shows "\<exists>r. snd s' = snd s @ [(user_property_args d p, r)] \<and> ex_ok r \<and> TrimSpace (ex_out r) = v"
  using assms by (cases s) (auto simp: UserProperty_def one_command split: if_splits)

definition source_args :: "string \<Rightarrow> string \<Rightarrow> string list" where
  "source_args name property = [''get'', ''-H'', ''-o'', ''source'', property, name]"

lemma PropertySource_read:
  assumes "PropertySource (logged run) s d p = (Inr v, s')"
  shows "\<exists>r. snd s' = snd s @ [(source_args d p, r)] \<and> ex_ok r \<and> TrimSpace (ex_out r) = v"
  using assms by (cases s) (auto simp: PropertySource_def source_args_def one_command split: if_splits)

lemma DestroySnapshot_grown:
  assumes "destroyable d \<Longrightarrow> \<forall>r. J (snd s) ([''destroy'', d], r)"
  shows "grown J s (snd (DestroySnapshot (logged run) s d))"
proof (cases "destroyable d")
  case True
  then show ?thesis using assms by (cases s) (simp add: DestroySnapshot_def one_command)
qed (simp add: DestroySnapshot_def grown_refl)

subsection \<open>At the end of a run\<close>

definition owned_destroy :: "string \<Rightarrow> string set
    \<Rightarrow> (string list \<times> exec_result) list \<Rightarrow> string list \<times> exec_result \<Rightarrow> bool" where
  "owned_destroy runID paths lg e \<longleftrightarrow> (\<exists>d r. fst e = [''destroy'', d] \<and> d \<in> paths \<and> destroyable d
     \<and> lg \<noteq> [] \<and> last lg = (user_property_args d RunIDProperty, r) \<and> ex_ok r
     \<and> TrimSpace (ex_out r) = runID)"

lemma DestroyRunSnapshots_grown:
  "set snapshots \<subseteq> paths \<Longrightarrow>
   grown (owned_destroy runID paths) s (snd (DestroyRunSnapshots (logged run) s runID snapshots))"
proof (induction snapshots arbitrary: s)
  case (Cons snapshot snapshots)
  let ?J = "owned_destroy runID paths"
  obtain u s1 where u: "UserProperty (logged run) s snapshot RunIDProperty = (u, s1)" by (metis surj_pair)
  have s1: "grown ?J s s1" using grown_ops(1) [of ?J s run snapshot RunIDProperty] u by simp
  have rest: "grown ?J t (snd (DestroyRunSnapshots (logged run) t runID snapshots))" for t
    using Cons by simp
  show ?case
  proof (cases "u = Inr runID")
    case False
    then show ?thesis using grown_trans [OF s1 rest]
      by (cases u) (auto simp: u Let_def case_prod_beta)
  next
    case True
    let ?s2 = "snd (DestroySnapshot (logged run) s1 snapshot)"
    have "grown ?J s1 ?s2"
      using UserProperty_read [OF u [unfolded True]] Cons.prems
      by (intro DestroySnapshot_grown) (auto simp: owned_destroy_def)
    then show ?thesis using grown_trans [OF grown_trans [OF s1] rest]
      by (simp add: u True Let_def case_prod_beta)
  qed
qed (simp add: grown_refl)

text \<open>C26: The cleanup of a run destroys only what is its own. Whatever the \<open>zfs\<close> binary answers,
  every \<open>destroy\<close> command it issues names a well-formed snapshot from its input, never a dataset and
  never a range, and the command issued right before it read that snapshot's run-id property and got
  this run's id.\<close>

theorem destroy_run_snapshots_owned:
  "justified (owned_destroy runID (set snapshots))
     (snd (snd (DestroyRunSnapshots (logged run) (z, []) runID snapshots)))"
  using DestroyRunSnapshots_grown [of snapshots "set snapshots" runID "(z, [])" run]
  by (simp add: grown_def)

subsection \<open>Leaked by earlier runs\<close>

definition leaked_destroy :: "string
    \<Rightarrow> (string list \<times> exec_result) list \<Rightarrow> string list \<times> exec_result \<Rightarrow> bool" where
  "leaked_destroy runID lg e \<longleftrightarrow> (\<exists>dataset v r r'.
     let d = dataset @ ''@'' @ RunSnapshotName v in
     fst e = [''destroy'', d] \<and> destroyable d \<and> v \<noteq> runID
     \<and> (user_property_args d RunIDProperty, r) \<in> set lg \<and> ex_ok r \<and> TrimSpace (ex_out r) = v
     \<and> (source_args d RunIDProperty, r') \<in> set lg \<and> ex_ok r' \<and> TrimSpace (ex_out r') = ''local'')"

lemma isLeakedRunSnapshot_grown:
  "grown J s (snd (isLeakedRunSnapshot (logged run) s record))"
proof -
  obtain u s1 where u: "UserProperty (logged run) s (fst record) RunIDProperty = (u, s1)" by (metis surj_pair)
  have "grown J s s1" using grown_ops(1) [of J s run "fst record" RunIDProperty] u by simp
  then show ?thesis
    using grown_trans [OF _ grown_ops(2) [of J s1 run "fst record" RunIDProperty]]
    by (simp add: isLeakedRunSnapshot_def u Let_def case_prod_beta grown_refl)
qed

lemma isLeakedRunSnapshot_read:
  assumes "isLeakedRunSnapshot (logged run) s record = (True, s')"
  shows "\<exists>dataset v r r'. fst record = dataset @ ''@'' @ RunSnapshotName v \<and> v = snd record
    \<and> (user_property_args (fst record) RunIDProperty, r) \<in> set (snd s') \<and> ex_ok r \<and> TrimSpace (ex_out r) = v
    \<and> (source_args (fst record) RunIDProperty, r') \<in> set (snd s') \<and> ex_ok r' \<and> TrimSpace (ex_out r') = ''local''"
proof -
  obtain name v where rec: "record = (name, v)" by (cases "record")
  obtain dataset short found where cut: "Cut name (CHR ''@'') = (dataset, short, found)" by (metis prod_cases3)
  obtain u s1 where u: "UserProperty (logged run) s name RunIDProperty = (u, s1)" by (metis surj_pair)
  obtain w s2 where w: "PropertySource (logged run) s1 name RunIDProperty = (w, s2)" by (metis surj_pair)
  have ok: "found" "short = RunSnapshotName v" "u = Inr v" "w = Inr ''local''" "s' = s2"
    using assms by (auto simp: isLeakedRunSnapshot_def rec cut u w Let_def split: if_splits)
  have "name = dataset @ ''@'' @ RunSnapshotName v" using Cut_join [of name] cut ok by simp
  moreover obtain r where "snd s1 = snd s @ [(user_property_args name RunIDProperty, r)]" "ex_ok r"
    "TrimSpace (ex_out r) = v"
    using UserProperty_read [OF u [unfolded ok]] by blast
  moreover obtain r' where "snd s2 = snd s1 @ [(source_args name RunIDProperty, r')]" "ex_ok r'"
    "TrimSpace (ex_out r') = ''local''"
    using PropertySource_read [OF w [unfolded ok]] by blast
  ultimately show ?thesis using ok by (auto simp: rec)
qed

lemma release_own_holds_grown: "grown J s (snd (release_own_holds (logged run) s d tags))"
proof (induction tags arbitrary: s)
  case (Cons tag tags)
  obtain r s1 where r: "Release (logged run) s tag d = (r, s1)" by (metis surj_pair)
  have "grown J s s1" using grown_ops(5) [of J s run tag d] r by simp
  then show ?case using Cons grown_trans [OF _ Cons.IH] by (cases r) (auto simp: r)
qed (simp add: grown_refl)

lemma destroyLeaked_grown:
  assumes "\<And>lg r. set (snd s) \<subseteq> set lg \<Longrightarrow> destroyable d \<Longrightarrow> J lg ([''destroy'', d], r)"
  shows "grown J s (snd (destroyLeaked (logged run) s d))"
proof -
  obtain h s1 where h: "Holds (logged run) s d = (h, s1)" by (metis surj_pair)
  have s1: "grown J s s1" using grown_ops(4) [of J s run d] h by simp
  show ?thesis
  proof (cases h)
    case (Inr tags)
    obtain r s2 where r: "release_own_holds (logged run) s1 d tags = (r, s2)" by (metis surj_pair)
    have s2: "grown J s s2"
      using grown_trans [OF s1 release_own_holds_grown [of J s1 run d tags]] r by simp
    then have "set (snd s) \<subseteq> set (snd s2)" using grown_set by blast
    then have "grown J s2 (snd (DestroySnapshot (logged run) s2 d))"
      using assms by (intro DestroySnapshot_grown) auto
    then show ?thesis using grown_trans [OF s2] s2
      by (cases r) (simp_all add: destroyLeaked_def h Inr r)
  qed (use s1 in \<open>simp add: destroyLeaked_def h\<close>)
qed

lemma leaked_destroyI:
  assumes "isLeakedRunSnapshot (logged run) s record = (True, s')" "snd record \<noteq> runID"
    "set (snd s') \<subseteq> set lg" "destroyable (fst record)"
  shows "leaked_destroy runID lg ([''destroy'', fst record], r)"
proof -
  obtain dataset v q q' where "fst record = dataset @ ''@'' @ RunSnapshotName v" "v = snd record"
    "(user_property_args (fst record) RunIDProperty, q) \<in> set (snd s')" "ex_ok q" "TrimSpace (ex_out q) = v"
    "(source_args (fst record) RunIDProperty, q') \<in> set (snd s')" "ex_ok q'" "TrimSpace (ex_out q') = ''local''"
    using isLeakedRunSnapshot_read [OF assms(1)] by blast
  then have "fst record = dataset @ ''@'' @ RunSnapshotName v \<and> destroyable (fst record) \<and> v \<noteq> runID
    \<and> (user_property_args (fst record) RunIDProperty, q) \<in> set lg \<and> ex_ok q \<and> TrimSpace (ex_out q) = v
    \<and> (source_args (fst record) RunIDProperty, q') \<in> set lg \<and> ex_ok q' \<and> TrimSpace (ex_out q') = ''local''"
    using assms by auto
  then show ?thesis unfolding leaked_destroy_def Let_def by (metis fst_conv)
qed

lemma remove_leaked_loop_grown:
  "grown (leaked_destroy runID) s (remove_leaked_loop (logged run) s runID records)"
proof (induction records arbitrary: s)
  case (Cons r records)
  let ?J = "leaked_destroy runID"
  obtain leaked s1 where l: "isLeakedRunSnapshot (logged run) s r = (leaked, s1)" by (metis surj_pair)
  have s1: "grown ?J s s1" using isLeakedRunSnapshot_grown [of ?J s run r] l by simp
  have s2: "grown ?J s1 (snd (destroyLeaked (logged run) s1 (fst r)))" if leaked "snd r \<noteq> runID"
    using that l by (intro destroyLeaked_grown leaked_destroyI [of run s r s1]) auto
  show ?case
  proof (cases "leaked \<and> snd r \<noteq> runID")
    case True
    then show ?thesis using grown_trans [OF grown_trans [OF s1 s2] Cons.IH] by (simp add: l)
  next
    case False
    then show ?thesis using grown_trans [OF s1 Cons.IH] Cons.IH [of s] by (auto simp: l)
  qed
qed (simp add: grown_refl)

lemma removeLeaked_grown: "grown (leaked_destroy runID) s (removeLeaked (logged run) s runID)"
proof -
  obtain r s1 where r: "LocalProperty (logged run) s RunIDProperty ''snapshot'' [] = (r, s1)"
    by (metis surj_pair)
  have "grown (leaked_destroy runID) s s1"
    using grown_ops(3) [of "leaked_destroy runID" s run RunIDProperty "''snapshot''" "[]"] r by simp
  then show ?thesis using grown_trans [OF _ remove_leaked_loop_grown]
    by (cases r) (simp_all add: removeLeaked_def r)
qed

lemma check_run_snapshots_grown:
  "grown J s (snd (check_run_snapshots (logged run) s runID byPool snapshots))"
proof (induction snapshots arbitrary: s byPool)
  case (Cons d snapshots)
  obtain u s1 where u: "UserProperty (logged run) s d RunIDProperty = (u, s1)" by (metis surj_pair)
  have "grown J s s1" using grown_ops(1) [of J s run d RunIDProperty] u by simp
  then show ?case using grown_trans [OF _ Cons.IH] by (cases u) (auto simp: u)
qed (simp add: grown_refl)

lemma take_run_snapshots_grown: "grown J s (snd (take_run_snapshots (logged run) s runID pools))"
proof (induction pools arbitrary: s)
  case (Cons p pools)
  obtain pool ds where p: "p = (pool, ds)" by (cases p)
  obtain u s1 where u: "CreateSnapshots (logged run) s [(RunIDProperty, runID)] ds = (u, s1)"
    by (metis surj_pair)
  have "grown J s s1" using grown_ops(7) [of J s run "[(RunIDProperty, runID)]" ds] u by simp
  then show ?case using grown_trans [OF _ Cons.IH] by (cases u) (auto simp: u p)
qed (simp add: grown_refl)

lemma read_creations_grown: "grown J s (snd (read_creations (logged run) s ds))"
proof (induction ds arbitrary: s)
  case (Cons d ds)
  obtain u s1 where u: "Creation (logged run) s d = (u, s1)" by (metis surj_pair)
  obtain v s2 where v: "read_creations (logged run) s1 ds = (v, s2)" by (metis surj_pair)
  have s1: "grown J s s1" using grown_ops(6) [of J s run d] u by simp
  have "grown J s s2" using grown_trans [OF s1 Cons.IH [of s1]] v by simp
  then show ?case using s1 by (cases u; cases v) (auto simp: u v)
qed (simp add: grown_refl)

text \<open>C30: Creating a run's snapshots removes nothing but snapshots leaked by other runs. Whatever the
  \<open>zfs\<close> binary answers, each \<open>destroy\<close> issued names a snapshot whose short name is exactly the one
  derived from the run id recorded on it, whose recorded run id was read back as that id, is not this
  run's, and was set locally on the snapshot rather than inherited.\<close>

theorem create_run_snapshots_only_leaked:
  "justified (leaked_destroy runID)
     (snd (snd (CreateRunSnapshots (logged run) (z, []) runID snapshots)))"
proof -
  let ?J = "leaked_destroy runID"
  let ?s0 = "removeLeaked (logged run) (z, []) runID"
  obtain c s1 where c: "check_run_snapshots (logged run) ?s0 runID [] snapshots = (c, s1)" by (metis surj_pair)
  have s1: "grown ?J (z, []) s1"
    using grown_trans [OF removeLeaked_grown check_run_snapshots_grown [of ?J ?s0 run runID "[]" snapshots]] c
    by simp
  have "grown ?J (z, []) (snd (CreateRunSnapshots (logged run) (z, []) runID snapshots))"
  proof (cases c)
    case (Inr byPool)
    obtain t s2 where t: "take_run_snapshots (logged run) s1 runID (sort_key fst byPool) = (t, s2)"
      by (metis surj_pair)
    have "grown ?J (z, []) s2"
      using grown_trans [OF s1 take_run_snapshots_grown [of ?J s1 run runID "sort_key fst byPool"]] t by simp
    then show ?thesis using grown_trans [OF _ read_creations_grown]
      by (cases t) (simp_all add: CreateRunSnapshots_def c Inr t)
  qed (use s1 in \<open>simp add: CreateRunSnapshots_def c\<close>)
  then show ?thesis by (simp add: grown_def)
qed

text \<open>Both do destroy: a binary that reports an owned snapshot sees it destroyed.\<close>

definition example_zfs :: "unit zfs_cli" where
  "example_zfs z args =
     (exec_result.make
        (if args = [''get'', ''-H'', ''-o'', ''source'', RunIDProperty, ''p/d@tape-archiver-r1''] then ''local''
         else if args = user_property_args ''p/d@tape-archiver-r1'' RunIDProperty then ''r1''
         else if take 3 args = [''get'', ''-Hp'', ''-s''] then ''p/d@tape-archiver-r1'' @ tab # ''r1''
         else []) [] True, z)"

lemma example_destroys:
  "map fst (filter is_destroy (snd (snd (DestroyRunSnapshots (logged example_zfs) ((), []) ''r1''
     [''p/d@tape-archiver-r1''])))) = [[''destroy'', ''p/d@tape-archiver-r1'']]"
  "map fst (filter is_destroy (snd (removeLeaked (logged example_zfs) ((), []) ''r2'')))
     = [[''destroy'', ''p/d@tape-archiver-r1'']]"
  "map fst (filter is_destroy (snd (removeLeaked (logged example_zfs) ((), []) ''r1''))) = []"
  by code_simp+

definition example_resolved :: "ResolvedArchive list" where
  "example_resolved = [ResolvedArchive.make 0 ''a'' False
     [ResolvedSnapshot.make ''p/d'' [] [] [] [] [] False 0,
      ResolvedSnapshot.make ''p/e@s'' ''p/e'' ''s'' [] [] [] False 5] 0 0]"

lemma plan_run_snapshots_sound_witness:
  "resolved_ok example_resolved
   \<and> snd (planRunScopedSnapshots example_resolved ''r1'') = [''p/d@tape-archiver-r1'']
   \<and> set (snd (planRunScopedSnapshots example_resolved ''r1''))
      \<subseteq> set (holdSnapshotPaths (fst (planRunScopedSnapshots example_resolved ''r1'')))"
proof -
  have ok: "resolved_ok example_resolved"
    by (simp add: resolved_ok_def example_resolved_def ResolvedArchive.make_def ResolvedSnapshot.make_def)
  have "snd (planRunScopedSnapshots example_resolved ''r1'') = [''p/d@tape-archiver-r1'']" by code_simp
  then show ?thesis using ok plan_run_snapshots_sound [OF ok surjective_pairing, of "''r1''"] by blast
qed

end
