(* ===== verification/Resolve.thy ===== *)
theory Resolve
  imports K8s Zfs Slices Pack Label RunSnapshot
begin

text \<open>
  The Resolve phase (\<open>workflows/backup/resolve.go\<close>): from the configured sources to the work list.
  Selector sources are expanded, Kubernetes sources resolved by the control worker, every source
  validated and sized on the data worker. The Kubernetes resolvers, the pool and the dataset
  selector are the code's injected interfaces, records of functions; they only read, so one phase
  sees one state of them. An activity is one evaluation of its function; log lines are left out.
\<close>

section \<open>Interfaces and errors\<close>

record snapshotResolver =
  sr_Resolve :: "Ref \<Rightarrow> snapshot_error + Snapshot"
  sr_ResolveGroup :: "Ref \<Rightarrow> group_error + Group"

record claimResolver =
  cr_ListClaims :: "string \<Rightarrow> string \<Rightarrow> claim_error + ClaimRef list"
  cr_ResolveClaim :: "ClaimRef \<Rightarrow> claim_error + Claim"

record poolInspector =
  pi_UserProperties :: "string \<Rightarrow> zfs_error + (string \<rightharpoonup> string)"
  pi_UserProperty :: "string \<Rightarrow> string \<Rightarrow> zfs_error + string"
  pi_LogicalReferenced :: "string \<Rightarrow> zfs_error + int"
  pi_Snapshots :: "string \<Rightarrow> zfs_error + SnapshotInfo list"

record datasetSelector =
  ds_LocalProperty :: "string \<Rightarrow> string \<Rightarrow> string \<Rightarrow> zfs_error + PropertyRecord list"
  ds_UserProperty :: "string \<Rightarrow> string \<Rightarrow> zfs_error + string"
  ds_PropertySource :: "string \<Rightarrow> string \<Rightarrow> zfs_error + string"
  ds_Filesystems :: "zfs_error + Filesystem list"

definition zfsPool :: "'z zfs_cli \<Rightarrow> 'z \<Rightarrow> poolInspector" where
  "zfsPool run z = \<lparr> pi_UserProperties = (\<lambda>d. fst (UserProperties run z d)),
     pi_UserProperty = (\<lambda>d p. fst (UserProperty run z d p)),
     pi_LogicalReferenced = (\<lambda>d. fst (LogicalReferenced run z d)),
     pi_Snapshots = (\<lambda>d. fst (Snapshots run z d)) \<rparr>"

definition zfsSelector :: "'z zfs_cli \<Rightarrow> 'z \<Rightarrow> datasetSelector" where
  "zfsSelector run z = \<lparr> ds_LocalProperty = (\<lambda>p t base. fst (LocalProperty run z p t base)),
     ds_UserProperty = (\<lambda>d p. fst (UserProperty run z d p)),
     ds_PropertySource = (\<lambda>d p. fst (PropertySource run z d p)),
     ds_Filesystems = fst (Filesystems run z) \<rparr>"

datatype control_error = BuildResolver | ClaimNoMatch nat | ClaimListFailed nat claim_error
  | NotExpanded nat | UnsupportedClaim nat string | ClaimFailed nat claim_error
  | GroupFailed nat group_error | SnapshotFailed nat snapshot_error
  | MemberTooLong nat string string | MemberCollision nat string string string

datatype select_error = StagingDatasetFailed zfs_error | SelectFailed nat zfs_error | PropertyNoMatch nat

datatype newest_error = ListSnapshots zfs_error | NoPrefixMatch string | NoSnapshots

datatype data_error = NotResolved nat | VerifyDatasetFailed nat verify_dataset_error
  | VerifySnapshotFailed nat verify_dataset_error | NotPathSource nat | NewestFailed nat newest_error
  | PathMissing nat zfs_error | EstimateFailed nat string zfs_error | Infeasible nat int int
  | PayloadExceeded payload_error

datatype resolve_error = Control control_error | Selecting select_error | Data data_error
  | LabelCollision string string string

section \<open>Claim selectors\<close>

definition isClaim :: "Source \<Rightarrow> bool" where
  "isClaim source \<longleftrightarrow> (case src_K8s source of Some k \<Rightarrow> k8_Kind k = KindPVC | None \<Rightarrow> False)"

definition isClaimSelector :: "Source \<Rightarrow> bool" where
  "isClaimSelector source \<longleftrightarrow>
     isClaim source \<and> (case src_K8s source of Some k \<Rightarrow> k8_LabelSelector k \<noteq> [] | None \<Rightarrow> False)"

type_synonym ClaimMatches = "nat \<times> ClaimRef list"

fun list_claim_sources ::
  "claimResolver option \<Rightarrow> nat \<Rightarrow> Source list \<Rightarrow> control_error + ClaimMatches list" where
  "list_claim_sources newClaimResolver index [] = Inr []"
| "list_claim_sources newClaimResolver index (source # sources) =
     (if \<not> isClaimSelector source then list_claim_sources newClaimResolver (Suc index) sources
      else (case newClaimResolver of
          None \<Rightarrow> Inl BuildResolver
        | Some resolver \<Rightarrow>
            let k = the (src_K8s source) in
            (case cr_ListClaims resolver (k8_Namespace k) (k8_LabelSelector k) of
               Inl (ErrNoClaims sel) \<Rightarrow> Inl (ClaimNoMatch index)
             | Inl e \<Rightarrow> Inl (ClaimListFailed index e)
             | Inr claims \<Rightarrow>
                 bindE (list_claim_sources newClaimResolver (Suc index) sources) (\<lambda>matches.
                   Inr ((index, claims) # matches)))))"

definition ListClaimSources ::
  "claimResolver option \<Rightarrow> Config \<Rightarrow> control_error + ClaimMatches list" where
  "ListClaimSources newClaimResolver cfg = list_claim_sources newClaimResolver 0 (cfg_Sources cfg)"

definition matches_index :: "(nat \<times> 'm list) list \<Rightarrow> nat \<Rightarrow> 'm list" where
  "matches_index matches index =
     (case foldl (\<lambda>m (i, xs). m(i \<mapsto> xs)) Map.empty matches index of Some xs \<Rightarrow> xs | None \<Rightarrow> [])"

fun expand_at :: "(nat \<Rightarrow> 's \<Rightarrow> 's list) \<Rightarrow> nat \<Rightarrow> 's list \<Rightarrow> 's list" where
  "expand_at f index [] = []"
| "expand_at f index (source # sources) = f index source @ expand_at f (Suc index) sources"

definition claim_source :: "Source \<Rightarrow> ClaimRef \<Rightarrow> Source" where
  "claim_source source claim = \<lparr> src_Compression = src_Compression source,
     src_K8s = Some \<lparr> k8_APIVersion = k8_APIVersion (the (src_K8s source)), k8_Kind = KindPVC,
       k8_Namespace = fst claim, k8_Name = snd claim, k8_LabelSelector = [], k8_Select = [] \<rparr>,
     src_ZFSPath = None, src_ZFSProperty = None, src_Label = None \<rparr>"

definition expand_claim :: "ClaimMatches list \<Rightarrow> nat \<Rightarrow> Source \<Rightarrow> Source list" where
  "expand_claim matches index source =
     (if \<not> isClaimSelector source then [source]
      else map (claim_source source) (matches_index matches index))"

text \<open>The namespaces in which a claim of this name is archived.\<close>

definition claim_namespaces :: "Source list \<Rightarrow> string \<Rightarrow> string list" where
  "claim_namespaces sources name =
     remdups (map (\<lambda>s. k8_Namespace (the (src_K8s s)))
       (filter (\<lambda>s. isClaim s \<and> k8_Name (the (src_K8s s)) = name) sources))"

definition claim_id :: "Source \<Rightarrow> string" where
  "claim_id source = k8_Namespace (the (src_K8s source)) @ ''/'' @ k8_Name (the (src_K8s source))"

definition derive_label :: "(string \<Rightarrow> string list) \<Rightarrow> Source \<Rightarrow> Source" where
  "derive_label namespaces source =
     (let k = the (src_K8s source) in
      if length (namespaces (k8_Name k)) > 1
      then source\<lparr> src_Label := Some (k8_Namespace k @ ''-'' @ k8_Name k) \<rparr> else source)"

fun label_claims ::
  "(string \<Rightarrow> string list) \<Rightarrow> (string \<rightharpoonup> string) \<Rightarrow> Source list
     \<Rightarrow> string \<times> string \<times> string + Source list" where
  "label_claims namespaces labelOwner [] = Inr []"
| "label_claims namespaces labelOwner (source # sources) =
     (if \<not> isClaim source \<or> src_Label source \<noteq> None
      then bindE (label_claims namespaces labelOwner sources) (\<lambda>rest. Inr (source # rest))
      else
        let claim = claim_id source; labelled = derive_label namespaces source;
            label = sourceLabel labelled in
        if labelOwner label \<noteq> None \<and> labelOwner label \<noteq> Some claim
        then Inl (the (labelOwner label), claim, label)
        else bindE (label_claims namespaces (labelOwner(label \<mapsto> claim)) sources) (\<lambda>rest.
               Inr (labelled # rest)))"

definition expandClaimSources ::
  "Source list \<Rightarrow> ClaimMatches list \<Rightarrow> string \<times> string \<times> string + Source list" where
  "expandClaimSources sources matches =
     (let expanded = expand_at (expand_claim matches) 0 sources in
      label_claims (claim_namespaces expanded) Map.empty expanded)"

section \<open>Kubernetes sources\<close>

definition maxMemberNameBytes :: nat where "maxMemberNameBytes = 255"

definition memberNamespaceSeparator :: string where "memberNamespaceSeparator = ''_''"

definition datasetAndSnapshot :: "ResolvedSnapshot \<Rightarrow> string \<times> string" where
  "datasetAndSnapshot snapshot =
     (if rs_Dataset snapshot \<noteq> [] then (rs_Dataset snapshot, rs_SnapshotName snapshot)
      else
        let (before, after, found) = Cut (rs_ZFSPath snapshot) (CHR ''@'') in
        if found then (before, after) else (rs_ZFSPath snapshot, []))"

definition memberName :: "ResolvedSnapshot \<Rightarrow> string" where
  "memberName snapshot =
     (let name = (if rs_PVC snapshot = [] then path_Base (fst (datasetAndSnapshot snapshot))
                  else rs_PVC snapshot) in
      if rs_Namespace snapshot \<noteq> []
      then rs_Namespace snapshot @ memberNamespaceSeparator @ name else name)"

definition member_owner :: "ResolvedSnapshot \<Rightarrow> string" where
  "member_owner snapshot =
     (if rs_VolumeSnapshot snapshot \<noteq> []
      then ''VolumeSnapshot '' @ rs_Namespace snapshot @ ''/'' @ rs_VolumeSnapshot snapshot
           @ '' ('' @ rs_ZFSPath snapshot @ '')''
      else rs_ZFSPath snapshot)"

fun check_member_names ::
  "nat \<Rightarrow> (string \<rightharpoonup> string) \<Rightarrow> ResolvedSnapshot list \<Rightarrow> control_error + unit" where
  "check_member_names index owners [] = Inr ()"
| "check_member_names index owners (snapshot # snapshots) =
     (let name = memberName snapshot; owner = member_owner snapshot in
      if length name > maxMemberNameBytes then Inl (MemberTooLong index owner name)
      else (case owners name of
          Some prior \<Rightarrow> Inl (MemberCollision index prior owner name)
        | None \<Rightarrow> check_member_names index (owners(name \<mapsto> owner)) snapshots))"

definition checkMemberNames :: "nat \<Rightarrow> ResolvedSnapshot list \<Rightarrow> control_error + unit" where
  "checkMemberNames index snapshots = check_member_names index Map.empty snapshots"

definition snapshotFromK8s :: "Snapshot \<Rightarrow> ResolvedSnapshot" where
  "snapshotFromK8s s = \<lparr> rs_ZFSPath = Snapshot_ZFSPath s, rs_Dataset = sn_Dataset s,
     rs_SnapshotName = sn_SnapshotName s, rs_Namespace = sn_Namespace s,
     rs_VolumeSnapshot = sn_VolumeSnapshot s, rs_PVC = sn_PVC s, rs_RunScoped = False, rs_CreatedAt = 0 \<rparr>"

definition compressionEnabled :: "Source \<Rightarrow> bool" where
  "compressionEnabled source = (case src_Compression source of Some b \<Rightarrow> b | None \<Rightarrow> True)"

definition new_archive :: "nat \<Rightarrow> Source \<Rightarrow> ResolvedSnapshot list \<Rightarrow> ResolvedArchive" where
  "new_archive index source snapshots = \<lparr> ra_SourceIndex = index, ra_Label = sourceLabel source,
     ra_Compression = compressionEnabled source, ra_Snapshots = snapshots,
     ra_EstimatedBytes = 0, ra_LogicalBytes = 0 \<rparr>"

definition resolveClaimSource ::
  "claimResolver \<Rightarrow> nat \<Rightarrow> Source \<Rightarrow> control_error + ResolvedArchive" where
  "resolveClaimSource resolver index source =
     (let k = the (src_K8s source) in
      if k8_Name k = [] then Inl (NotExpanded index)
      else (case cr_ResolveClaim resolver (k8_Namespace k, k8_Name k) of
          Inl (ErrUnsupportedClaim ident) \<Rightarrow> Inl (UnsupportedClaim index ident)
        | Inl e \<Rightarrow> Inl (ClaimFailed index e)
        | Inr claim \<Rightarrow> Inr (new_archive index source
            [\<lparr> rs_ZFSPath = cl_Dataset claim, rs_Dataset = [], rs_SnapshotName = [],
               rs_Namespace = cl_Namespace claim, rs_VolumeSnapshot = [], rs_PVC = cl_Name claim,
               rs_RunScoped = False, rs_CreatedAt = 0 \<rparr>])))"

definition source_ref :: "K8sRef \<Rightarrow> Ref" where
  "source_ref k = \<lparr> ref_Namespace = k8_Namespace k, ref_Name = k8_Name k,
     ref_LabelSelector = k8_LabelSelector k, ref_NewestPerPVC = (k8_Select k = SelectNewestPerPVC) \<rparr>"

definition resolveK8sSource ::
  "snapshotResolver \<Rightarrow> nat \<Rightarrow> Source \<Rightarrow> control_error + ResolvedArchive" where
  "resolveK8sSource resolver index source =
     (let k = the (src_K8s source); ref = source_ref k in
      if k8_LabelSelector k \<noteq> [] then
        (case sr_ResolveGroup resolver ref of
           Inl e \<Rightarrow> Inl (GroupFailed index e)
         | Inr grp \<Rightarrow>
             let archive = new_archive index source (map snapshotFromK8s (gr_Members grp)) in
             bindE (checkMemberNames index (ra_Snapshots archive)) (\<lambda>_. Inr archive))
      else
        (case sr_Resolve resolver ref of
           Inl e \<Rightarrow> Inl (SnapshotFailed index e)
         | Inr snapshot \<Rightarrow> Inr (new_archive index source [snapshotFromK8s snapshot])))"

fun resolve_k8s_sources ::
  "snapshotResolver option \<Rightarrow> claimResolver option \<Rightarrow> nat \<Rightarrow> Source list
     \<Rightarrow> control_error + ResolvedArchive list" where
  "resolve_k8s_sources newResolver newClaimResolver index [] = Inr []"
| "resolve_k8s_sources newResolver newClaimResolver index (source # sources) =
     (if src_K8s source = None
      then resolve_k8s_sources newResolver newClaimResolver (Suc index) sources
      else bindE
        (if isClaim source
         then (case newClaimResolver of None \<Rightarrow> Inl BuildResolver
               | Some resolver \<Rightarrow> resolveClaimSource resolver index source)
         else (case newResolver of None \<Rightarrow> Inl BuildResolver
               | Some resolver \<Rightarrow> resolveK8sSource resolver index source))
        (\<lambda>archive. bindE (resolve_k8s_sources newResolver newClaimResolver (Suc index) sources)
          (\<lambda>rest. Inr (archive # rest))))"

definition ResolveK8sSources ::
  "snapshotResolver option \<Rightarrow> claimResolver option \<Rightarrow> Config \<Rightarrow> control_error + ResolvedArchive list" where
  "ResolveK8sSources newResolver newClaimResolver cfg =
     resolve_k8s_sources newResolver newClaimResolver 0 (cfg_Sources cfg)"

section \<open>Property selectors\<close>

type_synonym PropertyMatches = "nat \<times> string list"

definition datasetWithin :: "string \<Rightarrow> string \<Rightarrow> bool" where
  "datasetWithin name base \<longleftrightarrow> \<not> ContainsChar name (CHR ''@'')
     \<and> (base = [] \<or> name = base \<or> HasPrefix name (base @ ''/''))"

definition stagingDataset :: "datasetSelector \<Rightarrow> string \<Rightarrow> zfs_error + string" where
  "stagingDataset selector stagingRoot =
     (if stagingRoot = [] then Inr []
      else bindE (ds_Filesystems selector) (\<lambda>filesystems.
             Inr (ContainingFilesystem filesystems stagingRoot)))"

definition in_staging :: "string \<Rightarrow> string \<Rightarrow> bool" where
  "in_staging staging name \<longleftrightarrow> staging \<noteq> [] \<and> (name = staging \<or> HasPrefix name (staging @ ''/''))"

fun select_datasets ::
  "datasetSelector \<Rightarrow> ZFSPropertySource \<Rightarrow> string \<Rightarrow> PropertyRecord list \<Rightarrow> zfs_error + string list" where
  "select_datasets selector property staging [] = Inr []"
| "select_datasets selector property staging ((name, v) # records) =
     (if v \<noteq> zq_Value property \<or> \<not> datasetWithin name (zq_Under property)
      then select_datasets selector property staging records
      else if in_staging staging name then select_datasets selector property staging records
      else
        bindE (ds_UserProperty selector name (zq_Name property)) (\<lambda>current.
        bindE (ds_PropertySource selector name (zq_Name property)) (\<lambda>source.
        if current \<noteq> zq_Value property \<or> source \<noteq> ''local''
        then select_datasets selector property staging records
        else bindE (select_datasets selector property staging records) (\<lambda>rest. Inr (name # rest)))))"

definition selectDatasets ::
  "datasetSelector \<Rightarrow> ZFSPropertySource \<Rightarrow> string \<Rightarrow> zfs_error + string list" where
  "selectDatasets selector property staging =
     bindE (ds_LocalProperty selector (zq_Name property) ''filesystem'' (zq_Under property)) (\<lambda>records.
       select_datasets selector property staging records)"

fun resolve_property_sources ::
  "datasetSelector \<Rightarrow> string \<Rightarrow> nat \<Rightarrow> Source list \<Rightarrow> select_error + PropertyMatches list" where
  "resolve_property_sources selector staging index [] = Inr []"
| "resolve_property_sources selector staging index (source # sources) =
     (case src_ZFSProperty source of
        None \<Rightarrow> resolve_property_sources selector staging (Suc index) sources
      | Some property \<Rightarrow> (case selectDatasets selector property staging of
          Inl e \<Rightarrow> Inl (SelectFailed index e)
        | Inr datasets \<Rightarrow>
            if datasets = [] then Inl (PropertyNoMatch index)
            else bindE (resolve_property_sources selector staging (Suc index) sources) (\<lambda>matches.
                   Inr ((index, datasets) # matches))))"

definition ResolvePropertySources ::
  "datasetSelector \<Rightarrow> string \<Rightarrow> Config \<Rightarrow> select_error + PropertyMatches list" where
  "ResolvePropertySources selector stagingRoot cfg =
     (case stagingDataset selector stagingRoot of
        Inl e \<Rightarrow> Inl (StagingDatasetFailed e)
      | Inr staging \<Rightarrow> resolve_property_sources selector staging 0 (cfg_Sources cfg))"

definition path_source :: "Source \<Rightarrow> string \<Rightarrow> Source" where
  "path_source source dataset = \<lparr> src_Compression = src_Compression source, src_K8s = None,
     src_ZFSPath = Some \<lparr> zp_Name = dataset, zp_Snapshot = [], zp_Prefix = [] \<rparr>,
     src_ZFSProperty = None, src_Label = None \<rparr>"

definition expand_property :: "PropertyMatches list \<Rightarrow> nat \<Rightarrow> Source \<Rightarrow> Source list" where
  "expand_property matches index source =
     (if src_ZFSProperty source = None then [source]
      else map (path_source source) (matches_index matches index))"

definition expandPropertySources :: "Source list \<Rightarrow> PropertyMatches list \<Rightarrow> Source list" where
  "expandPropertySources sources matches = expand_at (expand_property matches) 0 sources"

section \<open>Validation and sizing\<close>

definition newer_info :: "SnapshotInfo \<Rightarrow> SnapshotInfo \<Rightarrow> bool" where
  "newer_info a b \<longleftrightarrow> si_Creation a > si_Creation b
     \<or> (si_Creation a = si_Creation b \<and> si_CreateTXG a > si_CreateTXG b)"

fun newest_info :: "string \<Rightarrow> SnapshotInfo option \<Rightarrow> SnapshotInfo list \<Rightarrow> SnapshotInfo option" where
  "newest_info prefix0 newest [] = newest"
| "newest_info prefix0 newest (snapshot # snapshots) =
     (if \<not> HasPrefix (si_Name snapshot) prefix0 then newest_info prefix0 newest snapshots
      else if (case newest of None \<Rightarrow> True | Some n \<Rightarrow> newer_info snapshot n)
      then newest_info prefix0 (Some snapshot) snapshots
      else newest_info prefix0 newest snapshots)"

definition newestSnapshot :: "poolInspector \<Rightarrow> string \<Rightarrow> string \<Rightarrow> newest_error + string" where
  "newestSnapshot pool dataset prefix0 =
     (case pi_Snapshots pool dataset of
        Inl e \<Rightarrow> Inl (ListSnapshots e)
      | Inr snapshots \<Rightarrow> (case newest_info prefix0 None snapshots of
          None \<Rightarrow> if prefix0 \<noteq> [] then Inl (NoPrefixMatch prefix0) else Inl NoSnapshots
        | Some newest \<Rightarrow> Inr (dataset @ ''@'' @ si_Name newest)))"

definition property_reader :: "poolInspector \<Rightarrow> string \<Rightarrow> string \<Rightarrow> string option" where
  "property_reader pool name property =
     (case pi_UserProperty pool name property of Inl e \<Rightarrow> None | Inr v \<Rightarrow> Some v)"

fun verify_snapshots :: "poolInspector \<Rightarrow> nat \<Rightarrow> ResolvedSnapshot list \<Rightarrow> data_error + unit" where
  "verify_snapshots pool index [] = Inr ()"
| "verify_snapshots pool index (snapshot # snapshots) =
     (if rs_SnapshotName snapshot = [] then
        (case VerifyDataset (property_reader pool) (rs_ZFSPath snapshot) of
           Inl e \<Rightarrow> Inl (VerifyDatasetFailed index e) | Inr _ \<Rightarrow> verify_snapshots pool index snapshots)
      else
        (case k8s_Verify (property_reader pool) \<lparr> sn_Namespace = [], sn_VolumeSnapshot = [], sn_PVC = [],
             sn_Dataset = rs_Dataset snapshot, sn_SnapshotName = rs_SnapshotName snapshot, sn_Handle = [] \<rparr> of
           Inl e \<Rightarrow> Inl (VerifySnapshotFailed index e) | Inr _ \<Rightarrow> verify_snapshots pool index snapshots))"

definition resolveDataSource ::
  "poolInspector \<Rightarrow> nat \<Rightarrow> Source \<Rightarrow> (nat \<rightharpoonup> ResolvedArchive) \<Rightarrow> data_error + ResolvedArchive" where
  "resolveDataSource pool index source k8sByIndex =
     (if src_K8s source \<noteq> None then
        (case k8sByIndex index of
           None \<Rightarrow> Inl (NotResolved index)
         | Some archive \<Rightarrow> bindE (verify_snapshots pool index (ra_Snapshots archive)) (\<lambda>_. Inr archive))
      else (case src_ZFSPath source of
          None \<Rightarrow> Inl (NotPathSource index)
        | Some path \<Rightarrow> bindE
            (if zp_Snapshot path = SnapshotNewest then
               (case newestSnapshot pool (zp_Name path) (zp_Prefix path) of
                  Inl e \<Rightarrow> Inl (NewestFailed index e) | Inr newest \<Rightarrow> Inr newest)
             else Inr (zp_Name path))
            (\<lambda>name. case pi_UserProperties pool name of
                Inl e \<Rightarrow> Inl (PathMissing index e)
              | Inr _ \<Rightarrow> Inr (new_archive index source
                  [\<lparr> rs_ZFSPath = name, rs_Dataset = [], rs_SnapshotName = [], rs_Namespace = [],
                     rs_VolumeSnapshot = [], rs_PVC = [], rs_RunScoped = False, rs_CreatedAt = 0 \<rparr>]))))"

fun sum_referenced :: "poolInspector \<Rightarrow> nat \<Rightarrow> int \<Rightarrow> ResolvedSnapshot list \<Rightarrow> data_error + int" where
  "sum_referenced pool index logical [] = Inr logical"
| "sum_referenced pool index logical (snapshot # snapshots) =
     (case pi_LogicalReferenced pool (rs_ZFSPath snapshot) of
        Inl e \<Rightarrow> Inl (EstimateFailed index (rs_ZFSPath snapshot) e)
      | Inr referenced \<Rightarrow> sum_referenced pool index (logical + referenced) snapshots)"

definition estimate :: "poolInspector \<Rightarrow> nat \<Rightarrow> ResolvedArchive \<Rightarrow> rat \<Rightarrow> rat \<Rightarrow> data_error + int \<times> int" where
  "estimate pool index archive overhead par2 =
     bindE (sum_referenced pool index 0 (ra_Snapshots archive)) (\<lambda>logical.
       Inr (logical, feasibilityEstimate logical overhead par2))"

fun resolve_and_check ::
  "poolInspector \<Rightarrow> rat \<Rightarrow> rat \<Rightarrow> int \<Rightarrow> (nat \<rightharpoonup> ResolvedArchive) \<Rightarrow> nat \<Rightarrow> Source list
     \<Rightarrow> data_error + ResolvedArchive list" where
  "resolve_and_check pool overhead par2 capacity k8sByIndex index [] = Inr []"
| "resolve_and_check pool overhead par2 capacity k8sByIndex index (source # sources) =
     bindE (resolveDataSource pool index source k8sByIndex) (\<lambda>archive.
     bindE (estimate pool index archive overhead par2) (\<lambda>(logical, est).
       if est > capacity then Inl (Infeasible index est capacity)
       else bindE (resolve_and_check pool overhead par2 capacity k8sByIndex (Suc index) sources) (\<lambda>rest.
              Inr (archive\<lparr> ra_LogicalBytes := logical, ra_EstimatedBytes := est \<rparr> # rest))))"

definition ResolveAndCheck ::
  "poolInspector \<Rightarrow> Config \<Rightarrow> ResolvedArchive list \<Rightarrow> data_error + ResolvedArchive list" where
  "ResolveAndCheck pool cfg k8sArchives =
     (let overhead = EffectiveFeasibilityOverhead cfg; par2 = par2Fraction (cfg_Redundancy cfg);
          capacity = usableCapacity (lib_TapeCapacityBytes (cfg_Library cfg));
          k8sByIndex = foldl (\<lambda>m archive. m(ra_SourceIndex archive \<mapsto> archive)) Map.empty k8sArchives in
      bindE (resolve_and_check pool overhead par2 capacity k8sByIndex 0 (cfg_Sources cfg)) (\<lambda>resolved.
        (case checkPayloadBound resolved (DeriveSliceSize resolved) of
           Inl e \<Rightarrow> Inl (PayloadExceeded e) | Inr _ \<Rightarrow> Inr resolved)))"

section \<open>The phase\<close>

definition mapError :: "('e \<Rightarrow> 'f) \<Rightarrow> 'e + 'a \<Rightarrow> 'f + 'a" where
  "mapError f m = (case m of Inl e \<Rightarrow> Inl (f e) | Inr a \<Rightarrow> Inr a)"

definition expand_properties_step ::
  "datasetSelector \<Rightarrow> string \<Rightarrow> Config \<Rightarrow> resolve_error + Config" where
  "expand_properties_step selector stagingRoot cfg =
     (if \<exists>source \<in> set (cfg_Sources cfg). src_ZFSProperty source \<noteq> None
      then bindE (mapError Selecting (ResolvePropertySources selector stagingRoot cfg)) (\<lambda>matches.
             Inr (cfg\<lparr> cfg_Sources := expandPropertySources (cfg_Sources cfg) matches \<rparr>))
      else Inr cfg)"

definition expand_claims_step :: "claimResolver option \<Rightarrow> Config \<Rightarrow> resolve_error + Config" where
  "expand_claims_step newClaimResolver cfg =
     (if \<exists>source \<in> set (cfg_Sources cfg). isClaim source
      then bindE
        (if \<exists>source \<in> set (cfg_Sources cfg). isClaimSelector source
         then mapError Control (ListClaimSources newClaimResolver cfg) else Inr [])
        (\<lambda>matches. bindE
          (mapError (\<lambda>(owner, claim, label). LabelCollision owner claim label)
            (expandClaimSources (cfg_Sources cfg) matches))
          (\<lambda>expanded. Inr (cfg\<lparr> cfg_Sources := expanded \<rparr>)))
      else Inr cfg)"

text \<open>The sources after expansion, the planned work list and the slice size.\<close>

definition resolvePhase ::
  "datasetSelector \<Rightarrow> string \<Rightarrow> snapshotResolver option \<Rightarrow> claimResolver option \<Rightarrow> poolInspector
     \<Rightarrow> string \<Rightarrow> Config \<Rightarrow> resolve_error + Source list \<times> ResolvedArchive list \<times> int" where
  "resolvePhase selector stagingRoot newResolver newClaimResolver pool runID cfg =
     bindE (expand_properties_step selector stagingRoot cfg) (\<lambda>cfg1.
     bindE (expand_claims_step newClaimResolver cfg1) (\<lambda>cfg2.
     bindE (mapError Control (ResolveK8sSources newResolver newClaimResolver cfg2)) (\<lambda>k8sArchives.
     bindE (mapError Data (ResolveAndCheck pool cfg2 k8sArchives)) (\<lambda>resolved.
       let planned = fst (planRunScopedSnapshots resolved runID) in
       Inr (cfg_Sources cfg2, planned, DeriveSliceSize planned)))))"

section \<open>Expansion\<close>

lemma expand_at_all:
  "(\<And>i s x. s \<in> set sources \<Longrightarrow> x \<in> set (f i s) \<Longrightarrow> P x) \<Longrightarrow> x \<in> set (expand_at f i sources) \<Longrightarrow> P x"
  by (induction sources arbitrary: i) auto

definition claim_unlabelled :: "Source \<Rightarrow> bool" where
  "claim_unlabelled s \<longleftrightarrow> isClaim s \<and> src_Label s = None"

lemma label_claims_keeps:
  "label_claims ns lo sources = Inr expanded \<Longrightarrow> length expanded = length sources
     \<and> (\<forall>i < length sources. expanded ! i = (if claim_unlabelled (sources ! i)
          then derive_label ns (sources ! i) else sources ! i))"
proof (induction sources arbitrary: lo expanded)
  case (Cons s sources)
  obtain rest lo' where rest: "label_claims ns lo' sources = Inr rest"
    "expanded = (if claim_unlabelled s then derive_label ns s else s) # rest"
    using Cons.prems by (auto simp: Let_def claim_unlabelled_def run_simps split: if_splits)
  show ?case using Cons.IH [OF rest(1)] by (auto simp: rest(2) nth_Cons split: nat.splits)
qed simp

lemma derive_label_same:
  "src_K8s (derive_label ns s) = src_K8s s" "src_ZFSProperty (derive_label ns s) = src_ZFSProperty s"
  "isClaim (derive_label ns s) = isClaim s" "isClaimSelector (derive_label ns s) = isClaimSelector s"
  by (simp_all add: derive_label_def Let_def isClaim_def isClaimSelector_def)

lemma label_claims_owner:
  assumes "label_claims ns lo sources = Inr expanded" "i < length sources" "claim_unlabelled (sources ! i)"
  shows "lo (sourceLabel (derive_label ns (sources ! i))) \<in> {None, Some (claim_id (sources ! i))}"
  using assms
proof (induction sources arbitrary: lo expanded i)
  case (Cons s sources)
  show ?case
  proof (cases i)
    case 0
    then show ?thesis using Cons.prems
      by (auto simp: Let_def claim_unlabelled_def run_simps split: if_splits)
  next
    case (Suc k)
    have k: "k < length sources" "claim_unlabelled (sources ! k)" using Suc Cons.prems by auto
    show ?thesis
    proof (cases "claim_unlabelled s")
      case True
      let ?l = "sourceLabel (derive_label ns s)"
      obtain rest where r: "label_claims ns (lo(?l \<mapsto> claim_id s)) sources = Inr rest"
        and lo: "lo ?l \<in> {None, Some (claim_id s)}"
        using Cons.prems(1) True by (auto simp: Let_def claim_unlabelled_def run_simps split: if_splits)
      show ?thesis using Cons.IH [OF r k] lo Suc by (auto split: if_splits)
    next
      case False
      then obtain rest where r: "label_claims ns lo sources = Inr rest"
        using Cons.prems(1) by (auto simp: Let_def claim_unlabelled_def run_simps split: if_splits)
      show ?thesis using Cons.IH [OF r k] Suc by simp
    qed
  qed
qed simp

lemma label_claims_distinct:
  assumes "label_claims ns lo sources = Inr expanded" "i < j" "j < length sources"
    "claim_unlabelled (sources ! i)" "claim_unlabelled (sources ! j)" "claim_id (sources ! i) \<noteq> claim_id (sources ! j)"
  shows "sourceLabel (derive_label ns (sources ! i)) \<noteq> sourceLabel (derive_label ns (sources ! j))"
  using assms
proof (induction sources arbitrary: lo expanded i j)
  case (Cons s sources)
  obtain k where j: "j = Suc k" using Cons.prems by (cases j) auto
  show ?case
  proof (cases i)
    case 0
    let ?l = "sourceLabel (derive_label ns s)"
    obtain rest where r: "label_claims ns (lo(?l \<mapsto> claim_id s)) sources = Inr rest"
      using Cons.prems 0 by (auto simp: Let_def claim_unlabelled_def run_simps split: if_splits)
    show ?thesis using label_claims_owner [OF r, of k] Cons.prems 0 j by (auto split: if_splits)
  next
    case (Suc i')
    obtain rest lo' where r: "label_claims ns lo' sources = Inr rest"
      using Cons.prems(1) by (auto simp: Let_def run_simps split: if_splits)
    show ?thesis using Cons.IH [OF r, of i' k] Cons.prems Suc j by simp
  qed
qed simp

text \<open>Claims in different places never share an archive label. Of the expanded sources, two
  claims without an operator's label get different derived labels unless they are the same claim,
  and expansion changes nothing of a source but such a label.\<close>

theorem expand_claims_labels_distinct:
  assumes "expandClaimSources sources matches = Inr expanded"
    and "base = expand_at (expand_claim matches) 0 sources"
    and "i < length base" "j < length base" "claim_unlabelled (base ! i)" "claim_unlabelled (base ! j)"
    and "claim_id (base ! i) \<noteq> claim_id (base ! j)"
  shows "length expanded = length base \<and> expanded ! i = (base ! i)\<lparr> src_Label := src_Label (expanded ! i) \<rparr>
    \<and> sourceLabel (expanded ! i) \<noteq> sourceLabel (expanded ! j)"
proof -
  let ?ns = "claim_namespaces base"
  have l: "label_claims ?ns Map.empty base = Inr expanded"
    using assms(1) by (simp add: expandClaimSources_def Let_def assms(2))
  have e: "expanded ! k = derive_label ?ns (base ! k)" if "k < length base" "claim_unlabelled (base ! k)" for k
    using label_claims_keeps [OF l] that by simp
  have ne: "i \<noteq> j" using assms(7) by auto
  have "sourceLabel (derive_label ?ns (base ! i)) \<noteq> sourceLabel (derive_label ?ns (base ! j))"
  proof (cases "i < j")
    case True
    then show ?thesis using label_claims_distinct [OF l] assms by blast
  next
    case False
    then show ?thesis using label_claims_distinct [OF l, of j i] assms ne by fastforce
  qed
  then show ?thesis
    using e assms label_claims_keeps [OF l] by (simp add: derive_label_def Let_def)
qed

section \<open>Selection by property\<close>

definition selects :: "datasetSelector \<Rightarrow> ZFSPropertySource \<Rightarrow> string \<Rightarrow> string \<Rightarrow> bool" where
  "selects selector property staging name \<longleftrightarrow> datasetWithin name (zq_Under property)
     \<and> \<not> in_staging staging name
     \<and> ds_UserProperty selector name (zq_Name property) = Inr (zq_Value property)
     \<and> ds_PropertySource selector name (zq_Name property) = Inr ''local''"

lemma select_datasets_exact:
  "select_datasets selector property staging records = Inr ds \<Longrightarrow> set ds =
     {name. (name, zq_Value property) \<in> set records \<and> selects selector property staging name}"
proof (induction records arbitrary: ds)
  case (Cons r records)
  let ?sel = "selects selector property staging"
  obtain name v where r: "r = (name, v)" by (cases r)
  show ?case
  proof (cases "v \<noteq> zq_Value property \<or> \<not> datasetWithin name (zq_Under property) \<or> in_staging staging name")
    case True
    then have "select_datasets selector property staging records = Inr ds"
      using Cons.prems by (auto simp: r split: if_splits)
    then show ?thesis using Cons.IH True by (auto simp: r selects_def)
  next
    case False
    then obtain c src where c: "ds_UserProperty selector name (zq_Name property) = Inr c"
      "ds_PropertySource selector name (zq_Name property) = Inr src"
      using Cons.prems by (auto simp: r run_simps)
    obtain rest where rest: "select_datasets selector property staging records = Inr rest"
      using Cons.prems False by (auto simp: r c run_simps split: if_splits)
    have sel: "?sel name \<longleftrightarrow> c = zq_Value property \<and> src = ''local''"
      using False by (simp add: selects_def c)
    have "ds = (if ?sel name then name # rest else rest)"
      using Cons.prems False rest unfolding sel by (simp add: r c split: if_splits)
    moreover have "v = zq_Value property" using False by simp
    ultimately show ?thesis using Cons.IH [OF rest] by (simp add: r) blast
  qed
qed simp

text \<open>A property selector selects exactly the datasets it describes: those listed with the
  property at the wanted value, at or below the configured root, no snapshot, outside the staging
  dataset and everything below it, whose property when read on its own has that value and was set
  locally. Fabricated list lines select nothing.\<close>

theorem select_datasets_sound:
  assumes "selectDatasets selector property staging = Inr ds"
  shows "\<exists>records. ds_LocalProperty selector (zq_Name property) ''filesystem'' (zq_Under property) = Inr records
    \<and> set ds = {name. (name, zq_Value property) \<in> set records
        \<and> CHR ''@'' \<notin> set name
        \<and> (zq_Under property = [] \<or> name = zq_Under property \<or> prefix (zq_Under property @ ''/'') name)
        \<and> \<not> in_staging staging name
        \<and> ds_UserProperty selector name (zq_Name property) = Inr (zq_Value property)
        \<and> ds_PropertySource selector name (zq_Name property) = Inr ''local''}"
proof -
  obtain records where r: "ds_LocalProperty selector (zq_Name property) ''filesystem'' (zq_Under property) = Inr records"
    "select_datasets selector property staging records = Inr ds"
    using assms by (auto simp: selectDatasets_def run_simps)
  show ?thesis
    using select_datasets_exact [OF r(2)] r(1)
    by (intro exI [of _ records]) (simp add: selects_def datasetWithin_def ContainsChar_def HasPrefix_def)
qed

section \<open>The newest snapshot\<close>

lemma newest_info_spec:
  "newest_info p newest snapshots = Some s \<Longrightarrow>
     (newest = Some s \<or> s \<in> set snapshots \<and> HasPrefix (si_Name s) p)
     \<and> (\<forall>n. newest = Some n \<longrightarrow> \<not> newer_info n s)
     \<and> (\<forall>x \<in> set snapshots. HasPrefix (si_Name x) p \<longrightarrow> \<not> newer_info x s)"
proof (induction snapshots arbitrary: newest)
  case Nil
  then show ?case by (simp add: newer_info_def)
next
  case (Cons x snapshots)
  have trans: "\<not> newer_info a s" if "newer_info b a" "\<not> newer_info b s" for a b
    using that by (auto simp: newer_info_def)
  have trans': "\<not> newer_info a s" if "\<not> newer_info a b" "\<not> newer_info b s" for a b
    using that by (auto simp: newer_info_def)
  show ?case
  proof (cases "HasPrefix (si_Name x) p")
    case False
    then show ?thesis using Cons.IH [of newest] Cons.prems by auto
  next
    case True
    show ?thesis
    proof (cases "case newest of None \<Rightarrow> True | Some n \<Rightarrow> newer_info x n")
      case take: True
      then show ?thesis using True Cons.IH [of "Some x"] Cons.prems trans
        by (cases newest) auto
    next
      case keep: False
      then obtain n where n: "newest = Some n" "\<not> newer_info x n" by (cases newest) auto
      then show ?thesis using True keep Cons.IH [of newest] Cons.prems trans' [of x n] by auto
    qed
  qed
qed

lemma newest_info_None:
  "newest_info p newest snapshots = None \<longleftrightarrow> newest = None \<and> (\<forall>x \<in> set snapshots. \<not> HasPrefix (si_Name x) p)"
  by (induction snapshots arbitrary: newest) (auto split: option.splits)

section \<open>The work list\<close>

definition members_ok :: "ResolvedSnapshot list \<Rightarrow> bool" where
  "members_ok snapshots \<longleftrightarrow> distinct (map memberName snapshots)
     \<and> (1 < length snapshots \<longrightarrow> (\<forall>s \<in> set snapshots. length (memberName s) \<le> maxMemberNameBytes
          \<and> CHR ''@'' \<in> set (rs_ZFSPath s)))"

definition fresh_snapshots :: "ResolvedSnapshot list \<Rightarrow> bool" where
  "fresh_snapshots snapshots \<longleftrightarrow> (\<forall>s \<in> set snapshots. \<not> rs_RunScoped s
     \<and> (rs_Dataset s \<noteq> [] \<longrightarrow> CHR ''@'' \<in> set (rs_ZFSPath s)))"

definition archive_for :: "nat \<Rightarrow> Source \<Rightarrow> ResolvedArchive \<Rightarrow> bool" where
  "archive_for i source a \<longleftrightarrow> ra_SourceIndex a = i \<and> ra_Label a = sourceLabel source
     \<and> ra_Compression a = compressionEnabled source
     \<and> members_ok (ra_Snapshots a) \<and> fresh_snapshots (ra_Snapshots a)"

lemma check_member_names_ok:
  "check_member_names i owners snapshots = Inr () \<longleftrightarrow>
     distinct (map memberName snapshots) \<and> (\<forall>s \<in> set snapshots. owners (memberName s) = None
       \<and> length (memberName s) \<le> maxMemberNameBytes)"
  by (induction snapshots arbitrary: owners) (auto simp: Let_def image_iff split: option.splits)

lemma snapshotFromK8s_path: "CHR ''@'' \<in> set (rs_ZFSPath (snapshotFromK8s s))"
  by (simp add: snapshotFromK8s_def Snapshot_ZFSPath_def)

lemma resolveClaimSource_for:
  "resolveClaimSource resolver i source = Inr a \<Longrightarrow> archive_for i source a"
  by (auto simp: resolveClaimSource_def Let_def archive_for_def new_archive_def members_ok_def
      fresh_snapshots_def split: if_splits sum.splits claim_error.splits)

lemma resolveK8sSource_for:
  assumes "resolveK8sSource resolver i source = Inr a"
  shows "archive_for i source a"
proof -
  have fresh: "fresh_snapshots (map snapshotFromK8s ms)" for ms
    using snapshotFromK8s_path by (auto simp: fresh_snapshots_def snapshotFromK8s_def)
  consider (grp) ms where "a = new_archive i source (map snapshotFromK8s ms)"
      "checkMemberNames i (map snapshotFromK8s ms) = Inr ()"
    | (one) s where "a = new_archive i source [snapshotFromK8s s]"
    using assms by (auto simp: resolveK8sSource_def Let_def new_archive_def run_simps
        split: if_splits sum.splits)
  then show ?thesis
  proof cases
    case grp
    then show ?thesis using fresh snapshotFromK8s_path
      by (auto simp: archive_for_def new_archive_def members_ok_def checkMemberNames_def
          check_member_names_ok)
  next
    case one
    then show ?thesis using fresh [of "[s]"]
      by (simp add: archive_for_def new_archive_def members_ok_def)
  qed
qed

lemma resolve_k8s_sources_for:
  "resolve_k8s_sources nr nc i sources = Inr archives \<Longrightarrow> a \<in> set archives \<Longrightarrow>
     \<exists>k < length sources. archive_for (i + k) (sources ! k) a"
proof (induction sources arbitrary: i archives)
  case (Cons s sources)
  show ?case
  proof (cases "src_K8s s = None")
    case True
    then obtain k where "k < length sources" "archive_for (Suc i + k) (sources ! k) a"
      using Cons.IH [of "Suc i" archives] Cons.prems by auto
    then show ?thesis by (intro exI [of _ "Suc k"]) simp
  next
    case False
    then obtain b rest where b: "archives = b # rest" "archive_for i s b"
      "resolve_k8s_sources nr nc (Suc i) sources = Inr rest"
      using Cons.prems(1) resolveClaimSource_for resolveK8sSource_for
      by (auto simp: run_simps split: if_splits option.splits)
    show ?thesis
    proof (cases "a = b")
      case True
      then show ?thesis using b by auto
    next
      case False
      then obtain k where "k < length sources" "archive_for (Suc i + k) (sources ! k) a"
        using Cons.IH [OF b(3)] Cons.prems(2) b(1) by auto
      then show ?thesis by (intro exI [of _ "Suc k"]) simp
    qed
  qed
qed simp

lemma foldl_lookup:
  "foldl (\<lambda>m x. m(f x \<mapsto> x)) m xs i = Some x \<Longrightarrow> (x \<in> set xs \<and> f x = i) \<or> m i = Some x"
proof (induction xs arbitrary: m)
  case (Cons a xs)
  then show ?case using Cons.IH [of "m(f a \<mapsto> a)"] by (auto split: if_splits)
qed simp

lemma resolveDataSource_for:
  assumes "resolveDataSource pool i source k8s = Inr a"
    and "\<And>b. k8s i = Some b \<Longrightarrow> archive_for i source b"
  shows "archive_for i source a"
  using assms by (auto simp: resolveDataSource_def run_simps archive_for_def new_archive_def members_ok_def
      fresh_snapshots_def split: if_splits sum.splits option.splits)

definition sized :: "rat \<Rightarrow> rat \<Rightarrow> int \<Rightarrow> ResolvedArchive \<Rightarrow> bool" where
  "sized overhead par2 capacity a \<longleftrightarrow> ra_EstimatedBytes a = feasibilityEstimate (ra_LogicalBytes a) overhead par2
     \<and> ra_EstimatedBytes a \<le> capacity"

lemma resolve_and_check_for:
  assumes "resolve_and_check pool overhead par2 capacity k8s i sources = Inr resolved"
    and "\<And>k b. k < length sources \<Longrightarrow> k8s (i + k) = Some b \<Longrightarrow> archive_for (i + k) (sources ! k) b"
  shows "length resolved = length sources \<and> (\<forall>k < length sources.
    archive_for (i + k) (sources ! k) (resolved ! k) \<and> sized overhead par2 capacity (resolved ! k))"
  using assms
proof (induction sources arbitrary: i resolved)
  case (Cons s sources)
  obtain a logical rest where a: "resolveDataSource pool i s k8s = Inr a"
    "\<not> feasibilityEstimate logical overhead par2 > capacity"
    "resolve_and_check pool overhead par2 capacity k8s (Suc i) sources = Inr rest"
    "resolved = a\<lparr> ra_LogicalBytes := logical, ra_EstimatedBytes := feasibilityEstimate logical overhead par2 \<rparr> # rest"
    using Cons.prems(1) by (auto simp: run_simps estimate_def split: if_splits)
  have "archive_for i s a" using Cons.prems(2) [of 0] by (intro resolveDataSource_for [OF a(1)]) simp
  then have hd: "archive_for i s (hd resolved) \<and> sized overhead par2 capacity (hd resolved)"
    using a(2) by (simp add: a(4) archive_for_def sized_def)
  have tl: "length rest = length sources \<and> (\<forall>k < length sources.
      archive_for (Suc i + k) (sources ! k) (rest ! k) \<and> sized overhead par2 capacity (rest ! k))"
  proof (rule Cons.IH [OF a(3)])
    fix k b assume "k < length sources" "k8s (Suc i + k) = Some b"
    then show "archive_for (Suc i + k) (sources ! k) b" using Cons.prems(2) [of "Suc k"] by simp
  qed
  show ?case
    using hd tl by (auto simp: a(4) nth_Cons split: nat.splits)
qed simp

lemma memberName_plan:
  assumes "\<not> rs_RunScoped s \<and> (rs_Dataset s \<noteq> [] \<longrightarrow> CHR ''@'' \<in> set (rs_ZFSPath s))"
  shows "memberName (plan_snapshot name s) = memberName s"
proof (cases "needs_run_snapshot s")
  case True
  then have n: "rs_Dataset s = []" "CHR ''@'' \<notin> set (rs_ZFSPath s)"
    by (auto simp: needs_run_snapshot_def ContainsChar_def)
  then have "fst (datasetAndSnapshot (plan_snapshot name s)) = rs_ZFSPath s"
    using True Cut_append [of "CHR ''@''" "[]" name]
    by (simp add: datasetAndSnapshot_def plan_snapshot_def)
  moreover have "fst (datasetAndSnapshot s) = rs_ZFSPath s"
    using n by (simp add: datasetAndSnapshot_def Cut_none)
  ultimately show ?thesis using True by (simp add: memberName_def plan_snapshot_def Let_def)
qed (simp add: plan_snapshot_def)

lemma plan_archive_for:
  assumes "archive_for i source a"
  shows "ra_SourceIndex (plan_archive name a) = i \<and> ra_Label (plan_archive name a) = sourceLabel source
    \<and> ra_Compression (plan_archive name a) = compressionEnabled source
    \<and> distinct (map memberName (ra_Snapshots (plan_archive name a)))
    \<and> (\<forall>s \<in> set (ra_Snapshots (plan_archive name a)). CHR ''@'' \<in> set (rs_ZFSPath s)
         \<and> (1 < length (ra_Snapshots a) \<longrightarrow> length (memberName s) \<le> maxMemberNameBytes))"
proof -
  have f: "fresh_snapshots (ra_Snapshots a)" and m: "members_ok (ra_Snapshots a)"
    using assms by (simp_all add: archive_for_def)
  have names: "memberName (plan_snapshot name s) = memberName s" if "s \<in> set (ra_Snapshots a)" for s
    using f that by (intro memberName_plan) (auto simp: fresh_snapshots_def)
  have "map memberName (map (plan_snapshot name) (ra_Snapshots a)) = map memberName (ra_Snapshots a)"
    using names by simp
  then have "distinct (map memberName (map (plan_snapshot name) (ra_Snapshots a)))"
    using m by (simp only: members_ok_def)
  moreover have "CHR ''@'' \<in> set (rs_ZFSPath (plan_snapshot name s))" if "s \<in> set (ra_Snapshots a)" for s
    using f that by (cases "needs_run_snapshot s")
      (auto simp: plan_snapshot_simps needs_run_snapshot_def fresh_snapshots_def ContainsChar_def)
  ultimately show ?thesis using assms m names
    by (auto simp: plan_archive_def archive_for_def members_ok_def)
qed

definition expanded_source :: "Source \<Rightarrow> bool" where
  "expanded_source s \<longleftrightarrow> src_ZFSProperty s = None \<and> \<not> isClaimSelector s"

lemma mapError_Inr [simp]: "mapError f m = Inr a \<longleftrightarrow> m = Inr a"
  by (cases m) (simp_all add: mapError_def)

lemma Sources_update_self [simp]: "\<exists>S. cfg = cfg\<lparr> cfg_Sources := S \<rparr>" for cfg :: Config
  by (rule exI [of _ "cfg_Sources cfg"]) simp

lemma no_error_unit: "(\<forall>e. m \<noteq> Inl e) \<longleftrightarrow> m = Inr ()" for m :: "'e + unit"
  by (cases m) auto

lemma expand_properties_step_ok:
  assumes "expand_properties_step selector stagingRoot cfg = Inr cfg1"
  shows "(\<exists>S. cfg1 = cfg\<lparr> cfg_Sources := S \<rparr>) \<and> (\<forall>s \<in> set (cfg_Sources cfg1). src_ZFSProperty s = None)"
proof -
  have "src_ZFSProperty x = None" if "x \<in> set (expandPropertySources sources matches)" for x sources matches
    using that unfolding expandPropertySources_def
    by (rule expand_at_all [rotated]) (auto simp: expand_property_def path_source_def split: if_splits)
  then show ?thesis using assms by (auto simp: expand_properties_step_def run_simps split: if_splits)
qed

lemma expand_claims_step_ok:
  assumes "expand_claims_step newClaimResolver cfg = Inr cfg1"
    and "\<forall>s \<in> set (cfg_Sources cfg). src_ZFSProperty s = None"
  shows "(\<exists>S. cfg1 = cfg\<lparr> cfg_Sources := S \<rparr>) \<and> (\<forall>s \<in> set (cfg_Sources cfg1). expanded_source s)"
proof (cases "\<exists>source \<in> set (cfg_Sources cfg). isClaim source")
  case False
  then have "cfg1 = cfg" using assms(1) by (simp add: expand_claims_step_def)
  then show ?thesis using assms(2) False by (auto simp: expanded_source_def isClaimSelector_def)
next
  case True
  then obtain matches expanded where e: "expandClaimSources (cfg_Sources cfg) matches = Inr expanded"
    "cfg1 = cfg\<lparr> cfg_Sources := expanded \<rparr>"
    using assms(1) by (auto simp: expand_claims_step_def run_simps)
  let ?base = "expand_at (expand_claim matches) 0 (cfg_Sources cfg)"
  have base: "expanded_source x" if "x \<in> set ?base" for x
    using that by (rule expand_at_all [rotated])
      (use assms(2) in \<open>auto simp: expand_claim_def claim_source_def expanded_source_def isClaimSelector_def
        split: if_splits\<close>)
  have "label_claims (claim_namespaces ?base) Map.empty ?base = Inr expanded"
    using e by (simp add: expandClaimSources_def Let_def)
  note keeps = label_claims_keeps [OF this]
  have "expanded_source (expanded ! i)" if "i < length expanded" for i
  proof -
    have "i < length ?base" using keeps that by simp
    then have "expanded_source (?base ! i)" using base nth_mem by blast
    then show ?thesis using keeps \<open>i < length ?base\<close> by (simp add: expanded_source_def derive_label_same)
  qed
  then have "\<forall>s \<in> set expanded. expanded_source s" by (metis in_set_conv_nth)
  then show ?thesis by (auto simp: e)
qed

lemma estimates_cong:
  assumes "map ra_EstimatedBytes r = map ra_EstimatedBytes r'"
  shows "DeriveSliceSize r = DeriveSliceSize r'" "total_estimate r = total_estimate r'" "slice_count sz r = slice_count sz r'"
proof -
  have "map (\<lambda>e. ceilDiv e sz) (map ra_EstimatedBytes r) = map (\<lambda>e. ceilDiv e sz) (map ra_EstimatedBytes r')"
    by (simp only: assms)
  then show "slice_count sz r = slice_count sz r'" by (simp add: slice_count_def o_def)
qed (simp_all add: assms DeriveSliceSize_eq total_estimate_def largest_estimate_def)


text \<open>\<open>snapshot: newest\<close> picks the newest. The name chosen is one of the dataset's snapshots
  whose name starts with the prefix, no other of those is newer by creation time and then by
  transaction group, and an error means there is none or the listing failed.\<close>

theorem newest_snapshot_selects:
  assumes "pi_Snapshots pool dataset = Inr snapshots"
  shows "(\<forall>name. newestSnapshot pool dataset p = Inr name \<longrightarrow>
      (\<exists>s \<in> set snapshots. name = dataset @ ''@'' @ si_Name s \<and> prefix p (si_Name s)
        \<and> (\<forall>x \<in> set snapshots. prefix p (si_Name x) \<longrightarrow>
             si_Creation x < si_Creation s
             \<or> si_Creation x = si_Creation s \<and> si_CreateTXG x \<le> si_CreateTXG s)))
    \<and> ((\<exists>e. newestSnapshot pool dataset p = Inl e) \<longleftrightarrow> (\<forall>s \<in> set snapshots. \<not> prefix p (si_Name s)))"
proof (cases "newest_info p None snapshots")
  case None
  then show ?thesis
    using assms newest_info_None [of p None snapshots] by (simp add: newestSnapshot_def HasPrefix_def)
next
  case (Some s)
  have "s \<in> set snapshots \<and> prefix p (si_Name s) \<and> (\<forall>x \<in> set snapshots. prefix p (si_Name x) \<longrightarrow>
      si_Creation x < si_Creation s \<or> si_Creation x = si_Creation s \<and> si_CreateTXG x \<le> si_CreateTXG s)"
    using newest_info_spec [OF Some] by (auto simp: newer_info_def HasPrefix_def not_less order.order_iff_strict)
  then show ?thesis using assms Some by (auto simp: newestSnapshot_def)
qed

section \<open>Examples\<close>

definition example_selector_source :: Source where
  "example_selector_source = \<lparr> src_Compression = Some False, src_K8s = Some
     \<lparr> k8_APIVersion = ''v1'', k8_Kind = KindPVC, k8_Namespace = [], k8_Name = [],
       k8_LabelSelector = ''app=x'', k8_Select = [] \<rparr>,
     src_ZFSPath = None, src_ZFSProperty = None, src_Label = None \<rparr>"

definition example_property_source :: Source where
  "example_property_source = \<lparr> src_Compression = None, src_K8s = None, src_ZFSPath = None,
     src_ZFSProperty = Some \<lparr> zq_Name = ''a:b'', zq_Value = ''on'', zq_Under = ''p'' \<rparr>, src_Label = None \<rparr>"

definition example_claims :: claimResolver where
  "example_claims = \<lparr> cr_ListClaims = (\<lambda>ns sel. Inr [(''n1'', ''data'')]),
     cr_ResolveClaim = (\<lambda>(ns, n). Inr \<lparr> cl_Namespace = ns, cl_Name = n, cl_Volume = ''v'',
       cl_Dataset = ''p/'' @ ns \<rparr>) \<rparr>"

definition example_pool :: poolInspector where
  "example_pool = \<lparr> pi_UserProperties = (\<lambda>d. Inr Map.empty), pi_UserProperty = (\<lambda>d p. Inr ''true''),
     pi_LogicalReferenced = (\<lambda>d. Inr 1000),
     pi_Snapshots = (\<lambda>d. Inr [\<lparr> si_Name = ''a1'', si_Creation = 5, si_CreateTXG = 1 \<rparr>,
       \<lparr> si_Name = ''a2'', si_Creation = 5, si_CreateTXG = 2 \<rparr>,
       \<lparr> si_Name = ''b'', si_Creation = 9, si_CreateTXG = 3 \<rparr>]) \<rparr>"

definition example_selector :: datasetSelector where
  "example_selector = \<lparr> ds_LocalProperty = (\<lambda>p t base. Inr [(''p/x'', ''on''), (''p/stage/y'', ''on''),
       (''q'', ''on''), (''p/z'', ''off''), (''p/x@s'', ''on'')]),
     ds_UserProperty = (\<lambda>d p. Inr ''on''), ds_PropertySource = (\<lambda>d p. Inr ''local''),
     ds_Filesystems = Inr [\<lparr> fs_Name = ''p/stage'', fs_Mountpoint = ''/stage'', fs_Mounted = True \<rparr>] \<rparr>"

definition example_resolve_config :: Config where
  "example_resolve_config = example_config [example_property_source, example_selector_source]"

definition example_run :: "resolve_error + Source list \<times> ResolvedArchive list \<times> int" where
  "example_run = resolvePhase example_selector ''/stage'' None (Some example_claims) example_pool ''r1''
     example_resolve_config"

lemma example_run_shape:
  "(case example_run of Inl e \<Rightarrow> [] | Inr (sources, planned, sz) \<Rightarrow>
      map (\<lambda>a. (ra_Label a, map rs_ZFSPath (ra_Snapshots a))) planned)
   = [(''x'', [''p/x@tape-archiver-r1'']), (''data'', [''p/n1@tape-archiver-r1''])]"
  by code_simp


definition example_expanded :: "string \<times> string \<times> string + Source list" where
  "example_expanded = expandClaimSources [example_selector_source] [(0, [(''n1'', ''data''), (''n2'', ''data'')])]"

lemma expand_claims_labels_distinct_witness:
  "case example_expanded of Inl e \<Rightarrow> False
   | Inr expanded \<Rightarrow> length expanded = 2 \<and> sourceLabel (expanded ! 0) \<noteq> sourceLabel (expanded ! 1)"
proof -
  let ?base = "[claim_source example_selector_source (''n1'', ''data''),
    claim_source example_selector_source (''n2'', ''data'')]"
  let ?m = "[(0, [(''n1'', ''data''), (''n2'', ''data'')])]"
  have b: "?base = expand_at (expand_claim ?m) 0 [example_selector_source]"
    by (simp add: expand_claim_def isClaimSelector_def isClaim_def example_selector_source_def matches_index_def)
  have ok: "case example_expanded of Inl e \<Rightarrow> False | Inr x \<Rightarrow> True" by code_simp
  show ?thesis
  proof (cases example_expanded)
    case (Inr expanded)
    show ?thesis
      using expand_claims_labels_distinct [OF Inr [unfolded example_expanded_def] b, of 0 1]
      by (simp add: Inr claim_unlabelled_def isClaim_def claim_source_def claim_id_def)
  next
    case (Inl e)
    show ?thesis using ok unfolding Inl by simp
  qed
qed

lemma select_datasets_sound_witness:
  "\<exists>ds. selectDatasets example_selector (the (src_ZFSProperty example_property_source)) ''p/stage'' = Inr ds
     \<and> ''p/x'' \<in> set ds \<and> ''q'' \<notin> set ds"
proof -
  let ?r = "selectDatasets example_selector (the (src_ZFSProperty example_property_source)) ''p/stage''"
  have "?r = Inr [''p/x'']" by code_simp
  then show ?thesis using select_datasets_sound [of example_selector _ "''p/stage''" "[''p/x'']"] by auto
qed

lemma newest_snapshot_selects_witness:
  "newestSnapshot example_pool ''d'' ''a'' = Inr ''d@a2''
   \<and> (\<exists>e. newestSnapshot example_pool ''d'' ''c'' = Inl e)"
proof -
  have p: "pi_Snapshots example_pool ''d'' = Inr [\<lparr> si_Name = ''a1'', si_Creation = 5, si_CreateTXG = 1 \<rparr>,
       \<lparr> si_Name = ''a2'', si_Creation = 5, si_CreateTXG = 2 \<rparr>,
       \<lparr> si_Name = ''b'', si_Creation = 9, si_CreateTXG = 3 \<rparr>]" by (simp add: example_pool_def)
  have "newestSnapshot example_pool ''d'' ''a'' = Inr ''d@a2''" by code_simp
  then show ?thesis using newest_snapshot_selects [OF p, of "''c''"] by simp
qed

end
