(* ===== verification/Scsi.thy ===== *)
theory Scsi
  imports GoStrings Prelude "HOL-Library.Word" "HOL-Library.Monad_Syntax"
begin

text \<open>
  The SCSI layer (\<open>pkg/tape\<close>): sense data, the blank probe, element addressing, decoding of MODE
  SENSE and READ ELEMENT STATUS responses, command blocks and the retry after a UNIT ATTENTION.
  Response bytes are 8-bit words. Indexing and slicing are in the option monad, \<open>None\<close> being the
  panic of an index out of range, so that absence of panics is a theorem and not a convention.
\<close>

unbundle bit_operations_syntax

type_synonym byte = "8 word"

section \<open>Bytes\<close>

definition at :: "byte list \<Rightarrow> nat \<Rightarrow> byte option" where
  "at b i = (if i < length b then Some (b ! i) else None)"

definition slice :: "byte list \<Rightarrow> nat \<Rightarrow> nat \<Rightarrow> byte list option" where
  "slice b i j = (if i \<le> j \<and> j \<le> length b then Some (take (j - i) (drop i b)) else None)"

definition be16 :: "byte list \<Rightarrow> nat \<Rightarrow> 16 word option" where
  "be16 b off = do { hi \<leftarrow> at b off; lo \<leftarrow> at b (off + 1); Some (push_bit 8 (ucast hi) OR ucast lo) }"

definition be24 :: "byte list \<Rightarrow> nat \<Rightarrow> nat option" where
  "be24 b off = do { b0 \<leftarrow> at b off; b1 \<leftarrow> at b (off + 1); b2 \<leftarrow> at b (off + 2);
     Some (push_bit 16 (unat b0) OR push_bit 8 (unat b1) OR unat b2) }"

definition bytes_string :: "byte list \<Rightarrow> string" where
  "bytes_string b = map (\<lambda>x. char_of (unat x)) b"

text \<open>The bytes before the first NUL.\<close>

definition until_nul :: "byte list \<Rightarrow> byte list" where
  "until_nul b = takeWhile (\<lambda>x. x \<noteq> 0) b"

text \<open>\<open>strings.Fields\<close>; the accumulator is the field being read.\<close>

function Fields :: "string \<Rightarrow> string \<Rightarrow> string list" where
  "Fields cur [] = (if cur = [] then [] else [cur])"
| "Fields cur (c # cs) =
     (case find (\<lambda>q. prefix q (c # cs)) space_seqs of
        None \<Rightarrow> Fields (cur @ [c]) cs
      | Some q \<Rightarrow> (if cur = [] then [] else [cur]) @ Fields [] (drop (length q - 1) cs))"
  by pat_completeness auto
termination by (relation "measure (\<lambda>(cur, s). length s)") auto

section \<open>Sense data\<close>

definition senseFilemarkBit :: byte where "senseFilemarkBit = 0x80"

definition senseKeyBlankCheck :: byte where "senseKeyBlankCheck = 0x08"

definition senseKeyNoSense :: byte where "senseKeyNoSense = 0x00"

definition senseKeyUnitAttention :: byte where "senseKeyUnitAttention = 0x06"

text \<open>Key, additional sense code, qualifier, filemark.\<close>

definition parseSense :: "byte list \<Rightarrow> (byte \<times> byte \<times> byte \<times> bool) option" where
  "parseSense sb =
     (if length sb = 0 then Some (0, 0, 0, False)
      else do {
        b0 \<leftarrow> at sb 0;
        if b0 AND 0x7F \<in> {0x70, 0x71} then do {
          (key, filemark) \<leftarrow>
            (if length sb > 2 then do { b2 \<leftarrow> at sb 2; Some (b2 AND 0x0F, b2 AND senseFilemarkBit \<noteq> 0) }
             else Some (0, False));
          (asc, ascq) \<leftarrow>
            (if length sb > 13 then do { a \<leftarrow> at sb 12; q \<leftarrow> at sb 13; Some (a, q) } else Some (0, 0));
          Some (key, asc, ascq, filemark) }
        else if b0 AND 0x7F \<in> {0x72, 0x73} \<and> length sb > 3 then do {
          b1 \<leftarrow> at sb 1; a \<leftarrow> at sb 2; q \<leftarrow> at sb 3;
          Some (b1 AND 0x0F, a, q, False) }
        else Some (0, 0, 0, False) })"

section \<open>The blank probe\<close>

definition driverSense :: "16 word" where "driverSense = 0x08"

definition statusGood :: byte where "statusGood = 0x00"

definition statusCheckCondition :: byte where "statusCheckCondition = 0x02"

text \<open>What the SG driver reports of a command it completed.\<close>

record sg_completion =
  sg_status :: byte
  sg_hostStatus :: "16 word"
  sg_driverStatus :: "16 word"
  sg_sense :: "byte list"
  sg_dxferLen :: int
  sg_resid :: int

record blankProbe =
  bp_status :: byte
  bp_transferred :: int
  bp_senseKey :: byte
  bp_asc :: byte
  bp_ascq :: byte
  bp_filemark :: bool

datatype probe_error = Errno string | Transport "16 word" "16 word" | UnexpectedSense byte byte byte byte

text \<open>The decoding half of \<open>scsiReadFirstBlock\<close>: \<open>Inl\<close> is a failed \<open>ioctl\<close>.\<close>

definition scsiReadFirstBlock :: "string + sg_completion \<Rightarrow> (probe_error + blankProbe) option" where
  "scsiReadFirstBlock issued =
     (case issued of
        Inl errno \<Rightarrow> Some (Inl (Errno errno))
      | Inr hdr \<Rightarrow>
          if sg_hostStatus hdr \<noteq> 0 \<or> sg_driverStatus hdr AND NOT driverSense \<noteq> 0
          then Some (Inl (Transport (sg_hostStatus hdr) (sg_driverStatus hdr)))
          else do {
            (key, asc, ascq, filemark) \<leftarrow> parseSense (sg_sense hdr);
            Some (Inr \<lparr> bp_status = sg_status hdr, bp_transferred = sg_dxferLen hdr - sg_resid hdr,
              bp_senseKey = key, bp_asc = asc, bp_ascq = ascq, bp_filemark = filemark \<rparr>) })"

definition interpretBlankProbe :: "blankProbe \<Rightarrow> probe_error + bool" where
  "interpretBlankProbe probe =
     (if bp_status probe \<noteq> statusGood \<and> bp_status probe \<noteq> statusCheckCondition
      then Inl (UnexpectedSense (bp_status probe) 0 0 0)
      else if bp_transferred probe > 0 then Inr False
      else if bp_senseKey probe = senseKeyBlankCheck then Inr True
      else if bp_filemark probe then Inr False
      else Inl (UnexpectedSense (bp_status probe) (bp_senseKey probe) (bp_asc probe) (bp_ascq probe)))"

text \<open>
  \<open>IsBlank\<close> over a device that answers each command block: rewind first, then read one block.
\<close>

definition opcodeRewind :: byte where "opcodeRewind = 0x01"

definition opcodeRead6 :: byte where "opcodeRead6 = 0x08"

definition read6SILI :: byte where "read6SILI = 0x02"

definition firstBlockBufSize :: nat where "firstBlockBufSize = 64 * 1024"

type_synonym 'z sg_device = "'z \<Rightarrow> byte list \<Rightarrow> (string + sg_completion) \<times> 'z"

definition good :: "sg_completion \<Rightarrow> bool" where
  "good hdr \<longleftrightarrow> sg_status hdr = 0 \<and> sg_hostStatus hdr = 0 \<and> sg_driverStatus hdr = 0"

definition scsiRewind :: "'z sg_device \<Rightarrow> 'z \<Rightarrow> (probe_error + unit) option \<times> 'z" where
  "scsiRewind ioctl z =
     (case ioctl z [opcodeRewind, 0, 0, 0, 0, 0] of
        (Inl errno, z') \<Rightarrow> (Some (Inl (Errno errno)), z')
      | (Inr hdr, z') \<Rightarrow>
          if good hdr then (Some (Inr ()), z')
          else (do { (key, asc, ascq, fm) \<leftarrow> parseSense (sg_sense hdr);
                     Some (Inl (UnexpectedSense (sg_status hdr) key asc ascq)) }, z'))"

definition byte_of :: "nat \<Rightarrow> byte" where "byte_of n = word_of_nat n"

definition read6_cdb :: "nat \<Rightarrow> byte list" where
  "read6_cdb n = [opcodeRead6, read6SILI, byte_of (drop_bit 16 n), byte_of (drop_bit 8 n), byte_of n, 0]"

definition IsBlank :: "'z sg_device \<Rightarrow> 'z \<Rightarrow> (probe_error + bool) option \<times> 'z" where
  "IsBlank ioctl z =
     (case scsiRewind ioctl z of
        (None, z1) \<Rightarrow> (None, z1)
      | (Some (Inl e), z1) \<Rightarrow> (Some (Inl e), z1)
      | (Some (Inr _), z1) \<Rightarrow>
          let (issued, z2) = ioctl z1 (read6_cdb firstBlockBufSize) in
          (do { res \<leftarrow> scsiReadFirstBlock issued; Some (bindE res interpretBlankProbe) }, z2))"

section \<open>Element addresses\<close>

record elementAddressing =
  ea_firstMTE :: int
  ea_numMTE :: int
  ea_firstStorage :: int
  ea_numStorage :: int
  ea_firstIE :: int
  ea_numIE :: int
  ea_firstDTE :: int
  ea_numDTE :: int

datatype address_error = SlotOutOfRange int | DriveOutOfRange int

definition friendlyDrive :: "elementAddressing \<Rightarrow> int \<Rightarrow> int" where
  "friendlyDrive a raw = raw - ea_firstDTE a"

definition friendlyStorage :: "elementAddressing \<Rightarrow> int \<Rightarrow> int" where
  "friendlyStorage a raw = raw - ea_firstStorage a + 1"

definition friendlyIO :: "elementAddressing \<Rightarrow> int \<Rightarrow> int" where
  "friendlyIO a raw = ea_numStorage a + (raw - ea_firstIE a) + 1"

definition isStorageRaw :: "elementAddressing \<Rightarrow> int \<Rightarrow> bool" where
  "isStorageRaw a raw \<longleftrightarrow> raw \<ge> ea_firstStorage a \<and> raw < ea_firstStorage a + ea_numStorage a"

definition rawStorage :: "elementAddressing \<Rightarrow> int \<Rightarrow> address_error + int" where
  "rawStorage a slot = (if slot < 1 \<or> slot > ea_numStorage a then Inl (SlotOutOfRange slot)
                        else Inr (ea_firstStorage a + (slot - 1)))"

definition rawDrive :: "elementAddressing \<Rightarrow> int \<Rightarrow> address_error + int" where
  "rawDrive a index = (if index < 0 \<or> index \<ge> ea_numDTE a then Inl (DriveOutOfRange index)
                       else Inr (ea_firstDTE a + index))"

definition rawSlot :: "elementAddressing \<Rightarrow> int \<Rightarrow> address_error + int" where
  "rawSlot a friendly =
     (if friendly \<ge> 1 \<and> friendly \<le> ea_numStorage a then Inr (ea_firstStorage a + (friendly - 1))
      else if friendly > ea_numStorage a \<and> friendly \<le> ea_numStorage a + ea_numIE a
      then Inr (ea_firstIE a + (friendly - ea_numStorage a - 1))
      else Inl (SlotOutOfRange friendly))"

definition transportElement :: "elementAddressing \<Rightarrow> int" where
  "transportElement a = (if ea_numMTE a > 0 then ea_firstMTE a else 0)"

section \<open>MODE SENSE: element address assignment\<close>

definition modeParamHeaderLen :: nat where "modeParamHeaderLen = 4"

definition modeParamBlockDescLenOffset :: nat where "modeParamBlockDescLenOffset = 3"

definition modePageElementAddr :: byte where "modePageElementAddr = 0x1D"

definition modePageCodeMask :: byte where "modePageCodeMask = 0x3F"

definition eaaBodyLen :: nat where "eaaBodyLen = 18"

datatype mode_error = ShortMode nat | TruncatedPage nat nat | UnexpectedPage byte

definition field :: "byte list \<Rightarrow> nat \<Rightarrow> nat \<Rightarrow> int option" where
  "field data page off = do { w \<leftarrow> be16 data (page + off); Some (uint w) }"

definition parseElementAddressing :: "byte list \<Rightarrow> (mode_error + elementAddressing) option" where
  "parseElementAddressing data =
     (if length data < modeParamHeaderLen then Some (Inl (ShortMode (length data)))
      else do {
        bdl \<leftarrow> at data modeParamBlockDescLenOffset;
        let page = modeParamHeaderLen + unat bdl;
        if length data < page + eaaBodyLen then Some (Inl (TruncatedPage (length data) page))
        else do {
          code \<leftarrow> at data page;
          if code AND modePageCodeMask \<noteq> modePageElementAddr
          then Some (Inl (UnexpectedPage (code AND modePageCodeMask)))
          else do {
            firstMTE \<leftarrow> field data page 2; numMTE \<leftarrow> field data page 4;
            firstStorage \<leftarrow> field data page 6; numStorage \<leftarrow> field data page 8;
            firstIE \<leftarrow> field data page 10; numIE \<leftarrow> field data page 12;
            firstDTE \<leftarrow> field data page 14; numDTE \<leftarrow> field data page 16;
            Some (Inr \<lparr> ea_firstMTE = firstMTE, ea_numMTE = numMTE,
              ea_firstStorage = firstStorage, ea_numStorage = numStorage,
              ea_firstIE = firstIE, ea_numIE = numIE, ea_firstDTE = firstDTE, ea_numDTE = numDTE \<rparr>) } } })"

section \<open>READ ELEMENT STATUS\<close>

record DriveElement =
  de_Address :: int
  de_Barcode :: string
  de_Loaded :: bool
  de_SourceSlot :: int
  de_Serial :: string

record StorageElement =
  se_Address :: int
  se_Barcode :: string
  se_Full :: bool

record IOElement =
  ie_Address :: int
  ie_Barcode :: string
  ie_Full :: bool
  ie_Accessible :: bool

record Inventory =
  inv_Drives :: "DriveElement list"
  inv_Slots :: "StorageElement list"
  inv_IOSlots :: "IOElement list"
  inv_IOAccessReported :: bool

definition emptyInventory :: Inventory where
  "emptyInventory = \<lparr> inv_Drives = [], inv_Slots = [], inv_IOSlots = [], inv_IOAccessReported = False \<rparr>"

definition trimVolumeTag :: "byte list \<Rightarrow> string" where
  "trimVolumeTag b = TrimSpace (bytes_string (until_nul b))"

definition serialFromDeviceID :: "byte list \<Rightarrow> string" where
  "serialFromDeviceID identifier =
     (let fs = Fields [] (bytes_string (until_nul identifier)) in if fs = [] then [] else last fs)"

definition primaryVolumeTagOffset :: nat where "primaryVolumeTagOffset = 12"

definition primaryVolumeTagLen :: nat where "primaryVolumeTagLen = 32"

definition primaryVolumeTagFieldLen :: nat where "primaryVolumeTagFieldLen = 36"

definition deviceIDHeaderLen :: nat where "deviceIDHeaderLen = 4"

definition decodeDriveSerial :: "byte list \<Rightarrow> bool \<Rightarrow> string option" where
  "decodeDriveSerial desc pvoltag =
     (let start = primaryVolumeTagOffset + (if pvoltag then primaryVolumeTagFieldLen else 0) in
      if length desc < start + deviceIDHeaderLen then Some []
      else do {
        header \<leftarrow> slice desc start (length desc);
        b0 \<leftarrow> at header 0;
        let codeSet = b0 AND 0x0F;
        if codeSet \<noteq> 0x02 \<and> codeSet \<noteq> 0x03 then Some []
        else do {
          b3 \<leftarrow> at header 3;
          let idLen = unat b3;
          if idLen = 0 \<or> deviceIDHeaderLen + idLen > length header then Some []
          else do {
            identifier \<leftarrow> slice header deviceIDHeaderLen (deviceIDHeaderLen + idLen);
            Some (serialFromDeviceID identifier) } } })"

definition elementFlagFull :: byte where "elementFlagFull = 0x01"

definition elementFlagAccess :: byte where "elementFlagAccess = 0x08"

definition descMinLen :: nat where "descMinLen = 3"

definition descSourceMinLen :: nat where "descSourceMinLen = 12"

definition svalidBit :: byte where "svalidBit = 0x80"

definition decodeDescriptor ::
  "byte \<Rightarrow> bool \<Rightarrow> byte list \<Rightarrow> elementAddressing \<Rightarrow> Inventory \<Rightarrow> Inventory option" where
  "decodeDescriptor elementType pvoltag desc addressing stock =
     (if length desc < descMinLen then Some stock
      else do {
        addr \<leftarrow> be16 desc 0;
        flags \<leftarrow> at desc 2;
        let full = (flags AND elementFlagFull \<noteq> 0);
        let accessible = (flags AND elementFlagAccess \<noteq> 0);
        barcode \<leftarrow>
          (if full \<and> pvoltag \<and> length desc \<ge> primaryVolumeTagOffset + primaryVolumeTagLen
           then do { tag \<leftarrow> slice desc primaryVolumeTagOffset (primaryVolumeTagOffset + primaryVolumeTagLen);
                     Some (trimVolumeTag tag) }
           else Some []);
        if elementType = 4 then do {
          source \<leftarrow>
            (if full \<and> length desc \<ge> descSourceMinLen then do {
               sv \<leftarrow> at desc 9;
               if sv AND svalidBit \<noteq> 0 then do {
                 src \<leftarrow> be16 desc 10;
                 Some (if isStorageRaw addressing (uint src) then friendlyStorage addressing (uint src) else 0) }
               else Some 0 }
             else Some 0);
          serial \<leftarrow> decodeDriveSerial desc pvoltag;
          Some (stock\<lparr> inv_Drives := inv_Drives stock @
            [\<lparr> de_Address = friendlyDrive addressing (uint addr), de_Barcode = barcode, de_Loaded = full,
               de_SourceSlot = source, de_Serial = serial \<rparr>] \<rparr>) }
        else if elementType = 2 then
          Some (stock\<lparr> inv_Slots := inv_Slots stock @
            [\<lparr> se_Address = friendlyStorage addressing (uint addr), se_Barcode = barcode, se_Full = full \<rparr>] \<rparr>)
        else if elementType = 3 then
          Some (stock\<lparr> inv_IOSlots := inv_IOSlots stock @
            [\<lparr> ie_Address = friendlyIO addressing (uint addr), ie_Barcode = barcode, ie_Full = full,
               ie_Accessible = accessible \<rparr>], inv_IOAccessReported := True \<rparr>)
        else Some stock })"

text \<open>The descriptors of a page; the descriptor length is positive here.\<close>

function decode_page ::
  "byte \<Rightarrow> bool \<Rightarrow> nat \<Rightarrow> byte list \<Rightarrow> elementAddressing \<Rightarrow> nat \<Rightarrow> nat \<Rightarrow> Inventory \<Rightarrow> Inventory option" where
  "decode_page elementType pvoltag descLen data addressing limit d stock =
     (if 0 < descLen \<and> d + descLen \<le> limit \<and> d + descLen \<le> length data then do {
        desc \<leftarrow> slice data d (d + descLen);
        stock' \<leftarrow> decodeDescriptor elementType pvoltag desc addressing stock;
        decode_page elementType pvoltag descLen data addressing limit (d + descLen) stock' }
      else Some stock)"
  by pat_completeness auto
termination by (relation "measure (\<lambda>(_, _, _, data, _, _, d, _). length data - d)") auto

definition pvoltagBit :: byte where "pvoltagBit = 0x80"

definition elementStatusHeaderLen :: nat where "elementStatusHeaderLen = 8"

definition elementStatusPageHeaderLen :: nat where "elementStatusPageHeaderLen = 8"

function decode_pages ::
  "byte list \<Rightarrow> elementAddressing \<Rightarrow> nat \<Rightarrow> Inventory \<Rightarrow> Inventory option" where
  "decode_pages data addressing pos stock =
     (if pos + elementStatusPageHeaderLen \<le> length data then do {
        elementType \<leftarrow> at data pos;
        flags \<leftarrow> at data (pos + 1);
        descLen \<leftarrow> be16 data (pos + 2);
        byteCount \<leftarrow> be24 data (pos + 5);
        let descStart = pos + elementStatusPageHeaderLen;
        if unat descLen = 0 then Some stock
        else do {
          stock' \<leftarrow> decode_page elementType (flags AND pvoltagBit \<noteq> 0) (unat descLen) data addressing
                   (descStart + byteCount) descStart stock;
          decode_pages data addressing (descStart + byteCount) stock' } }
      else Some stock)"
  by pat_completeness auto
termination by (relation "measure (\<lambda>(data, _, pos, _). length data - pos)")
    (auto simp: elementStatusPageHeaderLen_def)

datatype status_error = ShortReport nat | TruncatedReport nat nat

definition decodeElementStatus ::
  "byte list \<Rightarrow> elementAddressing \<Rightarrow> (status_error + Inventory) option" where
  "decodeElementStatus data addressing =
     (if length data < elementStatusHeaderLen then Some (Inl (ShortReport (length data)))
      else do {
        reportByteCount \<leftarrow> be24 data 5;
        if reportByteCount > length data - elementStatusHeaderLen
        then Some (Inl (TruncatedReport reportByteCount (length data - elementStatusHeaderLen)))
        else do {
          stock \<leftarrow> decode_pages data addressing elementStatusHeaderLen emptyInventory;
          Some (Inr stock) } })"

section \<open>Command blocks and retries\<close>

definition move_medium_cdb :: "int \<Rightarrow> int \<Rightarrow> int \<Rightarrow> byte list" where
  "move_medium_cdb transport src dst =
     [0xA5, 0, word_of_int (drop_bit 8 transport), word_of_int transport,
      word_of_int (drop_bit 8 src), word_of_int src, word_of_int (drop_bit 8 dst), word_of_int dst, 0, 0, 0, 0]"

definition elementStatusBufSize :: nat where "elementStatusBufSize = 128 * 1024"

definition read_element_status_cdb :: "byte list" where
  "read_element_status_cdb =
     [0xB8, 0x10, 0, 0, byte_of (drop_bit 8 0xFFFF), byte_of (0xFFFF AND 0xFF), 0x01,
      byte_of (drop_bit 16 elementStatusBufSize), byte_of (drop_bit 8 elementStatusBufSize),
      byte_of elementStatusBufSize, 0, 0]"

definition mode_sense6_cdb :: "byte \<Rightarrow> byte list" where
  "mode_sense6_cdb page = [0x1A, 0x08, page, 0, 64, 0]"

definition unitAttentionAttempts :: nat where "unitAttentionAttempts = 5"

datatype sg_error = Ioctl string | Failed byte byte byte byte | CtxWhileRetrying sg_error

text \<open>
  \<open>retryUnitAttention\<close>: \<open>issue\<close> reports whether the command drew a UNIT ATTENTION; \<open>wait\<close> is
  the pause before the next attempt, true when the context was done first.
\<close>

fun retry_unit_attention ::
  "('z \<Rightarrow> (bool \<times> (sg_error + unit)) \<times> 'z) \<Rightarrow> ('z \<Rightarrow> bool \<times> 'z) \<Rightarrow> nat \<Rightarrow> 'z \<Rightarrow> (sg_error + unit) \<times> 'z" where
  "retry_unit_attention issue wait 0 z = (Inr (), z)"
| "retry_unit_attention issue wait (Suc attempts) z =
     (let ((unitAttention, err), z1) = issue z in
      if err = Inr () \<or> \<not> unitAttention then (err, z1)
      else if attempts = 0 then (err, z1)
      else
        let (done, z2) = wait z1 in
        if done then (case err of Inl e \<Rightarrow> Inl (CtxWhileRetrying e) | Inr u \<Rightarrow> Inr u, z2)
        else retry_unit_attention issue wait attempts z2)"

definition retryUnitAttention ::
  "('z \<Rightarrow> (bool \<times> (sg_error + unit)) \<times> 'z) \<Rightarrow> ('z \<Rightarrow> bool \<times> 'z) \<Rightarrow> 'z \<Rightarrow> (sg_error + unit) \<times> 'z" where
  "retryUnitAttention issue wait z = retry_unit_attention issue wait unitAttentionAttempts z"

text \<open>One issue of a command by \<open>sgCommand\<close>; \<open>parseSense\<close> never panics (\<open>parseSense_total\<close>).\<close>

definition sg_issue ::
  "'z sg_device \<Rightarrow> byte list \<Rightarrow> 'z \<Rightarrow> (bool \<times> (sg_error + unit)) \<times> 'z" where
  "sg_issue ioctl cdb z =
     (case ioctl z cdb of
        (Inl errno, z') \<Rightarrow> ((False, Inl (Ioctl errno)), z')
      | (Inr hdr, z') \<Rightarrow>
          if good hdr then ((False, Inr ()), z')
          else
            let (key, asc, ascq, fm) = the (parseSense (sg_sense hdr)) in
            ((key = senseKeyUnitAttention, Inl (Failed (sg_status hdr) key asc ascq)), z'))"

definition sgCommand ::
  "'z sg_device \<Rightarrow> ('z \<Rightarrow> bool \<times> 'z) \<Rightarrow> byte list \<Rightarrow> 'z \<Rightarrow> (sg_error + unit) \<times> 'z" where
  "sgCommand ioctl wait cdb z = retryUnitAttention (sg_issue ioctl cdb) wait z"

datatype move_error = Address address_error | Sg sg_error

definition scsiMoveMedium ::
  "'z sg_device \<Rightarrow> ('z \<Rightarrow> bool \<times> 'z) \<Rightarrow> int \<Rightarrow> int \<Rightarrow> int \<Rightarrow> 'z \<Rightarrow> (move_error + unit) \<times> 'z" where
  "scsiMoveMedium ioctl wait transport src dst z =
     (case sgCommand ioctl wait (move_medium_cdb transport src dst) z of
        (Inl e, z') \<Rightarrow> (Inl (Sg e), z') | (Inr u, z') \<Rightarrow> (Inr u, z'))"

text \<open>\<open>Load\<close>, \<open>Unload\<close> and \<open>Transfer\<close> once the address map is cached.\<close>

definition move_between ::
  "'z sg_device \<Rightarrow> ('z \<Rightarrow> bool \<times> 'z) \<Rightarrow> elementAddressing \<Rightarrow> address_error + int \<Rightarrow> address_error + int
     \<Rightarrow> 'z \<Rightarrow> (move_error + unit) \<times> 'z" where
  "move_between ioctl wait addressing source destination z =
     (case source of Inl e \<Rightarrow> (Inl (Address e), z)
      | Inr src \<Rightarrow> (case destination of Inl e \<Rightarrow> (Inl (Address e), z)
        | Inr dst \<Rightarrow> scsiMoveMedium ioctl wait (transportElement addressing) src dst z))"

definition Changer_Load ::
  "'z sg_device \<Rightarrow> ('z \<Rightarrow> bool \<times> 'z) \<Rightarrow> elementAddressing \<Rightarrow> int \<Rightarrow> int \<Rightarrow> 'z \<Rightarrow> (move_error + unit) \<times> 'z" where
  "Changer_Load ioctl wait a slot drive z = move_between ioctl wait a (rawStorage a slot) (rawDrive a drive) z"

definition Changer_Unload ::
  "'z sg_device \<Rightarrow> ('z \<Rightarrow> bool \<times> 'z) \<Rightarrow> elementAddressing \<Rightarrow> int \<Rightarrow> int \<Rightarrow> 'z \<Rightarrow> (move_error + unit) \<times> 'z" where
  "Changer_Unload ioctl wait a slot drive z = move_between ioctl wait a (rawDrive a drive) (rawStorage a slot) z"

definition Changer_Transfer ::
  "'z sg_device \<Rightarrow> ('z \<Rightarrow> bool \<times> 'z) \<Rightarrow> elementAddressing \<Rightarrow> int \<Rightarrow> int \<Rightarrow> 'z \<Rightarrow> (move_error + unit) \<times> 'z" where
  "Changer_Transfer ioctl wait a srcSlot dstSlot z = move_between ioctl wait a (rawSlot a srcSlot) (rawSlot a dstSlot) z"

declare decode_page.simps [simp del] decode_pages.simps [simp del] Fields.simps [simp del]

section \<open>Bytes\<close>

lemma at_ok [simp]: "i < length b \<Longrightarrow> at b i = Some (b ! i)"
  by (simp add: at_def)

lemma slice_ok: "i \<le> j \<Longrightarrow> j \<le> length b \<Longrightarrow> slice b i j = Some (take (j - i) (drop i b))"
  by (simp add: slice_def)

definition word16 :: "byte \<Rightarrow> byte \<Rightarrow> 16 word" where
  "word16 hi lo = push_bit 8 (ucast hi) OR ucast lo"

lemma be16_ok: "off + 1 < length b \<Longrightarrow> be16 b off = Some (word16 (b ! off) (b ! (off + 1)))"
  by (simp add: be16_def word16_def)

lemma byte_bits: "bit (x :: byte) n \<Longrightarrow> n < 8"
  using bit_imp_le_length [of x n] by simp

lemma unat_byte: "unat (x :: byte) < 256"
  by (rule order_less_le_trans [OF unsigned_less]) simp

lemma word16_sum: "word16 hi lo = 256 * ucast hi + ucast lo"
proof -
  have "push_bit 8 (ucast hi :: 16 word) AND ucast lo = 0"
    by (rule bit_word_eqI) (auto simp: bit_simps dest: byte_bits)
  then show ?thesis
    unfolding word16_def by (simp add: disjunctive_add_eq_or [symmetric] push_bit_eq_mult ac_simps)
qed

lemma unat_word16: "unat (word16 hi lo) = 256 * unat hi + unat lo"
proof -
  have "unat hi < 256" "unat lo < 256" by (rule unat_byte)+
  then show ?thesis by (simp add: word16_sum unat_word_ariths unsigned_ucast_eq take_bit_nat_eq_self)
qed

definition nat24 :: "byte \<Rightarrow> byte \<Rightarrow> byte \<Rightarrow> nat" where
  "nat24 b0 b1 b2 = push_bit 16 (unat b0) OR push_bit 8 (unat b1) OR unat b2"

lemma be24_ok: "off + 2 < length b \<Longrightarrow> be24 b off = Some (nat24 (b ! off) (b ! (off + 1)) (b ! (off + 2)))"
  by (simp add: be24_def nat24_def)

lemma bit_small: "(n::nat) < 2 ^ k \<Longrightarrow> bit n i \<Longrightarrow> i < k"
  by (metis bit_take_bit_iff take_bit_nat_eq_self)

lemma nat24_sum: "nat24 b0 b1 b2 = 65536 * unat b0 + 256 * unat b1 + unat b2"
proof -
  have b: "unat b1 < 2 ^ 8" "unat b2 < 2 ^ 8" using unat_byte [of b1] unat_byte [of b2] by simp_all
  have "push_bit 8 (unat b1) AND unat b2 = 0"
    by (rule bit_eqI) (auto simp: bit_simps dest: byte_bits)
  then have low: "push_bit 8 (unat b1) OR unat b2 = 256 * unat b1 + unat b2"
    by (simp add: disjunctive_add_eq_or [symmetric] push_bit_eq_mult)
  have small: "256 * unat b1 + unat b2 < 2 ^ 16" using b by simp
  have "push_bit 16 (unat b0) AND (256 * unat b1 + unat b2) = 0"
    by (rule bit_eqI) (auto simp: bit_simps dest: bit_small [OF small])
  then show ?thesis
    unfolding nat24_def low by (simp add: disjunctive_add_eq_or [symmetric] push_bit_eq_mult)
qed

section \<open>No input makes a decoder panic\<close>

lemma parseSense_total: "\<exists>r. parseSense sb = Some r"
proof -
  have "parseSense sb \<noteq> None" by (auto simp: parseSense_def ex_bool_eq)
  then show ?thesis by blast
qed

lemma decodeDriveSerial_total: "\<exists>r. decodeDriveSerial desc pvoltag = Some r"
  by (simp add: decodeDriveSerial_def Let_def slice_ok deviceIDHeaderLen_def)

lemma decodeDescriptor_total: "\<exists>r. decodeDescriptor ty pvoltag desc a stock = Some r"
proof -
  obtain s t where s: "decodeDriveSerial desc True = Some s" "decodeDriveSerial desc False = Some t"
    using decodeDriveSerial_total by blast
  show ?thesis
    by (cases pvoltag) (simp_all add: decodeDescriptor_def Let_def slice_ok be16_ok s descMinLen_def descSourceMinLen_def
        primaryVolumeTagOffset_def primaryVolumeTagLen_def)
qed

lemma decode_page_total: "\<exists>r. decode_page ty pvoltag descLen data a limit d stock = Some r"
proof (induction ty pvoltag descLen data a limit d stock rule: decode_page.induct)
  case (1 ty pvoltag descLen data a limit d stock)
  show ?case
  proof (cases "0 < descLen \<and> d + descLen \<le> limit \<and> d + descLen \<le> length data")
    case True
    let ?desc = "take descLen (drop d data)"
    obtain stock' where "decodeDescriptor ty pvoltag ?desc a stock = Some stock'"
      using decodeDescriptor_total by blast
    then show ?thesis using 1 [OF True, of ?desc stock'] True
      by (subst decode_page.simps) (simp add: slice_ok)
  next
    case False
    then show ?thesis by (subst decode_page.simps, subst if_not_P) simp_all
  qed
qed

lemma decode_pages_total: "\<exists>r. decode_pages data a pos stock = Some r"
proof (induction data a pos stock rule: decode_pages.induct)
  case (1 data a pos stock)
  show ?case
  proof (cases "pos + elementStatusPageHeaderLen \<le> length data")
    case True
    have len: "pos + 7 < length data" using True by (simp add: elementStatusPageHeaderLen_def)
    let ?dl = "word16 (data ! (pos + 2)) (data ! (pos + 3))"
    let ?bc = "nat24 (data ! (pos + 5)) (data ! (pos + 6)) (data ! (pos + 7))"
    let ?start = "pos + elementStatusPageHeaderLen"
    have f: "at data pos = Some (data ! pos)" "at data (pos + 1) = Some (data ! (pos + 1))"
      "be16 data (pos + 2) = Some ?dl" "be24 data (pos + 5) = Some ?bc"
      using len be16_ok [of "pos + 2" data] be24_ok [of "pos + 5" data] by (simp_all add: numeral_eq_Suc)
    obtain stock' where p: "decode_page (data ! pos) (data ! (pos + 1) AND pvoltagBit \<noteq> 0) (unat ?dl) data a
        (?start + ?bc) ?start stock = Some stock'" using decode_page_total by blast
    show ?thesis using 1 [OF True f, of ?start stock'] p
      by (subst decode_pages.simps) (simp add: True f(3) f(2) [simplified] f(3) [simplified] f(1,4) Let_def)
  next
    case False
    then show ?thesis by (subst decode_pages.simps, subst if_not_P) simp_all
  qed
qed

text \<open>No response of a device can crash the worker. Every decoder of device bytes returns a value
  or an error for every input, never an index or slice out of range.\<close>

theorem decoders_never_panic:
  "parseSense sense \<noteq> None \<and> scsiReadFirstBlock issued \<noteq> None \<and> parseElementAddressing page \<noteq> None
   \<and> decodeElementStatus report addressing \<noteq> None"
proof -
  obtain s where s: "parseSense sense = Some s" using parseSense_total by blast
  have r: "scsiReadFirstBlock issued \<noteq> None"
  proof (cases issued)
    case (Inr hdr)
    obtain t where "parseSense (sg_sense hdr) = Some t" using parseSense_total by blast
    then show ?thesis by (cases t) (simp add: scsiReadFirstBlock_def Inr)
  qed (simp add: scsiReadFirstBlock_def)
  have p: "parseElementAddressing page \<noteq> None"
    by (simp add: parseElementAddressing_def Let_def field_def be16_ok modeParamHeaderLen_def
        modeParamBlockDescLenOffset_def eaaBodyLen_def)
  have "decodeElementStatus report addressing \<noteq> None"
  proof (cases "length report < elementStatusHeaderLen")
    case False
    then have "7 < length report" by (simp add: elementStatusHeaderLen_def)
    then have "\<exists>n. be24 report 5 = Some n" using be24_ok [of 5 report] by simp
    moreover obtain i where "decode_pages report addressing elementStatusHeaderLen emptyInventory = Some i"
      using decode_pages_total by blast
    ultimately show ?thesis using False by (auto simp: decodeElementStatus_def)
  qed (simp add: decodeElementStatus_def)
  then show ?thesis using s r p by simp
qed

end
