(* ===== verification/Changer.thy ===== *)
theory Changer
  imports Scsi
begin

text \<open>
  What the SCSI layer promises its callers: a blank verdict rests on a positive report, a command is
  performed at most once however often it is retried, MOVE MEDIUM addresses exactly the elements
  the friendly numbers name, and element status decodes what a conforming device encodes.
\<close>

section \<open>The blank verdict\<close>

text \<open>The sense key as the standard places it.\<close>

definition reported_key :: "byte list \<Rightarrow> byte \<Rightarrow> bool" where
  "reported_key sb key \<longleftrightarrow>
     (2 < length sb \<and> sb ! 0 AND 0x7F \<in> {0x70, 0x71} \<and> sb ! 2 AND 0x0F = key)
     \<or> (3 < length sb \<and> sb ! 0 AND 0x7F \<in> {0x72, 0x73} \<and> sb ! 1 AND 0x0F = key)"

lemma parseSense_key:
  assumes "parseSense sb = Some (key, asc, ascq, fm)" "key \<noteq> 0"
  shows "reported_key sb key"
  using assms by (auto simp: parseSense_def reported_key_def split: if_splits)

lemma scsiRewind_ok:
  assumes "scsiRewind ioctl z = (Some (Inr ()), z1)"
  shows "\<exists>hdr. ioctl z [0x01, 0, 0, 0, 0, 0] = (Inr hdr, z1) \<and> good hdr"
  using assms by (auto simp: scsiRewind_def opcodeRewind_def bind_eq_Some_conv
      split: sum.splits prod.splits if_splits)

lemma read_first_block_cdb: "read6_cdb firstBlockBufSize = [0x08, 0x02, 1, 0, 0, 0]"
  by (simp add: read6_cdb_def firstBlockBufSize_def byte_of_def opcodeRead6_def read6SILI_def)

text \<open>C25: A tape is called blank only on the drive's word. When \<open>IsBlank\<close> answers that a tape is
  blank, the rewind completed cleanly and the one READ(6) issued after it at the beginning of the
  tape completed without a transport error, with status GOOD or CHECK CONDITION, transferred
  nothing and carried sense data whose key is BLANK CHECK; no other outcome is called blank.\<close>

theorem blank_only_if_reported:
  assumes "IsBlank ioctl z = (Some (Inr True), z2)"
  shows "\<exists>rewound z1 hdr. ioctl z [0x01, 0, 0, 0, 0, 0] = (Inr rewound, z1) \<and> good rewound
    \<and> ioctl z1 [0x08, 0x02, 1, 0, 0, 0] = (Inr hdr, z2)
    \<and> sg_hostStatus hdr = 0 \<and> sg_status hdr \<in> {0, 2}
    \<and> sg_dxferLen hdr \<le> sg_resid hdr \<and> reported_key (sg_sense hdr) 8"
proof -
  obtain z1 where r: "scsiRewind ioctl z = (Some (Inr ()), z1)"
    using assms by (auto simp: IsBlank_def split: prod.splits option.splits sum.splits)
  obtain issued z2' where i: "ioctl z1 (read6_cdb firstBlockBufSize) = (issued, z2')" by (metis surj_pair)
  obtain res where res: "scsiReadFirstBlock issued = Some res" "bindE res interpretBlankProbe = Inr True"
      and z2: "z2' = z2"
    using assms r i by (auto simp: IsBlank_def bind_eq_Some_conv)
  then obtain probe where p: "scsiReadFirstBlock issued = Some (Inr probe)" "interpretBlankProbe probe = Inr True"
    by (cases res) auto
  obtain hdr key asc ascq fm where h: "issued = Inr hdr" "sg_hostStatus hdr = 0"
      "parseSense (sg_sense hdr) = Some (key, asc, ascq, fm)"
      "probe = \<lparr> bp_status = sg_status hdr, bp_transferred = sg_dxferLen hdr - sg_resid hdr,
         bp_senseKey = key, bp_asc = asc, bp_ascq = ascq, bp_filemark = fm \<rparr>"
    using p(1) by (auto simp: scsiReadFirstBlock_def bind_eq_Some_conv split: sum.splits if_splits)
  have "key = 8" "sg_status hdr \<in> {0, 2}" "sg_dxferLen hdr \<le> sg_resid hdr"
    using p(2) by (auto simp: interpretBlankProbe_def h(4) statusGood_def statusCheckCondition_def
        senseKeyBlankCheck_def split: if_splits)
  moreover from \<open>key = 8\<close> have "reported_key (sg_sense hdr) 8" using parseSense_key [OF h(3)] by simp
  ultimately show ?thesis using scsiRewind_ok [OF r] i h z2 read_first_block_cdb by auto
qed

definition example_drive :: "nat sg_device" where
  "example_drive z cdb = (Inr (if hd cdb = 0x08
     then sg_completion.make 2 0 8 [0x70, 0, 8, 0, 0, 0, 0, 10, 0, 0, 0, 0, 0, 5] 65536 65536
     else sg_completion.make 0 0 0 [] 0 0), Suc z)"

lemma blank_only_if_reported_witness:
  "\<exists>hdr. example_drive 1 [0x08, 0x02, 1, 0, 0, 0] = (Inr hdr, 2) \<and> reported_key (sg_sense hdr) 8"
proof -
  have "IsBlank example_drive 0 = (Some (Inr True), 2)"
    by (simp add: IsBlank_def scsiRewind_def opcodeRewind_def example_drive_def sg_completion.make_def
        good_def read_first_block_cdb scsiReadFirstBlock_def driverSense_def parseSense_def at_def
        interpretBlankProbe_def statusGood_def statusCheckCondition_def senseKeyBlankCheck_def)
  from blank_only_if_reported [OF this]
  obtain rw z1 hdr where "example_drive 0 [0x01, 0, 0, 0, 0, 0] = (Inr rw, z1)"
      "example_drive z1 [0x08, 0x02, 1, 0, 0, 0] = (Inr hdr, 2)" "reported_key (sg_sense hdr) 8"
    by blast
  moreover have "z1 = 1" using calculation(1) by (simp add: example_drive_def)
  ultimately show ?thesis by blast
qed

section \<open>Retries\<close>

text \<open>
  The issues of a retried command in order, each with whether it drew a UNIT ATTENTION and the
  states around it.
\<close>

fun retry_trace ::
  "('z \<Rightarrow> (bool \<times> (sg_error + unit)) \<times> 'z) \<Rightarrow> ('z \<Rightarrow> bool \<times> 'z) \<Rightarrow> nat \<Rightarrow> 'z \<Rightarrow> (bool \<times> bool \<times> 'z \<times> 'z) list" where
  "retry_trace issue wait 0 z = []"
| "retry_trace issue wait (Suc attempts) z =
     (let ((ua, err), z1) = issue z; (done, z2) = wait z1; step = (ua, err = Inr (), z, z1) in
      if err = Inr () \<or> \<not> ua \<or> attempts = 0 \<or> done then [step]
      else step # retry_trace issue wait attempts z2)"

lemma retry_trace_nonempty: "0 < n \<Longrightarrow> retry_trace issue wait n z \<noteq> []"
  by (cases n) (simp_all add: Let_def case_prod_beta)

lemma retry_trace_shape:
  "0 < n \<Longrightarrow> length (retry_trace issue wait n z) \<le> n
     \<and> (\<forall>s \<in> set (butlast (retry_trace issue wait n z)). fst s \<and> \<not> fst (snd s))
     \<and> (fst (retry_unit_attention issue wait n z) = Inr () \<longleftrightarrow> fst (snd (last (retry_trace issue wait n z))))"
proof (induction n arbitrary: z)
  case (Suc n)
  obtain ua err z1 where i: "issue z = ((ua, err), z1)" by (metis surj_pair)
  obtain d z2 where w: "wait z1 = (d, z2)" by (metis surj_pair)
  show ?case
  proof (cases "err = Inr () \<or> \<not> ua \<or> n = 0 \<or> d")
    case True
    then show ?thesis by (cases err) (auto simp: i w)
  next
    case False
    then have "0 < n" by simp
    note ne = retry_trace_nonempty [OF this, of issue wait z2]
    from Suc.IH [OF \<open>0 < n\<close>, of z2] ne False
    show ?thesis by (simp add: i w)
  qed
qed simp

lemma retry_phys:
  assumes "\<And>s err s'. issue s = ((True, Inl err), s') \<Longrightarrow> phys s' = phys s"
    and "\<And>s. phys (snd (wait s)) = phys s"
  shows "0 < n \<Longrightarrow> \<exists>s. phys s = phys z
    \<and> phys (snd (retry_unit_attention issue wait n z)) \<in> {phys z, phys (snd (issue s))}"
proof (induction n arbitrary: z)
  case (Suc n)
  obtain ua err z1 where i: "issue z = ((ua, err), z1)" by (metis surj_pair)
  obtain d z2 where w: "wait z1 = (d, z2)" by (metis surj_pair)
  show ?case
  proof (cases "err = Inr () \<or> \<not> ua \<or> n = 0")
    case True
    then show ?thesis by (intro exI [of _ z]) (auto simp: i w)
  next
    case False
    then obtain e where e: "err = Inl e" by (cases err) auto
    have same: "phys z1 = phys z" "phys z2 = phys z"
      using assms(1) [of z e z1] assms(2) [of z1] False i w e by auto
    show ?thesis
    proof (cases d)
      case True
      then show ?thesis using same False by (intro exI [of _ z]) (simp add: i w e)
    next
      case d: False
      then have "retry_unit_attention issue wait (Suc n) z = retry_unit_attention issue wait n z2"
        using False by (simp add: i w)
      then show ?thesis using Suc.IH [of z2] same False by simp
    qed
  qed
qed simp

text \<open>Retrying is safe for a robot move. For a device on which a command that draws a UNIT
  ATTENTION is not performed, and whose physical state no pause changes, a retried command is issued
  at most five times, every issue but the last drew a UNIT ATTENTION and failed, the physical state
  is either untouched or the result of performing the command exactly once, and success is reported
  if and only if the last issue succeeded.\<close>

theorem retried_command_performed_once:
  fixes phys :: "'z \<Rightarrow> 'p"
  assumes "\<And>s e s'. sg_issue ioctl cdb s = ((True, Inl e), s') \<Longrightarrow> phys s' = phys s"
    and "\<And>s. phys (snd (wait s)) = phys s"
  shows "(\<exists>s. phys s = phys z
      \<and> phys (snd (sgCommand ioctl wait cdb z)) \<in> {phys z, phys (snd (sg_issue ioctl cdb s))})
    \<and> (let trace = retry_trace (sg_issue ioctl cdb) wait 5 z in
         trace \<noteq> [] \<and> length trace \<le> 5 \<and> (\<forall>s \<in> set (butlast trace). fst s \<and> \<not> fst (snd s))
         \<and> (fst (sgCommand ioctl wait cdb z) = Inr () \<longleftrightarrow> fst (snd (last trace))))"
  using retry_phys [of "sg_issue ioctl cdb" phys wait 5 z, OF assms]
    retry_trace_shape [of 5 "sg_issue ioctl cdb" wait z] retry_trace_nonempty [of 5 "sg_issue ioctl cdb" wait z]
  by (simp add: sgCommand_def retryUnitAttention_def unitAttentionAttempts_def Let_def)

text \<open>A device with a queued UNIT ATTENTION and a counter of the commands it performed.\<close>

definition example_robot :: "(bool \<times> nat) sg_device" where
  "example_robot z cdb = (case z of (queued, performed) \<Rightarrow>
     if queued then (Inr (sg_completion.make 2 0 8 [0x70, 0, 6] 0 0), (False, performed))
     else (Inr (sg_completion.make 0 0 0 [] 0 0), (False, Suc performed)))"

lemma example_robot_issue:
  "sg_issue example_robot cdb (queued, n) =
     (if queued then ((True, Inl (Failed 2 6 0 0)), (False, n)) else ((False, Inr ()), (False, Suc n)))"
  by (simp add: sg_issue_def example_robot_def good_def sg_completion.make_def parseSense_def at_def
      senseKeyUnitAttention_def)

lemma retried_command_performed_once_witness:
  "sgCommand example_robot (\<lambda>z. (False, z)) [0xA5] (True, 0) = (Inr (), (False, 1))
   \<and> length (retry_trace (sg_issue example_robot [0xA5]) (\<lambda>z. (False, z)) 5 (True, 0)) \<le> 5"
proof -
  have "sgCommand example_robot (\<lambda>z. (False, z)) [0xA5] (True, 0) = (Inr (), (False, 1))"
    by (simp add: sgCommand_def retryUnitAttention_def unitAttentionAttempts_def numeral_eq_Suc example_robot_issue)
  moreover have "snd s' = snd s" if "sg_issue example_robot [0xA5] s = ((True, Inl e), s')" for s e s'
    using that by (cases s) (auto simp: example_robot_issue split: if_splits)
  from retried_command_performed_once [of example_robot "[0xA5]" snd "\<lambda>z. (False, z)" "(True, 0)", OF this]
  have "length (retry_trace (sg_issue example_robot [0xA5]) (\<lambda>z. (False, z)) 5 (True, 0)) \<le> 5"
    by (simp add: Let_def)
  ultimately show ?thesis by blast
qed

section \<open>Moves\<close>

text \<open>The address map of a library: element ranges within 16 bits and apart from each other.\<close>

definition addressing_ok :: "elementAddressing \<Rightarrow> bool" where
  "addressing_ok a \<longleftrightarrow> 0 \<le> ea_firstStorage a \<and> ea_firstStorage a + ea_numStorage a \<le> 65536
     \<and> 0 \<le> ea_firstDTE a \<and> ea_firstDTE a + ea_numDTE a \<le> 65536
     \<and> 0 \<le> ea_firstIE a \<and> ea_firstIE a + ea_numIE a \<le> 65536
     \<and> 0 \<le> ea_numStorage a \<and> 0 \<le> ea_numIE a \<and> 0 \<le> ea_numDTE a
     \<and> (ea_firstStorage a + ea_numStorage a \<le> ea_firstIE a \<or> ea_firstIE a + ea_numIE a \<le> ea_firstStorage a
        \<or> ea_numIE a = 0)"

lemma be16_move:
  assumes "0 \<le> x" "x < 65536"
  shows "uint (word16 (word_of_int (drop_bit 8 x)) (word_of_int x)) = x"
proof -
  have "int (unat (word16 (word_of_int (drop_bit 8 x)) (word_of_int x)))
      = 256 * (x div 256 mod 256) + x mod 256"
    by (simp add: unat_word16 drop_bit_eq_div uint_word_of_int)
  also have "\<dots> = x" using assms by simp
  finally show ?thesis by simp
qed

text \<open>Which elements a MOVE MEDIUM block names, as the library reads it.\<close>

definition moved_elements :: "byte list \<Rightarrow> (int \<times> int) option" where
  "moved_elements cdb = do { s \<leftarrow> be16 cdb 4; d \<leftarrow> be16 cdb 6; Some (uint s, uint d) }"

lemma moved_elements_cdb:
  assumes "0 \<le> src" "src < 65536" "0 \<le> dst" "dst < 65536"
  shows "moved_elements (move_medium_cdb t src dst) = Some (src, dst)"
  using assms be16_move [of src] be16_move [of dst]
  by (simp add: moved_elements_def move_medium_cdb_def be16_ok)

text \<open>Moves go where the inventory says. A load, unload or transfer between slots and drives in
  range issues, with its retries, exactly one MOVE MEDIUM block, whose source and destination decode
  to the element addresses that the inventory decoder maps back to the same slot and drive
  numbers; storage and I/O slots never share an address; anything out of range moves nothing.\<close>

theorem moves_match_inventory:
  assumes "addressing_ok a"
  shows "(1 \<le> slot \<longrightarrow> slot \<le> ea_numStorage a \<longrightarrow> 0 \<le> drive \<longrightarrow> drive < ea_numDTE a \<longrightarrow>
      (\<exists>src dst load unload. friendlyStorage a src = slot \<and> isStorageRaw a src \<and> friendlyDrive a dst = drive
        \<and> moved_elements load = Some (src, dst) \<and> moved_elements unload = Some (dst, src)
        \<and> (\<forall>z. Changer_Load ioctl wait a slot drive z =
              (case sgCommand ioctl wait load z of (Inl e, z') \<Rightarrow> (Inl (Sg e), z') | (Inr u, z') \<Rightarrow> (Inr u, z')))
        \<and> (\<forall>z. Changer_Unload ioctl wait a slot drive z =
              (case sgCommand ioctl wait unload z of (Inl e, z') \<Rightarrow> (Inl (Sg e), z') | (Inr u, z') \<Rightarrow> (Inr u, z')))))
    \<and> (\<not> (1 \<le> slot \<and> slot \<le> ea_numStorage a \<and> 0 \<le> drive \<and> drive < ea_numDTE a) \<longrightarrow>
        (\<forall>z. \<exists>e. Changer_Load ioctl wait a slot drive z = (Inl (Address e), z))
        \<and> (\<forall>z. \<exists>e. Changer_Unload ioctl wait a slot drive z = (Inl (Address e), z)))
    \<and> (\<forall>s t x. rawSlot a s = Inr x \<longrightarrow> rawSlot a t = Inr x \<longrightarrow> s = t)
    \<and> (\<forall>s x. rawSlot a s = Inr x \<longrightarrow> s = (if s \<le> ea_numStorage a then friendlyStorage a x else friendlyIO a x))"
proof (intro conjI impI)
  assume r: "1 \<le> slot" "slot \<le> ea_numStorage a" "0 \<le> drive" "drive < ea_numDTE a"
  let ?src = "ea_firstStorage a + (slot - 1)" and ?dst = "ea_firstDTE a + drive"
  let ?load = "move_medium_cdb (transportElement a) ?src ?dst"
  let ?unload = "move_medium_cdb (transportElement a) ?dst ?src"
  have b: "0 \<le> ?src" "?src < 65536" "0 \<le> ?dst" "?dst < 65536"
    using r assms by (auto simp: addressing_ok_def)
  have "moved_elements ?load = Some (?src, ?dst)" "moved_elements ?unload = Some (?dst, ?src)"
    using b by (simp_all add: moved_elements_cdb)
  moreover have "friendlyStorage a ?src = slot" "isStorageRaw a ?src" "friendlyDrive a ?dst = drive"
    using r by (simp_all add: friendlyStorage_def isStorageRaw_def friendlyDrive_def)
  moreover have "Changer_Load ioctl wait a slot drive z = (case sgCommand ioctl wait ?load z of
      (Inl e, z') \<Rightarrow> (Inl (Sg e), z') | (Inr u, z') \<Rightarrow> (Inr u, z'))"
    "Changer_Unload ioctl wait a slot drive z = (case sgCommand ioctl wait ?unload z of
      (Inl e, z') \<Rightarrow> (Inl (Sg e), z') | (Inr u, z') \<Rightarrow> (Inr u, z'))" for z
    using r by (simp_all add: Changer_Load_def Changer_Unload_def move_between_def rawStorage_def
        rawDrive_def scsiMoveMedium_def)
  ultimately show "\<exists>src dst load unload. friendlyStorage a src = slot \<and> isStorageRaw a src
      \<and> friendlyDrive a dst = drive \<and> moved_elements load = Some (src, dst) \<and> moved_elements unload = Some (dst, src)
      \<and> (\<forall>z. Changer_Load ioctl wait a slot drive z =
            (case sgCommand ioctl wait load z of (Inl e, z') \<Rightarrow> (Inl (Sg e), z') | (Inr u, z') \<Rightarrow> (Inr u, z')))
      \<and> (\<forall>z. Changer_Unload ioctl wait a slot drive z =
            (case sgCommand ioctl wait unload z of (Inl e, z') \<Rightarrow> (Inl (Sg e), z') | (Inr u, z') \<Rightarrow> (Inr u, z')))"
    by blast
next
  assume "\<not> (1 \<le> slot \<and> slot \<le> ea_numStorage a \<and> 0 \<le> drive \<and> drive < ea_numDTE a)"
  then show "\<forall>z. \<exists>e. Changer_Load ioctl wait a slot drive z = (Inl (Address e), z)"
    "\<forall>z. \<exists>e. Changer_Unload ioctl wait a slot drive z = (Inl (Address e), z)"
    by (auto simp: Changer_Load_def Changer_Unload_def move_between_def rawStorage_def rawDrive_def)
next
  show "\<forall>s t x. rawSlot a s = Inr x \<longrightarrow> rawSlot a t = Inr x \<longrightarrow> s = t"
    using assms by (auto simp: rawSlot_def addressing_ok_def split: if_splits)
  show "\<forall>s x. rawSlot a s = Inr x \<longrightarrow> s = (if s \<le> ea_numStorage a then friendlyStorage a x else friendlyIO a x)"
    by (auto simp: rawSlot_def friendlyStorage_def friendlyIO_def split: if_splits)
qed

definition example_addressing :: elementAddressing where
  "example_addressing = elementAddressing.make 0 1 1000 24 10 2 500 2"

lemma moves_match_inventory_witness:
  "(\<exists>src dst load unload. friendlyStorage example_addressing src = 3 \<and> friendlyDrive example_addressing dst = 1
      \<and> moved_elements load = Some (src, dst) \<and> moved_elements unload = Some (dst, src))
   \<and> (\<exists>e. Changer_Load example_robot (\<lambda>z. (False, z)) example_addressing 25 1 (True, 0)
        = (Inl (Address e), (True, 0)))"
proof -
  have ok: "addressing_ok example_addressing"
    by (simp add: addressing_ok_def example_addressing_def elementAddressing.make_def)
  show ?thesis
    using moves_match_inventory [OF ok, of 3 1 example_robot "\<lambda>z. (False, z)"]
      moves_match_inventory [OF ok, of 25 1 example_robot "\<lambda>z. (False, z)"]
    by (simp add: example_addressing_def elementAddressing.make_def) blast
qed

section \<open>Element status as a device encodes it\<close>

record status_page =
  pg_type :: byte
  pg_pvoltag :: bool
  pg_descLen :: nat
  pg_descs :: "byte list list"

definition enc16 :: "nat \<Rightarrow> byte list" where
  "enc16 n = [byte_of (n div 256), byte_of n]"

definition enc24 :: "nat \<Rightarrow> byte list" where
  "enc24 n = [byte_of (n div 65536), byte_of (n div 256), byte_of n]"

definition page_header :: "status_page \<Rightarrow> byte list" where
  "page_header p = [pg_type p, if pg_pvoltag p then 0x80 else 0] @ enc16 (pg_descLen p) @ [0]
     @ enc24 (pg_descLen p * length (pg_descs p))"

definition page_bytes :: "status_page \<Rightarrow> byte list" where
  "page_bytes p = page_header p @ concat (pg_descs p)"

definition report_bytes :: "status_page list \<Rightarrow> byte list" where
  "report_bytes pages = [0, 0, 0, 0, 0] @ enc24 (length (concat (map page_bytes pages)))
     @ concat (map page_bytes pages)"

definition pages_ok :: "status_page list \<Rightarrow> bool" where
  "pages_ok pages \<longleftrightarrow> length (concat (map page_bytes pages)) < 2 ^ 24
     \<and> (\<forall>p \<in> set pages. 0 < pg_descLen p \<and> pg_descLen p < 2 ^ 16
          \<and> (\<forall>d \<in> set (pg_descs p). length d = pg_descLen p))"

definition decode_descs ::
  "elementAddressing \<Rightarrow> byte \<Rightarrow> bool \<Rightarrow> byte list list \<Rightarrow> Inventory \<Rightarrow> Inventory" where
  "decode_descs a ty pvoltag descs stock =
     foldl (\<lambda>stock d. the (decodeDescriptor ty pvoltag d a stock)) stock descs"

definition decode_reported :: "elementAddressing \<Rightarrow> status_page list \<Rightarrow> Inventory \<Rightarrow> Inventory" where
  "decode_reported a pages stock =
     foldl (\<lambda>stock p. decode_descs a (pg_type p) (pg_pvoltag p) (pg_descs p) stock) stock pages"

lemma unat_byte_of: "unat (byte_of n) = n mod 256"
  by (simp add: byte_of_def unat_of_nat)

lemma enc16_word: "n < 2 ^ 16 \<Longrightarrow> unat (word16 (byte_of (n div 256)) (byte_of n)) = n"
  by (simp add: unat_word16 unat_byte_of)

lemma enc24_nat: "n < 2 ^ 24 \<Longrightarrow> nat24 (byte_of (n div 65536)) (byte_of (n div 256)) (byte_of n) = n"
proof -
  assume "n < 2 ^ 24"
  then have "n div 65536 < 256" by simp
  then have "nat24 (byte_of (n div 65536)) (byte_of (n div 256)) (byte_of n)
      = 65536 * (n div 65536) + 256 * (n div 256 mod 256) + n mod 256"
    by (simp add: nat24_sum unat_byte_of)
  moreover have "n div 256 = 256 * (n div 65536) + n div 256 mod 256"
    using div_mult2_eq [of n 256 256] by simp
  moreover have "n = 256 * (n div 256) + n mod 256" by simp
  ultimately show ?thesis by linarith
qed

lemma page_header_length [simp]: "length (page_header p) = 8"
  by (simp add: page_header_def enc16_def enc24_def)

lemma decode_page_encoded:
  assumes "\<forall>d \<in> set descs. length d = n" "0 < n"
  shows "decode_page ty pvoltag n (pre @ concat descs @ post) a (length pre + n * length descs) (length pre) stock
    = Some (decode_descs a ty pvoltag descs stock)"
  using assms(1)
proof (induction descs arbitrary: pre stock)
  case Nil
  then show ?case using assms(2) by (subst decode_page.simps) (simp add: decode_descs_def)
next
  case (Cons d descs)
  let ?data = "pre @ concat (d # descs) @ post"
  obtain stock' where s: "decodeDescriptor ty pvoltag d a stock = Some stock'"
    using decodeDescriptor_total by blast
  have d: "slice ?data (length pre) (length pre + n) = Some d" using Cons.prems by (simp add: slice_ok)
  have "decode_page ty pvoltag n ?data a (length pre + n * length (d # descs)) (length pre) stock
      = decode_page ty pvoltag n ?data a (length pre + n * length (d # descs)) (length pre + n) stock'"
    using Cons.prems assms(2) by (subst decode_page.simps) (simp add: d [simplified] s)
  also have "\<dots> = decode_page ty pvoltag n ((pre @ d) @ concat descs @ post) a
      (length (pre @ d) + n * length descs) (length (pre @ d)) stock'"
    using Cons.prems by (simp add: ac_simps)
  also have "\<dots> = Some (decode_descs a ty pvoltag (d # descs) stock)"
    using Cons.IH [of "pre @ d" stock'] Cons.prems by (simp add: decode_descs_def s)
  finally show ?case .
qed

lemma decode_pages_encoded:
  assumes "\<forall>p \<in> set pages. 0 < pg_descLen p \<and> pg_descLen p < 2 ^ 16
      \<and> pg_descLen p * length (pg_descs p) < 2 ^ 24 \<and> (\<forall>d \<in> set (pg_descs p). length d = pg_descLen p)"
  shows "decode_pages (pre @ concat (map page_bytes pages)) a (length pre) stock
    = Some (decode_reported a pages stock)"
  using assms
proof (induction pages arbitrary: pre stock)
  case Nil
  then show ?case
    by (subst decode_pages.simps) (simp add: decode_reported_def elementStatusPageHeaderLen_def)
next
  case (Cons p pages)
  let ?rest = "concat (map page_bytes pages)"
  let ?data = "pre @ concat (map page_bytes (p # pages))"
  let ?pos = "length pre"
  let ?count = "pg_descLen p * length (pg_descs p)"
  have ok: "0 < pg_descLen p" "pg_descLen p < 2 ^ 16" "?count < 2 ^ 24"
    "\<forall>d \<in> set (pg_descs p). length d = pg_descLen p" using Cons.prems by auto
  have data: "?data = (pre @ page_header p) @ concat (pg_descs p) @ ?rest"
    by (simp add: page_bytes_def)
  have len: "length (concat (pg_descs p)) = ?count"
    using ok(4) by (simp add: length_concat sum_list_triv cong: map_cong)
  have nth: "?data ! (?pos + i) = page_header p ! i" if "i < 8" for i
    unfolding data using that by (simp add: nth_append)
  have long: "?pos + 7 < length ?data" by (simp add: page_bytes_def)
  have nth': "?data ! (?pos + i + j) = page_header p ! (i + j)" if "i + j < 8" for i j
    using nth [OF that] by (simp only: add.assoc)
  have ph: "page_header p ! 0 = pg_type p" "page_header p ! 1 = (if pg_pvoltag p then 0x80 else 0)"
      "page_header p ! 2 = byte_of (pg_descLen p div 256)" "page_header p ! (2 + 1) = byte_of (pg_descLen p)"
      "page_header p ! 5 = byte_of (?count div 65536)" "page_header p ! (5 + 1) = byte_of (?count div 256)"
      "page_header p ! (5 + 2) = byte_of ?count"
    by (simp_all add: page_header_def enc16_def enc24_def)
  have f: "at ?data ?pos = Some (pg_type p)"
      "at ?data (?pos + 1) = Some (if pg_pvoltag p then 0x80 else 0)"
      "be16 ?data (?pos + 2) = Some (word16 (byte_of (pg_descLen p div 256)) (byte_of (pg_descLen p)))"
      "be24 ?data (?pos + 5) = Some ?count"
  proof -
    have "?pos < length ?data" "?pos + 1 < length ?data" using long by linarith+
    note at = this [THEN at_ok]
    show "at ?data ?pos = Some (pg_type p)" unfolding at(1) using nth [of 0] ph(1) by simp
    show "at ?data (?pos + 1) = Some (if pg_pvoltag p then 0x80 else 0)"
      unfolding at(2) using nth [of 1] ph(2) by simp
    have "be16 ?data (?pos + 2) = Some (word16 (?data ! (?pos + 2)) (?data ! (?pos + 2 + 1)))"
      using long by (intro be16_ok) simp
    then show "be16 ?data (?pos + 2) = Some (word16 (byte_of (pg_descLen p div 256)) (byte_of (pg_descLen p)))"
      using nth [of 2] nth' [of 2 1] by (simp only: ph)
    have "be24 ?data (?pos + 5) = Some (nat24 (?data ! (?pos + 5)) (?data ! (?pos + 5 + 1)) (?data ! (?pos + 5 + 2)))"
      using long by (intro be24_ok) simp
    then show "be24 ?data (?pos + 5) = Some ?count"
      using nth [of 5] nth' [of 5 1] nth' [of 5 2] enc24_nat [OF ok(3)] by (simp only: ph)
  qed
  have w: "unat (word16 (byte_of (pg_descLen p div 256)) (byte_of (pg_descLen p))) = pg_descLen p"
    using ok(2) by (rule enc16_word)
  let ?stock = "decode_descs a (pg_type p) (pg_pvoltag p) (pg_descs p) stock"
  have page: "decode_page (pg_type p) (pg_pvoltag p) (pg_descLen p) ?data a (?pos + 8 + ?count) (?pos + 8) stock
      = Some ?stock"
    using decode_page_encoded [OF ok(4,1), of "pg_type p" "pg_pvoltag p" "pre @ page_header p" ?rest a stock]
    by (simp add: page_bytes_def)
  have "((if pg_pvoltag p then 0x80 else 0) AND pvoltagBit \<noteq> 0) = pg_pvoltag p"
    by (simp add: pvoltagBit_def)
  then have "decode_pages ?data a ?pos stock = decode_pages ?data a (?pos + 8 + ?count) ?stock"
    using long ok(1) page f
    by (subst decode_pages.simps) (simp add: elementStatusPageHeaderLen_def f w)
  also have "\<dots> = decode_pages ((pre @ page_bytes p) @ ?rest) a (length (pre @ page_bytes p)) ?stock"
    by (simp add: page_bytes_def len add.assoc)
  also have "\<dots> = Some (decode_reported a (p # pages) stock)"
    using Cons.IH [of "pre @ page_bytes p" ?stock] Cons.prems by (simp add: decode_reported_def)
  finally show ?case .
qed

text \<open>C28: Inventory decoding is exact. A report encoded by a conforming device, any pages of
  descriptors of any positive length, is decoded to the inventory made of every descriptor of every
  page in order, and a report cut short anywhere is refused rather than decoded in part.\<close>

theorem element_status_roundtrip:
  assumes "pages_ok pages"
  shows "decodeElementStatus (report_bytes pages) a = Some (Inr (decode_reported a pages emptyInventory))
    \<and> (\<forall>k < length (report_bytes pages). \<exists>e. decodeElementStatus (take k (report_bytes pages)) a = Some (Inl e))"
proof -
  let ?body = "concat (map page_bytes pages)" and ?r = "report_bytes pages"
  have small: "length ?body < 2 ^ 24" using assms by (simp add: pages_ok_def)
  have len: "length ?r = 8 + length ?body" by (simp add: report_bytes_def enc24_def)
  have nth: "?r ! 5 = byte_of (length ?body div 65536)" "?r ! 6 = byte_of (length ?body div 256)"
    "?r ! 7 = byte_of (length ?body)"
    by (simp_all add: report_bytes_def enc24_def nth_append)
  have count: "be24 (take k ?r) 5 = Some (length ?body)" if "7 < k" for k
    using be24_ok [of 5 "take k ?r"] that by (simp add: len nth enc24_nat [OF small])
  have each: "pg_descLen p * length (pg_descs p) < 2 ^ 24" if "p \<in> set pages" for p
  proof -
    have "length (page_bytes p) \<le> length ?body"
      using member_le_sum_list [of "length (page_bytes p)" "map (length \<circ> page_bytes) pages"] that
      by (simp add: length_concat o_def)
    moreover have "length (concat (pg_descs p)) = pg_descLen p * length (pg_descs p)"
      using assms that by (simp add: pages_ok_def length_concat sum_list_triv cong: map_cong)
    ultimately show ?thesis using small by (simp add: page_bytes_def)
  qed
  have "decode_pages (([0, 0, 0, 0, 0] @ enc24 (length ?body)) @ ?body) a
      (length (([0, 0, 0, 0, 0] :: byte list) @ enc24 (length ?body))) emptyInventory
    = Some (decode_reported a pages emptyInventory)"
    using assms each by (intro decode_pages_encoded) (auto simp: pages_ok_def)
  moreover have "length (([0, 0, 0, 0, 0] :: byte list) @ enc24 (length ?body)) = 8" by (simp add: enc24_def)
  ultimately have "decode_pages ?r a 8 emptyInventory = Some (decode_reported a pages emptyInventory)"
    by (simp only: report_bytes_def append_assoc)
  moreover have "\<exists>e. decodeElementStatus (take k ?r) a = Some (Inl e)" if "k < length ?r" for k
    using that count [of k] len
    by (cases "k < 8") (auto simp: decodeElementStatus_def elementStatusHeaderLen_def)
  ultimately show ?thesis
    using count [of "length ?r"] len by (simp add: decodeElementStatus_def elementStatusHeaderLen_def)
qed

definition example_pages :: "status_page list" where
  "example_pages = [status_page.make 2 False 12 [[3, 232, 1, 0, 0, 0, 0, 0, 0, 0, 0, 0], [3, 233, 0, 0, 0, 0, 0, 0, 0, 0, 0, 0]],
     status_page.make 4 False 12 [[1, 244, 1, 0, 0, 0, 0, 0, 0, 0x80, 3, 233]]]"

lemma element_status_roundtrip_witness:
  "decodeElementStatus (report_bytes example_pages) example_addressing = Some (Inr
     \<lparr> inv_Drives = [\<lparr> de_Address = 0, de_Barcode = [], de_Loaded = True, de_SourceSlot = 2, de_Serial = [] \<rparr>],
       inv_Slots = [\<lparr> se_Address = 1, se_Barcode = [], se_Full = True \<rparr>,
                    \<lparr> se_Address = 2, se_Barcode = [], se_Full = False \<rparr>],
       inv_IOSlots = [], inv_IOAccessReported = False \<rparr>)"
proof -
  have "pages_ok example_pages"
    by (simp add: pages_ok_def example_pages_def status_page.make_def page_bytes_def page_header_def
        enc16_def enc24_def)
  from element_status_roundtrip [OF this, of example_addressing]
  show ?thesis
    by (simp add: example_pages_def status_page.make_def decode_reported_def decode_descs_def
        emptyInventory_def decodeDescriptor_def be16_ok descMinLen_def descSourceMinLen_def elementFlagFull_def
        elementFlagAccess_def svalidBit_def primaryVolumeTagOffset_def decodeDriveSerial_def deviceIDHeaderLen_def
        word16_sum example_addressing_def elementAddressing.make_def isStorageRaw_def friendlyStorage_def
        friendlyDrive_def)
qed

end
