(* ===== verification/Batching.thy ===== *)
theory Batching
  imports Prelude
begin

text \<open>
  Cutting a list of work into consecutive sets of at most \<open>width\<close> items, as the code plans
  drive-sets and burn-sets: an open set is filled item by item and closed when it is full. The
  locale states what such a loop does per item; its clients are \<open>planDriveSets\<close> and
  \<open>planBurnSets\<close>.
\<close>

fun chunk :: "nat \<Rightarrow> 'a list \<Rightarrow> 'a list list" where
  "chunk n xs = (if xs = [] \<or> n = 0 then [] else take n xs # chunk n (drop n xs))"

declare chunk.simps [simp del]

lemma chunk_Nil [simp]: "chunk n [] = []"
  by (simp add: chunk.simps)

lemma chunk_short: "xs \<noteq> [] \<Longrightarrow> length xs \<le> n \<Longrightarrow> chunk n xs = [xs]"
  using chunk.simps [of n xs] by (cases "n = 0") auto

lemma chunk_full: "length xs = n \<Longrightarrow> 0 < n \<Longrightarrow> chunk n (xs @ ys) = xs # chunk n ys"
  by (subst chunk.simps) auto

lemma chunk_batches: "0 < n \<Longrightarrow> batches n (chunk n xs) xs"
proof (induction n xs rule: chunk.induct)
  case (1 n xs)
  show ?case
  proof (cases "xs = []")
    case False
    then have "batches n (chunk n (drop n xs)) (drop n xs)" using 1 by simp
    then show ?thesis using False 1(2) by (subst chunk.simps) (auto simp: batches_def)
  qed (simp add: batches_def)
qed

lemma chunk_nth:
  "0 < n \<Longrightarrow> i < length (chunk n xs) \<Longrightarrow> j < length (chunk n xs ! i)
   \<Longrightarrow> i * n + j < length xs \<and> j < n \<and> chunk n xs ! i ! j = xs ! (i * n + j)"
proof (induction n xs arbitrary: i rule: chunk.induct)
  case (1 n xs)
  then have ne: "xs \<noteq> []" by auto
  show ?case
  proof (cases i)
    case 0
    then show ?thesis using 1(3,4) ne 1(2) by (simp add: chunk.simps [of n xs])
  next
    case (Suc k)
    then have "k < length (chunk n (drop n xs))" "j < length (chunk n (drop n xs) ! k)"
      using 1(3,4) ne 1(2) by (simp_all add: chunk.simps [of n xs])
    then have "k * n + j < length (drop n xs) \<and> j < n
        \<and> chunk n (drop n xs) ! k ! j = drop n xs ! (k * n + j)"
      using 1(1) ne 1(2) by simp
    then have "k * n + j < length xs - n" "j < n" "chunk n (drop n xs) ! k ! j = xs ! (n + (k * n + j))"
      using nth_drop [of n xs "k * n + j"] by auto
    then show ?thesis using Suc ne 1(2) by (simp add: chunk.simps [of n xs] add.assoc)
  qed
qed

lemma chunk_count: "0 < n \<Longrightarrow> length (chunk n xs) = (length xs + n - 1) div n"
proof (induction n xs rule: chunk.induct)
  case (1 n xs)
  show ?case
  proof (cases "length xs \<le> n")
    case True
    show ?thesis
    proof (cases "xs = []")
      case False
      then have "length xs + n - 1 = n + (length xs - 1)" "length xs - 1 < n" using True by (cases xs; simp)+
      then have "(length xs + n - 1) div n = 1"
        using 1(2) div_add_self1 [of n "length xs - 1"] by simp
      then show ?thesis using True False by (simp add: chunk_short)
    qed (use 1(2) in simp)
  next
    case False
    then have "length (chunk n xs) = Suc (length (chunk n (drop n xs)))"
      using 1(2) by (subst chunk.simps) auto
    also have "\<dots> = Suc ((length xs - n + n - 1) div n)" using 1 False by (cases "xs = []") auto
    also have "\<dots> = (length xs + n - 1) div n" using False 1(2)
      using le_div_geq [of n "length xs + n - 1"] by simp
    finally show ?thesis .
  qed
qed

text \<open>
  The item, its running number and its position in the set determine the assignment \<open>mk\<close>;
  \<open>room\<close> says for which running numbers the code's tables have an entry.
\<close>

locale set_planner =
  fixes width :: nat
    and room :: "nat \<Rightarrow> bool"
    and mk :: "'x \<Rightarrow> nat \<Rightarrow> nat \<Rightarrow> 'a"
    and loop :: "'x list \<Rightarrow> 'a list list \<Rightarrow> 'a list \<Rightarrow> nat \<Rightarrow> 'a list list option"
  assumes width: "0 < width"
    and loop_Nil: "loop [] sets current slot = Some (if current \<noteq> [] then sets @ [current] else sets)"
    and loop_Cons: "length current < width \<Longrightarrow> room slot \<Longrightarrow>
      loop (x # xs) sets current slot =
        (let current' = current @ [mk x slot (length current)] in
         if length current' = width then loop xs (sets @ [current']) [] (Suc slot)
         else loop xs sets current' (Suc slot))"
begin

definition assigned :: "nat \<Rightarrow> nat \<Rightarrow> 'x list \<Rightarrow> 'a list" where
  "assigned pos slot xs = map (\<lambda>k. mk (xs ! k) (slot + k) ((pos + k) mod width)) [0..<length xs]"

lemma assigned_Cons:
  "pos < width \<Longrightarrow> assigned pos slot (x # xs) = mk x slot pos # assigned (Suc pos) (Suc slot) xs"
  by (simp add: assigned_def upt_conv_Cons map_Suc_upt [symmetric] del: upt_Suc)

lemma assigned_wrap: "assigned width slot xs = assigned 0 slot xs"
  by (simp add: assigned_def)

lemma loop_chunk:
  "length current < width \<Longrightarrow> (\<And>k. k < length xs \<Longrightarrow> room (slot + k)) \<Longrightarrow>
   loop xs sets current slot = Some (sets @ chunk width (current @ assigned (length current) slot xs))"
proof (induction xs arbitrary: sets current slot)
  case Nil
  then show ?case using width by (simp add: loop_Nil assigned_def chunk_short)
next
  case (Cons x xs)
  have room: "room slot" "\<And>k. k < length xs \<Longrightarrow> room (Suc slot + k)"
    using Cons.prems(2) [of 0] Cons.prems(2) [of "Suc k" for k] by auto
  let ?c = "current @ [mk x slot (length current)]"
  show ?case
  proof (cases "length ?c = width")
    case True
    have "loop (x # xs) sets current slot = loop xs (sets @ [?c]) [] (Suc slot)"
      using loop_Cons [OF Cons.prems(1) room(1)] True by (simp add: Let_def)
    also have "\<dots> = Some (sets @ [?c] @ chunk width (assigned 0 (Suc slot) xs))"
      using Cons.IH [of "[]" "Suc slot" "sets @ [?c]"] room(2) width by simp
    also have "\<dots> = Some (sets @ chunk width (?c @ assigned 0 (Suc slot) xs))"
      using chunk_full [OF True width] by simp
    finally show ?thesis using assigned_Cons [OF Cons.prems(1)] True assigned_wrap by simp
  next
    case False
    then have "loop (x # xs) sets current slot = loop xs sets ?c (Suc slot)"
      using loop_Cons [OF Cons.prems(1) room(1)] by (simp add: Let_def)
    also have "\<dots> = Some (sets @ chunk width (?c @ assigned (length ?c) (Suc slot) xs))"
      using Cons.IH [of ?c "Suc slot" sets] room(2) False Cons.prems(1) by simp
    finally show ?thesis using assigned_Cons [OF Cons.prems(1)] by simp
  qed
qed

lemma plan:
  assumes "\<And>k. k < length xs \<Longrightarrow> room k"
  shows "loop xs [] [] 0 = Some (chunk width (assigned 0 0 xs))"
  using loop_chunk [of "[]" xs 0 "[]"] assms width by simp

end

end
