(* ===== verification/Library.thy ===== *)
theory Library
  imports Batching Types Scsi "HOL-Library.Monad_Syntax"
begin

text \<open>
  \<open>workflows/backup/library.go\<close>: the drive-set plan, and the Load, ReturnToSlots and Eject
  activities. The changer, the drives and the clock are a record of operations over a state
  \<open>'z\<close> that every call threads; a call answers an error of type \<open>'e\<close> or a result. The loop that
  waits for a drive to become ready may not return, so what contains it is an option. Slot and
  drive addresses are \<open>int\<close>, as in \<open>tape.Inventory\<close>.
\<close>

record ('z, 'e) hardware =
  hw_Inventory :: "'z \<Rightarrow> ('e + Inventory) \<times> 'z"
  hw_Load :: "int \<Rightarrow> int \<Rightarrow> 'z \<Rightarrow> ('e + unit) \<times> 'z"
  hw_Unload :: "int \<Rightarrow> int \<Rightarrow> 'z \<Rightarrow> ('e + unit) \<times> 'z"
  hw_Transfer :: "int \<Rightarrow> int \<Rightarrow> 'z \<Rightarrow> ('e + unit) \<times> 'z"
  hw_Inquire :: "string \<Rightarrow> 'z \<Rightarrow> ('e + string) \<times> 'z"
  hw_SGDevice :: "string \<Rightarrow> 'z \<Rightarrow> ('e + string) \<times> 'z"
  hw_IsBlank :: "string \<Rightarrow> 'z \<Rightarrow> ('e + bool) \<times> 'z"
  hw_CtxDone :: "'z \<Rightarrow> bool \<times> 'z"
  hw_Now :: "'z \<Rightarrow> int \<times> 'z"
  hw_Wait :: "int \<Rightarrow> 'z \<Rightarrow> bool \<times> 'z"

section \<open>Slots and drives\<close>

definition findFreeStorageSlot :: "Inventory \<Rightarrow> int \<Rightarrow> (int \<rightharpoonup> string) \<Rightarrow> int" where
  "findFreeStorageSlot stock preferSlot relocated =
     (case List.find (\<lambda>slot. se_Address slot = preferSlot \<and> \<not> se_Full slot
              \<and> relocated (se_Address slot) = None) (inv_Slots stock) of
        Some slot \<Rightarrow> se_Address slot
      | None \<Rightarrow> (case List.find (\<lambda>slot. \<not> se_Full slot \<and> relocated (se_Address slot) = None)
                    (inv_Slots stock) of
          Some slot \<Rightarrow> se_Address slot
        | None \<Rightarrow> -1))"

definition findFreeIOSlot :: "Inventory \<Rightarrow> int" where
  "findFreeIOSlot stock =
     (case List.find (\<lambda>slot. \<not> ie_Full slot) (inv_IOSlots stock) of
        Some slot \<Rightarrow> ie_Address slot | None \<Rightarrow> -1)"

definition slotBarcode :: "Inventory \<Rightarrow> int \<Rightarrow> string option" where
  "slotBarcode stock addr =
     (case List.find (\<lambda>slot. se_Address slot = addr) (inv_Slots stock) of
        Some slot \<Rightarrow> (if se_Full slot then Some (se_Barcode slot) else None)
      | None \<Rightarrow> None)"

text \<open>The relocations are the keys of the map, given as a list.\<close>

definition occupiedStorageSlots :: "Inventory \<Rightarrow> int list \<Rightarrow> int list" where
  "occupiedStorageSlots stock relocated =
     sort (remdups (map se_Address (filter se_Full (inv_Slots stock)) @ relocated))"

definition loadedDriveCount :: "Inventory \<Rightarrow> nat" where
  "loadedDriveCount stock = length (filter de_Loaded (inv_Drives stock))"

definition occupiedIOCount :: "Inventory \<Rightarrow> nat" where
  "occupiedIOCount stock = length (filter ie_Full (inv_IOSlots stock))"

definition formatSlotRange :: "int \<Rightarrow> int \<Rightarrow> string" where
  "formatSlotRange start end0 =
     (if start = end0 then itoa_int start else itoa_int start @ ''-'' @ itoa_int end0)"

fun slot_ranges :: "int \<Rightarrow> int \<Rightarrow> int list \<Rightarrow> (int \<times> int) list" where
  "slot_ranges start prev [] = [(start, prev)]"
| "slot_ranges start prev (address # addresses) =
     (if address = prev + 1 then slot_ranges start address addresses
      else (start, prev) # slot_ranges address address addresses)"

definition formatSlotRanges :: "int list \<Rightarrow> string" where
  "formatSlotRanges addresses =
     (case addresses of [] \<Rightarrow> ''none''
      | address # rest \<Rightarrow> join_with '', '' (map (\<lambda>(a, b). formatSlotRange a b) (slot_ranges address address rest)))"

section \<open>Pairing a drive with its element\<close>

datatype 'e pair_error =
  ReadIdentity 'e
| NoSerial
| SerialAmbiguous string int int
| SerialUnmatched string

fun match_drives :: "string \<Rightarrow> DriveElement option \<Rightarrow> DriveElement list \<Rightarrow> 'e pair_error + DriveElement" where
  "match_drives serial found [] = (case found of None \<Rightarrow> Inl (SerialUnmatched serial) | Some de \<Rightarrow> Inr de)"
| "match_drives serial found (de # des) =
     (if de_Serial de \<noteq> serial then match_drives serial found des
      else case found of
          Some first \<Rightarrow> Inl (SerialAmbiguous serial (de_Address first) (de_Address de))
        | None \<Rightarrow> match_drives serial (Some de) des)"

definition matchDriveElement :: "Inventory \<Rightarrow> string \<Rightarrow> 'e pair_error + DriveElement" where
  "matchDriveElement stock serial =
     (if serial = [] then Inl NoSerial else match_drives serial None (inv_Drives stock))"

definition driveElementFor ::
  "('z, 'e) hardware \<Rightarrow> string \<Rightarrow> Inventory \<Rightarrow> 'z \<Rightarrow> ('e pair_error + DriveElement) \<times> 'z" where
  "driveElementFor hw drive stock z =
     (case hw_Inquire hw drive z of
        (Inl e, z1) \<Rightarrow> (Inl (ReadIdentity e), z1)
      | (Inr serial, z1) \<Rightarrow> (matchDriveElement stock serial, z1))"

section \<open>Load\<close>

partial_function (option) blank_check_loop ::
  "('z, 'e) hardware \<Rightarrow> string \<Rightarrow> int \<Rightarrow> int \<Rightarrow> 'z \<Rightarrow> (('e + bool) \<times> 'z) option" where
  "blank_check_loop hw drive deadline poll z =
     (case hw_IsBlank hw drive z of
        (Inr blank, z1) \<Rightarrow> Some (Inr blank, z1)
      | (Inl e, z1) \<Rightarrow>
          let (ctxDone, z2) = hw_CtxDone hw z1 in
          if ctxDone then Some (Inl e, z2)
          else let (now, z3) = hw_Now hw z2 in
            if now > deadline then Some (Inl e, z3)
            else let (ctxDone, z4) = hw_Wait hw poll z3 in
              if ctxDone then Some (Inl e, z4)
              else blank_check_loop hw drive deadline poll z4)"

definition blankCheckWhenReady ::
  "('z, 'e) hardware \<Rightarrow> string \<Rightarrow> int \<Rightarrow> int \<Rightarrow> 'z \<Rightarrow> (('e + bool) \<times> 'z) option" where
  "blankCheckWhenReady hw drive timeout poll z =
     (let (now, z1) = hw_Now hw z in blank_check_loop hw drive (now + timeout) poll z1)"

text \<open>Durations are nanoseconds.\<close>

definition driveReadyTimeout :: int where "driveReadyTimeout = 3 * 60 * 10 ^ 9"

definition driveReadyPoll :: int where "driveReadyPoll = 10 ^ 9"

datatype 'e reconcile_error =
  NoSlotToRelocate string int
| RelocateFailed string int int 'e
| TargetEmpty int string nat nat
| LoadFailed string int 'e

text \<open>
  The stale inventory \<open>stock\<close> and the storage slots \<open>relocated\<close> since it was read. The slots of
  the map, in any order, are \<open>keys\<close>; only the error text depends on them.
\<close>

definition load_target ::
  "('z, 'e) hardware \<Rightarrow> Inventory \<Rightarrow> int \<Rightarrow> int \<Rightarrow> (int \<times> string) list \<Rightarrow> 'z
     \<Rightarrow> ('e reconcile_error + string) \<times> 'z" where
  "load_target hw stock driveAddr targetSlot relocated z =
     (let targetBarcode = (case map_of relocated targetSlot of
            Some b \<Rightarrow> Some b | None \<Rightarrow> slotBarcode stock targetSlot) in
      case targetBarcode of
        None \<Rightarrow> (Inl (TargetEmpty targetSlot
            (formatSlotRanges (occupiedStorageSlots stock (map fst relocated)))
            (loadedDriveCount stock) (occupiedIOCount stock)), z)
      | Some b \<Rightarrow> (case hw_Load hw targetSlot driveAddr z of
            (Inl e, z1) \<Rightarrow> (Inl (LoadFailed b targetSlot e), z1)
          | (Inr _, z1) \<Rightarrow> (Inr b, z1)))"

definition reconcileLoad ::
  "('z, 'e) hardware \<Rightarrow> Inventory \<Rightarrow> DriveElement \<Rightarrow> int \<Rightarrow> (int \<times> string) list \<Rightarrow> 'z
     \<Rightarrow> ('e reconcile_error + string) \<times> (int \<times> string) list \<times> 'z" where
  "reconcileLoad hw stock de targetSlot relocated z =
     (if de_Loaded de \<and> de_SourceSlot de = targetSlot then (Inr (de_Barcode de), relocated, z)
      else if de_Loaded de then
        let relocateSlot = findFreeStorageSlot stock (de_SourceSlot de) (map_of relocated) in
        if relocateSlot = -1
        then (Inl (NoSlotToRelocate (de_Barcode de) (de_SourceSlot de)), relocated, z)
        else
          let relocated' = (relocateSlot, de_Barcode de) # relocated in
          case hw_Unload hw relocateSlot (de_Address de) z of
            (Inl e, z1) \<Rightarrow>
              (Inl (RelocateFailed (de_Barcode de) (de_SourceSlot de) relocateSlot e), relocated', z1)
          | (Inr _, z1) \<Rightarrow>
              let (r, z2) = load_target hw stock (de_Address de) targetSlot relocated' z1
              in (r, relocated', z2)
      else
        let (r, z2) = load_target hw stock (de_Address de) targetSlot relocated z in (r, relocated, z2))"

datatype 'e load_error =
  LoadInventory 'e
| MoreTapesThanDrives nat nat
| LoadPair nat string "'e pair_error"
| LoadReconcile nat string int "'e reconcile_error"
| LoadSGNode nat string 'e
| LoadBlankCheck nat string string 'e
| LoadNonBlank nat string string int

definition loaded_tape :: "TapeAssignment \<Rightarrow> string \<Rightarrow> string \<Rightarrow> bool \<Rightarrow> LoadedTape" where
  "loaded_tape assignment barcode sgDev overwroteNonBlank =
     \<lparr> lt_Barcode = barcode, lt_DriveIndex = ta_DriveIndex assignment, lt_TapeIndex = ta_TapeIndex assignment,
       lt_CopyIndex = ta_CopyIndex assignment, lt_SourceSlot = ta_BlankSlot assignment,
       lt_STDevice = ta_Drive assignment, lt_SGDevice = sgDev, lt_OverwroteNonBlank = overwroteNonBlank \<rparr>"

text \<open>What the loop of \<open>Load\<close> keeps: the relocations, and the tapes put into drives, in order.\<close>

record load_progress =
  lp_relocated :: "(int \<times> string) list"
  lp_inDrives :: "(int \<times> int) list"

definition load_one ::
  "('z, 'e) hardware \<Rightarrow> Inventory \<Rightarrow> bool \<Rightarrow> TapeAssignment \<Rightarrow> load_progress \<Rightarrow> 'z
     \<Rightarrow> (('e load_error + LoadedTape) \<times> load_progress \<times> 'z) option" where
  "load_one hw stock allowNonBlank assignment progress z =
     (let stDev = ta_Drive assignment; targetSlot = ta_BlankSlot assignment;
          index = ta_DriveIndex assignment in
      case driveElementFor hw stDev stock z of
        (Inl e, z1) \<Rightarrow> Some (Inl (LoadPair index stDev e), progress, z1)
      | (Inr de, z1) \<Rightarrow> (case reconcileLoad hw stock de targetSlot (lp_relocated progress) z1 of
          (Inl e, relocated, z2) \<Rightarrow>
            Some (Inl (LoadReconcile index stDev targetSlot e), progress\<lparr> lp_relocated := relocated \<rparr>, z2)
        | (Inr barcode, relocated, z2) \<Rightarrow>
            let progress' = progress\<lparr> lp_relocated := relocated,
                  lp_inDrives := lp_inDrives progress @ [(targetSlot, de_Address de)] \<rparr> in
            (case hw_SGDevice hw stDev z2 of
              (Inl e, z3) \<Rightarrow> Some (Inl (LoadSGNode index stDev e), progress', z3)
            | (Inr sgDev, z3) \<Rightarrow>
                (case blankCheckWhenReady hw stDev driveReadyTimeout driveReadyPoll z3 of
                   None \<Rightarrow> None
                 | Some (Inl e, z4) \<Rightarrow> Some (Inl (LoadBlankCheck index stDev barcode e), progress', z4)
                 | Some (Inr blank, z4) \<Rightarrow>
                     if \<not> blank \<and> \<not> allowNonBlank
                     then Some (Inl (LoadNonBlank index stDev barcode targetSlot), progress', z4)
                     else Some (Inr (loaded_tape assignment barcode sgDev (\<not> blank)), progress', z4)))))"

fun load_tapes ::
  "('z, 'e) hardware \<Rightarrow> Inventory \<Rightarrow> bool \<Rightarrow> TapeAssignment list \<Rightarrow> load_progress \<Rightarrow> 'z
     \<Rightarrow> (('e load_error + LoadedTape list) \<times> load_progress \<times> 'z) option" where
  "load_tapes hw stock allowNonBlank [] progress z = Some (Inr [], progress, z)"
| "load_tapes hw stock allowNonBlank (assignment # assignments) progress z =
     (case load_one hw stock allowNonBlank assignment progress z of
        None \<Rightarrow> None
      | Some (Inl e, progress', z1) \<Rightarrow> Some (Inl e, progress', z1)
      | Some (Inr lt, progress', z1) \<Rightarrow>
          (case load_tapes hw stock allowNonBlank assignments progress' z1 of
             None \<Rightarrow> None
           | Some (Inl e, progress'', z2) \<Rightarrow> Some (Inl e, progress'', z2)
           | Some (Inr lts, progress'', z2) \<Rightarrow> Some (Inr (lt # lts), progress'', z2)))"

text \<open>The deferred return of the tapes after a failure; its own failures are only logged.\<close>

fun return_after_failure :: "('z, 'e) hardware \<Rightarrow> (int \<times> int) list \<Rightarrow> 'z \<Rightarrow> 'z" where
  "return_after_failure hw [] z = z"
| "return_after_failure hw ((slot, drive) # inDrives) z =
     return_after_failure hw inDrives (snd (hw_Unload hw slot drive z))"

definition Load ::
  "('z, 'e) hardware \<Rightarrow> TapeAssignment list \<Rightarrow> bool \<Rightarrow> 'z
     \<Rightarrow> (('e load_error + LoadedTape list) \<times> 'z) option" where
  "Load hw tapes allowNonBlank z =
     (if tapes = [] then Some (Inr [], z)
      else case hw_Inventory hw z of
        (Inl e, z1) \<Rightarrow> Some (Inl (LoadInventory e), z1)
      | (Inr stock, z1) \<Rightarrow>
          if length tapes > length (inv_Drives stock)
          then Some (Inl (MoreTapesThanDrives (length tapes) (length (inv_Drives stock))), z1)
          else (case load_tapes hw stock allowNonBlank tapes \<lparr> lp_relocated = [], lp_inDrives = [] \<rparr> z1 of
              None \<Rightarrow> None
            | Some (Inl e, progress, z2) \<Rightarrow> Some (Inl e, return_after_failure hw (lp_inDrives progress) z2)
            | Some (Inr loaded, progress, z2) \<Rightarrow> Some (Inr loaded, z2)))"

text \<open>\<open>ReturnToSlots\<close> goes on after a failure and collects the errors; it succeeds when there are none.\<close>

datatype 'e return_error = ReturnInventory 'e | ReturnPair nat string "'e pair_error" | ReturnUnload string nat int 'e

fun return_tapes ::
  "('z, 'e) hardware \<Rightarrow> Inventory \<Rightarrow> LoadedTape list \<Rightarrow> 'z \<Rightarrow> 'e return_error list \<times> 'z" where
  "return_tapes hw stock [] z = ([], z)"
| "return_tapes hw stock (lt # lts) z =
     (case driveElementFor hw (lt_STDevice lt) stock z of
        (Inl e, z1) \<Rightarrow> let (errs, z2) = return_tapes hw stock lts z1
                      in (ReturnPair (lt_DriveIndex lt) (lt_STDevice lt) e # errs, z2)
      | (Inr de, z1) \<Rightarrow>
          if \<not> de_Loaded de then return_tapes hw stock lts z1
          else
            let (r, z2) = hw_Unload hw (lt_SourceSlot lt) (de_Address de) z1;
                (errs, z3) = return_tapes hw stock lts z2
            in (case r of Inl e \<Rightarrow> ReturnUnload (lt_Barcode lt) (lt_DriveIndex lt) (lt_SourceSlot lt) e # errs
                 | Inr _ \<Rightarrow> errs, z3))"

definition ReturnToSlots :: "('z, 'e) hardware \<Rightarrow> LoadedTape list \<Rightarrow> 'z \<Rightarrow> 'e return_error list \<times> 'z" where
  "ReturnToSlots hw tapes z =
     (case hw_Inventory hw z of
        (Inl e, z1) \<Rightarrow> ([ReturnInventory e], z1)
      | (Inr stock, z1) \<Rightarrow> return_tapes hw stock tapes z1)"

section \<open>Eject\<close>

datatype 'e eject_move_error = EjectUnload string nat int 'e | EjectTransfer string int int 'e

fun unload_written ::
  "('z, 'e) hardware \<Rightarrow> WrittenTape \<Rightarrow> DriveElement list \<Rightarrow> 'z \<Rightarrow> ('e eject_move_error + unit) \<times> 'z" where
  "unload_written hw wt [] z = (Inr (), z)"
| "unload_written hw wt (drive # drives) z =
     (if de_Loaded drive \<and> de_Barcode drive = wt_Barcode wt
      then (case hw_Unload hw (wt_SourceSlot wt) (de_Address drive) z of
          (Inl e, z1) \<Rightarrow> (Inl (EjectUnload (wt_Barcode wt) (wt_DriveIndex wt) (wt_SourceSlot wt) e), z1)
        | (Inr _, z1) \<Rightarrow> (Inr (), z1))
      else unload_written hw wt drives z)"

definition ejectTape ::
  "('z, 'e) hardware \<Rightarrow> Inventory \<Rightarrow> WrittenTape \<Rightarrow> 'z \<Rightarrow> ('e eject_move_error + bool) \<times> 'z" where
  "ejectTape hw stock wt z =
     (if \<exists>io \<in> set (inv_IOSlots stock). ie_Full io \<and> ie_Barcode io = wt_Barcode wt then (Inr True, z)
      else case unload_written hw wt (inv_Drives stock) z of
        (Inl e, z1) \<Rightarrow> (Inl e, z1)
      | (Inr _, z1) \<Rightarrow>
          let ioSlot = findFreeIOSlot stock in
          if ioSlot = -1 then (Inr False, z1)
          else (case hw_Transfer hw (wt_SourceSlot wt) ioSlot z1 of
              (Inl e, z2) \<Rightarrow> (Inl (EjectTransfer (wt_Barcode wt) (wt_SourceSlot wt) ioSlot e), z2)
            | (Inr _, z2) \<Rightarrow> (Inr True, z2)))"

datatype 'e eject_error =
  EjectInventory 'e
| EjectInventoryBefore string 'e
| EjectTapeFailed string nat nat "'e eject_move_error"
| EjectInventoryAfter 'e

text \<open>The loop from position \<open>i\<close>: the first tape uses the inventory read before it.\<close>

fun eject_tapes ::
  "('z, 'e) hardware \<Rightarrow> Inventory \<Rightarrow> nat \<Rightarrow> WrittenTape list \<Rightarrow> 'z
     \<Rightarrow> ('e eject_error + WrittenTape list) \<times> 'z" where
  "eject_tapes hw stock i [] z = (Inr [], z)"
| "eject_tapes hw stock i (wt # wts) z =
     (case (if i > 0 then hw_Inventory hw z else (Inr stock, z)) of
        (Inl e, z1) \<Rightarrow> (Inl (EjectInventoryBefore (wt_Barcode wt) e), z1)
      | (Inr now, z1) \<Rightarrow> (case ejectTape hw now wt z1 of
          (Inl e, z2) \<Rightarrow> (Inl (EjectTapeFailed (wt_Barcode wt) (wt_DriveIndex wt) i e), z2)
        | (Inr exported, z2) \<Rightarrow> (case eject_tapes hw now (Suc i) wts z2 of
            (Inl e, z3) \<Rightarrow> (Inl e, z3)
          | (Inr remaining, z3) \<Rightarrow> (Inr (if exported then remaining else wt # remaining), z3))))"

definition barcodesInIOStation :: "Inventory \<Rightarrow> string list" where
  "barcodesInIOStation stock = map ie_Barcode (filter ie_Full (inv_IOSlots stock))"

definition Eject ::
  "('z, 'e) hardware \<Rightarrow> WrittenTape list \<Rightarrow> 'z \<Rightarrow> ('e eject_error + EjectResult) \<times> 'z" where
  "Eject hw writtenTapes z =
     (if writtenTapes = [] then (Inr \<lparr> ej_InIOStation = [], ej_Remaining = [] \<rparr>, z)
      else case hw_Inventory hw z of
        (Inl e, z1) \<Rightarrow> (Inl (EjectInventory e), z1)
      | (Inr stock, z1) \<Rightarrow> (case eject_tapes hw stock 0 writtenTapes z1 of
          (Inl e, z2) \<Rightarrow> (Inl e, z2)
        | (Inr remaining, z2) \<Rightarrow> (case hw_Inventory hw z2 of
            (Inl e, z3) \<Rightarrow> (Inl (EjectInventoryAfter e), z3)
          | (Inr now, z3) \<Rightarrow>
              (Inr \<lparr> ej_InIOStation = barcodesInIOStation now, ej_Remaining = remaining \<rparr>, z3))))"

definition ioStatus :: "Inventory \<Rightarrow> IOStatus" where
  "ioStatus stock =
     \<lparr> io_FreeSlots = int (length (filter (\<lambda>io. \<not> ie_Full io) (inv_IOSlots stock))),
       io_AccessReported = inv_IOAccessReported stock,
       io_StationClosed = (inv_IOAccessReported stock \<and> (\<forall>io \<in> set (inv_IOSlots stock). ie_Accessible io)) \<rparr>"

definition IOStationStatus :: "('z, 'e) hardware \<Rightarrow> 'z \<Rightarrow> ('e + IOStatus) \<times> 'z" where
  "IOStationStatus hw z =
     (case hw_Inventory hw z of (Inl e, z1) \<Rightarrow> (Inl e, z1) | (Inr stock, z1) \<Rightarrow> (Inr (ioStatus stock), z1))"

section \<open>Drive-sets\<close>

datatype drive_set_error = NoCopies int | NoDrivesConfigured int | TooFewBlankSlots int nat

text \<open>
  The loop over (tape, copy) pairs; \<open>current\<close> is the open drive-set and \<open>slot\<close> the next blank
  slot. Indexing \<open>drives\<close> and \<open>blankSlots\<close> past their end would panic: \<open>None\<close>.
\<close>

definition nth_opt :: "'a list \<Rightarrow> nat \<Rightarrow> 'a option" where
  "nth_opt xs i = (if i < length xs then Some (xs ! i) else None)"

fun drive_set_loop ::
  "string list \<Rightarrow> int list \<Rightarrow> (nat \<times> nat) list \<Rightarrow> driveSet list \<Rightarrow> driveSet \<Rightarrow> nat \<Rightarrow> driveSet list option" where
  "drive_set_loop drives blankSlots [] sets current slot =
     Some (if current \<noteq> [] then sets @ [current] else sets)"
| "drive_set_loop drives blankSlots ((tapeIndex, copyIndex) # pairs) sets current slot =
     do {
       drive \<leftarrow> nth_opt drives (length current);
       blank \<leftarrow> nth_opt blankSlots slot;
       let current' = current @ [\<lparr> ta_Drive = drive, ta_DriveIndex = length current, ta_BlankSlot = blank,
             ta_TapeIndex = tapeIndex, ta_CopyIndex = copyIndex \<rparr>];
       if length current' = length drives
       then drive_set_loop drives blankSlots pairs (sets @ [current']) [] (Suc slot)
       else drive_set_loop drives blankSlots pairs sets current' (Suc slot) }"

definition tape_copies :: "nat \<Rightarrow> int \<Rightarrow> (nat \<times> nat) list" where
  "tape_copies tapes copies = List.product [0..<tapes] [0..<nat copies]"

definition planDriveSets ::
  "TapePlan \<Rightarrow> string list \<Rightarrow> int list \<Rightarrow> (drive_set_error + driveSet list) option" where
  "planDriveSets plan drives blankSlots =
     (let tot = int (length (tp_Tapes plan)) * tp_Copies plan in
      if tot = 0 then Some (Inr [])
      else if tp_Copies plan < 1 then Some (Inl (NoCopies (tp_Copies plan)))
      else if drives = [] then Some (Inl (NoDrivesConfigured tot))
      else if tot > int (length blankSlots) then Some (Inl (TooFewBlankSlots tot (length blankSlots)))
      else map_option Inr
             (drive_set_loop drives blankSlots (tape_copies (length (tp_Tapes plan)) (tp_Copies plan)) [] [] 0))"

subsection \<open>The plan\<close>

definition drive_set_assignment :: "string list \<Rightarrow> int list \<Rightarrow> nat \<times> nat \<Rightarrow> nat \<Rightarrow> nat \<Rightarrow> TapeAssignment" where
  "drive_set_assignment drives blankSlots pair slot pos =
     \<lparr> ta_Drive = drives ! pos, ta_DriveIndex = pos, ta_BlankSlot = blankSlots ! slot,
       ta_TapeIndex = fst pair, ta_CopyIndex = snd pair \<rparr>"

text \<open>The plan of at least one drive; a library without drives is planned as one that fails.\<close>

interpretation drive_sets: set_planner "max (Suc 0) (length drives)" "\<lambda>slot. slot < length blankSlots \<and> drives \<noteq> []"
  "drive_set_assignment drives blankSlots" "drive_set_loop drives blankSlots"
  for drives :: "string list" and blankSlots :: "int list"
  by unfold_locales
    (auto simp: nth_opt_def drive_set_assignment_def Let_def max_def Suc_le_eq split: if_splits)

lemma tape_copies_length: "0 \<le> copies \<Longrightarrow> int (length (tape_copies n copies)) = int n * copies"
  by (simp add: tape_copies_def)

lemma tape_copies_set:
  "set (tape_copies n copies) = {(t, c). t < n \<and> int c < copies}"
  by (auto simp: tape_copies_def)

lemma tape_copies_distinct: "distinct (tape_copies n copies)"
  by (simp add: tape_copies_def distinct_product)

lemma drive_sets_nth:
  "drives \<noteq> [] \<Longrightarrow> k < length xs \<Longrightarrow> drive_sets.assigned drives blankSlots 0 0 xs ! k
     = drive_set_assignment drives blankSlots (xs ! k) k (k mod length drives)"
  by (subst drive_sets.assigned_def) (cases drives; simp)

lemma planDriveSets_eq:
  assumes "1 \<le> tp_Copies plan" "drives \<noteq> []"
    and "int (length (tp_Tapes plan)) * tp_Copies plan \<le> int (length blankSlots)"
  shows "planDriveSets plan drives blankSlots = Some (Inr (chunk (length drives)
    (drive_sets.assigned drives blankSlots 0 0 (tape_copies (length (tp_Tapes plan)) (tp_Copies plan)))))"
proof -
  let ?xs = "tape_copies (length (tp_Tapes plan)) (tp_Copies plan)"
  have n: "int (length ?xs) = int (length (tp_Tapes plan)) * tp_Copies plan"
    using assms(1) by (simp add: tape_copies_length)
  have w: "max (Suc 0) (length drives) = length drives" using assms(2) by (cases drives) auto
  have "drive_set_loop drives blankSlots ?xs [] [] 0
      = Some (chunk (length drives) (drive_sets.assigned drives blankSlots 0 0 ?xs))"
    using drive_sets.plan [of ?xs blankSlots drives] n assms w by auto
  moreover have "tp_Tapes plan = [] \<Longrightarrow> drive_sets.assigned drives blankSlots 0 0 ?xs = []"
    by (simp add: drive_sets.assigned_def tape_copies_def)
  ultimately show ?thesis using assms by (auto simp: planDriveSets_def Let_def)
qed

text \<open>The drive-set plan writes every physical tape exactly once. Planning never indexes past the
  configured drives or slots; it succeeds exactly when there is nothing to write, or there is a
  copy, a drive and a blank slot per physical tape. A plan lists every (tape, copy) pair once, in
  order, each with the next blank slot; it is cut into the fewest sets of at most one tape per
  drive, and the i-th tape of a set gets the i-th drive.\<close>

theorem plan_drive_sets_sound:
  "(\<exists>r. planDriveSets plan drives blankSlots = Some r
      \<and> ((\<exists>sets. r = Inr sets) \<longleftrightarrow> tp_Tapes plan = [] \<or> tp_Copies plan = 0
          \<or> 1 \<le> tp_Copies plan \<and> drives \<noteq> []
            \<and> int (length (tp_Tapes plan)) * tp_Copies plan \<le> int (length blankSlots)))
   \<and> (\<forall>sets. planDriveSets plan drives blankSlots = Some (Inr sets) \<longrightarrow>
        map (\<lambda>a. (ta_TapeIndex a, ta_CopyIndex a)) (concat sets)
          = List.product [0..<length (tp_Tapes plan)] [0..<nat (tp_Copies plan)]
        \<and> distinct (concat sets)
        \<and> map ta_BlankSlot (concat sets) = take (length (concat sets)) blankSlots
        \<and> length sets = (length (concat sets) + length drives - 1) div length drives
        \<and> (\<forall>s \<in> set sets. s \<noteq> [] \<and> length s \<le> length drives
             \<and> (\<forall>i < length s. ta_DriveIndex (s ! i) = i \<and> ta_Drive (s ! i) = drives ! i)))"
proof (cases "tp_Tapes plan = [] \<or> tp_Copies plan = 0")
  case True
  then have "int (length (tp_Tapes plan)) * tp_Copies plan = 0" by auto
  moreover have "List.product xs ([] :: nat list) = []" for xs :: "nat list" by (induction xs) auto
  ultimately show ?thesis using True by (auto simp: planDriveSets_def Let_def div_eq_0_iff)
next
  case some: False
  then have tot: "int (length (tp_Tapes plan)) * tp_Copies plan \<noteq> 0" by simp
  show ?thesis
  proof (cases "1 \<le> tp_Copies plan \<and> drives \<noteq> []
      \<and> int (length (tp_Tapes plan)) * tp_Copies plan \<le> int (length blankSlots)")
    case False
    then show ?thesis using some tot by (auto simp: planDriveSets_def Let_def)
  next
    case True
    let ?xs = "tape_copies (length (tp_Tapes plan)) (tp_Copies plan)"
    let ?as = "drive_sets.assigned drives blankSlots 0 0 ?xs" and ?w = "length drives"
    have w: "0 < ?w" "max (Suc 0) ?w = ?w" using True by (cases drives; simp)+
    have n: "length ?xs \<le> length blankSlots" using True tape_copies_length [of "tp_Copies plan" "length (tp_Tapes plan)"] by linarith
    have plan: "planDriveSets plan drives blankSlots = Some (Inr (chunk ?w ?as))"
      using planDriveSets_eq True by blast
    have as: "map (\<lambda>a. (ta_TapeIndex a, ta_CopyIndex a)) ?as = ?xs" "length ?as = length ?xs"
      "map ta_BlankSlot ?as = take (length ?xs) blankSlots"
      using n by (auto simp: drive_sets.assigned_def drive_set_assignment_def intro: nth_equalityI)
    have b: "concat (chunk ?w ?as) = ?as" "s \<in> set (chunk ?w ?as) \<Longrightarrow> s \<noteq> [] \<and> length s \<le> ?w" for s
      using chunk_batches [OF w(1), of ?as] by (auto simp: batches_def)
    have pos: "ta_DriveIndex (s ! i) = i \<and> ta_Drive (s ! i) = drives ! i"
      if "s \<in> set (chunk ?w ?as)" "i < length s" for s i
    proof -
      note s = that
      obtain k where k: "k < length (chunk ?w ?as)" "s = chunk ?w ?as ! k"
        using s(1) by (auto simp: in_set_conv_nth)
      have j: "k * ?w + i < length ?as" "i < ?w" "s ! i = ?as ! (k * ?w + i)"
        using chunk_nth [OF w(1) k(1), of i] s(2) k(2) by auto
      then have "s ! i = drive_set_assignment drives blankSlots (?xs ! (k * ?w + i)) (k * ?w + i) i"
        using as(2) drive_sets_nth [OF _ _, of drives "k * ?w + i" ?xs blankSlots] True by simp
      then show ?thesis by (simp add: drive_set_assignment_def)
    qed
    have "distinct ?as" using as(1) tape_copies_distinct by (metis distinct_map)
    then show ?thesis using plan True b pos as chunk_count [OF w(1), of ?as]
      by (simp add: tape_copies_def)
  qed
qed

definition example_tape_plan :: TapePlan where
  "example_tape_plan = \<lparr> tp_Copies = 2, tp_Tapes = [\<lparr> pt_Archives = [], pt_UsableBytes = 5 \<rparr>,
     \<lparr> pt_Archives = [], pt_UsableBytes = 5 \<rparr>] \<rparr>"

lemma plan_drive_sets_sound_witness:
  "\<exists>sets. planDriveSets example_tape_plan [''/dev/nst0'', ''/dev/nst1'', ''/dev/nst2''] [4, 5, 9, 7, 2] = Some (Inr sets)
     \<and> length sets = 2 \<and> map ta_BlankSlot (concat sets) = [4, 5, 9, 7]
     \<and> map (\<lambda>a. (ta_TapeIndex a, ta_CopyIndex a)) (concat sets) = [(0, 0), (0, 1), (1, 0), (1, 1)]"
proof -
  let ?r = "planDriveSets example_tape_plan [''/dev/nst0'', ''/dev/nst1'', ''/dev/nst2''] [4, 5, 9, 7, 2]"
  note sound = plan_drive_sets_sound [of example_tape_plan "[''/dev/nst0'', ''/dev/nst1'', ''/dev/nst2'']" "[4, 5, 9, 7, 2]"]
  obtain sets where p: "?r = Some (Inr sets)"
    using sound by (auto simp: example_tape_plan_def)
  then have pairs: "map (\<lambda>a. (ta_TapeIndex a, ta_CopyIndex a)) (concat sets) = [(0, 0), (0, 1), (1, 0), (1, 1)]"
    and rest: "map ta_BlankSlot (concat sets) = take (length (concat sets)) [4, 5, 9, 7, 2]"
      "length sets = (length (concat sets) + 3 - 1) div 3"
    using sound by (simp_all add: example_tape_plan_def upt_rec numeral_2_eq_2)
  have "length (concat sets) = 4" using arg_cong [OF pairs, of length] by simp
  then show ?thesis using p pairs rest by simp
qed

end
