(* ===== verification/Media.thy ===== *)
theory Media
  imports Library
begin

text \<open>
  What the activities of \<open>library.go\<close> do to the tapes. \<open>media\<close> says which barcode lies where;
  \<open>conforming\<close> is the documented behaviour of a library, its drives and the clock: an inventory
  shows where the tapes are, a move that succeeds moves one tape into an empty element, a move that
  fails moves nothing, and nothing else moves tapes.
\<close>

datatype place = Slot int | Drive int

type_synonym media = "place \<rightharpoonup> string"

definition move_media :: "place \<Rightarrow> place \<Rightarrow> media \<Rightarrow> media" where
  "move_media p q m = m(q := m p, p := None)"

definition shows_media :: "int set \<Rightarrow> Inventory \<Rightarrow> media \<Rightarrow> bool" where
  "shows_media io stock m \<longleftrightarrow>
     (\<forall>s \<in> set (inv_Slots stock). m (Slot (se_Address s)) = (if se_Full s then Some (se_Barcode s) else None)
        \<and> se_Address s \<notin> io \<and> se_Address s \<noteq> -1)
     \<and> (\<forall>s \<in> set (inv_IOSlots stock). m (Slot (ie_Address s)) = (if ie_Full s then Some (ie_Barcode s) else None)
        \<and> ie_Address s \<noteq> -1)
     \<and> (\<forall>d \<in> set (inv_Drives stock). m (Drive (de_Address d)) = (if de_Loaded d then Some (de_Barcode d) else None))
     \<and> ie_Address ` set (inv_IOSlots stock) = io
     \<and> (\<forall>a b. m (Slot a) = Some b \<longrightarrow> a \<in> se_Address ` set (inv_Slots stock) \<union> io)
     \<and> (\<forall>d b. m (Drive d) = Some b \<longrightarrow> d \<in> de_Address ` set (inv_Drives stock))"

definition moves :: "('z \<Rightarrow> media) \<Rightarrow> place \<Rightarrow> place \<Rightarrow> ('z \<Rightarrow> ('e + unit) \<times> 'z) \<Rightarrow> bool" where
  "moves tapes p q move \<longleftrightarrow> (\<forall>z. case move z of
       (Inl e, z') \<Rightarrow> tapes z' = tapes z
     | (Inr _, z') \<Rightarrow> tapes z p \<noteq> None \<and> tapes z q = None \<and> p \<noteq> q \<and> tapes z' = move_media p q (tapes z))"

definition conforming :: "('z, 'e) hardware \<Rightarrow> int set \<Rightarrow> ('z \<Rightarrow> media) \<Rightarrow> bool" where
  "conforming hw io tapes \<longleftrightarrow>
     (\<forall>z. tapes (snd (hw_Inventory hw z)) = tapes z)
     \<and> (\<forall>z stock. fst (hw_Inventory hw z) = Inr stock \<longrightarrow> shows_media io stock (tapes z))
     \<and> (\<forall>slot drive. moves tapes (Slot slot) (Drive drive) (hw_Load hw slot drive))
     \<and> (\<forall>slot drive. moves tapes (Drive drive) (Slot slot) (hw_Unload hw slot drive))
     \<and> (\<forall>src dst. moves tapes (Slot src) (Slot dst) (hw_Transfer hw src dst))
     \<and> (\<forall>dev z. tapes (snd (hw_Inquire hw dev z)) = tapes z)
     \<and> (\<forall>dev z. tapes (snd (hw_SGDevice hw dev z)) = tapes z)
     \<and> (\<forall>dev z. tapes (snd (hw_IsBlank hw dev z)) = tapes z)
     \<and> (\<forall>z. tapes (snd (hw_CtxDone hw z)) = tapes z)
     \<and> (\<forall>z. tapes (snd (hw_Now hw z)) = tapes z)
     \<and> (\<forall>d z. tapes (snd (hw_Wait hw d z)) = tapes z)"

lemma conforming_inventory:
  assumes c: "conforming hw io tapes" and i: "hw_Inventory hw z = (r, z')"
  shows "tapes z' = tapes z" "r = Inr stock \<Longrightarrow> shows_media io stock (tapes z)"
proof -
  have "tapes (snd (hw_Inventory hw z)) = tapes z"
    "fst (hw_Inventory hw z) = Inr stock \<longrightarrow> shows_media io stock (tapes z)"
    using c unfolding conforming_def by blast+
  then show "tapes z' = tapes z" "r = Inr stock \<Longrightarrow> shows_media io stock (tapes z)"
    by (simp_all add: i)
qed

lemma moves_cases:
  assumes "moves tapes p q move" "move z = (r, z')"
  shows "case r of Inl e \<Rightarrow> tapes z' = tapes z
    | Inr _ \<Rightarrow> tapes z p \<noteq> None \<and> tapes z q = None \<and> p \<noteq> q \<and> tapes z' = move_media p q (tapes z)"
  using assms(1) [unfolded moves_def, rule_format, of z] by (cases r) (simp_all add: assms(2))

lemma moves_ok:
  assumes "moves tapes p q move" "move z = (Inr u, z')"
  shows "tapes z p \<noteq> None" "tapes z q = None" "p \<noteq> q" "tapes z' = move_media p q (tapes z)"
  using moves_cases [OF assms] by simp_all

lemma conforming_moves:
  assumes "conforming hw io tapes"
  shows "moves tapes (Slot slot) (Drive drive) (hw_Load hw slot drive)"
    "moves tapes (Drive drive) (Slot slot) (hw_Unload hw slot drive)"
    "moves tapes (Slot src) (Slot dst) (hw_Transfer hw src dst)"
  using assms by (simp_all add: conforming_def)

lemma conforming_still:
  assumes "conforming hw io tapes"
  shows "hw_Inquire hw dev z = (r1, z') \<Longrightarrow> tapes z' = tapes z"
    "hw_SGDevice hw dev z = (r2, z') \<Longrightarrow> tapes z' = tapes z"
    "hw_IsBlank hw dev z = (r3, z') \<Longrightarrow> tapes z' = tapes z"
    "hw_CtxDone hw z = (r4, z') \<Longrightarrow> tapes z' = tapes z"
    "hw_Now hw z = (r5, z') \<Longrightarrow> tapes z' = tapes z"
    "hw_Wait hw d z = (r4, z') \<Longrightarrow> tapes z' = tapes z"
  using assms unfolding conforming_def by (metis snd_conv)+

section \<open>The blank check\<close>

lemma blank_check_loop_answer:
  assumes "blank_check_loop hw dev deadline poll z = Some r"
  shows "fst r = Inr b \<Longrightarrow> \<exists>s. hw_IsBlank hw dev s = (Inr b, snd r)"
  using assms
proof (induct rule: blank_check_loop.raw_induct [rotated 1, consumes 1])
  case (1 f hw dev deadline poll z r)
  show ?case
  proof (cases "\<exists>z'. f hw dev deadline poll z' = Some r")
    case True
    then show ?thesis using 1 by blast
  next
    case False
    obtain a z1 where h: "hw_IsBlank hw dev z = (a, z1)" by (metis surj_pair)
    from False have "hw_IsBlank hw dev z = (Inr b, snd r)"
      using 1(2,3) by (auto simp: h Let_def split: prod.splits sum.splits if_splits)
    then show ?thesis ..
  qed
qed

lemma blank_check_loop_still:
  assumes "blank_check_loop hw dev deadline poll z = Some r"
  shows "conforming hw io tapes \<Longrightarrow> tapes (snd r) = tapes z"
  using assms
proof (induct rule: blank_check_loop.raw_induct [rotated 1, consumes 1])
  case (1 f hw dev deadline poll z r)
  note still = conforming_still [OF 1(3)] and IH = 1(1) [OF _ 1(3)]
  obtain a z1 where h: "hw_IsBlank hw dev z = (a, z1)" by (metis surj_pair)
  show ?case using 1(2) still(3) [OF h]
    by (auto simp: h Let_def split: prod.splits sum.splits if_splits dest!: still IH)
qed

text \<open>With a clock that advances, the wait for a drive returns.\<close>

text \<open>Waiting for a drive to become ready always ends. When the clock never runs backwards and a
  pause that is not cancelled lets at least the poll interval pass, the blank check returns: the
  drive's answer, or its error once the context is done or the deadline has passed.\<close>

theorem blank_check_returns:
  assumes "\<And>s. now (snd (hw_IsBlank hw dev s)) \<ge> now s" "\<And>s. now (snd (hw_CtxDone hw s)) \<ge> now s"
    and "\<And>s. fst (hw_Now hw s) = now s \<and> now (snd (hw_Now hw s)) \<ge> now s"
    and "\<And>s. fst (hw_Wait hw poll s) \<or> now (snd (hw_Wait hw poll s)) \<ge> now s + poll"
    and "0 < poll"
  shows "\<exists>r. blankCheckWhenReady hw dev timeout poll z = Some r
    \<and> (\<forall>blank. fst r = Inr blank \<longrightarrow> (\<exists>s. hw_IsBlank hw dev s = (Inr blank, snd r)))"
proof -
  have loop: "\<exists>r. blank_check_loop hw dev deadline poll s = Some r" for deadline s
  proof (induction "nat (deadline + 1 - now s)" arbitrary: s rule: less_induct)
    case less
    obtain a s1 where s1: "hw_IsBlank hw dev s = (a, s1)" by (metis surj_pair)
    obtain d s2 where s2: "hw_CtxDone hw s1 = (d, s2)" by (metis surj_pair)
    obtain t s3 where s3: "hw_Now hw s2 = (t, s3)" by (metis surj_pair)
    obtain c s4 where s4: "hw_Wait hw poll s3 = (c, s4)" by (metis surj_pair)
    have mono: "now s \<le> now s1" "now s1 \<le> now s2" "t = now s2" "now s2 \<le> now s3"
      "c \<or> now s3 + poll \<le> now s4"
      using assms(1) [of s] assms(2) [of s1] assms(3) [of s2] assms(4) [of s3] s1 s2 s3 s4 by auto
    show ?case
    proof (cases "(\<exists>b. a = Inr b) \<or> d \<or> t > deadline \<or> c")
      case True
      then show ?thesis
        by (subst blank_check_loop.simps) (auto simp: s1 s2 s3 s4 split: sum.splits)
    next
      case False
      then have "nat (deadline + 1 - now s4) < nat (deadline + 1 - now s)" using mono assms(5) by auto
      then obtain r where "blank_check_loop hw dev deadline poll s4 = Some r" using less by blast
      then show ?thesis using False
        by (subst blank_check_loop.simps) (auto simp: s1 s2 s3 s4 split: sum.splits)
    qed
  qed
  obtain t z1 where "hw_Now hw z = (t, z1)" by (metis surj_pair)
  moreover obtain r where r: "blank_check_loop hw dev (t + timeout) poll z1 = Some r" using loop by blast
  ultimately show ?thesis using blank_check_loop_answer [OF r]
    by (simp add: blankCheckWhenReady_def)
qed

section \<open>Pairing\<close>

lemma match_drives_found:
  "(match_drives serial (Some first) des :: 'e pair_error + DriveElement) = Inr de
   \<longleftrightarrow> de = first \<and> (\<forall>d \<in> set des. de_Serial d \<noteq> serial)"
  by (induction des) auto

lemma match_drives_iff:
  "(match_drives serial None des :: 'e pair_error + DriveElement) = Inr de
   \<longleftrightarrow> filter (\<lambda>d. de_Serial d = serial) des = [de]"
  by (induction des) (auto simp: match_drives_found filter_empty_conv)

lemma driveElementFor_ok:
  assumes "driveElementFor hw dev stock z = (Inr de, z1)"
  shows "\<exists>serial. hw_Inquire hw dev z = (Inr serial, z1) \<and> serial \<noteq> []
    \<and> filter (\<lambda>d. de_Serial d = serial) (inv_Drives stock) = [de]"
  using assms by (auto simp: driveElementFor_def matchDriveElement_def match_drives_iff
      split: prod.splits sum.splits if_splits)

lemma matched_element:
  "filter P xs = [x] \<Longrightarrow> x \<in> set xs \<and> P x"
  using filter_eq_Cons_iff [of P xs x "[]"] by auto

section \<open>Load\<close>

lemma load_one_ok:
  assumes "load_one hw stock allowNonBlank a progress z = Some (Inr lt, progress', z')"
  obtains serial z1 de relocated z2 barcode z3 sgDev where
    "hw_Inquire hw (ta_Drive a) z = (Inr serial, z1)" "serial \<noteq> []"
    "filter (\<lambda>d. de_Serial d = serial) (inv_Drives stock) = [de]"
    "reconcileLoad hw stock de (ta_BlankSlot a) (lp_relocated progress) z1 = (Inr barcode, relocated, z2)"
    "hw_SGDevice hw (ta_Drive a) z2 = (Inr sgDev, z3)"
    "blankCheckWhenReady hw (ta_Drive a) driveReadyTimeout driveReadyPoll z3
       = Some (Inr (\<not> lt_OverwroteNonBlank lt), z')"
    "lt_OverwroteNonBlank lt \<longrightarrow> allowNonBlank"
    "lt = loaded_tape a barcode sgDev (lt_OverwroteNonBlank lt)"
    "lp_relocated progress' = relocated"
proof -
  obtain r1 z1 where r1: "driveElementFor hw (ta_Drive a) stock z = (r1, z1)" by (metis surj_pair)
  with assms obtain de where de: "r1 = Inr de"
    by (cases r1) (simp_all add: load_one_def Let_def)
  obtain r2 relocated z2 where r2: "reconcileLoad hw stock de (ta_BlankSlot a) (lp_relocated progress) z1
      = (r2, relocated, z2)" by (metis surj_pair)
  with assms r1 de obtain barcode where barcode: "r2 = Inr barcode"
    by (cases r2) (simp_all add: load_one_def Let_def)
  obtain r3 z3 where r3: "hw_SGDevice hw (ta_Drive a) z2 = (r3, z3)" by (metis surj_pair)
  with assms r1 de r2 barcode obtain sgDev where sgDev: "r3 = Inr sgDev"
    by (cases r3) (simp_all add: load_one_def Let_def)
  obtain blank where "blankCheckWhenReady hw (ta_Drive a) driveReadyTimeout driveReadyPoll z3 = Some (Inr blank, z')"
      "\<not> blank \<longrightarrow> allowNonBlank" "lt = loaded_tape a barcode sgDev (\<not> blank)" "lp_relocated progress' = relocated"
    using assms r1 de r2 barcode r3 sgDev
    by (auto simp: load_one_def Let_def split: option.splits sum.splits if_splits)
  then show thesis using that [of serial z1 de barcode relocated z2 sgDev z3 for serial]
      driveElementFor_ok [OF r1 [unfolded de]] r2 barcode r3 sgDev
    by (auto simp: loaded_tape_def)
qed

lemma load_tapes_steps:
  "load_tapes hw stock allowNonBlank tapes progress z = Some (Inr loaded, progress', z')
   \<Longrightarrow> list_all2 (\<lambda>a lt. \<exists>p s p' s'. load_one hw stock allowNonBlank a p s = Some (Inr lt, p', s')) tapes loaded"
proof (induction tapes arbitrary: progress z loaded)
  case (Cons a tapes)
  from Cons.prems obtain lt p s lts where
    "load_one hw stock allowNonBlank a progress z = Some (Inr lt, p, s)"
    "load_tapes hw stock allowNonBlank tapes p s = Some (Inr lts, progress', z')" "loaded = lt # lts"
    by (auto split: option.splits sum.splits prod.splits)
  then show ?case using Cons.IH by auto
qed simp

lemma blankCheckWhenReady_answer:
  "blankCheckWhenReady hw dev timeout poll z = Some (Inr b, z') \<Longrightarrow> \<exists>s. hw_IsBlank hw dev s = (Inr b, z')"
  using blank_check_loop_answer [of hw dev _ poll _ "(Inr b, z')" b]
  by (auto simp: blankCheckWhenReady_def split: prod.splits)

definition loaded_as_assigned :: "('z, 'e) hardware \<Rightarrow> Inventory \<Rightarrow> bool \<Rightarrow> TapeAssignment \<Rightarrow> LoadedTape \<Rightarrow> bool" where
  "loaded_as_assigned hw stock allowNonBlank a lt \<longleftrightarrow>
     lt_TapeIndex lt = ta_TapeIndex a \<and> lt_CopyIndex lt = ta_CopyIndex a
     \<and> lt_DriveIndex lt = ta_DriveIndex a \<and> lt_STDevice lt = ta_Drive a \<and> lt_SourceSlot lt = ta_BlankSlot a
     \<and> (lt_OverwroteNonBlank lt \<longrightarrow> allowNonBlank)
     \<and> (\<exists>s s'. hw_IsBlank hw (ta_Drive a) s = (Inr (\<not> lt_OverwroteNonBlank lt), s'))
     \<and> (\<exists>s s' serial de. hw_Inquire hw (ta_Drive a) s = (Inr serial, s') \<and> serial \<noteq> []
          \<and> filter (\<lambda>d. de_Serial d = serial) (inv_Drives stock) = [de])"


subsection \<open>Where the tapes end up\<close>

text \<open>
  Between the steps of \<open>Load\<close>: the drives not yet served hold what the inventory showed, and a
  storage slot is empty, or holds what was relocated into it, or what the inventory showed.
\<close>

definition load_inv :: "media \<Rightarrow> (int \<times> string) list \<Rightarrow> int set \<Rightarrow> media \<Rightarrow> bool" where
  "load_inv m0 relocated served m \<longleftrightarrow>
     (\<forall>d. d \<notin> served \<longrightarrow> m (Drive d) = m0 (Drive d))
     \<and> (\<forall>s b. m (Slot s) = Some b \<longrightarrow>
          (case map_of relocated s of Some c \<Rightarrow> b = c | None \<Rightarrow> m0 (Slot s) = Some b))"

lemma slotBarcode_shows:
  assumes "shows_media io stock m" "slotBarcode stock s = Some b"
  shows "m (Slot s) = Some b"
  using assms by (auto simp: shows_media_def slotBarcode_def find_Some_iff split: option.splits if_splits)

lemma load_inv_target:
  assumes "load_inv m0 relocated served m" "m (Slot s) \<noteq> None" "shows_media io stock m0"
    and "(case map_of relocated s of Some b \<Rightarrow> Some b | None \<Rightarrow> slotBarcode stock s) = Some b"
  shows "m (Slot s) = Some b"
proof -
  obtain c where c: "m (Slot s) = Some c" using assms(2) by auto
  then have "case map_of relocated s of Some d \<Rightarrow> c = d | None \<Rightarrow> m0 (Slot s) = Some c"
    using assms(1) unfolding load_inv_def by blast
  then show ?thesis using assms(4) slotBarcode_shows [OF assms(3), of s b] c
    by (auto split: option.splits)
qed

lemma load_target_ok:
  assumes c: "conforming hw io tapes" and i: "load_inv m0 relocated served (tapes z)"
    and st: "shows_media io stock m0"
    and l: "load_target hw stock drive s relocated z = (Inr b, z')"
  shows "tapes z (Slot s) = Some b \<and> tapes z' = move_media (Slot s) (Drive drive) (tapes z)"
proof -
  have t: "(case map_of relocated s of Some b \<Rightarrow> Some b | None \<Rightarrow> slotBarcode stock s) = Some b"
    and m: "\<exists>u. hw_Load hw s drive z = (Inr u, z')"
    using l by (auto simp: load_target_def Let_def split: option.splits sum.splits prod.splits)
  then obtain u where "hw_Load hw s drive z = (Inr u, z')" by blast
  note ok = moves_ok [OF conforming_moves(1) [OF c] this]
  show ?thesis using ok load_inv_target [OF i ok(1) st t] by simp
qed

lemma load_inv_load:
  "load_inv m0 relocated served m \<Longrightarrow> load_inv m0 relocated (insert drive served) (move_media (Slot s) (Drive drive) m)"
  by (auto simp: load_inv_def move_media_def)

lemma load_inv_relocate:
  "load_inv m0 relocated served m \<Longrightarrow> m (Drive drive) = Some b
   \<Longrightarrow> load_inv m0 ((s, b) # relocated) (insert drive served) (move_media (Drive drive) (Slot s) m)"
  by (auto simp: load_inv_def move_media_def)

lemma load_inv_served: "load_inv m0 relocated served m \<Longrightarrow> load_inv m0 relocated (insert d served) m"
  by (auto simp: load_inv_def)

lemma reconcileLoad_ok:
  assumes c: "conforming hw io tapes" and i: "load_inv m0 relocated served (tapes z)"
    and st: "shows_media io stock m0" and de: "de \<in> set (inv_Drives stock)" "de_Address de \<notin> served"
    and r: "reconcileLoad hw stock de s relocated z = (Inr b, relocated', z')"
  shows "load_inv m0 relocated' (insert (de_Address de) served) (tapes z')
    \<and> tapes z' (Drive (de_Address de)) = Some b
    \<and> (\<forall>d. d \<noteq> de_Address de \<longrightarrow> tapes z' (Drive d) = tapes z (Drive d))"
proof -
  have drive: "tapes z (Drive (de_Address de)) = (if de_Loaded de then Some (de_Barcode de) else None)"
    using i st de by (auto simp: load_inv_def shows_media_def)
  show ?thesis
  proof (cases "de_Loaded de")
    case False
    then have "load_target hw stock (de_Address de) s relocated z = (Inr b, z')" "relocated' = relocated"
      using r by (simp_all add: reconcileLoad_def split: prod.splits)
    then show ?thesis using load_target_ok [OF c i st, of "de_Address de" s b z']
        load_inv_load [OF i, of "de_Address de" s] by (auto simp: move_media_def)
  next
    case loaded: True
    show ?thesis
    proof (cases "de_SourceSlot de = s")
      case True
      then show ?thesis using r loaded drive i load_inv_served [OF i] by (simp add: reconcileLoad_def)
    next
      case False
      let ?f = "findFreeStorageSlot stock (de_SourceSlot de) (map_of relocated)"
      obtain u z1 where u: "hw_Unload hw ?f (de_Address de) z = (u, z1)" by (metis surj_pair)
      have "u = Inr ()" and l: "load_target hw stock (de_Address de) s ((?f, de_Barcode de) # relocated) z1 = (Inr b, z')"
        and rel: "relocated' = (?f, de_Barcode de) # relocated"
        using r loaded False u by (auto simp: reconcileLoad_def Let_def split: if_splits sum.splits prod.splits)
      then have m1: "tapes z1 = move_media (Drive (de_Address de)) (Slot ?f) (tapes z)"
        using moves_ok(4) [OF conforming_moves(2) [OF c]] u by blast
      have i1: "load_inv m0 relocated' (insert (de_Address de) served) (tapes z1)"
        using load_inv_relocate [OF i, of "de_Address de" "de_Barcode de" ?f] drive loaded m1 rel by simp
      have t: "tapes z1 (Slot s) = Some b \<and> tapes z' = move_media (Slot s) (Drive (de_Address de)) (tapes z1)"
        using load_target_ok [OF c i1 st] l rel by blast
      then have "load_inv m0 relocated' (insert (de_Address de) served) (tapes z')"
        using load_inv_load [OF i1, of "de_Address de" s] by simp
      then show ?thesis using t m1 by (auto simp: move_media_def)
    qed
  qed
qed

lemma blankCheckWhenReady_still:
  assumes "conforming hw io tapes" "blankCheckWhenReady hw dev timeout poll z = Some (r, z')"
  shows "tapes z' = tapes z"
proof -
  obtain t z1 where t: "hw_Now hw z = (t, z1)" by (metis surj_pair)
  then have "blank_check_loop hw dev (t + timeout) poll z1 = Some (r, z')"
    using assms(2) by (simp add: blankCheckWhenReady_def)
  from blank_check_loop_still [OF this assms(1)] show ?thesis
    using conforming_still(5) [OF assms(1) t] by simp
qed

text \<open>The element that \<open>Load\<close> serves for a device whose unit serial is \<open>serial dev\<close>.\<close>

definition element_of :: "Inventory \<Rightarrow> string \<Rightarrow> int" where
  "element_of stock serial = de_Address (hd (filter (\<lambda>d. de_Serial d = serial) (inv_Drives stock)))"

lemma load_one_places:
  assumes c: "conforming hw io tapes" and i: "load_inv m0 (lp_relocated progress) served (tapes z)"
    and st: "shows_media io stock m0"
    and serial: "\<And>dev s. fst (hw_Inquire hw dev s) = Inr (serial dev)"
    and new: "element_of stock (serial (ta_Drive a)) \<notin> served"
    and one: "load_one hw stock allowNonBlank a progress z = Some (Inr lt, progress', z')"
  shows "load_inv m0 (lp_relocated progress') (insert (element_of stock (serial (ta_Drive a))) served) (tapes z')
    \<and> tapes z' (Drive (element_of stock (serial (ta_Drive a)))) = Some (lt_Barcode lt)
    \<and> (\<forall>d. d \<noteq> element_of stock (serial (ta_Drive a)) \<longrightarrow> tapes z' (Drive d) = tapes z (Drive d))"
  using one
proof (rule load_one_ok)
  fix sn z1 de relocated z2 barcode z3 sgDev
  assume st': "hw_Inquire hw (ta_Drive a) z = (Inr sn, z1)"
    "filter (\<lambda>d. de_Serial d = sn) (inv_Drives stock) = [de]"
    "reconcileLoad hw stock de (ta_BlankSlot a) (lp_relocated progress) z1 = (Inr barcode, relocated, z2)"
    "hw_SGDevice hw (ta_Drive a) z2 = (Inr sgDev, z3)"
    "blankCheckWhenReady hw (ta_Drive a) driveReadyTimeout driveReadyPoll z3
       = Some (Inr (\<not> lt_OverwroteNonBlank lt), z')"
    "lt = loaded_tape a barcode sgDev (lt_OverwroteNonBlank lt)" "lp_relocated progress' = relocated"
  have sn: "sn = serial (ta_Drive a)" using serial [of "ta_Drive a" z] st'(1) by simp
  then have el: "element_of stock (serial (ta_Drive a)) = de_Address de" using st'(2) by (simp add: element_of_def)
  have z1: "tapes z1 = tapes z" using conforming_still(1) [OF c st'(1)] .
  have z': "tapes z' = tapes z2"
    using conforming_still(2) [OF c st'(4)] blankCheckWhenReady_still [OF c st'(5)] by simp
  have bc: "lt_Barcode lt = barcode" by (subst st'(6), simp add: loaded_tape_def)
  have de: "de \<in> set (inv_Drives stock)" using matched_element [OF st'(2)] by simp
  have i1: "load_inv m0 (lp_relocated progress) served (tapes z1)" using i z1 by simp
  show ?thesis
    using reconcileLoad_ok [OF c i1 st de _ st'(3)] new el z1 z' bc st'(7) by simp
qed

lemma load_tapes_places:
  assumes c: "conforming hw io tapes" and st: "shows_media io stock m0"
    and serial: "\<And>dev s. fst (hw_Inquire hw dev s) = Inr (serial dev)"
  shows "load_tapes hw stock allowNonBlank as progress z = Some (Inr loaded, progress', z')
    \<Longrightarrow> load_inv m0 (lp_relocated progress) served (tapes z)
    \<Longrightarrow> distinct (map (\<lambda>a. element_of stock (serial (ta_Drive a))) as)
    \<Longrightarrow> (\<forall>a \<in> set as. element_of stock (serial (ta_Drive a)) \<notin> served)
    \<Longrightarrow> list_all2 (\<lambda>a lt. tapes z' (Drive (element_of stock (serial (ta_Drive a)))) = Some (lt_Barcode lt)) as loaded
      \<and> (\<forall>d \<in> served. tapes z' (Drive d) = tapes z (Drive d))"
proof (induction as arbitrary: progress z loaded served)
  case (Cons a as)
  let ?el = "\<lambda>a. element_of stock (serial (ta_Drive a))"
  obtain lt p s lts where o: "load_one hw stock allowNonBlank a progress z = Some (Inr lt, p, s)"
    and rest: "load_tapes hw stock allowNonBlank as p s = Some (Inr lts, progress', z')" and l: "loaded = lt # lts"
    using Cons.prems(1) by (auto split: option.splits sum.splits prod.splits)
  have new: "?el a \<notin> served" using Cons.prems(4) by simp
  note one = load_one_places [OF c Cons.prems(2) st serial new o]
  have IH: "list_all2 (\<lambda>a lt. tapes z' (Drive (?el a)) = Some (lt_Barcode lt)) as lts
      \<and> (\<forall>d \<in> insert (?el a) served. tapes z' (Drive d) = tapes s (Drive d))"
    by (rule Cons.IH [OF rest]) (use one Cons.prems(3,4) in \<open>auto simp: image_iff\<close>)
  moreover have "d \<noteq> ?el a" if "d \<in> served" for d using new that by blast
  ultimately show ?case using one l by simp
qed simp

text \<open>C22: After a successful Load the tape in each drive is the one Load reports. In a library that
  shows its contents truthfully, moves one tape per move and moves none otherwise, with stable
  drive serials that name different elements, every element served by Load ends up holding the
  barcode recorded for it, also when unexpected tapes were in the way and had to be relocated into
  slots that later drives load from.\<close>

theorem load_reports_what_is_in_the_drives:
  assumes "conforming hw io tapes" "\<And>dev s. fst (hw_Inquire hw dev s) = Inr (serial dev)"
    and "hw_Inventory hw z = (Inr stock, z1)"
    and "distinct (map (\<lambda>a. element_of stock (serial (ta_Drive a))) as)"
    and "Load hw as allowNonBlank z = Some (Inr loaded, z')"
  shows "list_all2 (\<lambda>a lt. tapes z' (Drive (element_of stock (serial (ta_Drive a)))) = Some (lt_Barcode lt)) as loaded"
proof (cases "as = []")
  case True
  then show ?thesis using assms(5) by (simp add: Load_def)
next
  case False
  then obtain p where l: "load_tapes hw stock allowNonBlank as \<lparr> lp_relocated = [], lp_inDrives = [] \<rparr> z1
      = Some (Inr loaded, p, z')"
    using assms(3,5) by (auto simp: Load_def split: prod.splits sum.splits option.splits if_splits)
  have m: "tapes z1 = tapes z" "shows_media io stock (tapes z)"
    using conforming_inventory [OF assms(1,3)] by simp_all
  have "load_inv (tapes z) [] {} (tapes z1)" using m(1) by (simp add: load_inv_def)
  then show ?thesis using load_tapes_places [OF assms(1) m(2) assms(2) l, of "{}"] assms(4) by simp
qed

section \<open>Eject\<close>

text \<open>The one place a barcode lies, and moves that leave every other barcode alone.\<close>

definition lies :: "media \<Rightarrow> string \<Rightarrow> place \<Rightarrow> bool" where
  "lies m b q \<longleftrightarrow> (\<forall>p. m p = Some b \<longleftrightarrow> p = q)"

definition only_moved :: "string set \<Rightarrow> media \<Rightarrow> media \<Rightarrow> bool" where
  "only_moved B m m' \<longleftrightarrow> (\<forall>p c. c \<notin> B \<longrightarrow> (m' p = Some c \<longleftrightarrow> m p = Some c))"

lemma only_moved_refl [simp]: "only_moved B m m"
  by (simp add: only_moved_def)

lemma only_moved_trans: "only_moved B m m' \<Longrightarrow> only_moved C m' m'' \<Longrightarrow> only_moved (B \<union> C) m m''"
  by (simp add: only_moved_def)

lemma only_moved_lies: "only_moved B m m' \<Longrightarrow> c \<notin> B \<Longrightarrow> lies m' c q \<longleftrightarrow> lies m c q"
  by (simp add: only_moved_def lies_def)

lemma move_lies:
  assumes "lies m b p" "m q = None" "p \<noteq> q"
  shows "lies (move_media p q m) b q" "only_moved {b} m (move_media p q m)"
proof -
  have at: "m p = Some b" "\<And>x. x \<noteq> p \<Longrightarrow> m x \<noteq> Some b" using assms(1) by (auto simp: lies_def)
  have moved: "move_media p q m x = (if x = p then None else if x = q then Some b else m x)" for x
    using assms(3) at(1) by (simp add: move_media_def)
  have "move_media p q m x = Some b \<longleftrightarrow> x = q" for x
    unfolding moved using at(2) [of x] assms(3) by simp
  then show "lies (move_media p q m) b q" by (simp add: lies_def)
  have "move_media p q m x = Some c \<longleftrightarrow> m x = Some c" if "c \<noteq> b" for x c
    unfolding moved using at(1) assms(2) that by auto
  then show "only_moved {b} m (move_media p q m)" by (simp add: only_moved_def)
qed

definition stowed :: "int set \<Rightarrow> media \<Rightarrow> WrittenTape \<Rightarrow> bool" where
  "stowed io m wt \<longleftrightarrow> wt_SourceSlot wt \<notin> io
     \<and> (\<exists>q. lies m (wt_Barcode wt) q
          \<and> (q = Slot (wt_SourceSlot wt) \<or> (\<exists>d. q = Drive d) \<or> (\<exists>a \<in> io. q = Slot a)))"

lemma unload_written_ok:
  assumes c: "conforming hw io tapes" and "unload_written hw wt ds z = (Inr (), z')"
  shows "(\<forall>d \<in> set ds. \<not> (de_Loaded d \<and> de_Barcode d = wt_Barcode wt)) \<and> z' = z
    \<or> (\<exists>d \<in> set ds. de_Loaded d \<and> de_Barcode d = wt_Barcode wt
         \<and> tapes z (Slot (wt_SourceSlot wt)) = None
         \<and> tapes z' = move_media (Drive (de_Address d)) (Slot (wt_SourceSlot wt)) (tapes z))"
  using assms(2)
proof (induction ds)
  case (Cons d ds)
  show ?case
  proof (cases "de_Loaded d \<and> de_Barcode d = wt_Barcode wt")
    case True
    then obtain u where "hw_Unload hw (wt_SourceSlot wt) (de_Address d) z = (Inr u, z')"
      using Cons.prems by (auto split: sum.splits prod.splits)
    note ok = moves_ok(2,4) [OF conforming_moves(2) [OF c] this]
    show ?thesis by (rule disjI2, rule bexI [of _ d]) (simp_all add: True ok)
  next
    case False
    then show ?thesis using Cons by auto
  qed
qed simp

lemma shows_media_at:
  assumes "shows_media io stock m"
  shows "s \<in> set (inv_IOSlots stock) \<Longrightarrow> m (Slot (ie_Address s)) = (if ie_Full s then Some (ie_Barcode s) else None)"
    "s \<in> set (inv_IOSlots stock) \<Longrightarrow> ie_Address s \<noteq> -1"
    "d \<in> set (inv_Drives stock) \<Longrightarrow> m (Drive (de_Address d)) = (if de_Loaded d then Some (de_Barcode d) else None)"
    "io = ie_Address ` set (inv_IOSlots stock)"
    "m (Drive a) = Some b \<Longrightarrow> a \<in> de_Address ` set (inv_Drives stock)"
  using assms unfolding shows_media_def by blast+

lemma shows_io:
  assumes "shows_media io stock m"
  shows "(\<exists>s \<in> set (inv_IOSlots stock). ie_Full s \<and> ie_Barcode s = b) \<longleftrightarrow> (\<exists>a \<in> io. m (Slot a) = Some b)"
proof -
  have "ie_Full s \<and> ie_Barcode s = b \<longleftrightarrow> m (Slot (ie_Address s)) = Some b"
    if "s \<in> set (inv_IOSlots stock)" for s
    using shows_media_at(1) [OF assms that] by auto
  then show ?thesis by (simp add: shows_media_at(4) [OF assms])
qed

lemma shows_drive:
  assumes "shows_media io stock m"
  shows "(\<exists>d \<in> set (inv_Drives stock). de_Loaded d \<and> de_Barcode d = b) \<longleftrightarrow> (\<exists>d. m (Drive d) = Some b)"
proof -
  have "de_Loaded d \<and> de_Barcode d = b \<longleftrightarrow> m (Drive (de_Address d)) = Some b"
    if "d \<in> set (inv_Drives stock)" for d
    using shows_media_at(3) [OF assms that] by auto
  then show ?thesis using shows_media_at(5) [OF assms] by (metis (no_types, lifting) image_iff)
qed

lemma findFreeIOSlot_shows:
  assumes "shows_media io stock m"
  shows "findFreeIOSlot stock \<noteq> -1 \<Longrightarrow> findFreeIOSlot stock \<in> io \<and> m (Slot (findFreeIOSlot stock)) = None"
    "findFreeIOSlot stock = -1 \<longleftrightarrow> (\<forall>a \<in> io. m (Slot a) \<noteq> None)"
proof -
  note at = shows_media_at(1,2) [OF assms] and io = shows_media_at(4) [OF assms]
  have "findFreeIOSlot stock \<in> io \<and> findFreeIOSlot stock \<noteq> -1 \<and> m (Slot (findFreeIOSlot stock)) = None"
    if "\<exists>s \<in> set (inv_IOSlots stock). \<not> ie_Full s"
  proof -
    from that obtain s where s: "List.find (\<lambda>s. \<not> ie_Full s) (inv_IOSlots stock) = Some s"
      by (cases "List.find (\<lambda>s. \<not> ie_Full s) (inv_IOSlots stock)") (auto simp: find_None_iff)
    then have "s \<in> set (inv_IOSlots stock)" "\<not> ie_Full s" by (auto simp: find_Some_iff)
    then show ?thesis using s at [of s] by (simp add: findFreeIOSlot_def io)
  qed
  moreover have "findFreeIOSlot stock = -1" if "\<forall>s \<in> set (inv_IOSlots stock). ie_Full s"
  proof -
    have "List.find (\<lambda>s. \<not> ie_Full s) (inv_IOSlots stock) = None" using that by (simp add: find_None_iff)
    then show ?thesis by (simp add: findFreeIOSlot_def)
  qed
  moreover have "(\<forall>a \<in> io. m (Slot a) \<noteq> None) \<longleftrightarrow> (\<forall>s \<in> set (inv_IOSlots stock). ie_Full s)"
    using at(1) by (auto simp: io)
  ultimately show "findFreeIOSlot stock \<noteq> -1 \<Longrightarrow> findFreeIOSlot stock \<in> io \<and> m (Slot (findFreeIOSlot stock)) = None"
    "findFreeIOSlot stock = -1 \<longleftrightarrow> (\<forall>a \<in> io. m (Slot a) \<noteq> None)"
    by blast+
qed

lemma ejectTape_ok:
  assumes c: "conforming hw io tapes" and st: "shows_media io stock (tapes z)"
    and wt: "stowed io (tapes z) wt" and e: "ejectTape hw stock wt z = (Inr exported, z')"
  shows "only_moved {wt_Barcode wt} (tapes z) (tapes z')
    \<and> (if exported then \<exists>a \<in> io. lies (tapes z') (wt_Barcode wt) (Slot a)
       else lies (tapes z') (wt_Barcode wt) (Slot (wt_SourceSlot wt)))
    \<and> ((\<exists>a \<in> io. tapes z (Slot a) = None) \<longrightarrow> exported)"
proof (cases "\<exists>s \<in> set (inv_IOSlots stock). ie_Full s \<and> ie_Barcode s = wt_Barcode wt")
  case True
  then show ?thesis using e wt shows_io [OF st, of "wt_Barcode wt"]
    by (auto simp: ejectTape_def stowed_def lies_def)
next
  case False
  let ?b = "wt_Barcode wt" and ?s = "Slot (wt_SourceSlot wt)"
  obtain u z1 where u: "unload_written hw wt (inv_Drives stock) z = (u, z1)" by (metis surj_pair)
  then have u1: "u = Inr ()" using e False by (cases u) (simp_all add: ejectTape_def)
  obtain q where q: "lies (tapes z) ?b q" "q = ?s \<or> (\<exists>d. q = Drive d) \<or> (\<exists>a \<in> io. q = Slot a)"
    using wt by (auto simp: stowed_def)
  have here: "lies (tapes z1) ?b ?s \<and> only_moved {?b} (tapes z) (tapes z1)"
  proof (cases "\<exists>d \<in> set (inv_Drives stock). de_Loaded d \<and> de_Barcode d = ?b")
    case True
    then obtain d where d: "d \<in> set (inv_Drives stock)" "de_Loaded d" "de_Barcode d = ?b"
        "tapes z ?s = None" "tapes z1 = move_media (Drive (de_Address d)) ?s (tapes z)"
      using unload_written_ok [OF c u [unfolded u1]] by blast
    have "tapes z (Drive (de_Address d)) = Some ?b" using st d(1-3) by (auto simp: shows_media_def)
    then have "lies (tapes z) ?b (Drive (de_Address d))" using q(1) by (simp add: lies_def)
    from move_lies [OF this d(4)] show ?thesis by (simp add: d(5))
  next
    case none: False
    then have "z1 = z" using unload_written_ok [OF c u [unfolded u1]] by blast
    moreover have "q = ?s"
      using q none False shows_drive [OF st, of ?b] shows_io [OF st, of ?b] by (auto simp: lies_def)
    ultimately show ?thesis using q(1) by simp
  qed
  show ?thesis
  proof (cases "findFreeIOSlot stock = -1")
    case True
    then show ?thesis using e u u1 False here findFreeIOSlot_shows(2) [OF st]
      by (simp add: ejectTape_def)
  next
    case free: False
    then obtain v where v: "hw_Transfer hw (wt_SourceSlot wt) (findFreeIOSlot stock) z1 = (Inr v, z')" "exported"
      using e u u1 False by (auto simp: ejectTape_def Let_def split: sum.splits prod.splits)
    note m = moves_ok [OF conforming_moves(3) [OF c] v(1)]
    have "lies (tapes z') ?b (Slot (findFreeIOSlot stock))" "only_moved {?b} (tapes z1) (tapes z')"
      using move_lies [OF conjunct1 [OF here] m(2,3)] m(4) by simp_all
    then show ?thesis using v(2) here findFreeIOSlot_shows(1) [OF st free] only_moved_trans by fastforce
  qed
qed

definition ejected_to :: "int set \<Rightarrow> media \<Rightarrow> WrittenTape list \<Rightarrow> WrittenTape \<Rightarrow> bool" where
  "ejected_to io m remaining wt \<longleftrightarrow>
     (if wt \<in> set remaining then lies m (wt_Barcode wt) (Slot (wt_SourceSlot wt))
      else \<exists>a \<in> io. lies m (wt_Barcode wt) (Slot a))"

lemma stowed_still:
  "only_moved B m m' \<Longrightarrow> wt_Barcode wt \<notin> B \<Longrightarrow> stowed io m' wt \<longleftrightarrow> stowed io m wt"
  by (simp add: stowed_def only_moved_lies)

lemma ejected_still:
  "only_moved B m m' \<Longrightarrow> wt_Barcode wt \<notin> B \<Longrightarrow> ejected_to io m' rs wt \<longleftrightarrow> ejected_to io m rs wt"
  by (simp add: ejected_to_def only_moved_lies)

lemma eject_tapes_ok:
  assumes c: "conforming hw io tapes"
  shows "eject_tapes hw stock i wts z = (Inr remaining, z') \<Longrightarrow> (i = 0 \<longrightarrow> shows_media io stock (tapes z))
    \<Longrightarrow> distinct (map wt_Barcode wts) \<Longrightarrow> (\<forall>wt \<in> set wts. stowed io (tapes z) wt)
    \<Longrightarrow> only_moved (wt_Barcode ` set wts) (tapes z) (tapes z')
      \<and> (\<forall>wt \<in> set wts. ejected_to io (tapes z') remaining wt)
      \<and> remaining = filter (\<lambda>wt. wt \<in> set remaining) wts
      \<and> (wts \<noteq> [] \<longrightarrow> (\<exists>a \<in> io. tapes z (Slot a) = None) \<longrightarrow> hd wts \<notin> set remaining)"
proof (induction wts arbitrary: stock i z remaining)
  case (Cons wt wts)
  obtain now z1 exported z2 rest where
    r: "(if i > 0 then hw_Inventory hw z else (Inr stock, z)) = (Inr now, z1)"
      "ejectTape hw now wt z1 = (Inr exported, z2)"
      "eject_tapes hw now (Suc i) wts z2 = (Inr rest, z')"
      "remaining = (if exported then rest else wt # rest)"
    using Cons.prems(1) by (auto split: sum.splits prod.splits)
  have z1: "tapes z1 = tapes z" "shows_media io now (tapes z1)"
    using conforming_inventory [OF c, of z "Inr now" z1] r(1) Cons.prems(2) by (auto split: if_splits)
  have e: "only_moved {wt_Barcode wt} (tapes z) (tapes z2)"
    "if exported then \<exists>a \<in> io. lies (tapes z2) (wt_Barcode wt) (Slot a)
       else lies (tapes z2) (wt_Barcode wt) (Slot (wt_SourceSlot wt))"
    "(\<exists>a \<in> io. tapes z (Slot a) = None) \<longrightarrow> exported"
    using ejectTape_ok [OF c z1(2) _ r(2)] Cons.prems(4) z1(1) by simp_all
  have others: "wt_Barcode w \<noteq> wt_Barcode wt" if "w \<in> set wts" for w
    using Cons.prems(3) that by (metis distinct.simps(2) image_eqI list.set_map list.simps(9))
  have IH: "only_moved (wt_Barcode ` set wts) (tapes z2) (tapes z')"
      "\<forall>w \<in> set wts. ejected_to io (tapes z') rest w" "rest = filter (\<lambda>w. w \<in> set rest) wts"
    using Cons.IH [OF r(3)] Cons.prems(3,4) stowed_still [OF e(1)] others by simp_all
  have b: "wt_Barcode wt \<notin> wt_Barcode ` set wts" using others by (metis imageE)
  have sub: "set rest \<subseteq> set wts" by (subst IH(3)) auto
  have ne: "w \<noteq> wt" if "w \<in> set wts" for w using others [OF that] by auto
  then have new: "wt \<notin> set rest" using sub by auto
  have mem: "w \<in> set remaining \<longleftrightarrow> w \<in> set rest" if "w \<in> set wts" for w
    using r(4) ne [OF that] by auto
  have "ejected_to io (tapes z') remaining wt"
    using e(2) new only_moved_lies [OF IH(1) b] by (auto simp: ejected_to_def r(4))
  moreover have "ejected_to io (tapes z') remaining w" if "w \<in> set wts" for w
    using IH(2) that mem [OF that] by (simp add: ejected_to_def)
  moreover have "remaining = filter (\<lambda>w. w \<in> set remaining) (wt # wts)"
  proof -
    have "filter (\<lambda>w. w \<in> set remaining) wts = filter (\<lambda>w. w \<in> set rest) wts"
      using mem by (simp cong: filter_cong)
    then have "filter (\<lambda>w. w \<in> set remaining) wts = rest" using IH(3) by simp
    then show ?thesis using r(4) new by simp
  qed
  moreover have "only_moved (wt_Barcode ` set (wt # wts)) (tapes z) (tapes z')"
    using only_moved_trans [OF e(1) IH(1)] by simp
  ultimately show ?case using e(3) new r(4) by simp
qed simp

lemma Eject_ok:
  assumes "conforming hw io tapes" "distinct (map wt_Barcode written)"
    and "\<forall>wt \<in> set written. stowed io (tapes z) wt"
    and "Eject hw written z = (Inr result, z')"
  shows "(\<forall>wt \<in> set written. ejected_to io (tapes z') (ej_Remaining result) wt
        \<and> (\<forall>d. tapes z' (Drive d) \<noteq> Some (wt_Barcode wt)))
    \<and> ej_Remaining result = filter (\<lambda>wt. wt \<in> set (ej_Remaining result)) written
    \<and> only_moved (wt_Barcode ` set written) (tapes z) (tapes z')
    \<and> (written \<noteq> [] \<longrightarrow> set (ej_InIOStation result) = {b. \<exists>a \<in> io. tapes z' (Slot a) = Some b}
        \<and> ((\<exists>a \<in> io. tapes z (Slot a) = None) \<longrightarrow> hd written \<notin> set (ej_Remaining result)))"
proof (cases "written = []")
  case True
  then have "result = \<lparr> ej_InIOStation = [], ej_Remaining = [] \<rparr>" "z' = z"
    using assms(4) by (auto simp: Eject_def)
  then show ?thesis using True by simp
next
  case False
  then obtain stock z1 remaining z2 now where r: "hw_Inventory hw z = (Inr stock, z1)"
      "eject_tapes hw stock 0 written z1 = (Inr remaining, z2)" "hw_Inventory hw z2 = (Inr now, z')"
      "result = \<lparr> ej_InIOStation = barcodesInIOStation now, ej_Remaining = remaining \<rparr>"
    using assms(4) by (auto simp: Eject_def split: sum.splits prod.splits)
  have z1: "tapes z1 = tapes z" "shows_media io stock (tapes z1)"
    using conforming_inventory [OF assms(1) r(1)] by simp_all
  have z': "tapes z' = tapes z2" "shows_media io now (tapes z')"
    using conforming_inventory [OF assms(1) r(3)] by simp_all
  have e: "only_moved (wt_Barcode ` set written) (tapes z) (tapes z')"
      "\<forall>wt \<in> set written. ejected_to io (tapes z') remaining wt"
      "remaining = filter (\<lambda>wt. wt \<in> set remaining) written"
      "(\<exists>a \<in> io. tapes z (Slot a) = None) \<longrightarrow> hd written \<notin> set remaining"
    using eject_tapes_ok [OF assms(1) r(2)] z1 z' assms(2,3) False by simp_all
  have "tapes z' (Drive d) \<noteq> Some (wt_Barcode wt)" if "wt \<in> set written" for wt d
    using bspec [OF e(2) that] by (auto simp: ejected_to_def lies_def split: if_splits)
  moreover have "set (barcodesInIOStation now) = {b. \<exists>a \<in> io. tapes z' (Slot a) = Some b}"
    unfolding shows_io [OF z'(2), symmetric] by (auto simp: barcodesInIOStation_def)
  ultimately show ?thesis using e r(4) by simp
qed

text \<open>C23: Eject leaves no written tape in a drive and loses none. When Eject succeeds on tapes with
  distinct barcodes, each of which lies in a drive, in its source slot or already in the I/O
  station, then every tape it reports as remaining lies in its source slot and every other one in
  the I/O station; no other tape has moved; the station's contents it reports are true; and if the
  station had a free slot, the first tape was exported.\<close>

theorem eject_empties_the_drives:
  assumes "conforming hw io tapes" "distinct (map wt_Barcode written)"
    and "\<forall>wt \<in> set written. stowed io (tapes z) wt"
    and "Eject hw written z = (Inr result, z')"
  shows "(\<forall>wt \<in> set written. ejected_to io (tapes z') (ej_Remaining result) wt
        \<and> (\<forall>d. tapes z' (Drive d) \<noteq> Some (wt_Barcode wt)))
    \<and> ej_Remaining result = filter (\<lambda>wt. wt \<in> set (ej_Remaining result)) written
    \<and> only_moved (wt_Barcode ` set written) (tapes z) (tapes z')
    \<and> (written \<noteq> [] \<longrightarrow> set (ej_InIOStation result) = {b. \<exists>a \<in> io. tapes z' (Slot a) = Some b}
        \<and> ((\<exists>a \<in> io. tapes z (Slot a) = None) \<longrightarrow> hd written \<notin> set (ej_Remaining result)))"
  using Eject_ok [OF assms] .

end
