(* ===== verification/SimLibrary.thy ===== *)
theory SimLibrary
  imports Media
begin

text \<open>
  A small library that obeys \<open>Media.conforming\<close>: two drives, storage slots 1 to 4 and I/O slots
  5 and 6. The witnesses of the library properties, and the behaviours the code gets wrong, run on it.
\<close>

record sim =
  sim_at :: media
  sim_src :: "int \<Rightarrow> int"
  sim_blank :: "string \<Rightarrow> bool"

definition sim_place :: "place \<Rightarrow> bool" where
  "sim_place p = (case p of Slot a \<Rightarrow> 1 \<le> a \<and> a \<le> 6 | Drive d \<Rightarrow> d = 0 \<or> d = 1)"

definition sim_tapes :: "sim \<Rightarrow> media" where
  "sim_tapes z p = (if sim_place p then sim_at z p else None)"

definition sim_move :: "place \<Rightarrow> place \<Rightarrow> sim \<Rightarrow> (string + unit) \<times> sim" where
  "sim_move p q z =
     (if sim_place p \<and> sim_place q \<and> p \<noteq> q \<and> sim_at z p \<noteq> None \<and> sim_at z q = None
      then (Inr (), z\<lparr> sim_at := move_media p q (sim_at z) \<rparr>) else (Inl ''medium move failed'', z))"

definition sim_serial :: "string \<Rightarrow> string" where
  "sim_serial dev = (if dev = ''/dev/nst0'' then ''S0'' else if dev = ''/dev/nst1'' then ''S1'' else ''S2'')"

definition sim_drive :: "string \<Rightarrow> int" where
  "sim_drive dev = (if dev = ''/dev/nst0'' then 0 else 1)"

definition tag_of :: "string option \<Rightarrow> string" where
  "tag_of t = (case t of None \<Rightarrow> [] | Some b \<Rightarrow> b)"

definition full_at :: "string option \<Rightarrow> bool" where
  "full_at t \<longleftrightarrow> t \<noteq> None"

definition sim_inventory :: "sim \<Rightarrow> Inventory" where
  "sim_inventory z =
     \<lparr> inv_Drives = map (\<lambda>(d, serial). \<lparr> de_Address = d, de_Barcode = tag_of (sim_at z (Drive d)),
           de_Loaded = full_at (sim_at z (Drive d)), de_SourceSlot = sim_src z d, de_Serial = serial \<rparr>)
           [(0, ''S0''), (1, ''S1'')],
       inv_Slots = map (\<lambda>a. \<lparr> se_Address = a, se_Barcode = tag_of (sim_at z (Slot a)),
           se_Full = full_at (sim_at z (Slot a)) \<rparr>) [1, 2, 3, 4],
       inv_IOSlots = map (\<lambda>a. \<lparr> ie_Address = a, ie_Barcode = tag_of (sim_at z (Slot a)),
           ie_Full = full_at (sim_at z (Slot a)), ie_Accessible = True \<rparr>) [5, 6],
       inv_IOAccessReported = True \<rparr>"

definition sim_load :: "int \<Rightarrow> int \<Rightarrow> sim \<Rightarrow> (string + unit) \<times> sim" where
  "sim_load slot drive z =
     (case sim_move (Slot slot) (Drive drive) z of
        (Inl e, z') \<Rightarrow> (Inl e, z') | (Inr u, z') \<Rightarrow> (Inr u, z'\<lparr> sim_src := (sim_src z)(drive := slot) \<rparr>))"

definition sim_library :: "(sim, string) hardware" where
  "sim_library =
     \<lparr> hw_Inventory = (\<lambda>z. (Inr (sim_inventory z), z)),
       hw_Load = sim_load,
       hw_Unload = (\<lambda>slot drive. sim_move (Drive drive) (Slot slot)),
       hw_Transfer = (\<lambda>src dst. sim_move (Slot src) (Slot dst)),
       hw_Inquire = (\<lambda>dev z. (Inr (sim_serial dev), z)),
       hw_SGDevice = (\<lambda>dev z. (Inr (''/dev/sg'' @ [last dev]), z)),
       hw_IsBlank = (\<lambda>dev z. (case sim_at z (Drive (sim_drive dev)) of
           None \<Rightarrow> Inl ''not ready'' | Some b \<Rightarrow> Inr (sim_blank z b), z)),
       hw_CtxDone = (\<lambda>z. (False, z)),
       hw_Now = (\<lambda>z. (0, z)),
       hw_Wait = (\<lambda>d z. (True, z)) \<rparr>"

lemma sim_tapes_move:
  "sim_place p \<Longrightarrow> sim_place q \<Longrightarrow> sim_tapes (z\<lparr> sim_at := move_media p q (sim_at z) \<rparr>) = move_media p q (sim_tapes z)"
  by (rule ext) (simp add: sim_tapes_def move_media_def)

lemma sim_tapes_src [simp]: "sim_tapes (z\<lparr> sim_src := f \<rparr>) = sim_tapes z"
  by (rule ext) (simp add: sim_tapes_def)

lemma sim_move_moves: "moves sim_tapes p q (sim_move p q)"
  unfolding moves_def
proof
  fix z
  show "case sim_move p q z of (Inl e, z') \<Rightarrow> sim_tapes z' = sim_tapes z
     | (Inr _, z') \<Rightarrow> sim_tapes z p \<noteq> None \<and> sim_tapes z q = None \<and> p \<noteq> q
         \<and> sim_tapes z' = move_media p q (sim_tapes z)"
    using sim_tapes_move [of p q z] by (simp add: sim_move_def sim_tapes_def)
qed

lemma sim_load_moves: "moves sim_tapes (Slot slot) (Drive drive) (sim_load slot drive)"
  using sim_move_moves [of "Slot slot" "Drive drive"]
  by (simp add: moves_def sim_load_def split: prod.splits sum.splits)

lemma shown_tag: "t = Some (tag_of t) \<longleftrightarrow> full_at t" "t = None \<longleftrightarrow> \<not> full_at t"
  by (cases t; simp add: tag_of_def full_at_def)+

lemma sim_slot_cases: "sim_tapes z (Slot a) = Some b \<Longrightarrow> a \<in> {1, 2, 3, 4} \<union> {5, 6}"
  by (simp add: sim_tapes_def sim_place_def split: if_splits) presburger

lemma sim_drive_cases: "sim_tapes z (Drive d) = Some b \<Longrightarrow> d \<in> {0, 1}"
  by (simp add: sim_tapes_def sim_place_def split: if_splits)

lemma sim_shown:
  "a \<in> {1, 2, 3, 4, 5, 6} \<Longrightarrow> sim_tapes z (Slot a) = sim_at z (Slot a)"
  "d \<in> {0, 1} \<Longrightarrow> sim_tapes z (Drive d) = sim_at z (Drive d)"
  by (auto simp: sim_tapes_def sim_place_def)

lemma sim_shows: "shows_media {5, 6} (sim_inventory z) (sim_tapes z)"
proof -
  have s: "set (inv_Slots (sim_inventory z)) = (\<lambda>a. \<lparr> se_Address = a, se_Barcode = tag_of (sim_at z (Slot a)),
      se_Full = full_at (sim_at z (Slot a)) \<rparr>) ` {1, 2, 3, 4}"
    and i: "set (inv_IOSlots (sim_inventory z)) = (\<lambda>a. \<lparr> ie_Address = a, ie_Barcode = tag_of (sim_at z (Slot a)),
      ie_Full = full_at (sim_at z (Slot a)), ie_Accessible = True \<rparr>) ` {5, 6}"
    and d: "set (inv_Drives (sim_inventory z)) = (\<lambda>(d, serial). \<lparr> de_Address = d,
      de_Barcode = tag_of (sim_at z (Drive d)), de_Loaded = full_at (sim_at z (Drive d)),
      de_SourceSlot = sim_src z d, de_Serial = serial \<rparr>) ` {(0, ''S0''), (1, ''S1'')}"
    by (simp_all add: sim_inventory_def)
  show ?thesis
    unfolding shows_media_def
  proof (intro conjI allI impI)
    fix a b
    show "sim_tapes z (Slot a) = Some b \<Longrightarrow> a \<in> se_Address ` set (inv_Slots (sim_inventory z)) \<union> {5, 6}"
      using sim_slot_cases [of z a b] by (simp add: s image_image)
    show "sim_tapes z (Drive a) = Some b \<Longrightarrow> a \<in> de_Address ` set (inv_Drives (sim_inventory z))"
      using sim_drive_cases [of z a b] by (simp add: d image_image)
  qed (simp_all add: s i d sim_shown image_image shown_tag)
qed

lemma sim_conforming: "conforming sim_library {5, 6} sim_tapes"
  by (simp add: conforming_def sim_library_def sim_shows sim_move_moves sim_load_moves)

text \<open>The library with one blank per slot and two used tapes in the drives.\<close>

definition sim_start :: sim where
  "sim_start = \<lparr> sim_at = [Slot 1 \<mapsto> ''T1'', Slot 2 \<mapsto> ''T2'', Slot 3 \<mapsto> ''T3''],
     sim_src = (\<lambda>d. 0), sim_blank = (\<lambda>b. True) \<rparr>"

definition sim_assign :: "nat \<Rightarrow> string \<Rightarrow> int \<Rightarrow> TapeAssignment" where
  "sim_assign d dev slot = \<lparr> ta_Drive = dev, ta_DriveIndex = d, ta_BlankSlot = slot, ta_TapeIndex = 0, ta_CopyIndex = d \<rparr>"

lemmas sim_eval =
  sim_library_def sim_inventory_def sim_load_def sim_move_def sim_place_def sim_serial_def sim_drive_def
  tag_of_def full_at_def sim_assign_def move_media_def Load_def load_one_def driveElementFor_def matchDriveElement_def
  reconcileLoad_def load_target_def slotBarcode_def findFreeStorageSlot_def blankCheckWhenReady_def
  blank_check_loop.simps loaded_tape_def ejectTape_def Eject_def findFreeIOSlot_def barcodesInIOStation_def

lemma sim_load_result:
  "\<exists>loaded z'. Load sim_library [sim_assign 0 ''/dev/nst0'' 2, sim_assign 1 ''/dev/nst1'' 1] False sim_start
     = Some (Inr loaded, z') \<and> map lt_Barcode loaded = [''T2'', ''T1'']"
  by (simp add: sim_eval sim_start_def Let_def)


lemma load_reports_what_is_in_the_drives_witness:
  "\<exists>loaded z'. Load sim_library [sim_assign 0 ''/dev/nst0'' 2, sim_assign 1 ''/dev/nst1'' 1] False sim_start
     = Some (Inr loaded, z')
     \<and> sim_tapes z' (Drive 0) = Some (lt_Barcode (loaded ! 0)) \<and> sim_tapes z' (Drive 1) = Some (lt_Barcode (loaded ! 1))"
proof -
  let ?as = "[sim_assign 0 ''/dev/nst0'' 2, sim_assign 1 ''/dev/nst1'' 1]"
  obtain loaded z' where l: "Load sim_library ?as False sim_start = Some (Inr loaded, z')"
    using sim_load_result by blast
  have el: "element_of (sim_inventory sim_start) (sim_serial ''/dev/nst0'') = 0"
    "element_of (sim_inventory sim_start) (sim_serial ''/dev/nst1'') = 1"
    by (simp_all add: element_of_def sim_inventory_def sim_serial_def)
  have "list_all2 (\<lambda>a lt. sim_tapes z' (Drive (element_of (sim_inventory sim_start) (sim_serial (ta_Drive a))))
      = Some (lt_Barcode lt)) ?as loaded"
    by (rule load_reports_what_is_in_the_drives [OF sim_conforming _ _ _ l, of sim_serial _ sim_start])
      (simp_all add: sim_library_def sim_assign_def el)
  then show ?thesis using l el by (auto simp: list_all2_Cons1 sim_assign_def)
qed

lemma blank_check_returns_witness:
  "\<exists>r. blankCheckWhenReady sim_library ''/dev/nst0'' driveReadyTimeout driveReadyPoll sim_start = Some r"
  using blank_check_returns [where now = "\<lambda>s. 0" and hw = sim_library and poll = driveReadyPoll
    and dev = "''/dev/nst0''" and timeout = driveReadyTimeout and z = sim_start]
  by (auto simp: sim_library_def driveReadyPoll_def)

text \<open>Two written tapes in the drives and one free I/O slot.\<close>

definition sim_written_state :: sim where
  "sim_written_state = \<lparr> sim_at = [Drive 0 \<mapsto> ''T1'', Drive 1 \<mapsto> ''T2'', Slot 3 \<mapsto> ''T3'', Slot 5 \<mapsto> ''X''],
     sim_src = (\<lambda>d. d + 1), sim_blank = (\<lambda>b. False) \<rparr>"

definition sim_written :: "nat \<Rightarrow> string \<Rightarrow> int \<Rightarrow> WrittenTape" where
  "sim_written d barcode slot = \<lparr> wt_Barcode = barcode, wt_DriveIndex = d, wt_TapeIndex = 0, wt_CopyIndex = d,
     wt_SourceSlot = slot, wt_IndexXMLPath = [],
     wt_WriteHealth = \<lparr> wh_Measured = False, wh_ThroughputMBps = 0, wh_ThroughputUnmeasurable = False,
       wh_FloorMBps = 0, wh_FloorKnown = False, wh_BelowFloor = False, wh_Repositions = 0,
       wh_RepositionsMeasured = False, wh_TapeAlertFlags = [] \<rparr>,
     wt_MediaGeneration = [], wt_OverwroteNonBlank = False \<rparr>"

lemma eject_empties_the_drives_witness:
  "\<exists>result z'. Eject sim_library [sim_written 0 ''T1'' 1, sim_written 1 ''T2'' 2] sim_written_state = (Inr result, z')
     \<and> map wt_Barcode (ej_Remaining result) = [''T2'']
     \<and> lies (sim_tapes z') ''T2'' (Slot 2) \<and> (\<exists>a \<in> {5, 6}. lies (sim_tapes z') ''T1'' (Slot a))"
proof -
  let ?w = "[sim_written 0 ''T1'' 1, sim_written 1 ''T2'' 2]"
  obtain result z' where e: "Eject sim_library ?w sim_written_state = (Inr result, z')"
    and rem: "ej_Remaining result = [sim_written 1 ''T2'' 2]"
    by (simp add: sim_eval sim_written_state_def sim_written_def)
  have s: "stowed {5, 6} (sim_tapes sim_written_state) wt" if "wt \<in> set ?w" for wt
  proof -
    have "lies (sim_tapes sim_written_state) ''T1'' (Drive 0)" "lies (sim_tapes sim_written_state) ''T2'' (Drive 1)"
      by (auto simp: lies_def sim_tapes_def sim_place_def sim_written_state_def split: if_splits)
    then show ?thesis using that by (auto simp: stowed_def sim_written_def)
  qed
  have "\<forall>wt \<in> set ?w. ejected_to {5, 6} (sim_tapes z') (ej_Remaining result) wt"
    using eject_empties_the_drives [OF sim_conforming _ _ e] s by (auto simp: sim_written_def)
  then show ?thesis using e rem by (auto simp: ejected_to_def sim_written_def)
qed

section \<open>A tape can be stranded\<close>

text \<open>
  Drive 0 holds a stray tape whose source the library does not report, drive 1 already holds the
  target tape of slot 2, which is therefore empty.
\<close>

definition sim_stray :: sim where
  "sim_stray = \<lparr> sim_at = [Drive 0 \<mapsto> ''X'', Drive 1 \<mapsto> ''T2'', Slot 1 \<mapsto> ''T1'', Slot 3 \<mapsto> ''T3'', Slot 4 \<mapsto> ''T4''],
     sim_src = (\<lambda>d. if d = 1 then 2 else 0), sim_blank = (\<lambda>b. b \<noteq> ''T2'') \<rparr>"


end
