(* ===== verification/Workers.thy ===== *)
theory Workers
  imports Prelude "HOL-Library.Multiset"
begin

text \<open>
  Goroutines that share an environment and send one result each to a channel, as the burn-set and
  the drive-set start them. A worker is a sequence of atomic steps; the scheduler picks which
  running worker moves next. \<open>pool_step\<close> is the transition relation over every schedule,
  \<open>run_pool\<close> the execution under one, and the locale proves what holds under all of them.
\<close>

type_synonym ('s, 'r, 'z) pool = "(nat \<times> 's) list \<times> (nat \<times> 'r) list \<times> 'z"

type_synonym ('s, 'r, 'z) worker = "nat \<Rightarrow> 's \<Rightarrow> 'z \<Rightarrow> ('s + 'r) \<times> 'z"

type_synonym ('s, 'r, 'z) scheduler = "('s, 'r, 'z) pool \<Rightarrow> nat"

inductive pool_step :: "('s, 'r, 'z) worker \<Rightarrow> ('s, 'r, 'z) pool \<Rightarrow> ('s, 'r, 'z) pool \<Rightarrow> bool"
  for step :: "('s, 'r, 'z) worker" where
  go_on: "k < length running \<Longrightarrow> running ! k = (i, s) \<Longrightarrow> step i s z = (Inl s', z')
    \<Longrightarrow> pool_step step (running, sent, z) (running[k := (i, s')], sent, z')"
| send: "k < length running \<Longrightarrow> running ! k = (i, s) \<Longrightarrow> step i s z = (Inr r, z')
    \<Longrightarrow> pool_step step (running, sent, z) (take k running @ drop (Suc k) running, sent @ [(i, r)], z')"

inductive_cases pool_stepE: "pool_step step (running, sent, z) p"

inductive_simps pool_step_idle: "pool_step step ([], sent, z) p"

abbreviation pool_steps :: "('s, 'r, 'z) worker \<Rightarrow> ('s, 'r, 'z) pool \<Rightarrow> ('s, 'r, 'z) pool \<Rightarrow> bool" where
  "pool_steps step \<equiv> (pool_step step)\<^sup>*\<^sup>*"

partial_function (option) run_pool ::
  "('s, 'r, 'z) worker \<Rightarrow> ('s, 'r, 'z) scheduler \<Rightarrow> ('s, 'r, 'z) pool \<Rightarrow> ((nat \<times> 'r) list \<times> 'z) option" where
  "run_pool step pick p =
     (case p of (running, sent, z) \<Rightarrow>
        if running = [] then Some (sent, z)
        else
          let k = pick p mod length running; (i, s) = running ! k in
          (case step i s z of
            (Inl s', z') \<Rightarrow> run_pool step pick (running[k := (i, s')], sent, z')
          | (Inr r, z') \<Rightarrow> run_pool step pick (take k running @ drop (Suc k) running, sent @ [(i, r)], z')))"

lemma pool_step_total:
  assumes "running \<noteq> []"
  shows "\<exists>p'. pool_step step (running, sent, z) p'
    \<and> run_pool step pick (running, sent, z) = run_pool step pick p'"
proof -
  let ?k = "pick (running, sent, z) mod length running"
  have k: "?k < length running" using assms by simp
  obtain i s where i: "running ! ?k = (i, s)" by (metis surj_pair)
  obtain a z' where a: "step i s z = (a, z')" by (metis surj_pair)
  show ?thesis
  proof (cases a)
    case (Inl s')
    then show ?thesis using pool_step.go_on [of ?k running i s step z s' z' sent] k i a assms
      by (subst (1) run_pool.simps) (auto simp: Let_def)
  next
    case (Inr r)
    then show ?thesis using pool_step.send [of ?k running i s step z r z' sent] k i a assms
      by (subst (1) run_pool.simps) (auto simp: Let_def)
  qed
qed

text \<open>
  The contract of a worker: \<open>okay i s\<close> holds of worker \<open>i\<close> between its steps and \<open>sends i r\<close> of
  what it sends, whatever the others do meanwhile; \<open>env\<close> is kept by every step; \<open>left\<close> bounds the
  steps it still takes.
\<close>

locale worker_pool =
  fixes step :: "('s, 'r, 'z) worker"
    and okay :: "nat \<Rightarrow> 's \<Rightarrow> bool"
    and sends :: "nat \<Rightarrow> 'r \<Rightarrow> bool"
    and env :: "'z \<Rightarrow> bool"
    and left :: "'s \<Rightarrow> nat"
  assumes goes_on: "okay i s \<Longrightarrow> env z \<Longrightarrow> step i s z = (Inl s', z') \<Longrightarrow> okay i s' \<and> env z' \<and> left s' < left s"
    and sends_one: "okay i s \<Longrightarrow> env z \<Longrightarrow> step i s z = (Inr r, z') \<Longrightarrow> sends i r \<and> env z'"
begin

definition pool_ok :: "nat multiset \<Rightarrow> ('s, 'r, 'z) pool \<Rightarrow> bool" where
  "pool_ok ids p \<longleftrightarrow> (case p of (running, sent, z) \<Rightarrow>
     mset (map fst running) + mset (map fst sent) = ids
     \<and> (\<forall>(i, s) \<in> set running. okay i s) \<and> (\<forall>(i, r) \<in> set sent. sends i r) \<and> env z)"

definition work :: "('s, 'r, 'z) pool \<Rightarrow> nat" where
  "work p = (case p of (running, sent, z) \<Rightarrow> sum_list (map (\<lambda>(i, s). Suc (left s)) running))"

lemma step_ok:
  assumes "pool_step step p q" "pool_ok ids p"
  shows "pool_ok ids q \<and> work q < work p"
  using assms(1)
proof cases
  case (go_on k running i s z s' z' sent)
  have m: "(i, s) \<in> set running" using go_on by (metis nth_mem)
  then have s: "okay i s'" "env z'" "left s' < left s"
    using goes_on [OF _ _ go_on(5)] assms(2) go_on(1) by (auto simp: pool_ok_def)
  have ids: "map fst (running[k := (i, s')]) = map fst running"
    using go_on(3,4) by (auto simp: map_update intro: list_update_same_conv [THEN iffD2])
  have "sum_list (map (\<lambda>(i, s). Suc (left s)) (running[k := (i, s')]))
      < sum_list (map (\<lambda>(i, s). Suc (left s)) running)"
    using go_on(3,4) s(3) sum_list_update [of k "map (\<lambda>(i, s). Suc (left s)) running" "Suc (left s')"]
      elem_le_sum_list [of k "map (\<lambda>(i, s). Suc (left s)) running"]
    by (simp add: map_update)
  then show ?thesis using assms(2) go_on(1,2) s arg_cong [OF ids, of mset]
      set_update_subset_insert [of running k "(i, s')"]
    by (auto simp: pool_ok_def work_def)
next
  case (send k running i s z r z' sent)
  have r: "running = take k running @ (i, s) # drop (Suc k) running"
    using id_take_nth_drop [OF send(3)] send(4) by simp
  obtain pre post where pre: "pre = take k running" "post = drop (Suc k) running" by blast
  then have running: "running = pre @ (i, s) # post" using r by simp
  have q: "q = (pre @ post, sent @ [(i, r)], z')" using send(2) pre by simp
  have "sends i r" "env z'"
    using sends_one [OF _ _ send(5)] assms(2) send(1) by (auto simp: pool_ok_def running)
  then show ?thesis using assms(2) send(1) by (auto simp: pool_ok_def work_def running q)
qed

text \<open>Under every schedule the pool drains, and every worker has sent exactly one result that is its own.\<close>

lemma run_ok:
  "pool_ok ids p \<Longrightarrow> \<exists>sent z. run_pool step pick p = Some (sent, z) \<and> pool_steps step p ([], sent, z)
     \<and> pool_ok ids ([], sent, z)"
proof (induction "work p" arbitrary: p rule: less_induct)
  case less
  obtain running sent z where p: "p = (running, sent, z)" by (metis surj_pair)
  show ?case
  proof (cases "running = []")
    case True
    then show ?thesis using less(2) p by (subst run_pool.simps) auto
  next
    case False
    obtain q where q: "pool_step step p q" "run_pool step pick p = run_pool step pick q"
      using pool_step_total [OF False, of step sent z pick] unfolding p by (elim exE conjE)
    have "work q < work p" "pool_ok ids q" using step_ok [OF q(1) less(2)] by simp_all
    from less(1) [OF this] obtain sent z where "run_pool step pick q = Some (sent, z)"
        "pool_steps step q ([], sent, z)" "pool_ok ids ([], sent, z)" by (elim exE conjE)
    moreover from this have "pool_steps step p ([], sent, z)"
      by (intro converse_rtranclp_into_rtranclp [where r = "pool_step step", OF q(1)])
    ultimately show ?thesis using q(2) by (intro exI conjI) simp_all
  qed
qed

lemma reachable_ok: "pool_steps step p q \<Longrightarrow> pool_ok ids p \<Longrightarrow> pool_ok ids q"
  by (induction rule: rtranclp_induct) (use step_ok in blast)+

lemma results:
  assumes "\<And>i. i < length ss \<Longrightarrow> okay i (ss ! i)" "env z"
  shows "\<exists>sent z'. run_pool step pick (enumerate 0 ss, [], z) = Some (sent, z') \<and> env z'
    \<and> mset (map fst sent) = mset [0..<length ss] \<and> (\<forall>(i, r) \<in> set sent. sends i r)"
proof -
  have "pool_ok (mset [0..<length ss]) (enumerate 0 ss, [], z)"
    using assms by (auto simp: pool_ok_def in_set_enumerate_eq simp flip: mset_map)
  from run_ok [OF this, of pick] show ?thesis by (auto simp: pool_ok_def)
qed

end

end
