(* ===== verification/Optical.thy ===== *)
theory Optical
  imports GoStrings
begin

text \<open>
  \<open>pkg/optical\<close> and \<open>workflows/backup/burn.go\<close>: the state of a disc from xorriso's report, blanking
  and burning, the disc manifest and the read-back against it, the overwrite policy, and the
  BurnDisc and VerifyDisc activities. The xorriso binary is a function of its arguments over a
  state \<open>'z\<close> that answers an error or its output.
\<close>

type_synonym 'z xorriso = "string list \<Rightarrow> 'z \<Rightarrow> (string + string) \<times> 'z"

section \<open>Addressing\<close>

definition opticalDevicePrefixes :: "string list" where
  "opticalDevicePrefixes = [''/dev/sr'', ''/dev/scd'', ''/dev/dvd'', ''/dev/cdrom'']"

definition isOpticalDevice :: "string \<Rightarrow> bool" where
  "isOpticalDevice device \<longleftrightarrow> (\<exists>p \<in> set opticalDevicePrefixes. HasPrefix device p)"

definition driveAddress :: "string \<Rightarrow> string" where
  "driveAddress device = (if isOpticalDevice device then device else ''stdio:'' @ device)"

section \<open>State of the medium\<close>

datatype DiscState =
  StateUnknown | StateBlank | StateAppendableWriteOnce | StateNonBlankRewritable | StateFinalized

record mediaInfo =
  mi_state :: DiscState
  mi_rewritable :: bool
  mi_rawCurrent :: string
  mi_rawStatus :: string

definition rewritableMediaTokens :: "string list" where
  "rewritableMediaTokens = [''overwriteable'', ''DVD+RW'', ''DVD-RW'', ''DVD-RAM'', ''BD-RE'']"

fun media_lines :: "string list \<Rightarrow> string \<times> string \<Rightarrow> string \<times> string" where
  "media_lines [] raw = raw"
| "media_lines (line # lines) (rawCurrent, rawStatus) =
     (let trimmed = TrimSpace line in
      if HasPrefix trimmed ''Media current:''
      then media_lines lines (TrimSpace (TrimPrefix trimmed ''Media current:''), rawStatus)
      else if HasPrefix trimmed ''Media status :''
      then media_lines lines (rawCurrent, TrimSpace (TrimPrefix trimmed ''Media status :''))
      else media_lines lines (rawCurrent, rawStatus))"

definition parseMediaReport :: "string \<Rightarrow> mediaInfo option" where
  "parseMediaReport report =
     (let (rawCurrent, rawStatus) = media_lines (split_on (CHR 0x0A) report) ([], []) in
      if rawCurrent = [] \<or> rawStatus = [] then None
      else
        let rewritable = (\<exists>token \<in> set rewritableMediaTokens. Contains rawCurrent token);
            state = (if Contains rawStatus ''is blank'' then StateBlank
              else if Contains rawStatus ''is closed'' then StateFinalized
              else if rewritable then StateNonBlankRewritable
              else StateAppendableWriteOnce)
        in Some \<lparr> mi_state = state, mi_rewritable = rewritable, mi_rawCurrent = rawCurrent, mi_rawStatus = rawStatus \<rparr>)"

datatype disc_error =
  ReadingState string
| NoMedium
| NotRewritable DiscState
| AlreadyFinalized DiscState
| Blanking string
| Burning string

definition probe :: "'z xorriso \<Rightarrow> string \<Rightarrow> 'z \<Rightarrow> (disc_error + mediaInfo) \<times> 'z" where
  "probe run device z =
     (case run [''-indev'', driveAddress device, ''-toc''] z of
        (Inl e, z1) \<Rightarrow> (Inl (ReadingState e), z1)
      | (Inr out, z1) \<Rightarrow> (case parseMediaReport out of
          None \<Rightarrow> (Inl NoMedium, z1) | Some info \<Rightarrow> (Inr info, z1)))"

definition Disc_State :: "'z xorriso \<Rightarrow> string \<Rightarrow> 'z \<Rightarrow> (disc_error + DiscState) \<times> 'z" where
  "Disc_State run device z =
     (case probe run device z of (Inl e, z1) \<Rightarrow> (Inl e, z1) | (Inr info, z1) \<Rightarrow> (Inr (mi_state info), z1))"

section \<open>Blanking and burning\<close>

definition blankable :: "mediaInfo \<Rightarrow> disc_error + unit" where
  "blankable info =
     (if \<not> mi_rewritable info then Inl (NotRewritable (mi_state info))
      else if mi_state info = StateFinalized then Inl (AlreadyFinalized (mi_state info))
      else Inr ())"

definition blank_command :: "string \<Rightarrow> string list" where
  "blank_command device = [''-outdev'', driveAddress device, ''-blank'', ''as_needed'']"

definition Disc_Blank :: "'z xorriso \<Rightarrow> string \<Rightarrow> 'z \<Rightarrow> (disc_error + unit) \<times> 'z" where
  "Disc_Blank run device z =
     (case probe run device z of
        (Inl e, z1) \<Rightarrow> (Inl e, z1)
      | (Inr info, z1) \<Rightarrow> (case blankable info of
          Inl e \<Rightarrow> (Inl e, z1)
        | Inr _ \<Rightarrow> (case run (blank_command device) z1 of
            (Inl e, z2) \<Rightarrow> (Inl (Blanking e), z2) | (Inr _, z2) \<Rightarrow> (Inr (), z2))))"

definition write_command :: "string \<Rightarrow> string \<Rightarrow> string list" where
  "write_command device isoPath = [''-as'', ''cdrecord'', ''-v'', ''dev='' @ driveAddress device, isoPath]"

definition WriteImage :: "'z xorriso \<Rightarrow> string \<Rightarrow> string \<Rightarrow> 'z \<Rightarrow> (disc_error + unit) \<times> 'z" where
  "WriteImage run device isoPath z =
     (case run (write_command device isoPath) z of
        (Inl e, z1) \<Rightarrow> (Inl (Burning e), z1) | (Inr _, z1) \<Rightarrow> (Inr (), z1))"

section \<open>The disc manifest\<close>

datatype manifest_error =
  MalformedLine nat string
| NotADigest nat string
| EmptyPath nat string
| DuplicateEntry string
| LineTooLong

text \<open>
  The lines of a \<open>bufio.Scanner\<close>: split at newlines, without an empty last line, and refused from
  the first line that does not fit its 64 KiB buffer. \<open>TrimSpace\<close> removes the carriage returns.
\<close>

definition scan_lines :: "string \<Rightarrow> string list" where
  "scan_lines content = (let ls = split_on (CHR 0x0A) content in if last ls = [] then butlast ls else ls)"

fun parse_manifest :: "nat \<Rightarrow> string list \<Rightarrow> (string \<times> string) list \<Rightarrow> manifest_error + (string \<times> string) list" where
  "parse_manifest n [] manifest = Inr manifest"
| "parse_manifest n (l # ls) manifest =
     (if int (length l) \<ge> 65536 then Inl LineTooLong
      else
        let txt = TrimSpace l in
        if txt = [] then parse_manifest (Suc n) ls manifest
        else
          let (digest, rest, found) = Cut txt (CHR '' '') in
          if \<not> found then Inl (MalformedLine n txt)
          else if length digest \<noteq> 64 then Inl (NotADigest n digest)
          else
            let name = TrimPrefix (TrimSpace (TrimPrefix (TrimSpace rest) ''*'')) ''./'' in
            if name = [] then Inl (EmptyPath n txt)
            else if map_of manifest name \<noteq> None then Inl (DuplicateEntry name)
            else parse_manifest (Suc n) ls ((name, ToLower digest) # manifest))"

definition ParseManifest :: "string \<Rightarrow> manifest_error + (string \<times> string) list" where
  "ParseManifest content = parse_manifest 1 (scan_lines content) []"

record VerifyResult =
  vr_Mismatched :: "string list"
  vr_Missing :: "string list"
  vr_Extra :: "string list"

definition VerifyResult_OK :: "VerifyResult \<Rightarrow> bool" where
  "VerifyResult_OK r \<longleftrightarrow> vr_Mismatched r = [] \<and> vr_Missing r = [] \<and> vr_Extra r = []"

text \<open>
  \<open>verifyTree\<close> over the regular files in the order of the walk, each with its relative path and
  its SHA-256 or read error.
\<close>

fun verify_walk ::
  "(string \<times> ('e + string)) list \<Rightarrow> (string \<times> string) list \<Rightarrow> string list \<Rightarrow> VerifyResult
     \<Rightarrow> 'e + string list \<times> VerifyResult" where
  "verify_walk [] manifest seen result = Inr (seen, result)"
| "verify_walk ((rel, digestOf) # files) manifest seen result =
     (case map_of manifest rel of
        None \<Rightarrow> verify_walk files manifest (rel # seen) (result\<lparr> vr_Extra := vr_Extra result @ [rel] \<rparr>)
      | Some expected \<Rightarrow> (case digestOf of
          Inl e \<Rightarrow> Inl e
        | Inr digest \<Rightarrow> verify_walk files manifest (rel # seen)
            (if digest \<noteq> expected then result\<lparr> vr_Mismatched := vr_Mismatched result @ [rel] \<rparr> else result)))"

definition verifyTree ::
  "(string \<times> ('e + string)) list \<Rightarrow> (string \<times> string) list \<Rightarrow> 'e + VerifyResult" where
  "verifyTree files manifest =
     (case verify_walk files manifest [] \<lparr> vr_Mismatched = [], vr_Missing = [], vr_Extra = [] \<rparr> of
        Inl e \<Rightarrow> Inl e
      | Inr (seen, result) \<Rightarrow>
          Inr \<lparr> vr_Mismatched = sort (vr_Mismatched result),
                vr_Missing = sort (filter (\<lambda>name. name \<notin> set seen) (map fst manifest)),
                vr_Extra = sort (vr_Extra result) \<rparr>)"

section \<open>The burn and verify activities\<close>

record BurnDiscInput =
  bi_Device :: string
  bi_ISOPath :: string
  bi_AllowNonBlankDiscs :: bool
  bi_DriveHasVerifiedCopy :: bool

record BurnResult =
  br_Device :: string
  br_OverwroteNonBlank :: bool

datatype burnAction = burnWrite | burnReclaimWrite | burnPause

datatype burn_error =
  NoBurner
| NoISO
| StateUnreadable disc_error
| StateUndetermined
| DiscNotWritable DiscState
| ReclaimFailed disc_error
| BurnFailed disc_error

text \<open>The action is meaningful only without an error.\<close>

definition decideBurn :: "DiscState \<Rightarrow> bool \<Rightarrow> bool \<Rightarrow> burn_error + burnAction" where
  "decideBurn state allowNonBlank driveHasVerifiedCopy =
     (case state of
        StateBlank \<Rightarrow> Inr burnWrite
      | StateNonBlankRewritable \<Rightarrow>
          if allowNonBlank \<and> \<not> driveHasVerifiedCopy then Inr burnReclaimWrite else Inr burnPause
      | StateAppendableWriteOnce \<Rightarrow> Inr burnPause
      | StateFinalized \<Rightarrow> Inr burnPause
      | StateUnknown \<Rightarrow> Inl StateUndetermined)"

definition burn_image :: "'z xorriso \<Rightarrow> BurnDiscInput \<Rightarrow> bool \<Rightarrow> 'z \<Rightarrow> (burn_error + BurnResult) \<times> 'z" where
  "burn_image run input overwrote z =
     (case WriteImage run (bi_Device input) (bi_ISOPath input) z of
        (Inl e, z1) \<Rightarrow> (Inl (BurnFailed e), z1)
      | (Inr _, z1) \<Rightarrow> (Inr \<lparr> br_Device = bi_Device input, br_OverwroteNonBlank = overwrote \<rparr>, z1))"

definition BurnDisc :: "'z xorriso \<Rightarrow> BurnDiscInput \<Rightarrow> 'z \<Rightarrow> (burn_error + BurnResult) \<times> 'z" where
  "BurnDisc run input z =
     (if bi_Device input = [] then (Inl NoBurner, z)
      else if bi_ISOPath input = [] then (Inl NoISO, z)
      else case Disc_State run (bi_Device input) z of
        (Inl e, z1) \<Rightarrow> (Inl (StateUnreadable e), z1)
      | (Inr state, z1) \<Rightarrow>
          (case decideBurn state (bi_AllowNonBlankDiscs input) (bi_DriveHasVerifiedCopy input) of
             Inl e \<Rightarrow> (Inl e, z1)
           | Inr burnPause \<Rightarrow> (Inl (DiscNotWritable state), z1)
           | Inr burnWrite \<Rightarrow> burn_image run input False z1
           | Inr burnReclaimWrite \<Rightarrow> (case Disc_Blank run (bi_Device input) z1 of
                 (Inl e, z2) \<Rightarrow> (Inl (ReclaimFailed e), z2)
               | (Inr _, z2) \<Rightarrow> burn_image run input True z2)))"

text \<open>
  \<open>VerifyDisc\<close> reads the manifest file and the mounted disc: a parameter each, the first an
  error or the file's content, the second an error or the files of the disc.
\<close>

datatype 'e verify_error =
  NoVerifyDevice
| NoManifestPath
| OpenManifest 'e
| ParseManifestFailed manifest_error
| ReadBack 'e
| DoesNotMatch VerifyResult

definition readManifestFile ::
  "(string \<Rightarrow> 'z \<Rightarrow> ('e + string) \<times> 'z) \<Rightarrow> string \<Rightarrow> 'z \<Rightarrow> ('e verify_error + (string \<times> string) list) \<times> 'z" where
  "readManifestFile open0 path z =
     (case open0 path z of
        (Inl e, z1) \<Rightarrow> (Inl (OpenManifest e), z1)
      | (Inr content, z1) \<Rightarrow> (case ParseManifest content of
          Inl e \<Rightarrow> (Inl (ParseManifestFailed e), z1) | Inr m \<Rightarrow> (Inr m, z1)))"

definition VerifyDisc ::
  "(string \<Rightarrow> 'z \<Rightarrow> ('e + string) \<times> 'z) \<Rightarrow> (string \<Rightarrow> 'z \<Rightarrow> ('e + (string \<times> ('e + string)) list) \<times> 'z)
     \<Rightarrow> string \<Rightarrow> string \<Rightarrow> 'z \<Rightarrow> ('e verify_error + unit) \<times> 'z" where
  "VerifyDisc open0 mounted device manifestPath z =
     (if device = [] then (Inl NoVerifyDevice, z)
      else if manifestPath = [] then (Inl NoManifestPath, z)
      else case readManifestFile open0 manifestPath z of
        (Inl e, z1) \<Rightarrow> (Inl e, z1)
      | (Inr manifest, z1) \<Rightarrow> (case mounted device z1 of
          (Inl e, z2) \<Rightarrow> (Inl (ReadBack e), z2)
        | (Inr files, z2) \<Rightarrow> (case verifyTree files manifest of
            Inl e \<Rightarrow> (Inl (ReadBack e), z2)
          | Inr result \<Rightarrow> (if VerifyResult_OK result then Inr () else Inl (DoesNotMatch result), z2))))"

section \<open>The overwrite policy\<close>

text \<open>xorriso with a log of the commands run.\<close>

definition logged_xorriso :: "'z xorriso \<Rightarrow> ('z \<times> string list list) xorriso" where
  "logged_xorriso run args s = (let (r, z) = run args (fst s) in (r, (z, snd s @ [args])))"

definition toc_command :: "string \<Rightarrow> string list" where
  "toc_command device = [''-indev'', driveAddress device, ''-toc'']"

lemma probe_logged:
  "probe (logged_xorriso run) device (z, l) =
     (let (r, z1) = probe run device z in (r, (z1, l @ [toc_command device])))"
  by (simp add: probe_def logged_xorriso_def toc_command_def split: prod.splits sum.splits option.splits)


section \<open>The read-back\<close>

lemma parse_manifest_distinct:
  "parse_manifest n ls m = Inr m' \<Longrightarrow> distinct (map fst m) \<Longrightarrow> distinct (map fst m')"
proof (induction n ls m rule: parse_manifest.induct)
  case (2 n l ls m)
  then show ?case
    by (auto simp: Let_def map_of_eq_None_iff split: if_splits prod.splits)
qed simp

lemma ParseManifest_distinct: "ParseManifest content = Inr m \<Longrightarrow> distinct (map fst m)"
  by (simp add: ParseManifest_def parse_manifest_distinct)

lemma verify_walk_grows:
  "verify_walk files m seen res = Inr (seen', res')
   \<Longrightarrow> (vr_Extra res' = [] \<longrightarrow> vr_Extra res = []) \<and> (vr_Mismatched res' = [] \<longrightarrow> vr_Mismatched res = [])"
proof (induction files arbitrary: seen res)
  case (Cons f files)
  obtain rel d where f: "f = (rel, d)" by (cases f)
  from Cons.prems obtain res1 where w: "verify_walk files m (rel # seen) res1 = Inr (seen', res')"
    and res1: "res1 = res \<or> res1 = res\<lparr> vr_Extra := vr_Extra res @ [rel] \<rparr>
      \<or> res1 = res\<lparr> vr_Mismatched := vr_Mismatched res @ [rel] \<rparr>"
    by (auto simp: f split: option.splits sum.splits if_splits)
  show ?case using Cons.IH [OF w] res1 by auto
qed simp

lemma verify_walk_clean:
  "(\<exists>res'. verify_walk files m seen res = Inr (seen', res') \<and> vr_Extra res' = [] \<and> vr_Mismatched res' = [])
   \<longleftrightarrow> vr_Extra res = [] \<and> vr_Mismatched res = [] \<and> seen' = rev (map fst files) @ seen
     \<and> (\<forall>(rel, d) \<in> set files. \<exists>x. map_of m rel = Some x \<and> d = Inr x)"
proof (induction files m seen res rule: verify_walk.induct)
  case (2 rel d files m seen res)
  show ?case
  proof (cases "map_of m rel")
    case None
    then show ?thesis using verify_walk_grows [of files m "rel # seen" "res\<lparr>vr_Extra := vr_Extra res @ [rel]\<rparr>"]
      by auto
  next
    case (Some x)
    show ?thesis
    proof (cases "d = Inr x")
      case True
      then show ?thesis using 2(2) [OF Some, of x] Some by auto
    next
      case False
      then show ?thesis
        using Some verify_walk_grows [of files m "rel # seen" "res\<lparr>vr_Mismatched := vr_Mismatched res @ [rel]\<rparr>"]
        by (cases d) auto
    qed
  qed
qed auto

lemma verifyTree_OK_iff:
  assumes "distinct (map fst files)"
  shows "(\<exists>r. verifyTree files m = Inr r \<and> VerifyResult_OK r)
    \<longleftrightarrow> map_of files = (\<lambda>rel. map_option Inr (map_of m rel))"
proof -
  let ?start = "\<lparr> vr_Mismatched = [], vr_Missing = [], vr_Extra = [] \<rparr>"
  have nil: "sort xs = [] \<longleftrightarrow> xs = []" for xs :: "string list" by (metis length_0_conv length_sort)
  have "(\<exists>r. verifyTree files m = Inr r \<and> VerifyResult_OK r)
      \<longleftrightarrow> (\<exists>seen'. (\<exists>res'. verify_walk files m [] ?start = Inr (seen', res') \<and> vr_Extra res' = [] \<and> vr_Mismatched res' = [])
            \<and> fst ` set m \<subseteq> set seen')"
    by (auto simp: verifyTree_def VerifyResult_OK_def nil filter_empty_conv split: sum.splits)
  also have "\<dots> \<longleftrightarrow> (\<forall>(rel, d) \<in> set files. \<exists>x. map_of m rel = Some x \<and> d = Inr x)
      \<and> fst ` set m \<subseteq> fst ` set files"
    by (subst verify_walk_clean) auto
  also have "\<dots> \<longleftrightarrow> map_of files = (\<lambda>rel. map_option Inr (map_of m rel))"
  proof
    assume l: "(\<forall>(rel, d) \<in> set files. \<exists>x. map_of m rel = Some x \<and> d = Inr x) \<and> fst ` set m \<subseteq> fst ` set files"
    show "map_of files = (\<lambda>rel. map_option Inr (map_of m rel))"
    proof
      fix rel
      show "map_of files rel = map_option Inr (map_of m rel)"
      proof (cases "map_of files rel")
        case None
        then have "map_of m rel = None" using l by (auto simp: map_of_eq_None_iff)
        then show ?thesis using None by simp
      next
        case (Some d)
        then show ?thesis using l map_of_SomeD [OF Some] by auto
      qed
    qed
  next
    assume r: "map_of files = (\<lambda>rel. map_option Inr (map_of m rel))"
    have "\<exists>x. map_of m rel = Some x \<and> d = Inr x" if "(rel, d) \<in> set files" for rel d
      using map_of_is_SomeI [OF assms that] fun_cong [OF r, of rel] by auto
    moreover have "dom (map_of files) = dom (map_of m)" using r by (auto simp: dom_def)
    ultimately show "(\<forall>(rel, d) \<in> set files. \<exists>x. map_of m rel = Some x \<and> d = Inr x)
        \<and> fst ` set m \<subseteq> fst ` set files"
      by (auto simp: dom_map_of_conv_image_fst)
  qed
  finally show ?thesis .
qed

text \<open>C12: A burned disc verifies exactly when it holds what was meant to be on it. VerifyDisc succeeds
  if and only if a device and a manifest path are given, the manifest can be read and parsed, the
  disc can be read back, and the map from the paths of its files to their SHA-256 digests equals the
  manifest: nothing missing, nothing extra, nothing different, every digest read.\<close>

theorem disc_verifies_iff_contents_match:
  assumes "\<And>s files s'. mounted device s = (Inr files, s') \<Longrightarrow> distinct (map fst files)"
  shows "fst (VerifyDisc open0 mounted device path z) = Inr ()
    \<longleftrightarrow> device \<noteq> [] \<and> path \<noteq> []
      \<and> (\<exists>content z1 m files z2. open0 path z = (Inr content, z1) \<and> ParseManifest content = Inr m
           \<and> mounted device z1 = (Inr files, z2) \<and> map_of files = (\<lambda>rel. map_option Inr (map_of m rel)))"
proof (cases "device = [] \<or> path = [] \<or> (\<exists>e z1. open0 path z = (Inl e, z1))")
  case True
  then show ?thesis by (auto simp: VerifyDisc_def readManifestFile_def)
next
  case False
  then obtain content z1 where o: "open0 path z = (Inr content, z1)" by (metis sumE surj_pair)
  show ?thesis
  proof (cases "(\<exists>e. ParseManifest content = Inl e) \<or> (\<exists>e z2. mounted device z1 = (Inl e, z2))")
    case True
    then show ?thesis using False o by (auto simp: VerifyDisc_def readManifestFile_def split: sum.splits)
  next
    case no: False
    then obtain m files z2 where m: "ParseManifest content = Inr m" "mounted device z1 = (Inr files, z2)"
      by (metis sumE surj_pair)
    have "fst (VerifyDisc open0 mounted device path z) = Inr ()
        \<longleftrightarrow> (\<exists>r. verifyTree files m = Inr r \<and> VerifyResult_OK r)"
      using False o m by (auto simp: VerifyDisc_def readManifestFile_def split: sum.splits)
    then show ?thesis using verifyTree_OK_iff [OF assms [OF m(2)]] False o m by simp
  qed
qed

section \<open>Concrete runs\<close>

definition used_bdre :: "unit xorriso" where
  "used_bdre args z = (Inr (''Media current: BD-RE'' @ [CHR 0x0A] @ ''Media status : is written , is appendable''), z)"

definition reclaim_input :: BurnDiscInput where
  "reclaim_input = \<lparr> bi_Device = ''/dev/sr0'', bi_ISOPath = ''/s/r.iso'', bi_AllowNonBlankDiscs = True,
     bi_DriveHasVerifiedCopy = False \<rparr>"


definition disc_digest :: string where
  "disc_digest = ''0123456789abcdef0123456789abcdef0123456789abcdef0123456789abcdef''"

theorem disc_verifies_iff_contents_match_witness:
  "fst (VerifyDisc (\<lambda>p s. (Inr (disc_digest @ ''  ./notes.txt'') :: string + string, s))
     (\<lambda>d s. (Inr [(''notes.txt'', Inr disc_digest)], s)) ''/dev/sr0'' ''/s/SHA256SUMS'' ()) = Inr ()"
proof -
  have p: "ParseManifest (disc_digest @ ''  ./notes.txt'') = Inr [(''notes.txt'', disc_digest)]" by code_simp
  show ?thesis
    by (subst disc_verifies_iff_contents_match) (auto simp: p)
qed

end
