(* ===== verification/Pause.thy ===== *)
theory Pause
  imports Types
begin

text \<open>
  Operator pauses (\<open>writepause.go\<close>, \<open>burnpause.go\<close>, the Eject pause of \<open>library.go\<close>, and
  \<open>eject_wait.go\<close>). The workflow's world is its buffered resume and abort signals and the
  environment \<open>'z\<close>. Dispatching an alert takes a workflow task, during which signals may arrive;
  waiting ends with a signal, the timer, or the cancellation of the run.
\<close>

record 'z world =
  w_resume :: nat
  w_abort :: nat
  w_env :: 'z

datatype pause_alert =
  WritePathAlert string "string list" "int list" string
| BurnAlert "string list" string
| EjectAlert "string list" nat

datatype 'c wait_event = ResumeSignal | AbortSignal | TimerFired | Cancelled 'c

datatype pauseOutcome = pauseResumed | pauseAborted | pauseTimedOut

text \<open>
  \<open>rt_alert\<close> answers the signals that arrived meanwhile; a failed delivery is only logged.
  \<open>rt_select\<close> blocks until an event other than a buffered signal. \<open>rt_station_wait\<close> is the
  Eject pause's selector over the resume signal and the polling child workflow.
\<close>

datatype 'c station_event = StationResume | StationCleared | StationTimedOut | StationFailed 'c

record ('z, 'c) runtime =
  rt_alert :: "pause_alert \<Rightarrow> 'z \<Rightarrow> (nat \<times> nat) \<times> 'z"
  rt_select :: "int \<Rightarrow> 'z \<Rightarrow> 'c wait_event \<times> 'z"
  rt_station_wait :: "int \<Rightarrow> 'z \<Rightarrow> 'c station_event \<times> 'z"

definition drainStalePauseSignals :: "'z world \<Rightarrow> 'z world" where
  "drainStalePauseSignals w = w\<lparr> w_resume := 0, w_abort := 0 \<rparr>"

definition alert_operator :: "('z, 'c) runtime \<Rightarrow> pause_alert \<Rightarrow> 'z world \<Rightarrow> 'z world" where
  "alert_operator rt a w =
     (let ((resumes, aborts), z) = rt_alert rt a (w_env w) in
      w\<lparr> w_resume := w_resume w + resumes, w_abort := w_abort w + aborts, w_env := z \<rparr>)"

text \<open>The selector takes the first of its cases that is ready, in the order they were added.\<close>

definition waitForPauseCleared ::
  "('z, 'c) runtime \<Rightarrow> int \<Rightarrow> 'z world \<Rightarrow> ('c + pauseOutcome) \<times> 'z world" where
  "waitForPauseCleared rt timeout w =
     (if 0 < w_resume w then (Inr pauseResumed, w\<lparr> w_resume := w_resume w - 1 \<rparr>)
      else if 0 < w_abort w then (Inr pauseAborted, w\<lparr> w_abort := w_abort w - 1 \<rparr>)
      else let (e, z) = rt_select rt timeout (w_env w) in
        (case e of
           ResumeSignal \<Rightarrow> Inr pauseResumed
         | AbortSignal \<Rightarrow> Inr pauseAborted
         | TimerFired \<Rightarrow> Inr pauseTimedOut
         | Cancelled c \<Rightarrow> Inl c, w\<lparr> w_env := z \<rparr>))"

text \<open>
  Both operator waits drain, alert, expose the pause to queries, wait and clear it. The exposed
  pause is returned as well, since a query can only see it in between.
\<close>

definition operator_pause ::
  "('z, 'c) runtime \<Rightarrow> pause_alert \<Rightarrow> int \<Rightarrow> 'z world \<Rightarrow> ('c + pauseOutcome) \<times> 'z world" where
  "operator_pause rt a timeout w =
     waitForPauseCleared rt timeout (alert_operator rt a (drainStalePauseSignals w))"

definition waitForOperator ::
  "('z, 'c) runtime \<Rightarrow> int \<Rightarrow> string \<Rightarrow> string list \<Rightarrow> int list \<Rightarrow> string \<Rightarrow> 'z world
     \<Rightarrow> ('c + pauseOutcome) \<times> CurrentPause \<times> 'z world" where
  "waitForOperator rt timeout phase affected reload cause w =
     (let pause = noPause\<lparr> cp_Kind := PauseWriteFailure, cp_Phase := phase, cp_AffectedTapes := affected,
            cp_ReloadSlots := reload, cp_ErrorSummary := cause \<rparr>;
          (r, w') = operator_pause rt (WritePathAlert phase affected reload cause) timeout w
      in (r, pause, w'))"

definition swap_prompt :: string where
  "swap_prompt = ''the burn-set is complete; load fresh blank recovery discs for the next set''"

definition waitForBurnOperator ::
  "('z, 'c) runtime \<Rightarrow> int \<Rightarrow> string list \<Rightarrow> string option \<Rightarrow> 'z world
     \<Rightarrow> ('c + pauseOutcome) \<times> CurrentPause \<times> 'z world" where
  "waitForBurnOperator rt timeout devices cause w =
     (let summary = (case cause of None \<Rightarrow> swap_prompt | Some e \<Rightarrow> ''a burn or verify failed: '' @ e);
          pause = noPause\<lparr> cp_Kind := PauseBurn, cp_Devices := devices,
            cp_ErrorSummary := (case cause of None \<Rightarrow> [] | Some e \<Rightarrow> e) \<rparr>;
          (r, w') = operator_pause rt (BurnAlert devices summary) timeout w
      in (r, pause, w'))"

text \<open>
  \<open>waitForIOCleared\<close> takes a buffered or new resume signal, or what the child workflow returns;
  it never listens for abort.
\<close>

definition waitForIOCleared :: "('z, 'c) runtime \<Rightarrow> int \<Rightarrow> 'z world \<Rightarrow> ('c + bool) \<times> 'z world" where
  "waitForIOCleared rt timeout w =
     (if 0 < w_resume w then (Inr True, w\<lparr> w_resume := w_resume w - 1 \<rparr>)
      else let (e, z) = rt_station_wait rt timeout (w_env w) in
        (case e of StationResume \<Rightarrow> Inr True | StationCleared \<Rightarrow> Inr True | StationTimedOut \<Rightarrow> Inr False
         | StationFailed c \<Rightarrow> Inl c, w\<lparr> w_env := z \<rparr>))"

section \<open>The polling child workflow\<close>

text \<open>
  One turn of the selector ends with the deadline, a poll that is due, or the cancellation by the
  parent. The loop counts its polls and continues as a new execution with the same deadline when
  they are spent, so \<open>ioStationWait\<close> is one loop over executions.
\<close>

datatype 'c poll_event = DeadlineReached | PollDue | PollCancelled 'c

datatype 'c wait_result = WaitDone "'c + bool" | ContinueAsNew

definition maxPollsBeforeContinue :: nat where "maxPollsBeforeContinue = 200"

fun ioStationWaitWorkflow ::
  "(int \<Rightarrow> 'z \<Rightarrow> 'c poll_event \<times> 'z) \<Rightarrow> ('z \<Rightarrow> ('c + IOStatus) \<times> 'z) \<Rightarrow> int \<Rightarrow> nat \<Rightarrow> 'z \<Rightarrow> 'c wait_result \<times> 'z" where
  "ioStationWaitWorkflow select status deadline 0 z = (ContinueAsNew, z)"
| "ioStationWaitWorkflow select status deadline (Suc polls) z =
     (case select deadline z of
        (PollCancelled c, z1) \<Rightarrow> (WaitDone (Inl c), z1)
      | (DeadlineReached, z1) \<Rightarrow> (WaitDone (Inr False), z1)
      | (PollDue, z1) \<Rightarrow> (case status z1 of
          (Inl c, z2) \<Rightarrow> (WaitDone (Inl c), z2)
        | (Inr s, z2) \<Rightarrow> if CanAutoResume s then (WaitDone (Inr True), z2)
                       else ioStationWaitWorkflow select status deadline polls z2))"

partial_function (option) io_station_wait ::
  "(int \<Rightarrow> 'z \<Rightarrow> 'c poll_event \<times> 'z) \<Rightarrow> ('z \<Rightarrow> ('c + IOStatus) \<times> 'z) \<Rightarrow> int \<Rightarrow> 'z \<Rightarrow> (('c + bool) \<times> 'z) option" where
  "io_station_wait select status deadline z =
     (case ioStationWaitWorkflow select status deadline maxPollsBeforeContinue z of
        (WaitDone r, z1) \<Rightarrow> Some (r, z1)
      | (ContinueAsNew, z1) \<Rightarrow> io_station_wait select status deadline z1)"

section \<open>Stale signals\<close>

text \<open>A pause is never resolved by a signal from before its alert. Whatever resume and abort
  signals are buffered when a Load, Write or Burn pause begins, and however many, the pause behaves
  as if there were none; it ends as resumed or aborted only if such a signal arrived after the
  drain, as timed out only when the timer fired, and a cancellation is reported as one.\<close>

theorem stale_signals_never_resolve_a_pause:
  "operator_pause rt a timeout w = operator_pause rt a timeout (w\<lparr> w_resume := r, w_abort := b \<rparr>)
   \<and> waitForOperator rt timeout phase affected reload cause w
       = waitForOperator rt timeout phase affected reload cause (w\<lparr> w_resume := r, w_abort := b \<rparr>)
   \<and> waitForBurnOperator rt timeout devices why w
       = waitForBurnOperator rt timeout devices why (w\<lparr> w_resume := r, w_abort := b \<rparr>)
   \<and> (let ((resumes, aborts), z1) = rt_alert rt a (w_env w); (e, z2) = rt_select rt timeout z1;
          (outcome, w') = operator_pause rt a timeout w
      in outcome = (if 0 < resumes then Inr pauseResumed else if 0 < aborts then Inr pauseAborted
           else case e of ResumeSignal \<Rightarrow> Inr pauseResumed | AbortSignal \<Rightarrow> Inr pauseAborted
             | TimerFired \<Rightarrow> Inr pauseTimedOut | Cancelled c \<Rightarrow> Inl c))"
  by (simp add: operator_pause_def waitForOperator_def waitForBurnOperator_def drainStalePauseSignals_def
      alert_operator_def waitForPauseCleared_def Let_def split: prod.splits)

section \<open>The station wait ends\<close>

text \<open>The wait for the I/O station ends with the deadline. With a clock that advances by at least
  the poll interval per turn and selects the deadline once it has passed, the self-continuing wait
  returns however often it starts a new execution: with true only right after a poll that showed
  the station accessible, closed and with a free slot.\<close>

theorem station_wait_returns:
  assumes "\<And>s. now s \<ge> deadline \<Longrightarrow> fst (select deadline s) \<noteq> PollDue"
    and "\<And>s s'. select deadline s = (PollDue, s') \<Longrightarrow> now s' \<ge> now s + interval"
    and "\<And>s. now (snd (status s)) \<ge> now s" and "0 < interval"
  shows "\<exists>r z'. io_station_wait select status deadline z = Some (r, z')
    \<and> (r = Inr True \<longrightarrow> (\<exists>s st. status s = (Inr st, z') \<and> CanAutoResume st))"
proof -
  have one: "case fst (ioStationWaitWorkflow select status deadline n s) of
      WaitDone r \<Rightarrow> r = Inr True \<longrightarrow>
        (\<exists>s' st. status s' = (Inr st, snd (ioStationWaitWorkflow select status deadline n s)) \<and> CanAutoResume st)
    | ContinueAsNew \<Rightarrow> now (snd (ioStationWaitWorkflow select status deadline n s)) \<ge> now s
        \<and> (0 < n \<longrightarrow> now s < deadline \<and> now (snd (ioStationWaitWorkflow select status deadline n s)) > now s)"
    for n s
  proof (induction n arbitrary: s)
    case (Suc n)
    obtain e s1 where e: "select deadline s = (e, s1)" by (metis surj_pair)
    obtain st s2 where st: "status s1 = (st, s2)" by (metis surj_pair)
    show ?case
    proof (cases "e = PollDue \<and> (\<exists>x. st = Inr x \<and> \<not> CanAutoResume x)")
      case False
      then show ?thesis by (cases e; cases st) (auto simp: e st intro: exI [of _ s1])
    next
      case True
      then obtain x where x: "st = Inr x" "\<not> CanAutoResume x" by blast
      have t: "now s < deadline" "now s2 > now s"
        using True e assms(1) [of s] assms(2) [of s s1] assms(3) [of s1] assms(4) st by (auto simp: not_le [symmetric])
      show ?thesis using Suc.IH [of s2] t True e st x by (auto split: wait_result.splits)
    qed
  qed simp
  show ?thesis
  proof (induction "nat (deadline - now z)" arbitrary: z rule: less_induct)
    case less
    obtain r s where r: "ioStationWaitWorkflow select status deadline maxPollsBeforeContinue z = (r, s)"
      by (metis surj_pair)
    note o = one [of maxPollsBeforeContinue z, unfolded r]
    show ?case
    proof (cases r)
      case (WaitDone x)
      then show ?thesis using o r by (subst io_station_wait.simps) auto
    next
      case ContinueAsNew
      then have "now z < deadline" "now s > now z" using o by (auto simp: maxPollsBeforeContinue_def)
      then have "nat (deadline - now s) < nat (deadline - now z)" by simp
      from less [OF this] show ?thesis using r ContinueAsNew by (subst io_station_wait.simps) simp
    qed
  qed
qed

text \<open>A clock of polls, one per time unit, and a station that clears at time 3.\<close>

theorem station_wait_returns_witness:
  "io_station_wait (\<lambda>d t. (if t \<ge> d then DeadlineReached else PollDue, t + 1))
     (\<lambda>t. (Inr \<lparr> io_FreeSlots = 1, io_AccessReported = True, io_StationClosed = (t \<ge> 3) \<rparr> :: string + IOStatus, t)) (10 :: int) (0 :: int)
     \<noteq> None"
proof -
  have "\<exists>r z'. io_station_wait (\<lambda>d t. (if t \<ge> d then DeadlineReached else PollDue, t + 1))
     (\<lambda>t. (Inr \<lparr> io_FreeSlots = 1, io_AccessReported = True, io_StationClosed = (t \<ge> 3) \<rparr> :: string + IOStatus, t)) (10 :: int) (0 :: int)
      = Some (r, z') \<and> (r = Inr True \<longrightarrow> (\<exists>s st. (Inr \<lparr> io_FreeSlots = 1, io_AccessReported = True, io_StationClosed = (s \<ge> 3) \<rparr>, s)
          = (Inr st :: string + IOStatus, z') \<and> CanAutoResume st))"
    by (rule station_wait_returns [where now = "\<lambda>t. t" and interval = 1]) (auto split: if_splits)
  then show ?thesis by blast
qed

end
