(* ===== verification/BurnPath.thy ===== *)
theory BurnPath
  imports Batching Workers Pause Optical
begin

text \<open>
  \<open>workflows/backup/burnpath.go\<close>: the plan of burn-sets, burning a set in parallel, the retry of
  failed discs after an operator pause, and the loop over sets. The burn and verify activities run
  on the data worker; they are functions over the environment, with the worker's own errors.
\<close>

record burnAssignment =
  ba_Device :: string
  ba_CopyIndex :: nat

record 'e failedDisc =
  fd_Device :: string
  fd_CopyIndex :: nat
  fd_Err :: 'e

section \<open>The plan\<close>

datatype burn_plan_error = NegativeCopies int | NoBurners int

fun burn_set_loop ::
  "string list \<Rightarrow> nat list \<Rightarrow> burnAssignment list list \<Rightarrow> burnAssignment list \<Rightarrow> burnAssignment list list option" where
  "burn_set_loop drives [] sets current = Some (if current \<noteq> [] then sets @ [current] else sets)"
| "burn_set_loop drives (copyIndex # copies) sets current =
     (if length current < length drives
      then let current' = current @ [\<lparr> ba_Device = drives ! length current, ba_CopyIndex = copyIndex \<rparr>] in
        if length current' = length drives then burn_set_loop drives copies (sets @ [current']) []
        else burn_set_loop drives copies sets current'
      else None)"

definition planBurnSets :: "int \<Rightarrow> string list \<Rightarrow> (burn_plan_error + burnAssignment list list) option" where
  "planBurnSets copies drives =
     (if copies = 0 then Some (Inr [])
      else if copies < 0 then Some (Inl (NegativeCopies copies))
      else if drives = [] then Some (Inl (NoBurners copies))
      else map_option Inr (burn_set_loop drives [0..<nat copies] [] []))"

definition burn_assignment :: "string list \<Rightarrow> nat \<Rightarrow> nat \<Rightarrow> nat \<Rightarrow> burnAssignment" where
  "burn_assignment drives copyIndex running pos = \<lparr> ba_Device = drives ! pos, ba_CopyIndex = copyIndex \<rparr>"

interpretation burn_sets: set_planner "max (Suc 0) (length drives)" "\<lambda>_. drives \<noteq> []" "burn_assignment drives"
  "\<lambda>copies sets current _. burn_set_loop drives copies sets current" for drives :: "string list"
  by unfold_locales (auto simp: burn_assignment_def Let_def max_def Suc_le_eq split: if_splits)

lemma burn_assigned_nth:
  "drives \<noteq> [] \<Longrightarrow> k < length xs \<Longrightarrow> burn_sets.assigned drives 0 0 xs ! k
     = burn_assignment drives (xs ! k) k (k mod length drives)"
  by (subst burn_sets.assigned_def) (cases drives; simp)

lemma planBurnSets_ok:
  assumes "planBurnSets copies drives = Some (Inr sets)"
  shows "map ba_CopyIndex (concat sets) = [0..<nat copies]
    \<and> (\<forall>s \<in> set sets. s \<noteq> [] \<and> length s \<le> length drives)"
proof (cases "copies = 0")
  case True
  then show ?thesis using assms by (simp add: planBurnSets_def)
next
  case False
  then have c: "0 < copies" "drives \<noteq> []" using assms by (auto simp: planBurnSets_def split: if_splits)
  let ?as = "burn_sets.assigned drives 0 0 [0..<nat copies]"
  have w: "max (Suc 0) (length drives) = length drives" "0 < length drives" using c(2) by (cases drives; simp)+
  have "burn_set_loop drives [0..<nat copies] [] [] = Some (chunk (length drives) ?as)"
    using burn_sets.plan [of "[0..<nat copies]" drives] c w(1) by simp
  then have s: "sets = chunk (length drives) ?as" using assms c by (simp add: planBurnSets_def)
  have b: "concat sets = ?as" "s \<in> set sets \<Longrightarrow> s \<noteq> [] \<and> length s \<le> length drives" for s
    using chunk_batches [OF w(2), of ?as] by (auto simp: batches_def s)
  have "length ?as = nat copies" by (simp add: burn_sets.assigned_def)
  then have "map ba_CopyIndex ?as = [0..<nat copies]"
    using burn_assigned_nth [OF c(2), of _ "[0..<nat copies]"]
    by (intro nth_equalityI) (auto simp: burn_assignment_def)
  then show ?thesis using b by simp
qed

section \<open>Burning a set\<close>

text \<open>The activities: burning a disc and verifying it, each with the errors of the workflow call.\<close>

record ('z, 'e) burn_activities =
  do_burn :: "BurnDiscInput \<Rightarrow> 'z \<Rightarrow> ('e + BurnResult) \<times> 'z"
  do_verify :: "string \<Rightarrow> string \<Rightarrow> 'z \<Rightarrow> ('e + unit) \<times> 'z"

datatype 'e disc_failure = BurnStep 'e | VerifyStep 'e

datatype burn_worker = ToBurn BurnDiscInput | ToVerify BurnDiscInput BurnResult

text \<open>One goroutine: burn, then verify; each activity call is one step of it.\<close>

definition burn_step ::
  "('z, 'e) burn_activities \<Rightarrow> string \<Rightarrow> (burn_worker, 'e disc_failure + BurnResult, 'z) worker" where
  "burn_step acts manifest i s z =
     (case s of
        ToBurn input \<Rightarrow> (case do_burn acts input z of
          (Inl e, z') \<Rightarrow> (Inr (Inl (BurnStep e)), z') | (Inr burn, z') \<Rightarrow> (Inl (ToVerify input burn), z'))
      | ToVerify input burn \<Rightarrow> (case do_verify acts (bi_Device input) manifest z of
          (Inl e, z') \<Rightarrow> (Inr (Inl (VerifyStep e)), z') | (Inr _, z') \<Rightarrow> (Inr (Inr burn), z')))"

definition deviceHasVerifiedCopy :: "BurnResult list \<Rightarrow> string \<Rightarrow> bool" where
  "deviceHasVerifiedCopy burned device \<longleftrightarrow> (\<exists>disc \<in> set burned. br_Device disc = device)"

definition burn_input :: "string \<Rightarrow> bool \<Rightarrow> BurnResult list \<Rightarrow> burnAssignment \<Rightarrow> BurnDiscInput" where
  "burn_input isoPath allowNonBlank burned a =
     \<lparr> bi_Device = ba_Device a, bi_ISOPath = isoPath, bi_AllowNonBlankDiscs = allowNonBlank,
       bi_DriveHasVerifiedCopy = deviceHasVerifiedCopy burned (ba_Device a) \<rparr>"

text \<open>What the channel delivers, in that order, is partitioned.\<close>

fun partition_discs ::
  "burnAssignment list \<Rightarrow> (nat \<times> ('e disc_failure + BurnResult)) list
     \<Rightarrow> BurnResult list \<times> 'e disc_failure failedDisc list" where
  "partition_discs set0 [] = ([], [])"
| "partition_discs set0 ((i, r) # received) =
     (let (results, failed) = partition_discs set0 received in
      case r of
        Inl e \<Rightarrow> (results, \<lparr> fd_Device = ba_Device (set0 ! i), fd_CopyIndex = ba_CopyIndex (set0 ! i), fd_Err = e \<rparr> # failed)
      | Inr b \<Rightarrow> (b # results, failed))"

record burn_config =
  bc_Copies :: int
  bc_Drives :: "string list"
  bc_AllowNonBlankDiscs :: bool
  bc_ISOPath :: string
  bc_ManifestPath :: string
  bc_WaitTimeout :: int

definition burnDiscSet ::
  "('z, 'e) burn_activities \<Rightarrow> (burn_worker, 'e disc_failure + BurnResult, 'z) scheduler \<Rightarrow> burn_config
     \<Rightarrow> BurnResult list \<Rightarrow> burnAssignment list \<Rightarrow> 'z
     \<Rightarrow> ((BurnResult list \<times> 'e disc_failure failedDisc list) \<times> 'z) option" where
  "burnDiscSet acts pick cfg burned set0 z =
     (case run_pool (burn_step acts (bc_ManifestPath cfg)) pick
          (enumerate 0 (map (\<lambda>a. ToBurn (burn_input (bc_ISOPath cfg) (bc_AllowNonBlankDiscs cfg) burned a)) set0), [], z) of
        None \<Rightarrow> None
      | Some (received, z') \<Rightarrow> Some (partition_discs set0 received, z'))"

definition retryBurnSet :: "'e failedDisc list \<Rightarrow> burnAssignment list" where
  "retryBurnSet failed = map (\<lambda>d. \<lparr> ba_Device = fd_Device d, ba_CopyIndex = fd_CopyIndex d \<rparr>) failed"

definition devicesOf :: "burnAssignment list \<Rightarrow> string list" where
  "devicesOf set0 = map ba_Device set0"

definition devicesOfFailed :: "'e failedDisc list \<Rightarrow> string list" where
  "devicesOfFailed failed = map fd_Device failed"

section \<open>The burn path\<close>

datatype ('e, 'c) burn_path_error =
  BurnPlan burn_plan_error
| BurnCancelled 'c
| AbortedBeforeSet nat nat
| TimedOutBeforeSet nat nat
| AbortedAfterFailures "'e disc_failure failedDisc list"
| TimedOutAfterFailures "'e disc_failure failedDisc list"

text \<open>
  \<open>runBurnSet\<close>, with the discs burned so far threaded; \<open>explain\<close> is the text of the joined
  failures. An operator may resume for ever, so it need not return.
\<close>

partial_function (option) runBurnSet ::
  "('z, 'e) burn_activities \<Rightarrow> (burn_worker, 'e disc_failure + BurnResult, 'z) scheduler \<Rightarrow> ('z, 'c) runtime
     \<Rightarrow> ('e disc_failure failedDisc list \<Rightarrow> string) \<Rightarrow> burn_config \<Rightarrow> BurnResult list \<Rightarrow> burnAssignment list \<Rightarrow> 'z world
     \<Rightarrow> ((('e, 'c) burn_path_error + unit) \<times> BurnResult list \<times> 'z world) option" where
  "runBurnSet acts pick rt explain cfg burned pending w =
     (case burnDiscSet acts pick cfg burned pending (w_env w) of
        None \<Rightarrow> None
      | Some ((results, failed), z) \<Rightarrow>
          let burned' = burned @ results; w1 = w\<lparr> w_env := z \<rparr> in
          if failed = [] then Some (Inr (), burned', w1)
          else
            (case waitForBurnOperator rt (bc_WaitTimeout cfg) (devicesOfFailed failed) (Some (explain failed)) w1 of
               (Inl c, pause, w2) \<Rightarrow> Some (Inl (BurnCancelled c), burned', w2)
             | (Inr pauseAborted, pause, w2) \<Rightarrow> Some (Inl (AbortedAfterFailures failed), burned', w2)
             | (Inr pauseTimedOut, pause, w2) \<Rightarrow> Some (Inl (TimedOutAfterFailures failed), burned', w2)
             | (Inr pauseResumed, pause, w2) \<Rightarrow>
                 runBurnSet acts pick rt explain cfg burned' (retryBurnSet failed) w2))"

fun burn_sets_from ::
  "('z, 'e) burn_activities \<Rightarrow> (burn_worker, 'e disc_failure + BurnResult, 'z) scheduler \<Rightarrow> ('z, 'c) runtime
     \<Rightarrow> ('e disc_failure failedDisc list \<Rightarrow> string) \<Rightarrow> burn_config \<Rightarrow> nat \<Rightarrow> nat \<Rightarrow> burnAssignment list list
     \<Rightarrow> BurnResult list \<Rightarrow> 'z world \<Rightarrow> ((('e, 'c) burn_path_error + unit) \<times> BurnResult list \<times> 'z world) option" where
  "burn_sets_from acts pick rt explain cfg setIndex sets [] burned w = Some (Inr (), burned, w)"
| "burn_sets_from acts pick rt explain cfg setIndex sets (s # rest) burned w =
     (let (go, w1) = (if setIndex > 0
            then (case waitForBurnOperator rt (bc_WaitTimeout cfg) (devicesOf s) None w of
                (Inl c, pause, w1) \<Rightarrow> (Inl (BurnCancelled c), w1)
              | (Inr pauseResumed, pause, w1) \<Rightarrow> (Inr (), w1)
              | (Inr pauseAborted, pause, w1) \<Rightarrow> (Inl (AbortedBeforeSet (setIndex + 1) sets), w1)
              | (Inr pauseTimedOut, pause, w1) \<Rightarrow> (Inl (TimedOutBeforeSet (setIndex + 1) sets), w1))
            else (Inr (), w)) in
      case go of
        Inl e \<Rightarrow> Some (Inl e, burned, w1)
      | Inr _ \<Rightarrow> (case runBurnSet acts pick rt explain cfg burned s w1 of
            None \<Rightarrow> None
          | Some (Inl e, burned', w2) \<Rightarrow> Some (Inl e, burned', w2)
          | Some (Inr _, burned', w2) \<Rightarrow>
              burn_sets_from acts pick rt explain cfg (Suc setIndex) sets rest burned' w2))"

definition runBurnPath ::
  "('z, 'e) burn_activities \<Rightarrow> (burn_worker, 'e disc_failure + BurnResult, 'z) scheduler \<Rightarrow> ('z, 'c) runtime
     \<Rightarrow> ('e disc_failure failedDisc list \<Rightarrow> string) \<Rightarrow> burn_config \<Rightarrow> BurnResult list \<Rightarrow> 'z world
     \<Rightarrow> ((('e, 'c) burn_path_error + unit) \<times> BurnResult list \<times> 'z world) option" where
  "runBurnPath acts pick rt explain cfg burned w =
     (case planBurnSets (bc_Copies cfg) (bc_Drives cfg) of
        None \<Rightarrow> None
      | Some (Inl e) \<Rightarrow> Some (Inl (BurnPlan e), burned, w)
      | Some (Inr sets) \<Rightarrow> burn_sets_from acts pick rt explain cfg 0 (length sets) sets burned w)"

section \<open>Every copy is burned and verified\<close>

definition burn_okay :: "('z, 'e) burn_activities \<Rightarrow> BurnDiscInput list \<Rightarrow> nat \<Rightarrow> burn_worker \<Rightarrow> bool" where
  "burn_okay acts inputs i s \<longleftrightarrow> (case s of
     ToBurn input \<Rightarrow> input = inputs ! i
   | ToVerify input burn \<Rightarrow> input = inputs ! i \<and> (\<exists>z z'. do_burn acts input z = (Inr burn, z')))"

definition burned_and_verified ::
  "('z, 'e) burn_activities \<Rightarrow> string \<Rightarrow> BurnDiscInput \<Rightarrow> BurnResult \<Rightarrow> bool" where
  "burned_and_verified acts manifest input burn \<longleftrightarrow> (\<exists>z z'. do_burn acts input z = (Inr burn, z'))
     \<and> (\<exists>z z'. do_verify acts (bi_Device input) manifest z = (Inr (), z'))"

definition burn_sends ::
  "('z, 'e) burn_activities \<Rightarrow> string \<Rightarrow> BurnDiscInput list \<Rightarrow> nat \<Rightarrow> 'e disc_failure + BurnResult \<Rightarrow> bool" where
  "burn_sends acts manifest inputs i r \<longleftrightarrow>
     (\<forall>burn. r = Inr burn \<longrightarrow> burned_and_verified acts manifest (inputs ! i) burn)"

definition burn_left :: "burn_worker \<Rightarrow> nat" where
  "burn_left s = (case s of ToBurn _ \<Rightarrow> 1 | ToVerify _ _ \<Rightarrow> 0)"

interpretation burn_pool: worker_pool "burn_step acts manifest" "burn_okay acts inputs"
  "burn_sends acts manifest inputs" "\<lambda>_. True" burn_left
  for acts :: "('z, 'e) burn_activities" and manifest :: string and inputs :: "BurnDiscInput list"
proof unfold_locales
  fix i s z s' z'
  assume okay: "burn_okay acts inputs i s" and "burn_step acts manifest i s z = (Inl s', z')"
  then obtain input burn where "s = ToBurn input" "do_burn acts input z = (Inr burn, z')" "s' = ToVerify input burn"
    by (auto simp: burn_step_def split: burn_worker.splits sum.splits prod.splits)
  then show "burn_okay acts inputs i s' \<and> True \<and> burn_left s' < burn_left s"
    using okay by (auto simp: burn_okay_def burn_left_def)
next
  fix i s z r z'
  assume okay: "burn_okay acts inputs i s" and s: "burn_step acts manifest i s z = (Inr r, z')"
  have "burned_and_verified acts manifest (inputs ! i) burn" if r: "r = Inr burn" for burn
  proof -
    obtain input where i: "s = ToVerify input burn" and v: "\<exists>u. do_verify acts (bi_Device input) manifest z = (Inr u, z')"
      using s r by (auto simp: burn_step_def split: burn_worker.splits sum.splits prod.splits)
    then show ?thesis using okay by (auto simp: burn_okay_def burned_and_verified_def)
  qed
  then show "burn_sends acts manifest inputs i r \<and> True" by (simp add: burn_sends_def)
qed

lemma partition_discs_counts:
  "partition_discs set0 received = (results, failed) \<Longrightarrow> length results + length failed = length received"
  by (induction received arbitrary: results failed) (auto split: prod.splits sum.splits)

lemma partition_discs_results:
  "partition_discs set0 received = (results, failed) \<Longrightarrow> b \<in> set results \<Longrightarrow> \<exists>i. (i, Inr b) \<in> set received"
proof (induction received arbitrary: results failed)
  case (Cons x received)
  obtain i r where x: "x = (i, r)" by (cases x)
  obtain rs fs where rest: "partition_discs set0 received = (rs, fs)" by (metis surj_pair)
  show ?case
  proof (cases "b \<in> set rs")
    case True
    then show ?thesis using Cons.IH [OF rest] by auto
  next
    case False
    then have "r = Inr b" using Cons.prems rest x by (cases r) auto
    then show ?thesis using x by auto
  qed
qed simp

lemma burnDiscSet_ok:
  "\<exists>results failed z'. burnDiscSet acts pick cfg burned set0 z = Some ((results, failed), z')
     \<and> length results + length failed = length set0
     \<and> (\<forall>b \<in> set results. \<exists>input. burned_and_verified acts (bc_ManifestPath cfg) input b
          \<and> bi_ISOPath input = bc_ISOPath cfg)"
proof -
  let ?inputs = "map (burn_input (bc_ISOPath cfg) (bc_AllowNonBlankDiscs cfg) burned) set0"
  let ?start = "map (\<lambda>a. ToBurn (burn_input (bc_ISOPath cfg) (bc_AllowNonBlankDiscs cfg) burned a)) set0"
  have "\<exists>received z'. run_pool (burn_step acts (bc_ManifestPath cfg)) pick (enumerate 0 ?start, [], z) = Some (received, z')
      \<and> True \<and> mset (map fst received) = mset [0..<length ?start]
      \<and> (\<forall>(i, r) \<in> set received. burn_sends acts (bc_ManifestPath cfg) ?inputs i r)"
    by (rule burn_pool.results) (simp_all add: burn_okay_def)
  then obtain received z' where r: "run_pool (burn_step acts (bc_ManifestPath cfg)) pick (enumerate 0 ?start, [], z) = Some (received, z')"
    "mset (map fst received) = mset [0..<length ?start]"
    "\<And>i r. (i, r) \<in> set received \<Longrightarrow> burn_sends acts (bc_ManifestPath cfg) ?inputs i r"
    by blast
  obtain results failed where p: "partition_discs set0 received = (results, failed)" by (metis surj_pair)
  have len: "length received = length set0" using mset_eq_length [OF r(2)] by simp
  have "\<exists>input. burned_and_verified acts (bc_ManifestPath cfg) input b \<and> bi_ISOPath input = bc_ISOPath cfg"
    if "b \<in> set results" for b
  proof -
    from partition_discs_results [OF p that] obtain i where i: "(i, Inr b) \<in> set received" ..
    then have "i \<in># mset (map fst received)" by force
    then have "i < length set0" unfolding r(2) by simp
    then show ?thesis using r(3) [OF i] by (auto simp: burn_sends_def burn_input_def)
  qed
  then show ?thesis using r(1) p partition_discs_counts [OF p] len by (auto simp: burnDiscSet_def)
qed

definition discs_ok :: "('z, 'e) burn_activities \<Rightarrow> burn_config \<Rightarrow> BurnResult list \<Rightarrow> BurnResult list \<Rightarrow> nat \<Rightarrow> bool" where
  "discs_ok acts cfg burned burned' n \<longleftrightarrow> (\<exists>new. burned' = burned @ new \<and> length new = n
     \<and> (\<forall>b \<in> set new. \<exists>input. burned_and_verified acts (bc_ManifestPath cfg) input b
          \<and> bi_ISOPath input = bc_ISOPath cfg))"

lemma discs_ok_append:
  "discs_ok acts cfg a b m \<Longrightarrow> discs_ok acts cfg b c n \<Longrightarrow> discs_ok acts cfg a c (m + n)"
  unfolding discs_ok_def by (metis append.assoc length_append set_append Un_iff)

lemma runBurnSet_ok:
  assumes "runBurnSet acts pick rt explain cfg burned pending w = Some r"
  shows "fst r = Inr () \<Longrightarrow> discs_ok acts cfg burned (fst (snd r)) (length pending)"
  using assms
proof (induct rule: runBurnSet.raw_induct [rotated 1, consumes 1])
  case (1 f acts pick rt explain cfg burned pending w r)
  obtain results failed z' where b: "burnDiscSet acts pick cfg burned pending (w_env w) = Some ((results, failed), z')"
    and n: "length results + length failed = length pending"
    and v: "\<forall>b \<in> set results. \<exists>input. burned_and_verified acts (bc_ManifestPath cfg) input b
      \<and> bi_ISOPath input = bc_ISOPath cfg"
    using burnDiscSet_ok [of acts pick cfg burned pending "w_env w"] by blast
  have new: "discs_ok acts cfg burned (burned @ results) (length results)" using v by (auto simp: discs_ok_def)
  show ?case
  proof (cases "failed = []")
    case True
    then have "r = (Inr (), burned @ results, w\<lparr> w_env := z' \<rparr>)" using 1(2) b by simp
    then show ?thesis using new n True by simp
  next
    case False
    obtain o' pause w2 where o: "waitForBurnOperator rt (bc_WaitTimeout cfg) (devicesOfFailed failed)
        (Some (explain failed)) (w\<lparr> w_env := z' \<rparr>) = (o', pause, w2)" by (metis surj_pair)
    have "o' = Inr pauseResumed" and f: "f acts pick rt explain cfg (burned @ results) (retryBurnSet failed) w2 = Some r"
      using 1(2,3) b False o by (auto simp: Let_def split: sum.splits pauseOutcome.splits)
    have "discs_ok acts cfg (burned @ results) (fst (snd r)) (length (retryBurnSet failed))"
      using 1(1) [OF f 1(3)] .
    from discs_ok_append [OF new this] show ?thesis using n by (simp add: retryBurnSet_def)
  qed
qed

lemma burn_sets_from_ok:
  "burn_sets_from acts pick rt explain cfg k n sets burned w = Some (Inr (), burned', w')
   \<Longrightarrow> discs_ok acts cfg burned burned' (length (concat sets))"
proof (induction sets arbitrary: k burned w)
  case Nil
  then show ?case by (simp add: discs_ok_def)
next
  case (Cons s sets)
  from Cons.prems obtain burned1 w1 w2 where r: "runBurnSet acts pick rt explain cfg burned s w1 = Some (Inr (), burned1, w2)"
    "burn_sets_from acts pick rt explain cfg (Suc k) n sets burned1 w2 = Some (Inr (), burned', w')"
    by (auto simp: Let_def split: prod.splits sum.splits option.splits if_splits pauseOutcome.splits)
  have "discs_ok acts cfg burned burned1 (length s)" using runBurnSet_ok [OF r(1)] by simp
  from discs_ok_append [OF this Cons.IH [OF r(2)]] show ?case by simp
qed

text \<open>C29: A Burn phase that succeeds has burned and verified exactly the configured number of discs.
  Under every interleaving of the burners, and however often the operator had failed discs retried,
  the discs recorded are the earlier ones plus one per configured copy, and each was burned from the
  run's image and then read back and verified against the run's manifest in the same burner.\<close>

theorem burn_path_burns_every_copy:
  assumes "runBurnPath acts pick rt explain cfg burned w = Some (Inr (), burned', w')"
  shows "\<exists>new. burned' = burned @ new \<and> int (length new) = bc_Copies cfg
    \<and> (\<forall>b \<in> set new. \<exists>input. bi_ISOPath input = bc_ISOPath cfg
         \<and> (\<exists>z z'. do_burn acts input z = (Inr b, z'))
         \<and> (\<exists>z z'. do_verify acts (bi_Device input) (bc_ManifestPath cfg) z = (Inr (), z')))"
proof -
  obtain sets where s: "planBurnSets (bc_Copies cfg) (bc_Drives cfg) = Some (Inr sets)"
    "burn_sets_from acts pick rt explain cfg 0 (length sets) sets burned w = Some (Inr (), burned', w')"
    using assms by (auto simp: runBurnPath_def split: option.splits sum.splits)
  have "length (concat sets) = nat (bc_Copies cfg)"
    using planBurnSets_ok [OF s(1)] by (metis diff_zero length_map length_upt)
  moreover have "0 \<le> bc_Copies cfg" using s(1) by (auto simp: planBurnSets_def split: if_splits)
  moreover obtain new where "burned' = burned @ new" "length new = length (concat sets)"
    "\<forall>b \<in> set new. \<exists>input. burned_and_verified acts (bc_ManifestPath cfg) input b \<and> bi_ISOPath input = bc_ISOPath cfg"
    using burn_sets_from_ok [OF s(2)] unfolding discs_ok_def by blast
  ultimately show ?thesis unfolding burned_and_verified_def by (intro exI [of _ new]) force
qed

definition example_burn_activities :: "(nat, string) burn_activities" where
  "example_burn_activities =
     \<lparr> do_burn = (\<lambda>input z. (Inr \<lparr> br_Device = bi_Device input, br_OverwroteNonBlank = False \<rparr>, Suc z)),
       do_verify = (\<lambda>device manifest z. if z = 1 then (Inl ''read error'', Suc z) else (Inr (), Suc z)) \<rparr>"

definition example_runtime :: "(nat, string) runtime" where
  "example_runtime = \<lparr> rt_alert = (\<lambda>a z. ((0, 0), z)), rt_select = (\<lambda>t z. (ResumeSignal, z)),
     rt_station_wait = (\<lambda>t z. (StationResume, z)) \<rparr>"

definition example_burn_config :: burn_config where
  "example_burn_config = \<lparr> bc_Copies = 3, bc_Drives = [''/dev/sr0'', ''/dev/sr1''], bc_AllowNonBlankDiscs = False,
     bc_ISOPath = ''/staging/recovery.iso'', bc_ManifestPath = ''/staging/manifest'', bc_WaitTimeout = 10 \<rparr>"

text \<open>The first verification fails; the operator resumes every pause.\<close>

lemma burn_path_burns_every_copy_witness:
  "\<exists>new w'. runBurnPath example_burn_activities (\<lambda>p. 0) example_runtime (\<lambda>f. ''failed'') example_burn_config []
      \<lparr> w_resume = 0, w_abort = 0, w_env = 0 \<rparr> = Some (Inr (), new, w') \<and> length new = 3"
proof -
  obtain new w' where r: "runBurnPath example_burn_activities (\<lambda>p. 0) example_runtime (\<lambda>f. ''failed'') example_burn_config []
      \<lparr> w_resume = 0, w_abort = 0, w_env = 0 \<rparr> = Some (Inr (), new, w')"
    by (simp add: runBurnPath_def planBurnSets_def example_burn_config_def upt_rec runBurnSet.simps burnDiscSet_def
        run_pool.simps burn_step_def burn_input_def example_burn_activities_def example_runtime_def Let_def
        waitForBurnOperator_def operator_pause_def waitForPauseCleared_def alert_operator_def
        drainStalePauseSignals_def retryBurnSet_def devicesOf_def devicesOfFailed_def)
  from burn_path_burns_every_copy [OF r] r show ?thesis by (auto simp: example_burn_config_def)
qed

end
