(* ===== verification/TapeWrite.thy ===== *)
theory TapeWrite
  imports Label Types GoFloat "HOL-Library.Monad_Syntax"
begin

text \<open>
  Writing one tape: \<open>workflows/backup/write.go\<close> (the files of a tape and its manifest, the copy) and
  the activities of \<open>session.go\<close> with the registry of live mounts they share, \<open>writehealth.go\<close>'s
  verdict and the timeouts. The file system, LTFS mounts and the JSON encoder are parameters.
  \<open>filepath.Join\<close> of a clean directory and a plain name only puts a slash between them.
\<close>

section \<open>The files of a tape\<close>

record TapeWriteArchive =
  tw_SourceIndex :: nat
  tw_Label :: string
  tw_Slices :: "StagedSlice list"
  tw_PAR2Files :: "StagedSlice list"

record ManifestFile =
  mf_TapePath :: string
  mf_SHA256 :: string
  mf_SizeBytes :: int

record ArchiveManifest =
  am_SourceIndex :: nat
  am_Files :: "ManifestFile list"
  am_PAR2Files :: "ManifestFile list"

record TapeManifest =
  tm_Barcode :: string
  tm_TapeIndex :: nat
  tm_CopyIndex :: nat
  tm_Archives :: "ArchiveManifest list"

definition manifestName :: string where "manifestName = ''manifest.json''"

definition manifest_file :: "string \<Rightarrow> StagedSlice \<Rightarrow> ManifestFile" where
  "manifest_file dir f = \<lparr> mf_TapePath = path_join dir (path_Base (sl_Path f)), mf_SHA256 = sl_SHA256 f,
     mf_SizeBytes = sl_SizeBytes f \<rparr>"

definition buildManifest :: "string \<Rightarrow> nat \<Rightarrow> nat \<Rightarrow> TapeWriteArchive list \<Rightarrow> TapeManifest" where
  "buildManifest barcode tapeIndex copyIndex archives =
     \<lparr> tm_Barcode = barcode, tm_TapeIndex = tapeIndex, tm_CopyIndex = copyIndex,
       tm_Archives = map (\<lambda>a. let dir = archiveDirName (tw_SourceIndex a) (tw_Label a) in
         \<lparr> am_SourceIndex = tw_SourceIndex a, am_Files = map (manifest_file dir) (tw_Slices a),
           am_PAR2Files = map (manifest_file dir) (tw_PAR2Files a) \<rparr>) archives \<rparr>"

datatype assemble_error = TapeIndexOutOfRange nat nat | NoStagedSlices nat nat | NoRecoverySet nat nat

definition by_index :: "('a \<Rightarrow> nat) \<Rightarrow> 'a list \<Rightarrow> nat \<rightharpoonup> 'a" where
  "by_index key xs = foldl (\<lambda>m x. m(key x \<mapsto> x)) Map.empty xs"

definition archivesForTape ::
  "TapePlan \<Rightarrow> StagedArchive list \<Rightarrow> PAR2Set list \<Rightarrow> ResolvedArchive list \<Rightarrow> nat
     \<Rightarrow> assemble_error + TapeWriteArchive list" where
  "archivesForTape plan staged par2 resolved tapeIndex =
     (if tapeIndex \<ge> length (tp_Tapes plan) then Inl (TapeIndexOutOfRange tapeIndex (length (tp_Tapes plan)))
      else mapE (\<lambda>placement.
        case by_index sa_SourceIndex staged (pa_SourceIndex placement) of
          None \<Rightarrow> Inl (NoStagedSlices tapeIndex (pa_SourceIndex placement))
        | Some s \<Rightarrow> (case by_index ps_SourceIndex par2 (pa_SourceIndex placement) of
            None \<Rightarrow> Inl (NoRecoverySet tapeIndex (pa_SourceIndex placement))
          | Some p \<Rightarrow> Inr \<lparr> tw_SourceIndex = pa_SourceIndex placement,
              tw_Label = (case by_index ra_SourceIndex resolved (pa_SourceIndex placement) of
                 None \<Rightarrow> [] | Some r \<Rightarrow> ra_Label r),
              tw_Slices = sa_Slices s, tw_PAR2Files = ps_Files p \<rparr>)) (pt_Archives (tp_Tapes plan ! tapeIndex)))"

definition tapeWrittenBytes :: "TapeWriteArchive list \<Rightarrow> int" where
  "tapeWrittenBytes archives =
     foldl (\<lambda>tot a. foldl (\<lambda>t f. t + sl_SizeBytes f)
        (foldl (\<lambda>t f. t + sl_SizeBytes f) tot (tw_Slices a)) (tw_PAR2Files a)) 0 archives"

section \<open>The copy\<close>

text \<open>The file system of the data worker with open handles \<open>'h\<close>; contents are \<open>'c\<close>.\<close>

record ('z, 'e, 'h, 'c) tape_fs =
  fs_CtxErr :: "'z \<Rightarrow> 'e option \<times> 'z"
  fs_MkdirAll :: "string \<Rightarrow> 'z \<Rightarrow> ('e + unit) \<times> 'z"
  fs_Open :: "string \<Rightarrow> 'z \<Rightarrow> ('e + 'h) \<times> 'z"
  fs_CreateExcl :: "string \<Rightarrow> 'z \<Rightarrow> ('e + 'h) \<times> 'z"
  fs_IOCopy :: "'h \<Rightarrow> 'h \<Rightarrow> 'z \<Rightarrow> ('e + unit) \<times> 'z"
  fs_Close :: "'h \<Rightarrow> 'z \<Rightarrow> ('e + unit) \<times> 'z"
  fs_WriteFile :: "string \<Rightarrow> 'c \<Rightarrow> 'z \<Rightarrow> ('e + unit) \<times> 'z"

datatype 'e copy_error =
  CopyCancelled 'e
| CreateDir string 'e
| OpenSource string 'e
| CreateDestination string 'e
| CopyData 'e
| CloseDestination string 'e

text \<open>The deferred closes after a failure are ignored by the code; they are the handles' last use.\<close>

definition copyFile ::
  "('z, 'e, 'h, 'c) tape_fs \<Rightarrow> string \<Rightarrow> string \<Rightarrow> 'z \<Rightarrow> ('e copy_error + unit) \<times> 'z" where
  "copyFile fs src dst z =
     (case fs_Open fs src z of
        (Inl e, z1) \<Rightarrow> (Inl (OpenSource src e), z1)
      | (Inr in0, z1) \<Rightarrow> (case fs_CreateExcl fs dst z1 of
          (Inl e, z2) \<Rightarrow> (Inl (CreateDestination dst e), snd (fs_Close fs in0 z2))
        | (Inr out, z2) \<Rightarrow> (case fs_IOCopy fs out in0 z2 of
            (Inl e, z3) \<Rightarrow> (Inl (CopyData e), snd (fs_Close fs in0 (snd (fs_Close fs out z3))))
          | (Inr _, z3) \<Rightarrow> (case fs_Close fs out z3 of
              (Inl e, z4) \<Rightarrow> (Inl (CloseDestination dst e), snd (fs_Close fs in0 (snd (fs_Close fs out z4))))
            | (Inr _, z4) \<Rightarrow> (Inr (), snd (fs_Close fs in0 (snd (fs_Close fs out z4))))))))"

fun copy_files ::
  "('z, 'e, 'h, 'c) tape_fs \<Rightarrow> string \<Rightarrow> StagedSlice list \<Rightarrow> 'z \<Rightarrow> ('e copy_error + unit) \<times> 'z" where
  "copy_files fs dir [] z = (Inr (), z)"
| "copy_files fs dir (f # files) z =
     (case fs_CtxErr fs z of
        (Some e, z1) \<Rightarrow> (Inl (CopyCancelled e), z1)
      | (None, z1) \<Rightarrow> (case copyFile fs (sl_Path f) (path_join dir (path_Base (sl_Path f))) z1 of
          (Inl e, z2) \<Rightarrow> (Inl e, z2)
        | (Inr _, z2) \<Rightarrow> copy_files fs dir files z2))"

fun copyTape ::
  "('z, 'e, 'h, 'c) tape_fs \<Rightarrow> string \<Rightarrow> TapeWriteArchive list \<Rightarrow> 'z \<Rightarrow> ('e copy_error + unit) \<times> 'z" where
  "copyTape fs mountpoint [] z = (Inr (), z)"
| "copyTape fs mountpoint (a # archives) z =
     (let dir = path_join mountpoint (archiveDirName (tw_SourceIndex a) (tw_Label a)) in
      case fs_MkdirAll fs dir z of
        (Inl e, z1) \<Rightarrow> (Inl (CreateDir dir e), z1)
      | (Inr _, z1) \<Rightarrow> (case copy_files fs dir (tw_Slices a @ tw_PAR2Files a) z1 of
          (Inl e, z2) \<Rightarrow> (Inl e, z2)
        | (Inr _, z2) \<Rightarrow> copyTape fs mountpoint archives z2))"

definition writeManifest ::
  "('z, 'e, 'h, 'c) tape_fs \<Rightarrow> (TapeManifest \<Rightarrow> 'c) \<Rightarrow> string \<Rightarrow> TapeManifest \<Rightarrow> 'z \<Rightarrow> ('e + unit) \<times> 'z" where
  "writeManifest fs encode mountpoint manifest z =
     fs_WriteFile fs (path_join mountpoint manifestName) (encode manifest) z"

section \<open>The registry of live mounts\<close>

record 'm mountEntry =
  me_mount :: 'm
  me_unmounted :: bool

type_synonym 'm registry = "string \<rightharpoonup> 'm mountEntry"

definition Put :: "string \<Rightarrow> 'm \<Rightarrow> 'm registry \<Rightarrow> 'm registry" where
  "Put device mount r = r(device \<mapsto> \<lparr> me_mount = mount, me_unmounted = False \<rparr>)"

definition Get :: "string \<Rightarrow> 'm registry \<Rightarrow> 'm option" where
  "Get device r = map_option me_mount (r device)"

definition getEntry :: "string \<Rightarrow> 'm registry \<Rightarrow> ('m \<times> bool) option" where
  "getEntry device r = map_option (\<lambda>e. (me_mount e, me_unmounted e)) (r device)"

definition MarkUnmounted :: "string \<Rightarrow> 'm registry \<Rightarrow> 'm registry" where
  "MarkUnmounted device r = (case r device of None \<Rightarrow> r | Some e \<Rightarrow> r(device \<mapsto> e\<lparr> me_unmounted := True \<rparr>))"

definition Delete :: "string \<Rightarrow> 'm registry \<Rightarrow> 'm registry" where
  "Delete device r = r(device := None)"

text \<open>An LTFS mount and what the activities do with it.\<close>

record ('z, 'e, 'm, 'c) ltfs =
  lt_Format :: "string \<Rightarrow> string \<Rightarrow> 'z \<Rightarrow> ('e + unit) \<times> 'z"
  lt_Mount :: "string \<Rightarrow> string \<Rightarrow> string \<Rightarrow> 'z \<Rightarrow> ('e + 'm) \<times> 'z"
  lt_Mountpoint :: "'m \<Rightarrow> string"
  lt_Unmount :: "'m \<Rightarrow> 'z \<Rightarrow> ('e + unit) \<times> 'z"
  lt_Abort :: "'m \<Rightarrow> 'z \<Rightarrow> ('e + unit) \<times> 'z"
  lt_ReadIndex :: "'m \<Rightarrow> 'z \<Rightarrow> ('e + 'c) \<times> 'z"

datatype 'e teardown_error = UnmountFailed string 'e | UnmountAndAbortFailed string 'e 'e

text \<open>\<open>Teardown\<close> in the order the map is ranged over, its devices given as a list.\<close>

fun Teardown ::
  "('z, 'e, 'm, 'c) ltfs \<Rightarrow> string list \<Rightarrow> 'm registry \<Rightarrow> 'z \<Rightarrow> 'e teardown_error list \<times> 'm registry \<times> 'z" where
  "Teardown l [] r z = ([], r, z)"
| "Teardown l (device # devices) r z =
     (case r device of
        None \<Rightarrow> Teardown l devices r z
      | Some entry \<Rightarrow>
          if me_unmounted entry then Teardown l devices (Delete device r) z
          else (case lt_Unmount l (me_mount entry) z of
              (Inr _, z1) \<Rightarrow> Teardown l devices (Delete device r) z1
            | (Inl e, z1) \<Rightarrow> (case lt_Abort l (me_mount entry) z1 of
                (Inr _, z2) \<Rightarrow> let (errs, r', z3) = Teardown l devices (Delete device r) z2
                              in (UnmountFailed device e # errs, r', z3)
              | (Inl e', z2) \<Rightarrow> let (errs, r', z3) = Teardown l devices (Delete device r) z2
                              in (UnmountAndAbortFailed device e e' # errs, r', z3))))"

section \<open>The activities\<close>

definition FormatTape :: "('z, 'e, 'm, 'c) ltfs \<Rightarrow> string \<Rightarrow> string \<Rightarrow> 'z \<Rightarrow> ('e + unit) \<times> 'z" where
  "FormatTape l device barcode z = lt_Format l device barcode z"

record WriteTreeInput =
  wi_Device :: string
  wi_Barcode :: string
  wi_TapeIndex :: nat
  wi_CopyIndex :: nat
  wi_Archives :: "TapeWriteArchive list"

datatype 'e write_tree_error = MountFailed string 'e | CopyFailed string "'e copy_error" | ManifestFailed string 'e

text \<open>The result is the streaming time, from a clock read around the copy.\<close>

definition WriteTree ::
  "('z, 'e, 'm, 'c) ltfs \<Rightarrow> ('z, 'e, 'h, 'c) tape_fs \<Rightarrow> (TapeManifest \<Rightarrow> 'c) \<Rightarrow> ('z \<Rightarrow> int \<times> 'z) \<Rightarrow> string
     \<Rightarrow> WriteTreeInput \<Rightarrow> 'm registry \<times> 'z \<Rightarrow> ('e write_tree_error + int) \<times> 'm registry \<times> 'z" where
  "WriteTree l fs encode now stagingDir input s =
     (let (r, z) = s; barcode = wi_Barcode input;
          mountDir = path_join (path_join stagingDir ''mounts'') barcode;
          workDir = path_join (path_join stagingDir ''work'') barcode in
      case lt_Mount l (wi_Device input) mountDir workDir z of
        (Inl e, z1) \<Rightarrow> (Inl (MountFailed (wi_Device input) e), r, z1)
      | (Inr mount, z1) \<Rightarrow>
          (let r' = Put (wi_Device input) mount r; (copyStart, z2) = now z1 in
           case copyTape fs (lt_Mountpoint l mount) (wi_Archives input) z2 of
             (Inl e, z3) \<Rightarrow> (Inl (CopyFailed barcode e), r', z3)
           | (Inr _, z3) \<Rightarrow>
               (let (copyEnd, z4) = now z3;
                    manifest = buildManifest barcode (wi_TapeIndex input) (wi_CopyIndex input) (wi_Archives input) in
                case writeManifest fs encode (lt_Mountpoint l mount) manifest z4 of
                  (Inl e, z5) \<Rightarrow> (Inl (ManifestFailed barcode e), r', z5)
                | (Inr _, z5) \<Rightarrow> (Inr (copyEnd - copyStart), r', z5))))"

datatype 'e finalize_error =
  MountLost string
| UnmountVolume string 'e
| ReadIndexFailed string 'e
| StageMkdir string 'e
| StageWrite string 'e

definition stageIndex ::
  "('z, 'e, 'h, 'c) tape_fs \<Rightarrow> string \<Rightarrow> string \<Rightarrow> 'c \<Rightarrow> 'z \<Rightarrow> ('e finalize_error + string) \<times> 'z" where
  "stageIndex fs stagingDir barcode index z =
     (let dir = path_join stagingDir ''indexes'' in
      case fs_MkdirAll fs dir z of
        (Inl e, z1) \<Rightarrow> (Inl (StageMkdir dir e), z1)
      | (Inr _, z1) \<Rightarrow>
          (let path = path_join dir (barcode @ ''.xml'') in
           case fs_WriteFile fs path index z1 of
             (Inl e, z2) \<Rightarrow> (Inl (StageWrite path e), z2) | (Inr _, z2) \<Rightarrow> (Inr path, z2)))"

text \<open>What follows a successful or earlier unmount.\<close>

definition finalize_index ::
  "('z, 'e, 'm, 'c) ltfs \<Rightarrow> ('z, 'e, 'h, 'c) tape_fs \<Rightarrow> string \<Rightarrow> string \<Rightarrow> string \<Rightarrow> 'm
     \<Rightarrow> 'm registry \<times> 'z \<Rightarrow> ('e finalize_error + string) \<times> 'm registry \<times> 'z" where
  "finalize_index l fs stagingDir device barcode mount s =
     (let (r, z) = s in
      case lt_ReadIndex l mount z of
        (Inl e, z1) \<Rightarrow> (Inl (ReadIndexFailed device e), r, z1)
      | (Inr index, z1) \<Rightarrow> (case stageIndex fs stagingDir barcode index z1 of
          (Inl e, z2) \<Rightarrow> (Inl e, r, z2)
        | (Inr path, z2) \<Rightarrow> (Inr path, Delete device r, z2)))"

definition FinalizeTape ::
  "('z, 'e, 'm, 'c) ltfs \<Rightarrow> ('z, 'e, 'h, 'c) tape_fs \<Rightarrow> string \<Rightarrow> string \<Rightarrow> string
     \<Rightarrow> 'm registry \<times> 'z \<Rightarrow> ('e finalize_error + string) \<times> 'm registry \<times> 'z" where
  "FinalizeTape l fs stagingDir device barcode s =
     (let (r, z) = s in
      case getEntry device r of
        None \<Rightarrow> (Inl (MountLost device), r, z)
      | Some (mount, unmounted) \<Rightarrow>
          if unmounted then finalize_index l fs stagingDir device barcode mount (r, z)
          else (case lt_Unmount l mount z of
              (Inl e, z1) \<Rightarrow> (Inl (UnmountVolume device e), r, z1)
            | (Inr _, z1) \<Rightarrow>
                finalize_index l fs stagingDir device barcode mount (MarkUnmounted device r, z1)))"

text \<open>
  Temporal's retries of an activity: up to \<open>n\<close> attempts, stopping at a success or at an error the
  activity marks as non-retryable (\<open>mount-lost\<close>).
\<close>

fun attempts :: "nat \<Rightarrow> ('e \<Rightarrow> bool) \<Rightarrow> ('s \<Rightarrow> ('e + 'a) \<times> 's) \<Rightarrow> 's \<Rightarrow> ('e + 'a) \<times> 's" where
  "attempts 0 final act s = act s"
| "attempts (Suc n) final act s =
     (case act s of
        (Inr a, s1) \<Rightarrow> (Inr a, s1)
      | (Inl e, s1) \<Rightarrow> if final e \<or> n = 0 then (Inl e, s1) else attempts n final act s1)"

definition mount_lost :: "'e finalize_error \<Rightarrow> bool" where
  "mount_lost e = (case e of MountLost d \<Rightarrow> True | _ \<Rightarrow> False)"

definition finalize_with_retries ::
  "('z, 'e, 'm, 'c) ltfs \<Rightarrow> ('z, 'e, 'h, 'c) tape_fs \<Rightarrow> string \<Rightarrow> string \<Rightarrow> string
     \<Rightarrow> 'm registry \<times> 'z \<Rightarrow> ('e finalize_error + string) \<times> 'm registry \<times> 'z" where
  "finalize_with_retries l fs stagingDir device barcode =
     attempts 3 mount_lost (FinalizeTape l fs stagingDir device barcode)"

section \<open>Barcodes\<close>

datatype barcode_error = EmptyBarcode nat | DuplicateBarcode string "nat list"

definition drives_of :: "string \<Rightarrow> LoadedTape list \<Rightarrow> nat list" where
  "drives_of b loaded = map lt_DriveIndex (filter (\<lambda>lt. lt_Barcode lt = b) loaded)"

definition validateBarcodes :: "LoadedTape list \<Rightarrow> barcode_error list" where
  "validateBarcodes loaded =
     map (\<lambda>lt. EmptyBarcode (lt_DriveIndex lt)) (filter (\<lambda>lt. lt_Barcode lt = []) loaded)
     @ map (\<lambda>b. DuplicateBarcode b (drives_of b loaded))
         (filter (\<lambda>b. length (drives_of b loaded) > 1)
            (first_seen (\<lambda>b. b \<noteq> []) [] (map lt_Barcode loaded)))"

section \<open>Write health and timeouts\<close>

definition ltoGeneration :: "int \<Rightarrow> string" where
  "ltoGeneration capacityBytes =
     (if capacityBytes \<ge> 16000000000000 then ''LTO-9''
      else if capacityBytes \<ge> 10000000000000 then ''LTO-8''
      else if capacityBytes \<ge> 5000000000000 then ''LTO-7''
      else if capacityBytes \<ge> 2000000000000 then ''LTO-6''
      else if capacityBytes \<ge> 1200000000000 then ''LTO-5''
      else ''unknown (native capacity '' @ itoa_int capacityBytes @ '' bytes)'')"

definition speedMatchingFloorsMBps :: "(string \<times> rat) list" where
  "speedMatchingFloorsMBps = [(''LTO-5'', 40), (''LTO-6'', 50), (''LTO-7'', 100), (''LTO-8'', 112), (''LTO-9'', 180)]"

definition writeHealthFloor :: "int \<Rightarrow> rat option" where
  "writeHealthFloor capacityBytes = map_of speedMatchingFloorsMBps (ltoGeneration capacityBytes)"

definition bytesPerMB :: rat where "bytesPerMB = 1000000"

definition minMeasurableWriteBytes :: int where "minMeasurableWriteBytes = 1000000000"

definition itoa_int :: "int \<Rightarrow> string" where
  "itoa_int n = (if n < 0 then ''-'' @ itoa (nat (- n)) else itoa (nat n))"

definition tapeAlertLabel :: "TapeAlertFlag \<Rightarrow> string" where
  "tapeAlertLabel flag =
     (if taf_Description flag \<noteq> [] then itoa_int (taf_Number flag) @ '': '' @ taf_Description flag
      else ''flag '' @ itoa_int (taf_Number flag))"

text \<open>\<open>Duration.Seconds\<close> adds the whole seconds and the fraction, each a \<open>float64\<close>.\<close>

definition Seconds :: "int \<Rightarrow> rat" where
  "Seconds d = fadd (float64 (d sdiv 10 ^ 9)) (fdiv (float64 (d smod 10 ^ 9)) (10 ^ 9))"

definition evaluateWriteHealth :: "int \<Rightarrow> int \<Rightarrow> LogPageResult \<Rightarrow> rat option \<Rightarrow> WriteHealth" where
  "evaluateWriteHealth bytesWritten elapsed logs floorMBps =
     (let health = \<lparr> wh_Measured = True, wh_ThroughputMBps = 0, wh_ThroughputUnmeasurable = False,
            wh_FloorMBps = (case floorMBps of None \<Rightarrow> 0 | Some f \<Rightarrow> f), wh_FloorKnown = (floorMBps \<noteq> None),
            wh_BelowFloor = False, wh_Repositions = lpr_Repositions logs,
            wh_RepositionsMeasured = lpr_RepositionsMeasured logs,
            wh_TapeAlertFlags = map tapeAlertLabel (filter taf_Set (lpr_TapeAlert logs)) \<rparr>;
          seconds = Seconds elapsed in
      if seconds \<le> 0 \<or> bytesWritten < minMeasurableWriteBytes then health\<lparr> wh_ThroughputUnmeasurable := True \<rparr>
      else
        let throughput = fdiv (fdiv (float64 bytesWritten) bytesPerMB) seconds in
        health\<lparr> wh_ThroughputMBps := throughput,
          wh_BelowFloor := (case floorMBps of None \<Rightarrow> False | Some f \<Rightarrow> throughput < f) \<rparr>)"

definition defaultWriteTapeTimeout :: int where "defaultWriteTapeTimeout = 48 * 3600 * 10 ^ 9"

definition perTapeWriteTimeout :: "int \<Rightarrow> int" where
  "perTapeWriteTimeout capacityBytes =
     (case writeHealthFloor capacityBytes of
        None \<Rightarrow> defaultWriteTapeTimeout
      | Some floorMBps \<Rightarrow>
          if capacityBytes \<le> 0 \<or> floorMBps \<le> 0 then defaultWriteTapeTimeout
          else
            let floorSeconds = fdiv (float64 capacityBytes) (fmul floorMBps bytesPerMB) in
            math_Trunc (fmul (fmul floorSeconds 2) (10 ^ 9)))"

definition writeSessionTimeout :: "int \<Rightarrow> int" where
  "writeSessionTimeout capacityBytes = perTapeWriteTimeout capacityBytes + 2 * 3600 * 10 ^ 9"

section \<open>What is on a written tape\<close>

text \<open>
  The documented behaviour of the file system, for successful calls: \<open>volume\<close> maps paths to
  contents, \<open>staged\<close> gives the contents of the staged files, which nothing here writes, and a
  handle knows its path.
\<close>

definition volume_laws ::
  "('z, 'e, 'h, 'c) tape_fs \<Rightarrow> ('z \<Rightarrow> string \<rightharpoonup> 'c) \<Rightarrow> (string \<Rightarrow> 'c) \<Rightarrow> ('h \<Rightarrow> string) \<Rightarrow> bool" where
  "volume_laws fs volume staged path_of \<longleftrightarrow>
     (\<forall>z. volume (snd (fs_CtxErr fs z)) = volume z)
     \<and> (\<forall>p z. volume (snd (fs_MkdirAll fs p z)) = volume z)
     \<and> (\<forall>h z. volume (snd (fs_Close fs h z)) = volume z)
     \<and> (\<forall>p z h z'. fs_Open fs p z = (Inr h, z') \<longrightarrow> path_of h = p \<and> volume z' = volume z)
     \<and> (\<forall>p z h z'. fs_CreateExcl fs p z = (Inr h, z') \<longrightarrow>
          path_of h = p \<and> volume z p = None \<and> (\<exists>c. volume z' = (volume z)(p \<mapsto> c)))
     \<and> (\<forall>out in0 z u z'. fs_IOCopy fs out in0 z = (Inr u, z') \<longrightarrow>
          volume z' = (volume z)(path_of out \<mapsto> staged (path_of in0)))
     \<and> (\<forall>p c z u z'. fs_WriteFile fs p c z = (Inr u, z') \<longrightarrow> volume z' = (volume z)(p \<mapsto> c))"

lemma volume_lawsD:
  assumes "volume_laws fs volume staged path_of"
  shows "fs_CtxErr fs z = (r1, z') \<Longrightarrow> volume z' = volume z"
    "fs_MkdirAll fs p z = (r2, z') \<Longrightarrow> volume z' = volume z"
    "volume (snd (fs_Close fs h z)) = volume z"
    "fs_Close fs h z = (r2, z') \<Longrightarrow> volume z' = volume z"
    "fs_Open fs p z = (Inr h, z') \<Longrightarrow> path_of h = p \<and> volume z' = volume z"
    "fs_CreateExcl fs p z = (Inr h, z') \<Longrightarrow>
       path_of h = p \<and> volume z p = None \<and> (\<exists>c. volume z' = (volume z)(p \<mapsto> c))"
    "fs_IOCopy fs out in0 z = (Inr u, z') \<Longrightarrow> volume z' = (volume z)(path_of out \<mapsto> staged (path_of in0))"
    "fs_WriteFile fs p c z = (Inr u, z') \<Longrightarrow> volume z' = (volume z)(p \<mapsto> c)"
  using assms unfolding volume_laws_def by (metis snd_conv | blast)+

lemma copyFile_ok:
  assumes l: "volume_laws fs volume staged path_of" and c: "copyFile fs src dst z = (Inr u, z')"
  shows "volume z dst = None \<and> volume z' = (volume z)(dst \<mapsto> staged src)"
proof -
  obtain in0 z1 where o: "fs_Open fs src z = (Inr in0, z1)"
    using c by (auto simp: copyFile_def split: prod.splits sum.splits)
  obtain out z2 where k: "fs_CreateExcl fs dst z1 = (Inr out, z2)"
    using c o by (auto simp: copyFile_def split: prod.splits sum.splits)
  obtain v z3 where i: "fs_IOCopy fs out in0 z2 = (Inr v, z3)"
    using c o k by (auto simp: copyFile_def split: prod.splits sum.splits)
  obtain w z4 where x: "fs_Close fs out z3 = (Inr w, z4)"
    using c o k i by (auto simp: copyFile_def split: prod.splits sum.splits)
  have "z' = snd (fs_Close fs in0 (snd (fs_Close fs out z4)))" using c o k i x by (simp add: copyFile_def)
  then show ?thesis
    using volume_lawsD(5) [OF l o] volume_lawsD(6) [OF l k] volume_lawsD(7) [OF l i]
      volume_lawsD(4) [OF l x] volume_lawsD(3) [OF l] by auto
qed

lemma copy_files_ok:
  assumes l: "volume_laws fs volume staged path_of"
  shows "copy_files fs dir files z = (Inr u, z') \<Longrightarrow> volume z \<subseteq>\<^sub>m volume z'
    \<and> (\<forall>f \<in> set files. volume z' (path_join dir (path_Base (sl_Path f))) = Some (staged (sl_Path f)))"
proof (induction files arbitrary: z)
  case (Cons f files)
  obtain z1 where x: "fs_CtxErr fs z = (None, z1)"
    using Cons.prems by (auto split: prod.splits option.splits)
  obtain v z2 where c: "copyFile fs (sl_Path f) (path_join dir (path_Base (sl_Path f))) z1 = (Inr v, z2)"
    and rest: "copy_files fs dir files z2 = (Inr u, z')"
    using Cons.prems x by (auto split: prod.splits sum.splits)
  have "volume z1 = volume z" using volume_lawsD(1) [OF l x] .
  then have one: "volume z \<subseteq>\<^sub>m volume z2"
      "volume z2 (path_join dir (path_Base (sl_Path f))) = Some (staged (sl_Path f))"
    using copyFile_ok [OF l c] by (auto simp: map_le_def)
  then show ?case using Cons.IH [OF rest] map_le_trans [OF one(1)] by (auto simp: map_le_def dom_def)
qed simp

lemma copyTape_ok:
  assumes l: "volume_laws fs volume staged path_of"
  shows "copyTape fs mp archives z = (Inr u, z') \<Longrightarrow> volume z \<subseteq>\<^sub>m volume z'
    \<and> (\<forall>a \<in> set archives. \<forall>f \<in> set (tw_Slices a @ tw_PAR2Files a).
         volume z' (path_join (path_join mp (archiveDirName (tw_SourceIndex a) (tw_Label a))) (path_Base (sl_Path f)))
           = Some (staged (sl_Path f)))"
proof (induction archives arbitrary: z)
  case (Cons a archives)
  let ?dir = "path_join mp (archiveDirName (tw_SourceIndex a) (tw_Label a))"
  obtain w z1 where m: "fs_MkdirAll fs ?dir z = (Inr w, z1)"
    using Cons.prems by (auto simp: Let_def split: prod.splits sum.splits)
  obtain v z2 where c: "copy_files fs ?dir (tw_Slices a @ tw_PAR2Files a) z1 = (Inr v, z2)"
    and rest: "copyTape fs mp archives z2 = (Inr u, z')"
    using Cons.prems m by (auto simp: Let_def split: prod.splits sum.splits)
  have "volume z1 = volume z" using volume_lawsD(2) [OF l m] .
  then show ?case using copy_files_ok [OF l c] Cons.IH [OF rest] map_le_trans [of "volume z" "volume z2" "volume z'"]
    by (fastforce simp: map_le_def dom_def)
qed simp

lemma by_index_Some: "by_index key xs i = Some x \<Longrightarrow> x \<in> set xs \<and> key x = i"
proof -
  have "foldl (\<lambda>m x. m(key x \<mapsto> x)) m xs i = Some x \<Longrightarrow> m i = Some x \<or> x \<in> set xs \<and> key x = i" for m
    by (induction xs arbitrary: m) (fastforce split: if_splits)+
  then show "by_index key xs i = Some x \<Longrightarrow> x \<in> set xs \<and> key x = i" unfolding by_index_def by fastforce
qed

definition assembled :: "StagedArchive list \<Rightarrow> PAR2Set list \<Rightarrow> PlannedArchive \<Rightarrow> TapeWriteArchive \<Rightarrow> bool" where
  "assembled staged par2 p a \<longleftrightarrow> tw_SourceIndex a = pa_SourceIndex p
     \<and> (\<exists>s \<in> set staged. sa_SourceIndex s = pa_SourceIndex p \<and> tw_Slices a = sa_Slices s)
     \<and> (\<exists>q \<in> set par2. ps_SourceIndex q = pa_SourceIndex p \<and> tw_PAR2Files a = ps_Files q)"

lemma archivesForTape_ok:
  assumes "archivesForTape plan staged par2 resolved t = Inr archives"
  shows "t < length (tp_Tapes plan) \<and> list_all2 (assembled staged par2) (pt_Archives (tp_Tapes plan ! t)) archives"
proof -
  have t: "t < length (tp_Tapes plan)" using assms by (simp add: archivesForTape_def split: if_splits)
  show ?thesis
    using assms t unfolding archivesForTape_def
    by (simp add: mapE_Inr_iff) (erule list_all2_mono,
        fastforce simp: assembled_def dest: by_index_Some split: option.splits)
qed

lemma manifest_not_in_archives:
  "path_join mp manifestName \<noteq> path_join (path_join mp (archiveDirName i lbl)) base"
  by (simp add: path_join_def manifestName_def archiveDirName_def)

definition mount_point ::
  "('z, 'e, 'm, 'c) ltfs \<Rightarrow> 'm registry \<Rightarrow> string \<Rightarrow> string option" where
  "mount_point l r device = map_option (lt_Mountpoint l) (Get device r)"

text \<open>C8: A \<open>WriteTree\<close> that returns wrote the whole tape.\<close>

theorem written_tape_holds_its_archives:
  assumes laws: "volume_laws fs volume staged path_of" "\<And>z. volume (snd (now z)) = volume z"
    and plan: "archivesForTape plan stagedArchives par2 resolved t = Inr (wi_Archives input)"
    and tape: "t = wi_TapeIndex input"
    and run: "WriteTree l fs encode now stagingDir input (r, z) = (Inr d, r', z')"
  shows "t < length (tp_Tapes plan)
    \<and> list_all2 (assembled stagedArchives par2) (pt_Archives (tp_Tapes plan ! t)) (wi_Archives input)
    \<and> (\<exists>mp. mount_point l r' (wi_Device input) = Some mp
        \<and> volume z' (path_join mp manifestName) =
            Some (encode (buildManifest (wi_Barcode input) t (wi_CopyIndex input) (wi_Archives input)))
        \<and> (\<forall>a \<in> set (wi_Archives input). \<forall>f \<in> set (tw_Slices a @ tw_PAR2Files a).
             volume z' (path_join mp (mf_TapePath (manifest_file (archiveDirName (tw_SourceIndex a) (tw_Label a)) f)))
               = Some (staged (sl_Path f))))"
proof -
  obtain m z1 where m: "lt_Mount l (wi_Device input) (path_join (path_join stagingDir ''mounts'') (wi_Barcode input))
      (path_join (path_join stagingDir ''work'') (wi_Barcode input)) z = (Inr m, z1)"
    using run by (auto simp: WriteTree_def Let_def split: prod.splits sum.splits)
  obtain t0 z2 where n: "now z1 = (t0, z2)" by (metis surj_pair)
  let ?mp = "lt_Mountpoint l m"
  obtain u z3 where c: "copyTape fs ?mp (wi_Archives input) z2 = (Inr u, z3)"
    using run m n by (auto simp: WriteTree_def Let_def split: prod.splits sum.splits)
  obtain t1 z4 where n': "now z3 = (t1, z4)" by (metis surj_pair)
  have w: "fs_WriteFile fs (path_join ?mp manifestName)
      (encode (buildManifest (wi_Barcode input) t (wi_CopyIndex input) (wi_Archives input))) z4 = (Inr (), z')"
    and r': "r' = Put (wi_Device input) m r"
    using run m n c n' tape by (auto simp: WriteTree_def Let_def writeManifest_def split: prod.splits sum.splits)
  have "volume z4 = volume z3" using laws(2) [of z3] n' by simp
  with w have v: "volume z' = (volume z3)(path_join ?mp manifestName \<mapsto>
      encode (buildManifest (wi_Barcode input) t (wi_CopyIndex input) (wi_Archives input)))"
    using volume_lawsD(8) [OF laws(1) w] by simp
  have files: "volume z' (path_join ?mp (mf_TapePath (manifest_file (archiveDirName (tw_SourceIndex a) (tw_Label a)) f)))
      = Some (staged (sl_Path f))"
    if "a \<in> set (wi_Archives input)" "f \<in> set (tw_Slices a @ tw_PAR2Files a)" for a f
  proof -
    have "path_join ?mp (mf_TapePath (manifest_file (archiveDirName (tw_SourceIndex a) (tw_Label a)) f))
        = path_join (path_join ?mp (archiveDirName (tw_SourceIndex a) (tw_Label a))) (path_Base (sl_Path f))"
      by (simp add: manifest_file_def path_join_def)
    with copyTape_ok [OF laws(1) c] that manifest_not_in_archives [THEN not_sym] show ?thesis by (simp add: v)
  qed
  have "mount_point l r' (wi_Device input) = Some ?mp" by (simp add: mount_point_def Get_def r' Put_def)
  moreover have "volume z' (path_join ?mp manifestName) =
      Some (encode (buildManifest (wi_Barcode input) t (wi_CopyIndex input) (wi_Archives input)))" by (simp add: v)
  ultimately show ?thesis using archivesForTape_ok [OF plan] files by blast
qed

definition unmount_log ::
  "('z, 'e, 'm, 'c) ltfs \<Rightarrow> ('z, 'e, 'h, 'c) tape_fs \<Rightarrow> ('z \<Rightarrow> ('m \<times> bool) list) \<Rightarrow> bool" where
  "unmount_log l fs unmounts \<longleftrightarrow>
     (\<forall>m z. unmounts (snd (lt_Unmount l m z)) = unmounts z @ [(m, \<not> isl (fst (lt_Unmount l m z)))])
     \<and> (\<forall>m z. unmounts (snd (lt_ReadIndex l m z)) = unmounts z)
     \<and> (\<forall>p z. unmounts (snd (fs_MkdirAll fs p z)) = unmounts z)
     \<and> (\<forall>p c z. unmounts (snd (fs_WriteFile fs p c z)) = unmounts z)"

lemma finalize_index_step:
  assumes "unmount_log l fs unmounts" "finalize_index l fs stagingDir device barcode m (r, z) = (res, r', z')"
  shows "unmounts z' = unmounts z \<and> (if isl res then r' = r else r' = Delete device r)
    \<and> (\<forall>p. res = Inr p \<longrightarrow> p = path_join (path_join stagingDir ''indexes'') (barcode @ ''.xml''))
    \<and> (\<forall>e. res = Inl e \<longrightarrow> \<not> mount_lost e)"
  using assms unfolding unmount_log_def finalize_index_def stageIndex_def mount_lost_def
  by (auto simp: Let_def split: prod.splits sum.splits) (metis snd_conv)+

lemma FinalizeTape_step:
  assumes "unmount_log l fs unmounts" and r: "r device = Some \<lparr> me_mount = m, me_unmounted = u \<rparr>"
    and run: "FinalizeTape l fs stagingDir device barcode (r, z) = (res, r', z')"
  shows "\<exists>u'. unmounts z' = unmounts z @ (if u then [] else [(m, u')])
    \<and> (if isl res then r' = r(device \<mapsto> \<lparr> me_mount = m, me_unmounted = u \<or> u' \<rparr>)
       else r' = r(device := None) \<and> (u \<or> u')
         \<and> res = Inr (path_join (path_join stagingDir ''indexes'') (barcode @ ''.xml'')))
    \<and> (\<forall>e. res = Inl e \<longrightarrow> \<not> mount_lost e)"
proof (cases u)
  case True
  then have "finalize_index l fs stagingDir device barcode m (r, z) = (res, r', z')"
    using run r by (simp add: FinalizeTape_def getEntry_def)
  from finalize_index_step [OF assms(1) this] True r show ?thesis
    by (cases res) (auto simp: Delete_def)
next
  case False
  obtain q z1 where x: "lt_Unmount l m z = (q, z1)" by (metis surj_pair)
  have log: "unmounts z1 = unmounts z @ [(m, \<not> isl q)]" using assms(1) x unfolding unmount_log_def by (metis fst_conv snd_conv)
  show ?thesis
  proof (cases q)
    case (Inl e)
    then show ?thesis using run r x log False
      by (auto simp: FinalizeTape_def getEntry_def mount_lost_def intro!: exI [of _ False])
  next
    case (Inr _)
    then have "finalize_index l fs stagingDir device barcode m (MarkUnmounted device r, z1) = (res, r', z')"
      using run r x False by (simp add: FinalizeTape_def getEntry_def)
    from finalize_index_step [OF assms(1) this] show ?thesis using False r log Inr
      by (cases res) (auto simp: Delete_def MarkUnmounted_def intro!: exI [of _ True])
  qed
qed

lemma finalize_attempts:
  assumes log: "unmount_log l fs unmounts"
  shows "r device = Some \<lparr> me_mount = m, me_unmounted = u \<rparr>
    \<Longrightarrow> attempts (Suc n) mount_lost (FinalizeTape l fs stagingDir device barcode) (r, z) = (res, r', z')
    \<Longrightarrow> \<exists>k u'. unmounts z' = unmounts z @ replicate k (m, False) @ (if u' then [(m, True)] else [])
      \<and> k + of_bool u' \<le> Suc n \<and> (u \<longrightarrow> k = 0 \<and> \<not> u')
      \<and> (if isl res then r' = r(device \<mapsto> \<lparr> me_mount = m, me_unmounted = u \<or> u' \<rparr>)
         else r' = r(device := None) \<and> (u \<or> u')
           \<and> res = Inr (path_join (path_join stagingDir ''indexes'') (barcode @ ''.xml'')))"
proof (induction n arbitrary: r z u)
  case 0
  have "FinalizeTape l fs stagingDir device barcode (r, z) = (res, r', z')"
    using 0(2) by (auto split: prod.splits sum.splits)
  from FinalizeTape_step [OF log 0(1) this] obtain u' where
    "unmounts z' = unmounts z @ (if u then [] else [(m, u')])"
    "if isl res then r' = r(device \<mapsto> \<lparr> me_mount = m, me_unmounted = u \<or> u' \<rparr>)
       else r' = r(device := None) \<and> (u \<or> u')
         \<and> res = Inr (path_join (path_join stagingDir ''indexes'') (barcode @ ''.xml''))" by blast
  then show ?case
    by (intro exI [of _ "if u \<or> u' then 0 else 1"] exI [of _ "\<not> u \<and> u'"]) (auto split: if_splits)
next
  case (Suc n)
  obtain res1 r1 z1 where f: "FinalizeTape l fs stagingDir device barcode (r, z) = (res1, r1, z1)" by (metis surj_pair)
  from FinalizeTape_step [OF log Suc.prems(1) f] obtain u' where s:
    "unmounts z1 = unmounts z @ (if u then [] else [(m, u')])"
    "if isl res1 then r1 = r(device \<mapsto> \<lparr> me_mount = m, me_unmounted = u \<or> u' \<rparr>)
       else r1 = r(device := None) \<and> (u \<or> u')
         \<and> res1 = Inr (path_join (path_join stagingDir ''indexes'') (barcode @ ''.xml''))"
    "\<forall>e. res1 = Inl e \<longrightarrow> \<not> mount_lost e" by blast
  show ?case
  proof (cases res1)
    case (Inl e)
    have "attempts (Suc n) mount_lost (FinalizeTape l fs stagingDir device barcode) (r1, z1) = (res, r', z')"
      using Suc.prems(2) f s(3) Inl by simp
    moreover have "r1 device = Some \<lparr> me_mount = m, me_unmounted = u \<or> u' \<rparr>" using s(2) Inl by simp
    ultimately obtain k v where k: "unmounts z' = unmounts z1 @ replicate k (m, False) @ (if v then [(m, True)] else [])"
      "k + of_bool v \<le> Suc n" "u \<or> u' \<longrightarrow> k = 0 \<and> \<not> v"
      "if isl res then r' = r1(device \<mapsto> \<lparr> me_mount = m, me_unmounted = (u \<or> u') \<or> v \<rparr>)
         else r' = r1(device := None) \<and> ((u \<or> u') \<or> v)
           \<and> res = Inr (path_join (path_join stagingDir ''indexes'') (barcode @ ''.xml''))"
      using Suc.IH by blast
    show ?thesis
    proof (cases "u \<or> u'")
      case True
      then show ?thesis using k s Inl
        by (intro exI [of _ 0] exI [of _ "\<not> u"]) (auto split: if_splits)
    next
      case False
      then show ?thesis using k s Inl
        by (intro exI [of _ "Suc k"] exI [of _ v]) (auto split: if_splits)
    qed
  next
    case (Inr p)
    then have "res = res1" "r' = r1" "z' = z1" using Suc.prems(2) f by auto
    then show ?thesis using s Inr
      by (intro exI [of _ 0] exI [of _ "\<not> u"]) (auto split: if_splits)
  qed
qed

text \<open>finalize once.\<close>

theorem finalize_unmounts_once:
  assumes log: "unmount_log l fs unmounts" and r: "r device = Some entry"
    and run: "finalize_with_retries l fs stagingDir device barcode (r, z) = (res, r', z')"
  shows "\<exists>k u'. unmounts z' = unmounts z @ replicate k (me_mount entry, False) @ (if u' then [(me_mount entry, True)] else [])
    \<and> k + of_bool u' \<le> 3 \<and> (me_unmounted entry \<longrightarrow> k = 0 \<and> \<not> u')
    \<and> (if isl res then r' = r(device \<mapsto> \<lparr> me_mount = me_mount entry, me_unmounted = me_unmounted entry \<or> u' \<rparr>)
       else r' = r(device := None) \<and> (me_unmounted entry \<or> u')
         \<and> res = Inr (path_join (path_join stagingDir ''indexes'') (barcode @ ''.xml'')))"
  using finalize_attempts [OF log, of r device "me_mount entry" "me_unmounted entry" 2 stagingDir barcode z res r' z']
    r run by (simp add: finalize_with_retries_def numeral_3_eq_3 numeral_2_eq_2)


section \<open>Concrete runs\<close>

text \<open>A world that is the volume itself: handles are paths and every staged file holds its own name.\<close>

definition plain_fs :: "(string \<rightharpoonup> string, string, string, string) tape_fs" where
  "plain_fs = \<lparr> fs_CtxErr = (\<lambda>z. (None, z)), fs_MkdirAll = (\<lambda>p z. (Inr (), z)), fs_Open = (\<lambda>p z. (Inr p, z)),
     fs_CreateExcl = (\<lambda>p z. if z p = None then (Inr p, z(p \<mapsto> [])) else (Inl ''exists'', z)),
     fs_IOCopy = (\<lambda>out in0 z. (Inr (), z(out \<mapsto> in0))), fs_Close = (\<lambda>h z. (Inr (), z)),
     fs_WriteFile = (\<lambda>p c z. (Inr (), z(p \<mapsto> c))) \<rparr>"

definition plain_ltfs :: "(string \<rightharpoonup> string, string, string, string) ltfs" where
  "plain_ltfs = \<lparr> lt_Format = (\<lambda>d b z. (Inr (), Map.empty)), lt_Mount = (\<lambda>d mountDir workDir z. (Inr mountDir, z)),
     lt_Mountpoint = (\<lambda>m. m), lt_Unmount = (\<lambda>m z. (Inr (), z)), lt_Abort = (\<lambda>m z. (Inr (), z)),
     lt_ReadIndex = (\<lambda>m z. (Inr ''index'', z)) \<rparr>"

lemma plain_fs_laws: "volume_laws plain_fs (\<lambda>z. z) (\<lambda>p. p) (\<lambda>h. h)"
  by (auto simp: volume_laws_def plain_fs_def split: if_splits)

definition one_file :: StagedSlice where
  "one_file = \<lparr> sl_Path = ''/s/a.0'', sl_SHA256 = ''x'', sl_SizeBytes = 1 \<rparr>"

definition one_archive :: TapeWriteArchive where
  "one_archive = \<lparr> tw_SourceIndex = 0, tw_Label = ''db'', tw_Slices = [one_file], tw_PAR2Files = [one_file\<lparr> sl_Path := ''/s/a.par2'' \<rparr>] \<rparr>"

definition one_plan :: TapePlan where
  "one_plan = \<lparr> tp_Copies = 1, tp_Tapes = [\<lparr> pt_Archives = [\<lparr> pa_SourceIndex = 0, pa_DataBytes = 1, pa_SliceCount = 1,
     pa_PAR2ReservedBytes = 1 \<rparr>], pt_UsableBytes = 10 \<rparr>] \<rparr>"

definition one_input :: WriteTreeInput where
  "one_input = \<lparr> wi_Device = ''/dev/st0'', wi_Barcode = ''T1'', wi_TapeIndex = 0, wi_CopyIndex = 0, wi_Archives = [one_archive] \<rparr>"

definition one_run :: "(string write_tree_error + int) \<times> string registry \<times> (string \<rightharpoonup> string)" where
  "one_run = WriteTree plain_ltfs plain_fs (\<lambda>m. tm_Barcode m) (\<lambda>z. (0, z)) ''/s'' one_input (Map.empty, Map.empty)"

lemma one_run_ok: "fst one_run = Inr 0"
  by (simp add: one_run_def one_input_def one_archive_def one_file_def plain_ltfs_def plain_fs_def WriteTree_def
      copyFile_def writeManifest_def path_join_def archiveDirName_def path_Base_def Let_def)

theorem written_tape_holds_its_archives_witness:
  "\<exists>mp. mount_point plain_ltfs (fst (snd one_run)) ''/dev/st0'' = Some mp
     \<and> snd (snd one_run) (path_join mp manifestName) = Some ''T1''"
proof -
  have "one_run = (Inr 0, fst (snd one_run), snd (snd one_run))" unfolding one_run_ok [symmetric] by simp
  then have r: "WriteTree plain_ltfs plain_fs (\<lambda>m. tm_Barcode m) (\<lambda>z. (0, z)) ''/s'' one_input (Map.empty, Map.empty)
      = (Inr 0, fst (snd one_run), snd (snd one_run))" unfolding one_run_def [symmetric] .
  have p: "archivesForTape one_plan [\<lparr> sa_SourceIndex = 0, sa_Slices = [one_file], sa_SizeBytes = 1 \<rparr>]
      [\<lparr> ps_SourceIndex = 0, ps_RedundancyPercent = 10, ps_Files = [one_file\<lparr> sl_Path := ''/s/a.par2'' \<rparr>] \<rparr>]
      [\<lparr> ra_SourceIndex = 0, ra_Label = ''db'', ra_Compression = False, ra_Snapshots = [], ra_EstimatedBytes = 1,
         ra_LogicalBytes = 1 \<rparr>] 0 = Inr (wi_Archives one_input)" by code_simp
  show ?thesis
    using written_tape_holds_its_archives [OF plain_fs_laws _ p _ r]
    by (auto simp: one_input_def buildManifest_def)
qed

text \<open>A first attempt whose unmount fails, a second one that succeeds; the state is the log.\<close>

definition flaky_fs :: "((string \<times> bool) list, string, string, string) tape_fs" where
  "flaky_fs = \<lparr> fs_CtxErr = (\<lambda>z. (None, z)), fs_MkdirAll = (\<lambda>p z. (Inr (), z)), fs_Open = (\<lambda>p z. (Inr p, z)),
     fs_CreateExcl = (\<lambda>p z. (Inr p, z)), fs_IOCopy = (\<lambda>out in0 z. (Inr (), z)), fs_Close = (\<lambda>h z. (Inr (), z)),
     fs_WriteFile = (\<lambda>p c z. (Inr (), z)) \<rparr>"

definition flaky_ltfs :: "((string \<times> bool) list, string, string, string) ltfs" where
  "flaky_ltfs = \<lparr> lt_Format = (\<lambda>d b z. (Inr (), z)), lt_Mount = (\<lambda>d mountDir workDir z. (Inr mountDir, z)),
     lt_Mountpoint = (\<lambda>m. m), lt_Unmount = (\<lambda>m z. if z = [] then (Inl ''busy'', [(m, False)]) else (Inr (), z @ [(m, True)])),
     lt_Abort = (\<lambda>m z. (Inr (), z)), lt_ReadIndex = (\<lambda>m z. (Inr ''index'', z)) \<rparr>"

lemma flaky_log: "unmount_log flaky_ltfs flaky_fs (\<lambda>z. z)"
  by (simp add: unmount_log_def flaky_ltfs_def flaky_fs_def)

definition flaky_run :: "(string finalize_error + string) \<times> string registry \<times> (string \<times> bool) list" where
  "flaky_run = finalize_with_retries flaky_ltfs flaky_fs ''/s'' ''/dev/st0'' ''T1''
     ([''/dev/st0'' \<mapsto> \<lparr> me_mount = ''/s/mounts/T1'', me_unmounted = False \<rparr>], [])"

theorem finalize_unmounts_once_witness:
  "fst flaky_run = Inr ''/s/indexes/T1.xml'' \<and> fst (snd flaky_run) = Map.empty
     \<and> snd (snd flaky_run) = [(''/s/mounts/T1'', False), (''/s/mounts/T1'', True)]"
proof -
  have c: "fst flaky_run = Inr ''/s/indexes/T1.xml''" by code_simp
  have u: "snd (snd flaky_run) = [(''/s/mounts/T1'', False), (''/s/mounts/T1'', True)]" by code_simp
  have "finalize_with_retries flaky_ltfs flaky_fs ''/s'' ''/dev/st0'' ''T1''
     ([''/dev/st0'' \<mapsto> \<lparr> me_mount = ''/s/mounts/T1'', me_unmounted = False \<rparr>], [])
     = (fst flaky_run, fst (snd flaky_run), snd (snd flaky_run))" by (simp only: flaky_run_def prod.collapse)
  from finalize_unmounts_once [OF flaky_log _ this] have "fst (snd flaky_run) = Map.empty"
    by (auto simp: c)
  with c u show ?thesis by simp
qed

section \<open>Barcodes of a drive set\<close>

lemma validateBarcodes_ok:
  "validateBarcodes loaded = [] \<longleftrightarrow> [] \<notin> set (map lt_Barcode loaded) \<and> distinct (map lt_Barcode loaded)"
proof -
  let ?bs = "map lt_Barcode loaded"
  have l: "length (drives_of b loaded) = count_list (map lt_Barcode loaded) b" for b
    by (induction loaded) (auto simp: drives_of_def)
  have d: "distinct xs \<longleftrightarrow> (\<forall>x \<in> set xs. \<not> 1 < count_list xs x)" for xs :: "string list"
    by (induction xs) (auto simp: count_list_0_iff)
  have "validateBarcodes loaded = [] \<longleftrightarrow> [] \<notin> set ?bs \<and> (\<forall>b \<in> set ?bs. b \<noteq> [] \<longrightarrow> \<not> 1 < count_list ?bs b)"
    by (auto simp: validateBarcodes_def filter_empty_conv l set_first_seen image_iff)
  then show ?thesis by (metis d)
qed

end
