(* ===== verification/WritePath.thy ===== *)
theory WritePath
  imports TapeWrite Media Workers Pause
begin

text \<open>
  The tape path of the workflow: \<open>writePhase\<close> of \<open>session.go\<close>, \<open>loadPhase\<close>, \<open>returnLoadedTapes\<close> and
  \<open>ejectPhase\<close> of \<open>library.go\<close>, \<open>writepause.go\<close> with \<open>runDriveSet\<close>, and \<open>runTapePath\<close> of
  \<open>workflow.go\<close>. An activity, with the retry policy its call site gives it, is a function of the
  environment that answers an error or a result.
\<close>

section \<open>The write phase\<close>

record MeasureWriteHealthInput =
  mw_Device :: string
  mw_Barcode :: string
  mw_BytesWritten :: int
  mw_Elapsed :: int
  mw_FloorMBps :: "rat option"

record TapeMeasurement =
  me_Health :: WriteHealth
  me_MediaGeneration :: string

definition no_measurement :: TapeMeasurement where
  "no_measurement = \<lparr> me_Health = \<lparr> wh_Measured = False, wh_ThroughputMBps = 0, wh_ThroughputUnmeasurable = False,
     wh_FloorMBps = 0, wh_FloorKnown = False, wh_BelowFloor = False, wh_Repositions = 0,
     wh_RepositionsMeasured = False, wh_TapeAlertFlags = [] \<rparr>, me_MediaGeneration = [] \<rparr>"

text \<open>\<open>do_teardown\<close> is \<open>TeardownSession\<close>, whose error is ignored, and the completion of the session.\<close>

record ('z, 'e) tape_activities =
  do_mirror :: "string \<Rightarrow> string \<Rightarrow> 'z \<Rightarrow> ('e + unit) \<times> 'z"
  do_load :: "TapeAssignment list \<Rightarrow> bool \<Rightarrow> 'z \<Rightarrow> ('e + LoadedTape list) \<times> 'z"
  do_session :: "'z \<Rightarrow> ('e + unit) \<times> 'z"
  do_format :: "string \<Rightarrow> string \<Rightarrow> 'z \<Rightarrow> ('e + unit) \<times> 'z"
  do_write_tree :: "WriteTreeInput \<Rightarrow> 'z \<Rightarrow> ('e + int) \<times> 'z"
  do_finalize :: "string \<Rightarrow> string \<Rightarrow> 'z \<Rightarrow> ('e + string) \<times> 'z"
  do_measure :: "MeasureWriteHealthInput \<Rightarrow> 'z \<Rightarrow> ('e + TapeMeasurement) \<times> 'z"
  do_teardown :: "'z \<Rightarrow> 'z"
  do_return :: "LoadedTape list \<Rightarrow> 'z \<Rightarrow> ('e + unit) \<times> 'z"
  do_eject :: "WrittenTape list \<Rightarrow> 'z \<Rightarrow> ('e + EjectResult) \<times> 'z"

record write_inputs =
  wr_Library :: Library
  wr_Plan :: TapePlan
  wr_Staged :: "StagedArchive list"
  wr_PAR2 :: "PAR2Set list"
  wr_Resolved :: "ResolvedArchive list"
  wr_DryRun :: bool

definition measureWriteHealth ::
  "('z, 'e) tape_activities \<Rightarrow> LoadedTape \<Rightarrow> TapeWriteArchive list \<Rightarrow> int \<Rightarrow> rat option \<Rightarrow> 'z
     \<Rightarrow> TapeMeasurement \<times> 'z" where
  "measureWriteHealth acts lt archives elapsed floorMBps z =
     (case do_measure acts \<lparr> mw_Device = lt_SGDevice lt, mw_Barcode = lt_Barcode lt,
             mw_BytesWritten = tapeWrittenBytes archives, mw_Elapsed = elapsed, mw_FloorMBps = floorMBps \<rparr> z of
        (Inl e, z') \<Rightarrow> (no_measurement, z') | (Inr m, z') \<Rightarrow> (m, z'))"

datatype 'e write_failure =
  FormatStep nat 'e
| AssembleStep nat assemble_error
| WriteTreeStep nat 'e
| FinalizeStep nat 'e

text \<open>The goroutine of a drive, between its activity calls.\<close>

datatype write_worker =
  ToFormat LoadedTape
| ToWriteTree LoadedTape "TapeWriteArchive list"
| ToFinalize LoadedTape "TapeWriteArchive list" int
| ToMeasure LoadedTape "TapeWriteArchive list" int string

record driveResult =
  dr_indexPath :: string
  dr_measurement :: TapeMeasurement

definition write_step ::
  "('z, 'e) tape_activities \<Rightarrow> write_inputs \<Rightarrow> (write_worker, 'e write_failure + driveResult, 'z) worker" where
  "write_step acts inp i s z =
     (case s of
        ToFormat lt \<Rightarrow> (case do_format acts (lt_SGDevice lt) (lt_Barcode lt) z of
            (Inl e, z') \<Rightarrow> (Inr (Inl (FormatStep (lt_DriveIndex lt) e)), z')
          | (Inr _, z') \<Rightarrow>
              (case archivesForTape (wr_Plan inp) (wr_Staged inp) (wr_PAR2 inp) (wr_Resolved inp) (lt_TapeIndex lt) of
                 Inl e \<Rightarrow> (Inr (Inl (AssembleStep (lt_DriveIndex lt) e)), z')
               | Inr archives \<Rightarrow> (Inl (ToWriteTree lt archives), z')))
      | ToWriteTree lt archives \<Rightarrow>
          (case do_write_tree acts \<lparr> wi_Device = lt_SGDevice lt, wi_Barcode = lt_Barcode lt,
                  wi_TapeIndex = lt_TapeIndex lt, wi_CopyIndex = lt_CopyIndex lt, wi_Archives = archives \<rparr> z of
             (Inl e, z') \<Rightarrow> (Inr (Inl (WriteTreeStep (lt_DriveIndex lt) e)), z')
           | (Inr elapsed, z') \<Rightarrow> (Inl (ToFinalize lt archives elapsed), z'))
      | ToFinalize lt archives elapsed \<Rightarrow> (case do_finalize acts (lt_SGDevice lt) (lt_Barcode lt) z of
            (Inl e, z') \<Rightarrow> (Inr (Inl (FinalizeStep (lt_DriveIndex lt) e)), z')
          | (Inr path, z') \<Rightarrow> (Inl (ToMeasure lt archives elapsed path), z'))
      | ToMeasure lt archives elapsed path \<Rightarrow>
          (let (m, z') = measureWriteHealth acts lt archives elapsed
                 (writeHealthFloor (lib_TapeCapacityBytes (wr_Library inp))) z
           in (Inr (Inr \<lparr> dr_indexPath = path, dr_measurement = m \<rparr>), z')))"

record 'e failedTape =
  ft_Tape :: LoadedTape
  ft_Err :: "'e write_failure"

definition written_tape :: "LoadedTape \<Rightarrow> driveResult \<Rightarrow> WrittenTape" where
  "written_tape lt res = \<lparr> wt_Barcode = lt_Barcode lt, wt_DriveIndex = lt_DriveIndex lt, wt_TapeIndex = lt_TapeIndex lt,
     wt_CopyIndex = lt_CopyIndex lt, wt_SourceSlot = lt_SourceSlot lt, wt_IndexXMLPath = dr_indexPath res,
     wt_WriteHealth = me_Health (dr_measurement res), wt_MediaGeneration = me_MediaGeneration (dr_measurement res),
     wt_OverwroteNonBlank = lt_OverwroteNonBlank lt \<rparr>"

fun partition_tapes ::
  "LoadedTape list \<Rightarrow> (nat \<times> ('e write_failure + driveResult)) list \<Rightarrow> WrittenTape list \<times> 'e failedTape list" where
  "partition_tapes loaded [] = ([], [])"
| "partition_tapes loaded ((i, r) # received) =
     (let (written, failed) = partition_tapes loaded received in
      case r of
        Inl e \<Rightarrow> (written, \<lparr> ft_Tape = loaded ! i, ft_Err = e \<rparr> # failed)
      | Inr res \<Rightarrow> (written_tape (loaded ! i) res # written, failed))"

datatype 'e write_fault = InvalidBarcodes "barcode_error list" | SessionNotCreated 'e

definition writePhase ::
  "('z, 'e) tape_activities \<Rightarrow> (write_worker, 'e write_failure + driveResult, 'z) scheduler \<Rightarrow> write_inputs
     \<Rightarrow> LoadedTape list \<Rightarrow> 'z
     \<Rightarrow> (('e write_fault + WrittenTape list \<times> 'e failedTape list) \<times> 'z) option" where
  "writePhase acts pick inp loaded z =
     (if validateBarcodes loaded \<noteq> [] then Some (Inl (InvalidBarcodes (validateBarcodes loaded)), z)
      else case do_session acts z of
        (Inl e, z1) \<Rightarrow> Some (Inl (SessionNotCreated e), z1)
      | (Inr _, z1) \<Rightarrow>
          if loaded = [] then Some (Inr ([], []), do_teardown acts z1)
          else (case run_pool (write_step acts inp) pick (enumerate 0 (map ToFormat loaded), [], z1) of
              None \<Rightarrow> None
            | Some (received, z2) \<Rightarrow> Some (Inr (partition_tapes loaded received), do_teardown acts z2)))"

section \<open>Loading, ejecting, and the operator\<close>

definition loadPhase ::
  "('z, 'e) tape_activities \<Rightarrow> Library \<Rightarrow> driveSet \<Rightarrow> 'z \<Rightarrow> ('e + LoadedTape list) \<times> 'z" where
  "loadPhase acts lib set0 z =
     (if set0 = [] then (Inr [], z) else do_load acts set0 (lib_AllowNonBlankTapes lib) z)"

datatype ('e, 'c) tape_path_error =
  MirrorFailed 'e
| DrivePlanFailed drive_set_error
| TapePathCancelled 'c
| AbortedAfterLoad 'e
| TimedOutAfterLoad int 'e
| ReturnedAfter "'e write_fault" "(string \<times> nat \<times> int) list"
| NotReturnedAfter "'e write_fault" 'e
| EjectFailed 'e
| StationNotCleared int nat
| AbortedAfterWrite nat "'e failedTape list"
| TimedOutAfterWrite int nat "'e failedTape list"

definition returnLoadedTapes ::
  "('z, 'e) tape_activities \<Rightarrow> LoadedTape list \<Rightarrow> 'e write_fault \<Rightarrow> 'z \<Rightarrow> ('e, 'c) tape_path_error \<times> 'z" where
  "returnLoadedTapes acts loaded cause z =
     (case do_return acts loaded z of
        (Inl e, z1) \<Rightarrow> (NotReturnedAfter cause e, z1)
      | (Inr _, z1) \<Rightarrow>
          (ReturnedAfter cause (map (\<lambda>lt. (lt_Barcode lt, lt_DriveIndex lt, lt_SourceSlot lt)) loaded), z1))"

partial_function (option) eject_loop ::
  "('z, 'e) tape_activities \<Rightarrow> ('z, 'c) runtime \<Rightarrow> Library \<Rightarrow> WrittenTape list \<Rightarrow> 'z world
     \<Rightarrow> ((('e, 'c) tape_path_error + unit) \<times> 'z world) option" where
  "eject_loop acts rt lib remaining w =
     (case do_eject acts remaining (w_env w) of
        (Inl e, z) \<Rightarrow> Some (Inl (EjectFailed e), w\<lparr> w_env := z \<rparr>)
      | (Inr result, z) \<Rightarrow>
          if ej_Remaining result = [] then Some (Inr (), w\<lparr> w_env := z \<rparr>)
          else
            (case waitForIOCleared rt (EffectiveIOWaitTimeout lib)
                (alert_operator rt (EjectAlert (ej_InIOStation result) (length (ej_Remaining result)))
                   (drainStalePauseSignals (w\<lparr> w_env := z \<rparr>))) of
               (Inl c, w1) \<Rightarrow> Some (Inl (TapePathCancelled c), w1)
             | (Inr resumed, w1) \<Rightarrow>
                 if \<not> resumed
                 then Some (Inl (StationNotCleared (EffectiveIOWaitTimeout lib) (length (ej_Remaining result))), w1)
                 else eject_loop acts rt lib (ej_Remaining result) w1))"

definition ejectPhase ::
  "('z, 'e) tape_activities \<Rightarrow> ('z, 'c) runtime \<Rightarrow> Library \<Rightarrow> WrittenTape list \<Rightarrow> 'z world
     \<Rightarrow> ((('e, 'c) tape_path_error + unit) \<times> 'z world) option" where
  "ejectPhase acts rt lib written w =
     (if written = [] then Some (Inr (), w) else eject_loop acts rt lib written w)"

definition eject_fields :: "string \<Rightarrow> nat \<Rightarrow> nat \<Rightarrow> nat \<Rightarrow> int \<Rightarrow> WrittenTape" where
  "eject_fields barcode drive t c slot = \<lparr> wt_Barcode = barcode, wt_DriveIndex = drive, wt_TapeIndex = t,
     wt_CopyIndex = c, wt_SourceSlot = slot, wt_IndexXMLPath = [], wt_WriteHealth = me_Health no_measurement,
     wt_MediaGeneration = [], wt_OverwroteNonBlank = False \<rparr>"

definition failedAsWritten :: "'e failedTape list \<Rightarrow> WrittenTape list" where
  "failedAsWritten failed = map (\<lambda>f. let lt = ft_Tape f in
     eject_fields (lt_Barcode lt) (lt_DriveIndex lt) (lt_TapeIndex lt) (lt_CopyIndex lt) (lt_SourceSlot lt)) failed"

definition ejectProjection :: "WrittenTape list \<Rightarrow> WrittenTape list" where
  "ejectProjection written = map (\<lambda>wt.
     eject_fields (wt_Barcode wt) (wt_DriveIndex wt) (wt_TapeIndex wt) (wt_CopyIndex wt) (wt_SourceSlot wt)) written"

definition reloadSlots :: "'e failedTape list \<Rightarrow> int list" where
  "reloadSlots failed = map (\<lambda>f. lt_SourceSlot (ft_Tape f)) failed"

definition barcodesOfFailed :: "'e failedTape list \<Rightarrow> string list" where
  "barcodesOfFailed failed = map (\<lambda>f. lt_Barcode (ft_Tape f)) failed"

definition slotsOf :: "driveSet \<Rightarrow> int list" where
  "slotsOf set0 = map ta_BlankSlot set0"

text \<open>An index of a drive that is not configured panics.\<close>

definition retrySet :: "Library \<Rightarrow> 'e failedTape list \<Rightarrow> driveSet option" where
  "retrySet lib failed =
     (if \<forall>f \<in> set failed. lt_DriveIndex (ft_Tape f) < length (lib_Drives lib)
      then Some (map (\<lambda>f. let lt = ft_Tape f in \<lparr> ta_Drive = lib_Drives lib ! lt_DriveIndex lt,
             ta_DriveIndex = lt_DriveIndex lt, ta_BlankSlot = lt_SourceSlot lt, ta_TapeIndex = lt_TapeIndex lt,
             ta_CopyIndex = lt_CopyIndex lt \<rparr>) failed)
      else None)"

text \<open>
  How an error reads: its text, and the Temporal application error in its chain with the type and
  the details that decode as a barcode and a slot.
\<close>

record 'e error_view =
  ev_Error :: "'e \<Rightarrow> string"
  ev_Failure :: "'e write_failure \<Rightarrow> string"
  ev_AppError :: "'e \<Rightarrow> (string \<times> (string \<times> int) option) option"

definition nonBlankTapeErrorType :: string where "nonBlankTapeErrorType = ''NonBlankTape''"

definition nonBlankTape :: "'e error_view \<Rightarrow> 'e \<Rightarrow> (string \<times> int) option" where
  "nonBlankTape ev e =
     (case ev_AppError ev e of
        None \<Rightarrow> None
      | Some (ty, details) \<Rightarrow>
          if ty \<noteq> nonBlankTapeErrorType then None
          else (case details of
              None \<Rightarrow> None
            | Some (barcode, slot) \<Rightarrow> if barcode = [] then None else Some (barcode, slot)))"

definition joinFailed :: "'e error_view \<Rightarrow> 'e failedTape list \<Rightarrow> string" where
  "joinFailed ev failed = join_with [CHR 0x0A] (map (\<lambda>f. ''tape '' @ lt_Barcode (ft_Tape f) @ '' (drive ''
     @ itoa (lt_DriveIndex (ft_Tape f)) @ ''): '' @ ev_Failure ev (ft_Err f)) failed)"

section \<open>The tape path\<close>

record tape_state =
  ts_Loaded :: "LoadedTape list"
  ts_Written :: "WrittenTape list"
  ts_Mounted :: "string list"
  ts_LastCompleted :: "string option"
  ts_FailingPhase :: string

definition PhaseLoad :: string where "PhaseLoad = ''Load''"
definition PhaseWrite :: string where "PhaseWrite = ''Write''"
definition PhaseEject :: string where "PhaseEject = ''Eject''"

definition record_loaded :: "LoadedTape list \<Rightarrow> tape_state \<Rightarrow> tape_state" where
  "record_loaded loaded st = st\<lparr> ts_Loaded := loaded, ts_LastCompleted := Some PhaseLoad,
     ts_Mounted := ts_Mounted st @ map lt_Barcode loaded, ts_FailingPhase := PhaseWrite \<rparr>"

partial_function (option) runDriveSet ::
  "('z, 'e) tape_activities \<Rightarrow> (write_worker, 'e write_failure + driveResult, 'z) scheduler \<Rightarrow> ('z, 'c) runtime
     \<Rightarrow> 'e error_view \<Rightarrow> write_inputs \<Rightarrow> driveSet \<Rightarrow> tape_state \<Rightarrow> 'z world
     \<Rightarrow> ((('e, 'c) tape_path_error + unit) \<times> tape_state \<times> 'z world) option" where
  "runDriveSet acts pick rt ev inp pending st0 w =
     (let lib = wr_Library inp; timeout = EffectiveWriteFailureWaitTimeout lib;
          st = st0\<lparr> ts_FailingPhase := PhaseLoad \<rparr>; (r, z1) = loadPhase acts lib pending (w_env w);
          w1 = w\<lparr> w_env := z1 \<rparr> in
      case r of
        Inl e \<Rightarrow>
          (let (affected, reload) = (case nonBlankTape ev e of
                  None \<Rightarrow> ([], slotsOf pending) | Some (barcode, slot) \<Rightarrow> ([barcode], [slot])) in
           case waitForOperator rt timeout PhaseLoad affected reload (ev_Error ev e) w1 of
             (Inl c, pause, w2) \<Rightarrow> Some (Inl (TapePathCancelled c), st, w2)
           | (Inr pauseResumed, pause, w2) \<Rightarrow> runDriveSet acts pick rt ev inp pending st w2
           | (Inr pauseAborted, pause, w2) \<Rightarrow> Some (Inl (AbortedAfterLoad e), st, w2)
           | (Inr pauseTimedOut, pause, w2) \<Rightarrow> Some (Inl (TimedOutAfterLoad timeout e), st, w2))
      | Inr loaded \<Rightarrow>
          (let st1 = record_loaded loaded st in
           case writePhase acts pick inp loaded z1 of
             None \<Rightarrow> None
           | Some (Inl fault, z2) \<Rightarrow>
               (let (e, z3) = returnLoadedTapes acts loaded fault z2 in Some (Inl e, st1, w1\<lparr> w_env := z3 \<rparr>))
           | Some (Inr (written, failed), z2) \<Rightarrow>
               (let st2 = st1\<lparr> ts_FailingPhase := PhaseEject \<rparr> in
                case ejectPhase acts rt lib (ejectProjection written @ failedAsWritten failed) (w1\<lparr> w_env := z2 \<rparr>) of
                  None \<Rightarrow> None
                | Some (Inl e, w2) \<Rightarrow> Some (Inl e, st2, w2)
                | Some (Inr _, w2) \<Rightarrow>
                    (let st3 = st2\<lparr> ts_Written := ts_Written st2 @ written \<rparr> in
                     if failed = [] then Some (Inr (), st3\<lparr> ts_LastCompleted := Some PhaseEject \<rparr>, w2)
                     else
                       (let st4 = st3\<lparr> ts_FailingPhase := PhaseWrite \<rparr> in
                        case waitForOperator rt timeout PhaseWrite (barcodesOfFailed failed) (reloadSlots failed)
                            (joinFailed ev failed) w2 of
                          (Inl c, pause, w3) \<Rightarrow> Some (Inl (TapePathCancelled c), st4, w3)
                        | (Inr pauseAborted, pause, w3) \<Rightarrow>
                            Some (Inl (AbortedAfterWrite (length failed) failed), st4, w3)
                        | (Inr pauseTimedOut, pause, w3) \<Rightarrow>
                            Some (Inl (TimedOutAfterWrite timeout (length failed) failed), st4, w3)
                        | (Inr pauseResumed, pause, w3) \<Rightarrow> (case retrySet lib failed of
                              None \<Rightarrow> None
                            | Some pending' \<Rightarrow> runDriveSet acts pick rt ev inp pending' st4 w3))))))"

fun drive_sets_from ::
  "('z, 'e) tape_activities \<Rightarrow> (write_worker, 'e write_failure + driveResult, 'z) scheduler \<Rightarrow> ('z, 'c) runtime
     \<Rightarrow> 'e error_view \<Rightarrow> write_inputs \<Rightarrow> driveSet list \<Rightarrow> tape_state \<Rightarrow> 'z world
     \<Rightarrow> ((('e, 'c) tape_path_error + unit) \<times> tape_state \<times> 'z world) option" where
  "drive_sets_from acts pick rt ev inp [] st w = Some (Inr (), st, w)"
| "drive_sets_from acts pick rt ev inp (s # sets) st w =
     (case runDriveSet acts pick rt ev inp s st w of
        None \<Rightarrow> None
      | Some (Inl e, st', w') \<Rightarrow> Some (Inl e, st', w')
      | Some (Inr _, st', w') \<Rightarrow> drive_sets_from acts pick rt ev inp sets st' w')"

definition runMirrorLibrary ::
  "('z, 'e) tape_activities \<Rightarrow> write_inputs \<Rightarrow> 'z \<Rightarrow> ('e + unit) \<times> 'z" where
  "runMirrorLibrary acts inp z =
     (if lib_MirrorSourceChanger (wr_Library inp) = [] \<or> \<not> wr_DryRun inp then (Inr (), z)
      else do_mirror acts (lib_MirrorSourceChanger (wr_Library inp)) (lib_Changer (wr_Library inp)) z)"

definition runTapePath ::
  "('z, 'e) tape_activities \<Rightarrow> (write_worker, 'e write_failure + driveResult, 'z) scheduler \<Rightarrow> ('z, 'c) runtime
     \<Rightarrow> 'e error_view \<Rightarrow> write_inputs \<Rightarrow> tape_state \<Rightarrow> 'z world
     \<Rightarrow> ((('e, 'c) tape_path_error + unit) \<times> tape_state \<times> 'z world) option" where
  "runTapePath acts pick rt ev inp st0 w =
     (let st = st0\<lparr> ts_FailingPhase := PhaseLoad \<rparr>; (r, z1) = runMirrorLibrary acts inp (w_env w); w1 = w\<lparr> w_env := z1 \<rparr> in
      case r of
        Inl e \<Rightarrow> Some (Inl (MirrorFailed e), st, w1)
      | Inr _ \<Rightarrow>
          (case planDriveSets (wr_Plan inp) (lib_Drives (wr_Library inp)) (lib_BlankSlots (wr_Library inp)) of
             None \<Rightarrow> None
           | Some (Inl e) \<Rightarrow> Some (Inl (DrivePlanFailed e), st, w1)
           | Some (Inr sets) \<Rightarrow> drive_sets_from acts pick rt ev inp sets st w1))"

end
