(* ===== verification/TapePath.thy ===== *)
theory TapePath
  imports WritePath
begin

text \<open>
  What the tape path guarantees: every planned tape and copy is written exactly once, whatever the
  interleaving of the drives and however often the operator has tapes retried, and the eject loop
  ends when the operator clears the station.
\<close>

section \<open>The activities on a library\<close>

text \<open>
  The activities whose code is modelled, as the workflow sees them: the first three of the tape
  library. An attempt that does not return is ended by the activity's timeout.
\<close>

datatype 'e activity_error =
  LoadErr "'e load_error"
| ReturnErr "'e return_error list"
| EjectErr "'e eject_error"
| ActivityTimedOut
| OtherErr string

definition with_library ::
  "('z, 'e) hardware \<Rightarrow> ('z, 'e activity_error) tape_activities \<Rightarrow> ('z, 'e activity_error) tape_activities" where
  "with_library hw acts = acts\<lparr>
     do_load := (\<lambda>tapes allow z. case Load hw tapes allow z of
         None \<Rightarrow> (Inl ActivityTimedOut, z)
       | Some (Inl e, z') \<Rightarrow> (Inl (LoadErr e), z')
       | Some (Inr loaded, z') \<Rightarrow> (Inr loaded, z')),
     do_return := (\<lambda>loaded z. case ReturnToSlots hw loaded z of
         (errs, z') \<Rightarrow> (if errs = [] then Inr () else Inl (ReturnErr errs), z')),
     do_eject := (\<lambda>written z. case Eject hw written z of
         (Inl e, z') \<Rightarrow> (Inl (EjectErr e), z') | (Inr result, z') \<Rightarrow> (Inr result, z')) \<rparr>"

definition tape_copy :: "TapeAssignment \<Rightarrow> nat \<times> nat" where
  "tape_copy a = (ta_TapeIndex a, ta_CopyIndex a)"

definition loaded_copy :: "LoadedTape \<Rightarrow> nat \<times> nat" where
  "loaded_copy lt = (lt_TapeIndex lt, lt_CopyIndex lt)"

definition written_copy :: "WrittenTape \<Rightarrow> nat \<times> nat" where
  "written_copy wt = (wt_TapeIndex wt, wt_CopyIndex wt)"

lemma load_one_copy:
  assumes "load_one hw stock allow a p z = Some (Inr lt, p', z')"
  shows "loaded_copy lt = tape_copy a"
proof -
  obtain barcode sgDev b where "lt = loaded_tape a barcode sgDev b" using load_one_ok [OF assms] by blast
  then show ?thesis by (simp add: loaded_copy_def tape_copy_def loaded_tape_def)
qed

lemma Load_copies:
  assumes "Load hw tapes allow z = Some (Inr loaded, z')"
  shows "map loaded_copy loaded = map tape_copy tapes"
proof (cases "tapes = []")
  case True
  then show ?thesis using assms by (simp add: Load_def)
next
  case False
  then obtain stock p z1 p' where "load_tapes hw stock allow tapes p z1 = Some (Inr loaded, p', z')"
    using assms by (auto simp: Load_def split: sum.splits prod.splits if_splits option.splits)
  then have "list_all2 (\<lambda>a lt. loaded_copy lt = tape_copy a) tapes loaded"
    by (rule list_all2_mono [OF load_tapes_steps]) (elim exE, rule load_one_copy)
  then show ?thesis by (induction rule: list_all2_induct) auto
qed

section \<open>A drive's goroutine\<close>

definition answers :: "('z \<Rightarrow> ('e + 'a) \<times> 'z) \<Rightarrow> 'a \<Rightarrow> bool" where
  "answers act a \<longleftrightarrow> (\<exists>z z'. act z = (Inr a, z'))"

lemma answersI: "act z = (Inr a, z') \<Longrightarrow> answers act a"
  unfolding answers_def by blast

definition tree_input :: "LoadedTape \<Rightarrow> TapeWriteArchive list \<Rightarrow> WriteTreeInput" where
  "tree_input lt archives = \<lparr> wi_Device = lt_SGDevice lt, wi_Barcode = lt_Barcode lt,
     wi_TapeIndex = lt_TapeIndex lt, wi_CopyIndex = lt_CopyIndex lt, wi_Archives = archives \<rparr>"

definition tape_completed :: "('z, 'e) tape_activities \<Rightarrow> write_inputs \<Rightarrow> LoadedTape \<Rightarrow> string \<Rightarrow> bool" where
  "tape_completed acts inp lt path \<longleftrightarrow>
     (\<exists>archives. archivesForTape (wr_Plan inp) (wr_Staged inp) (wr_PAR2 inp) (wr_Resolved inp) (lt_TapeIndex lt) = Inr archives
        \<and> answers (do_format acts (lt_SGDevice lt) (lt_Barcode lt)) ()
        \<and> (\<exists>d. answers (do_write_tree acts (tree_input lt archives)) d)
        \<and> answers (do_finalize acts (lt_SGDevice lt) (lt_Barcode lt)) path)"

definition write_okay ::
  "('z, 'e) tape_activities \<Rightarrow> write_inputs \<Rightarrow> LoadedTape list \<Rightarrow> nat \<Rightarrow> write_worker \<Rightarrow> bool" where
  "write_okay acts inp loaded i s \<longleftrightarrow>
     (let lt = loaded ! i;
          ready = (\<lambda>archives. answers (do_format acts (lt_SGDevice lt) (lt_Barcode lt)) ()
             \<and> archivesForTape (wr_Plan inp) (wr_Staged inp) (wr_PAR2 inp) (wr_Resolved inp) (lt_TapeIndex lt) = Inr archives)
      in case s of
        ToFormat x \<Rightarrow> x = lt
      | ToWriteTree x archives \<Rightarrow> x = lt \<and> ready archives
      | ToFinalize x archives d \<Rightarrow> x = lt \<and> ready archives \<and> answers (do_write_tree acts (tree_input lt archives)) d
      | ToMeasure x archives d path \<Rightarrow> x = lt \<and> tape_completed acts inp lt path)"

definition write_sends ::
  "('z, 'e) tape_activities \<Rightarrow> write_inputs \<Rightarrow> LoadedTape list \<Rightarrow> nat \<Rightarrow> 'e write_failure + driveResult \<Rightarrow> bool" where
  "write_sends acts inp loaded i r \<longleftrightarrow>
     (\<forall>res. r = Inr res \<longrightarrow> tape_completed acts inp (loaded ! i) (dr_indexPath res))"

definition write_left :: "write_worker \<Rightarrow> nat" where
  "write_left s = (case s of ToFormat _ \<Rightarrow> 3 | ToWriteTree _ _ \<Rightarrow> 2 | ToFinalize _ _ _ \<Rightarrow> 1 | ToMeasure _ _ _ _ \<Rightarrow> 0)"

interpretation write_pool: worker_pool "write_step acts inp" "write_okay acts inp loaded"
  "write_sends acts inp loaded" "\<lambda>_. True" write_left
  for acts :: "('z, 'e) tape_activities" and inp :: write_inputs and loaded :: "LoadedTape list"
proof unfold_locales
  fix i s z s' z'
  assume okay: "write_okay acts inp loaded i s" and step: "write_step acts inp i s z = (Inl s', z')"
  show "write_okay acts inp loaded i s' \<and> True \<and> write_left s' < write_left s"
  proof (cases s)
    case (ToFormat lt)
    then show ?thesis using okay step
      by (auto simp: write_step_def write_okay_def write_left_def tree_input_def Let_def intro: answersI split: prod.splits sum.splits)
  next
    case (ToWriteTree lt archives)
    then show ?thesis using okay step
      by (auto simp: write_step_def write_okay_def write_left_def tree_input_def Let_def intro: answersI split: prod.splits sum.splits)
  next
    case (ToFinalize lt archives d)
    then show ?thesis using okay step
      by (auto simp: write_step_def write_okay_def write_left_def tape_completed_def Let_def intro: answersI
          split: prod.splits sum.splits)
  next
    case (ToMeasure lt archives d path)
    then show ?thesis using step by (simp add: write_step_def split: prod.splits)
  qed
next
  fix i s z r z'
  assume okay: "write_okay acts inp loaded i s" and step: "write_step acts inp i s z = (Inr r, z')"
  have "tape_completed acts inp (loaded ! i) (dr_indexPath res)" if r: "r = Inr res" for res
    using okay step r
    by (auto simp: write_step_def write_okay_def Let_def split: write_worker.splits prod.splits sum.splits)
  then show "write_sends acts inp loaded i r \<and> True" by (simp add: write_sends_def)
qed

section \<open>The write phase\<close>

definition completed :: "('z, 'e) tape_activities \<Rightarrow> write_inputs \<Rightarrow> WrittenTape \<Rightarrow> bool" where
  "completed acts inp wt \<longleftrightarrow> (\<exists>lt res. wt = written_tape lt res \<and> tape_completed acts inp lt (dr_indexPath res))"

lemma partition_tapes_copies:
  "partition_tapes loaded received = (written, failed) \<Longrightarrow>
     mset (map written_copy written) + mset (map (loaded_copy \<circ> ft_Tape) failed)
       = mset (map (\<lambda>(i, r). loaded_copy (loaded ! i)) received)"
proof (induction received arbitrary: written failed)
  case (Cons x received)
  obtain i r where x: "x = (i, r)" by (cases x)
  obtain ws fs where rest: "partition_tapes loaded received = (ws, fs)" by (metis surj_pair)
  show ?case using Cons.IH [OF rest] Cons.prems rest x
    by (cases r) (auto simp: written_copy_def loaded_copy_def written_tape_def)
qed simp

lemma partition_tapes_results:
  "partition_tapes loaded received = (written, failed) \<Longrightarrow> wt \<in> set written
   \<Longrightarrow> \<exists>i res. (i, Inr res) \<in> set received \<and> wt = written_tape (loaded ! i) res"
proof (induction received arbitrary: written failed)
  case (Cons x received)
  obtain i r where x: "x = (i, r)" by (cases x)
  obtain ws fs where rest: "partition_tapes loaded received = (ws, fs)" by (metis surj_pair)
  show ?case
  proof (cases "wt \<in> set ws")
    case True
    then show ?thesis using Cons.IH [OF rest] by auto
  next
    case False
    then obtain res where "r = Inr res" "wt = written_tape (loaded ! i) res"
      using Cons.prems rest x by (cases r) auto
    then show ?thesis using x by auto
  qed
qed simp

lemma writePhase_ok:
  "\<exists>r z'. writePhase acts pick inp loaded z = Some (r, z')
     \<and> (\<forall>written failed. r = Inr (written, failed) \<longrightarrow>
          mset (map written_copy written) + mset (map (loaded_copy \<circ> ft_Tape) failed) = mset (map loaded_copy loaded)
          \<and> (\<forall>wt \<in> set written. completed acts inp wt))"
proof (cases "validateBarcodes loaded \<noteq> [] \<or> isl (fst (do_session acts z)) \<or> loaded = []")
  case True
  then show ?thesis by (cases "do_session acts z"; cases "fst (do_session acts z)") (auto simp: writePhase_def)
next
  case False
  then obtain z1 where s: "do_session acts z = (Inr (), z1)"
    by (cases "do_session acts z"; cases "fst (do_session acts z)") auto
  have "\<exists>received z2. run_pool (write_step acts inp) pick (enumerate 0 (map ToFormat loaded), [], z1) = Some (received, z2)
      \<and> True \<and> mset (map fst received) = mset [0..<length (map ToFormat loaded)]
      \<and> (\<forall>(i, r) \<in> set received. write_sends acts inp loaded i r)"
    by (rule write_pool.results) (simp_all add: write_okay_def Let_def)
  then obtain received z2 where r: "run_pool (write_step acts inp) pick (enumerate 0 (map ToFormat loaded), [], z1) = Some (received, z2)"
    "mset (map fst received) = mset [0..<length loaded]"
    "\<And>i r. (i, r) \<in> set received \<Longrightarrow> write_sends acts inp loaded i r" unfolding length_map by blast
  obtain written failed where p: "partition_tapes loaded received = (written, failed)" by (metis surj_pair)
  have "mset (map (\<lambda>(i, r). loaded_copy (loaded ! i)) received) = mset (map (\<lambda>i. loaded_copy (loaded ! i)) (map fst received))"
    by (simp add: comp_def case_prod_unfold)
  also have "\<dots> = mset (map (\<lambda>i. loaded_copy (loaded ! i)) [0..<length loaded])"
    unfolding mset_map [of "\<lambda>i. loaded_copy (loaded ! i)" "map fst received"] r(2) by simp
  also have "map (\<lambda>i. loaded_copy (loaded ! i)) [0..<length loaded] = map loaded_copy loaded"
    by (rule nth_equalityI) simp_all
  finally have "mset (map written_copy written) + mset (map (loaded_copy \<circ> ft_Tape) failed) = mset (map loaded_copy loaded)"
    using partition_tapes_copies [OF p] by simp
  moreover have "completed acts inp wt" if "wt \<in> set written" for wt
    using partition_tapes_results [OF p that] r(3) unfolding completed_def write_sends_def by blast
  ultimately show ?thesis using False s r(1) p by (auto simp: writePhase_def)
qed

section \<open>A drive set, with its retries\<close>

definition tapes_ok ::
  "('z, 'e) tape_activities \<Rightarrow> write_inputs \<Rightarrow> tape_state \<Rightarrow> tape_state \<Rightarrow> (nat \<times> nat) multiset \<Rightarrow> bool" where
  "tapes_ok acts inp st st' copies \<longleftrightarrow> (\<exists>new. ts_Written st' = ts_Written st @ new
     \<and> mset (map written_copy new) = copies \<and> (\<forall>wt \<in> set new. completed acts inp wt))"

lemma tapes_ok_append:
  "tapes_ok acts inp a b m \<Longrightarrow> tapes_ok acts inp b c n \<Longrightarrow> tapes_ok acts inp a c (m + n)"
  unfolding tapes_ok_def by (elim exE, rule_tac x = "new @ newa" in exI) auto

lemma retrySet_copies:
  "retrySet lib failed = Some pending \<Longrightarrow> map tape_copy pending = map (loaded_copy \<circ> ft_Tape) failed"
  by (auto simp: retrySet_def tape_copy_def loaded_copy_def Let_def split: if_splits)

text \<open>What the path relies on in its loader: a loaded tape per assignment, in order.\<close>

locale tape_loader =
  fixes acts :: "('z, 'e) tape_activities"
  assumes loads_assigned: "do_load acts set0 allow z = (Inr loaded, z') \<Longrightarrow> map loaded_copy loaded = map tape_copy set0"
begin

lemma loadPhase_copies: "loadPhase acts lib set0 z = (Inr loaded, z') \<Longrightarrow> map loaded_copy loaded = map tape_copy set0"
  using loads_assigned by (auto simp: loadPhase_def split: if_splits)

lemma runDriveSet_ok:
  assumes "runDriveSet acts0 pick rt ev inp pending st w = Some r"
  shows "acts0 = acts \<Longrightarrow> fst r = Inr () \<Longrightarrow> tapes_ok acts inp st (fst (snd r)) (mset (map tape_copy pending))"
  using assms
proof (induct rule: runDriveSet.raw_induct [rotated 1, consumes 1])
  case (1 f acts0 pick rt ev inp pending st w r)
  let ?st = "st\<lparr> ts_FailingPhase := PhaseLoad \<rparr>"
  let ?timeout = "EffectiveWriteFailureWaitTimeout (wr_Library inp)"
  obtain l z1 where l: "loadPhase acts (wr_Library inp) pending (w_env w) = (l, z1)" by (metis surj_pair)
  show ?case
  proof (cases l)
    case (Inl e)
    obtain affected reload where a: "(case nonBlankTape ev e of
        None \<Rightarrow> ([], slotsOf pending) | Some (barcode, slot) \<Rightarrow> ([barcode], [slot])) = (affected, reload)" by (metis surj_pair)
    obtain o' pause w2 where o: "waitForOperator rt ?timeout PhaseLoad affected reload (ev_Error ev e) (w\<lparr> w_env := z1 \<rparr>)
        = (o', pause, w2)" by (metis surj_pair)
    have "f acts pick rt ev inp pending ?st w2 = Some r"
      using 1(2-4) l Inl a o by (auto simp: Let_def split: sum.splits pauseOutcome.splits)
    from 1(1) [OF this] 1(4) have "tapes_ok acts inp ?st (fst (snd r)) (mset (map tape_copy pending))" by blast
    then show ?thesis by (simp add: tapes_ok_def)
  next
    case (Inr loaded)
    have copies: "map loaded_copy loaded = map tape_copy pending" using loadPhase_copies l Inr by blast
    let ?st1 = "record_loaded loaded ?st"
    obtain wr z2 where w: "writePhase acts pick inp loaded z1 = Some (wr, z2)"
      and ok: "\<And>written failed. wr = Inr (written, failed) \<Longrightarrow>
          mset (map written_copy written) + mset (map (loaded_copy \<circ> ft_Tape) failed) = mset (map loaded_copy loaded)
          \<and> (\<forall>wt \<in> set written. completed acts inp wt)"
      using writePhase_ok [of acts pick inp loaded z1] by blast
    obtain written failed where wf: "wr = Inr (written, failed)"
      using 1(2-4) l Inr w by (cases wr) (auto simp: Let_def split: prod.splits)
    note ok = ok [OF wf]
    obtain x w2 where e: "ejectPhase acts rt (wr_Library inp) (ejectProjection written @ failedAsWritten failed)
        (w\<lparr> w_env := z2 \<rparr>) = Some (x, w2)"
      using 1(2-4) l Inr w wf by (auto simp: Let_def split: option.splits)
    obtain u where x: "x = Inr u" using 1(2-4) l Inr w wf e by (cases x) (auto simp: Let_def)
    let ?st3 = "?st1\<lparr> ts_FailingPhase := PhaseEject, ts_Written := ts_Written ?st1 @ written \<rparr>"
    have new: "tapes_ok acts inp st ?st3 (mset (map written_copy written))"
      using ok by (simp add: tapes_ok_def record_loaded_def)
    show ?thesis
    proof (cases "failed = []")
      case True
      then have "fst (snd r) = ?st3\<lparr> ts_LastCompleted := Some PhaseEject \<rparr>"
        using 1(2-4) l Inr w wf e x by (auto simp: Let_def)
      then show ?thesis using new ok True copies by (simp add: tapes_ok_def)
    next
      case False
      let ?st4 = "?st3\<lparr> ts_FailingPhase := PhaseWrite \<rparr>"
      obtain o' pause w3 where o: "waitForOperator rt ?timeout PhaseWrite (barcodesOfFailed failed) (reloadSlots failed)
          (joinFailed ev failed) w2 = (o', pause, w3)" by (metis surj_pair)
      obtain pending' where p: "retrySet (wr_Library inp) failed = Some pending'"
        and f: "f acts pick rt ev inp pending' ?st4 w3 = Some r"
        using 1(2-4) l Inr w wf e x False o by (auto simp: Let_def split: sum.splits pauseOutcome.splits option.splits)
      from 1(1) [OF f] 1(4) have "tapes_ok acts inp ?st4 (fst (snd r)) (mset (map tape_copy pending'))" by blast
      moreover have "tapes_ok acts inp st ?st4 (mset (map written_copy written))" using new by (simp add: tapes_ok_def)
      ultimately have "tapes_ok acts inp st (fst (snd r)) (mset (map written_copy written) + mset (map tape_copy pending'))"
        by (intro tapes_ok_append)
      then show ?thesis using ok copies retrySet_copies [OF p] by simp
    qed
  qed
qed

lemma drive_sets_from_ok:
  "drive_sets_from acts pick rt ev inp sets st w = Some (Inr u, st', w')
   \<Longrightarrow> tapes_ok acts inp st st' (mset (map tape_copy (concat sets)))"
proof (induction sets arbitrary: st w)
  case Nil
  then show ?case by (simp add: tapes_ok_def)
next
  case (Cons s sets)
  from Cons.prems obtain st1 w1 where r: "runDriveSet acts pick rt ev inp s st w = Some (Inr (), st1, w1)"
    "drive_sets_from acts pick rt ev inp sets st1 w1 = Some (Inr u, st', w')"
    by (auto split: prod.splits sum.splits option.splits)
  have "tapes_ok acts inp st st1 (mset (map tape_copy s))" using runDriveSet_ok [OF r(1)] by simp
  from tapes_ok_append [OF this Cons.IH [OF r(2)]] show ?case by simp
qed

end

interpretation library_loader: tape_loader "with_library hw acts"
  for hw :: "('z, 'e) hardware" and acts :: "('z, 'e activity_error) tape_activities"
  by unfold_locales (auto simp: with_library_def intro: Load_copies split: option.splits sum.splits prod.splits)

lemma planDriveSets_copies:
  assumes "planDriveSets plan drives blankSlots = Some (Inr sets)"
  shows "map tape_copy (concat sets) = List.product [0..<length (tp_Tapes plan)] [0..<nat (tp_Copies plan)]"
proof (cases "tp_Tapes plan = [] \<or> tp_Copies plan = 0")
  case True
  have "List.product xs ([] :: nat list) = []" for xs :: "nat list" by (induction xs) auto
  moreover have "int (length (tp_Tapes plan)) * tp_Copies plan = 0" using True by auto
  ultimately show ?thesis using assms True by (auto simp: planDriveSets_def Let_def)
next
  case False
  then have c: "1 \<le> tp_Copies plan" "drives \<noteq> []" "int (length (tp_Tapes plan)) * tp_Copies plan \<le> int (length blankSlots)"
    using assms by (auto simp: planDriveSets_def Let_def split: if_splits)
  let ?xs = "tape_copies (length (tp_Tapes plan)) (tp_Copies plan)"
  let ?as = "drive_sets.assigned drives blankSlots 0 0 ?xs"
  have "sets = chunk (length drives) ?as" using assms planDriveSets_eq [OF c] by simp
  then have "concat sets = ?as" using chunk_batches [of "length drives" ?as] c(2) by (simp add: batches_def)
  moreover have "map tape_copy ?as = ?xs"
    by (auto simp: drive_sets.assigned_def drive_set_assignment_def tape_copy_def intro: nth_equalityI)
  ultimately show ?thesis by (simp add: tape_copies_def)
qed

text \<open>C7: A tape path that succeeds has written every planned tape in every copy, exactly once. Whatever the
  interleaving of the drives' goroutines, however many tapes failed, and however often the operator
  resumed a failed Load or Write, the tapes recorded as written are the earlier ones plus exactly one
  per (tape, copy) pair of the plan; each was formatted, given the archives of its planned tape,
  and finalized with the index path it reports. Load, ReturnToSlots and Eject are the modelled
  activities on any library; the others are arbitrary.\<close>

theorem tape_path_writes_every_copy:
  assumes "runTapePath (with_library hw acts) pick rt ev inp st w = Some (Inr (), st', w')"
  shows "\<exists>new. ts_Written st' = ts_Written st @ new
    \<and> mset (map written_copy new)
        = mset (List.product [0..<length (tp_Tapes (wr_Plan inp))] [0..<nat (tp_Copies (wr_Plan inp))])
    \<and> distinct (map written_copy new) \<and> (\<forall>wt \<in> set new. completed (with_library hw acts) inp wt)"
proof -
  obtain sets st1 w1 where s: "planDriveSets (wr_Plan inp) (lib_Drives (wr_Library inp)) (lib_BlankSlots (wr_Library inp)) = Some (Inr sets)"
    "drive_sets_from (with_library hw acts) pick rt ev inp sets st1 w1 = Some (Inr (), st', w')" "ts_Written st1 = ts_Written st"
    using assms by (auto simp: runTapePath_def Let_def split: prod.splits option.splits sum.splits)
  from library_loader.drive_sets_from_ok [OF s(2)] obtain new where
    n: "ts_Written st' = ts_Written st @ new" "mset (map written_copy new) = mset (map tape_copy (concat sets))"
       "\<forall>wt \<in> set new. completed (with_library hw acts) inp wt"
    unfolding tapes_ok_def s(3) by blast
  have m: "mset (map written_copy new)
      = mset (List.product [0..<length (tp_Tapes (wr_Plan inp))] [0..<nat (tp_Copies (wr_Plan inp))])"
    unfolding n(2) planDriveSets_copies [OF s(1)] ..
  have "distinct (map written_copy new)"
    using mset_eq_imp_distinct_iff [OF m] by (simp add: distinct_product)
  with n m show ?thesis by blast
qed

section \<open>The eject loop ends\<close>

definition exported :: "int set \<Rightarrow> media \<Rightarrow> WrittenTape \<Rightarrow> bool" where
  "exported io m wt \<longleftrightarrow> (\<forall>p. m p = Some (wt_Barcode wt) \<longrightarrow> (\<exists>a \<in> io. p = Slot a))"

text \<open>What a wait may do to the run's tapes: take some out of the station, nothing else.\<close>

definition only_station_emptied :: "int set \<Rightarrow> WrittenTape list \<Rightarrow> media \<Rightarrow> media \<Rightarrow> bool" where
  "only_station_emptied io wts m m' \<longleftrightarrow> (\<forall>wt \<in> set wts. \<forall>p.
     (m' p = Some (wt_Barcode wt) \<longrightarrow> m p = Some (wt_Barcode wt))
     \<and> (m p = Some (wt_Barcode wt) \<longrightarrow> m' p = Some (wt_Barcode wt) \<or> (\<exists>a \<in> io. p = Slot a)))"

definition eject_inv :: "int set \<Rightarrow> WrittenTape list \<Rightarrow> WrittenTape list \<Rightarrow> media \<Rightarrow> bool" where
  "eject_inv io wts remaining m \<longleftrightarrow> distinct (map wt_Barcode wts) \<and> set remaining \<subseteq> set wts
     \<and> distinct (map wt_Barcode remaining)
     \<and> (\<forall>wt \<in> set remaining. stowed io m wt) \<and> (\<forall>wt \<in> set wts - set remaining. exported io m wt)"

lemma station_emptied_lies:
  assumes "only_station_emptied io wts m m'" "wt \<in> set wts" "lies m (wt_Barcode wt) (Slot s)" "s \<notin> io"
  shows "lies m' (wt_Barcode wt) (Slot s)"
  using assms unfolding only_station_emptied_def lies_def by (metis place.inject(1))

lemma station_emptied_exported:
  "only_station_emptied io wts m m' \<Longrightarrow> wt \<in> set wts \<Longrightarrow> exported io m wt \<Longrightarrow> exported io m' wt"
  unfolding only_station_emptied_def exported_def by blast

lemma eject_inv_step:
  assumes c: "conforming hw io tapes" and i: "eject_inv io wts remaining (tapes z)"
    and e: "Eject hw remaining z = (Inr result, z')"
  shows "set (ej_Remaining result) \<subseteq> set remaining" "distinct (map wt_Barcode (ej_Remaining result))"
    "\<And>wt. wt \<in> set (ej_Remaining result) \<Longrightarrow> lies (tapes z') (wt_Barcode wt) (Slot (wt_SourceSlot wt)) \<and> wt_SourceSlot wt \<notin> io"
    "\<And>wt. wt \<in> set wts - set (ej_Remaining result) \<Longrightarrow> exported io (tapes z') wt"
    "remaining \<noteq> [] \<Longrightarrow> \<exists>a \<in> io. tapes z (Slot a) = None \<Longrightarrow> length (ej_Remaining result) < length remaining"
proof -
  note inv = i [unfolded eject_inv_def]
  have d: "distinct (map wt_Barcode remaining)" and s: "\<forall>wt \<in> set remaining. stowed io (tapes z) wt"
    using inv by blast+
  note ok = Eject_ok [OF c d s e]
  let ?rs = "ej_Remaining result"
  have f: "?rs = filter (\<lambda>wt. wt \<in> set ?rs) remaining" using ok by blast
  show sub: "set ?rs \<subseteq> set remaining" by (subst f) auto
  show "distinct (map wt_Barcode ?rs)" by (subst f) (simp add: distinct_map_filter d)
  show "lies (tapes z') (wt_Barcode wt) (Slot (wt_SourceSlot wt)) \<and> wt_SourceSlot wt \<notin> io" if "wt \<in> set ?rs" for wt
  proof -
    have "wt \<in> set remaining" using that sub by blast
    then have "ejected_to io (tapes z') ?rs wt" "stowed io (tapes z) wt" using ok s by blast+
    then show ?thesis using that by (simp add: ejected_to_def stowed_def)
  qed
  show "exported io (tapes z') wt" if w: "wt \<in> set wts - set ?rs" for wt
  proof (cases "wt \<in> set remaining")
    case True
    then have "ejected_to io (tapes z') ?rs wt" using ok by blast
    then show ?thesis using w unfolding ejected_to_def exported_def lies_def by auto
  next
    case False
    then have x: "exported io (tapes z) wt" using inv w by blast
    have "wt_Barcode wt \<notin> wt_Barcode ` set remaining"
      using inv w False by (auto simp: distinct_map inj_on_def)
    moreover have "only_moved (wt_Barcode ` set remaining) (tapes z) (tapes z')" using ok by blast
    ultimately show ?thesis using x unfolding exported_def only_moved_def by blast
  qed
  show "length ?rs < length remaining" if "remaining \<noteq> []" "\<exists>a \<in> io. tapes z (Slot a) = None"
  proof -
    have "hd remaining \<notin> set ?rs" using ok that by blast
    moreover have "hd remaining \<in> set remaining" using that(1) by simp
    ultimately show ?thesis by (subst f) (metis length_filter_less)
  qed
qed

text \<open>The wait of an Eject pause, from the drain of stale signals to its end.\<close>

definition station_wait ::
  "('z, 'c) runtime \<Rightarrow> Library \<Rightarrow> EjectResult \<Rightarrow> 'z world \<Rightarrow> ('c + bool) \<times> 'z world" where
  "station_wait rt lib result w = waitForIOCleared rt (EffectiveIOWaitTimeout lib)
     (alert_operator rt (EjectAlert (ej_InIOStation result) (length (ej_Remaining result))) (drainStalePauseSignals w))"

definition station_contract ::
  "('z, 'c) runtime \<Rightarrow> Library \<Rightarrow> int set \<Rightarrow> ('z \<Rightarrow> media) \<Rightarrow> WrittenTape list \<Rightarrow> bool" where
  "station_contract rt lib io tapes wts \<longleftrightarrow> (\<forall>result w r w'. station_wait rt lib result w = (r, w') \<longrightarrow>
     only_station_emptied io wts (tapes (w_env w)) (tapes (w_env w'))
     \<and> (r = Inr True \<longrightarrow> (\<exists>a \<in> io. tapes (w_env w') (Slot a) = None)))"

definition eject_ends_well ::
  "int set \<Rightarrow> media \<Rightarrow> WrittenTape list \<Rightarrow> ('e, 'c) tape_path_error + unit \<Rightarrow> bool" where
  "eject_ends_well io m wts r \<longleftrightarrow>
     (case r of
        Inr _ \<Rightarrow> \<forall>wt \<in> set wts. exported io m wt
      | Inl (StationNotCleared t n) \<Rightarrow> (\<exists>rs. set rs \<subseteq> set wts \<and> length rs = n
          \<and> (\<forall>wt \<in> set rs. lies m (wt_Barcode wt) (Slot (wt_SourceSlot wt)))
          \<and> (\<forall>wt \<in> set wts - set rs. exported io m wt))
      | Inl _ \<Rightarrow> True)"

lemma eject_loop_step:
  assumes c: "conforming hw io tapes" and k: "station_contract rt lib io tapes wts"
    and i: "eject_inv io wts remaining (tapes (w_env w))" and ne: "remaining \<noteq> []"
  shows "(\<exists>r w'. eject_loop (with_library hw acts) rt lib remaining w = Some (r, w')
       \<and> eject_ends_well io (tapes (w_env w')) wts r)
    \<or> (\<exists>rs w'. eject_loop (with_library hw acts) rt lib remaining w = eject_loop (with_library hw acts) rt lib rs w'
       \<and> rs \<noteq> [] \<and> eject_inv io wts rs (tapes (w_env w')) \<and> (\<exists>a \<in> io. tapes (w_env w') (Slot a) = None)
       \<and> ((\<exists>a \<in> io. tapes (w_env w) (Slot a) = None) \<longrightarrow> length rs < length remaining))"
proof -
  obtain e z where e: "Eject hw remaining (w_env w) = (e, z)" by (metis surj_pair)
  show ?thesis
  proof (cases e)
    case (Inl x)
    then show ?thesis using e
      by (subst (1) eject_loop.simps) (simp add: with_library_def eject_ends_well_def)
  next
    case (Inr result)
    let ?rs = "ej_Remaining result"
    note step = eject_inv_step [OF c i e [unfolded Inr]]
    obtain r w1 where s: "station_wait rt lib result (w\<lparr> w_env := z \<rparr>) = (r, w1)" by (metis surj_pair)
    then have s': "waitForIOCleared rt (EffectiveIOWaitTimeout lib)
       (alert_operator rt (EjectAlert (ej_InIOStation result) (length ?rs)) (drainStalePauseSignals (w\<lparr> w_env := z \<rparr>))) = (r, w1)"
      by (simp add: station_wait_def)
    have emptied: "only_station_emptied io wts (tapes z) (tapes (w_env w1))"
      and free: "r = Inr True \<Longrightarrow> \<exists>a \<in> io. tapes (w_env w1) (Slot a) = None"
      using k [unfolded station_contract_def, rule_format, OF s] by simp_all
    have sub: "set ?rs \<subseteq> set wts" using step(1) i by (auto simp: eject_inv_def)
    have lie: "lies (tapes (w_env w1)) (wt_Barcode wt) (Slot (wt_SourceSlot wt))" if "wt \<in> set ?rs" for wt
      using station_emptied_lies [OF emptied] step(3) [OF that] sub that by blast
    have out: "exported io (tapes (w_env w1)) wt" if "wt \<in> set wts - set ?rs" for wt
      using station_emptied_exported [OF emptied] step(4) [OF that] that by blast
    show ?thesis
    proof (cases "?rs = []")
      case True
      then show ?thesis using step(4) e Inr
        by (subst (1) eject_loop.simps) (simp add: with_library_def eject_ends_well_def)
    next
      case False
      show ?thesis
      proof (cases "r = Inr True")
        case True
        have "eject_loop (with_library hw acts) rt lib remaining w = eject_loop (with_library hw acts) rt lib ?rs w1"
          using e Inr s' True False by (subst (1) eject_loop.simps) (simp add: with_library_def)
        moreover have "eject_inv io wts ?rs (tapes (w_env w1))"
          using i step(2,3) sub lie out by (auto simp: eject_inv_def stowed_def)
        ultimately show ?thesis using False free True step(5) ne by blast
      next
        case no: False
        have "\<exists>ws. set ws \<subseteq> set wts \<and> length ws = length ?rs
          \<and> (\<forall>wt \<in> set ws. lies (tapes (w_env w1)) (wt_Barcode wt) (Slot (wt_SourceSlot wt)))
          \<and> (\<forall>wt \<in> set wts - set ws. exported io (tapes (w_env w1)) wt)"
          using sub lie out by (intro exI [of _ ?rs]) blast
        then show ?thesis using e Inr s' no False
          by (subst (1) eject_loop.simps)
            (cases r, auto simp: with_library_def eject_ends_well_def)
      qed
    qed
  qed
qed

lemma eject_loop_ends:
  assumes c: "conforming hw io tapes" and k: "station_contract rt lib io tapes wts"
  shows "eject_inv io wts remaining (tapes (w_env w)) \<Longrightarrow> remaining \<noteq> []
    \<Longrightarrow> \<exists>a \<in> io. tapes (w_env w) (Slot a) = None
    \<Longrightarrow> \<exists>r w'. eject_loop (with_library hw acts) rt lib remaining w = Some (r, w')
       \<and> eject_ends_well io (tapes (w_env w')) wts r"
proof (induction "length remaining" arbitrary: remaining w rule: less_induct)
  case less
  from eject_loop_step [OF c k less(2,3), of acts] show ?case
  proof (elim disjE exE conjE)
    fix rs w'
    assume "eject_loop (with_library hw acts) rt lib remaining w = eject_loop (with_library hw acts) rt lib rs w'"
      "rs \<noteq> []" "eject_inv io wts rs (tapes (w_env w'))" "\<exists>a \<in> io. tapes (w_env w') (Slot a) = None"
      "(\<exists>a \<in> io. tapes (w_env w) (Slot a) = None) \<longrightarrow> length rs < length remaining"
    then show ?thesis using less(1) [of rs w'] less(4) by simp
  qed blast
qed

text \<open>C9: Ejecting ends, and never with a tape in a drive. On a conforming library, if a wait for the
  station only takes tapes out of it and reports a cleared station only when it has a free slot,
  then \<open>ejectPhase\<close> returns after finitely many pauses. When it succeeds every tape has left its
  drive and its storage slot for the station; when it gives up because the station was not cleared,
  exactly the number of tapes its error names lie in their storage slots and every other one went
  to the station, as the error says.\<close>

theorem eject_phase_returns:
  assumes "conforming hw io tapes" "station_contract rt lib io tapes written"
    and "distinct (map wt_Barcode written)" "\<forall>wt \<in> set written. stowed io (tapes (w_env w)) wt"
  shows "\<exists>r w'. ejectPhase (with_library hw acts) rt lib written w = Some (r, w')
    \<and> (r = Inr () \<longrightarrow> (\<forall>wt \<in> set written. exported io (tapes (w_env w')) wt))
    \<and> (\<forall>t n. r = Inl (StationNotCleared t n) \<longrightarrow> (\<exists>rs. set rs \<subseteq> set written \<and> length rs = n
          \<and> (\<forall>wt \<in> set rs. lies (tapes (w_env w')) (wt_Barcode wt) (Slot (wt_SourceSlot wt)))
          \<and> (\<forall>wt \<in> set written - set rs. exported io (tapes (w_env w')) wt)))"
proof (cases "written = []")
  case True
  then show ?thesis by (simp add: ejectPhase_def)
next
  case False
  have i: "eject_inv io written written (tapes (w_env w))" using assms(3,4) by (simp add: eject_inv_def)
  have "\<exists>r w'. eject_loop (with_library hw acts) rt lib written w = Some (r, w')
       \<and> eject_ends_well io (tapes (w_env w')) written r"
    using eject_loop_step [OF assms(1,2) i False, of acts] eject_loop_ends [OF assms(1,2), of _ _ acts]
    by (elim disjE exE conjE) (blast, metis)
  then show ?thesis using False by (auto simp: ejectPhase_def eject_ends_well_def)
qed

end
