(* ===== verification/SimTapePath.thy ===== *)
theory SimTapePath
  imports SimLibrary TapePath
begin

text \<open>The tape path on the small library of \<open>SimLibrary\<close>: concrete runs for the properties of \<open>TapePath\<close>.\<close>

definition sim_activities :: "(sim, string activity_error) tape_activities" where
  "sim_activities = with_library sim_library
     \<lparr> do_mirror = (\<lambda>src dst z. (Inr (), z)), do_load = (\<lambda>tapes allow z. (Inl ActivityTimedOut, z)),
       do_session = (\<lambda>z. (Inr (), z)), do_format = (\<lambda>dev barcode z. (Inr (), z)),
       do_write_tree = (\<lambda>input z. (Inr 7, z)),
       do_finalize = (\<lambda>dev barcode z. (Inr (''/s/indexes/'' @ barcode @ ''.xml''), z)),
       do_measure = (\<lambda>input z. (Inl (OtherErr ''no log pages''), z)), do_teardown = (\<lambda>z. z),
       do_return = (\<lambda>loaded z. (Inl ActivityTimedOut, z)), do_eject = (\<lambda>written z. (Inl ActivityTimedOut, z)) \<rparr>"

definition sim_config :: Library where
  "sim_config = \<lparr> lib_Changer = ''/dev/sch0'', lib_Drives = [''/dev/nst0'', ''/dev/nst1''], lib_BlankSlots = [1, 2, 3],
     lib_TapeCapacityBytes = 1500000000000, lib_IOWaitTimeoutSeconds = None,
     lib_WriteFailureWaitTimeoutSeconds = None, lib_AllowNonBlankTapes = False, lib_MirrorSourceChanger = [] \<rparr>"

definition sim_inputs :: write_inputs where
  "sim_inputs = \<lparr> wr_Library = sim_config, wr_Plan = \<lparr> tp_Copies = 2, tp_Tapes = [\<lparr> pt_Archives = [], pt_UsableBytes = 5 \<rparr>] \<rparr>,
     wr_Staged = [], wr_PAR2 = [], wr_Resolved = [], wr_DryRun = False \<rparr>"

text \<open>An operator who takes all tapes out of the station and resumes every pause.\<close>

definition sim_clear :: "sim \<Rightarrow> sim" where
  "sim_clear z = z\<lparr> sim_at := (sim_at z)(Slot 5 := None, Slot 6 := None) \<rparr>"

definition sim_runtime :: "(sim, string) runtime" where
  "sim_runtime = \<lparr> rt_alert = (\<lambda>a z. ((0, 0), z)), rt_select = (\<lambda>t z. (ResumeSignal, z)),
     rt_station_wait = (\<lambda>t z. (StationResume, sim_clear z)) \<rparr>"

definition sim_errors :: "string activity_error error_view" where
  "sim_errors = \<lparr> ev_Error = (\<lambda>e. ''load failed''), ev_Failure = (\<lambda>e. ''write failed''), ev_AppError = (\<lambda>e. None) \<rparr>"

definition sim_fresh :: tape_state where
  "sim_fresh = \<lparr> ts_Loaded = [], ts_Written = [], ts_Mounted = [], ts_LastCompleted = None, ts_FailingPhase = [] \<rparr>"

definition sim_world :: "sim \<Rightarrow> sim world" where
  "sim_world z = \<lparr> w_resume = 0, w_abort = 0, w_env = z \<rparr>"

lemma sim_plan: "planDriveSets (wr_Plan sim_inputs) (lib_Drives sim_config) (lib_BlankSlots sim_config)
    = Some (Inr [[sim_assign 0 ''/dev/nst0'' 1, sim_assign 1 ''/dev/nst1'' 2]])"
  by (simp add: planDriveSets_def sim_inputs_def sim_config_def tape_copies_def upt_rec nth_opt_def sim_assign_def Let_def)

lemma sim_loaded:
  "\<exists>z'. Load sim_library [sim_assign 0 ''/dev/nst0'' 1, sim_assign 1 ''/dev/nst1'' 2] False sim_start
    = Some (Inr [loaded_tape (sim_assign 0 ''/dev/nst0'' 1) ''T1'' ''/dev/sg0'' False,
                 loaded_tape (sim_assign 1 ''/dev/nst1'' 2) ''T2'' ''/dev/sg1'' False], z')
     \<and> sim_at z' = [Drive 0 \<mapsto> ''T1'', Drive 1 \<mapsto> ''T2'', Slot 3 \<mapsto> ''T3'']"
  by (simp add: sim_eval sim_start_def Let_def fun_eq_iff)

definition sim_done :: "LoadedTape list \<Rightarrow> sim \<Rightarrow> (string activity_error write_fault
    + WrittenTape list \<times> string activity_error failedTape list) \<times> sim" where
  "sim_done loaded z = (Inr (map (\<lambda>lt. written_tape lt \<lparr> dr_indexPath = ''/s/indexes/'' @ lt_Barcode lt @ ''.xml'',
     dr_measurement = no_measurement \<rparr>) loaded, []), z)"

lemma sim_write:
  assumes "loaded = [loaded_tape (sim_assign 0 ''/dev/nst0'' 1) ''T1'' ''/dev/sg0'' False,
                 loaded_tape (sim_assign 1 ''/dev/nst1'' 2) ''T2'' ''/dev/sg1'' False]"
  shows "writePhase sim_activities (\<lambda>p. 0) sim_inputs loaded z = Some (sim_done loaded z)"
  by (simp add: assms writePhase_def validateBarcodes_def drives_of_def sim_activities_def with_library_def
      run_pool.simps write_step_def archivesForTape_def sim_inputs_def loaded_tape_def sim_assign_def
      measureWriteHealth_def sim_done_def Let_def)

lemma sim_eject:
  assumes "sim_at z = [Drive 0 \<mapsto> ''T1'', Drive 1 \<mapsto> ''T2'', Slot 3 \<mapsto> ''T3'']"
    and "loaded = [loaded_tape (sim_assign 0 ''/dev/nst0'' 1) ''T1'' ''/dev/sg0'' False,
                 loaded_tape (sim_assign 1 ''/dev/nst1'' 2) ''T2'' ''/dev/sg1'' False]"
    and "written = fst (projr (fst (sim_done loaded z)))"
  shows "\<exists>result z'. Eject sim_library (ejectProjection written) z = (Inr result, z') \<and> ej_Remaining result = []"
  using assms(1) by (simp add: assms(2,3) sim_eval sim_done_def ejectProjection_def eject_fields_def written_tape_def)

theorem tape_path_writes_every_copy_witness:
  "\<exists>st' w'. runTapePath sim_activities (\<lambda>p. 0) sim_runtime sim_errors sim_inputs sim_fresh (sim_world sim_start)
      = Some (Inr (), st', w') \<and> mset (map written_copy (ts_Written st')) = {#(0, 0), (0, 1)#}"
proof -
  let ?loaded = "[loaded_tape (sim_assign 0 ''/dev/nst0'' 1) ''T1'' ''/dev/sg0'' False,
                 loaded_tape (sim_assign 1 ''/dev/nst1'' 2) ''T2'' ''/dev/sg1'' False]"
  let ?set = "[sim_assign 0 ''/dev/nst0'' 1, sim_assign 1 ''/dev/nst1'' 2]"
  obtain z1 where l: "Load sim_library ?set False sim_start = Some (Inr ?loaded, z1)"
    and at: "sim_at z1 = [Drive 0 \<mapsto> ''T1'', Drive 1 \<mapsto> ''T2'', Slot 3 \<mapsto> ''T3'']"
    using sim_loaded by blast
  let ?written = "fst (projr (fst (sim_done ?loaded z1)))"
  obtain result z2 where e: "Eject sim_library (ejectProjection ?written) z1 = (Inr result, z2)" "ej_Remaining result = []"
    using sim_eject [OF at refl refl] by blast
  have lp: "loadPhase sim_activities sim_config ?set sim_start = (Inr ?loaded, z1)"
    using l by (simp add: loadPhase_def sim_activities_def with_library_def sim_config_def)
  have wp: "writePhase sim_activities (\<lambda>p. 0) sim_inputs ?loaded z1 = Some (Inr (?written, []), z1)"
    using sim_write [OF refl, of z1] by (simp add: sim_done_def)
  have ep: "ejectPhase sim_activities sim_runtime sim_config (ejectProjection ?written) w = Some (Inr (), w\<lparr> w_env := z2 \<rparr>)"
    if "w_env w = z1" for w
    using e that by (simp add: ejectPhase_def eject_loop.simps sim_activities_def with_library_def)
      (simp add: ejectProjection_def sim_done_def)
  have lib: "wr_Library sim_inputs = sim_config" by (simp add: sim_inputs_def)
  have "\<exists>st' w'. runDriveSet sim_activities (\<lambda>p. 0) sim_runtime sim_errors sim_inputs ?set
      (sim_fresh\<lparr> ts_FailingPhase := PhaseLoad \<rparr>) (sim_world sim_start) = Some (Inr (), st', w')"
    by (subst runDriveSet.simps) (simp add: lp wp ep lib sim_world_def failedAsWritten_def Let_def del: One_nat_def)
  then obtain st' w' where "runDriveSet sim_activities (\<lambda>p. 0) sim_runtime sim_errors sim_inputs ?set
      (sim_fresh\<lparr> ts_FailingPhase := PhaseLoad \<rparr>) (sim_world sim_start) = Some (Inr (), st', w')" by blast
  then have r: "runTapePath sim_activities (\<lambda>p. 0) sim_runtime sim_errors sim_inputs sim_fresh (sim_world sim_start)
      = Some (Inr (), st', w')"
    using sim_plan by (simp add: runTapePath_def runMirrorLibrary_def sim_inputs_def sim_config_def sim_world_def Let_def)
  from tape_path_writes_every_copy [OF r [unfolded sim_activities_def]] r show ?thesis
    by (auto simp: sim_inputs_def sim_fresh_def upt_rec)
qed

lemma sim_station: "station_contract sim_runtime sim_config {5, 6} sim_tapes wts"
proof -
  have s: "station_wait sim_runtime sim_config result w
      = (Inr True, w\<lparr> w_resume := 0, w_abort := 0, w_env := sim_clear (w_env w) \<rparr>)" for result w
    by (simp add: station_wait_def waitForIOCleared_def alert_operator_def drainStalePauseSignals_def sim_runtime_def)
  have c: "sim_tapes (sim_clear z) p = (if p \<in> {Slot 5, Slot 6} then None else sim_tapes z p)" for z p
    by (simp add: sim_tapes_def sim_clear_def)
  show ?thesis
    unfolding station_contract_def only_station_emptied_def by (simp add: s c)
qed

text \<open>One free slot for two tapes: the second is exported after a pause.\<close>

theorem eject_phase_returns_witness:
  "\<exists>w'. ejectPhase sim_activities sim_runtime sim_config [sim_written 0 ''T1'' 1, sim_written 1 ''T2'' 2]
      (sim_world sim_written_state) = Some (Inr (), w')
    \<and> (\<forall>d. sim_tapes (w_env w') (Drive d) \<noteq> Some ''T2'')"
proof -
  let ?w = "[sim_written 0 ''T1'' 1, sim_written 1 ''T2'' 2]"
  have "lies (sim_tapes sim_written_state) ''T1'' (Drive 0)" "lies (sim_tapes sim_written_state) ''T2'' (Drive 1)"
    by (auto simp: lies_def sim_tapes_def sim_place_def sim_written_state_def split: if_splits)
  then have s: "\<forall>wt \<in> set ?w. stowed {5, 6} (sim_tapes (w_env (sim_world sim_written_state))) wt"
    by (auto simp: stowed_def sim_written_def sim_world_def)
  have d: "distinct (map wt_Barcode ?w)" by (simp add: sim_written_def)
  obtain r w' where r: "ejectPhase sim_activities sim_runtime sim_config ?w (sim_world sim_written_state) = Some (r, w')"
    and ok: "r = Inr () \<longrightarrow> (\<forall>wt \<in> set ?w. exported {5, 6} (sim_tapes (w_env w')) wt)"
    using eject_phase_returns [OF sim_conforming sim_station d s] unfolding sim_activities_def by blast
  have "fst (the (ejectPhase sim_activities sim_runtime sim_config ?w (sim_world sim_written_state))) = Inr ()"
    by (simp add: ejectPhase_def eject_loop.simps sim_activities_def with_library_def sim_eval sim_written_state_def
        sim_written_def sim_world_def waitForIOCleared_def alert_operator_def drainStalePauseSignals_def
        sim_runtime_def sim_clear_def del: One_nat_def)
  with r have "r = Inr ()" by simp
  with r ok show ?thesis by (auto simp: exported_def sim_written_def)
qed

end
