(* ===== verification/Workflow.thy ===== *)
theory Workflow
  imports Config
begin

text \<open>
  The workflow itself (\<open>workflows/backup/workflow.go\<close>): the ordered pipeline, and what is deferred to
  the end of a run. A phase is a function of the configuration, the run's state and the environment;
  the phases of other theories and those not modelled are its parameters. \<open>None\<close> is a phase that
  does not return.
\<close>

record 's run_state =
  rn_LastCompleted :: string
  rn_Sources :: "Source list option"
  rn_Data :: 's

type_synonym ('s, 'z, 'e) phase_fun =
  "Config \<Rightarrow> 's run_state \<Rightarrow> 'z \<Rightarrow> (('e + unit) \<times> 's run_state \<times> 'z) option"

datatype 'e backup_error =
  InvalidConfig config_error
| QueryHandlerFailed string 'e
| PhaseFailed string 'e
| AlsoFailed "'e backup_error" 'e

text \<open>
  \<open>pp_TapePath\<close> also answers the sub-phase in flight. Release and destroy answer an error or nothing,
  the alert and the staging cleanup never fail the run.
\<close>

record ('s, 'z, 'e) backup_parts =
  pp_SetQueryHandler :: "string \<Rightarrow> 'z \<Rightarrow> 'e option \<times> 'z"
  pp_Phase :: "string \<Rightarrow> ('s, 'z, 'e) phase_fun"
  pp_TapePath :: "Config \<Rightarrow> 's run_state \<Rightarrow> 'z \<Rightarrow> (('e + unit) \<times> string \<times> 's run_state \<times> 'z) option"
  pp_CreateRunSnapshots :: "'s run_state \<Rightarrow> 'z \<Rightarrow> 'e option \<times> 'z"
  pp_HoldSnapshots :: "'s run_state \<Rightarrow> 'z \<Rightarrow> 'e option \<times> 'z"
  pp_ReleaseSnapshots :: "'s run_state \<Rightarrow> 'z \<Rightarrow> 'e option \<times> 'z"
  pp_DestroyRunSnapshots :: "'s run_state \<Rightarrow> 'z \<Rightarrow> 'e option \<times> 'z"
  pp_NotifyFailure :: "string \<Rightarrow> 'e backup_error \<Rightarrow> 'z \<Rightarrow> 'z"
  pp_CleanupStaging :: "'s run_state \<Rightarrow> 'z \<Rightarrow> 'z"

section \<open>The pipeline\<close>

definition PhaseResolve :: string where "PhaseResolve = ''Resolve''"
definition PhaseSnapshot :: string where "PhaseSnapshot = ''Snapshot''"
definition PhaseHold :: string where "PhaseHold = ''Hold''"

record phase =
  ph_name :: string
  ph_tapePath :: bool
  ph_completes :: "string list"

definition plain_phase :: "string \<Rightarrow> phase" where
  "plain_phase name = \<lparr> ph_name = name, ph_tapePath = False, ph_completes = [] \<rparr>"

definition backupPhases :: "phase list" where
  "backupPhases =
     [plain_phase PhaseResolve, plain_phase ''Prepare'', plain_phase ''Pack'', plain_phase ''Generate PAR2'',
      plain_phase ''Verify'',
      \<lparr> ph_name = ''Write'', ph_tapePath = True, ph_completes = [''Load'', ''Write'', ''Eject''] \<rparr>,
      plain_phase ''Report'', plain_phase ''Burn'', plain_phase ''Deliver'']"

text \<open>What the loop over the phases leaves behind for the deferred functions.\<close>

record ('s, 'z, 'e) run_end =
  re_Result :: "'e backup_error + string list"
  re_Armed :: bool
  re_FailingPhase :: string
  re_State :: "'s run_state"
  re_Env :: 'z

definition stop ::
  "'e backup_error \<Rightarrow> bool \<Rightarrow> string \<Rightarrow> 's run_state \<Rightarrow> 'z \<Rightarrow> ('s, 'z, 'e) run_end option" where
  "stop e armed failing st z =
     Some \<lparr> re_Result = Inl e, re_Armed = armed, re_FailingPhase = failing, re_State = st, re_Env = z \<rparr>"

definition completing :: "string list \<Rightarrow> 's run_state \<Rightarrow> 's run_state" where
  "completing names st = foldl (\<lambda>s n. s\<lparr> rn_LastCompleted := n \<rparr>) st names"

definition expanded_config :: "Config \<Rightarrow> 's run_state \<Rightarrow> Config" where
  "expanded_config cfg st = (case rn_Sources st of None \<Rightarrow> cfg | Some sources \<Rightarrow> cfg\<lparr> cfg_Sources := sources \<rparr>)"

fun run_phases ::
  "('s, 'z, 'e) backup_parts \<Rightarrow> phase list \<Rightarrow> Config \<Rightarrow> string list \<Rightarrow> bool \<Rightarrow> string \<Rightarrow> 's run_state \<Rightarrow> 'z
     \<Rightarrow> ('s, 'z, 'e) run_end option" where
  "run_phases parts [] cfg done0 armed failing st z =
     Some \<lparr> re_Result = Inr done0, re_Armed = armed, re_FailingPhase = failing, re_State = st, re_Env = z \<rparr>"
| "run_phases parts (p # phases) cfg done0 armed failing st z =
     (if ph_tapePath p then
        (case pp_TapePath parts cfg st z of
           None \<Rightarrow> None
         | Some (Inl e, failing', st1, z1) \<Rightarrow> stop (PhaseFailed failing' e) armed failing' st1 z1
         | Some (Inr _, failing', st1, z1) \<Rightarrow>
             run_phases parts phases cfg (done0 @ ph_completes p) armed failing' (completing (ph_completes p) st1) z1)
      else
        (case pp_Phase parts (ph_name p) cfg st z of
           None \<Rightarrow> None
         | Some (Inl e, st1, z1) \<Rightarrow> stop (PhaseFailed (ph_name p) e) armed (ph_name p) st1 z1
         | Some (Inr _, st1, z1) \<Rightarrow>
             (let st2 = completing [ph_name p] st1; done1 = done0 @ [ph_name p] in
              if ph_name p \<noteq> PhaseResolve then run_phases parts phases cfg done1 armed (ph_name p) st2 z1
              else
                (case pp_CreateRunSnapshots parts st2 z1 of
                   (Some e, z2) \<Rightarrow> stop (PhaseFailed PhaseSnapshot e) True PhaseSnapshot st2 z2
                 | (None, z2) \<Rightarrow> (case pp_HoldSnapshots parts st2 z2 of
                     (Some e, z3) \<Rightarrow> stop (PhaseFailed PhaseHold e) True PhaseHold st2 z3
                   | (None, z3) \<Rightarrow> run_phases parts phases (expanded_config cfg st2) done1 True PhaseHold st2 z3)))))"

section \<open>A run\<close>

definition also_failed :: "'e backup_error + 'a \<Rightarrow> 'e option \<Rightarrow> 'e backup_error + 'a" where
  "also_failed r cleanupErr =
     (case r of
        Inl e \<Rightarrow> (case cleanupErr of None \<Rightarrow> Inl e | Some c \<Rightarrow> Inl (AlsoFailed e c))
      | Inr a \<Rightarrow> Inr a)"

text \<open>The deferred functions, the last one armed first.\<close>

definition run_deferred ::
  "('s, 'z, 'e) backup_parts \<Rightarrow> ('s, 'z, 'e) run_end \<Rightarrow> ('e backup_error + string list) \<times> 'z" where
  "run_deferred parts re =
     (let st = re_State re;
          (r, z1) = (if re_Armed re
             then (let (released, z1) = pp_ReleaseSnapshots parts st (re_Env re);
                       (destroyed, z2) = pp_DestroyRunSnapshots parts st z1
                   in (also_failed (also_failed (re_Result re) released) destroyed, z2))
             else (re_Result re, re_Env re));
          z2 = (case r of Inl e \<Rightarrow> pp_NotifyFailure parts (re_FailingPhase re) e z1 | Inr _ \<Rightarrow> z1)
      in (r, pp_CleanupStaging parts st z2))"

definition LastCompletedPhaseQuery :: string where "LastCompletedPhaseQuery = ''lastCompletedPhase''"
definition CurrentPauseQuery :: string where "CurrentPauseQuery = ''currentPause''"

definition Backup ::
  "('s, 'z, 'e) backup_parts \<Rightarrow> 's \<Rightarrow> Config \<Rightarrow> 'z \<Rightarrow> (('e backup_error + string list) \<times> 'z) option" where
  "Backup parts initial cfg z =
     (case Validate cfg of
        Inl e \<Rightarrow> Some (Inl (InvalidConfig e), z)
      | Inr _ \<Rightarrow> (case pp_SetQueryHandler parts LastCompletedPhaseQuery z of
          (Some e, z1) \<Rightarrow> Some (Inl (QueryHandlerFailed LastCompletedPhaseQuery e), z1)
        | (None, z1) \<Rightarrow> (case pp_SetQueryHandler parts CurrentPauseQuery z1 of
            (Some e, z2) \<Rightarrow> Some (Inl (QueryHandlerFailed CurrentPauseQuery e), z2)
          | (None, z2) \<Rightarrow> map_option (run_deferred parts)
              (run_phases parts backupPhases cfg [] False [] 
                 \<lparr> rn_LastCompleted = [], rn_Sources = None, rn_Data = initial \<rparr> z2))))"

section \<open>The order of a run\<close>

text \<open>The parts of a run with a log of what they did.\<close>

datatype event = Ran string | Released | Destroyed | Alerted string | CleanedUp

definition logged ::
  "('s, 'z, 'e) backup_parts \<Rightarrow> ('s, 'z \<times> event list, 'e) backup_parts" where
  "logged parts = \<lparr>
     pp_SetQueryHandler = (\<lambda>n (z, l). let (r, z') = pp_SetQueryHandler parts n z in (r, z', l)),
     pp_Phase = (\<lambda>n cfg st (z, l). map_option (\<lambda>(r, st', z'). (r, st', z', l @ [Ran n])) (pp_Phase parts n cfg st z)),
     pp_TapePath = (\<lambda>cfg st (z, l).
        map_option (\<lambda>(r, f, st', z'). (r, f, st', z', l @ [Ran ''Write''])) (pp_TapePath parts cfg st z)),
     pp_CreateRunSnapshots = (\<lambda>st (z, l). let (r, z') = pp_CreateRunSnapshots parts st z in (r, z', l @ [Ran PhaseSnapshot])),
     pp_HoldSnapshots = (\<lambda>st (z, l). let (r, z') = pp_HoldSnapshots parts st z in (r, z', l @ [Ran PhaseHold])),
     pp_ReleaseSnapshots = (\<lambda>st (z, l). let (r, z') = pp_ReleaseSnapshots parts st z in (r, z', l @ [Released])),
     pp_DestroyRunSnapshots = (\<lambda>st (z, l). let (r, z') = pp_DestroyRunSnapshots parts st z in (r, z', l @ [Destroyed])),
     pp_NotifyFailure = (\<lambda>f e (z, l). (pp_NotifyFailure parts f e z, l @ [Alerted f])),
     pp_CleanupStaging = (\<lambda>st (z, l). (pp_CleanupStaging parts st z, l @ [CleanedUp])) \<rparr>"

definition phase_steps :: "phase \<Rightarrow> string list" where
  "phase_steps p = (if ph_tapePath p then [''Write'']
     else if ph_name p = PhaseResolve then [PhaseResolve, PhaseSnapshot, PhaseHold] else [ph_name p])"

definition phase_completes :: "phase \<Rightarrow> string list" where
  "phase_completes p = (if ph_tapePath p then ph_completes p else [ph_name p])"

definition backup_steps :: "string list" where
  "backup_steps = [''Resolve'', ''Snapshot'', ''Hold'', ''Prepare'', ''Pack'', ''Generate PAR2'', ''Verify'', ''Write'',
     ''Report'', ''Burn'', ''Deliver'']"

lemma backup_steps: "concat (map phase_steps backupPhases) = backup_steps"
  by (simp add: backupPhases_def phase_steps_def plain_phase_def backup_steps_def PhaseResolve_def PhaseSnapshot_def
      PhaseHold_def)

fun failed_phase :: "'e backup_error \<Rightarrow> string option" where
  "failed_phase (PhaseFailed p e) = Some p"
| "failed_phase (AlsoFailed e c) = failed_phase e"
| "failed_phase _ = None"

text \<open>Having run the first \<open>k\<close> steps of \<open>steps\<close> after the log \<open>l\<close>.\<close>

definition ran ::
  "event list \<Rightarrow> string list \<Rightarrow> bool \<Rightarrow> string list \<Rightarrow> nat \<Rightarrow> ('s, 'z \<times> event list, 'e) run_end \<Rightarrow> bool" where
  "ran l steps armed names k re \<longleftrightarrow> k \<le> length steps \<and> snd (re_Env re) = l @ map Ran (take k steps)
     \<and> (re_Armed re \<longleftrightarrow> armed \<or> PhaseSnapshot \<in> set (take k steps))
     \<and> (case re_Result re of
          Inr ns \<Rightarrow> k = length steps \<and> ns = names
        | Inl e \<Rightarrow> 0 < k \<and> failed_phase e = Some (re_FailingPhase re)
            \<and> (steps ! (k - 1) \<noteq> ''Write'' \<longrightarrow> re_FailingPhase re = steps ! (k - 1)))"

lemma ran_append:
  assumes "ran (l @ map Ran s) steps (armed \<or> PhaseSnapshot \<in> set s) names k re"
  shows "ran l (s @ steps) armed names (length s + k) re"
  using assms by (auto simp: ran_def nth_append split: sum.splits)

lemma run_phases_ran:
  "run_phases (logged parts) phases cfg done0 armed failing st (z, l) = Some re
   \<Longrightarrow> (\<forall>p \<in> set phases. \<not> ph_tapePath p \<longrightarrow> ph_name p \<noteq> PhaseSnapshot)
   \<Longrightarrow> \<exists>k. ran l (concat (map phase_steps phases)) armed (done0 @ concat (map phase_completes phases)) k re"
proof (induction phases arbitrary: cfg done0 armed failing st z l)
  case Nil
  then show ?case by (auto simp: ran_def)
next
  case (Cons p phases)
  let ?rest = "concat (map phase_steps phases)" and ?names = "done0 @ phase_completes p @ concat (map phase_completes phases)"
  have go: "\<exists>k. ran l (phase_steps p @ ?rest) armed ?names k re"
    if "run_phases (logged parts) phases cfg' (done0 @ phase_completes p) armed' f st' (z', l @ map Ran (phase_steps p)) = Some re"
      "armed' \<longleftrightarrow> armed \<or> PhaseSnapshot \<in> set (phase_steps p)" for cfg' armed' f st' z'
  proof -
    have "\<forall>p \<in> set phases. \<not> ph_tapePath p \<longrightarrow> ph_name p \<noteq> PhaseSnapshot" using Cons.prems(2) by simp
    from Cons.IH [OF that(1) this] obtain k where
      "ran (l @ map Ran (phase_steps p)) ?rest armed' ((done0 @ phase_completes p) @ concat (map phase_completes phases)) k re" ..
    from ran_append [OF this [unfolded that(2)]] show ?thesis by auto
  qed
  have fail: "\<exists>k. ran l (phase_steps p @ ?rest) armed ?names k re"
    if "re = \<lparr> re_Result = Inl e, re_Armed = armed', re_FailingPhase = f, re_State = st', re_Env = (z', l @ map Ran (take k (phase_steps p))) \<rparr>"
      "0 < k" "k \<le> length (phase_steps p)" "armed' \<longleftrightarrow> armed \<or> PhaseSnapshot \<in> set (take k (phase_steps p))"
      "failed_phase e = Some f" "phase_steps p ! (k - 1) \<noteq> ''Write'' \<longrightarrow> f = phase_steps p ! (k - 1)" for e armed' f st' z' k
    using that by (intro exI [of _ k]) (auto simp: ran_def nth_append)
  have case_eq: "concat (map phase_steps (p # phases)) = phase_steps p @ ?rest"
    "done0 @ concat (map phase_completes (p # phases)) = ?names" by simp_all
  note run = Cons.prems(1)
  show ?case
    unfolding case_eq
  proof (cases "ph_tapePath p")
    case True
    have steps: "phase_steps p = [''Write'']" "phase_completes p = ph_completes p"
      using True by (simp_all add: phase_steps_def phase_completes_def)
    obtain x f st1 z1 where t: "pp_TapePath parts cfg st z = Some (x, f, st1, z1)"
      using run True by (cases "pp_TapePath parts cfg st z") (auto simp: logged_def)
    show "\<exists>k. ran l (phase_steps p @ ?rest) armed ?names k re"
    proof (cases x)
      case (Inl e)
      have "re = \<lparr> re_Result = Inl (PhaseFailed f e), re_Armed = armed, re_FailingPhase = f, re_State = st1,
          re_Env = (z1, l @ map Ran (take 1 (phase_steps p))) \<rparr>"
        using run True t Inl steps by (simp add: logged_def stop_def)
      then show ?thesis by (rule fail) (simp_all add: steps PhaseSnapshot_def)
    next
      case (Inr u)
      have "run_phases (logged parts) phases cfg (done0 @ phase_completes p) armed f
          (completing (ph_completes p) st1) (z1, l @ map Ran (phase_steps p)) = Some re"
        using run True t Inr steps by (simp add: logged_def)
      then show ?thesis by (rule go) (simp add: steps PhaseSnapshot_def)
    qed
  next
    case False
    obtain x st1 z1 where t: "pp_Phase parts (ph_name p) cfg st z = Some (x, st1, z1)"
      using run False by (cases "pp_Phase parts (ph_name p) cfg st z") (auto simp: logged_def)
    have completes: "phase_completes p = [ph_name p]" using False by (simp add: phase_completes_def)
    have other: "ph_name p \<noteq> PhaseSnapshot" using Cons.prems(2) False by simp
    have first: "hd (phase_steps p) = ph_name p" "phase_steps p \<noteq> []" "take 1 (phase_steps p) = [ph_name p]"
      "phase_steps p ! 0 = ph_name p"
      using False by (simp_all add: phase_steps_def)
    show "\<exists>k. ran l (phase_steps p @ ?rest) armed ?names k re"
    proof (cases x)
      case (Inl e)
      have "re = \<lparr> re_Result = Inl (PhaseFailed (ph_name p) e), re_Armed = armed, re_FailingPhase = ph_name p, re_State = st1,
          re_Env = (z1, l @ map Ran (take 1 (phase_steps p))) \<rparr>"
        using run False t Inl first(3) by (simp add: logged_def stop_def)
      then show ?thesis by (rule fail) (use first other in \<open>simp_all add: Suc_le_eq\<close>)
    next
      case (Inr u)
      let ?st2 = "completing [ph_name p] st1"
      show ?thesis
      proof (cases "ph_name p = PhaseResolve")
        case no: False
        then have steps: "phase_steps p = [ph_name p]" using False by (simp add: phase_steps_def)
        have "run_phases (logged parts) phases cfg (done0 @ phase_completes p) armed (ph_name p) ?st2
            (z1, l @ map Ran (phase_steps p)) = Some re"
          using run False t Inr no by (simp add: logged_def steps completes Let_def)
        then show ?thesis by (rule go) (use other in \<open>simp add: steps\<close>)
      next
        case yes: True
        then have steps: "phase_steps p = [PhaseResolve, PhaseSnapshot, PhaseHold]"
          using False by (simp add: phase_steps_def)
        obtain c z2 where c: "pp_CreateRunSnapshots parts ?st2 z1 = (c, z2)" by (metis surj_pair)
        obtain h z3 where h: "pp_HoldSnapshots parts ?st2 z2 = (h, z3)" by (metis surj_pair)
        show ?thesis
        proof (cases c)
          case (Some e)
          have "re = \<lparr> re_Result = Inl (PhaseFailed PhaseSnapshot e), re_Armed = True, re_FailingPhase = PhaseSnapshot,
              re_State = ?st2, re_Env = (z2, l @ map Ran (take 2 (phase_steps p))) \<rparr>"
            using run False t Inr yes c Some by (simp add: logged_def stop_def steps Let_def)
          then show ?thesis by (rule fail) (simp_all add: steps PhaseSnapshot_def)
        next
          case none: None
          show ?thesis
          proof (cases h)
            case (Some e)
            have "re = \<lparr> re_Result = Inl (PhaseFailed PhaseHold e), re_Armed = True, re_FailingPhase = PhaseHold,
                re_State = ?st2, re_Env = (z3, l @ map Ran (take 3 (phase_steps p))) \<rparr>"
              using run False t Inr yes c none h Some by (simp add: logged_def stop_def steps Let_def)
            then show ?thesis by (rule fail) (simp_all add: steps PhaseHold_def PhaseSnapshot_def)
          next
            case None
            have "run_phases (logged parts) phases (expanded_config cfg ?st2) (done0 @ phase_completes p) True PhaseHold ?st2
                (z3, l @ map Ran (phase_steps p)) = Some re"
              using run False t Inr yes c none h None by (simp add: logged_def steps completes Let_def)
            then show ?thesis by (rule go) (simp add: steps)
          qed
        qed
      qed
    qed
  qed
qed

lemma snapshot_step: "PhaseSnapshot \<in> set (take k backup_steps) \<longleftrightarrow> 1 < k"
proof (cases "1 < k")
  case True
  then obtain m where "k = 2 + m" using le_Suc_ex [of 2 k] by auto
  then have "k = Suc (Suc m)" by simp
  then show ?thesis by (simp add: backup_steps_def PhaseSnapshot_def)
next
  case False
  then have "k = 0 \<or> k = 1" by linarith
  then show ?thesis by (auto simp: backup_steps_def PhaseSnapshot_def)
qed

lemma write_step: "0 < k \<Longrightarrow> k \<le> length backup_steps \<Longrightarrow> k \<noteq> 8 \<Longrightarrow> backup_steps ! (k - 1) \<noteq> ''Write''"
  using nth_eq_iff_index_eq [of backup_steps "k - 1" 7] by (simp add: backup_steps_def)

lemma also_failed_keeps:
  "isl (also_failed r c) = isl r" "also_failed (Inr a) c = Inr a"
  "also_failed r c = Inl e \<Longrightarrow> \<exists>e'. r = Inl e' \<and> failed_phase e = failed_phase e'"
  by (cases r; cases c; auto simp: also_failed_def)+

lemma logged_deferred:
  "pp_ReleaseSnapshots (logged parts) st (z, l) = (let (r, z') = pp_ReleaseSnapshots parts st z in (r, z', l @ [Released]))"
  "pp_DestroyRunSnapshots (logged parts) st (z, l) = (let (r, z') = pp_DestroyRunSnapshots parts st z in (r, z', l @ [Destroyed]))"
  "pp_NotifyFailure (logged parts) f e (z, l) = (pp_NotifyFailure parts f e z, l @ [Alerted f])"
  "pp_CleanupStaging (logged parts) st (z, l) = (pp_CleanupStaging parts st z, l @ [CleanedUp])"
  by (simp_all add: logged_def)

lemma run_deferred_logged:
  assumes "run_deferred (logged parts) re = (r, z', evs)" "re_Env re = (z, l)"
  shows "evs = l @ (if re_Armed re then [Released, Destroyed] else [])
      @ (if isl (re_Result re) then [Alerted (re_FailingPhase re)] else []) @ [CleanedUp]
    \<and> isl r = isl (re_Result re) \<and> (\<forall>a. re_Result re = Inr a \<longrightarrow> r = Inr a)
    \<and> (\<forall>e. r = Inl e \<longrightarrow> (\<exists>e'. re_Result re = Inl e' \<and> failed_phase e = failed_phase e'))"
proof -
  obtain a b where a: "pp_ReleaseSnapshots parts (re_State re) z = (a, b)" by (metis surj_pair)
  obtain c d where c: "pp_DestroyRunSnapshots parts (re_State re) b = (c, d)" by (metis surj_pair)
  let ?r = "if re_Armed re then also_failed (also_failed (re_Result re) a) c else re_Result re"
  have d: "run_deferred (logged parts) re =
      (?r, (case ?r of Inl e \<Rightarrow> pp_CleanupStaging parts (re_State re) (pp_NotifyFailure parts (re_FailingPhase re) e
              (if re_Armed re then d else z))
          | Inr _ \<Rightarrow> pp_CleanupStaging parts (re_State re) (if re_Armed re then d else z)),
        l @ (if re_Armed re then [Released, Destroyed] else [])
          @ (if isl ?r then [Alerted (re_FailingPhase re)] else []) @ [CleanedUp])"
    by (cases "re_Armed re"; cases ?r) (simp_all add: run_deferred_def logged_deferred assms(2) a c Let_def)
  then have r: "r = ?r" using assms(1) by simp
  have i: "isl ?r = isl (re_Result re)" by (simp add: also_failed_keeps)
  have "evs = l @ (if re_Armed re then [Released, Destroyed] else [])
      @ (if isl ?r then [Alerted (re_FailingPhase re)] else []) @ [CleanedUp]"
    using trans [OF assms(1) [symmetric] d] by (simp only: prod.inject)
  moreover have "\<exists>e'. re_Result re = Inl e' \<and> failed_phase e = failed_phase e'" if "?r = Inl e" for e
    using that by (auto split: if_splits dest!: also_failed_keeps(3))
  ultimately show ?thesis unfolding i r by (auto simp: also_failed_keeps(2))
qed


text \<open>A run whose report fails, and whose snapshots cannot be destroyed.\<close>

definition unlucky_parts :: "(unit, unit, string) backup_parts" where
  "unlucky_parts = \<lparr> pp_SetQueryHandler = (\<lambda>n z. (None, z)),
     pp_Phase = (\<lambda>n cfg st z. Some (if n = ''Report'' then Inl ''no binaries'' else Inr (), st, z)),
     pp_TapePath = (\<lambda>cfg st z. Some (Inr (), ''Eject'', st, z)),
     pp_CreateRunSnapshots = (\<lambda>st z. (None, z)), pp_HoldSnapshots = (\<lambda>st z. (None, z)),
     pp_ReleaseSnapshots = (\<lambda>st z. (None, z)), pp_DestroyRunSnapshots = (\<lambda>st z. (Some ''busy'', z)),
     pp_NotifyFailure = (\<lambda>f e z. z), pp_CleanupStaging = (\<lambda>st z. z) \<rparr>"

lemma unlucky_steps:
  "pp_SetQueryHandler (logged unlucky_parts) n (z, l) = (None, z, l)"
  "pp_Phase (logged unlucky_parts) n cfg st (z, l)
    = Some (if n = ''Report'' then Inl ''no binaries'' else Inr (), st, z, l @ [Ran n])"
  "pp_TapePath (logged unlucky_parts) cfg st (z, l) = Some (Inr (), ''Eject'', st, z, l @ [Ran ''Write''])"
  "pp_CreateRunSnapshots (logged unlucky_parts) st (z, l) = (None, z, l @ [Ran PhaseSnapshot])"
  "pp_HoldSnapshots (logged unlucky_parts) st (z, l) = (None, z, l @ [Ran PhaseHold])"
  "pp_ReleaseSnapshots (logged unlucky_parts) st (z, l) = (None, z, l @ [Released])"
  "pp_DestroyRunSnapshots (logged unlucky_parts) st (z, l) = (Some ''busy'', z, l @ [Destroyed])"
  by (simp_all add: logged_def unlucky_parts_def)

lemma unlucky_run:
  "\<exists>z'. Backup (logged unlucky_parts) () (example_config [example_source ''pool/a'']) ((), [])
    = Some (Inl (AlsoFailed (PhaseFailed ''Report'' ''no binaries'') ''busy''), z',
        map Ran (take 9 backup_steps) @ [Released, Destroyed, Alerted ''Report'', CleanedUp])"
  by (simp add: Backup_def example_config_valid unlucky_steps backupPhases_def plain_phase_def PhaseResolve_def
      PhaseSnapshot_def PhaseHold_def Let_def run_deferred_def logged_deferred(3,4) also_failed_def stop_def backup_steps_def)


end
