(* ===== verification/Cleanup.thy ===== *)
theory Cleanup
  imports GoStrings Prelude
begin

text \<open>
  The staging cleanup (\<open>workflows/backup/cleanup.go\<close>): what a run removes from the staging directory
  when it ends. The file system is a parameter: \<open>ReadDir\<close>, whose error says whether the directory
  does not exist, and \<open>RemoveAll\<close>.
\<close>

definition filepath_Join :: "string list \<Rightarrow> string" where
  "filepath_Join elems = (let es = dropWhile (\<lambda>e. e = []) elems in if es = [] then [] else path_Clean (join_with ''/'' es))"

definition retainedRunArtifacts :: "string list" where
  "retainedRunArtifacts = [''report.pdf'', ''recovery.iso'', ''disc-manifest.sha256'']"

record ('z, 'e) cleanup_fs =
  cl_ReadDir :: "string \<Rightarrow> 'z \<Rightarrow> ('e + string list) \<times> 'z"
  cl_NotExist :: "'e \<Rightarrow> bool"
  cl_RemoveAll :: "string \<Rightarrow> 'z \<Rightarrow> 'e option \<times> 'z"

datatype 'e cleanup_error =
  StagingNotConfigured
| NoRunID
| ReadRunDir string 'e
| RemoveFailed string 'e
| CleanupFailed string "'e cleanup_error list"

text \<open>One removal: the count of removed entries and the errors so far.\<close>

definition remove_one ::
  "('z, 'e) cleanup_fs \<Rightarrow> string \<Rightarrow> nat \<times> 'e cleanup_error list \<times> 'z \<Rightarrow> nat \<times> 'e cleanup_error list \<times> 'z" where
  "remove_one fs path s =
     (let (removed, errs, z) = s in
      case cl_RemoveAll fs path z of
        (Some e, z1) \<Rightarrow> (removed, errs @ [RemoveFailed path e], z1)
      | (None, z1) \<Rightarrow> (removed + 1, errs, z1))"

definition removeRunStagingContents ::
  "('z, 'e) cleanup_fs \<Rightarrow> string \<Rightarrow> 'z \<Rightarrow> nat \<times> 'e cleanup_error list \<times> 'z" where
  "removeRunStagingContents fs runDir z =
     (case cl_ReadDir fs runDir z of
        (Inl e, z1) \<Rightarrow> if cl_NotExist fs e then (0, [], z1) else (0, [ReadRunDir runDir e], z1)
      | (Inr entries, z1) \<Rightarrow>
          foldl (\<lambda>s name. if name \<in> set retainedRunArtifacts then s else remove_one fs (filepath_Join [runDir, name]) s)
            (0, [], z1) entries)"

definition barcodeStagingPaths :: "string \<Rightarrow> string \<Rightarrow> string list" where
  "barcodeStagingPaths stagingRoot barcode =
     [filepath_Join [stagingRoot, ''mounts'', barcode], filepath_Join [stagingRoot, ''work'', barcode],
      filepath_Join [stagingRoot, ''indexes'', barcode @ ''.xml'']]"

definition cleanup_run ::
  "('z, 'e) cleanup_fs \<Rightarrow> string \<Rightarrow> string \<Rightarrow> string list \<Rightarrow> 'z \<Rightarrow> ('e cleanup_error + unit) \<times> 'z" where
  "cleanup_run fs stagingRoot runDir barcodes z =
     (let (removed, errs, z1) = foldl (\<lambda>s barcode. if barcode = [] then s
              else foldl (\<lambda>s path. remove_one fs path s) s (barcodeStagingPaths stagingRoot barcode))
            (removeRunStagingContents fs runDir z) barcodes
      in (if errs = [] then Inr () else Inl (CleanupFailed runDir errs), z1))"

definition CleanupStaging ::
  "('z, 'e) cleanup_fs \<Rightarrow> string \<Rightarrow> string \<Rightarrow> string list \<Rightarrow> 'z \<Rightarrow> ('e cleanup_error + unit) \<times> 'z" where
  "CleanupStaging fs stagingRoot runID barcodes z =
     (if stagingRoot = [] then (Inl StagingNotConfigured, z)
      else if runID = [] then (Inl NoRunID, z)
      else cleanup_run fs stagingRoot (filepath_Join [stagingRoot, runID]) barcodes z)"

definition cleanupBarcodes :: "string list \<Rightarrow> string list" where
  "cleanupBarcodes mounted = first_seen (\<lambda>b. b \<noteq> []) [] mounted"

section \<open>What a cleanup removes\<close>

definition logged_removals :: "('z, 'e) cleanup_fs \<Rightarrow> ('z \<times> string list, 'e) cleanup_fs" where
  "logged_removals fs = \<lparr>
     cl_ReadDir = (\<lambda>p (z, l). let (r, z') = cl_ReadDir fs p z in (r, z', l)),
     cl_NotExist = cl_NotExist fs,
     cl_RemoveAll = (\<lambda>p (z, l). let (r, z') = cl_RemoveAll fs p z in (r, z', l @ [p])) \<rparr>"

lemma remove_one_logged:
  "snd (snd (snd (remove_one (logged_removals fs) p (n, errs, z, l)))) = l @ [p]"
  by (simp add: remove_one_def logged_removals_def split: prod.splits option.splits)

lemma foldl_removals:
  assumes "\<And>x s. snd (snd (snd (f s x))) = snd (snd (snd s)) @ g x"
  shows "snd (snd (snd (foldl f s xs))) = snd (snd (snd s)) @ concat (map g xs)"
  by (induction xs arbitrary: s) (simp_all add: assms)

text \<open>C13: The cleanup removes exactly what belongs to the run. Without a configured staging directory or a
  run id it removes nothing. Otherwise, whatever removals fail, it removes in order the entries of
  the run's own directory that are not the report, the recovery image or its manifest, and then
  the mount point, work directory and staged index of every barcode that is not empty.\<close>

theorem cleanup_removes_only_the_runs_files:
  "snd (snd (CleanupStaging (logged_removals fs) root runID barcodes (z, []))) =
     (if root = [] \<or> runID = [] then []
      else (case fst (cl_ReadDir fs (filepath_Join [root, runID]) z) of
          Inl e \<Rightarrow> []
        | Inr entries \<Rightarrow> map (\<lambda>name. filepath_Join [filepath_Join [root, runID], name])
            (filter (\<lambda>name. name \<notin> {''report.pdf'', ''recovery.iso'', ''disc-manifest.sha256''}) entries))
        @ concat (map (barcodeStagingPaths root) (filter (\<lambda>b. b \<noteq> []) barcodes)))"
proof (cases "root = [] \<or> runID = []")
  case True
  then show ?thesis by (auto simp: CleanupStaging_def)
next
  case False
  let ?fs = "logged_removals fs" and ?dir = "filepath_Join [root, runID]"
  have one: "snd (snd (snd (remove_one ?fs p s))) = snd (snd (snd s)) @ [p]" for p and s :: "nat \<times> 'b cleanup_error list \<times> 'a \<times> string list"
    using remove_one_logged [of fs p] by (cases s) auto
  have paths: "snd (snd (snd (foldl (\<lambda>s path. remove_one ?fs path s) s ps))) = snd (snd (snd s)) @ ps"
    for ps and s :: "nat \<times> 'b cleanup_error list \<times> 'a \<times> string list"
    using foldl_removals [of "\<lambda>s path. remove_one ?fs path s" "\<lambda>p. [p]" s ps] by (simp add: one)
  obtain r z1 where r: "cl_ReadDir fs ?dir z = (r, z1)" by (metis surj_pair)
  have rd: "cl_ReadDir ?fs ?dir (z, []) = (r, z1, [])" using r by (simp add: logged_removals_def)
  have "snd (snd (snd (foldl (\<lambda>s name. if name \<in> set retainedRunArtifacts then s else remove_one ?fs (filepath_Join [?dir, name]) s)
      (0, [], z1, []) entries))) = concat (map (\<lambda>name. if name \<in> set retainedRunArtifacts then [] else [filepath_Join [?dir, name]]) entries)"
    for entries
    by (subst foldl_removals [where g = "\<lambda>name. if name \<in> set retainedRunArtifacts then [] else [filepath_Join [?dir, name]]"])
      (simp_all add: one)
  moreover have "concat (map (\<lambda>name. if name \<in> set retainedRunArtifacts then [] else [filepath_Join [?dir, name]]) entries)
      = map (\<lambda>name. filepath_Join [?dir, name]) (filter (\<lambda>name. name \<notin> {''report.pdf'', ''recovery.iso'', ''disc-manifest.sha256''}) entries)"
    for entries by (induction entries) (auto simp: retainedRunArtifacts_def)
  ultimately have contents: "snd (snd (snd (removeRunStagingContents ?fs ?dir (z, [])))) =
      (case r of Inl e \<Rightarrow> [] | Inr entries \<Rightarrow> map (\<lambda>name. filepath_Join [?dir, name])
         (filter (\<lambda>name. name \<notin> {''report.pdf'', ''recovery.iso'', ''disc-manifest.sha256''}) entries))"
    using rd by (simp add: removeRunStagingContents_def split: sum.splits)
  let ?g = "\<lambda>b. if b = [] then [] else barcodeStagingPaths root b"
  have "snd (snd (snd (foldl (\<lambda>s barcode. if barcode = [] then s
              else foldl (\<lambda>s path. remove_one ?fs path s) s (barcodeStagingPaths root barcode)) s barcodes)))
      = snd (snd (snd s)) @ concat (map ?g barcodes)" for s :: "nat \<times> 'b cleanup_error list \<times> 'a \<times> string list"
    by (rule foldl_removals) (simp add: paths)
  moreover have "concat (map ?g barcodes) = concat (map (barcodeStagingPaths root) (filter (\<lambda>b. b \<noteq> []) barcodes))"
    by (induction barcodes) auto
  ultimately show ?thesis using False contents r
    by (simp add: CleanupStaging_def cleanup_run_def case_prod_unfold Let_def)
qed

end
