(* ===== verification/Split.thy ===== *)
theory Split
  imports GoStrings "HOL-Library.List_Lexorder" "HOL-Library.Char_ord"
begin

text \<open>
  \<open>pkg/archive/split.go\<close>: cutting a stream into slice files. The file system and the source are a
  state \<open>'z\<close>; copying up to \<open>n\<close> bytes of the source into a file answers the count, the SHA-256 of
  what was written, and how it ended.
\<close>

datatype 'e copy_end = CopyFull | CopyEOF | CopyFailed 'e

record ('z, 'e) split_fs =
  sf_CtxErr :: "'z \<Rightarrow> 'e option \<times> 'z"
  sf_Create :: "string \<Rightarrow> 'z \<Rightarrow> 'e option \<times> 'z"
  sf_CopyN :: "string \<Rightarrow> nat \<Rightarrow> 'z \<Rightarrow> (nat \<times> string \<times> 'e copy_end) \<times> 'z"
  sf_Close :: "string \<Rightarrow> 'z \<Rightarrow> 'e option \<times> 'z"
  sf_Remove :: "string \<Rightarrow> 'z \<Rightarrow> 'e option \<times> 'z"
  sf_Rename :: "string \<Rightarrow> string \<Rightarrow> 'z \<Rightarrow> 'e option \<times> 'z"

record Slice =
  se_Path :: string
  se_SHA256 :: string
  se_SizeBytes :: nat

datatype 'e split_error =
  SliceSizeNotPositive int
| SplitCancelled 'e
| CreateSlice string 'e
| WriteSlice string 'e
| CloseSlice string 'e
| RemoveEmptySlice string 'e
| RenameSlice string string 'e

definition slice_path :: "string \<Rightarrow> string \<Rightarrow> nat \<Rightarrow> nat \<Rightarrow> string" where
  "slice_path dir baseName width index = path_join dir (baseName @ ''.'' @ pad0 width (itoa index))"

definition writeSlice ::
  "('z, 'e) split_fs \<Rightarrow> string \<Rightarrow> nat \<Rightarrow> 'z \<Rightarrow> ('e split_error + nat \<times> string) \<times> 'z" where
  "writeSlice fs path sliceSize z =
     (case sf_Create fs path z of
        (Some e, z1) \<Rightarrow> (Inl (CreateSlice path e), z1)
      | (None, z1) \<Rightarrow>
          (let ((written, digest, how), z2) = sf_CopyN fs path sliceSize z1; (closeErr, z3) = sf_Close fs path z2 in
           case how of
             CopyFailed e \<Rightarrow> (Inl (WriteSlice path e), z3)
           | _ \<Rightarrow> (case closeErr of
                 Some e \<Rightarrow> (Inl (CloseSlice path e), z3)
               | None \<Rightarrow> (Inr (written, digest), z3))))"

text \<open>The renames of \<open>normalizeWidth\<close>, from the slice with the given index on.\<close>

fun rename_slices ::
  "('z, 'e) split_fs \<Rightarrow> string \<Rightarrow> string \<Rightarrow> nat \<Rightarrow> nat \<Rightarrow> Slice list \<Rightarrow> 'z \<Rightarrow> ('e split_error + Slice list) \<times> 'z" where
  "rename_slices fs dir baseName width index [] z = (Inr [], z)"
| "rename_slices fs dir baseName width index (s # slices) z =
     (let newPath = slice_path dir baseName width index;
          (err, z1) = (if newPath = se_Path s then (None, z) else sf_Rename fs (se_Path s) newPath z) in
      case err of
        Some e \<Rightarrow> (Inl (RenameSlice (se_Path s) newPath e), z1)
      | None \<Rightarrow> (case rename_slices fs dir baseName width (Suc index) slices z1 of
          (Inl e, z2) \<Rightarrow> (Inl e, z2)
        | (Inr rest, z2) \<Rightarrow> (Inr (s\<lparr> se_Path := newPath \<rparr> # rest), z2)))"

definition normalizeWidth ::
  "('z, 'e) split_fs \<Rightarrow> Slice list \<Rightarrow> string \<Rightarrow> string \<Rightarrow> 'z \<Rightarrow> ('e split_error + Slice list) \<times> 'z" where
  "normalizeWidth fs slices dir baseName z =
     (if slices = [] then (Inr slices, z)
      else
        let width = length (itoa (length slices - 1)) in
        if width \<le> 3 then (Inr slices, z) else rename_slices fs dir baseName width 0 slices z)"

text \<open>A source may never end, so the loop need not.\<close>

partial_function (option) split_loop ::
  "('z, 'e) split_fs \<Rightarrow> nat \<Rightarrow> string \<Rightarrow> string \<Rightarrow> nat \<Rightarrow> Slice list \<Rightarrow> 'z
     \<Rightarrow> (('e split_error + Slice list) \<times> 'z) option" where
  "split_loop fs sliceSize dir baseName index slices z =
     (case sf_CtxErr fs z of
        (Some e, z1) \<Rightarrow> Some (Inl (SplitCancelled e), z1)
      | (None, z1) \<Rightarrow>
          (let path = slice_path dir baseName 3 index in
           case writeSlice fs path sliceSize z1 of
             (Inl e, z2) \<Rightarrow> Some (Inl e, z2)
           | (Inr (written, digest), z2) \<Rightarrow>
               if written = 0
               then (case sf_Remove fs path z2 of
                   (Some e, z3) \<Rightarrow> Some (Inl (RemoveEmptySlice path e), z3)
                 | (None, z3) \<Rightarrow> Some (normalizeWidth fs slices dir baseName z3))
               else
                 let slices' = slices @ [\<lparr> se_Path = path, se_SHA256 = digest, se_SizeBytes = written \<rparr>] in
                 if written < sliceSize then Some (normalizeWidth fs slices' dir baseName z2)
                 else split_loop fs sliceSize dir baseName (Suc index) slices' z2))"

definition Split ::
  "('z, 'e) split_fs \<Rightarrow> int \<Rightarrow> string \<Rightarrow> string \<Rightarrow> 'z \<Rightarrow> (('e split_error + Slice list) \<times> 'z) option" where
  "Split fs sliceSize dir baseName z =
     (if sliceSize \<le> 0 then Some (Inl (SliceSizeNotPositive sliceSize), z)
      else split_loop fs (nat sliceSize) dir baseName 0 [] z)"

section \<open>Order of slice names\<close>

lemma is_digit_less:
  "is_digit c \<Longrightarrow> is_digit d \<Longrightarrow> c < d \<longleftrightarrow> digit_value c < digit_value d"
  by (auto simp: is_digit_def digit_value_def less_char_def)

lemma foldl_digits:
  "foldl (\<lambda>n c. 10 * n + digit_value c) m s = m * 10 ^ length s + foldl (\<lambda>n c. 10 * n + digit_value c) 0 s"
proof (induction s arbitrary: m)
  case (Cons a s)
  show ?case using Cons.IH [of "10 * m + digit_value a"] Cons.IH [of "digit_value a"] by (simp add: algebra_simps)
qed simp

lemma atoi_Cons: "atoi (c # s) = digit_value c * 10 ^ length s + atoi s"
  using foldl_digits [of "digit_value c" s] by (simp add: atoi_def)

lemma atoi_bound: "(\<And>c. c \<in> set s \<Longrightarrow> is_digit c) \<Longrightarrow> atoi s < 10 ^ length s"
proof (induction s)
  case (Cons c s)
  then have "is_digit c" by simp
  then have "digit_value c \<le> 9" unfolding is_digit_def digit_value_def by linarith
  moreover have "atoi s < 10 ^ length s" using Cons by simp
  ultimately have "digit_value c * 10 ^ length s + atoi s < 9 * 10 ^ length s + 10 ^ length s"
    by (metis add_le_less_mono mult_le_mono1)
  then show ?case by (simp add: atoi_Cons)
qed (simp add: atoi_def)

text \<open>Digit strings of one length are ordered as their numbers.\<close>

lemma digits_less:
  "length s = length t \<Longrightarrow> (\<And>c. c \<in> set s \<union> set t \<Longrightarrow> is_digit c) \<Longrightarrow> s < t \<longleftrightarrow> atoi s < atoi t"
proof (induction s t rule: list_induct2)
  case (Cons c s d t)
  have b: "atoi s < 10 ^ length s" "atoi t < 10 ^ length s"
    using Cons.prems Cons.hyps atoi_bound [of s] atoi_bound [of t] by auto
  have dig: "is_digit c" "is_digit d" using Cons.prems by auto
  have IH: "s < t \<longleftrightarrow> atoi s < atoi t" using Cons.IH Cons.prems by auto
  consider "c < d" | "c = d" | "d < c" by fastforce
  then show ?case
  proof cases
    case 1
    then have "digit_value c + 1 \<le> digit_value d" using is_digit_less [OF dig] by simp
    then have "(digit_value c + 1) * 10 ^ length s \<le> digit_value d * 10 ^ length s" by (rule mult_le_mono1)
    then have "atoi (c # s) < atoi (d # t)" using b Cons.hyps by (simp add: atoi_Cons)
    then show ?thesis using 1 by simp
  next
    case 2
    then show ?thesis using IH Cons.hyps by (simp add: atoi_Cons)
  next
    case 3
    then have "digit_value d + 1 \<le> digit_value c" using is_digit_less [OF dig(2,1)] by simp
    then have "(digit_value d + 1) * 10 ^ length s \<le> digit_value c * 10 ^ length s" by (rule mult_le_mono1)
    then have "atoi (d # t) \<le> atoi (c # s)" using b Cons.hyps by (simp add: atoi_Cons)
    then show ?thesis using 3 by auto
  qed
qed simp

section \<open>Cutting a stream\<close>

fun chunks :: "nat \<Rightarrow> 'a list \<Rightarrow> 'a list list" where
  "chunks n xs = (if n = 0 \<or> xs = [] then [] else take n xs # chunks n (drop n xs))"

declare chunks.simps [simp del]

lemma chunks_Nil [simp]: "chunks n [] = []"
  by (simp add: chunks.simps)

lemma chunks_step: "0 < n \<Longrightarrow> xs \<noteq> [] \<Longrightarrow> chunks n xs = take n xs # chunks n (drop n xs)"
  by (subst chunks.simps) simp

lemma concat_chunks: "0 < n \<Longrightarrow> concat (chunks n xs) = xs"
proof (induction n xs rule: chunks.induct)
  case (1 n xs)
  then show ?case by (cases "xs = []") (simp_all add: chunks_step)
qed

lemma chunks_ne: "p \<in> set (chunks n xs) \<Longrightarrow> p \<noteq> []"
proof (induction n xs rule: chunks.induct)
  case (1 n xs)
  then show ?case by (subst (asm) chunks.simps) (auto split: if_splits)
qed

lemma chunks_length: "i < length (chunks n xs) \<Longrightarrow> length (chunks n xs ! i) = min n (length xs - i * n)"
proof (induction n xs arbitrary: i rule: chunks.induct)
  case (1 n xs)
  show ?case
  proof (cases "n = 0 \<or> xs = []")
    case False
    then have s: "chunks n xs = take n xs # chunks n (drop n xs)" by (simp add: chunks_step)
    show ?thesis
    proof (cases i)
      case 0
      then show ?thesis using s by (simp add: min.commute)
    next
      case (Suc j)
      then have j: "j < length (chunks n (drop n xs))" using "1.prems" s by simp
      have "length (chunks n (drop n xs) ! j) = min n (length (drop n xs) - j * n)"
        using "1.IH" [of j] False j by simp
      then show ?thesis using s Suc by (simp add: algebra_simps)
    qed
  next
    case True
    then have "chunks n xs = []" by (simp add: chunks.simps)
    then show ?thesis using "1.prems" by simp
  qed
qed

lemma list_less_append: "xs @ a < xs @ b \<longleftrightarrow> a < (b :: 'a :: linorder list)"
  by (induction xs) auto

lemma slice_path_index:
  assumes "slice_path dir b w i = slice_path dir b v j"
  shows "i = j"
proof -
  have "pad0 w (itoa i) = pad0 v (itoa j)" using assms by (simp add: slice_path_def path_join_def)
  then have "atoi (pad0 w (itoa i)) = atoi (pad0 v (itoa j))" by simp
  then show ?thesis by simp
qed

lemma slice_path_less:
  assumes "i < j" "length (itoa i) \<le> w" "length (itoa j) \<le> w"
  shows "slice_path dir b w i < slice_path dir b w j"
proof -
  have "length (pad0 w (itoa i)) = length (pad0 w (itoa j))" using assms by (simp add: pad0_def)
  then have "pad0 w (itoa i) < pad0 w (itoa j)"
    using digits_less [of "pad0 w (itoa i)" "pad0 w (itoa j)"] pad0_digits assms(1) by auto
  then have "(dir @ ''/'' @ b @ ''.'') @ pad0 w (itoa i) < (dir @ ''/'' @ b @ ''.'') @ pad0 w (itoa j)"
    by (simp only: list_less_append)
  then show ?thesis by (simp add: slice_path_def path_join_def)
qed

section \<open>What the file system promises\<close>

text \<open>
  A view of the state: the contents of each file, and what the source still has to give. An operation
  that reports success did what it says; one that fails may leave anything.
\<close>

definition split_laws ::
  "('z, 'e) split_fs \<Rightarrow> ('z \<Rightarrow> string \<rightharpoonup> string) \<Rightarrow> ('z \<Rightarrow> string) \<Rightarrow> (string \<Rightarrow> string) \<Rightarrow> bool" where
  "split_laws fs files rest sha \<longleftrightarrow>
     (\<forall>z z'. sf_CtxErr fs z = (None, z') \<longrightarrow> files z' = files z \<and> rest z' = rest z)
   \<and> (\<forall>p z z'. sf_Create fs p z = (None, z') \<longrightarrow> files z' = (files z)(p \<mapsto> []) \<and> rest z' = rest z)
   \<and> (\<forall>p n z k d how z'. sf_CopyN fs p n z = ((k, d, how), z') \<longrightarrow> (\<forall>e. how \<noteq> CopyFailed e) \<longrightarrow>
        k = min n (length (rest z)) \<and> d = sha (take n (rest z))
      \<and> files z' = (files z)(p \<mapsto> the (files z p) @ take n (rest z)) \<and> rest z' = drop n (rest z))
   \<and> (\<forall>p z z'. sf_Close fs p z = (None, z') \<longrightarrow> files z' = files z \<and> rest z' = rest z)
   \<and> (\<forall>p z z'. sf_Remove fs p z = (None, z') \<longrightarrow> files z' = (files z)(p := None) \<and> rest z' = rest z)
   \<and> (\<forall>p q z z'. sf_Rename fs p q z = (None, z') \<longrightarrow>
        files z' = (files z)(p := None, q := files z p) \<and> rest z' = rest z)"

text \<open>The slices of the parts, at one width.\<close>

definition slice_list :: "(string \<Rightarrow> string) \<Rightarrow> string \<Rightarrow> string \<Rightarrow> nat \<Rightarrow> nat \<Rightarrow> string list \<Rightarrow> Slice list" where
  "slice_list sha dir b w k parts =
     map (\<lambda>(i, part). \<lparr> se_Path = slice_path dir b w i, se_SHA256 = sha part, se_SizeBytes = length part \<rparr>) (enumerate k parts)"

lemma slice_list_simps [simp]:
  "slice_list sha dir b w k [] = []"
  "slice_list sha dir b w k (part # parts) =
     \<lparr> se_Path = slice_path dir b w k, se_SHA256 = sha part, se_SizeBytes = length part \<rparr> # slice_list sha dir b w (Suc k) parts"
  "slice_list sha dir b w k (parts @ parts') = slice_list sha dir b w k parts @ slice_list sha dir b w (k + length parts) parts'"
  by (simp_all add: slice_list_def enumerate_append_eq)

lemma slice_list_length [simp]: "length (slice_list sha dir b w k parts) = length parts"
  by (simp add: slice_list_def)

text \<open>The names a run may touch.\<close>

definition slice_name :: "string \<Rightarrow> string \<Rightarrow> string \<Rightarrow> bool" where
  "slice_name dir b p \<longleftrightarrow> (\<exists>w i. p = slice_path dir b w i)"

lemma slice_name_path [simp]: "slice_name dir b (slice_path dir b w i)"
  by (auto simp: slice_name_def)

definition holds_parts :: "(string \<rightharpoonup> string) \<Rightarrow> string \<Rightarrow> string \<Rightarrow> nat \<Rightarrow> nat \<Rightarrow> string list \<Rightarrow> bool" where
  "holds_parts f dir b w k parts \<longleftrightarrow> (\<forall>i < length parts. f (slice_path dir b w (k + i)) = Some (parts ! i))"

lemma holds_parts_Nil [simp]: "holds_parts f dir b w k []"
  by (simp add: holds_parts_def)

lemma holds_parts_Cons [simp]:
  "holds_parts f dir b w k (part # parts) \<longleftrightarrow> f (slice_path dir b w k) = Some part \<and> holds_parts f dir b w (Suc k) parts"
  by (simp add: holds_parts_def All_less_Suc2)

lemma holds_parts_append [simp]:
  "holds_parts f dir b w k (parts @ parts') \<longleftrightarrow> holds_parts f dir b w k parts \<and> holds_parts f dir b w (k + length parts) parts'"
  by (induction parts arbitrary: k) simp_all

lemma holds_parts_other:
  "(\<And>i. i < length parts \<Longrightarrow> f' (slice_path dir b w (k + i)) = f (slice_path dir b w (k + i))) \<Longrightarrow>
   holds_parts f dir b w k parts \<Longrightarrow> holds_parts f' dir b w k parts"
  by (simp add: holds_parts_def)

lemma CtxErr_law: "split_laws fs files rest sha \<Longrightarrow> sf_CtxErr fs z = (None, z') \<Longrightarrow> files z' = files z \<and> rest z' = rest z"
  by (simp add: split_laws_def)

lemma Create_law: "split_laws fs files rest sha \<Longrightarrow> sf_Create fs p z = (None, z') \<Longrightarrow> files z' = (files z)(p \<mapsto> []) \<and> rest z' = rest z"
  by (simp add: split_laws_def)

lemma Copy_law: "split_laws fs files rest sha \<Longrightarrow> sf_CopyN fs p n z = ((k, d, how), z') \<Longrightarrow> \<forall>e. how \<noteq> CopyFailed e \<Longrightarrow> 
   k = min n (length (rest z)) \<and> d = sha (take n (rest z))
    \<and> files z' = (files z)(p \<mapsto> the (files z p) @ take n (rest z)) \<and> rest z' = drop n (rest z)"
  by (simp add: split_laws_def)

lemma Close_law: "split_laws fs files rest sha \<Longrightarrow> sf_Close fs p z = (None, z') \<Longrightarrow> files z' = files z \<and> rest z' = rest z"
  by (simp add: split_laws_def)

lemma Remove_law: "split_laws fs files rest sha \<Longrightarrow> sf_Remove fs p z = (None, z') \<Longrightarrow> files z' = (files z)(p := None) \<and> rest z' = rest z"
  by (simp add: split_laws_def)

lemma Rename_law: "split_laws fs files rest sha \<Longrightarrow> sf_Rename fs p q z = (None, z') \<Longrightarrow> files z' = (files z)(p := None, q := files z p) \<and> rest z' = rest z"
  by (simp add: split_laws_def)

lemma writeSlice_success:
  assumes "writeSlice fs p n z = (Inr (k, d), z')"
  obtains z1 how z2 where "sf_Create fs p z = (None, z1)" "sf_CopyN fs p n z1 = ((k, d, how), z2)"
    "\<forall>e. how \<noteq> CopyFailed e" "sf_Close fs p z2 = (None, z')"
  using assms by (auto simp: writeSlice_def split: prod.splits option.splits copy_end.splits)

lemma writeSlice_laws:
  assumes laws: "split_laws fs files rest sha" and run: "writeSlice fs p n z = (Inr (k, d), z')"
  shows "k = min n (length (rest z)) \<and> d = sha (take n (rest z))
    \<and> files z' = (files z)(p \<mapsto> take n (rest z)) \<and> rest z' = drop n (rest z)"
proof -
  obtain z1 how z2 where w: "sf_Create fs p z = (None, z1)" "sf_CopyN fs p n z1 = ((k, d, how), z2)"
    "\<forall>e. how \<noteq> CopyFailed e" "sf_Close fs p z2 = (None, z')"
    using writeSlice_success [OF run] by metis
  show ?thesis
    using Create_law [OF laws w(1)] Copy_law [OF laws w(2,3)] Close_law [OF laws w(4)] by simp
qed

section \<open>The renames and the loop\<close>

lemma rename_slices_result:
  assumes laws: "split_laws fs files rest sha"
  shows "rename_slices fs dir b w k (slice_list sha dir b v k parts) z = (Inr out, z') \<Longrightarrow>
    holds_parts (files z) dir b v k parts \<Longrightarrow>
    out = slice_list sha dir b w k parts \<and> holds_parts (files z') dir b w k parts
    \<and> (\<forall>p. (\<forall>u. \<forall>i \<ge> k. p \<noteq> slice_path dir b u i) \<longrightarrow> files z' p = files z p)"
proof (induction parts arbitrary: k z out)
  case (Cons part parts)
  let ?old = "slice_path dir b v k" and ?new = "slice_path dir b w k"
  obtain z1 rest' where step: "(if ?new = ?old then (None, z) else sf_Rename fs ?old ?new z) = (None, z1)"
    and tl: "rename_slices fs dir b w (Suc k) (slice_list sha dir b v (Suc k) parts) z1 = (Inr rest', z')"
    and out: "out = \<lparr> se_Path = ?new, se_SHA256 = sha part, se_SizeBytes = length part \<rparr> # rest'"
    using Cons.prems(1) by (auto simp: Let_def cong: if_cong split: prod.splits option.splits sum.splits)
  have f1: "files z1 = (files z)(?old := None, ?new := files z ?old)"
    using step Rename_law [OF laws, of ?old ?new z z1] by (auto split: if_splits)
  have other: "files z1 p = files z p" if "\<forall>u. p \<noteq> slice_path dir b u k" for p
    using that by (simp add: f1)
  have "holds_parts (files z1) dir b v (Suc k) parts"
    using Cons.prems(2) by (auto elim!: holds_parts_other [rotated] intro!: other dest: slice_path_index)
  from Cons.IH [OF tl this] have IH: "rest' = slice_list sha dir b w (Suc k) parts"
    "holds_parts (files z') dir b w (Suc k) parts"
    "\<And>p. (\<forall>u. \<forall>i \<ge> Suc k. p \<noteq> slice_path dir b u i) \<Longrightarrow> files z' p = files z1 p" by blast+
  have "files z' ?new = files z1 ?new"
  proof (rule IH(3), intro allI impI notI)
    fix u i assume "Suc k \<le> i" "?new = slice_path dir b u i"
    then show False using slice_path_index [of dir b w k u i] by simp
  qed
  then have "files z' ?new = Some part" using Cons.prems(2) by (simp add: f1)
  moreover have "files z' p = files z p" if "\<forall>u. \<forall>i \<ge> k. p \<noteq> slice_path dir b u i" for p
    using that IH(3) [of p] other [of p] by auto
  ultimately show ?case using IH(1,2) out by simp
qed simp

lemma normalizeWidth_result:
  assumes laws: "split_laws fs files rest sha"
    and run: "normalizeWidth fs (slice_list sha dir b 3 0 parts) dir b z = (Inr out, z')"
    and held: "holds_parts (files z) dir b 3 0 parts"
  obtains w where "out = slice_list sha dir b w 0 parts" "holds_parts (files z') dir b w 0 parts"
    "\<And>i. i < length parts \<Longrightarrow> length (itoa i) \<le> w"
    "\<And>p. \<not> slice_name dir b p \<Longrightarrow> files z' p = files z p"
proof -
  let ?w = "length (itoa (length parts - 1))"
  have fits: "length (itoa i) \<le> ?w" if "i < length parts" for i using that by (intro length_itoa_mono) simp
  have empty: "slice_list sha dir b 3 0 parts = [] \<longleftrightarrow> parts = []" by (metis length_0_conv slice_list_length)
  show ?thesis
  proof (cases "parts = [] \<or> ?w \<le> 3")
    case True
    then have "out = slice_list sha dir b 3 0 parts" "z' = z"
      using run empty by (auto simp: normalizeWidth_def Let_def)
    then show ?thesis using that [of 3] held fits True order_trans by fastforce
  next
    case False
    then have run': "rename_slices fs dir b ?w 0 (slice_list sha dir b 3 0 parts) z = (Inr out, z')"
      using run empty by (simp add: normalizeWidth_def Let_def)
    note r = rename_slices_result [OF laws run' held]
    show ?thesis
    proof (rule that [of ?w])
      show "files z' p = files z p" if "\<not> slice_name dir b p" for p
        using r that unfolding slice_name_def by blast
    qed (use r fits in auto)
  qed
qed

text \<open>What the loop hands to \<open>normalizeWidth\<close> when it succeeds.\<close>

definition loop_done ::
  "('z, 'e) split_fs \<Rightarrow> ('z \<Rightarrow> string \<rightharpoonup> string) \<Rightarrow> (string \<Rightarrow> string) \<Rightarrow> string \<Rightarrow> string \<Rightarrow> string list \<Rightarrow> 'z
     \<Rightarrow> 'e split_error + Slice list \<Rightarrow> 'z \<Rightarrow> bool" where
  "loop_done fs files sha dir b parts z r z' \<longleftrightarrow>
     (\<forall>out. r = Inr out \<longrightarrow> (\<exists>z2. normalizeWidth fs (slice_list sha dir b 3 0 parts) dir b z2 = (Inr out, z')
        \<and> holds_parts (files z2) dir b 3 0 parts \<and> (\<forall>p. \<not> slice_name dir b p \<longrightarrow> files z2 p = files z p)))"

lemma loop_done_Inl [simp]: "loop_done fs files sha dir b parts z (Inl e) z'"
  by (simp add: loop_done_def)

lemma holds_parts_upd [simp]:
  "length parts \<le> i \<Longrightarrow> holds_parts (f (slice_path dir b w i := c)) dir b w 0 parts \<longleftrightarrow> holds_parts f dir b w 0 parts"
proof -
  assume i: "length parts \<le> i"
  have "slice_path dir b w j \<noteq> slice_path dir b w i" if "j < length parts" for j
    using slice_path_index [of dir b w j w i] that i by auto
  then show ?thesis by (auto simp: holds_parts_def)
qed

lemma split_loop_result:
  assumes laws: "split_laws fs files rest sha" and n: "0 < n"
  shows "holds_parts (files z) dir b 3 0 ps \<Longrightarrow>
    \<exists>r z'. split_loop fs n dir b (length ps) (slice_list sha dir b 3 0 ps) z = Some (r, z')
      \<and> loop_done fs files sha dir b (ps @ chunks n (rest z)) z r z'"
proof (induction "length (rest z)" arbitrary: z ps rule: less_induct)
  case less
  let ?p = "slice_path dir b 3 (length ps)"
  obtain c z1 where c: "sf_CtxErr fs z = (c, z1)" by (cases "sf_CtxErr fs z")
  show ?case
  proof (cases c)
    case (Some e)
    then show ?thesis using c by (subst split_loop.simps) simp
  next
    case None
    have z1: "files z1 = files z" "rest z1 = rest z" using CtxErr_law [OF laws] c None by auto
    obtain w z2 where w: "writeSlice fs ?p n z1 = (w, z2)" by (cases "writeSlice fs ?p n z1")
    show ?thesis
    proof (cases w)
      case (Inl e)
      then show ?thesis using c None w by (subst split_loop.simps) (simp add: Let_def)
    next
      case (Inr kd)
      obtain k d where kd: "kd = (k, d)" by (cases kd)
      have z2: "k = min n (length (rest z))" "d = sha (take n (rest z))"
        "files z2 = (files z)(?p \<mapsto> take n (rest z))" "rest z2 = drop n (rest z)"
        using writeSlice_laws [OF laws, of ?p n z1 k d z2] w Inr kd z1 by auto
      have held: "holds_parts (files z2) dir b 3 0 ps" using less.prems z2(3) by simp
      show ?thesis
      proof (cases "k = 0")
        case True
        then have "rest z = []" using z2(1) n by (simp add: min_def split: if_splits)
        obtain m z3 where m: "sf_Remove fs ?p z2 = (m, z3)" by (cases "sf_Remove fs ?p z2")
        show ?thesis
        proof (cases m)
          case None': None
          have f3: "files z3 = (files z)(?p := None)" using Remove_law [OF laws] m None' z2(3) by fastforce
          obtain r z' where r: "normalizeWidth fs (slice_list sha dir b 3 0 ps) dir b z3 = (r, z')" by fastforce
          have "loop_done fs files sha dir b ps z r z'"
            using r held less.prems f3 unfolding loop_done_def by (auto intro!: exI [of _ z3])
          then show ?thesis using c None w Inr kd True m None' r \<open>rest z = []\<close>
            by (subst split_loop.simps) (simp add: Let_def)
        qed (use c None w Inr kd True m in \<open>subst split_loop.simps, simp add: Let_def\<close>)
      next
        case False
        then have ne: "rest z \<noteq> []" using z2(1) by auto
        let ?ps = "ps @ [take n (rest z)]"
        have all: "ps @ chunks n (rest z) = ?ps @ chunks n (rest z2)" using chunks_step [OF n ne] z2(4) by simp
        have held2: "holds_parts (files z2) dir b 3 0 ?ps" using held z2(3) by simp
        have other: "files z2 p = files z p" if "\<not> slice_name dir b p" for p
          using that z2(3) by auto
        have sl: "slice_list sha dir b 3 0 ps @ [\<lparr> se_Path = ?p, se_SHA256 = d, se_SizeBytes = k \<rparr>]
            = slice_list sha dir b 3 0 ?ps" using z2 by simp
        show ?thesis
        proof (cases "k < n")
          case True
          then have "rest z2 = []" using z2 by simp
          obtain r z' where r: "normalizeWidth fs (slice_list sha dir b 3 0 ?ps) dir b z2 = (r, z')" by fastforce
          have "loop_done fs files sha dir b ?ps z r z'"
            unfolding loop_done_def using r held2 other by blast
          then show ?thesis using c None w Inr kd False True r sl all \<open>rest z2 = []\<close>
            by (subst split_loop.simps) (simp add: Let_def del: slice_list_simps)
        next
          case False2: False
          have lt: "length (rest z2) < length (rest z)" using z2(4) n ne by simp
          obtain r z' where r: "split_loop fs n dir b (length ?ps) (slice_list sha dir b 3 0 ?ps) z2 = Some (r, z')"
            and d: "loop_done fs files sha dir b (?ps @ chunks n (rest z2)) z2 r z'"
            using less.hyps [OF lt held2] by blast
          have "loop_done fs files sha dir b (?ps @ chunks n (rest z2)) z r z'"
            using d other unfolding loop_done_def by fastforce
          then show ?thesis using c None w Inr kd False False2 r sl all
            by (subst split_loop.simps) (simp add: Let_def del: slice_list_simps)
        qed
      qed
    qed
  qed
qed

section \<open>The property\<close>

lemma slice_list_nth:
  "i < length parts \<Longrightarrow> slice_list sha dir b w 0 parts ! i
     = \<lparr> se_Path = slice_path dir b w i, se_SHA256 = sha (parts ! i), se_SizeBytes = length (parts ! i) \<rparr>"
  by (simp add: slice_list_def nth_enumerate_eq)

lemma sort_slice_paths:
  assumes "\<And>i. i < length parts \<Longrightarrow> length (itoa i) \<le> w"
  shows "sort (map se_Path (slice_list sha dir b w 0 parts)) = map se_Path (slice_list sha dir b w 0 parts)"
proof -
  have "sorted (map (slice_path dir b w) [0..<length parts])"
    unfolding sorted_wrt_map sorted_wrt_iff_nth_less
    using slice_path_less [of _ _ w dir b] assms by (auto intro: less_imp_le)
  moreover have "map se_Path (slice_list sha dir b w 0 parts) = map (slice_path dir b w) [0..<length parts]"
    by (rule nth_equalityI) (simp_all add: slice_list_nth)
  ultimately show ?thesis by (simp add: sorted_sort_id)
qed

lemma holds_parts_read:
  "holds_parts f dir b w 0 parts \<Longrightarrow> map (\<lambda>p. the (f p)) (map se_Path (slice_list sha dir b w 0 parts)) = parts"
  by (rule nth_equalityI) (simp_all add: slice_list_nth holds_parts_def)

text \<open>C20:
  Splitting a stream always ends, and when it succeeds the recovery procedure works: reading the slice
  files in lexical order gives back the stream. Each slice is recorded with the digest and size of its
  file, all have the slice size but the last, which is not empty, and no other file is touched.\<close>

theorem split_roundtrip:
  assumes "split_laws fs files rest sha" and "0 < sliceSize"
  shows "\<exists>r z'. Split fs sliceSize dir b z = Some (r, z') \<and> (\<forall>out. r = Inr out \<longrightarrow>
      concat (map (\<lambda>p. the (files z' p)) (sort (map se_Path out))) = rest z
    \<and> (\<forall>i < length out. \<exists>part. files z' (se_Path (out ! i)) = Some part \<and> se_SHA256 (out ! i) = sha part
          \<and> se_SizeBytes (out ! i) = length part \<and> part \<noteq> []
          \<and> length part = min (nat sliceSize) (length (rest z) - i * nat sliceSize))
    \<and> (\<forall>p. (\<nexists>w i. p = slice_path dir b w i) \<longrightarrow> files z' p = files z p))"
proof -
  have n: "0 < nat sliceSize" using assms(2) by simp
  let ?parts = "chunks (nat sliceSize) (rest z)"
  obtain r z' where r: "split_loop fs (nat sliceSize) dir b 0 [] z = Some (r, z')"
    and d: "loop_done fs files sha dir b ?parts z r z'"
    using split_loop_result [OF assms(1) n, of z dir b "[]"] by auto
  show ?thesis
  proof (rule exI, rule exI, intro conjI allI impI)
    show "Split fs sliceSize dir b z = Some (r, z')" using r assms(2) by (simp add: Split_def)
  next
    fix out assume "r = Inr out"
    then obtain z2 where norm: "normalizeWidth fs (slice_list sha dir b 3 0 ?parts) dir b z2 = (Inr out, z')"
      and held: "holds_parts (files z2) dir b 3 0 ?parts"
      and other: "\<And>p. \<not> slice_name dir b p \<Longrightarrow> files z2 p = files z p"
      using d unfolding loop_done_def by blast
    obtain w where w: "out = slice_list sha dir b w 0 ?parts" "holds_parts (files z') dir b w 0 ?parts"
      "\<And>i. i < length ?parts \<Longrightarrow> length (itoa i) \<le> w"
      "\<And>p. \<not> slice_name dir b p \<Longrightarrow> files z' p = files z2 p"
      using normalizeWidth_result [OF assms(1) norm held] by blast
    show "concat (map (\<lambda>p. the (files z' p)) (sort (map se_Path out))) = rest z"
      using sort_slice_paths [OF w(3)] holds_parts_read [OF w(2)] concat_chunks [OF n] w(1) by simp
    show "\<exists>part. files z' (se_Path (out ! i)) = Some part \<and> se_SHA256 (out ! i) = sha part
          \<and> se_SizeBytes (out ! i) = length part \<and> part \<noteq> []
          \<and> length part = min (nat sliceSize) (length (rest z) - i * nat sliceSize)" if "i < length out" for i
    proof -
      have i: "i < length ?parts" using that w(1) by simp
      then show ?thesis using w(1,2) chunks_length [OF i] chunks_ne [OF nth_mem [OF i]]
        by (simp add: slice_list_nth holds_parts_def)
    qed
    show "files z' p = files z p" if "\<nexists>w i. p = slice_path dir b w i" for p
      using that other w(4) by (simp add: slice_name_def)
  qed
qed

text \<open>A volume in memory, to evaluate the code on.\<close>

definition mem_split_fs :: "((string \<rightharpoonup> string) \<times> string, unit) split_fs" where
  "mem_split_fs = \<lparr>
     sf_CtxErr = (\<lambda>z. (None, z)),
     sf_Create = (\<lambda>p z. (None, ((fst z)(p \<mapsto> []), snd z))),
     sf_CopyN = (\<lambda>p n z. ((min n (length (snd z)), itoa (length (take n (snd z))), if n \<le> length (snd z) then CopyFull else CopyEOF),
        ((fst z)(p \<mapsto> the (fst z p) @ take n (snd z)), drop n (snd z)))),
     sf_Close = (\<lambda>p z. (None, z)),
     sf_Remove = (\<lambda>p z. (None, ((fst z)(p := None), snd z))),
     sf_Rename = (\<lambda>p q z. (None, ((fst z)(p := None, q := fst z p), snd z))) \<rparr>"

lemma mem_split_laws: "split_laws mem_split_fs fst snd (\<lambda>s. itoa (length s))"
  by (auto simp: split_laws_def mem_split_fs_def)

lemma mem_split_run:
  "\<exists>z'. Split mem_split_fs 3 ''d'' ''b'' (Map.empty, ''abcdefgh'')
     = Some (Inr [\<lparr> se_Path = ''d/b.000'', se_SHA256 = ''3'', se_SizeBytes = 3 \<rparr>,
                  \<lparr> se_Path = ''d/b.001'', se_SHA256 = ''3'', se_SizeBytes = 3 \<rparr>,
                  \<lparr> se_Path = ''d/b.002'', se_SHA256 = ''2'', se_SizeBytes = 2 \<rparr>], z')"
  apply (simp add: Split_def split_loop.simps writeSlice_def mem_split_fs_def slice_path_def path_join_def pad0_def
      itoa.simps digit_def normalizeWidth_def Let_def numeral_3_eq_3)
  by code_simp

theorem split_roundtrip_witness:
  "\<exists>out z'. Split mem_split_fs 3 ''d'' ''b'' (Map.empty, ''abcdefgh'') = Some (Inr out, z')
     \<and> concat (map (\<lambda>p. the (fst z' p)) (sort (map se_Path out))) = ''abcdefgh''"
proof -
  obtain out z' where s: "Split mem_split_fs 3 ''d'' ''b'' (Map.empty, ''abcdefgh'') = Some (Inr out, z')"
    using mem_split_run by blast
  show ?thesis using split_roundtrip [OF mem_split_laws, of 3 "''d''" "''b''" "(Map.empty, ''abcdefgh'')"] s
    by auto
qed

end
