(* ===== verification/TarHeader.thy ===== *)
theory TarHeader
  imports GoStrings "HOL-Library.Char_ord"
begin

text \<open>
  \<open>pkg/archive/tar_sparse.go\<close>, first half: the hand-encoded parts of a tar member, that is PAX records
  and ustar header blocks, and a reader of both written from the formats' documentation. Bytes are
  characters; a Go slice-bounds panic is \<open>None\<close>.
\<close>

section \<open>Octal numbers\<close>

fun otoa :: "nat \<Rightarrow> string" where
  "otoa n = (if n < 8 then [digit n] else otoa (n div 8) @ [digit (n mod 8)])"

declare otoa.simps [simp del]

definition FormatOctal :: "int \<Rightarrow> string" where
  "FormatOctal x = (if x < 0 then CHR ''-'' # otoa (nat (- x)) else otoa (nat x))"

definition is_octal :: "char \<Rightarrow> bool" where
  "is_octal c \<longleftrightarrow> is_digit c \<and> digit_value c < 8"

definition otoi :: "string \<Rightarrow> nat" where
  "otoi s = foldl (\<lambda>n c. 8 * n + digit_value c) 0 s"

lemma otoi_otoa [simp]: "otoi (otoa n) = n"
proof (induction n rule: otoa.induct)
  case (1 n)
  then show ?case by (subst otoa.simps) (auto simp: otoi_def)
qed

lemma otoa_octal: "c \<in> set (otoa n) \<Longrightarrow> is_octal c"
proof (induction n rule: otoa.induct)
  case (1 n)
  then show ?case using otoa.simps [of n] by (auto simp: is_octal_def split: if_splits)
qed

lemma otoa_nonempty [simp]: "otoa n \<noteq> []"
  by (subst otoa.simps) simp

lemma length_otoa: "n < 8 ^ k \<Longrightarrow> 0 < k \<Longrightarrow> length (otoa n) \<le> k"
proof (induction n arbitrary: k rule: otoa.induct)
  case (1 n)
  show ?case
  proof (cases "n < 8")
    case True
    then show ?thesis using "1.prems" by (subst otoa.simps) simp
  next
    case False
    then obtain j where j: "k = Suc j" "0 < j" using "1.prems" by (cases k; cases "k - 1") auto
    have "n div 8 < 8 ^ j" using "1.prems" j by (simp add: less_mult_imp_div_less mult.commute)
    then have "length (otoa (n div 8)) \<le> j" using "1.IH" [OF False _ j(2)] by simp
    then show ?thesis using False j by (subst otoa.simps) simp
  qed
qed

lemma otoi_zeros: "otoi (replicate k (CHR ''0'') @ s) = otoi s"
proof -
  have "foldl (\<lambda>n c. 8 * n + digit_value c) 0 (replicate k (CHR ''0'')) = 0"
    by (induction k) (simp_all add: digit_value_def)
  then show ?thesis by (simp add: otoi_def)
qed

lemma zero_octal [simp]: "is_octal (CHR ''0'')"
  by (simp add: is_octal_def is_digit_def digit_value_def)

section \<open>Bytes of a block\<close>

definition blockSize :: nat where
  "blockSize = 512"

definition blockPadding :: "int \<Rightarrow> int" where
  "blockPadding n = (if n smod 512 \<noteq> 0 then 512 - n smod 512 else 0)"

definition zeros :: "nat \<Rightarrow> string" where
  "zeros n = replicate n (CHR 0x00)"

text \<open>\<open>copy(block[lo:hi], s)\<close>, and reading \<open>block[lo:hi]\<close>.\<close>

definition copy_at :: "nat \<Rightarrow> nat \<Rightarrow> string \<Rightarrow> string \<Rightarrow> string" where
  "copy_at lo hi s block = (let t = take (hi - lo) s in take lo block @ t @ drop (lo + length t) block)"

definition block_field :: "nat \<Rightarrow> nat \<Rightarrow> string \<Rightarrow> string" where
  "block_field lo hi block = take (hi - lo) (drop lo block)"

definition copyField :: "nat \<Rightarrow> string \<Rightarrow> string" where
  "copyField width s = take width s"

text \<open>A field holding \<open>x\<close>: the slice bounds panic when it does not fit.\<close>

definition putNumber :: "nat \<Rightarrow> int \<Rightarrow> string option" where
  "putNumber width x =
     (let octal = FormatOctal x in
      if width < 1 + length octal then None
      else Some (replicate (width - 1 - length octal) (CHR ''0'') @ octal @ [CHR 0x00]))"

definition fitsOctal :: "nat \<Rightarrow> int \<Rightarrow> bool" where
  "fitsOctal width x \<longleftrightarrow> 0 \<le> x \<and> x < 2 ^ (3 * (width - 1))"

definition isASCII :: "string \<Rightarrow> bool" where
  "isASCII s \<longleftrightarrow> list_all (\<lambda>c. (of_char c :: nat) < 128 \<and> c \<noteq> CHR 0x00) s"

definition toASCII :: "string \<Rightarrow> string" where
  "toASCII s = (if isASCII s then s else filter (\<lambda>c. (of_char c :: nat) < 128 \<and> c \<noteq> CHR 0x00) s)"

definition byte_sum :: "string \<Rightarrow> nat" where
  "byte_sum s = sum_list (map of_char s)"

definition putChecksum :: "string \<Rightarrow> string" where
  "putChecksum block0 =
     (let block = copy_at 148 156 (replicate 8 (CHR '' '')) block0;
          sum = byte_sum block in
      copy_at 155 156 '' '' (copy_at 154 155 [CHR 0x00] (copy_at 148 154 (pad0 6 (otoa sum)) block)))"

record rawHeader =
  rh_name :: string
  rh_mode :: int
  rh_uid :: int
  rh_gid :: int
  rh_size :: int
  rh_modTime :: int
  rh_typeflag :: char
  rh_uname :: string
  rh_gname :: string

text \<open>The block that \<open>writeTo\<close> writes.\<close>

definition header_block :: "rawHeader \<Rightarrow> string option" where
  "header_block h =
     (case (putNumber 8 (rh_mode h), putNumber 8 (rh_uid h), putNumber 8 (rh_gid h),
            putNumber 12 (rh_size h), putNumber 12 (rh_modTime h)) of
        (Some mode, Some uid, Some gid, Some sz, Some modTime) \<Rightarrow>
          Some (putChecksum (copy_at 297 329 (copyField 32 (rh_gname h)) (copy_at 265 297 (copyField 32 (rh_uname h))
            (copy_at 263 265 ''00'' (copy_at 257 263 (''ustar'' @ [CHR 0x00]) (copy_at 156 157 [rh_typeflag h]
            (copy_at 136 148 modTime (copy_at 124 136 sz (copy_at 116 124 gid (copy_at 108 116 uid
            (copy_at 100 108 mode (copy_at 0 100 (copyField 100 (rh_name h)) (zeros blockSize)))))))))))))
      | _ \<Rightarrow> None)"

definition ustarName :: "string \<Rightarrow> string" where
  "ustarName name = (let name = toASCII name in if length name \<le> 100 then name else drop (length name - 100) name)"

definition paxHeaderName :: "string \<Rightarrow> string" where
  "paxHeaderName name = (let full = ''PaxHeaders.0/'' @ toASCII (path_Base name) in take 100 full)"

section \<open>PAX records\<close>

record paxRecord =
  pr_key :: string
  pr_value :: string

text \<open>The length counts itself: the loop looks for a fixed point.\<close>

definition record_size :: "nat \<Rightarrow> nat \<Rightarrow> nat" where
  "record_size payload n = length (itoa n) + payload"

partial_function (option) fix_size :: "nat \<Rightarrow> nat \<Rightarrow> nat option" where
  "fix_size payload n =
     (if n = record_size payload n then Some n else fix_size payload (record_size payload n))"

definition formatPaxRecord :: "string \<Rightarrow> string \<Rightarrow> string option" where
  "formatPaxRecord key val =
     (let payload = length key + length val + length ('' ='' @ [CHR 0x0A]) in
      case fix_size payload (payload + length (itoa payload)) of
        None \<Rightarrow> None
      | Some n \<Rightarrow> Some (itoa n @ '' '' @ key @ ''='' @ val @ [CHR 0x0A]))"

record tar_time =
  tm_Unix :: int
  tm_Nanosecond :: nat

text \<open>Go's zero time is the first second of year 1.\<close>

definition IsZero :: "tar_time \<Rightarrow> bool" where
  "IsZero t \<longleftrightarrow> tm_Unix t = - 62135596800 \<and> tm_Nanosecond t = 0"

definition formatPaxTime :: "tar_time \<Rightarrow> string" where
  "formatPaxTime t =
     (let secs = tm_Unix t; nanos = tm_Nanosecond t in
      if nanos \<noteq> 0 \<and> secs < 0 then ''-'' @ itoa_int (- (secs + 1)) @ ''.'' @ pad0 9 (itoa (1000000000 - nanos))
      else if nanos \<noteq> 0 then itoa_int secs @ ''.'' @ pad0 9 (itoa nanos)
      else itoa_int secs)"

lemma length_itoa_le: "length (itoa n) \<le> Suc (n div 10)"
proof (induction n rule: itoa.induct)
  case (1 n)
  show ?case
  proof (cases "n < 10")
    case False
    then have "Suc (n div 10 div 10) \<le> n div 10" by auto
    then show ?thesis using "1.IH" [OF False] False by (simp add: itoa.simps [of n])
  qed (simp add: itoa.simps)
qed

lemma record_size_mono: "s \<le> t \<Longrightarrow> record_size payload s \<le> record_size payload t"
  by (simp add: record_size_def length_itoa_mono)

lemma fix_size_Some:
  assumes "record_size payload b \<le> b"
  shows "s \<le> record_size payload s \<Longrightarrow> s \<le> b \<Longrightarrow> \<exists>r. fix_size payload s = Some r \<and> r = record_size payload r"
proof (induction "b - s" arbitrary: s rule: less_induct)
  case less
  let ?t = "record_size payload s"
  show ?case
  proof (cases "s = ?t")
    case True
    then show ?thesis by (subst fix_size.simps) auto
  next
    case False
    have "?t \<le> b" using record_size_mono [OF less.prems(2), of payload] assms by simp
    moreover have "?t \<le> record_size payload ?t" using less.prems(1) by (rule record_size_mono)
    ultimately have "\<exists>r. fix_size payload ?t = Some r \<and> r = record_size payload r"
      using less False by simp
    then show ?thesis using False by (subst fix_size.simps) simp
  qed
qed

text \<open>The loop ends, and the length it ends with is that of the record.\<close>

lemma formatPaxRecord_Some:
  obtains n where "formatPaxRecord k v = Some (itoa n @ '' '' @ k @ ''='' @ v @ [CHR 0x0A])"
    "n = length (itoa n) + length k + length v + 3"
proof -
  let ?p = "length k + length v + length ('' ='' @ [CHR 0x0A])"
  have "record_size ?p (2 * ?p + 2) \<le> 2 * ?p + 2"
    using length_itoa_le [of "2 * ?p + 2"] by (simp add: record_size_def)
  moreover have "record_size ?p ?p \<le> 2 * ?p + 2"
    using length_itoa_le [of ?p] by (simp add: record_size_def)
  moreover have "record_size ?p ?p \<le> record_size ?p (record_size ?p ?p)"
    by (rule record_size_mono) (simp add: record_size_def)
  ultimately obtain r where "fix_size ?p (record_size ?p ?p) = Some r" "r = record_size ?p r"
    using fix_size_Some by blast
  then show thesis using that [of r] by (simp add: formatPaxRecord_def record_size_def Let_def add.commute)
qed

section \<open>Reading PAX records\<close>

definition parse_record :: "string \<Rightarrow> (paxRecord \<times> string) option" where
  "parse_record s =
     (let digits = takeWhile is_digit s; n = atoi digits; body = block_field (Suc (length digits)) (n - 1) s in
      if digits = [] \<or> n < length digits + 3 \<or> length s < n \<or> s ! length digits \<noteq> CHR '' '' \<or> s ! (n - 1) \<noteq> CHR 0x0A then None
      else (case Cut body (CHR ''='') of
          (k, v, True) \<Rightarrow> Some (\<lparr> pr_key = k, pr_value = v \<rparr>, drop n s)
        | (k, v, False) \<Rightarrow> None))"

function parse_records :: "string \<Rightarrow> paxRecord list option" where
  "parse_records s =
     (if s = [] then Some []
      else case parse_record s of
        None \<Rightarrow> None
      | Some (r, rest) \<Rightarrow> if length rest < length s then map_option ((#) r) (parse_records rest) else None)"
  by pat_completeness auto
termination by (relation "measure length") auto

declare parse_records.simps [simp del]

lemma takeWhile_digits: "takeWhile is_digit (itoa n @ CHR '' '' # s) = itoa n"
proof -
  have "\<not> is_digit (CHR '' '')" by (simp add: is_digit_def)
  then show ?thesis using itoa_digits [of _ n] by (simp add: takeWhile_append)
qed

lemma parse_formatted:
  assumes "formatPaxRecord k v = Some s" and "CHR ''='' \<notin> set k"
  shows "parse_record (s @ rest) = Some (\<lparr> pr_key = k, pr_value = v \<rparr>, rest)" "s \<noteq> []"
proof -
  obtain n where s: "s = itoa n @ '' '' @ k @ ''='' @ v @ [CHR 0x0A]" and n: "n = length (itoa n) + length k + length v + 3"
    using formatPaxRecord_Some [of k v] assms(1) by auto
  have len: "length s = n" using s n by simp
  have d: "takeWhile is_digit (s @ rest) = itoa n" using s takeWhile_digits by simp
  have sp: "(s @ rest) ! length (itoa n) = CHR '' ''" using s by simp
  let ?t = "itoa n @ '' '' @ k @ ''='' @ v"
  have "s @ rest = ?t @ CHR 0x0A # rest" "length ?t = n - 1" using s n by simp_all
  then have nl: "(s @ rest) ! (n - 1) = CHR 0x0A" by (metis nth_append_length)
  have body: "block_field (Suc (length (itoa n))) (n - 1) (s @ rest) = k @ CHR ''='' # v"
  proof -
    have "drop (Suc (length (itoa n))) (s @ rest) = (k @ CHR ''='' # v) @ CHR 0x0A # rest" by (simp add: s)
    moreover have "n - 1 - Suc (length (itoa n)) = length (k @ CHR ''='' # v)" using n by simp
    ultimately show ?thesis by (simp only: block_field_def) simp
  qed
  show "parse_record (s @ rest) = Some (\<lparr> pr_key = k, pr_value = v \<rparr>, rest)"
    unfolding parse_record_def Let_def d using len n sp nl body Cut_append [OF assms(2), of v] by simp
  show "s \<noteq> []" using s by simp
qed

section \<open>Reading header blocks\<close>

definition read_octal :: "string \<Rightarrow> int" where
  "read_octal f = int (otoi (takeWhile is_octal f))"

definition read_text :: "string \<Rightarrow> string" where
  "read_text f = takeWhile (\<lambda>c. c \<noteq> CHR 0x00) f"

definition decode_header :: "string \<Rightarrow> rawHeader option" where
  "decode_header b =
     (if length b = 512 \<and> block_field 257 265 b = ''ustar'' @ [CHR 0x00] @ ''00''
         \<and> read_octal (block_field 148 156 b) = int (byte_sum (copy_at 148 156 (replicate 8 (CHR '' '')) b))
      then Some \<lparr> rh_name = read_text (block_field 0 100 b), rh_mode = read_octal (block_field 100 108 b),
        rh_uid = read_octal (block_field 108 116 b), rh_gid = read_octal (block_field 116 124 b), rh_size = read_octal (block_field 124 136 b),
        rh_modTime = read_octal (block_field 136 148 b), rh_typeflag = hd (block_field 156 157 b),
        rh_uname = read_text (block_field 265 297 b), rh_gname = read_text (block_field 297 329 b) \<rparr>
      else None)"

lemma length_zeros [simp]: "length (zeros n) = n"
  by (simp add: zeros_def)

lemma zeros_0 [simp]: "zeros 0 = []"
  by (simp add: zeros_def)

lemma length_copy_at [simp]: "lo \<le> hi \<Longrightarrow> hi \<le> length b \<Longrightarrow> length (copy_at lo hi s b) = length b"
  by (simp add: copy_at_def Let_def)

lemma nth_copy_at:
  "lo \<le> hi \<Longrightarrow> hi \<le> length b \<Longrightarrow> i < length b \<Longrightarrow>
   copy_at lo hi s b ! i = (if lo \<le> i \<and> i < lo + min (length s) (hi - lo) then s ! (i - lo) else b ! i)"
  by (auto simp: copy_at_def Let_def nth_append min_def)

lemma length_field [simp]: "lo \<le> hi \<Longrightarrow> hi \<le> length b \<Longrightarrow> length (block_field lo hi b) = hi - lo"
  by (simp add: block_field_def)

lemma nth_field: "i < hi - lo \<Longrightarrow> hi \<le> length b \<Longrightarrow> block_field lo hi b ! i = b ! (lo + i)"
  by (simp add: block_field_def)

lemma field_copy_other:
  assumes "lo \<le> hi" "hi \<le> length b" "l \<le> h" "h \<le> length b" "h \<le> lo \<or> hi \<le> l"
  shows "block_field l h (copy_at lo hi s b) = block_field l h b"
  using assms by (intro nth_equalityI) (auto simp: nth_field nth_copy_at)

lemma field_copy_same:
  assumes "lo \<le> hi" "hi \<le> length b" "length s \<le> hi - lo"
  shows "block_field lo hi (copy_at lo hi s b) = s @ block_field (lo + length s) hi b"
  using assms by (simp add: block_field_def copy_at_def Let_def)

lemma field_zeros: "lo \<le> hi \<Longrightarrow> hi \<le> n \<Longrightarrow> block_field lo hi (zeros n) = zeros (hi - lo)"
  by (simp add: block_field_def zeros_def)

lemma read_text_zeros: "CHR 0x00 \<notin> set s \<Longrightarrow> read_text (s @ zeros n) = s"
  by (cases n) (auto simp: read_text_def zeros_def takeWhile_append intro: takeWhile_eq_all_conv [THEN iffD2])

lemma not_octal [simp]: "\<not> is_octal (CHR 0x00)" "\<not> is_octal (CHR '' '')"
  by (simp_all add: is_octal_def is_digit_def)

lemma takeWhile_otoa: "takeWhile is_octal (replicate k (CHR ''0'') @ otoa n @ CHR 0x00 # t) = replicate k (CHR ''0'') @ otoa n"
  using otoa_octal [of _ n] by (simp add: takeWhile_append)

lemma putNumber_fits:
  assumes "fitsOctal w x" "1 < w"
  obtains s where "putNumber w x = Some s" "length s = w" "read_octal s = x"
proof -
  have "nat x < 8 ^ (w - 1)" using assms(1) by (simp add: fitsOctal_def power_mult nat_less_iff)
  then have len: "length (otoa (nat x)) \<le> w - 1" using assms(2) by (intro length_otoa) simp_all
  have x: "FormatOctal x = otoa (nat x)" using assms(1) by (simp add: FormatOctal_def fitsOctal_def)
  let ?s = "replicate (w - 1 - length (otoa (nat x))) (CHR ''0'') @ otoa (nat x) @ [CHR 0x00]"
  have "putNumber w x = Some ?s" using len assms(2) by (simp add: putNumber_def Let_def x)
  moreover have "read_octal ?s = x" using assms(1)
    by (simp add: read_octal_def takeWhile_otoa otoi_zeros fitsOctal_def)
  ultimately show thesis using that [of ?s] len assms(2) by simp
qed

lemma byte_sum_bound: "byte_sum s \<le> 255 * length s"
proof (induction s)
  case (Cons c s)
  have c: "of_char c \<le> (255 :: nat)" using nat_of_char_less_256 [of c] by linarith
  have "of_char c + byte_sum s \<le> 255 + 255 * length s" by (rule add_mono [OF c Cons.IH])
  then show ?case by (simp add: byte_sum_def)
qed (simp add: byte_sum_def)

text \<open>The checksum a reader computes is the one in the block.\<close>

lemma putChecksum_result:
  assumes "length b = 512"
  shows "length (putChecksum b) = 512"
    and "read_octal (block_field 148 156 (putChecksum b)) = int (byte_sum (copy_at 148 156 (replicate 8 (CHR '' '')) (putChecksum b)))"
    and "l \<le> h \<Longrightarrow> h \<le> 512 \<Longrightarrow> h \<le> 148 \<or> 156 \<le> l \<Longrightarrow> block_field l h (putChecksum b) = block_field l h b"
proof -
  let ?sp = "replicate 8 (CHR '' '')"
  let ?b = "copy_at 148 156 ?sp b"
  let ?n = "byte_sum ?b"
  have lb: "length ?b = 512" using assms by simp
  have "?n < 8 ^ 6" using byte_sum_bound [of ?b] lb by simp
  then have len: "length (otoa ?n) \<le> 6" by (rule length_otoa) simp
  then have len6: "length (pad0 6 (otoa ?n)) = 6" by (simp add: pad0_def)
  have c: "putChecksum b = copy_at 155 156 '' '' (copy_at 154 155 [CHR 0x00] (copy_at 148 154 (pad0 6 (otoa ?n)) ?b))"
    by (simp add: putChecksum_def Let_def)
  show "length (putChecksum b) = 512" using lb by (simp add: c)
  show "block_field l h (putChecksum b) = block_field l h b" if "l \<le> h" "h \<le> 512" "h \<le> 148 \<or> 156 \<le> l"
    using that assms by (auto simp: c field_copy_other)
  have respaced: "copy_at 148 156 ?sp (putChecksum b) = ?b"
    by (rule nth_equalityI) (use assms len6 in \<open>auto simp: c nth_copy_at\<close>)
  have "block_field 148 156 (putChecksum b) = pad0 6 (otoa ?n) @ [CHR 0x00, CHR '' '']"
  proof (rule nth_equalityI)
    show "length (block_field 148 156 (putChecksum b)) = length (pad0 6 (otoa ?n) @ [CHR 0x00, CHR '' ''])"
      using assms len6 by (simp add: c)
    fix i assume "i < length (block_field 148 156 (putChecksum b))"
    then have "i < 8" using assms by (simp add: c)
    then consider "i < 6" | "i = 6" | "i = 7" by linarith
    then show "block_field 148 156 (putChecksum b) ! i = (pad0 6 (otoa ?n) @ [CHR 0x00, CHR '' '']) ! i"
      using assms len6 by cases (simp_all add: c nth_field nth_copy_at nth_append)
  qed
  then have "read_octal (block_field 148 156 (putChecksum b)) = int ?n"
    by (simp add: read_octal_def pad0_def takeWhile_otoa otoi_zeros)
  then show "read_octal (block_field 148 156 (putChecksum b)) = int (byte_sum (copy_at 148 156 ?sp (putChecksum b)))"
    by (simp only: respaced)
qed

definition header_ok :: "rawHeader \<Rightarrow> bool" where
  "header_ok h \<longleftrightarrow>
     fitsOctal 8 (rh_mode h) \<and> fitsOctal 8 (rh_uid h) \<and> fitsOctal 8 (rh_gid h)
   \<and> fitsOctal 12 (rh_size h) \<and> fitsOctal 12 (rh_modTime h)
   \<and> CHR 0x00 \<notin> set (rh_name h) \<and> CHR 0x00 \<notin> set (rh_uname h) \<and> CHR 0x00 \<notin> set (rh_gname h)
   \<and> length (rh_name h) \<le> 100 \<and> length (rh_uname h) \<le> 32 \<and> length (rh_gname h) \<le> 32"

lemma field_split: "lo \<le> m \<Longrightarrow> m \<le> hi \<Longrightarrow> block_field lo hi b = block_field lo m b @ block_field m hi b"
proof -
  assume "lo \<le> m" "m \<le> hi"
  then have "hi - lo = (m - lo) + (hi - m)" "drop (m - lo) (drop lo b) = drop m b" by simp_all
  then show ?thesis unfolding block_field_def by (simp only: take_add)
qed

lemma header_block_roundtrip:
  assumes "header_ok h"
  obtains b where "header_block h = Some b" "length b = 512" "decode_header b = Some h"
proof -
  obtain mode where mode: "putNumber 8 (rh_mode h) = Some mode" "length mode = 8" "read_octal mode = rh_mode h"
    using assms by (auto simp: header_ok_def elim: putNumber_fits)
  obtain uid where uid: "putNumber 8 (rh_uid h) = Some uid" "length uid = 8" "read_octal uid = rh_uid h"
    using assms by (auto simp: header_ok_def elim: putNumber_fits)
  obtain gid where gid: "putNumber 8 (rh_gid h) = Some gid" "length gid = 8" "read_octal gid = rh_gid h"
    using assms by (auto simp: header_ok_def elim: putNumber_fits)
  obtain sz where sz: "putNumber 12 (rh_size h) = Some sz" "length sz = 12" "read_octal sz = rh_size h"
    using assms by (auto simp: header_ok_def elim: putNumber_fits)
  obtain tm where tm: "putNumber 12 (rh_modTime h) = Some tm" "length tm = 12" "read_octal tm = rh_modTime h"
    using assms by (auto simp: header_ok_def elim: putNumber_fits)
  define p where "p = copy_at 297 329 (copyField 32 (rh_gname h)) (copy_at 265 297 (copyField 32 (rh_uname h))
            (copy_at 263 265 ''00'' (copy_at 257 263 (''ustar'' @ [CHR 0x00]) (copy_at 156 157 [rh_typeflag h]
            (copy_at 136 148 tm (copy_at 124 136 sz (copy_at 116 124 gid (copy_at 108 116 uid
            (copy_at 100 108 mode (copy_at 0 100 (copyField 100 (rh_name h)) (zeros blockSize)))))))))))"
  have lp: "length p = 512" by (simp add: p_def blockSize_def)
  have fields: "block_field 0 100 p = rh_name h @ zeros (100 - length (rh_name h))" "block_field 100 108 p = mode" "block_field 108 116 p = uid"
    "block_field 116 124 p = gid" "block_field 124 136 p = sz" "block_field 136 148 p = tm" "block_field 156 157 p = [rh_typeflag h]"
    "block_field 257 263 p = ''ustar'' @ [CHR 0x00]" "block_field 263 265 p = ''00''"
    "block_field 265 297 p = rh_uname h @ zeros (32 - length (rh_uname h))"
    "block_field 297 329 p = rh_gname h @ zeros (32 - length (rh_gname h))"
    using assms mode uid gid sz tm
    by (simp_all add: p_def blockSize_def field_copy_other field_copy_same field_zeros copyField_def header_ok_def)
  let ?b = "putChecksum p"
  note q = putChecksum_result [OF lp]
  have magic: "block_field 257 265 ?b = ''ustar'' @ [CHR 0x00] @ ''00''"
    using field_split [of 257 263 265 p] fields q(3) [of 257 265] by simp
  have "header_block h = Some ?b" by (simp add: header_block_def mode uid gid sz tm p_def)
  moreover have "decode_header ?b = Some h"
    using assms magic q(1,2) unfolding decode_header_def
    by (simp add: q(3) fields mode uid gid sz tm read_text_zeros header_ok_def)
  ultimately show thesis using that q(1) by blast
qed

section \<open>Reading times\<close>

text \<open>Nanoseconds since the epoch, as a reader of PAX headers computes them.\<close>

definition read_pax_time :: "string \<Rightarrow> int" where
  "read_pax_time s =
     (let neg = (s \<noteq> [] \<and> hd s = CHR ''-''); (whole, frac, _) = Cut (if neg then tl s else s) (CHR ''.'');
          n = int (atoi whole) * 10 ^ 9 + int (atoi frac) * 10 ^ (9 - length frac) in
      if neg then - n else n)"

lemma atoi_Nil: "atoi [] = 0"
  by (simp add: atoi_def)

lemma dot_not_digit: "CHR ''.'' \<notin> set (itoa n)"
  using itoa_digits [of "CHR ''.''" n] by (auto simp: is_digit_def)

lemma hd_itoa: "hd (itoa n @ s) \<noteq> CHR ''-''"
  using itoa_digits [of "hd (itoa n)" n] by (auto simp: is_digit_def)

lemma length_itoa9: "n < 10 ^ 9 \<Longrightarrow> length (pad0 9 (itoa n)) = 9"
proof -
  assume "n < 10 ^ 9"
  then have "length (itoa n) \<le> length (itoa 999999999)" by (intro length_itoa_mono) simp
  also have "length (itoa 999999999) = 9" by (simp add: itoa.simps)
  finally show ?thesis by (simp add: pad0_def)
qed

lemma formatPaxTime_read:
  assumes "tm_Nanosecond t < 10 ^ 9"
  shows "read_pax_time (formatPaxTime t) = tm_Unix t * 10 ^ 9 + int (tm_Nanosecond t)"
proof -
  have whole: "read_pax_time (itoa n) = int n * 10 ^ 9" for n
    using hd_itoa [of n "[]"] Cut_none [OF dot_not_digit, of n] by (simp add: read_pax_time_def atoi_Nil)
  have neg: "read_pax_time (CHR ''-'' # itoa n) = - (int n * 10 ^ 9)" for n
    using Cut_none [OF dot_not_digit, of n] by (simp add: read_pax_time_def atoi_Nil)
  have frac: "read_pax_time (itoa n @ CHR ''.'' # pad0 9 (itoa m)) = int n * 10 ^ 9 + int m" if "m < 10 ^ 9" for n m
    using hd_itoa [of n "CHR ''.'' # pad0 9 (itoa m)"] Cut_append [OF dot_not_digit, of n] length_itoa9 [OF that]
    by (simp add: read_pax_time_def)
  have negfrac: "read_pax_time (CHR ''-'' # itoa n @ CHR ''.'' # pad0 9 (itoa m)) = - (int n * 10 ^ 9 + int m)"
    if "m < 10 ^ 9" for n m
    using Cut_append [OF dot_not_digit, of n] length_itoa9 [OF that] by (simp add: read_pax_time_def)
  consider "tm_Nanosecond t \<noteq> 0" "tm_Unix t < 0" | "tm_Nanosecond t \<noteq> 0" "\<not> tm_Unix t < 0"
    | "tm_Nanosecond t = 0" by blast
  then show ?thesis
  proof cases
    case 1
    have "formatPaxTime t = CHR ''-'' # itoa (nat (- (tm_Unix t + 1))) @ CHR ''.'' # pad0 9 (itoa (1000000000 - tm_Nanosecond t))"
      using 1 by (simp add: formatPaxTime_def itoa_int_def Let_def)
    then have "read_pax_time (formatPaxTime t)
        = - (int (nat (- (tm_Unix t + 1))) * 10 ^ 9 + int (1000000000 - tm_Nanosecond t))"
      using 1 assms negfrac [of "1000000000 - tm_Nanosecond t" "nat (- (tm_Unix t + 1))"] by simp
    then show ?thesis using 1 assms by simp
  next
    case 2
    then show ?thesis using assms frac by (simp add: formatPaxTime_def itoa_int_def Let_def)
  next
    case 3
    then show ?thesis using whole neg by (simp add: formatPaxTime_def itoa_int_def Let_def)
  qed
qed

end
