(* ===== verification/TarSparse.thy ===== *)
theory TarSparse
  imports Prelude TarHeader
begin

text \<open>
  \<open>pkg/archive/tar_sparse.go\<close>, second half, and the region probe of \<open>tar_unix.go\<close>: a sparse file as a GNU
  sparse 1.0 member. The writer, the open file and the context are one state \<open>'z\<close>. A panic is
  \<open>None\<close>. The reader at the end follows the documented format and has no part of the code in it.
\<close>

section \<open>Data regions\<close>

record sparseRegion =
  rg_offset :: int
  rg_length :: int

text \<open>What \<open>lseek\<close> answers: a position, \<open>ENXIO\<close>, or another error.\<close>

datatype 'e seek_result = At int | ENXIO | SeekFailed 'e

record ('z, 'e) sparse_io =
  si_SeekData :: "int \<Rightarrow> 'z \<Rightarrow> 'e seek_result \<times> 'z"
  si_SeekHole :: "int \<Rightarrow> 'z \<Rightarrow> 'e seek_result \<times> 'z"
  si_StatBlocks :: "'z \<Rightarrow> ('e + int option) \<times> 'z"
  si_Seek :: "int \<Rightarrow> 'z \<Rightarrow> 'e option \<times> 'z"
  si_CopyN :: "int \<Rightarrow> 'z \<Rightarrow> 'e option \<times> 'z"
  si_Write :: "string \<Rightarrow> 'z \<Rightarrow> 'e option \<times> 'z"
  si_Flush :: "'z \<Rightarrow> 'e option \<times> 'z"
  si_CtxErr :: "'z \<Rightarrow> 'e option \<times> 'z"

datatype 'e tar_error =
  ProbeErr 'e
| ProbeENXIO
| FlushBeforeSparse string 'e
| WritePaxHeader string 'e
| WriteDataHeader string 'e
| WriteSparseMap string 'e
| WriteSparseData string 'e
| PadSparseData string 'e

partial_function (option) seekDataRegions ::
  "('z, 'e) sparse_io \<Rightarrow> int \<Rightarrow> sparseRegion list \<Rightarrow> int \<Rightarrow> 'z \<Rightarrow> (('e tar_error + sparseRegion list) \<times> 'z) option" where
  "seekDataRegions io sz regions offset z =
     (if sz \<le> offset then Some (Inr regions, z)
      else case si_SeekData io offset z of
          (ENXIO, z1) \<Rightarrow> Some (Inr regions, z1)
        | (SeekFailed e, z1) \<Rightarrow> Some (Inl (ProbeErr e), z1)
        | (At dataStart, z1) \<Rightarrow>
            (case si_SeekHole io dataStart z1 of
               (ENXIO, z2) \<Rightarrow> Some (Inl ProbeENXIO, z2)
             | (SeekFailed e, z2) \<Rightarrow> Some (Inl (ProbeErr e), z2)
             | (At hole, z2) \<Rightarrow>
                 (let holeStart = (if hole > sz then sz else hole) in
                  seekDataRegions io sz (regions @ [\<lparr> rg_offset = dataStart, rg_length = holeStart - dataStart \<rparr>]) holeStart z2)))"

text \<open>The blocks of the file, when \<open>Sys()\<close> has them; the answer is the regions of a sparse file.\<close>

definition sparseDataRegions ::
  "('z, 'e) sparse_io \<Rightarrow> int \<Rightarrow> 'z \<Rightarrow> (('e tar_error + sparseRegion list option) \<times> 'z) option" where
  "sparseDataRegions io sz z =
     (case si_StatBlocks io z of
        (Inl e, z1) \<Rightarrow> Some (Inl (ProbeErr e), z1)
      | (Inr None, z1) \<Rightarrow> Some (Inr None, z1)
      | (Inr (Some blocks), z1) \<Rightarrow>
          (if sz = 0 \<or> blocks * 512 \<ge> sz then Some (Inr None, z1)
           else case seekDataRegions io sz [] 0 z1 of
               None \<Rightarrow> None
             | Some (Inl e, z2) \<Rightarrow> Some (Inl e, z2)
             | Some (Inr regions, z2) \<Rightarrow> Some (Inr (Some regions), z2)))"

section \<open>The sparse map\<close>

definition region_end :: "sparseRegion \<Rightarrow> int" where
  "region_end r = rg_offset r + rg_length r"

definition map_entry :: "int \<Rightarrow> int \<Rightarrow> string" where
  "map_entry offset len = itoa_int offset @ [CHR 0x0A] @ itoa_int len @ [CHR 0x0A]"

definition pad_block :: "string \<Rightarrow> string" where
  "pad_block s = (let pad = blockPadding (int (length s)) in if pad > 0 then s @ zeros (nat pad) else s)"

definition buildSparseMap :: "sparseRegion list \<Rightarrow> int \<Rightarrow> string" where
  "buildSparseMap regions realSize =
     (let lastEnd = (if regions = [] then 0 else region_end (last regions));
          entries = (if lastEnd < realSize then length regions + 1 else length regions) in
      pad_block (itoa entries @ [CHR 0x0A] @ concat (map (\<lambda>r. map_entry (rg_offset r) (rg_length r)) regions)
        @ (if lastEnd < realSize then map_entry realSize 0 else [])))"

section \<open>Headers\<close>

record Header =
  hd_Name :: string
  hd_Size :: int
  hd_Mode :: int
  hd_Uid :: int
  hd_Gid :: int
  hd_ModTime :: tar_time
  hd_Uname :: string
  hd_Gname :: string

definition octalOrRecord :: "paxRecord list \<Rightarrow> string \<Rightarrow> nat \<Rightarrow> int \<Rightarrow> int \<times> paxRecord list" where
  "octalOrRecord records key width x =
     (if fitsOctal width x then (x, records)
      else (0, if key \<noteq> [] then records @ [\<lparr> pr_key = key, pr_value = itoa_int x \<rparr>] else records))"

definition stringOrRecord :: "paxRecord list \<Rightarrow> string \<Rightarrow> nat \<Rightarrow> string \<Rightarrow> string \<times> paxRecord list" where
  "stringOrRecord records key width s =
     (if length s \<le> width \<and> isASCII s then (s, records)
      else (toASCII s, records @ [\<lparr> pr_key = key, pr_value = s \<rparr>]))"

definition appendTimeRecords :: "paxRecord list \<Rightarrow> Header \<Rightarrow> paxRecord list" where
  "appendTimeRecords records h =
     (if \<not> IsZero (hd_ModTime h) then records @ [\<lparr> pr_key = ''mtime'', pr_value = formatPaxTime (hd_ModTime h) \<rparr>] else records)"

text \<open>The records that are always there.\<close>

definition sparse_records :: "Header \<Rightarrow> paxRecord list" where
  "sparse_records h =
     [\<lparr> pr_key = ''path'', pr_value = hd_Name h \<rparr>,
      \<lparr> pr_key = ''GNU.sparse.major'', pr_value = ''1'' \<rparr>,
      \<lparr> pr_key = ''GNU.sparse.minor'', pr_value = ''0'' \<rparr>,
      \<lparr> pr_key = ''GNU.sparse.name'', pr_value = hd_Name h \<rparr>,
      \<lparr> pr_key = ''GNU.sparse.realsize'', pr_value = itoa_int (hd_Size h) \<rparr>]"

text \<open>The data header and the records its fields spill into, filled in the order of the code.\<close>

definition data_header :: "Header \<Rightarrow> int \<Rightarrow> rawHeader \<times> paxRecord list" where
  "data_header h physicalSize =
     (let records0 = appendTimeRecords (sparse_records h) h;
          (mode, records1) = octalOrRecord records0 [] 8 (hd_Mode h);
          (uid, records2) = octalOrRecord records1 ''uid'' 8 (hd_Uid h);
          (gid, records3) = octalOrRecord records2 ''gid'' 8 (hd_Gid h);
          (sz, records4) = octalOrRecord records3 ''size'' 12 physicalSize;
          (modTime, records5) = octalOrRecord records4 [] 12 (tm_Unix (hd_ModTime h));
          (uname, records6) = stringOrRecord records5 ''uname'' 32 (hd_Uname h);
          (gname, records7) = stringOrRecord records6 ''gname'' 32 (hd_Gname h) in
      (\<lparr> rh_name = ustarName (hd_Name h), rh_mode = mode, rh_uid = uid, rh_gid = gid, rh_size = sz, rh_modTime = modTime,
         rh_typeflag = CHR ''0'', rh_uname = uname, rh_gname = gname \<rparr>, records7))"

section \<open>Writing a member\<close>

fun concat_records :: "paxRecord list \<Rightarrow> string option" where
  "concat_records [] = Some []"
| "concat_records (r # rs) =
     (case (formatPaxRecord (pr_key r) (pr_value r), concat_records rs) of
        (Some s, Some t) \<Rightarrow> Some (s @ t)
      | _ \<Rightarrow> None)"

fun write_all :: "('z, 'e) sparse_io \<Rightarrow> string list \<Rightarrow> 'z \<Rightarrow> 'e option \<times> 'z" where
  "write_all io [] z = (None, z)"
| "write_all io (s # ss) z =
     (case si_Write io s z of
        (Some e, z1) \<Rightarrow> (Some e, z1)
      | (None, z1) \<Rightarrow> write_all io ss z1)"

definition pax_header :: "string \<Rightarrow> string \<Rightarrow> rawHeader" where
  "pax_header name payload =
     \<lparr> rh_name = paxHeaderName name, rh_mode = 420, rh_uid = 0, rh_gid = 0, rh_size = int (length payload), rh_modTime = 0,
       rh_typeflag = CHR ''x'', rh_uname = [], rh_gname = [] \<rparr>"

definition padding_of :: "int \<Rightarrow> string list" where
  "padding_of n = (let pad = blockPadding n in if pad > 0 then [zeros (nat pad)] else [])"

definition writePaxExtendedHeader ::
  "('z, 'e) sparse_io \<Rightarrow> string \<Rightarrow> paxRecord list \<Rightarrow> 'z \<Rightarrow> ('e option \<times> 'z) option" where
  "writePaxExtendedHeader io name records z =
     (case concat_records records of
        None \<Rightarrow> None
      | Some payload \<Rightarrow>
          (case header_block (pax_header name payload) of
             None \<Rightarrow> None
           | Some block \<Rightarrow> Some (write_all io ([block, payload] @ padding_of (int (length payload))) z)))"

definition data_length :: "sparseRegion list \<Rightarrow> int" where
  "data_length regions = sum_list (map rg_length regions)"

definition writeSparseHeader ::
  "('z, 'e) sparse_io \<Rightarrow> Header \<Rightarrow> sparseRegion list \<Rightarrow> 'z \<Rightarrow> (('e tar_error + int) \<times> 'z) option" where
  "writeSparseHeader io h regions z =
     (let name = hd_Name h; sparseMap = buildSparseMap regions (hd_Size h);
          physicalSize = int (length sparseMap) + data_length regions;
          (header, records) = data_header h physicalSize in
      case si_Flush io z of
        (Some e, z1) \<Rightarrow> Some (Inl (FlushBeforeSparse name e), z1)
      | (None, z1) \<Rightarrow>
          (case writePaxExtendedHeader io name records z1 of
             None \<Rightarrow> None
           | Some (Some e, z2) \<Rightarrow> Some (Inl (WritePaxHeader name e), z2)
           | Some (None, z2) \<Rightarrow>
               (case header_block header of
                  None \<Rightarrow> None
                | Some block \<Rightarrow>
                    (case si_Write io block z2 of
                       (Some e, z3) \<Rightarrow> Some (Inl (WriteDataHeader name e), z3)
                     | (None, z3) \<Rightarrow>
                         (case si_Write io sparseMap z3 of
                            (Some e, z4) \<Rightarrow> Some (Inl (WriteSparseMap name e), z4)
                          | (None, z4) \<Rightarrow> Some (Inr physicalSize, z4))))))"

fun copyRegions :: "('z, 'e) sparse_io \<Rightarrow> sparseRegion list \<Rightarrow> 'z \<Rightarrow> 'e option \<times> 'z" where
  "copyRegions io [] z = (None, z)"
| "copyRegions io (r # rs) z =
     (case si_CtxErr io z of
        (Some e, z1) \<Rightarrow> (Some e, z1)
      | (None, z1) \<Rightarrow>
          (case si_Seek io (rg_offset r) z1 of
             (Some e, z2) \<Rightarrow> (Some e, z2)
           | (None, z2) \<Rightarrow>
               (case si_CopyN io (rg_length r) z2 of
                  (Some e, z3) \<Rightarrow> (Some e, z3)
                | (None, z3) \<Rightarrow> copyRegions io rs z3)))"

definition writeSparseEntry ::
  "('z, 'e) sparse_io \<Rightarrow> Header \<Rightarrow> sparseRegion list \<Rightarrow> 'z \<Rightarrow> ('e tar_error option \<times> 'z) option" where
  "writeSparseEntry io h regions z =
     (case writeSparseHeader io h regions z of
        None \<Rightarrow> None
      | Some (Inl e, z1) \<Rightarrow> Some (Some e, z1)
      | Some (Inr physicalSize, z1) \<Rightarrow>
          (case copyRegions io regions z1 of
             (Some e, z2) \<Rightarrow> Some (Some (WriteSparseData (hd_Name h) e), z2)
           | (None, z2) \<Rightarrow>
               (case write_all io (padding_of physicalSize) z2 of
                  (Some e, z3) \<Rightarrow> Some (Some (PadSparseData (hd_Name h) e), z3)
                | (None, z3) \<Rightarrow> Some (None, z3))))"

section \<open>A reader of sparse members\<close>

record extracted =
  ex_name :: string
  ex_mode :: int
  ex_uid :: int
  ex_gid :: int
  ex_mtime :: int
  ex_uname :: string
  ex_gname :: string
  ex_contents :: string

definition round_up :: "nat \<Rightarrow> nat" where
  "round_up n = (n + 511) div 512 * 512"

definition read_num :: "string \<Rightarrow> (nat \<times> string) option" where
  "read_num s =
     (let ds = takeWhile is_digit s; t = drop (length ds) s in
      if ds = [] \<or> t = [] \<or> hd t \<noteq> CHR 0x0A then None else Some (atoi ds, tl t))"

fun read_entries :: "nat \<Rightarrow> string \<Rightarrow> ((nat \<times> nat) list \<times> string) option" where
  "read_entries 0 s = Some ([], s)"
| "read_entries (Suc n) s =
     (case read_num s of
        None \<Rightarrow> None
      | Some (offset, s1) \<Rightarrow>
          (case read_num s1 of
             None \<Rightarrow> None
           | Some (len, s2) \<Rightarrow> map_option (\<lambda>(es, s3). ((offset, len) # es, s3)) (read_entries n s2)))"

definition read_map :: "string \<Rightarrow> ((nat \<times> nat) list \<times> string) option" where
  "read_map d =
     (case read_num d of
        None \<Rightarrow> None
      | Some (n, s1) \<Rightarrow>
          (case read_entries n s1 of
             None \<Rightarrow> None
           | Some (es, s2) \<Rightarrow> Some (es, drop (round_up (length d - length s2)) d)))"

text \<open>Extraction seeks to each entry and writes its bytes; the file ends where the last entry ends.\<close>

fun expand :: "(nat \<times> nat) list \<Rightarrow> string \<Rightarrow> string \<Rightarrow> string option" where
  "expand [] d file = Some file"
| "expand ((offset, len) # es) d file =
     (if offset < length file \<or> length d < len then None
      else expand es (drop len d) (file @ zeros (offset - length file) @ take len d))"

definition pax_lookup :: "string \<Rightarrow> paxRecord list \<Rightarrow> string option" where
  "pax_lookup key records = map_of (map (\<lambda>r. (pr_key r, pr_value r)) (rev records)) key"

definition read_int :: "string \<Rightarrow> int" where
  "read_int s = (if s \<noteq> [] \<and> hd s = CHR ''-'' then - int (atoi (tl s)) else int (atoi s))"

definition or_record :: "paxRecord list \<Rightarrow> string \<Rightarrow> (string \<Rightarrow> 'a) \<Rightarrow> 'a \<Rightarrow> 'a" where
  "or_record records key f x = (case pax_lookup key records of None \<Rightarrow> x | Some s \<Rightarrow> f s)"

definition read_member :: "string \<Rightarrow> (extracted \<times> string) option" where
  "read_member s =
     (case decode_header (take 512 s) of
        None \<Rightarrow> None
      | Some x \<Rightarrow>
          (let n = nat (rh_size x); t = drop (512 + round_up n) s in
           case (parse_records (take n (drop 512 s)), decode_header (take 512 t)) of
             (Some records, Some h) \<Rightarrow>
               (let sz = nat (or_record records ''size'' read_int (rh_size h)); d = take sz (drop 512 t) in
                if rh_typeflag x \<noteq> CHR ''x'' \<or> rh_typeflag h \<noteq> CHR ''0'' \<or> length t < 512 + round_up sz
                  \<or> pax_lookup ''GNU.sparse.major'' records \<noteq> Some ''1'' \<or> pax_lookup ''GNU.sparse.minor'' records \<noteq> Some ''0''
                then None
                else case read_map d of
                    None \<Rightarrow> None
                  | Some (es, d') \<Rightarrow>
                      (case (pax_lookup ''GNU.sparse.name'' records, expand es d' []) of
                         (Some name, Some c) \<Rightarrow>
                           Some (\<lparr> ex_name = name, ex_mode = rh_mode h,
                             ex_uid = or_record records ''uid'' read_int (rh_uid h),
                             ex_gid = or_record records ''gid'' read_int (rh_gid h),
                             ex_mtime = or_record records ''mtime'' read_pax_time (rh_modTime h * 10 ^ 9),
                             ex_uname = or_record records ''uname'' (\<lambda>u. u) (rh_uname h),
                             ex_gname = or_record records ''gname'' (\<lambda>u. u) (rh_gname h),
                             ex_contents = c \<rparr>, drop (512 + round_up sz) t)
                       | _ \<Rightarrow> None))
           | _ \<Rightarrow> None))"

section \<open>Padding\<close>

lemma round_up_ge: "n \<le> round_up n"
proof -
  have "n + 511 = (n + 511) div 512 * 512 + (n + 511) mod 512" "(n + 511) mod 512 < 512" by simp_all
  then show ?thesis unfolding round_up_def by linarith
qed

lemma round_up_dvd [simp]: "512 dvd round_up n"
  by (simp add: round_up_def)

lemma round_up_eq: "round_up n = (if n mod 512 = 0 then n else n + (512 - n mod 512))"
proof -
  define a b where "a = n div 512" and "b = n mod 512"
  have n: "n = b + a * 512" and b: "b < 512" by (simp_all add: a_def b_def)
  have "(b + a * 512 + 511) div 512 = a + (b + 511) div 512" by simp
  moreover have "(b + 511) div 512 = (if b = 0 then 0 else 1)" using b by (simp add: div_nat_eqI)
  ultimately show ?thesis using b by (simp add: round_up_def n)
qed

lemma blockPadding_round: "blockPadding (int n) = int (round_up n - n)"
proof -
  have "int n smod 512 = int (n mod 512)"
    by (cases "n = 0") (simp_all add: signed_modulo_int_def sdiv_nonneg zmod_int minus_div_mult_eq_mod)
  then show ?thesis unfolding blockPadding_def round_up_eq by simp
qed

lemma padding_of_round: "concat (padding_of (int n)) = zeros (round_up n - n)"
  by (auto simp: padding_of_def blockPadding_round Let_def simp del: of_nat_diff)

lemma pad_block_round: "pad_block s = s @ zeros (round_up (length s) - length s)"
  by (auto simp: pad_block_def blockPadding_round Let_def simp del: of_nat_diff)

lemma length_pad_block: "length (pad_block s) = round_up (length s)"
  using round_up_ge [of "length s"] by (simp add: pad_block_round)

section \<open>Reading the map back\<close>

lemma newline_not_digit [simp]: "\<not> is_digit (CHR 0x0A)"
  by (simp add: is_digit_def)

lemma read_num_itoa [simp]: "read_num (itoa n @ CHR 0x0A # s) = Some (n, s)"
proof -
  have "takeWhile is_digit (itoa n @ CHR 0x0A # s) = itoa n"
    using itoa_digits [of _ n] by (simp add: takeWhile_append)
  then show ?thesis by (simp add: read_num_def Let_def)
qed

definition entry_text :: "nat \<times> nat \<Rightarrow> string" where
  "entry_text e = itoa (fst e) @ [CHR 0x0A] @ itoa (snd e) @ [CHR 0x0A]"

lemma read_entries_text: "read_entries (length es) (concat (map entry_text es) @ s) = Some (es, s)"
  by (induction es) (simp_all add: entry_text_def)

text \<open>The entries of the map of a file.\<close>

definition map_entries :: "sparseRegion list \<Rightarrow> int \<Rightarrow> (nat \<times> nat) list" where
  "map_entries regions realSize =
     map (\<lambda>r. (nat (rg_offset r), nat (rg_length r))) regions
     @ (if (if regions = [] then 0 else region_end (last regions)) < realSize then [(nat realSize, 0)] else [])"

lemma buildSparseMap_text:
  assumes "\<And>r. r \<in> set regions \<Longrightarrow> 0 \<le> rg_offset r \<and> 0 \<le> rg_length r" "0 \<le> realSize"
  shows "buildSparseMap regions realSize = pad_block (itoa (length (map_entries regions realSize)) @ [CHR 0x0A]
      @ concat (map entry_text (map_entries regions realSize)))"
proof -
  have "map_entry (rg_offset r) (rg_length r) = entry_text (nat (rg_offset r), nat (rg_length r))" if "r \<in> set regions" for r
    using assms(1) [OF that] by (simp add: map_entry_def entry_text_def itoa_int_def)
  then have "concat (map (\<lambda>r. map_entry (rg_offset r) (rg_length r)) regions)
      = concat (map (\<lambda>r. entry_text (nat (rg_offset r), nat (rg_length r))) regions)" by (simp cong: map_cong)
  moreover have "map_entry realSize 0 = entry_text (nat realSize, 0)"
    using assms(2) by (simp add: map_entry_def entry_text_def itoa_int_def)
  ultimately show ?thesis unfolding buildSparseMap_def map_entries_def Let_def by (simp add: comp_def)
qed

lemma read_map_build:
  assumes "\<And>r. r \<in> set regions \<Longrightarrow> 0 \<le> rg_offset r \<and> 0 \<le> rg_length r" "0 \<le> realSize"
  shows "read_map (buildSparseMap regions realSize @ d) = Some (map_entries regions realSize, d)"
proof -
  let ?es = "map_entries regions realSize"
  let ?t = "itoa (length ?es) @ [CHR 0x0A] @ concat (map entry_text ?es)"
  let ?z = "zeros (round_up (length ?t) - length ?t)"
  have m: "buildSparseMap regions realSize = ?t @ ?z"
    using buildSparseMap_text [OF assms] by (simp only: pad_block_round)
  have len: "length (?t @ ?z) = round_up (length ?t)" using round_up_ge [of "length ?t"] by simp
  have r: "read_num ((?t @ ?z) @ d) = Some (length ?es, concat (map entry_text ?es) @ ?z @ d)" by simp
  have "drop (round_up (length ((?t @ ?z) @ d) - length (?z @ d))) ((?t @ ?z) @ d) = d"
  proof -
    have "length ((?t @ ?z) @ d) - length (?z @ d) = length ?t" by simp
    then show ?thesis using len by (metis append_eq_conv_conj)
  qed
  then show ?thesis unfolding m read_map_def r by (simp only: option.case prod.case read_entries_text)
qed

section \<open>Restoring the holes\<close>

text \<open>The regions lie in the file, in order, and everything outside them is zero.\<close>

fun regions_ok :: "string \<Rightarrow> nat \<Rightarrow> sparseRegion list \<Rightarrow> bool" where
  "regions_ok c p [] \<longleftrightarrow> drop p c = zeros (length c - p)"
| "regions_ok c p (r # rs) \<longleftrightarrow>
     int p \<le> rg_offset r \<and> 0 \<le> rg_length r \<and> region_end r \<le> int (length c)
   \<and> block_field p (nat (rg_offset r)) c = zeros (nat (rg_offset r) - p)
   \<and> regions_ok c (nat (region_end r)) rs"

definition region_bytes :: "string \<Rightarrow> sparseRegion \<Rightarrow> string" where
  "region_bytes c r = take (nat (rg_length r)) (drop (nat (rg_offset r)) c)"

lemma regions_ok_nonneg: "regions_ok c p regions \<Longrightarrow> r \<in> set regions \<Longrightarrow> 0 \<le> rg_offset r \<and> 0 \<le> rg_length r"
  by (induction regions arbitrary: p) auto

lemma length_region_bytes:
  "0 \<le> rg_offset r \<Longrightarrow> 0 \<le> rg_length r \<Longrightarrow> region_end r \<le> int (length c) \<Longrightarrow> length (region_bytes c r) = nat (rg_length r)"
  by (auto simp: region_bytes_def region_end_def)

lemma data_length_bytes:
  "regions_ok c p regions \<Longrightarrow> data_length regions = int (length (concat (map (region_bytes c) regions)))"
proof (induction regions arbitrary: p)
  case (Cons r rs)
  then show ?case using length_region_bytes [of r c] Cons.IH [of "nat (region_end r)"] by (simp add: data_length_def)
qed (simp add: data_length_def)

lemma take_field: "a \<le> b \<Longrightarrow> take a c @ block_field a b c = take b c"
  unfolding block_field_def by (metis le_add_diff_inverse take_add)

lemma expand_regions:
  assumes "regions_ok c p regions" "p \<le> length c"
  shows "expand (map (\<lambda>r. (nat (rg_offset r), nat (rg_length r))) regions @ es) (concat (map (region_bytes c) regions) @ d) (take p c)
    = expand es d (take (if regions = [] then p else nat (region_end (last regions))) c)
    \<and> (regions \<noteq> [] \<longrightarrow> 0 \<le> region_end (last regions) \<and> region_end (last regions) \<le> int (length c))
    \<and> drop (if regions = [] then p else nat (region_end (last regions))) c
       = zeros (length c - (if regions = [] then p else nat (region_end (last regions))))"
  using assms
proof (induction regions arbitrary: p)
  case (Cons r rs)
  let ?o = "nat (rg_offset r)" and ?l = "nat (rg_length r)"
  have o: "p \<le> ?o" "?o + ?l \<le> length c" "nat (region_end r) = ?o + ?l" "0 \<le> rg_offset r" "0 \<le> rg_length r" "0 \<le> region_end r"
    using Cons.prems by (auto simp: region_end_def)
  have hole: "take p c @ zeros (?o - p) = take ?o c"
    using Cons.prems take_field [OF o(1), of c] by simp
  have bytes: "region_bytes c r = block_field ?o (?o + ?l) c" by (simp add: region_bytes_def block_field_def)
  have len: "length (region_bytes c r) = ?l" using length_region_bytes [OF o(4,5)] Cons.prems by simp
  have "expand ((?o, ?l) # map (\<lambda>r. (nat (rg_offset r), nat (rg_length r))) rs @ es)
      (region_bytes c r @ concat (map (region_bytes c) rs) @ d) (take p c)
    = expand (map (\<lambda>r. (nat (rg_offset r), nat (rg_length r))) rs @ es) (concat (map (region_bytes c) rs) @ d)
        (take ?o c @ region_bytes c r)"
    using o len hole Cons.prems(2) by (simp flip: append_assoc)
  also have "take ?o c @ region_bytes c r = take (?o + ?l) c" unfolding bytes by (rule take_field) simp
  finally show ?case using Cons.IH [of "?o + ?l"] Cons.prems(1) o by (simp split: if_splits)
qed simp

lemma expand_restores:
  assumes "regions_ok c 0 regions"
  shows "expand (map_entries regions (int (length c))) (concat (map (region_bytes c) regions)) [] = Some c"
proof -
  let ?e = "if regions = [] then 0 else nat (region_end (last regions))"
  let ?tl = "if (if regions = [] then 0 else region_end (last regions)) < int (length c) then [(nat (int (length c)), 0)] else []"
  note x = expand_regions [OF assms, of ?tl "[]"]
  have e: "?e \<le> length c" using x by auto
  have "expand (map_entries regions (int (length c))) (concat (map (region_bytes c) regions)) [] = expand ?tl [] (take ?e c)"
    using x by (simp add: map_entries_def)
  also have "\<dots> = Some c"
  proof (cases "?e < length c")
    case True
    then have "?tl = [(length c, 0)]" using x by (auto split: if_splits)
    moreover have "take ?e c @ zeros (length c - ?e) = c" using x by (metis append_take_drop_id le0)
    ultimately show ?thesis using e x by (cases "regions = []") simp_all
  next
    case False
    then have "?tl = []" using x e by (auto split: if_splits)
    then show ?thesis using False by simp
  qed
  finally show ?thesis .
qed

section \<open>The records of a member\<close>

lemma concat_records_parse:
  assumes "\<And>r. r \<in> set records \<Longrightarrow> CHR ''='' \<notin> set (pr_key r)"
  obtains payload where "concat_records records = Some payload" "parse_records payload = Some records"
proof -
  have "\<exists>payload. concat_records records = Some payload \<and> parse_records payload = Some records"
    using assms
  proof (induction records)
    case Nil
    then show ?case by (simp add: parse_records.simps)
  next
    case (Cons r rs)
    then obtain t where t: "concat_records rs = Some t" "parse_records t = Some rs" by auto
    obtain s where s: "formatPaxRecord (pr_key r) (pr_value r) = Some s" by (metis formatPaxRecord_Some)
    have p: "parse_record (s @ t) = Some (r, t)" "s \<noteq> []"
      using parse_formatted(1) [OF s, of t] parse_formatted(2) [OF s] Cons.prems by simp_all
    have "parse_records (s @ t) = Some (r # rs)" using p t(2) by (subst parse_records.simps) simp
    then show ?case using s t by simp
  qed
  then show thesis using that by blast
qed

text \<open>The header and records of a member, with the fields that spill made explicit.\<close>

definition spill :: "bool \<Rightarrow> string \<Rightarrow> string \<Rightarrow> paxRecord list" where
  "spill fits key v = (if fits then [] else [\<lparr> pr_key = key, pr_value = v \<rparr>])"

definition text_fits :: "string \<Rightarrow> bool" where
  "text_fits s \<longleftrightarrow> length s \<le> 32 \<and> isASCII s"

lemma octalOrRecord_eq:
  "octalOrRecord records key width x =
     (if fitsOctal width x then x else 0, records @ (if key = [] then [] else spill (fitsOctal width x) key (itoa_int x)))"
  by (simp add: octalOrRecord_def spill_def)

lemma stringOrRecord_eq: "stringOrRecord records key 32 s = (toASCII s, records @ spill (text_fits s) key s)"
  by (simp add: stringOrRecord_def spill_def text_fits_def toASCII_def)

lemma appendTimeRecords_eq:
  "appendTimeRecords records h = records @ spill (IsZero (hd_ModTime h)) ''mtime'' (formatPaxTime (hd_ModTime h))"
  by (simp add: appendTimeRecords_def spill_def)

lemma data_header_eq:
  "data_header h n =
    (\<lparr> rh_name = ustarName (hd_Name h), rh_mode = (if fitsOctal 8 (hd_Mode h) then hd_Mode h else 0),
       rh_uid = (if fitsOctal 8 (hd_Uid h) then hd_Uid h else 0), rh_gid = (if fitsOctal 8 (hd_Gid h) then hd_Gid h else 0),
       rh_size = (if fitsOctal 12 n then n else 0),
       rh_modTime = (if fitsOctal 12 (tm_Unix (hd_ModTime h)) then tm_Unix (hd_ModTime h) else 0), rh_typeflag = CHR ''0'',
       rh_uname = toASCII (hd_Uname h), rh_gname = toASCII (hd_Gname h) \<rparr>,
     sparse_records h @ spill (IsZero (hd_ModTime h)) ''mtime'' (formatPaxTime (hd_ModTime h))
       @ spill (fitsOctal 8 (hd_Uid h)) ''uid'' (itoa_int (hd_Uid h)) @ spill (fitsOctal 8 (hd_Gid h)) ''gid'' (itoa_int (hd_Gid h))
       @ spill (fitsOctal 12 n) ''size'' (itoa_int n) @ spill (text_fits (hd_Uname h)) ''uname'' (hd_Uname h)
       @ spill (text_fits (hd_Gname h)) ''gname'' (hd_Gname h))"
  by (simp add: data_header_def Let_def octalOrRecord_eq stringOrRecord_eq appendTimeRecords_eq)

lemma pax_lookup_simps [simp]:
  "pax_lookup key [] = None"
  "pax_lookup key (rs @ ss) = (case pax_lookup key ss of None \<Rightarrow> pax_lookup key rs | Some v \<Rightarrow> Some v)"
  "pax_lookup key [\<lparr> pr_key = k, pr_value = v \<rparr>] = (if k = key then Some v else None)"
  "pax_lookup key (spill b k v) = (if k = key \<and> \<not> b then Some v else None)"
  by (auto simp: pax_lookup_def map_add_def spill_def split: option.splits)

lemma pax_lookup_Cons: "pax_lookup key (r # rs) = (case pax_lookup key rs of None \<Rightarrow> if pr_key r = key then Some (pr_value r) else None | Some v \<Rightarrow> Some v)"
  by (auto simp: pax_lookup_def map_add_def split: option.splits)

lemma sparse_lookup:
  "pax_lookup ''GNU.sparse.major'' (snd (data_header h n)) = Some ''1''"
  "pax_lookup ''GNU.sparse.minor'' (snd (data_header h n)) = Some ''0''"
  "pax_lookup ''GNU.sparse.name'' (snd (data_header h n)) = Some (hd_Name h)"
  "pax_lookup ''mtime'' (snd (data_header h n)) = (if IsZero (hd_ModTime h) then None else Some (formatPaxTime (hd_ModTime h)))"
  "pax_lookup ''uid'' (snd (data_header h n)) = (if fitsOctal 8 (hd_Uid h) then None else Some (itoa_int (hd_Uid h)))"
  "pax_lookup ''gid'' (snd (data_header h n)) = (if fitsOctal 8 (hd_Gid h) then None else Some (itoa_int (hd_Gid h)))"
  "pax_lookup ''size'' (snd (data_header h n)) = (if fitsOctal 12 n then None else Some (itoa_int n))"
  "pax_lookup ''uname'' (snd (data_header h n)) = (if text_fits (hd_Uname h) then None else Some (hd_Uname h))"
  "pax_lookup ''gname'' (snd (data_header h n)) = (if text_fits (hd_Gname h) then None else Some (hd_Gname h))"
  by (simp_all add: data_header_eq sparse_records_def pax_lookup_Cons)

lemma spill_key: "r \<in> set (spill b k v) \<Longrightarrow> pr_key r = k"
  by (simp add: spill_def split: if_splits)

lemma record_keys: "r \<in> set (snd (data_header h n)) \<Longrightarrow> CHR ''='' \<notin> set (pr_key r)"
  by (auto simp: data_header_eq sparse_records_def dest!: spill_key)

lemma read_int_itoa: "read_int (itoa_int x) = x"
  using hd_itoa [of "nat x" "[]"] by (simp add: read_int_def itoa_int_def)

section \<open>The blocks of a member\<close>

lemma not_null_toASCII: "CHR 0x00 \<notin> set (toASCII s)"
  by (auto simp: toASCII_def isASCII_def list_all_iff)

lemma decode_truncated:
  assumes "header_ok (h\<lparr> rh_uname := take 32 (rh_uname h), rh_gname := take 32 (rh_gname h) \<rparr>)"
  obtains b where "header_block h = Some b" "length b = 512"
    "decode_header b = Some (h\<lparr> rh_uname := take 32 (rh_uname h), rh_gname := take 32 (rh_gname h) \<rparr>)"
proof -
  have "header_block (h\<lparr> rh_uname := take 32 (rh_uname h), rh_gname := take 32 (rh_gname h) \<rparr>) = header_block h"
    by (simp add: header_block_def copyField_def split: option.split)
  then show thesis using header_block_roundtrip [OF assms] that by metis
qed

lemma fits_zero [simp]: "fitsOctal w 0"
  by (simp add: fitsOctal_def)

lemma data_header_block:
  obtains b where "header_block (fst (data_header h n)) = Some b" "length b = 512"
    "decode_header b = Some ((fst (data_header h n))\<lparr> rh_uname := take 32 (toASCII (hd_Uname h)), rh_gname := take 32 (toASCII (hd_Gname h)) \<rparr>)"
proof -
  have "header_ok ((fst (data_header h n))\<lparr> rh_uname := take 32 (rh_uname (fst (data_header h n))), rh_gname := take 32 (rh_gname (fst (data_header h n))) \<rparr>)"
    using not_null_toASCII
    by (auto simp: header_ok_def data_header_eq ustarName_def Let_def dest: in_set_takeD in_set_dropD)
  then show thesis by (rule decode_truncated) (use that in \<open>simp add: data_header_eq\<close>)
qed

lemma pax_header_block:
  assumes "length payload < 8 ^ 11"
  obtains b where "header_block (pax_header name payload) = Some b" "length b = 512"
    "decode_header b = Some (pax_header name payload)"
proof (rule header_block_roundtrip)
  have "CHR 0x00 \<notin> set (paxHeaderName name)"
    using not_null_toASCII by (auto simp: paxHeaderName_def dest: in_set_takeD)
  then show "header_ok (pax_header name payload)"
    using assms by (simp add: header_ok_def pax_header_def fitsOctal_def paxHeaderName_def Let_def)
qed (use that in blast)

section \<open>What the stream and the file promise\<close>

text \<open>
  A view of the state: the bytes written so far, the contents of the open file and its position. An
  operation that reports success did what it says. Flushing completes the entry before.
\<close>

definition sparse_laws ::
  "('z, 'e) sparse_io \<Rightarrow> ('z \<Rightarrow> string) \<Rightarrow> string \<Rightarrow> ('z \<Rightarrow> int) \<Rightarrow> bool" where
  "sparse_laws io out c pos \<longleftrightarrow>
     (\<forall>z z'. si_Flush io z = (None, z') \<longrightarrow> (\<exists>p. out z' = out z @ p) \<and> 512 dvd length (out z'))
   \<and> (\<forall>z z'. si_CtxErr io z = (None, z') \<longrightarrow> out z' = out z \<and> pos z' = pos z)
   \<and> (\<forall>s z z'. si_Write io s z = (None, z') \<longrightarrow> out z' = out z @ s)
   \<and> (\<forall>p z z'. si_Seek io p z = (None, z') \<longrightarrow> out z' = out z \<and> pos z' = p)
   \<and> (\<forall>n z z'. si_CopyN io n z = (None, z') \<longrightarrow> 0 \<le> n \<longrightarrow> 0 \<le> pos z \<longrightarrow> pos z + n \<le> int (length c) \<longrightarrow>
        out z' = out z @ take (nat n) (drop (nat (pos z)) c))"

lemma Flush_law: "sparse_laws io out c pos \<Longrightarrow> si_Flush io z = (None, z') \<Longrightarrow> (\<exists>p. out z' = out z @ p) \<and> 512 dvd length (out z')"
  by (simp add: sparse_laws_def)

lemma Ctx_law: "sparse_laws io out c pos \<Longrightarrow> si_CtxErr io z = (None, z') \<Longrightarrow> out z' = out z"
  by (simp add: sparse_laws_def)

lemma Write_law: "sparse_laws io out c pos \<Longrightarrow> si_Write io s z = (None, z') \<Longrightarrow> out z' = out z @ s"
  by (simp add: sparse_laws_def)

lemma Seek_law: "sparse_laws io out c pos \<Longrightarrow> si_Seek io p z = (None, z') \<Longrightarrow> out z' = out z \<and> pos z' = p"
  by (simp add: sparse_laws_def)

lemma CopyN_law:
  "sparse_laws io out c pos \<Longrightarrow> si_CopyN io n z = (None, z') \<Longrightarrow> 0 \<le> n \<Longrightarrow> 0 \<le> pos z \<Longrightarrow> pos z + n \<le> int (length c) \<Longrightarrow>
   out z' = out z @ take (nat n) (drop (nat (pos z)) c)"
  by (simp add: sparse_laws_def)

lemma write_all_law:
  assumes "sparse_laws io out c pos"
  shows "write_all io ss z = (None, z') \<Longrightarrow> out z' = out z @ concat ss"
proof (induction ss arbitrary: z)
  case (Cons s ss)
  then obtain z1 where "si_Write io s z = (None, z1)" "write_all io ss z1 = (None, z')"
    by (auto split: prod.splits option.splits)
  then show ?case using Cons.IH Write_law [OF assms] by simp
qed simp

lemma copyRegions_law:
  assumes laws: "sparse_laws io out c pos"
  shows "regions_ok c p regions \<Longrightarrow> copyRegions io regions z = (None, z') \<Longrightarrow> out z' = out z @ concat (map (region_bytes c) regions)"
proof (induction regions arbitrary: p z)
  case (Cons r rs)
  obtain z1 z2 z3 where s: "si_CtxErr io z = (None, z1)" "si_Seek io (rg_offset r) z1 = (None, z2)"
    "si_CopyN io (rg_length r) z2 = (None, z3)" "copyRegions io rs z3 = (None, z')"
    using Cons.prems(2) by (auto split: prod.splits option.splits)
  have r: "0 \<le> rg_offset r" "0 \<le> rg_length r" "rg_offset r + rg_length r \<le> int (length c)" "regions_ok c (nat (region_end r)) rs"
    using Cons.prems(1) by (auto simp: region_end_def)
  have "out z3 = out z @ region_bytes c r"
    using Ctx_law [OF laws s(1)] Seek_law [OF laws s(2)] CopyN_law [OF laws s(3) r(2)] r(1,3) by (simp add: region_bytes_def)
  then show ?case using Cons.IH [OF r(4) s(4)] by simp
qed simp

section \<open>The member\<close>

text \<open>The bytes of a member.\<close>

definition member_bytes :: "string \<Rightarrow> string \<Rightarrow> string \<Rightarrow> string \<Rightarrow> string \<Rightarrow> string" where
  "member_bytes b1 payload b2 sparseMap d =
     b1 @ payload @ zeros (round_up (length payload) - length payload) @ b2 @ sparseMap @ d
       @ zeros (round_up (length sparseMap + length d) - (length sparseMap + length d))"

lemma writeSparseEntry_bytes:
  assumes laws: "sparse_laws io out c pos"
    and ok: "regions_ok c 0 regions" "hd_Size h = int (length c)"
    and run: "writeSparseEntry io h regions z = Some (None, z')"
  obtains p b1 payload b2 where
    "concat_records (snd (data_header h (int (length (buildSparseMap regions (hd_Size h))) + data_length regions))) = Some payload"
    "header_block (pax_header (hd_Name h) payload) = Some b1"
    "header_block (fst (data_header h (int (length (buildSparseMap regions (hd_Size h))) + data_length regions))) = Some b2"
    "out z' = out z @ p @ member_bytes b1 payload b2 (buildSparseMap regions (hd_Size h)) (concat (map (region_bytes c) regions))"
    "512 dvd length (out z @ p)"
proof -
  let ?m = "buildSparseMap regions (hd_Size h)" and ?d = "concat (map (region_bytes c) regions)"
  let ?n = "int (length ?m) + data_length regions"
  have n: "?n = int (length ?m + length ?d)" using data_length_bytes [OF ok(1)] by simp
  obtain z1 z2 where w: "writeSparseHeader io h regions z = Some (Inr ?n, z1)" "copyRegions io regions z1 = (None, z2)"
    "write_all io (padding_of ?n) z2 = (None, z')"
    using run by (auto simp: writeSparseEntry_def writeSparseHeader_def Let_def split: option.splits prod.splits sum.splits)
  obtain z3 z4 z5 payload b1 b2 where s: "si_Flush io z = (None, z3)"
    "concat_records (snd (data_header h ?n)) = Some payload" "header_block (pax_header (hd_Name h) payload) = Some b1"
    "write_all io ([b1, payload] @ padding_of (int (length payload))) z3 = (None, z4)"
    "header_block (fst (data_header h ?n)) = Some b2" "si_Write io b2 z4 = (None, z5)" "si_Write io ?m z5 = (None, z1)"
    using w(1) by (auto simp: writeSparseHeader_def writePaxExtendedHeader_def Let_def split: option.splits prod.splits)
  obtain p where p: "out z3 = out z @ p" "512 dvd length (out z @ p)" using Flush_law [OF laws s(1)] by auto
  have "out z' = out z3 @ member_bytes b1 payload b2 ?m ?d"
    using write_all_law [OF laws s(4)] Write_law [OF laws s(6)] Write_law [OF laws s(7)] copyRegions_law [OF laws ok(1) w(2)]
      write_all_law [OF laws w(3)] unfolding n padding_of_round
    by (simp add: member_bytes_def padding_of_round)
  then show thesis using that s p by simp
qed

lemma or_record_spilled:
  assumes "pax_lookup key records = (if fits then None else Some (itoa_int x))"
  shows "or_record records key read_int (if fits then x else 0) = x"
  using assms by (simp add: or_record_def read_int_itoa)

lemma or_record_text:
  assumes "pax_lookup key records = (if text_fits s then None else Some s)"
  shows "or_record records key (\<lambda>u. u) (take 32 (toASCII s)) = s"
  using assms by (simp add: or_record_def text_fits_def toASCII_def)

text \<open>What a reader gets back of a file with a header.\<close>

definition restored :: "Header \<Rightarrow> string \<Rightarrow> extracted" where
  "restored h c =
     \<lparr> ex_name = hd_Name h, ex_mode = hd_Mode h, ex_uid = hd_Uid h, ex_gid = hd_Gid h,
       ex_mtime = tm_Unix (hd_ModTime h) * 10 ^ 9 + int (tm_Nanosecond (hd_ModTime h)),
       ex_uname = hd_Uname h, ex_gname = hd_Gname h, ex_contents = c \<rparr>"

lemma read_member_bytes:
  fixes regions h c
  defines "m \<equiv> buildSparseMap regions (hd_Size h)" and "d \<equiv> concat (map (region_bytes c) regions)"
  assumes ok: "regions_ok c 0 regions" "hd_Size h = int (length c)"
    and h: "fitsOctal 8 (hd_Mode h)" "\<not> IsZero (hd_ModTime h)" "tm_Nanosecond (hd_ModTime h) < 10 ^ 9"
    and payload: "concat_records (snd (data_header h (int (length m) + data_length regions))) = Some payload"
    and b1: "header_block (pax_header (hd_Name h) payload) = Some b1"
    and b2: "header_block (fst (data_header h (int (length m) + data_length regions))) = Some b2"
    and len: "length payload < 8 ^ 11"
  shows "read_member (member_bytes b1 payload b2 m d @ tail) = Some (restored h c, tail)"
    and "512 dvd length (member_bytes b1 payload b2 m d)"
proof -
  define k where "k = int (length m) + data_length regions"
  define sz where "sz = length m + length d"
  define rs where "rs = snd (data_header h k)"
  define hh where "hh = fst (data_header h k)"
  have n: "nat k = sz" using data_length_bytes [OF ok(1)] by (simp add: d_def k_def sz_def nat_add_distrib)
  have l1: "length b1 = 512" "decode_header b1 = Some (pax_header (hd_Name h) payload)"
    using pax_header_block [OF len, of "hd_Name h"] b1 by (metis option.inject)+
  have l2: "length b2 = 512" "decode_header b2
      = Some (hh\<lparr> rh_uname := take 32 (toASCII (hd_Uname h)), rh_gname := take 32 (toASCII (hd_Gname h)) \<rparr>)"
    using data_header_block [of h k] b2 unfolding hh_def k_def by (metis option.inject)+
  have rs: "parse_records payload = Some rs"
    using concat_records_parse [of rs] record_keys payload unfolding rs_def k_def by (metis option.inject)
  define t where "t = b2 @ m @ d @ zeros (round_up sz - sz) @ tail"
  define s where "s = member_bytes b1 payload b2 m d @ tail"
  have M: "s = b1 @ payload @ zeros (round_up (length payload) - length payload) @ t"
    by (simp add: member_bytes_def s_def t_def sz_def)
  have t: "drop (512 + round_up (length payload)) s = t"
    using l1(1) round_up_ge [of "length payload"] unfolding M by simp
  have szr: "or_record rs ''size'' read_int (if fitsOctal 12 k then k else 0) = k"
    unfolding rs_def by (rule or_record_spilled) (rule sparse_lookup)
  have md: "take sz (drop 512 t) = m @ d" "\<not> length t < 512 + round_up sz" "drop (512 + round_up sz) t = tail"
    using l2(1) round_up_ge [of sz] by (simp_all add: t_def sz_def)
  have mp: "read_map (m @ d) = Some (map_entries regions (int (length c)), d)"
    using read_map_build [of regions "hd_Size h" d] regions_ok_nonneg [OF ok(1)] ok(2) by (simp add: m_def)
  have ex: "expand (map_entries regions (int (length c))) d [] = Some c"
    using expand_restores [OF ok(1)] by (simp add: d_def)
  have uid: "or_record rs ''uid'' read_int (if fitsOctal 8 (hd_Uid h) then hd_Uid h else 0) = hd_Uid h"
    unfolding rs_def by (rule or_record_spilled) (rule sparse_lookup)
  have gid: "or_record rs ''gid'' read_int (if fitsOctal 8 (hd_Gid h) then hd_Gid h else 0) = hd_Gid h"
    unfolding rs_def by (rule or_record_spilled) (rule sparse_lookup)
  have uname: "or_record rs ''uname'' (\<lambda>u. u) (take 32 (toASCII (hd_Uname h))) = hd_Uname h"
    unfolding rs_def by (rule or_record_text) (rule sparse_lookup)
  have gname: "or_record rs ''gname'' (\<lambda>u. u) (take 32 (toASCII (hd_Gname h))) = hd_Gname h"
    unfolding rs_def by (rule or_record_text) (rule sparse_lookup)
  have mtime: "or_record rs ''mtime'' read_pax_time x
      = tm_Unix (hd_ModTime h) * 10 ^ 9 + int (tm_Nanosecond (hd_ModTime h))" for x
    using h(2,3) formatPaxTime_read by (simp add: or_record_def sparse_lookup rs_def)
  have hdr: "rh_size hh = (if fitsOctal 12 k then k else 0)"
    "rh_uid hh = (if fitsOctal 8 (hd_Uid h) then hd_Uid h else 0)"
    "rh_gid hh = (if fitsOctal 8 (hd_Gid h) then hd_Gid h else 0)"
    "rh_mode hh = hd_Mode h" "rh_typeflag hh = CHR ''0''"
    using h(1) by (simp_all add: hh_def data_header_eq)
  have first: "take 512 s = b1"
    "take (length payload) (drop 512 s) = payload"
    unfolding M using l1(1) by simp_all
  have second: "take 512 t = b2" using l2(1) by (simp add: t_def)
  have keys: "pax_lookup ''GNU.sparse.major'' rs = Some ''1''" "pax_lookup ''GNU.sparse.minor'' rs = Some ''0''"
    "pax_lookup ''GNU.sparse.name'' rs = Some (hd_Name h)" unfolding rs_def by (rule sparse_lookup)+
  show "read_member (member_bytes b1 payload b2 m d @ tail) = Some (restored h c, tail)"
    unfolding s_def [symmetric] read_member_def first l1(2) option.case Let_def
    by (simp add: pax_header_def t first second l2 rs hdr szr n md mp ex uid gid uname gname mtime keys
        restored_def)
  show "512 dvd length (member_bytes b1 payload b2 m d)"
  proof -
    have "length (member_bytes b1 payload b2 m d) = 512 + round_up (length payload) + 512 + round_up sz"
      using l1(1) l2(1) round_up_ge [of "length payload"] round_up_ge [of sz] by (simp add: member_bytes_def sz_def)
    then show ?thesis by simp
  qed
qed

section \<open>Probing for the regions\<close>

text \<open>\<open>lseek\<close> on a file that does not change: the next data, or that there is none; the hole after data.\<close>

definition seek_laws :: "('z, 'e) sparse_io \<Rightarrow> string \<Rightarrow> bool" where
  "seek_laws io c \<longleftrightarrow>
     (\<forall>offset z p z'. offset < length c \<longrightarrow> si_SeekData io (int offset) z = (At p, z') \<longrightarrow>
        int offset \<le> p \<and> p < int (length c) \<and> block_field offset (nat p) c = zeros (nat p - offset))
   \<and> (\<forall>offset z z'. offset < length c \<longrightarrow> si_SeekData io (int offset) z = (ENXIO, z') \<longrightarrow> drop offset c = zeros (length c - offset))
   \<and> (\<forall>p z q z'. si_SeekHole io p z = (At q, z') \<longrightarrow> p < q)"

lemma seekDataRegions_sound:
  assumes laws: "seek_laws io c"
  shows "offset \<le> length c \<Longrightarrow> \<exists>r z'. seekDataRegions io (int (length c)) acc (int offset) z = Some (r, z')
    \<and> (\<forall>regions. r = Inr regions \<longrightarrow> (\<exists>rs. regions = acc @ rs \<and> regions_ok c offset rs))"
proof (induction "length c - offset" arbitrary: offset acc z rule: less_induct)
  case less
  show ?case
  proof (cases "offset = length c")
    case True
    then show ?thesis by (subst seekDataRegions.simps) simp
  next
    case False
    then have off: "offset < length c" using less.prems by simp
    obtain a z1 where a: "si_SeekData io (int offset) z = (a, z1)" by fastforce
    show ?thesis
    proof (cases a)
      case (At p)
      have p: "int offset \<le> p" "p < int (length c)" "block_field offset (nat p) c = zeros (nat p - offset)"
        using laws a At off by (auto simp: seek_laws_def)
      obtain b z2 where b: "si_SeekHole io p z1 = (b, z2)" by fastforce
      show ?thesis
      proof (cases b)
        case At': (At q)
        have "p < q" using laws b At' unfolding seek_laws_def by blast
        define e where "e = nat (if q > int (length c) then int (length c) else q)"
        have e: "int e = (if q > int (length c) then int (length c) else q)" "offset < e" "e \<le> length c" "p < int e"
          using \<open>p < q\<close> p by (auto simp: e_def)
        let ?r = "\<lparr> rg_offset = p, rg_length = int e - p \<rparr>"
        have lt: "length c - e < length c - offset" using e(2) off by simp
        obtain r z' where r: "seekDataRegions io (int (length c)) (acc @ [?r]) (int e) z2 = Some (r, z')"
          and s: "\<And>regions. r = Inr regions \<Longrightarrow> \<exists>rs. regions = (acc @ [?r]) @ rs \<and> regions_ok c e rs"
          using less.hyps [OF lt e(3), of "acc @ [?r]" z2] by blast
        have "\<exists>rs. regions = acc @ rs \<and> regions_ok c offset rs" if reg: "r = Inr regions" for regions
        proof -
          obtain rs where rs: "regions = (acc @ [?r]) @ rs" "regions_ok c e rs" using s [OF reg] by blast
          have "regions_ok c offset (?r # rs)" using rs(2) p e(3,4) by (simp add: region_end_def)
          then show ?thesis using rs(1) by (intro exI [of _ "?r # rs"]) simp
        qed
        moreover have "seekDataRegions io (int (length c)) acc (int offset) z = Some (r, z')"
          using a At b At' off r e(1) by (subst seekDataRegions.simps) (simp add: Let_def)
        ultimately show ?thesis by blast
      qed (use a At b off in \<open>subst seekDataRegions.simps, simp\<close>)+
    next
      case ENXIO
      have "drop offset c = zeros (length c - offset)" using laws a ENXIO off unfolding seek_laws_def by blast
      then show ?thesis using a ENXIO off by (subst seekDataRegions.simps) simp
    qed (use a off in \<open>subst seekDataRegions.simps, simp\<close>)
  qed
qed

text \<open>A probe that finds a file sparse found regions that hold all its data.\<close>

lemma sparseDataRegions_sound:
  assumes "seek_laws io c" "sparseDataRegions io (int (length c)) z = Some (Inr (Some regions), z')"
  shows "regions_ok c 0 regions"
proof -
  obtain z1 where "seekDataRegions io (int (length c)) [] 0 z1 = Some (Inr regions, z')"
    using assms(2) by (auto simp: sparseDataRegions_def split: prod.splits sum.splits option.splits if_splits)
  then show ?thesis using seekDataRegions_sound [OF assms(1), of 0 "[]" z1] by auto
qed

section \<open>The property\<close>

text \<open>A member whose PAX header is below 8 GiB, the most a ustar size field can say.\<close>

definition pax_fits :: "Header \<Rightarrow> sparseRegion list \<Rightarrow> bool" where
  "pax_fits h regions \<longleftrightarrow>
     (case concat_records (snd (data_header h (int (length (buildSparseMap regions (hd_Size h))) + data_length regions))) of
        None \<Rightarrow> False | Some payload \<Rightarrow> length payload < 8 ^ 11)"

lemma writeSparseEntry_returns:
  assumes "pax_fits h regions"
  shows "\<exists>r z'. writeSparseEntry io h regions z = Some (r, z')"
proof -
  let ?n = "int (length (buildSparseMap regions (hd_Size h))) + data_length regions"
  obtain payload where payload: "concat_records (snd (data_header h ?n)) = Some payload" "length payload < 8 ^ 11"
    using assms by (auto simp: pax_fits_def split: option.splits)
  obtain b1 where "header_block (pax_header (hd_Name h) payload) = Some b1" using pax_header_block [OF payload(2)] by metis
  moreover obtain b2 where "header_block (fst (data_header h ?n)) = Some b2" using data_header_block by metis
  ultimately have "writeSparseHeader io h regions z \<noteq> None"
    using payload(1) by (auto simp: writeSparseHeader_def writePaxExtendedHeader_def Let_def split: option.splits prod.splits)
  then show ?thesis by (auto simp: writeSparseEntry_def split: option.splits prod.splits sum.splits)
qed


text \<open>A file of six bytes with a hole on either side of its data, on a stream that never fails.\<close>

definition holed :: string where
  "holed = [CHR 0x00, CHR 0x00, CHR ''a'', CHR ''b'', CHR 0x00, CHR 0x00]"

definition mem_sparse_io :: "(string \<times> int, unit) sparse_io" where
  "mem_sparse_io = \<lparr>
     si_SeekData = (\<lambda>offset z. (if offset \<le> 2 then At 2 else if offset = 3 then At 3 else ENXIO, z)),
     si_SeekHole = (\<lambda>p z. (At (if p < 4 then 4 else p + 1), z)),
     si_StatBlocks = (\<lambda>z. (Inr (Some 0), z)),
     si_Seek = (\<lambda>p z. (None, (fst z, p))),
     si_CopyN = (\<lambda>n z. (None, (fst z @ take (nat n) (drop (nat (snd z)) holed), snd z + n))),
     si_Write = (\<lambda>s z. (None, (fst z @ s, snd z))),
     si_Flush = (\<lambda>z. (None, (fst z @ zeros (round_up (length (fst z)) - length (fst z)), snd z))),
     si_CtxErr = (\<lambda>z. (None, z)) \<rparr>"

lemma length_flush [simp]: "length s + length (zeros (round_up (length s) - length s)) = round_up (length s)"
  using round_up_ge [of "length s"] by simp

lemma mem_sparse_laws: "sparse_laws mem_sparse_io fst holed snd"
  unfolding sparse_laws_def mem_sparse_io_def by (simp del: length_zeros)

lemma mem_seek_laws: "seek_laws mem_sparse_io holed"
proof -
  have field: "block_field offset 2 holed = zeros (2 - offset)" if o: "offset \<le> 2" for offset
  proof -
    consider "offset = 0" | "offset = 1" | "offset = 2" using o by linarith
    then show ?thesis by cases (simp_all add: block_field_def holed_def zeros_def numeral_2_eq_2)
  qed
  have drop: "drop offset holed = zeros (length holed - offset)" if o: "4 \<le> offset" "offset < 6" for offset
  proof -
    consider "offset = 4" | "offset = 5" using o by linarith
    then show ?thesis by cases (simp_all add: holed_def zeros_def numeral_2_eq_2)
  qed
  have len: "length holed = 6" by (simp add: holed_def)
  show ?thesis unfolding seek_laws_def
  proof (intro conjI allI impI)
    fix offset z p z' assume s: "offset < length holed" "si_SeekData mem_sparse_io (int offset) z = (At p, z')"
    then have p: "p = (if offset \<le> 2 then 2 else 3)" "offset \<le> 3" by (auto simp: mem_sparse_io_def split: if_splits)
    then show "int offset \<le> p" "p < int (length holed)" by (auto simp: len)
    show "block_field offset (nat p) holed = zeros (nat p - offset)"
      using p field by (cases "offset \<le> 2") (auto simp: block_field_def)
  next
    fix offset z z' assume s: "offset < length holed" "si_SeekData mem_sparse_io (int offset) z = (ENXIO, z')"
    then have "4 \<le> offset" by (auto simp: mem_sparse_io_def split: if_splits)
    then show "drop offset holed = zeros (length holed - offset)" using drop s(1) len by simp
  next
    fix p z q z' assume "si_SeekHole mem_sparse_io p z = (At q, z')"
    then show "p < q" by (auto simp: mem_sparse_io_def split: if_splits)
  qed
qed

definition holed_header :: Header where
  "holed_header = \<lparr> hd_Name = ''f'', hd_Size = 6, hd_Mode = 420, hd_Uid = 3000000, hd_Gid = 0,
     hd_ModTime = \<lparr> tm_Unix = - 2, tm_Nanosecond = 750000000 \<rparr>, hd_Uname = ''root'', hd_Gname = ''root'' \<rparr>"

lemma holed_probe:
  "sparseDataRegions mem_sparse_io 6 z = Some (Inr (Some [\<lparr> rg_offset = 2, rg_length = 2 \<rparr>]), z)"
proof -
  have "seekDataRegions mem_sparse_io 6 rs 4 z = Some (Inr rs, z)" for rs
    by (subst seekDataRegions.simps) (simp add: mem_sparse_io_def)
  then have "seekDataRegions mem_sparse_io 6 [] 0 z = Some (Inr [\<lparr> rg_offset = 2, rg_length = 2 \<rparr>], z)"
    by (subst seekDataRegions.simps) (simp add: mem_sparse_io_def)
  then show ?thesis by (simp add: sparseDataRegions_def mem_sparse_io_def)
qed

lemma mem_never_fails:
  assumes "writeSparseEntry mem_sparse_io h regions z = Some (r, z')"
  shows "r = None"
proof -
  have w: "write_all mem_sparse_io ss z = (None, fst z @ concat ss, snd z)" for ss z
    by (induction ss arbitrary: z) (simp_all add: mem_sparse_io_def)
  have c: "\<exists>z'. copyRegions mem_sparse_io rs z = (None, z')" for rs z
    by (induction rs arbitrary: z) (simp_all add: mem_sparse_io_def)
  obtain q z1 where q: "writeSparseHeader mem_sparse_io h regions z = Some (Inr q, z1)"
    using assms by (auto simp: writeSparseEntry_def writeSparseHeader_def writePaxExtendedHeader_def Let_def w
        mem_sparse_io_def [THEN arg_cong, of si_Flush] mem_sparse_io_def [THEN arg_cong, of si_Write]
        split: option.splits prod.splits sum.splits)
  obtain z2 where "copyRegions mem_sparse_io regions z1 = (None, z2)" using c by blast
  then show ?thesis using assms q by (simp add: writeSparseEntry_def w)
qed

text \<open>A record is at most twice what it holds.\<close>

lemma length_formatPaxRecord: "formatPaxRecord k v = Some s \<Longrightarrow> length s \<le> 2 * length k + 2 * length v + 8"
proof -
  assume "formatPaxRecord k v = Some s"
  then obtain n where s: "s = itoa n @ '' '' @ k @ ''='' @ v @ [CHR 0x0A]" and n: "n = length (itoa n) + length k + length v + 3"
    using formatPaxRecord_Some [of k v] by auto
  have "length s = n" using n unfolding s by simp
  have "n \<le> Suc (n div 10) + length k + length v + 3" using length_itoa_le [of n] n by linarith
  moreover have "n div 10 * 10 \<le> n" by simp
  ultimately have "n div 10 \<le> length k + length v + 4" "n \<le> n div 10 + (length k + length v + 4)" by linarith+
  then show ?thesis using \<open>length s = n\<close> by linarith
qed

lemma length_concat_records:
  "concat_records rs = Some payload \<Longrightarrow> length payload \<le> sum_list (map (\<lambda>r. 2 * length (pr_key r) + 2 * length (pr_value r) + 8) rs)"
proof (induction rs arbitrary: payload)
  case (Cons r rs)
  then obtain s t where "formatPaxRecord (pr_key r) (pr_value r) = Some s" "concat_records rs = Some t" "payload = s @ t"
    by (auto split: option.splits)
  then show ?case using Cons.IH [of t] length_formatPaxRecord [of "pr_key r" "pr_value r" s] by simp
qed simp

lemma holed_pax: "pax_fits holed_header [\<lparr> rg_offset = 2, rg_length = 2 \<rparr>]"
proof -
  let ?rs = "[\<lparr> rg_offset = 2, rg_length = 2 \<rparr>]"
  have m: "length (buildSparseMap ?rs 6) = 512"
    by (simp add: buildSparseMap_def length_pad_block round_up_def map_entry_def itoa_int_def itoa.simps region_end_def)
  have fits: "fitsOctal 12 514" "fitsOctal 8 0" "\<not> fitsOctal 8 3000000" "text_fits ''root''"
    by (simp_all add: fitsOctal_def text_fits_def isASCII_def)
  let ?records = "snd (data_header holed_header (int (length (buildSparseMap ?rs (hd_Size holed_header))) + data_length ?rs))"
  have "sum_list (map (\<lambda>r. 2 * length (pr_key r) + 2 * length (pr_value r) + 8) ?records) < 8 ^ 11"
    unfolding holed_header_def Header.select_convs m data_header_eq
    by (simp add: fits data_length_def sparse_records_def spill_def itoa_int_def itoa.simps formatPaxTime_def pad0_def)
  moreover obtain payload where "concat_records ?records = Some payload"
    using concat_records_parse [of ?records] record_keys by metis
  ultimately show ?thesis using length_concat_records [of ?records payload] by (simp add: pax_fits_def)
qed


section \<open>A file that grows\<close>

text \<open>
  The size is from the walk, the probe is later. A file extended in between past a hole has its first
  data beyond the recorded size; the clamp then gives a region of negative length, and a member of
  negative size.
\<close>

definition grown_io :: "(unit, unit) sparse_io" where
  "grown_io = \<lparr> si_SeekData = (\<lambda>offset z. (At 2000, z)), si_SeekHole = (\<lambda>p z. (At 3000, z)),
     si_StatBlocks = (\<lambda>z. (Inr (Some 0), z)), si_Seek = (\<lambda>p z. (None, z)), si_CopyN = (\<lambda>n z. (None, z)),
     si_Write = (\<lambda>s z. (None, z)), si_Flush = (\<lambda>z. (None, z)), si_CtxErr = (\<lambda>z. (None, z)) \<rparr>"

lemma grown_file_negative_member:
  "sparseDataRegions grown_io 1000 () = Some (Inr (Some [\<lparr> rg_offset = 2000, rg_length = - 1000 \<rparr>]), ())"
  "int (length (buildSparseMap [\<lparr> rg_offset = 2000, rg_length = - 1000 \<rparr>] 1000))
     + data_length [\<lparr> rg_offset = 2000, rg_length = - 1000 \<rparr>] = - 488"
proof -
  have "seekDataRegions grown_io 1000 rs 1000 () = Some (Inr rs, ())" for rs by (subst seekDataRegions.simps) simp
  then have "seekDataRegions grown_io 1000 [] 0 () = Some (Inr [\<lparr> rg_offset = 2000, rg_length = - 1000 \<rparr>], ())"
    by (subst seekDataRegions.simps) (simp add: grown_io_def)
  then show "sparseDataRegions grown_io 1000 () = Some (Inr (Some [\<lparr> rg_offset = 2000, rg_length = - 1000 \<rparr>]), ())"
    by (simp add: sparseDataRegions_def grown_io_def)
  show "int (length (buildSparseMap [\<lparr> rg_offset = 2000, rg_length = - 1000 \<rparr>] 1000))
     + data_length [\<lparr> rg_offset = 2000, rg_length = - 1000 \<rparr>] = - 488"
    by (simp add: buildSparseMap_def length_pad_block round_up_def map_entry_def itoa_int_def itoa.simps region_end_def data_length_def)
qed

end
