(* ===== verification/TarWalk.thy ===== *)
theory TarWalk
  imports Prelude GoStrings
begin

text \<open>
  \<open>pkg/archive/tar.go\<close>: which files of a source tree become which entries of the archive. A tree is a
  value (a source is a snapshot), a path inside it the list of its names; \<open>'m\<close> is the metadata a
  header copies. \<open>filepath.WalkDir\<close> is translated from the standard library. The archive's writer, open
  files, symlinks and the context are a state \<open>'z\<close>.
\<close>

section \<open>Trees and headers\<close>

datatype file_kind = DirKind | RegularKind | SymlinkKind | SocketKind | DeviceKind | CharDeviceKind | PipeKind | IrregularKind

record fileID =
  id_dev :: nat
  id_ino :: nat

record 'm file_info =
  fi_kind :: file_kind
  fi_size :: int
  fi_stat :: "(fileID \<times> nat) option"
  fi_meta :: 'm

text \<open>A file; a directory whose listing fails; a directory. Each with its name and \<open>lstat\<close> result.\<close>

datatype ('m, 'e) node =
  File string "'e + 'm file_info"
| Unreadable string "'e + 'm file_info" 'e
| Directory string "'e + 'm file_info" "('m, 'e) node list"

fun node_name :: "('m, 'e) node \<Rightarrow> string" where
  "node_name (File nm i) = nm"
| "node_name (Unreadable nm i e) = nm"
| "node_name (Directory nm i ns) = nm"

fun node_info :: "('m, 'e) node \<Rightarrow> 'e + 'm file_info" where
  "node_info (File nm i) = i"
| "node_info (Unreadable nm i e) = i"
| "node_info (Directory nm i ns) = i"

fun IsDir :: "('m, 'e) node \<Rightarrow> bool" where
  "IsDir (File nm i) = False"
| "IsDir (Unreadable nm i e) = True"
| "IsDir (Directory nm i ns) = True"

record ('m, 'e) walkEntry =
  we_path :: "string list"
  we_isDir :: bool
  we_info :: "'e + 'm file_info"

datatype entry_type = TypeReg | TypeDir | TypeSymlink | TypeLink

record 'm tar_header =
  th_Name :: string
  th_Type :: entry_type
  th_Linkname :: string
  th_Size :: int
  th_meta :: 'm

definition deviceOf :: "'m file_info \<Rightarrow> nat \<times> bool" where
  "deviceOf info = (case fi_stat info of None \<Rightarrow> (0, False) | Some (fid, nlink) \<Rightarrow> (id_dev fid, True))"

definition hardlinkID :: "'m file_info \<Rightarrow> fileID option" where
  "hardlinkID info = (case fi_stat info of None \<Rightarrow> None | Some (fid, nlink) \<Rightarrow> if nlink \<le> 1 then None else Some fid)"

section \<open>What the code calls\<close>

text \<open>
  Paths are a source directory and a path inside it. \<open>op_Sparse\<close> is \<open>writeSparseEntry\<close>,
  \<open>op_Probe\<close> is \<open>sparseDataRegions\<close> (theory TarSparse); \<open>'f\<close> is an open file, \<open>'r\<close> a list of regions.
\<close>

record ('m, 'e, 'f, 'r, 'z) tar_ops =
  op_CtxErr :: "'z \<Rightarrow> 'e option \<times> 'z"
  op_Open :: "string \<times> string list \<Rightarrow> 'z \<Rightarrow> ('e + 'f) \<times> 'z"
  op_Stat :: "'f \<Rightarrow> 'z \<Rightarrow> ('e + 'm file_info) \<times> 'z"
  op_Close :: "'f \<Rightarrow> 'z \<Rightarrow> 'e option \<times> 'z"
  op_Readlink :: "string \<times> string list \<Rightarrow> 'z \<Rightarrow> ('e + string) \<times> 'z"
  op_WriteHeader :: "'m tar_header \<Rightarrow> 'z \<Rightarrow> 'e option \<times> 'z"
  op_Copy :: "'f \<Rightarrow> 'z \<Rightarrow> 'e option \<times> 'z"
  op_Probe :: "'f \<Rightarrow> int \<Rightarrow> 'z \<Rightarrow> ('e + 'r option) \<times> 'z"
  op_Sparse :: "'m tar_header \<Rightarrow> 'f \<Rightarrow> 'r \<Rightarrow> 'z \<Rightarrow> 'e option \<times> 'z"
  op_CloseTar :: "'z \<Rightarrow> 'e option \<times> 'z"

datatype 'e archive_error =
  Plain 'e
| UnknownMode
| WriteHeaderFailed string 'e
| ProbeFailed "string list" 'e
| CloseFailed "string list" 'e
| CopyFailed "string list" 'e
| TreeFailed string "'e archive_error"
| TarCloseFailed 'e
| EmptySubdir nat
| SubdirNotElement nat string
| DuplicateSubdir string nat nat

text \<open>The device of the filesystem that holds a directory's contents.\<close>

definition dirDevice :: "('m, 'e, 'f, 'r, 'z) tar_ops \<Rightarrow> string \<Rightarrow> 'z \<Rightarrow> ('e archive_error + nat) \<times> 'z" where
  "dirDevice ops dir z =
     (case op_Open ops (dir, []) z of
        (Inl e, z1) \<Rightarrow> (Inl (Plain e), z1)
      | (Inr file, z1) \<Rightarrow>
          (let (info, z2) = op_Stat ops file z1; (closeErr, z3) = op_Close ops file z2 in
           case info of
             Inl e \<Rightarrow> (Inl (Plain e), z3)
           | Inr i \<Rightarrow> (case closeErr of Some e \<Rightarrow> (Inl (Plain e), z3) | None \<Rightarrow> (Inr (fst (deviceOf i)), z3))))"

section \<open>Walking\<close>

text \<open>What the function given to \<open>WalkDir\<close> returns.\<close>

datatype 'e step = Continue | SkipDir | Stop 'e

text \<open>\<open>WalkDir\<close>: the function is called again when the listing fails.\<close>

fun walkDir :: "(string list \<Rightarrow> ('m, 'e) node \<Rightarrow> 'e option \<Rightarrow> 'z \<Rightarrow> 'x step \<times> 'z) \<Rightarrow> string list \<Rightarrow> ('m, 'e) node \<Rightarrow> 'z \<Rightarrow> 'x step \<times> 'z"
  and walkDirs :: "(string list \<Rightarrow> ('m, 'e) node \<Rightarrow> 'e option \<Rightarrow> 'z \<Rightarrow> 'x step \<times> 'z) \<Rightarrow> string list \<Rightarrow> ('m, 'e) node list \<Rightarrow> 'z \<Rightarrow> 'x step \<times> 'z"
where
  "walkDir fn p (File nm i) z = fn p (File nm i) None z"
| "walkDir fn p (Unreadable nm i e) z =
     (case fn p (Unreadable nm i e) None z of
        (Stop x, z1) \<Rightarrow> (Stop x, z1)
      | (SkipDir, z1) \<Rightarrow> (Continue, z1)
      | (Continue, z1) \<Rightarrow>
          (case fn p (Unreadable nm i e) (Some e) z1 of
             (Stop x, z2) \<Rightarrow> (Stop x, z2)
           | (_, z2) \<Rightarrow> (Continue, z2)))"
| "walkDir fn p (Directory nm i ns) z =
     (case fn p (Directory nm i ns) None z of
        (Stop x, z1) \<Rightarrow> (Stop x, z1)
      | (SkipDir, z1) \<Rightarrow> (Continue, z1)
      | (Continue, z1) \<Rightarrow> walkDirs fn p ns z1)"
| "walkDirs fn p [] z = (Continue, z)"
| "walkDirs fn p (n # ns) z =
     (case walkDir fn (p @ [node_name n]) n z of
        (Stop x, z1) \<Rightarrow> (Stop x, z1)
      | (SkipDir, z1) \<Rightarrow> (Continue, z1)
      | (Continue, z1) \<Rightarrow> walkDirs fn p ns z1)"

definition zfsControlDir :: string where
  "zfsControlDir = ''.zfs''"

definition visit_step :: "'x option \<times> 'z \<Rightarrow> 'x step \<times> 'z" where
  "visit_step r = (case r of (None, z) \<Rightarrow> (Continue, z) | (Some e, z) \<Rightarrow> (Stop e, z))"

text \<open>The function \<open>walkTree\<close> gives to \<open>WalkDir\<close>.\<close>

definition walk_fn ::
  "('z \<Rightarrow> 'e option \<times> 'z) \<Rightarrow> nat \<Rightarrow> (('m, 'e) walkEntry \<Rightarrow> 'z \<Rightarrow> 'e archive_error option \<times> 'z)
     \<Rightarrow> string list \<Rightarrow> ('m, 'e) node \<Rightarrow> 'e option \<Rightarrow> 'z \<Rightarrow> 'e archive_error step \<times> 'z" where
  "walk_fn ctxErr rootDev visit p n err z =
     (case err of
        Some e \<Rightarrow> (Stop (Plain e), z)
      | None \<Rightarrow>
          (case ctxErr z of
             (Some e, z1) \<Rightarrow> (Stop (Plain e), z1)
           | (None, z1) \<Rightarrow>
               let item = \<lparr> we_path = p, we_isDir = IsDir n, we_info = node_info n \<rparr> in
               if \<not> IsDir n \<or> p = [] then visit_step (visit item z1)
               else if p = [zfsControlDir] then (SkipDir, z1)
               else (case node_info n of
                   Inl e \<Rightarrow> (Stop (Plain e), z1)
                 | Inr info \<Rightarrow>
                     (case visit item z1 of
                        (Some e, z2) \<Rightarrow> (Stop e, z2)
                      | (None, z2) \<Rightarrow>
                          (let (dev, ok) = deviceOf info in
                           if ok \<and> dev \<noteq> rootDev then (SkipDir, z2) else (Continue, z2))))))"

definition walkTree ::
  "('m, 'e, 'f, 'r, 'z) tar_ops \<Rightarrow> (string \<Rightarrow> ('m, 'e) node) \<Rightarrow> string \<Rightarrow> 's
     \<Rightarrow> (('m, 'e) walkEntry \<Rightarrow> 's \<times> 'z \<Rightarrow> 'e archive_error option \<times> 's \<times> 'z) \<Rightarrow> 'z \<Rightarrow> 'e archive_error option \<times> 's \<times> 'z" where
  "walkTree ops trees srcDir s visit z =
     (case dirDevice ops srcDir z of
        (Inl e, z1) \<Rightarrow> (Some e, s, z1)
      | (Inr rootDev, z1) \<Rightarrow>
          (case walkDir (walk_fn (\<lambda>(s, z). let (e, z') = op_CtxErr ops z in (e, s, z')) rootDev visit) [] (trees srcDir) (s, z1) of
             (Stop e, s2, z2) \<Rightarrow> (Some e, s2, z2)
           | (_, s2, z2) \<Rightarrow> (None, s2, z2)))"

section \<open>Writing an entry\<close>

definition rel_path :: "string list \<Rightarrow> string" where
  "rel_path p = (if p = [] then ''.'' else join_with ''/'' p)"

text \<open>\<open>path.Join\<close> of a non-empty prefix and a name.\<close>

definition slash_Join :: "string \<Rightarrow> string \<Rightarrow> string" where
  "slash_Join pre nm = path_Clean (if nm = [] then pre else pre @ ''/'' @ nm)"

definition entry_name :: "string \<Rightarrow> string list \<Rightarrow> bool \<Rightarrow> string" where
  "entry_name pre p isDir =
     (let rel = (if rel_path p = ''.'' \<and> pre \<noteq> [] then [] else rel_path p);
          nm = (if pre \<noteq> [] then slash_Join pre rel else rel) in
      if isDir then nm @ ''/'' else nm)"

text \<open>\<open>tar.FileInfoHeader\<close>, with the name the code then gives it.\<close>

fun header_type :: "file_kind \<Rightarrow> entry_type option" where
  "header_type DirKind = Some TypeDir"
| "header_type RegularKind = Some TypeReg"
| "header_type SymlinkKind = Some TypeSymlink"
| "header_type k = None"

definition writeHeaderOnly :: "('m, 'e, 'f, 'r, 'z) tar_ops \<Rightarrow> 'm tar_header \<Rightarrow> 'z \<Rightarrow> 'e archive_error option \<times> 'z" where
  "writeHeaderOnly ops h z =
     (case op_WriteHeader ops h z of
        (None, z1) \<Rightarrow> (None, z1)
      | (Some e, z1) \<Rightarrow> (Some (WriteHeaderFailed (th_Name h) e), z1))"

definition writeStream ::
  "('m, 'e, 'f, 'r, 'z) tar_ops \<Rightarrow> 'm tar_header \<Rightarrow> string list \<Rightarrow> 'f \<Rightarrow> 'z \<Rightarrow> 'e archive_error option \<times> 'z" where
  "writeStream ops h p body z =
     (case writeHeaderOnly ops h z of
        (Some e, z1) \<Rightarrow> (Some e, z1)
      | (None, z1) \<Rightarrow>
          (case op_Copy ops body z1 of
             (Some e, z2) \<Rightarrow> (Some (CopyFailed p e), z2)
           | (None, z2) \<Rightarrow> (None, z2)))"

definition writeOpenFile ::
  "('m, 'e, 'f, 'r, 'z) tar_ops \<Rightarrow> 'm tar_header \<Rightarrow> string list \<Rightarrow> 'f \<Rightarrow> 'r option \<Rightarrow> 'z \<Rightarrow> 'e archive_error option \<times> 'z" where
  "writeOpenFile ops h p file regions z =
     (let (writeErr, z1) = (case regions of
            Some rs \<Rightarrow> (case op_Sparse ops h file rs z of (None, z1) \<Rightarrow> (None, z1) | (Some e, z1) \<Rightarrow> (Some (Plain e), z1))
          | None \<Rightarrow> writeStream ops h p file z);
          (closeErr, z2) = op_Close ops file z1 in
      case writeErr of
        Some e \<Rightarrow> (Some e, z2)
      | None \<Rightarrow> (case closeErr of Some e \<Rightarrow> (Some (CloseFailed p e), z2) | None \<Rightarrow> (None, z2)))"

text \<open>The path without read-ahead; theory ReadAhead has the other.\<close>

definition writeRegularFile ::
  "('m, 'e, 'f, 'r, 'z) tar_ops \<Rightarrow> string \<Rightarrow> 'm tar_header \<Rightarrow> string list \<Rightarrow> 'z \<Rightarrow> 'e archive_error option \<times> 'z" where
  "writeRegularFile ops srcDir h p z =
     (case op_Open ops (srcDir, p) z of
        (Inl e, z1) \<Rightarrow> (Some (Plain e), z1)
      | (Inr file, z1) \<Rightarrow>
          (case op_Probe ops file (th_Size h) z1 of
             (Inl e, z2) \<Rightarrow> (let (_, z3) = op_Close ops file z2 in (Some (ProbeFailed p e), z3))
           | (Inr regions, z2) \<Rightarrow> writeOpenFile ops h p file regions z2))"

type_synonym links = "fileID \<rightharpoonup> string"

definition writeEntry ::
  "('m, 'e, 'f, 'r, 'z) tar_ops \<Rightarrow> string \<Rightarrow> string \<Rightarrow> ('m, 'e) walkEntry \<Rightarrow> links \<times> 'z \<Rightarrow> 'e archive_error option \<times> links \<times> 'z" where
  "writeEntry ops srcDir pre item lz =
     (let (links, z) = lz; p = we_path item in
      case we_info item of
        Inl e \<Rightarrow> (Some (Plain e), links, z)
      | Inr info \<Rightarrow>
          if fi_kind info \<in> {SocketKind, DeviceKind, CharDeviceKind, PipeKind} then (None, links, z)
          else
            let (link, z1) = (if fi_kind info = SymlinkKind then op_Readlink ops (srcDir, p) z else (Inr [], z)) in
            (case link of
              Inl e \<Rightarrow> (Some (Plain e), links, z1)
            | Inr target \<Rightarrow>
                (case header_type (fi_kind info) of
                   None \<Rightarrow> (Some UnknownMode, links, z1)
                 | Some ty \<Rightarrow>
                     let h = \<lparr> th_Name = entry_name pre p (we_isDir item), th_Type = ty, th_Linkname = target,
                           th_Size = (if ty = TypeReg then fi_size info else 0), th_meta = fi_meta info \<rparr> in
                     if fi_kind info \<noteq> RegularKind
                     then (let (e, z2) = writeHeaderOnly ops h z1 in (e, links, z2))
                     else (case hardlinkID info of
                         None \<Rightarrow> (let (e, z2) = writeRegularFile ops srcDir h p z1 in (e, links, z2))
                       | Some fid \<Rightarrow>
                           (case links fid of
                              Some seen \<Rightarrow>
                                (let (e, z2) = writeHeaderOnly ops (h\<lparr> th_Type := TypeLink, th_Linkname := seen, th_Size := 0 \<rparr>) z1 in
                                 (e, links, z2))
                            | None \<Rightarrow>
                                (let (e, z2) = writeRegularFile ops srcDir h p z1 in (e, links(fid \<mapsto> th_Name h), z2)))))))"

definition write_tree ::
  "('m, 'e, 'f, 'r, 'z) tar_ops \<Rightarrow> (string \<Rightarrow> ('m, 'e) node) \<Rightarrow> string \<Rightarrow> string \<Rightarrow> links \<times> 'z \<Rightarrow> 'e archive_error option \<times> links \<times> 'z" where
  "write_tree ops trees srcDir pre lz = walkTree ops trees srcDir (fst lz) (writeEntry ops srcDir pre) (snd lz)"

definition Tar ::
  "('m, 'e, 'f, 'r, 'z) tar_ops \<Rightarrow> (string \<Rightarrow> ('m, 'e) node) \<Rightarrow> string \<Rightarrow> 'z \<Rightarrow> 'e archive_error option \<times> 'z" where
  "Tar ops trees srcDir z =
     (case write_tree ops trees srcDir [] (Map.empty, z) of
        (Some e, _, z1) \<Rightarrow> (Some (TreeFailed srcDir e), z1)
      | (None, _, z1) \<Rightarrow>
          (case op_CloseTar ops z1 of
             (Some e, z2) \<Rightarrow> (Some (TarCloseFailed e), z2)
           | (None, z2) \<Rightarrow> (None, z2)))"

section \<open>Several trees\<close>

record Member =
  mb_Subdir :: string
  mb_Dir :: string

fun validate_from :: "nat \<Rightarrow> (string \<rightharpoonup> nat) \<Rightarrow> Member list \<Rightarrow> 'e archive_error option" where
  "validate_from index firstIndex [] = None"
| "validate_from index firstIndex (m # ms) =
     (if mb_Subdir m = [] then Some (EmptySubdir index)
      else if ContainsChar (mb_Subdir m) (CHR ''/'') then Some (SubdirNotElement index (mb_Subdir m))
      else (case firstIndex (mb_Subdir m) of
          Some prior \<Rightarrow> Some (DuplicateSubdir (mb_Subdir m) prior index)
        | None \<Rightarrow> validate_from (Suc index) (firstIndex(mb_Subdir m \<mapsto> index)) ms))"

definition validateMembers :: "Member list \<Rightarrow> 'e archive_error option" where
  "validateMembers members = validate_from 0 Map.empty members"

fun write_members ::
  "('m, 'e, 'f, 'r, 'z) tar_ops \<Rightarrow> (string \<Rightarrow> ('m, 'e) node) \<Rightarrow> Member list \<Rightarrow> links \<times> 'z \<Rightarrow> 'e archive_error option \<times> links \<times> 'z" where
  "write_members ops trees [] lz = (None, lz)"
| "write_members ops trees (m # ms) lz =
     (case write_tree ops trees (mb_Dir m) (mb_Subdir m) lz of
        (Some e, lz1) \<Rightarrow> (Some (TreeFailed (mb_Subdir m) e), lz1)
      | (None, lz1) \<Rightarrow> write_members ops trees ms lz1)"

definition TarMembers ::
  "('m, 'e, 'f, 'r, 'z) tar_ops \<Rightarrow> (string \<Rightarrow> ('m, 'e) node) \<Rightarrow> Member list \<Rightarrow> 'z \<Rightarrow> 'e archive_error option \<times> 'z" where
  "TarMembers ops trees members z =
     (case validateMembers members of
        Some e \<Rightarrow> (Some e, z)
      | None \<Rightarrow>
          (case write_members ops trees members (Map.empty, z) of
             (Some e, _, z1) \<Rightarrow> (Some e, z1)
           | (None, _, z1) \<Rightarrow>
               (case op_CloseTar ops z1 of
                  (Some e, z2) \<Rightarrow> (Some (TarCloseFailed e), z2)
                | (None, z2) \<Rightarrow> (None, z2))))"

section \<open>Entry names\<close>

text \<open>A name that a directory can hold.\<close>

definition good_name :: "string \<Rightarrow> bool" where
  "good_name w \<longleftrightarrow> w \<noteq> [] \<and> w \<noteq> ''.'' \<and> w \<noteq> ''..'' \<and> CHR ''/'' \<notin> set w"

lemma split_on_slash: "sep \<notin> set a \<Longrightarrow> split_on sep (a @ sep # b) = a # split_on sep b"
  by (induction a) (auto split: list.splits)

lemma split_on_plain: "sep \<notin> set a \<Longrightarrow> split_on sep a = [a]"
  by (induction a) auto

lemma split_join: "ws \<noteq> [] \<Longrightarrow> (\<And>w. w \<in> set ws \<Longrightarrow> CHR ''/'' \<notin> set w) \<Longrightarrow> split_on (CHR ''/'') (join_with ''/'' ws) = ws"
  by (induction "''/''" ws rule: join_with.induct) (simp_all add: split_on_plain split_on_slash)

lemma clean_good: "(\<And>w. w \<in> set ws \<Longrightarrow> good_name w) \<Longrightarrow> foldl (clean_step r) acc ws = acc @ ws"
  by (induction ws arbitrary: acc) (simp_all add: good_name_def)

lemma join_hd: "ws \<noteq> [] \<Longrightarrow> hd ws \<noteq> [] \<Longrightarrow> join_with sep ws \<noteq> [] \<and> hd (join_with sep ws) = hd (hd ws)"
  by (cases ws rule: remdups_adj.cases) simp_all

lemma path_Clean_good:
  assumes "ws \<noteq> []" "\<And>w. w \<in> set ws \<Longrightarrow> good_name w"
  shows "path_Clean (join_with ''/'' ws) = join_with ''/'' ws"
proof -
  have hd: "good_name (hd ws)" using assms by simp
  then have j: "join_with ''/'' ws \<noteq> []" "hd (join_with ''/'' ws) = hd (hd ws)"
    using join_hd [OF assms(1)] by (auto simp: good_name_def)
  have "hd (hd ws) \<noteq> CHR ''/''" using hd by (cases "hd ws") (auto simp: good_name_def)
  then have "\<not> IsAbs (join_with ''/'' ws)" using j by (simp add: IsAbs_def)
  moreover have "split_on (CHR ''/'') (join_with ''/'' ws) = ws"
    using assms by (intro split_join) (auto simp: good_name_def)
  moreover have "foldl (clean_step r) [] ws = ws" for r using clean_good [of ws r "[]"] assms(2) by simp
  ultimately show ?thesis using j by (simp add: path_Clean_def Let_def)
qed

lemma join_Cons: "ws \<noteq> [] \<Longrightarrow> join_with sep (w # ws) = w @ sep @ join_with sep ws"
  by (cases ws) simp_all

text \<open>A member's entries are named by the member and the path inside it.\<close>

lemma entry_name_member:
  assumes "good_name pre" "\<And>w. w \<in> set p \<Longrightarrow> good_name w"
  shows "entry_name pre p isDir = join_with ''/'' (pre # p) @ (if isDir then ''/'' else [])"
proof -
  have pre: "pre \<noteq> []" using assms(1) by (simp add: good_name_def)
  show ?thesis
  proof (cases "p = []")
    case True
    then show ?thesis using pre path_Clean_good [of "[pre]"] assms(1)
      by (simp add: entry_name_def rel_path_def slash_Join_def)
  next
    case False
    have nd: "join_with ''/'' p \<noteq> ''.''"
    proof
      assume "join_with ''/'' p = ''.''"
      then have "split_on (CHR ''/'') (join_with ''/'' p) = [''.'']" by simp
      then have "p = [''.'']" using split_join [OF False] assms(2) by (simp add: good_name_def)
      then show False using assms(2) [of "''.''"] by (simp add: good_name_def)
    qed
    have "join_with ''/'' p \<noteq> []" using join_hd [OF False] assms(2) [of "hd p"] False by (simp add: good_name_def)
    moreover have "path_Clean (join_with ''/'' (pre # p)) = join_with ''/'' (pre # p)"
      using assms by (intro path_Clean_good) auto
    ultimately show ?thesis using pre False nd
      by (simp add: entry_name_def rel_path_def slash_Join_def join_Cons)
  qed
qed

lemma join_inj:
  assumes "ws \<noteq> []" "vs \<noteq> []" "\<And>w. w \<in> set ws \<union> set vs \<Longrightarrow> CHR ''/'' \<notin> set w" "join_with ''/'' ws = join_with ''/'' vs"
  shows "ws = vs"
proof -
  have "split_on (CHR ''/'') (join_with ''/'' ws) = ws" using assms(3) by (intro split_join [OF assms(1)]) blast
  moreover have "split_on (CHR ''/'') (join_with ''/'' vs) = vs" using assms(3) by (intro split_join [OF assms(2)]) blast
  ultimately show ?thesis unfolding assms(4) by (rule trans [OF sym])
qed

lemma last_join: "ws \<noteq> [] \<Longrightarrow> last ws \<noteq> [] \<Longrightarrow> join_with sep ws \<noteq> [] \<and> last (join_with sep ws) = last (last ws)"
  by (induction sep ws rule: join_with.induct) (auto split: if_splits)

lemma good_last: "good_name w \<Longrightarrow> last w \<noteq> CHR ''/''"
  unfolding good_name_def by (metis last_in_set)

lemma entry_name_inj:
  assumes good: "good_name pre" "good_name pre'" "\<And>w. w \<in> set p \<union> set p' \<Longrightarrow> good_name w"
    and eq: "entry_name pre p d = entry_name pre' p' d'"
  shows "pre = pre' \<and> p = p'"
proof -
  have g: "\<And>w. w \<in> set (pre # p) \<union> set (pre' # p') \<Longrightarrow> good_name w" using good by auto
  have e: "join_with ''/'' (pre # p) @ (if d then ''/'' else []) = join_with ''/'' (pre' # p') @ (if d' then ''/'' else [])"
    using eq entry_name_member [OF good(1), of p d] entry_name_member [OF good(2), of p' d'] good(3) by auto
  have "last (join_with ''/'' (w # ws)) \<noteq> CHR ''/''" if "\<And>v. v \<in> set (w # ws) \<Longrightarrow> good_name v" for w ws
  proof -
    have "good_name (last (w # ws))" using that by (metis last_in_set list.distinct(1))
    then show ?thesis using last_join [of "w # ws" "''/''"] good_last by (simp add: good_name_def del: last.simps join_with.simps)
  qed
  then have l: "last (join_with ''/'' (pre # p)) \<noteq> CHR ''/''" "last (join_with ''/'' (pre' # p')) \<noteq> CHR ''/''"
    using g by (meson UnI1 UnI2)+
  have "d = d'" using e l by (cases d; cases d') (auto dest: arg_cong [where f = last])
  then have "join_with ''/'' (pre # p) = join_with ''/'' (pre' # p')" using e by simp
  then show ?thesis using join_inj [of "pre # p" "pre' # p'"] g by (auto simp: good_name_def)
qed

section \<open>What the archive and the tree promise\<close>

text \<open>
  The headers written so far, the device that opening a source finds, and the target of each symlink. A
  header counts as written when the operation reports success; nothing else writes one.
\<close>

definition tar_laws ::
  "('m, 'e, 'f, 'r, 'z) tar_ops \<Rightarrow> ('z \<Rightarrow> 'm tar_header list) \<Rightarrow> (string \<Rightarrow> nat) \<Rightarrow> (string \<times> string list \<Rightarrow> string) \<Rightarrow> bool" where
  "tar_laws ops log root_dev target \<longleftrightarrow>
     (\<forall>z. log (snd (op_CtxErr ops z)) = log z)
   \<and> (\<forall>p z. log (snd (op_Open ops p z)) = log z)
   \<and> (\<forall>f z. log (snd (op_Stat ops f z)) = log z)
   \<and> (\<forall>f z. log (snd (op_Close ops f z)) = log z)
   \<and> (\<forall>f z. log (snd (op_Copy ops f z)) = log z)
   \<and> (\<forall>f n z. log (snd (op_Probe ops f n z)) = log z)
   \<and> (\<forall>z. log (snd (op_CloseTar ops z)) = log z)
   \<and> (\<forall>p z. log (snd (op_Readlink ops p z)) = log z)
   \<and> (\<forall>p z t z'. op_Readlink ops p z = (Inr t, z') \<longrightarrow> t = target p)
   \<and> (\<forall>h z z'. op_WriteHeader ops h z = (None, z') \<longrightarrow> log z' = log z @ [h])
   \<and> (\<forall>h f r z z'. op_Sparse ops h f r z = (None, z') \<longrightarrow> log z' = log z @ [h])
   \<and> (\<forall>dir z f z1 i z2. op_Open ops (dir, []) z = (Inr f, z1) \<longrightarrow> op_Stat ops f z1 = (Inr i, z2) \<longrightarrow> fst (deviceOf i) = root_dev dir)"

lemma tar_lawsD:
  assumes "tar_laws ops log root_dev target"
  shows "op_CtxErr ops z = (a, z') \<Longrightarrow> log z' = log z"
    and "op_Open ops p z = (b, z') \<Longrightarrow> log z' = log z"
    and "op_Stat ops f z = (c, z') \<Longrightarrow> log z' = log z"
    and "op_Close ops f z = (a, z') \<Longrightarrow> log z' = log z"
    and "op_Copy ops f z = (a, z') \<Longrightarrow> log z' = log z"
    and "op_Probe ops f n z = (d, z') \<Longrightarrow> log z' = log z"
    and "op_CloseTar ops z = (a, z') \<Longrightarrow> log z' = log z"
    and "op_Readlink ops p z = (t, z') \<Longrightarrow> log z' = log z"
    and "op_Readlink ops p z = (Inr l, z') \<Longrightarrow> l = target p"
    and "op_WriteHeader ops h z = (None, z') \<Longrightarrow> log z' = log z @ [h]"
    and "op_Sparse ops h f r z = (None, z') \<Longrightarrow> log z' = log z @ [h]"
    and "op_Open ops (dir, []) z = (Inr f, z1) \<Longrightarrow> op_Stat ops f z1 = (Inr i, z2) \<Longrightarrow> fst (deviceOf i) = root_dev dir"
  using assms unfolding tar_laws_def by (blast | metis snd_conv)+

text \<open>The header of an entry, and what writing the entry does to the links and the headers.\<close>

definition base_header :: "(string list \<Rightarrow> string) \<Rightarrow> string \<Rightarrow> ('m, 'e) walkEntry \<Rightarrow> 'm file_info \<Rightarrow> entry_type \<Rightarrow> 'm tar_header" where
  "base_header target pre item info ty =
     \<lparr> th_Name = entry_name pre (we_path item) (we_isDir item), th_Type = ty,
       th_Linkname = (if fi_kind info = SymlinkKind then target (we_path item) else []),
       th_Size = (if ty = TypeReg then fi_size info else 0), th_meta = fi_meta info \<rparr>"

definition emit ::
  "(string list \<Rightarrow> string) \<Rightarrow> string \<Rightarrow> ('m, 'e) walkEntry \<Rightarrow> links \<times> 'm tar_header list \<Rightarrow> links \<times> 'm tar_header list" where
  "emit target pre item lh =
     (case we_info item of
        Inl e \<Rightarrow> lh
      | Inr info \<Rightarrow>
          (case header_type (fi_kind info) of
             None \<Rightarrow> lh
           | Some ty \<Rightarrow>
               (let (links, hs) = lh; h = base_header target pre item info ty in
                if fi_kind info \<noteq> RegularKind then (links, hs @ [h])
                else (case hardlinkID info of
                    None \<Rightarrow> (links, hs @ [h])
                  | Some fid \<Rightarrow>
                      (case links fid of
                         Some seen \<Rightarrow> (links, hs @ [h\<lparr> th_Type := TypeLink, th_Linkname := seen, th_Size := 0 \<rparr>])
                       | None \<Rightarrow> (links(fid \<mapsto> th_Name h), hs @ [h]))))))"

lemma writeHeaderOnly_log:
  assumes "tar_laws ops log root_dev target" "writeHeaderOnly ops h z = (None, z')"
  shows "log z' = log z @ [h]"
  using assms tar_lawsD(10) [OF assms(1)] by (auto simp: writeHeaderOnly_def split: prod.splits option.splits)

lemma writeOpenFile_log:
  assumes laws: "tar_laws ops log root_dev target" and run: "writeOpenFile ops h p file regions z = (None, z')"
  shows "log z' = log z @ [h]"
proof -
  obtain z1 where w: "(case regions of
            Some rs \<Rightarrow> (case op_Sparse ops h file rs z of (None, z1) \<Rightarrow> (None, z1) | (Some e, z1) \<Rightarrow> (Some (Plain e), z1))
          | None \<Rightarrow> writeStream ops h p file z) = (None, z1)" and c: "op_Close ops file z1 = (None, z')"
    using run by (auto simp: writeOpenFile_def Let_def split: prod.splits option.splits)
  have "log z1 = log z @ [h]"
  proof (cases regions)
    case None
    then obtain z2 where "writeHeaderOnly ops h z = (None, z2)" "op_Copy ops file z2 = (None, z1)"
      using w by (auto simp: writeStream_def split: prod.splits option.splits)
    then show ?thesis using writeHeaderOnly_log [OF laws] tar_lawsD(5) [OF laws] by metis
  next
    case (Some rs)
    then have "op_Sparse ops h file rs z = (None, z1)" using w by (auto split: prod.splits option.splits)
    then show ?thesis by (rule tar_lawsD(11) [OF laws])
  qed
  then show ?thesis using tar_lawsD(4) [OF laws c] by simp
qed

lemma writeRegularFile_log:
  assumes laws: "tar_laws ops log root_dev target" and run: "writeRegularFile ops dir h p z = (None, z')"
  shows "log z' = log z @ [h]"
proof -
  obtain f z1 r z2 where s: "op_Open ops (dir, p) z = (Inr f, z1)" "op_Probe ops f (th_Size h) z1 = (Inr r, z2)"
    "writeOpenFile ops h p f r z2 = (None, z')"
    using run by (auto simp: writeRegularFile_def split: prod.splits sum.splits)
  then show ?thesis using tar_lawsD(2) [OF laws s(1)] tar_lawsD(6) [OF laws s(2)] writeOpenFile_log [OF laws s(3)] by simp
qed

lemma header_type_special:
  "k \<in> {SocketKind, DeviceKind, CharDeviceKind, PipeKind} \<Longrightarrow> header_type k = None"
  "header_type k = Some TypeReg \<longleftrightarrow> k = RegularKind"
  by (auto, cases k, simp_all)

lemma writeEntry_emit:
  assumes laws: "tar_laws ops log root_dev target"
    and run: "writeEntry ops dir pre item (links, z) = (None, links', z')"
  shows "(links', log z') = emit (\<lambda>p. target (dir, p)) pre item (links, log z) \<and> (\<exists>info. we_info item = Inr info)"
proof -
  obtain info where info: "we_info item = Inr info"
    using run by (cases "we_info item") (auto simp: writeEntry_def)
  show ?thesis
  proof (cases "fi_kind info \<in> {SocketKind, DeviceKind, CharDeviceKind, PipeKind}")
    case True
    then show ?thesis using run info header_type_special(1) [OF True] by (auto simp: writeEntry_def emit_def)
  next
    case False
    define r where "r = (if fi_kind info = SymlinkKind then op_Readlink ops (dir, we_path item) z else (Inr [], z))"
    obtain link z1 where r1: "r = (link, z1)" by fastforce
    have run2: "(case link of
              Inl e \<Rightarrow> (Some (Plain e), links, z1)
            | Inr target \<Rightarrow>
                (case header_type (fi_kind info) of
                   None \<Rightarrow> (Some UnknownMode, links, z1)
                 | Some ty \<Rightarrow>
                     let h = \<lparr> th_Name = entry_name pre (we_path item) (we_isDir item), th_Type = ty, th_Linkname = target,
                           th_Size = (if ty = TypeReg then fi_size info else 0), th_meta = fi_meta info \<rparr> in
                     if fi_kind info \<noteq> RegularKind
                     then (let (e, z2) = writeHeaderOnly ops h z1 in (e, links, z2))
                     else (case hardlinkID info of
                         None \<Rightarrow> (let (e, z2) = writeRegularFile ops dir h (we_path item) z1 in (e, links, z2))
                       | Some fid \<Rightarrow>
                           (case links fid of
                              Some seen \<Rightarrow>
                                (let (e, z2) = writeHeaderOnly ops (h\<lparr> th_Type := TypeLink, th_Linkname := seen, th_Size := 0 \<rparr>) z1 in
                                 (e, links, z2))
                            | None \<Rightarrow>
                                (let (e, z2) = writeRegularFile ops dir h (we_path item) z1 in (e, links(fid \<mapsto> th_Name h), z2))))))
        = (None, links', z')"
      using run info False r1 unfolding writeEntry_def r_def Let_def by simp
    then obtain t ty where t: "link = Inr t" "header_type (fi_kind info) = Some ty"
      by (auto split: sum.splits option.splits)
    have lz: "log z1 = log z" "t = (if fi_kind info = SymlinkKind then target (dir, we_path item) else [])"
      using r1 t(1) tar_lawsD(8,9) [OF laws] unfolding r_def by (auto split: if_splits)
    let ?h = "base_header (\<lambda>p. target (dir, p)) pre item info ty"
    have h: "\<lparr> th_Name = entry_name pre (we_path item) (we_isDir item), th_Type = ty, th_Linkname = t,
                           th_Size = (if ty = TypeReg then fi_size info else 0), th_meta = fi_meta info \<rparr> = ?h"
      using lz(2) by (simp add: base_header_def)
    have run3: "(if fi_kind info \<noteq> RegularKind
                     then (let (e, z2) = writeHeaderOnly ops ?h z1 in (e, links, z2))
                     else (case hardlinkID info of
                         None \<Rightarrow> (let (e, z2) = writeRegularFile ops dir ?h (we_path item) z1 in (e, links, z2))
                       | Some fid \<Rightarrow>
                           (case links fid of
                              Some seen \<Rightarrow>
                                (let (e, z2) = writeHeaderOnly ops (?h\<lparr> th_Type := TypeLink, th_Linkname := seen, th_Size := 0 \<rparr>) z1 in
                                 (e, links, z2))
                            | None \<Rightarrow>
                                (let (e, z2) = writeRegularFile ops dir ?h (we_path item) z1 in (e, links(fid \<mapsto> th_Name ?h), z2)))))
        = (None, links', z')"
      using run2 unfolding t sum.case option.case Let_def h by simp
    show ?thesis
      using run3 writeHeaderOnly_log [OF laws] writeRegularFile_log [OF laws] info t(2) lz(1)
      by (auto simp: emit_def Let_def split: if_splits option.splits prod.splits)
  qed
qed

section \<open>What a walk visits\<close>

text \<open>A directory of another filesystem; the ZFS control directory of the source.\<close>

definition is_foreign :: "nat \<Rightarrow> ('m, 'e) node \<Rightarrow> bool" where
  "is_foreign rootDev n \<longleftrightarrow> (case node_info n of Inl e \<Rightarrow> False | Inr info \<Rightarrow> snd (deviceOf info) \<and> fst (deviceOf info) \<noteq> rootDev)"

definition item_of :: "string list \<Rightarrow> ('m, 'e) node \<Rightarrow> ('m, 'e) walkEntry" where
  "item_of p n = \<lparr> we_path = p, we_isDir = IsDir n, we_info = node_info n \<rparr>"

fun visible :: "nat \<Rightarrow> string list \<Rightarrow> ('m, 'e) node \<Rightarrow> ('m, 'e) walkEntry list"
  and visibles :: "nat \<Rightarrow> string list \<Rightarrow> ('m, 'e) node list \<Rightarrow> ('m, 'e) walkEntry list" where
  "visible d p (File nm i) = [item_of p (File nm i)]"
| "visible d p (Unreadable nm i e) = (if p = [zfsControlDir] then [] else [item_of p (Unreadable nm i e)])"
| "visible d p (Directory nm i ns) =
     (if p = [zfsControlDir] then []
      else item_of p (Directory nm i ns) # (if p \<noteq> [] \<and> is_foreign d (Directory nm i ns) then [] else visibles d p ns))"
| "visibles d p [] = []"
| "visibles d p (n # ns) = visible d (p @ [node_name n]) n @ visibles d p ns"

text \<open>
  A visit whose success has an effect \<open>eff\<close> on a view of the state: a walk that succeeds has the effect
  of visiting the visible entries in order.
\<close>

lemma walk_effect:
  fixes view :: "'z \<Rightarrow> 'v"
  assumes visit: "\<And>item z z'. visit item z = (None, z') \<Longrightarrow> view z' = eff item (view z) \<and> P item"
    and ctx: "\<And>z z' e. ctxErr z = (e, z') \<Longrightarrow> view z' = view z"
  shows "walkDir (walk_fn ctxErr d visit) p n z = (r, z') \<Longrightarrow> \<forall>e. r \<noteq> Stop e \<Longrightarrow>
      r = Continue \<and> view z' = fold eff (visible d p n) (view z) \<and> (\<forall>item \<in> set (visible d p n). P item)"
    and "walkDirs (walk_fn ctxErr d visit) p ns z = (r, z') \<Longrightarrow> \<forall>e. r \<noteq> Stop e \<Longrightarrow>
      r = Continue \<and> view z' = fold eff (visibles d p ns) (view z) \<and> (\<forall>item \<in> set (visibles d p ns). P item)"
proof (induction d p n and d p ns arbitrary: z r z' and z r z' rule: visible_visibles.induct)
  case (1 d p nm i)
  then show ?case using visit
    by (auto simp: walk_fn_def visit_step_def Let_def item_of_def dest: ctx split: prod.splits option.splits)
next
  case (2 d p nm i e)
  then show ?case using visit
    by (auto simp: walk_fn_def visit_step_def Let_def item_of_def dest!: ctx split: prod.splits option.splits if_splits sum.splits step.splits)
next
  case (3 d p nm i ns)
  let ?n = "Directory nm i ns" and ?fn = "walk_fn ctxErr d visit"
  obtain s z1 where s: "?fn p ?n None z = (s, z1)" by fastforce
  show ?case
  proof (cases s)
    case (Stop e)
    then show ?thesis using 3 s by auto
  next
    case SkipDir
    then have r: "r = Continue" "z' = z1" using 3 s by simp_all
    have "view z1 = fold eff (visible d p ?n) (view z) \<and> (\<forall>item \<in> set (visible d p ?n). P item)"
      using s SkipDir visit
      by (auto simp: walk_fn_def visit_step_def Let_def item_of_def is_foreign_def dest!: ctx
          split: prod.splits option.splits if_splits sum.splits)
    then show ?thesis using r by simp
  next
    case Continue
    then have run: "walkDirs ?fn p ns z1 = (r, z')" using 3 s by simp
    have "p \<noteq> [zfsControlDir] \<and> \<not> (p \<noteq> [] \<and> is_foreign d ?n) \<and> view z1 = eff (item_of p ?n) (view z) \<and> P (item_of p ?n)"
      using s Continue visit
      by (auto simp: walk_fn_def visit_step_def Let_def item_of_def is_foreign_def dest!: ctx
          split: prod.splits option.splits if_splits sum.splits)
    then show ?thesis using "3.IH" [OF _ _ run] "3.prems"(2) by auto
  qed
next
  case (4 d p)
  then show ?case by auto
next
  case (5 d p n ns)
  obtain s z1 where s: "walkDir (walk_fn ctxErr d visit) (p @ [node_name n]) n z = (s, z1)" by fastforce
  have ns: "\<forall>e. s \<noteq> Stop e" using "5.prems" s by auto
  note h = "5.IH"(1) [OF s ns]
  then have run: "walkDirs (walk_fn ctxErr d visit) p ns z1 = (r, z')" using 5 s by simp
  show ?case using h "5.IH"(2) [OF run "5.prems"(2)] by auto
qed

text \<open>Every entry of every member, with its member.\<close>

type_synonym ('m, 'e) entry = "Member \<times> ('m, 'e) walkEntry"

definition all_entries :: "(string \<Rightarrow> ('m, 'e) node) \<Rightarrow> (string \<Rightarrow> nat) \<Rightarrow> Member list \<Rightarrow> ('m, 'e) entry list" where
  "all_entries trees root_dev members =
     concat (map (\<lambda>m. map (Pair m) (visible (root_dev (mb_Dir m)) [] (trees (mb_Dir m)))) members)"

definition emit_entry :: "(string \<times> string list \<Rightarrow> string) \<Rightarrow> ('m, 'e) entry \<Rightarrow> links \<times> 'm tar_header list \<Rightarrow> links \<times> 'm tar_header list" where
  "emit_entry target x = emit (\<lambda>p. target (mb_Dir (fst x), p)) (mb_Subdir (fst x)) (snd x)"

lemma dirDevice_law:
  assumes laws: "tar_laws ops log root_dev target" and run: "dirDevice ops dir z = (Inr d, z')"
  shows "d = root_dev dir \<and> log z' = log z"
proof -
  obtain f z1 i z2 where s: "op_Open ops (dir, []) z = (Inr f, z1)" "op_Stat ops f z1 = (Inr i, z2)"
    "op_Close ops f z2 = (None, z')" "d = fst (deviceOf i)"
    using run by (auto simp: dirDevice_def Let_def split: prod.splits sum.splits option.splits)
  then show ?thesis
    using tar_lawsD(12) [OF laws s(1,2)] tar_lawsD(2) [OF laws s(1)] tar_lawsD(3) [OF laws s(2)] tar_lawsD(4) [OF laws s(3)]
    by simp
qed

lemma write_tree_effect:
  assumes laws: "tar_laws ops log root_dev target"
    and run: "write_tree ops trees dir pre (links, z) = (None, links', z')"
  shows "(links', log z') = fold (emit (\<lambda>p. target (dir, p)) pre) (visible (root_dev dir) [] (trees dir)) (links, log z)
    \<and> (\<forall>item \<in> set (visible (root_dev dir) [] (trees dir)). \<exists>info. we_info item = Inr info)"
proof -
  let ?visit = "writeEntry ops dir pre" and ?ctx = "\<lambda>(s, z). let (e, z') = op_CtxErr ops z in (e, s :: links, z')"
  let ?view = "\<lambda>lz. (fst lz, log (snd lz))"
  obtain d z1 where d: "dirDevice ops dir z = (Inr d, z1)"
    using run by (auto simp: write_tree_def walkTree_def split: prod.splits sum.splits)
  obtain r lz where r: "walkDir (walk_fn ?ctx d ?visit) [] (trees dir) (links, z1) = (r, lz)" by (metis surj_pair)
  have ns: "\<forall>e. r \<noteq> Stop e" and lz: "lz = (links', z')"
    using run d r by (auto simp: write_tree_def walkTree_def split: step.splits prod.splits)
  have v: "?view lz' = emit (\<lambda>p. target (dir, p)) pre item (?view lz0) \<and> (\<exists>info. we_info item = Inr info)"
    if w: "?visit item lz0 = (None, lz')" for item lz0 lz'
    using w writeEntry_emit [OF laws, of dir pre item "fst lz0" "snd lz0" "fst lz'" "snd lz'"] by simp
  have c: "?view lz' = ?view lz0" if x: "?ctx lz0 = (e, lz')" for lz0 lz' e
    using x tar_lawsD(1) [OF laws] by (auto split: prod.splits)
  have "?view lz = fold (emit (\<lambda>p. target (dir, p)) pre) (visible d [] (trees dir)) (?view (links, z1))
      \<and> (\<forall>item \<in> set (visible d [] (trees dir)). \<exists>info. we_info item = Inr info)"
  proof (rule walk_effect(1) [where view = ?view and visit = ?visit and ctxErr = ?ctx, THEN conjunct2])
    show "walkDir (walk_fn ?ctx d ?visit) [] (trees dir) (links, z1) = (r, lz)" by (rule r)
    show "\<forall>e. r \<noteq> Stop e" by (rule ns)
  qed (erule v, erule c)
  then show ?thesis using dirDevice_law [OF laws d] lz by simp
qed

lemma fold_emit_entry:
  "fold (emit_entry target) (map (Pair m) items) = fold (emit (\<lambda>p. target (mb_Dir m, p)) (mb_Subdir m)) items"
  by (simp add: fold_map comp_def emit_entry_def)

lemma write_members_effect:
  assumes laws: "tar_laws ops log root_dev target"
  shows "write_members ops trees ms (links, z) = (None, links', z') \<Longrightarrow>
    (links', log z') = fold (emit_entry target) (all_entries trees root_dev ms) (links, log z)
    \<and> (\<forall>x \<in> set (all_entries trees root_dev ms). \<exists>info. we_info (snd x) = Inr info)"
proof (induction ms arbitrary: links z)
  case Nil
  then show ?case by (simp add: all_entries_def)
next
  case (Cons m ms)
  then obtain l1 z1 where s: "write_tree ops trees (mb_Dir m) (mb_Subdir m) (links, z) = (None, l1, z1)"
    "write_members ops trees ms (l1, z1) = (None, links', z')"
    by (auto split: prod.splits option.splits)
  note e = write_tree_effect [OF laws s(1)]
  have "fold (emit_entry target) (all_entries trees root_dev (m # ms)) (links, log z)
      = fold (emit_entry target) (all_entries trees root_dev ms) (l1, log z1)"
    using e by (simp add: all_entries_def fold_emit_entry)
  then show ?case using Cons.IH [OF s(2)] e by (auto simp: all_entries_def)
qed

section \<open>The headers\<close>

definition entry_named :: "('m, 'e) entry \<Rightarrow> string" where
  "entry_named x = entry_name (mb_Subdir (fst x)) (we_path (snd x)) (we_isDir (snd x))"

definition archivable :: "('e + 'm file_info) \<Rightarrow> bool" where
  "archivable i \<longleftrightarrow> (case i of Inl e \<Rightarrow> False | Inr info \<Rightarrow> header_type (fi_kind info) \<noteq> None)"

definition inode_of :: "('e + 'm file_info) \<Rightarrow> fileID option" where
  "inode_of i = (case i of Inl e \<Rightarrow> None | Inr info \<Rightarrow> if fi_kind info = RegularKind then hardlinkID info else None)"

definition link_ok :: "('m, 'e) entry list \<Rightarrow> 'm tar_header list \<Rightarrow> 'm tar_header \<Rightarrow> bool" where
  "link_ok xs before h \<longleftrightarrow> (th_Type h = TypeLink \<longrightarrow>
     (\<exists>h' \<in> set before. th_Type h' = TypeReg \<and> th_Name h' = th_Linkname h)
   \<and> (\<exists>x \<in> set xs. \<exists>y \<in> set xs. entry_named x = th_Name h \<and> entry_named y = th_Linkname h
        \<and> inode_of (we_info (snd x)) \<noteq> None \<and> inode_of (we_info (snd y)) = inode_of (we_info (snd x))))"

definition links_sound :: "('m, 'e) entry list \<Rightarrow> links \<Rightarrow> 'm tar_header list \<Rightarrow> bool" where
  "links_sound xs links hs \<longleftrightarrow> (\<forall>fid nm. links fid = Some nm \<longrightarrow>
     (\<exists>h \<in> set hs. th_Type h = TypeReg \<and> th_Name h = nm)
   \<and> (\<exists>y \<in> set xs. entry_named y = nm \<and> inode_of (we_info (snd y)) = Some fid))"

definition headers_ok :: "('m, 'e) entry list \<Rightarrow> 'm tar_header list \<Rightarrow> bool" where
  "headers_ok xs hs \<longleftrightarrow> map th_Name hs = map entry_named (filter (\<lambda>x. archivable (we_info (snd x))) xs)
     \<and> (\<forall>i < length hs. link_ok xs (take i hs) (hs ! i))"

lemma link_ok_more: "link_ok xs before h \<Longrightarrow> link_ok (xs @ ys) before h"
  unfolding link_ok_def by fastforce

lemma headers_ok_snoc:
  "headers_ok xs hs \<Longrightarrow> link_ok (xs @ [x]) hs h \<Longrightarrow> archivable (we_info (snd x)) \<Longrightarrow> th_Name h = entry_named x \<Longrightarrow>
   headers_ok (xs @ [x]) (hs @ [h])"
  unfolding headers_ok_def by (auto simp: less_Suc_eq nth_append intro: link_ok_more)

lemma headers_ok_skip: "headers_ok xs hs \<Longrightarrow> \<not> archivable (we_info (snd x)) \<Longrightarrow> headers_ok (xs @ [x]) hs"
  unfolding headers_ok_def by (auto intro: link_ok_more)

lemma links_sound_more: "links_sound xs links hs \<Longrightarrow> links_sound (xs @ ys) links (hs @ hs')"
  unfolding links_sound_def by fastforce

lemma emit_entry_step:
  assumes e: "emit_entry target x (links, hs0 @ hs) = (links', hs')"
    and inv: "headers_ok xs hs" "links_sound xs links hs"
  obtains hs2 where "hs' = hs0 @ hs2" "headers_ok (xs @ [x]) hs2" "links_sound (xs @ [x]) links' hs2"
proof (cases "archivable (we_info (snd x))")
  case False
  then have "links' = links" "hs' = hs0 @ hs"
    using e by (auto simp: emit_entry_def emit_def archivable_def split: sum.splits option.splits)
  then show ?thesis using that [of hs] headers_ok_skip [OF inv(1) False] links_sound_more [OF inv(2), of "[x]" "[]"] by simp
next
  case True
  then obtain info ty where i: "we_info (snd x) = Inr info" "header_type (fi_kind info) = Some ty"
    by (auto simp: archivable_def split: sum.splits)
  let ?h = "base_header (\<lambda>p. target (mb_Dir (fst x), p)) (mb_Subdir (fst x)) (snd x) info ty"
  have nm: "th_Name ?h = entry_named x" "th_Type ?h = ty" by (simp_all add: base_header_def entry_named_def)
  have "ty \<noteq> TypeLink" using i(2) by (cases "fi_kind info") auto
  then have plain: "headers_ok (xs @ [x]) (hs @ [?h])"
    using headers_ok_snoc [OF inv(1) _ True nm(1)] nm(2) by (simp add: link_ok_def)
  note keep = links_sound_more [OF inv(2), of "[x]" "[?h]"]
  show ?thesis
  proof (cases "inode_of (we_info (snd x))")
    case None
    then have "links' = links \<and> hs' = hs0 @ hs @ [?h]"
      using e i by (auto simp: emit_entry_def emit_def inode_of_def Let_def split: if_splits)
    then show ?thesis using that plain keep by blast
  next
    case (Some fid)
    then have r: "fi_kind info = RegularKind" "hardlinkID info = Some fid" "ty = TypeReg"
      using i by (auto simp: inode_of_def split: if_splits)
    show ?thesis
    proof (cases "links fid")
      case None
      then have l: "links' = links(fid \<mapsto> entry_named x)" "hs' = hs0 @ hs @ [?h]"
        using e i r nm by (auto simp: emit_entry_def emit_def Let_def)
      have "links_sound (xs @ [x]) links' (hs @ [?h])"
        using keep Some nm r(3) unfolding links_sound_def l(1) by (auto split: if_splits)
      then show ?thesis using that plain l(2) by blast
    next
      case seen: (Some nm')
      let ?l = "?h\<lparr> th_Type := TypeLink, th_Linkname := nm', th_Size := 0 \<rparr>"
      have l: "links' = links" "hs' = hs0 @ hs @ [?l]"
        using e i r seen by (auto simp: emit_entry_def emit_def Let_def)
      have "link_ok (xs @ [x]) hs ?l"
        using inv(2) seen Some nm(1) unfolding links_sound_def link_ok_def by auto
      then have "headers_ok (xs @ [x]) (hs @ [?l])" using headers_ok_snoc [OF inv(1) _ True] nm(1) by simp
      moreover have "links_sound (xs @ [x]) links (hs @ [?l])" using links_sound_more [OF inv(2)] by simp
      ultimately show ?thesis using that l by blast
    qed
  qed
qed

lemma fold_emit_entries:
  "\<exists>hs. snd (fold (emit_entry target) xs (Map.empty, hs0)) = hs0 @ hs \<and> headers_ok xs hs
     \<and> links_sound xs (fst (fold (emit_entry target) xs (Map.empty, hs0))) hs"
proof (induction xs rule: rev_induct)
  case Nil
  then show ?case by (simp add: headers_ok_def links_sound_def)
next
  case (snoc x xs)
  then obtain hs where hs: "snd (fold (emit_entry target) xs (Map.empty, hs0)) = hs0 @ hs" "headers_ok xs hs"
    "links_sound xs (fst (fold (emit_entry target) xs (Map.empty, hs0))) hs" by blast
  let ?r = "fold (emit_entry target) xs (Map.empty, hs0)"
  obtain links' hs' where e: "emit_entry target x (fst ?r, hs0 @ hs) = (links', hs')" by fastforce
  then have "fold (emit_entry target) (xs @ [x]) (Map.empty, hs0) = (links', hs')"
    using hs(1) by (metis (no_types, lifting) fold_append fold_simps comp_apply prod.collapse)
  then show ?case using emit_entry_step [OF e hs(2,3)] by (metis fst_conv snd_conv)
qed

section \<open>Which entries there are\<close>

fun tidy :: "('m, 'e) node \<Rightarrow> bool" where
  "tidy (Directory nm i ns) \<longleftrightarrow> distinct (map node_name ns) \<and> (\<forall>n \<in> set ns. good_name (node_name n) \<and> tidy n)"
| "tidy n \<longleftrightarrow> True"

text \<open>
  The node a path leads to, when the walk may follow it: not through the control directory of the
  source, not below the mountpoint of another filesystem.
\<close>

fun lookup_path :: "nat \<Rightarrow> string list \<Rightarrow> ('m, 'e) node \<Rightarrow> string list \<Rightarrow> ('m, 'e) node option" where
  "lookup_path d at n [] = (if at = [zfsControlDir] \<and> IsDir n then None else Some n)"
| "lookup_path d at (Directory nm i ns) (w # ws) =
     (if at = [zfsControlDir] \<or> (at \<noteq> [] \<and> is_foreign d (Directory nm i ns)) then None
      else (case filter (\<lambda>n. node_name n = w) ns of
          [] \<Rightarrow> None
        | n # _ \<Rightarrow> lookup_path d (at @ [w]) n ws))"
| "lookup_path d at n (w # ws) = None"

lemma filter_named:
  "distinct (map node_name ns) \<Longrightarrow> n \<in> set ns \<Longrightarrow> filter (\<lambda>m. node_name m = node_name n) ns = [n]"
proof (induction ns)
  case (Cons x ns)
  then show ?case
  proof (cases "x = n")
    case True
    then have "filter (\<lambda>m. node_name m = node_name n) ns = []" using Cons.prems(1) by (auto simp: filter_empty_conv) (metis imageI)
    then show ?thesis using True by simp
  qed (use Cons in auto)
qed simp

lemma set_visibles: "set (visibles d p ns) = (\<Union>n \<in> set ns. set (visible d (p @ [node_name n]) n))"
  by (induction ns) auto

lemma visible_lookup:
  "tidy n \<Longrightarrow> item \<in> set (visible d p n) \<longleftrightarrow> (\<exists>q m. lookup_path d p n q = Some m \<and> item = item_of (p @ q) m)"
proof (induction n arbitrary: p)
  case (Directory nm i ns)
  let ?n = "Directory nm i ns"
  have kids: "(\<exists>n \<in> set ns. item \<in> set (visible d (p @ [node_name n]) n))
      \<longleftrightarrow> (\<exists>w q n ns' m. filter (\<lambda>n. node_name n = w) ns = n # ns' \<and> lookup_path d (p @ [w]) n q = Some m \<and> item = item_of (p @ w # q) m)"
    (is "?l \<longleftrightarrow> ?r")
  proof
    assume ?l
    then obtain n where n: "n \<in> set ns" "item \<in> set (visible d (p @ [node_name n]) n)" by blast
    then obtain q m where "lookup_path d (p @ [node_name n]) n q = Some m" "item = item_of ((p @ [node_name n]) @ q) m"
      using Directory by fastforce
    moreover have "filter (\<lambda>m. node_name m = node_name n) ns = [n]" using Directory.prems n(1) by (intro filter_named) simp_all
    ultimately show ?r by (intro exI [of _ "node_name n"]) fastforce
  next
    assume ?r
    then obtain w q n ns' m where r: "filter (\<lambda>n. node_name n = w) ns = n # ns'" "lookup_path d (p @ [w]) n q = Some m"
      "item = item_of (p @ w # q) m" by blast
    then have "n \<in> set (filter (\<lambda>n. node_name n = w) ns)" by simp
    then have "n \<in> set ns" "node_name n = w" by simp_all
    then show ?l using Directory r by fastforce
  qed
  show ?case
  proof (cases "p = [zfsControlDir]")
    case True
    have "lookup_path d p ?n q = None" for q using True by (cases q) simp_all
    then show ?thesis using True by simp
  next
    case False
    show ?thesis
    proof (cases "p \<noteq> [] \<and> is_foreign d ?n")
      case True
      have "lookup_path d p ?n q = Some m \<longleftrightarrow> q = [] \<and> m = ?n" for q m using True False by (cases q) auto
      then show ?thesis using True False by simp
    next
      case nf: False
      have down: "lookup_path d p ?n (w # q) = Some m \<longleftrightarrow>
          (\<exists>n ns'. filter (\<lambda>n. node_name n = w) ns = n # ns' \<and> lookup_path d (p @ [w]) n q = Some m)" for w q m
        using False nf by (cases "filter (\<lambda>n. node_name n = w) ns") auto
      have "(\<exists>q m. lookup_path d p ?n q = Some m \<and> item = item_of (p @ q) m) \<longleftrightarrow> item = item_of p ?n \<or>
         (\<exists>w q m. lookup_path d p ?n (w # q) = Some m \<and> item = item_of (p @ w # q) m)"
        using False by (metis append_Nil2 list.exhaust lookup_path.simps(1) option.inject)
      also have "(\<exists>w q m. lookup_path d p ?n (w # q) = Some m \<and> item = item_of (p @ w # q) m) \<longleftrightarrow>
         (\<exists>w q n ns' m. filter (\<lambda>n. node_name n = w) ns = n # ns' \<and> lookup_path d (p @ [w]) n q = Some m \<and> item = item_of (p @ w # q) m)"
        unfolding down by blast
      also have "\<dots> \<longleftrightarrow> item \<in> set (visibles d p ns)" unfolding set_visibles using kids by simp
      finally show ?thesis using False nf by auto
    qed
  qed
next
  case (File nm i)
  then show ?case by (auto simp: neq_Nil_conv intro: exI [of _ "[]"] elim: lookup_path.elims)
next
  case (Unreadable nm i e)
  then show ?case by (auto simp: neq_Nil_conv intro: exI [of _ "[]"] elim: lookup_path.elims)
qed

lemma visible_paths_start:
  fixes n :: "('m, 'e) node" and ns :: "('m, 'e) node list"
  shows "item \<in> set (visible d p n) \<Longrightarrow> prefix p (we_path item)"
  and "item \<in> set (visibles d p ns) \<Longrightarrow> \<exists>n \<in> set ns. prefix (p @ [node_name n]) (we_path item)"
proof (induction d p n and d p ns rule: visible_visibles.induct)
  case (3 d p nm i ns)
  then show ?case by (auto simp: item_of_def split: if_splits dest: append_prefixD)
qed (auto simp: item_of_def split: if_splits)

lemma visible_distinct:
  fixes n :: "('m, 'e) node" and ns :: "('m, 'e) node list"
  shows "tidy n \<Longrightarrow> distinct (map we_path (visible d p n))"
  and "distinct (map node_name ns) \<Longrightarrow> (\<forall>n \<in> set ns. tidy n) \<Longrightarrow> distinct (map we_path (visibles d p ns))"
proof (induction d p n and d p ns rule: visible_visibles.induct)
  case (3 d p nm i ns)
  have "p \<notin> we_path ` set (visibles d p ns)"
    using visible_paths_start(2) [of _ d p ns] by (fastforce simp: prefix_def)
  then show ?case using 3 by (auto simp: item_of_def)
next
  case (5 d p n ns)
  have "we_path x \<noteq> we_path y" if x: "x \<in> set (visible d (p @ [node_name n]) n)" and y: "y \<in> set (visibles d p ns)" for x y
  proof
    assume eq: "we_path x = we_path y"
    obtain m where m: "m \<in> set ns" "prefix (p @ [node_name m]) (we_path y)" using visible_paths_start(2) [OF y] by blast
    have "prefix (p @ [node_name n]) (we_path y)" using visible_paths_start(1) [OF x] eq by simp
    then have "node_name n = node_name m" using m(2) by (auto simp: prefix_def)
    then show False using 5 m(1) by auto
  qed
  then show ?case using 5 by (fastforce simp: image_iff)
qed (auto simp: item_of_def)

lemma lookup_good: "lookup_path d at n q = Some m \<Longrightarrow> tidy n \<Longrightarrow> w \<in> set q \<Longrightarrow> good_name w"
proof (induction d at n q rule: lookup_path.induct)
  case (2 d at nm i ns v ws)
  then obtain n ns' where f: "\<not> (at = [zfsControlDir] \<or> (at \<noteq> [] \<and> is_foreign d (Directory nm i ns)))"
    "filter (\<lambda>n. node_name n = v) ns = n # ns'" "lookup_path d (at @ [v]) n ws = Some m"
    by (auto split: if_splits list.splits)
  then have "n \<in> set (filter (\<lambda>n. node_name n = v) ns)" by simp
  then have n: "n \<in> set ns" "node_name n = v" by simp_all
  then have "good_name v" "tidy n" using "2.prems"(2) by auto
  then show ?case using "2.IH" [OF f(1,2) f(3)] "2.prems"(3) by auto
qed auto

lemma all_entries_iff:
  assumes "\<forall>m \<in> set members. tidy (trees (mb_Dir m))"
  shows "x \<in> set (all_entries trees root_dev members) \<longleftrightarrow>
    (\<exists>m p n. m \<in> set members \<and> lookup_path (root_dev (mb_Dir m)) [] (trees (mb_Dir m)) p = Some n \<and> x = (m, item_of p n))"
proof -
  have "x \<in> set (all_entries trees root_dev members) \<longleftrightarrow>
      (\<exists>m \<in> set members. \<exists>item \<in> set (visible (root_dev (mb_Dir m)) [] (trees (mb_Dir m))). x = (m, item))"
    by (auto simp: all_entries_def)
  also have "\<dots> \<longleftrightarrow> (\<exists>m \<in> set members. \<exists>p n. lookup_path (root_dev (mb_Dir m)) [] (trees (mb_Dir m)) p = Some n \<and> x = (m, item_of p n))"
    using visible_lookup [of "trees (mb_Dir _)" _ _ "[]"] assms by (intro bex_cong refl) fastforce
  finally show ?thesis by blast
qed

lemma all_entries_distinct:
  assumes "distinct (map mb_Subdir members)" "\<forall>m \<in> set members. tidy (trees (mb_Dir m))"
  shows "distinct (map (\<lambda>x. (mb_Subdir (fst x), we_path (snd x))) (all_entries trees root_dev members))"
  using assms
proof (induction members)
  case Nil
  then show ?case by (simp add: all_entries_def)
next
  case (Cons m ms)
  let ?vis = "visible (root_dev (mb_Dir m)) [] (trees (mb_Dir m))"
  have a: "all_entries trees root_dev (m # ms) = map (Pair m) ?vis @ all_entries trees root_dev ms"
    by (simp add: all_entries_def)
  have "distinct (map we_path ?vis)" using Cons.prems(2) by (intro visible_distinct(1)) simp
  then have "distinct (map (\<lambda>x. (mb_Subdir (fst x), we_path (snd x))) (map (Pair m) ?vis))"
    by (auto simp: distinct_map inj_on_def)
  moreover have "mb_Subdir (fst x) \<noteq> mb_Subdir m" if "x \<in> set (all_entries trees root_dev ms)" for x
    using that Cons.prems(1) by (auto simp: all_entries_def) (metis imageI)
  ultimately show ?case using Cons unfolding a map_append distinct_append by fastforce
qed

lemma validate_from_None:
  "validate_from k seen members = (None :: 'e archive_error option) \<Longrightarrow>
     distinct (map mb_Subdir members) \<and> (\<forall>m \<in> set members. seen (mb_Subdir m) = None \<and> mb_Subdir m \<noteq> [] \<and> CHR ''/'' \<notin> set (mb_Subdir m))"
proof (induction k seen members rule: validate_from.induct)
  case (2 k seen m ms)
  have m: "mb_Subdir m \<noteq> []" "\<not> ContainsChar (mb_Subdir m) (CHR ''/'')" "seen (mb_Subdir m) = None"
    and tl: "validate_from (Suc k) (seen(mb_Subdir m \<mapsto> k)) ms = (None :: 'e archive_error option)"
    using "2.prems" by (auto split: if_splits option.splits)
  note ih = "2.IH" [OF m tl]
  have "seen (mb_Subdir m') = None" "mb_Subdir m' \<noteq> mb_Subdir m" if "m' \<in> set ms" for m'
    using ih that by (auto split: if_splits)
  then show ?case using ih m by (fastforce simp: ContainsChar_def)
qed simp

section \<open>The property\<close>

definition has_inode ::
  "(string \<Rightarrow> ('m, 'e) node) \<Rightarrow> (string \<Rightarrow> nat) \<Rightarrow> Member list \<Rightarrow> string \<Rightarrow> fileID \<Rightarrow> bool" where
  "has_inode trees root_dev members nm fid \<longleftrightarrow>
     (\<exists>m p n. m \<in> set members \<and> lookup_path (root_dev (mb_Dir m)) [] (trees (mb_Dir m)) p = Some n
        \<and> nm = entry_name (mb_Subdir m) p (IsDir n) \<and> inode_of (node_info n) = Some fid)"


text \<open>A source with two links to one file, a control directory and a socket.\<close>

definition demo_file :: "file_kind \<Rightarrow> nat \<Rightarrow> nat \<Rightarrow> unit + unit file_info" where
  "demo_file k ino nlink = Inr \<lparr> fi_kind = k, fi_size = 1, fi_stat = Some (\<lparr> id_dev = 0, id_ino = ino \<rparr>, nlink), fi_meta = () \<rparr>"

definition demo_tree :: "(unit, unit) node" where
  "demo_tree = Directory ''src'' (demo_file DirKind 9 2)
     [Directory ''.zfs'' (demo_file DirKind 8 2) [File ''s'' (demo_file RegularKind 7 1)],
      File ''a'' (demo_file RegularKind 1 2),
      Directory ''d'' (demo_file DirKind 6 2) [File ''b'' (demo_file RegularKind 1 2)],
      File ''k'' (demo_file SocketKind 5 1)]"

definition demo_ops :: "(unit, unit, unit, unit, unit tar_header list) tar_ops" where
  "demo_ops = \<lparr> op_CtxErr = Pair None, op_Open = (\<lambda>p z. (Inr (), z)),
     op_Stat = (\<lambda>f z. (Inr \<lparr> fi_kind = DirKind, fi_size = 1, fi_stat = Some (\<lparr> id_dev = 0, id_ino = 9 \<rparr>, 2), fi_meta = () \<rparr>, z)),
     op_Close = (\<lambda>f. Pair None), op_Readlink = (\<lambda>p z. (Inr [], z)), op_WriteHeader = (\<lambda>h z. (None, z @ [h])),
     op_Copy = (\<lambda>f. Pair None), op_Probe = (\<lambda>f n z. (Inr None, z)), op_Sparse = (\<lambda>h f r z. (None, z @ [h])),
     op_CloseTar = Pair None \<rparr>"

lemma demo_laws: "tar_laws demo_ops (\<lambda>z. z) (\<lambda>_. 0) (\<lambda>_. [])"
  by (simp add: tar_laws_def demo_ops_def deviceOf_def)

lemma demo_run:
  "map_prod id (map (\<lambda>h. (th_Name h, th_Type h, th_Linkname h))) (TarMembers demo_ops (\<lambda>_. demo_tree) [\<lparr> mb_Subdir = ''m'', mb_Dir = ''/s'' \<rparr>] [])
     = (None, [(''m/'', TypeDir, []), (''m/a'', TypeReg, []), (''m/d/'', TypeDir, []), (''m/d/b'', TypeLink, ''m/a'')])"
  by code_simp


end
