(* ===== verification/ReadAhead.thy ===== *)
theory ReadAhead
  imports TarWalk
begin

text \<open>
  \<open>pkg/archive/readahead.go\<close>: a walker that reads small files ahead, bounded by a memory budget and a
  number of workers, and the writer that consumes the walk's entries in order. The goroutines are a
  step relation: the walker (blocked on a semaphore or on the queue), one loader per file read ahead,
  the writer and its deferred drain. Cancelling the caller's context is a step of the environment.
\<close>

section \<open>State\<close>

record readAhead =
  ra_workers :: nat
  ra_maxFile :: int
  ra_memory :: int
  ra_window :: nat

text \<open>A load runs, is over, or is over and has handed back an open sparse file with its worker slot.\<close>

datatype load_state = Loading | Ready | ReadySparse

text \<open>A queued entry: without a prefetch, with one of a weight, or the error that ended the walk.\<close>

datatype 'i queued = Bare 'i | Ahead 'i nat load_state | WalkFailed

text \<open>The walker: about to visit, holding memory and wanting a worker, in \<open>send\<close>, sending its error, done.\<close>

datatype 'i walker = Visiting | WantWorker 'i nat | Sending "'i queued" | SendingErr | WalkEnded

datatype outcome = Succeeded | Failed

datatype writer = Running | Draining outcome | Returned outcome

record 'i pipeline =
  pl_todo :: "'i list"
  pl_walker :: "'i walker"
  pl_queue :: "'i queued list"
  pl_current :: "'i queued option"
  pl_memory :: nat
  pl_workers :: nat
  pl_cancelled :: bool
  pl_ctxDone :: bool
  pl_writer :: writer
  pl_written :: "'i list"

section \<open>Operations\<close>

text \<open>\<open>eligible\<close>: the weight of a file worth reading ahead, one byte more than its size.\<close>

definition eligible :: "readAhead \<Rightarrow> ('m, 'e) walkEntry \<Rightarrow> bool" where
  "eligible r item =
     (case we_info item of
        Inl e \<Rightarrow> False
      | Inr info \<Rightarrow>
          fi_kind info = RegularKind \<and> \<not> fi_size info \<ge> min (ra_maxFile r) (ra_memory r) \<and> hardlinkID info = None)"

definition weight_of :: "readAhead \<Rightarrow> ('m, 'e) walkEntry \<Rightarrow> nat option" where
  "weight_of r item =
     (case we_info item of
        Inl e \<Rightarrow> None
      | Inr info \<Rightarrow> if eligible r item then Some (nat (fi_size info + 1)) else None)"

text \<open>What a queued entry holds of the two semaphores.\<close>

fun held_memory :: "'i queued \<Rightarrow> nat" where
  "held_memory (Ahead i w l) = w"
| "held_memory q = 0"

fun held_workers :: "'i queued \<Rightarrow> nat" where
  "held_workers (Ahead i w Loading) = 1"
| "held_workers (Ahead i w ReadySparse) = 1"
| "held_workers q = 0"

fun is_loading :: "'i queued \<Rightarrow> bool" where
  "is_loading (Ahead i w Loading) = True"
| "is_loading q = False"

fun item_of_queued :: "'i queued \<Rightarrow> 'i list" where
  "item_of_queued (Bare i) = [i]"
| "item_of_queued (Ahead i w l) = [i]"
| "item_of_queued WalkFailed = []"

text \<open>\<open>release\<close>, once the load is over.\<close>

definition release :: "'i queued \<Rightarrow> 'i pipeline \<Rightarrow> 'i pipeline" where
  "release q s = s\<lparr> pl_memory := pl_memory s + held_memory q, pl_workers := pl_workers s + held_workers q \<rparr>"

text \<open>The load of an entry ends: a sparse file keeps its worker, any other gives it back.\<close>

fun load_ends :: "bool \<Rightarrow> 'i queued \<Rightarrow> 'i queued" where
  "load_ends sparse (Ahead i w Loading) = Ahead i w (if sparse then ReadySparse else Ready)"
| "load_ends sparse q = q"

definition start_drain :: "outcome \<Rightarrow> 'i pipeline \<Rightarrow> 'i pipeline" where
  "start_drain r s = s\<lparr> pl_writer := Draining r, pl_cancelled := True \<rparr>"

section \<open>Steps\<close>

text \<open>
  \<open>weight\<close> gives the weight of an eligible item; \<open>walkErr\<close> tells whether the walk ends in an error of
  its own. \<open>pl_cancelled\<close> is the walker's context: the caller's, or cancelled by the drain.
\<close>

inductive pl_step ::
  "nat \<Rightarrow> ('i \<Rightarrow> nat option) \<Rightarrow> bool \<Rightarrow> 'i pipeline \<Rightarrow> 'i pipeline \<Rightarrow> bool"
  for window :: nat and weight :: "'i \<Rightarrow> nat option" and walkErr :: bool where
  visit_bare: "pl_walker s = Visiting \<Longrightarrow> pl_todo s = i # rest \<Longrightarrow> weight i = None \<Longrightarrow> \<not> pl_cancelled s \<Longrightarrow>
    pl_step window weight walkErr s (s\<lparr> pl_todo := rest, pl_walker := Sending (Bare i) \<rparr>)"
| acquire_memory: "pl_walker s = Visiting \<Longrightarrow> pl_todo s = i # rest \<Longrightarrow> weight i = Some w \<Longrightarrow> w \<le> pl_memory s \<Longrightarrow> \<not> pl_cancelled s \<Longrightarrow>
    pl_step window weight walkErr s (s\<lparr> pl_todo := rest, pl_walker := WantWorker i w, pl_memory := pl_memory s - w \<rparr>)"
| visit_cancelled: "pl_walker s = Visiting \<Longrightarrow> pl_todo s \<noteq> [] \<Longrightarrow> pl_cancelled s \<Longrightarrow>
    pl_step window weight walkErr s (s\<lparr> pl_walker := SendingErr \<rparr>)"
| acquire_worker: "pl_walker s = WantWorker i w \<Longrightarrow> 0 < pl_workers s \<Longrightarrow>
    pl_step window weight walkErr s (s\<lparr> pl_walker := Sending (Ahead i w Loading), pl_workers := pl_workers s - 1 \<rparr>)"
| worker_cancelled: "pl_walker s = WantWorker i w \<Longrightarrow> pl_cancelled s \<Longrightarrow>
    pl_step window weight walkErr s (s\<lparr> pl_walker := SendingErr, pl_memory := pl_memory s + w \<rparr>)"
| send: "pl_walker s = Sending q \<Longrightarrow> length (pl_queue s) < window \<Longrightarrow>
    pl_step window weight walkErr s (s\<lparr> pl_walker := Visiting, pl_queue := pl_queue s @ [q] \<rparr>)"
| send_cancelled: "pl_walker s = Sending q \<Longrightarrow> pl_cancelled s \<Longrightarrow> \<not> is_loading q \<Longrightarrow>
    pl_step window weight walkErr s (release q (s\<lparr> pl_walker := SendingErr \<rparr>))"
| walk_over: "pl_walker s = Visiting \<Longrightarrow> pl_todo s = [] \<Longrightarrow>
    pl_step window weight walkErr s (s\<lparr> pl_walker := (if walkErr then SendingErr else WalkEnded) \<rparr>)"
| send_error: "pl_walker s = SendingErr \<Longrightarrow> length (pl_queue s) < window \<Longrightarrow>
    pl_step window weight walkErr s (s\<lparr> pl_walker := WalkEnded, pl_queue := pl_queue s @ [WalkFailed] \<rparr>)"
| send_error_cancelled: "pl_walker s = SendingErr \<Longrightarrow> pl_cancelled s \<Longrightarrow>
    pl_step window weight walkErr s (s\<lparr> pl_walker := WalkEnded \<rparr>)"
| load_sending: "pl_walker s = Sending q \<Longrightarrow> is_loading q \<Longrightarrow>
    pl_step window weight walkErr s (s\<lparr> pl_walker := Sending (load_ends sparse q), pl_workers := pl_workers s + (if sparse then 0 else 1) \<rparr>)"
| load_queued: "k < length (pl_queue s) \<Longrightarrow> is_loading (pl_queue s ! k) \<Longrightarrow>
    pl_step window weight walkErr s (s\<lparr> pl_queue := (pl_queue s)[k := load_ends sparse (pl_queue s ! k)],
      pl_workers := pl_workers s + (if sparse then 0 else 1) \<rparr>)"
| load_current: "pl_current s = Some q \<Longrightarrow> is_loading q \<Longrightarrow>
    pl_step window weight walkErr s (s\<lparr> pl_current := Some (load_ends sparse q), pl_workers := pl_workers s + (if sparse then 0 else 1) \<rparr>)"
| receive: "pl_writer s = Running \<Longrightarrow> pl_current s = None \<Longrightarrow> pl_queue s = q # qs \<Longrightarrow> q \<noteq> WalkFailed \<Longrightarrow>
    pl_step window weight walkErr s (s\<lparr> pl_current := Some q, pl_queue := qs \<rparr>)"
| receive_error: "pl_writer s = Running \<Longrightarrow> pl_current s = None \<Longrightarrow> pl_queue s = WalkFailed # qs \<Longrightarrow>
    pl_step window weight walkErr s (start_drain Failed (s\<lparr> pl_queue := qs \<rparr>))"
| receive_closed: "pl_writer s = Running \<Longrightarrow> pl_current s = None \<Longrightarrow> pl_queue s = [] \<Longrightarrow> pl_walker s = WalkEnded \<Longrightarrow>
    pl_step window weight walkErr s (start_drain (if pl_ctxDone s then Failed else Succeeded) s)"
| write_entry: "pl_writer s = Running \<Longrightarrow> pl_current s = Some q \<Longrightarrow> \<not> is_loading q \<Longrightarrow>
    pl_step window weight walkErr s (release q (s\<lparr> pl_current := None, pl_written := pl_written s @ item_of_queued q \<rparr>))"
| write_fails: "pl_writer s = Running \<Longrightarrow> pl_current s = Some q \<Longrightarrow> \<not> is_loading q \<Longrightarrow>
    pl_step window weight walkErr s (start_drain Failed (release q (s\<lparr> pl_current := None \<rparr>)))"
| drain: "pl_writer s = Draining r \<Longrightarrow> pl_queue s = q # qs \<Longrightarrow> \<not> is_loading q \<Longrightarrow>
    pl_step window weight walkErr s (release q (s\<lparr> pl_queue := qs \<rparr>))"
| drained: "pl_writer s = Draining r \<Longrightarrow> pl_queue s = [] \<Longrightarrow> pl_walker s = WalkEnded \<Longrightarrow>
    pl_step window weight walkErr s (s\<lparr> pl_writer := Returned r \<rparr>)"

definition cancel_ctx :: "'i pipeline \<Rightarrow> 'i pipeline" where
  "cancel_ctx s = s\<lparr> pl_cancelled := True, pl_ctxDone := True \<rparr>"

definition treeReadAhead :: "nat \<Rightarrow> nat \<Rightarrow> 'i list \<Rightarrow> 'i pipeline" where
  "treeReadAhead memory workers items =
     \<lparr> pl_todo = items, pl_walker = Visiting, pl_queue = [], pl_current = None, pl_memory = memory, pl_workers = workers,
       pl_cancelled = False, pl_ctxDone = False, pl_writer = Running, pl_written = [] \<rparr>"

section \<open>Runs\<close>

text \<open>Steps of the program are counted; the caller's context may be cancelled at any time.\<close>

inductive pl_run ::
  "nat \<Rightarrow> ('i \<Rightarrow> nat option) \<Rightarrow> bool \<Rightarrow> nat \<Rightarrow> 'i pipeline \<Rightarrow> 'i pipeline \<Rightarrow> bool"
  for window :: nat and weight :: "'i \<Rightarrow> nat option" and walkErr :: bool where
  run_start: "pl_run window weight walkErr 0 s s"
| run_step: "pl_run window weight walkErr n s t \<Longrightarrow> pl_step window weight walkErr t u \<Longrightarrow> pl_run window weight walkErr (Suc n) s u"
| run_cancel: "pl_run window weight walkErr n s t \<Longrightarrow> pl_run window weight walkErr n s (cancel_ctx t)"

section \<open>The semaphores\<close>

fun walker_slots :: "'i walker \<Rightarrow> 'i queued list" where
  "walker_slots (Sending q) = [q]"
| "walker_slots w = []"

fun wanted_memory :: "'i walker \<Rightarrow> nat" where
  "wanted_memory (WantWorker i w) = w"
| "wanted_memory x = 0"

definition slots :: "'i pipeline \<Rightarrow> 'i queued list" where
  "slots s = (case pl_current s of None \<Rightarrow> [] | Some q \<Rightarrow> [q]) @ pl_queue s @ walker_slots (pl_walker s)"

definition budget_kept :: "nat \<Rightarrow> nat \<Rightarrow> 'i pipeline \<Rightarrow> bool" where
  "budget_kept memory workers s \<longleftrightarrow>
     pl_memory s + wanted_memory (pl_walker s) + sum_list (map held_memory (slots s)) = memory
   \<and> pl_workers s + sum_list (map held_workers (slots s)) = workers"

lemma held_load_ends [simp]:
  "held_memory (load_ends b q) = held_memory q"
  "is_loading q \<Longrightarrow> held_workers q = 1"
  "is_loading q \<Longrightarrow> held_workers (load_ends b q) = (if b then 1 else 0)"
  "item_of_queued (load_ends b q) = item_of_queued q"
  "is_loading (load_ends b q) \<longleftrightarrow> False"
  "load_ends b q = WalkFailed \<longleftrightarrow> q = WalkFailed"
  by (cases q rule: is_loading.cases; auto)+

lemma sum_list_load:
  assumes "k < length qs" "is_loading (qs ! k)"
  shows "sum_list (map held_memory (qs[k := load_ends b (qs ! k)])) = sum_list (map held_memory qs)"
    and "sum_list (map held_workers (qs[k := load_ends b (qs ! k)])) + (if b then 0 else 1) = sum_list (map held_workers qs)"
proof -
  have s: "qs = take k qs @ qs ! k # drop (Suc k) qs" using assms(1) by (rule id_take_nth_drop)
  have u: "qs[k := load_ends b (qs ! k)] = take k qs @ load_ends b (qs ! k) # drop (Suc k) qs"
    using assms(1) by (simp add: upd_conv_take_nth_drop)
  show "sum_list (map held_memory (qs[k := load_ends b (qs ! k)])) = sum_list (map held_memory qs)"
    unfolding u by (subst (3) s) simp
  show "sum_list (map held_workers (qs[k := load_ends b (qs ! k)])) + (if b then 0 else 1) = sum_list (map held_workers qs)"
    unfolding u using assms(2) by (subst (3) s) simp
qed

lemma budget_step:
  assumes "pl_step window weight walkErr s t" "budget_kept memory workers s"
  shows "budget_kept memory workers t"
  using assms
proof (induction rule: pl_step.induct)
  case (load_queued k s sparse)
  then show ?case using sum_list_load [OF load_queued(1,2), of sparse] by (auto simp: budget_kept_def slots_def)
qed (auto simp: budget_kept_def slots_def release_def start_drain_def split: option.splits)

lemma budget_run:
  assumes "pl_run window weight walkErr n (treeReadAhead memory workers items) s"
  shows "budget_kept memory workers s"
proof -
  have "budget_kept memory workers s" if "pl_run window weight walkErr n s0 s" "s0 = treeReadAhead memory workers items" for s0
    using that
  proof (induction rule: pl_run.induct)
    case (run_start s)
    then show ?case by (simp add: budget_kept_def slots_def treeReadAhead_def)
  next
    case (run_step n s t u)
    then show ?case using budget_step by blast
  next
    case (run_cancel n s t)
    then show ?case by (simp add: budget_kept_def slots_def cancel_ctx_def)
  qed
  then show ?thesis using assms by blast
qed

section \<open>Order and cancellation\<close>

fun walker_items :: "'i walker \<Rightarrow> 'i list" where
  "walker_items (WantWorker i w) = [i]"
| "walker_items (Sending q) = item_of_queued q"
| "walker_items w = []"

definition pending :: "'i pipeline \<Rightarrow> 'i list" where
  "pending s = pl_written s @ (case pl_current s of None \<Rightarrow> [] | Some q \<Rightarrow> item_of_queued q) @ concat (map item_of_queued (pl_queue s))"

definition order_kept :: "'i list \<Rightarrow> 'i pipeline \<Rightarrow> bool" where
  "order_kept items s \<longleftrightarrow>
     prefix (pl_written s) items
   \<and> (pl_writer s = Running \<longrightarrow> prefix (pending s) items)
   \<and> (pl_writer s = Running \<longrightarrow> pl_walker s \<noteq> SendingErr \<longrightarrow> pl_walker s \<noteq> WalkEnded \<longrightarrow>
        pending s @ walker_items (pl_walker s) @ pl_todo s = items)
   \<and> (pl_writer s = Running \<longrightarrow> \<not> pl_cancelled s \<longrightarrow> pl_walker s = WalkEnded \<longrightarrow> WalkFailed \<notin> set (pl_queue s) \<longrightarrow> pending s = items)
   \<and> (pl_writer s = Running \<longrightarrow> pl_cancelled s \<longrightarrow> pl_ctxDone s)
   \<and> (pl_writer s \<noteq> Running \<longrightarrow> pl_cancelled s \<and> pl_current s = None)
   \<and> (\<forall>r. pl_writer s = Returned r \<longrightarrow> pl_queue s = [] \<and> pl_walker s = WalkEnded)
   \<and> (pl_writer s = Draining Succeeded \<or> pl_writer s = Returned Succeeded \<longrightarrow> pl_written s = items)"

lemma concat_load: "k < length qs \<Longrightarrow> concat (map item_of_queued (qs[k := load_ends b (qs ! k)])) = concat (map item_of_queued qs)"
  by (rule arg_cong [of _ _ concat], rule nth_equalityI) (auto simp: nth_list_update)

lemma failed_load: "k < length qs \<Longrightarrow> WalkFailed \<in> set (qs[k := load_ends b (qs ! k)]) \<longleftrightarrow> WalkFailed \<in> set qs"
  unfolding in_set_conv_nth by (auto simp: nth_list_update)

lemma order_step:
  assumes "pl_step window weight walkErr s t" "order_kept items s"
  shows "order_kept items t"
  using assms
proof (induction rule: pl_step.induct)
  case (load_queued k s sparse)
  then show ?case by (auto simp: order_kept_def pending_def concat_load failed_load)
next
  case (write_entry s q)
  then have "prefix ((pl_written s @ item_of_queued q) @ concat (map item_of_queued (pl_queue s))) items"
    by (simp add: order_kept_def pending_def)
  then have "prefix (pl_written s @ item_of_queued q) items" by (rule append_prefixD)
  then show ?case using write_entry by (simp add: order_kept_def pending_def release_def)
qed (auto simp: order_kept_def pending_def release_def start_drain_def split: option.splits if_splits dest: append_prefixD)

lemma order_run:
  assumes "pl_run window weight walkErr n (treeReadAhead memory workers items) s"
  shows "order_kept items s"
proof -
  have "order_kept items s" if "pl_run window weight walkErr n s0 s" "s0 = treeReadAhead memory workers items" for s0
    using that
  proof (induction rule: pl_run.induct)
    case (run_start s)
    then show ?case by (simp add: order_kept_def pending_def treeReadAhead_def)
  next
    case (run_step n s t u)
    then show ?case using order_step by blast
  next
    case (run_cancel n s t)
    then show ?case by (auto simp: order_kept_def pending_def cancel_ctx_def)
  qed
  then show ?thesis using assms by blast
qed

section \<open>Progress\<close>

fun slot_work :: "'i queued \<Rightarrow> nat" where
  "slot_work (Ahead i w Loading) = 1"
| "slot_work q = 0"

fun walker_work :: "'i walker \<Rightarrow> nat" where
  "walker_work Visiting = 4"
| "walker_work (WantWorker i w) = 9"
| "walker_work (Sending q) = 7 + slot_work q"
| "walker_work SendingErr = 3"
| "walker_work WalkEnded = 0"

fun writer_work :: "writer \<Rightarrow> nat" where
  "writer_work Running = 2"
| "writer_work (Draining r) = 1"
| "writer_work (Returned r) = 0"

text \<open>An upper bound on the steps that are left.\<close>

definition work_left :: "'i pipeline \<Rightarrow> nat" where
  "work_left s = 6 * length (pl_todo s) + walker_work (pl_walker s) + sum_list (map (\<lambda>q. 2 + slot_work q) (pl_queue s))
     + (case pl_current s of None \<Rightarrow> 0 | Some q \<Rightarrow> 1 + slot_work q) + writer_work (pl_writer s)"

lemma slot_work_load: "is_loading q \<Longrightarrow> slot_work (load_ends b q) < slot_work q"
  by (cases q rule: is_loading.cases) auto

lemma slot_work_le: "slot_work q \<le> 1"
  by (cases q rule: is_loading.cases) auto

lemma not_loading_work: "\<not> is_loading q \<Longrightarrow> slot_work q = 0"
  by (cases q rule: is_loading.cases) auto

lemma sum_slot_load:
  assumes "k < length qs" "is_loading (qs ! k)"
  shows "sum_list (map (\<lambda>q. 2 + slot_work q) (qs[k := load_ends b (qs ! k)])) < sum_list (map (\<lambda>q. 2 + slot_work q) qs)"
proof -
  have s: "qs = take k qs @ qs ! k # drop (Suc k) qs" using assms(1) by (rule id_take_nth_drop)
  have u: "qs[k := load_ends b (qs ! k)] = take k qs @ load_ends b (qs ! k) # drop (Suc k) qs"
    using assms(1) by (simp add: upd_conv_take_nth_drop)
  show ?thesis unfolding u using slot_work_load [OF assms(2), of b] by (subst (3) s) simp
qed

lemma step_progress: "pl_step window weight walkErr s t \<Longrightarrow> work_left t < work_left s"
proof (induction rule: pl_step.induct)
  case (load_queued k s sparse)
  then show ?case using sum_slot_load [OF load_queued, of sparse] by (simp add: work_left_def)
next
  case (load_sending s q sparse)
  then show ?case using slot_work_load [of q sparse] by (simp add: work_left_def)
next
  case (load_current s q sparse)
  then show ?case using slot_work_load [of q sparse] by (simp add: work_left_def)
qed (simp_all add: work_left_def release_def start_drain_def not_loading_work)

lemma run_bounded: "pl_run window weight walkErr n s t \<Longrightarrow> n + work_left t \<le> work_left s"
proof (induction rule: pl_run.induct)
  case (run_step n s t u)
  then show ?case using step_progress by fastforce
next
  case (run_cancel n s t)
  then show ?case by (simp add: work_left_def cancel_ctx_def)
qed simp

lemma can_step:
  assumes budget: "budget_kept memory workers s" and order: "order_kept items s"
    and bound: "0 < window" "0 < workers" "\<And>i w. weight i = Some w \<Longrightarrow> w \<le> memory"
    and running: "\<And>r. pl_writer s \<noteq> Returned r"
  shows "\<exists>t. pl_step window weight walkErr s t"
proof (cases "\<exists>q \<in> set (slots s). is_loading q")
  case True
  then show ?thesis
  proof (cases "\<exists>q \<in> set (pl_queue s). is_loading q")
    case True
    then show ?thesis using load_queued by (metis in_set_conv_nth)
  next
    case False
    then show ?thesis using True load_current load_sending unfolding slots_def
      by (cases "pl_walker s"; cases "pl_current s") fastforce+
  qed
next
  case idle: False
  show ?thesis
  proof (cases "pl_writer s")
    case Running
    show ?thesis
    proof (cases "pl_current s")
      case (Some q)
      then have "\<not> is_loading q" using idle by (simp add: slots_def)
      then show ?thesis by (intro exI) (rule write_entry [OF Running Some])
    next
      case None
      show ?thesis
      proof (cases "pl_queue s")
        case (Cons q qs)
        then show ?thesis using receive receive_error Running None by (cases "q = WalkFailed") blast+
      next
        case Nil
        show ?thesis
        proof (cases "pl_walker s")
          case Visiting
          then have full: "pl_memory s = memory" using budget None Nil by (simp add: budget_kept_def slots_def)
          show ?thesis
          proof (cases "pl_todo s")
            case Nil
            then show ?thesis by (intro exI) (rule walk_over [OF Visiting])
          next
            case (Cons i rest)
            show ?thesis
            proof (cases "pl_cancelled s")
              case True
              moreover have "pl_todo s \<noteq> []" using Cons by simp
              ultimately show ?thesis using visit_cancelled Visiting by blast
            next
              case nc: False
              show ?thesis
              proof (cases "weight i")
                case None
                from visit_bare [where weight = weight, OF Visiting Cons None nc] show ?thesis by blast
              next
                case (Some w)
                then have "w \<le> pl_memory s" using bound(3) [OF Some] full by simp
                from acquire_memory [where weight = weight, OF Visiting Cons Some this nc] show ?thesis by blast
              qed
            qed
          qed
        next
          case (WantWorker i w)
          then have "0 < pl_workers s" using budget None Nil bound(2) by (simp add: budget_kept_def slots_def)
          then show ?thesis by (intro exI) (rule acquire_worker [OF WantWorker])
        next
          case (Sending q)
          then show ?thesis using bound(1) Nil by (intro exI) (rule send [OF Sending], simp)
        next
          case SendingErr
          then show ?thesis using bound(1) Nil by (intro exI) (rule send_error [OF SendingErr], simp)
        next
          case WalkEnded
          then show ?thesis by (intro exI) (rule receive_closed [OF Running None Nil WalkEnded])
        qed
      qed
    qed
  next
    case (Draining r)
    then have c: "pl_cancelled s" using order by (simp add: order_kept_def)
    show ?thesis
    proof (cases "pl_queue s")
      case (Cons q qs)
      then have "\<not> is_loading q" using idle by (simp add: slots_def)
      then show ?thesis by (intro exI) (rule drain [OF Draining Cons])
    next
      case Nil
      show ?thesis
      proof (cases "pl_walker s")
        case Visiting
        then show ?thesis using visit_cancelled walk_over c by (cases "pl_todo s = []") blast+
      next
        case (WantWorker i w)
        then show ?thesis by (intro exI) (rule worker_cancelled [OF WantWorker c])
      next
        case (Sending q)
        then show ?thesis using bound(1) Nil by (intro exI) (rule send [OF Sending], simp)
      next
        case SendingErr
        then show ?thesis by (intro exI) (rule send_error_cancelled [OF SendingErr c])
      next
        case WalkEnded
        then show ?thesis by (intro exI) (rule drained [OF Draining Nil WalkEnded])
      qed
    qed
  next
    case (Returned r)
    then show ?thesis using running by blast
  qed
qed

section \<open>The properties\<close>

lemma weight_within: "weight_of r item = Some w \<Longrightarrow> w \<le> nat (ra_memory r)"
  by (auto simp: weight_of_def eligible_def split: sum.splits if_splits)

text \<open>C18:
  Reading ahead never deadlocks and always ends. However the walker, the loads, the writer and a
  cancellation interleave, and whether writes fail, sparse files keep their worker or the walk breaks
  off, some step is possible until the call has returned, and it has returned after at most six steps
  per entry and six more.\<close>

theorem read_ahead_returns:
  assumes "pl_run (ra_window r) (weight_of r) walkErr n (treeReadAhead (nat (ra_memory r)) (ra_workers r) items) s"
    and "0 < ra_window r" and "0 < ra_workers r"
  shows "n \<le> 6 * length items + 6
    \<and> ((\<exists>res. pl_writer s = Returned res) \<or> (\<exists>t. pl_step (ra_window r) (weight_of r) walkErr s t))"
proof
  show "n \<le> 6 * length items + 6"
    using run_bounded [OF assms(1)] by (simp add: work_left_def treeReadAhead_def)
  have "\<exists>t. pl_step (ra_window r) (weight_of r) walkErr s t" if "\<And>res. pl_writer s \<noteq> Returned res"
    by (rule can_step [OF budget_run [OF assms(1)] order_run [OF assms(1)] assms(2,3) _ that]) (rule weight_within)
  then show "(\<exists>res. pl_writer s = Returned res) \<or> (\<exists>t. pl_step (ra_window r) (weight_of r) walkErr s t)" by blast
qed

text \<open>What reading ahead writes is what the serial path writes: the entries in walk order, all of them when
  it succeeds, a prefix otherwise. The files held in memory never exceed the budget, no more than the
  configured number are open, and when the call returns nothing is held and nothing is queued.\<close>

theorem read_ahead_in_order:
  assumes "pl_run (ra_window r) (weight_of r) walkErr n (treeReadAhead (nat (ra_memory r)) (ra_workers r) items) s"
  shows "prefix (pl_written s) items
    \<and> (pl_writer s = Returned Succeeded \<longrightarrow> pl_written s = items)
    \<and> sum_list (map held_memory (slots s)) \<le> nat (ra_memory r)
    \<and> sum_list (map held_workers (slots s)) \<le> ra_workers r
    \<and> (\<forall>res. pl_writer s = Returned res \<longrightarrow> slots s = [] \<and> pl_memory s = nat (ra_memory r) \<and> pl_workers s = ra_workers r)"
proof (intro conjI allI impI)
  note b = budget_run [OF assms] and o = order_run [OF assms]
  show "prefix (pl_written s) items" "pl_writer s = Returned Succeeded \<Longrightarrow> pl_written s = items"
    using o by (simp_all add: order_kept_def)
  show "sum_list (map held_memory (slots s)) \<le> nat (ra_memory r)" "sum_list (map held_workers (slots s)) \<le> ra_workers r"
    using b by (auto simp: budget_kept_def)
  fix res assume w: "pl_writer s = Returned res"
  then have sl: "slots s = []" and wk: "pl_walker s = WalkEnded" using o by (simp_all add: order_kept_def slots_def)
  show "slots s = []" by (rule sl)
  show "pl_memory s = nat (ra_memory r)" "pl_workers s = ra_workers r" using b sl wk by (simp_all add: budget_kept_def)
qed

text \<open>One file read ahead, then the end of the walk.\<close>

definition demo_ahead :: readAhead where
  "demo_ahead = \<lparr> ra_workers = 1, ra_maxFile = 100, ra_memory = 50, ra_window = 1 \<rparr>"

definition demo_item :: "(unit, unit) walkEntry" where
  "demo_item = \<lparr> we_path = [''a''], we_isDir = False,
     we_info = Inr \<lparr> fi_kind = RegularKind, fi_size = 9, fi_stat = None, fi_meta = () \<rparr> \<rparr>"

definition demo_end :: "(unit, unit) walkEntry pipeline" where
  "demo_end = \<lparr> pl_todo = [], pl_walker = WalkEnded, pl_queue = [], pl_current = None, pl_memory = 50, pl_workers = 1,
     pl_cancelled = True, pl_ctxDone = False, pl_writer = Returned Succeeded, pl_written = [demo_item] \<rparr>"

lemma demo_weight: "weight_of demo_ahead demo_item = Some 10"
  by (simp add: weight_of_def eligible_def demo_ahead_def demo_item_def hardlinkID_def)

lemma demo_read_ahead:
  "pl_run 1 (weight_of demo_ahead) False 9 (treeReadAhead 50 1 [demo_item]) demo_end"
proof -
  let ?S = "\<lambda>todo wk q c m n b w out. \<lparr> pl_todo = todo, pl_walker = wk, pl_queue = q, pl_current = c, pl_memory = m, pl_workers = n,
     pl_cancelled = b, pl_ctxDone = False, pl_writer = w, pl_written = out \<rparr> :: (unit, unit) walkEntry pipeline"
  let ?i = demo_item and ?step = "pl_step 1 (weight_of demo_ahead) False" and ?run = "pl_run 1 (weight_of demo_ahead) False"
  let ?s0 = "?S [?i] Visiting [] None 50 1 False Running []"
  have 1: "?step ?s0 (?S [] (WantWorker ?i 10) [] None 40 1 False Running [])"
    using acquire_memory [of ?s0 ?i "[]" "weight_of demo_ahead" 10 1 False] by (simp add: demo_weight)
  have 2: "?step (?S [] (WantWorker ?i 10) [] None 40 1 False Running []) (?S [] (Sending (Ahead ?i 10 Loading)) [] None 40 0 False Running [])"
    using acquire_worker [of "?S [] (WantWorker ?i 10) [] None 40 1 False Running []" ?i 10 1 "weight_of demo_ahead" False] by simp
  have 3: "?step (?S [] (Sending (Ahead ?i 10 Loading)) [] None 40 0 False Running []) (?S [] Visiting [Ahead ?i 10 Loading] None 40 0 False Running [])"
    using send [of "?S [] (Sending (Ahead ?i 10 Loading)) [] None 40 0 False Running []" "Ahead ?i 10 Loading" 1 "weight_of demo_ahead" False] by simp
  have 4: "?step (?S [] Visiting [Ahead ?i 10 Loading] None 40 0 False Running []) (?S [] WalkEnded [Ahead ?i 10 Loading] None 40 0 False Running [])"
    using walk_over [of "?S [] Visiting [Ahead ?i 10 Loading] None 40 0 False Running []" 1 "weight_of demo_ahead" False] by simp
  have 5: "?step (?S [] WalkEnded [Ahead ?i 10 Loading] None 40 0 False Running []) (?S [] WalkEnded [Ahead ?i 10 Ready] None 40 1 False Running [])"
    using load_queued [of 0 "?S [] WalkEnded [Ahead ?i 10 Loading] None 40 0 False Running []" 1 "weight_of demo_ahead" False False] by simp
  have 6: "?step (?S [] WalkEnded [Ahead ?i 10 Ready] None 40 1 False Running []) (?S [] WalkEnded [] (Some (Ahead ?i 10 Ready)) 40 1 False Running [])"
    using receive [of "?S [] WalkEnded [Ahead ?i 10 Ready] None 40 1 False Running []" "Ahead ?i 10 Ready" "[]" 1 "weight_of demo_ahead" False] by simp
  have 7: "?step (?S [] WalkEnded [] (Some (Ahead ?i 10 Ready)) 40 1 False Running []) (?S [] WalkEnded [] None 50 1 False Running [?i])"
    using write_entry [of "?S [] WalkEnded [] (Some (Ahead ?i 10 Ready)) 40 1 False Running []" "Ahead ?i 10 Ready" 1 "weight_of demo_ahead" False]
    by (simp add: release_def)
  have 8: "?step (?S [] WalkEnded [] None 50 1 False Running [?i]) (?S [] WalkEnded [] None 50 1 True (Draining Succeeded) [?i])"
    using receive_closed [of "?S [] WalkEnded [] None 50 1 False Running [?i]" 1 "weight_of demo_ahead" False]
    by (simp add: start_drain_def)
  have 9: "?step (?S [] WalkEnded [] None 50 1 True (Draining Succeeded) [?i]) demo_end"
    using drained [of "?S [] WalkEnded [] None 50 1 True (Draining Succeeded) [?i]" Succeeded 1 "weight_of demo_ahead" False]
    by (simp add: demo_end_def)
  have "?run (Suc (Suc (Suc (Suc (Suc (Suc (Suc (Suc (Suc 0))))))))) ?s0 demo_end"
    by (rule run_step [OF run_step [OF run_step [OF run_step [OF run_step [OF run_step [OF run_step [OF run_step [OF run_step
      [OF run_start 1] 2] 3] 4] 5] 6] 7] 8] 9])
  then show ?thesis by (simp add: treeReadAhead_def numeral_eq_Suc)
qed

theorem read_ahead_returns_witness:
  "9 \<le> 6 * length [demo_item] + (6 :: nat) \<and> pl_writer demo_end = Returned Succeeded"
  using read_ahead_returns [of demo_ahead False 9 "[demo_item]" demo_end] demo_read_ahead
  by (simp add: demo_ahead_def demo_end_def)

theorem read_ahead_in_order_witness:
  "pl_writer demo_end = Returned Succeeded \<and> pl_written demo_end = [demo_item] \<and> pl_memory demo_end = 50"
  using read_ahead_in_order [of demo_ahead False 9 "[demo_item]" demo_end] demo_read_ahead
  by (simp add: demo_ahead_def demo_end_def)

section \<open>A file read ahead\<close>

text \<open>
  What a file on disk answers: opening it, probing it, its bytes up to the end or a read error, closing
  it. \<open>copy\<close> streams bytes, then an error if there is one, into the entry that was begun.
\<close>

record ('e, 'f, 'r) disk =
  dk_Open :: "string \<times> string list \<Rightarrow> 'e + 'f"
  dk_Probe :: "'f \<Rightarrow> int \<Rightarrow> 'e + 'r option"
  dk_Bytes :: "'f \<Rightarrow> string \<times> 'e option"
  dk_Close :: "'f \<Rightarrow> 'e option"

record ('e, 'f, 'r) prefetch =
  pf_data :: string
  pf_file :: "('f \<times> 'r) option"
  pf_openErr :: "'e option"
  pf_probeErr :: "'e option"
  pf_readErr :: "'e option"
  pf_closeErr :: "'e option"

definition no_prefetch :: "('e, 'f, 'r) prefetch" where
  "no_prefetch = \<lparr> pf_data = [], pf_file = None, pf_openErr = None, pf_probeErr = None, pf_readErr = None, pf_closeErr = None \<rparr>"

text \<open>\<open>io.ReadFull\<close> into one byte more than the size: an early end of file is no error.\<close>

definition load :: "('e, 'f, 'r) disk \<Rightarrow> 'e option \<Rightarrow> string \<times> string list \<Rightarrow> int \<Rightarrow> ('e, 'f, 'r) prefetch" where
  "load dk ctxErr path sz =
     (case ctxErr of
        Some e \<Rightarrow> no_prefetch\<lparr> pf_openErr := Some e \<rparr>
      | None \<Rightarrow>
          (case dk_Open dk path of
             Inl e \<Rightarrow> no_prefetch\<lparr> pf_openErr := Some e \<rparr>
           | Inr file \<Rightarrow>
               (case dk_Probe dk file sz of
                  Inl e \<Rightarrow> no_prefetch\<lparr> pf_probeErr := Some e \<rparr>
                | Inr (Some regions) \<Rightarrow> no_prefetch\<lparr> pf_file := Some (file, regions) \<rparr>
                | Inr None \<Rightarrow>
                    (let (bytes, readErr) = dk_Bytes dk file; n = nat (sz + 1) in
                     if length bytes < n
                     then no_prefetch\<lparr> pf_data := bytes, pf_readErr := readErr, pf_closeErr := dk_Close dk file \<rparr>
                     else no_prefetch\<lparr> pf_data := take n bytes, pf_closeErr := dk_Close dk file \<rparr>))))"

definition writePrefetched ::
  "('m, 'e, 'f, 'r, 'z) tar_ops \<Rightarrow> (string \<times> 'e option \<Rightarrow> 'z \<Rightarrow> 'e option \<times> 'z) \<Rightarrow> 'm tar_header \<Rightarrow> string list
     \<Rightarrow> ('e, 'f, 'r) prefetch \<Rightarrow> 'z \<Rightarrow> 'e archive_error option \<times> 'z" where
  "writePrefetched ops copy h p pre z =
     (case pf_openErr pre of
        Some e \<Rightarrow> (Some (Plain e), z)
      | None \<Rightarrow>
          (case pf_probeErr pre of
             Some e \<Rightarrow> (Some (ProbeFailed p e), z)
           | None \<Rightarrow>
               (case pf_file pre of
                  Some (file, regions) \<Rightarrow> writeOpenFile ops h p file (Some regions) z
                | None \<Rightarrow>
                    (case writeHeaderOnly ops h z of
                       (Some e, z1) \<Rightarrow> (Some e, z1)
                     | (None, z1) \<Rightarrow>
                         (case copy (pf_data pre, pf_readErr pre) z1 of
                            (Some e, z2) \<Rightarrow> (Some (CopyFailed p e), z2)
                          | (None, z2) \<Rightarrow>
                              (case pf_closeErr pre of
                                 Some e \<Rightarrow> (Some (CloseFailed p e), z2)
                               | None \<Rightarrow> (None, z2)))))))"

text \<open>
  A disk that does not change under the operations, and a tar writer that refuses what is longer than
  the header said, whatever follows the first byte too many.
\<close>

definition disk_laws ::
  "('m, 'e, 'f, 'r, 'z) tar_ops \<Rightarrow> ('e, 'f, 'r) disk \<Rightarrow> (string \<times> 'e option \<Rightarrow> 'z \<Rightarrow> 'e option \<times> 'z) \<Rightarrow> bool" where
  "disk_laws ops dk copy \<longleftrightarrow>
     (\<forall>p z. op_Open ops p z = (dk_Open dk p, z))
   \<and> (\<forall>f n z. op_Probe ops f n z = (dk_Probe dk f n, z))
   \<and> (\<forall>f z. op_Close ops f z = (dk_Close dk f, z))
   \<and> (\<forall>f z. op_Copy ops f z = copy (dk_Bytes dk f) z)
   \<and> (\<forall>h z z1 bs e. op_WriteHeader ops h z = (None, z1) \<longrightarrow> 0 \<le> th_Size h \<longrightarrow> th_Size h < int (length bs) \<longrightarrow>
        copy (bs, e) z1 = copy (take (nat (th_Size h + 1)) bs, None) z1)"

lemma copy_too_long:
  assumes "disk_laws ops dk copy" "writeHeaderOnly ops h z = (None, z1)" "0 \<le> th_Size h" "\<not> length bs < nat (th_Size h + 1)"
  shows "copy (bs, e) z1 = copy (take (nat (th_Size h + 1)) bs, None) z1"
proof -
  have "op_WriteHeader ops h z = (None, z1)" using assms(2) by (auto simp: writeHeaderOnly_def split: prod.splits option.splits)
  moreover have "th_Size h < int (length bs)" using assms(3,4) by linarith
  ultimately show ?thesis using assms(1,3) unfolding disk_laws_def by blast
qed

text \<open>C19:
  A small file written from its read-ahead gives the archive and the error that the serial path gives,
  whatever fails on the way: opening, probing, reading, closing, a header or body the archive refuses,
  and a file that shrank or grew since the walk.\<close>

theorem prefetched_equals_serial:
  assumes "disk_laws ops dk copy" and "0 \<le> th_Size h"
  shows "writePrefetched ops copy h p (load dk None (srcDir, p) (th_Size h)) z = writeRegularFile ops srcDir h p z"
proof (cases "dk_Open dk (srcDir, p)")
  case (Inl e)
  then show ?thesis using assms(1)
    by (simp add: disk_laws_def load_def no_prefetch_def writePrefetched_def writeRegularFile_def)
next
  case opened: (Inr fd)
  show ?thesis
  proof (cases "dk_Probe dk fd (th_Size h)")
    case (Inl e)
    then show ?thesis using assms(1) opened
      by (simp add: disk_laws_def load_def no_prefetch_def writePrefetched_def writeRegularFile_def)
  next
    case (Inr probe)
    show ?thesis
    proof (cases probe)
      case (Some regions)
      then show ?thesis using assms(1) opened Inr
        by (simp add: disk_laws_def load_def no_prefetch_def writePrefetched_def writeRegularFile_def)
    next
      case None
      obtain bytes readErr where b: "dk_Bytes dk fd = (bytes, readErr)" by fastforce
      obtain e z1 where hd: "writeHeaderOnly ops h z = (e, z1)" by fastforce
      have serial: "writeRegularFile ops srcDir h p z = (case e of Some x \<Rightarrow> (Some x, z1) | None \<Rightarrow>
          (case copy (bytes, readErr) z1 of (Some x, z2) \<Rightarrow> (Some (CopyFailed p x), z2)
             | (None, z2) \<Rightarrow> (case dk_Close dk fd of Some x \<Rightarrow> (Some (CloseFailed p x), z2) | None \<Rightarrow> (None, z2))))"
        using assms(1) opened Inr None b hd
        by (simp add: disk_laws_def writeRegularFile_def writeOpenFile_def writeStream_def split: option.splits prod.splits)
      show ?thesis
      proof (cases "e = None \<and> \<not> length bytes < nat (th_Size h + 1)")
        case True
        then have "copy (bytes, readErr) z1 = copy (take (nat (th_Size h + 1)) bytes, None) z1"
          using copy_too_long [OF assms(1) _ assms(2)] hd by blast
        then show ?thesis unfolding serial using True opened Inr None b hd
          by (simp add: load_def no_prefetch_def writePrefetched_def split: option.split prod.split)
      next
        case False
        then show ?thesis unfolding serial using opened Inr None b hd
          by (cases e; cases "length bytes < nat (th_Size h + 1)") (simp_all add: Let_def load_def no_prefetch_def writePrefetched_def split: option.split prod.split)
      qed
    qed
  qed
qed

text \<open>A file of three bytes that had two when the walk saw it.\<close>

definition strict_copy :: "string \<times> unit option \<Rightarrow> nat \<times> string \<Rightarrow> unit option \<times> nat \<times> string" where
  "strict_copy body z =
     (case (body, z) of ((bs, e), (room, out)) \<Rightarrow>
        if room < length bs then (Some (), 0, out @ take room bs) else (e, room - length bs, out @ bs))"

definition grown_disk :: "(unit, unit, unit) disk" where
  "grown_disk = \<lparr> dk_Open = (\<lambda>_. Inr ()), dk_Probe = (\<lambda>_ _. Inr None), dk_Bytes = (\<lambda>_. (''abc'', None)), dk_Close = (\<lambda>_. None) \<rparr>"

definition strict_ops :: "(unit, unit, unit, unit, nat \<times> string) tar_ops" where
  "strict_ops = \<lparr> op_CtxErr = Pair None, op_Open = (\<lambda>p z. (Inr (), z)), op_Stat = (\<lambda>f z. (Inl (), z)),
     op_Close = (\<lambda>f. Pair None), op_Readlink = (\<lambda>p z. (Inr [], z)), op_WriteHeader = (\<lambda>h z. (None, nat (th_Size h), snd z)),
     op_Copy = (\<lambda>f. strict_copy (''abc'', None)), op_Probe = (\<lambda>f n z. (Inr None, z)), op_Sparse = (\<lambda>h f r z. (None, z)),
     op_CloseTar = Pair None \<rparr>"

lemma strict_copy_too_long: "n < length bs \<Longrightarrow> strict_copy (bs, e) (n, out) = (Some (), 0, out @ take n bs)"
  by (simp add: strict_copy_def)

lemma strict_laws: "disk_laws strict_ops grown_disk strict_copy"
proof -
  have "strict_copy (bs, e) z1 = strict_copy (take (nat (th_Size h + 1)) bs, None) z1"
    if w: "op_WriteHeader strict_ops h z = (None, z1)" "0 \<le> th_Size h" "th_Size h < int (length bs)"
    for h z z1 bs and e :: "unit option"
  proof -
    have "z1 = (nat (th_Size h), snd z)" "nat (th_Size h) < length bs" "nat (th_Size h + 1) = Suc (nat (th_Size h))"
      using w by (auto simp: strict_ops_def)
    then show ?thesis by (simp add: strict_copy_too_long)
  qed
  moreover have "(\<forall>p z. op_Open strict_ops p z = (dk_Open grown_disk p, z)) \<and> (\<forall>f n z. op_Probe strict_ops f n z = (dk_Probe grown_disk f n, z))
      \<and> (\<forall>f z. op_Close strict_ops f z = (dk_Close grown_disk f, z)) \<and> (\<forall>f z. op_Copy strict_ops f z = strict_copy (dk_Bytes grown_disk f) z)"
    by (simp add: strict_ops_def grown_disk_def)
  ultimately show ?thesis unfolding disk_laws_def by blast
qed

theorem prefetched_equals_serial_witness:
  "writePrefetched strict_ops strict_copy \<lparr> th_Name = ''a'', th_Type = TypeReg, th_Linkname = [], th_Size = 2, th_meta = () \<rparr> [''a'']
     (load grown_disk None (''/s'', [''a'']) 2) (0, []) = (Some (CopyFailed [''a''] ()), 0, ''ab'')"
proof -
  let ?h = "\<lparr> th_Name = ''a'', th_Type = TypeReg, th_Linkname = [], th_Size = 2, th_meta = () \<rparr>"
  have "writeRegularFile strict_ops ''/s'' ?h [''a''] (0, []) = (Some (CopyFailed [''a''] ()), 0, ''ab'')"
    by (simp add: writeRegularFile_def writeOpenFile_def writeStream_def writeHeaderOnly_def strict_ops_def strict_copy_def numeral_2_eq_2)
  then show ?thesis using prefetched_equals_serial [OF strict_laws, of ?h "[''a'']" "''/s''" "(0, [])"] by simp
qed

end
