(* ===== verification/LtfsIndex.thy ===== *)
theory LtfsIndex
  imports Prelude GoStrings "HOL-Library.Word" "HOL-Library.List_Lexorder" "HOL-Library.Char_ord"
begin

text \<open>
  \<open>pkg/ltfs/extent.go\<close> and \<open>index.go\<close>: the captured LTFS index, recovering a file from raw tape
  blocks with it, and choosing the index that a mount captured. \<open>encoding/xml\<close> is a parameter, from
  bytes to the document below. Byte counts of the index are untrusted 64-bit words. A Go panic is
  \<open>None\<close>; \<open>maxAlloc\<close> is the largest allocation of the runtime.
\<close>

section \<open>The document\<close>

record xmlName =
  xn_Value :: string
  xn_PercentEncoded :: bool

record Extent =
  ex_Partition :: string
  ex_StartBlock :: "64 word"
  ex_ByteOffset :: "64 word"
  ex_ByteCount :: "64 word"
  ex_FileOffset :: "64 word"

record xmlFile =
  xf_Name :: xmlName
  xf_Length :: "64 word"
  xf_Extents :: "Extent list"

datatype xmlDir = XmlDir (xd_Name: xmlName) (xd_Files: "xmlFile list") (xd_Directories: "xmlDir list")

record IndexLocation =
  il_Partition :: string
  il_StartBlock :: "64 word"

record xmlIndex =
  xi_XMLName :: string
  xi_Generation :: "64 word"
  xi_Location :: IndexLocation
  xi_Directory :: xmlDir

section \<open>Names\<close>

definition hex_value :: "char \<Rightarrow> nat option" where
  "hex_value c = (let n = of_char c :: nat in
     if 48 \<le> n \<and> n \<le> 57 then Some (n - 48)
     else if 97 \<le> n \<and> n \<le> 102 then Some (n - 87)
     else if 65 \<le> n \<and> n \<le> 70 then Some (n - 55) else None)"

text \<open>\<open>url.PathUnescape\<close>: a percent sign that does not start an escape is an error.\<close>

fun PathUnescape :: "string \<Rightarrow> string option" where
  "PathUnescape [] = Some []"
| "PathUnescape (c # cs) =
     (if c = CHR ''%'' then
        (case cs of
           a # b # rest \<Rightarrow>
             (case (hex_value a, hex_value b) of
                (Some m, Some n) \<Rightarrow> map_option ((#) (char_of (16 * m + n))) (PathUnescape rest)
              | _ \<Rightarrow> None)
         | _ \<Rightarrow> None)
      else map_option ((#) c) (PathUnescape cs))"

definition decode :: "xmlName \<Rightarrow> string" where
  "decode n = (if \<not> xn_PercentEncoded n then xn_Value n
     else (case PathUnescape (xn_Value n) of Some s \<Rightarrow> s | None \<Rightarrow> xn_Value n))"

text \<open>\<open>path.Join\<close> of a non-empty prefix and a non-empty name.\<close>

definition under :: "string \<Rightarrow> string \<Rightarrow> string" where
  "under pre nm = (if pre \<noteq> [] then path_Clean (pre @ ''/'' @ nm) else nm)"

section \<open>Building the index\<close>

record tape_file =
  tf_Path :: string
  tf_Length :: "64 word"
  tf_Extents :: "Extent list"

record Index =
  ix_VolumeName :: string
  ix_Generation :: "64 word"
  ix_Location :: IndexLocation
  ix_files :: "string \<rightharpoonup> tape_file"
  ix_order :: "string list"

datatype walk_error = EmptyFileName string | EmptyDirName string | DuplicatePath string

datatype 'e index_error =
  ParseXML 'e
| UnexpectedRoot string
| WalkErr walk_error

text \<open>The files of one directory, in the order of the document. Extents are sorted by file offset;
  \<open>sort.Slice\<close> leaves the order of equal offsets open, here it is that of the document.\<close>

fun walk_files :: "string \<Rightarrow> xmlFile list \<Rightarrow> Index \<Rightarrow> walk_error + Index" where
  "walk_files pre [] idx = Inr idx"
| "walk_files pre (f # fs) idx =
     (let nm = decode (xf_Name f) in
      if nm = [] then Inl (EmptyFileName pre)
      else
        let full = under pre nm in
        if ix_files idx full \<noteq> None then Inl (DuplicatePath full)
        else walk_files pre fs (idx\<lparr>
          ix_files := (ix_files idx)(full \<mapsto> \<lparr> tf_Path = full, tf_Length = xf_Length f, tf_Extents = sort_key ex_FileOffset (xf_Extents f) \<rparr>),
          ix_order := ix_order idx @ [full] \<rparr>))"

fun walk :: "string \<Rightarrow> xmlDir \<Rightarrow> Index \<Rightarrow> walk_error + Index"
and walk_dirs :: "string \<Rightarrow> xmlDir list \<Rightarrow> Index \<Rightarrow> walk_error + Index" where
  "walk pre (XmlDir nm files dirs) idx = bindE (walk_files pre files idx) (walk_dirs pre dirs)"
| "walk_dirs pre [] idx = Inr idx"
| "walk_dirs pre (d # ds) idx =
     (let nm = decode (xd_Name d) in
      if nm = [] then Inl (EmptyDirName pre)
      else bindE (walk (under pre nm) d idx) (walk_dirs pre ds))"

definition ParseIndex :: "(string \<Rightarrow> 'e + xmlIndex) \<Rightarrow> string \<Rightarrow> 'e index_error + Index" where
  "ParseIndex unmarshal data =
     (case unmarshal data of
        Inl e \<Rightarrow> Inl (ParseXML e)
      | Inr doc \<Rightarrow>
          if xi_XMLName doc \<noteq> ''ltfsindex'' then Inl (UnexpectedRoot (xi_XMLName doc))
          else (case walk [] (xi_Directory doc)
              \<lparr> ix_VolumeName = decode (xd_Name (xi_Directory doc)), ix_Generation = xi_Generation doc,
                ix_Location = xi_Location doc, ix_files = Map.empty, ix_order = [] \<rparr> of
                Inl e \<Rightarrow> Inl (WalkErr e)
              | Inr idx \<Rightarrow> Inr (idx\<lparr> ix_order := sort (ix_order idx) \<rparr>)))"

definition Files :: "Index \<Rightarrow> tape_file list" where
  "Files idx = map (\<lambda>nm. the (ix_files idx nm)) (ix_order idx)"

definition Lookup :: "Index \<Rightarrow> string \<Rightarrow> tape_file option" where
  "Lookup idx nm = ix_files idx nm"

section \<open>Reading extents\<close>

record ('e, 'z) BlockReader =
  br_Locate :: "string \<Rightarrow> 64 word \<Rightarrow> 'z \<Rightarrow> 'e option \<times> 'z"
  br_ReadBlock :: "'z \<Rightarrow> ('e + string) \<times> 'z"

datatype 'e extent_error =
  RangeOverflows "64 word" "64 word"
| RangeTooLarge "64 word"
| OverrunsLength "64 word" "64 word" "64 word"
| ReaderErr 'e
| EmptyBlock "64 word"
| FileNotFound string
| LengthTooLarge string "64 word"
| ReadExtentErr string "'e extent_error"

definition MaxInt :: "64 word" where
  "MaxInt = 0x7FFFFFFFFFFFFFFF"

text \<open>\<open>make\<close>: a size the runtime cannot allocate panics.\<close>

definition make_bytes :: "nat \<Rightarrow> 64 word \<Rightarrow> string option" where
  "make_bytes maxAlloc n = (if maxAlloc < unat n then None else Some (replicate (unat n) (CHR 0x00)))"

function read_blocks :: "('e, 'z) BlockReader \<Rightarrow> 64 word \<Rightarrow> string \<Rightarrow> 'z \<Rightarrow> ('e extent_error + string) \<times> 'z" where
  "read_blocks r need buf z =
     (if unat need \<le> length buf then (Inr buf, z)
      else case br_ReadBlock r z of
          (Inl e, z1) \<Rightarrow> (Inl (ReaderErr e), z1)
        | (Inr block, z1) \<Rightarrow> if block = [] then (Inl (EmptyBlock need), z1) else read_blocks r need (buf @ block) z1)"
  by pat_completeness auto
termination
  by (relation "measure (\<lambda>(r, need, buf, z). unat need - length buf)") (auto simp flip: length_greater_0_conv)

declare read_blocks.simps [simp del]

text \<open>\<open>buf[lo:hi]\<close> and \<open>copy(out[at:], data)\<close>.\<close>

definition slice_bytes :: "string \<Rightarrow> nat \<Rightarrow> nat \<Rightarrow> string option" where
  "slice_bytes buf lo hi = (if lo \<le> hi \<and> hi \<le> length buf then Some (take (hi - lo) (drop lo buf)) else None)"

definition copy_into :: "string \<Rightarrow> nat \<Rightarrow> string \<Rightarrow> string option" where
  "copy_into out at d =
     (if length out < at then None
      else let n = min (length out - at) (length d) in Some (take at out @ take n d @ drop (at + n) out))"

definition readExtent ::
  "nat \<Rightarrow> ('e, 'z) BlockReader \<Rightarrow> Extent \<Rightarrow> 64 word \<Rightarrow> 'z \<Rightarrow> (('e extent_error + string) \<times> 'z) option" where
  "readExtent maxAlloc r x declaredLength z =
     (if ex_ByteCount x > (- 1) - ex_ByteOffset x then Some (Inl (RangeOverflows (ex_ByteOffset x) (ex_ByteCount x)), z)
      else
        let need = ex_ByteOffset x + ex_ByteCount x in
        if need > MaxInt then Some (Inl (RangeTooLarge need), z)
        else if ex_FileOffset x > declaredLength \<or> ex_ByteCount x > declaredLength - ex_FileOffset x
        then Some (Inl (OverrunsLength (ex_FileOffset x) (ex_ByteCount x) declaredLength), z)
        else (case br_Locate r (ex_Partition x) (ex_StartBlock x) z of
            (Some e, z1) \<Rightarrow> Some (Inl (ReaderErr e), z1)
          | (None, z1) \<Rightarrow>
              (case make_bytes maxAlloc need of
                 None \<Rightarrow> None
               | Some _ \<Rightarrow>
                   (case read_blocks r need [] z1 of
                      (Inl e, z2) \<Rightarrow> Some (Inl e, z2)
                    | (Inr buf, z2) \<Rightarrow>
                        (case slice_bytes buf (unat (ex_ByteOffset x)) (unat (ex_ByteOffset x + ex_ByteCount x)) of
                           None \<Rightarrow> None
                         | Some d \<Rightarrow> Some (Inr d, z2))))))"

fun extract_extents ::
  "nat \<Rightarrow> ('e, 'z) BlockReader \<Rightarrow> string \<Rightarrow> 64 word \<Rightarrow> Extent list \<Rightarrow> string \<Rightarrow> 'z \<Rightarrow> (('e extent_error + string) \<times> 'z) option" where
  "extract_extents maxAlloc r nm len [] out z = Some (Inr out, z)"
| "extract_extents maxAlloc r nm len (x # xs) out z =
     (case readExtent maxAlloc r x len z of
        None \<Rightarrow> None
      | Some (Inl e, z1) \<Rightarrow> Some (Inl (ReadExtentErr nm e), z1)
      | Some (Inr d, z1) \<Rightarrow>
          (case copy_into out (unat (ex_FileOffset x)) d of
             None \<Rightarrow> None
           | Some out' \<Rightarrow> extract_extents maxAlloc r nm len xs out' z1))"

definition ExtractFile ::
  "nat \<Rightarrow> Index \<Rightarrow> string \<Rightarrow> ('e, 'z) BlockReader \<Rightarrow> 'z \<Rightarrow> (('e extent_error + string) \<times> 'z) option" where
  "ExtractFile maxAlloc idx nm r z =
     (case ix_files idx nm of
        None \<Rightarrow> Some (Inl (FileNotFound nm), z)
      | Some file \<Rightarrow>
          if tf_Length file > MaxInt then Some (Inl (LengthTooLarge nm (tf_Length file)), z)
          else (case make_bytes maxAlloc (tf_Length file) of
              None \<Rightarrow> None
            | Some out \<Rightarrow> extract_extents maxAlloc r nm (tf_Length file) (tf_Extents file) out z))"

section \<open>Choosing the captured index\<close>

record indexCandidate =
  ic_name :: string
  ic_modTime :: int

datatype pick_error = NoIndex | StaleIndex

definition indexSchemaSuffix :: string where
  "indexSchemaSuffix = ''.schema''"

text \<open>The regular expression: five groups of hexadecimal digits and the suffix.\<close>

definition hex_group :: "nat \<Rightarrow> string \<Rightarrow> bool" where
  "hex_group n s \<longleftrightarrow> length s = n \<and> list_all (\<lambda>c. hex_value c \<noteq> None) s"

definition canonicalIndexRe :: "string \<Rightarrow> bool" where
  "canonicalIndexRe nm \<longleftrightarrow>
     HasSuffix nm indexSchemaSuffix
   \<and> (case split_on (CHR ''-'') (take (length nm - length indexSchemaSuffix) nm) of
        [a, b, c, d, e] \<Rightarrow> hex_group 8 a \<and> hex_group 4 b \<and> hex_group 4 c \<and> hex_group 4 d \<and> hex_group 12 e
      | _ \<Rightarrow> False)"

text \<open>The newest of a non-empty list; of two equally new, the one with the greater name.\<close>

fun newest :: "indexCandidate \<Rightarrow> indexCandidate list \<Rightarrow> indexCandidate" where
  "newest best [] = best"
| "newest best (c # cs) =
     newest (if ic_modTime best < ic_modTime c \<or> (ic_modTime best = ic_modTime c \<and> ic_name best < ic_name c) then c else best) cs"

definition pickIndexFile :: "indexCandidate list \<Rightarrow> int \<Rightarrow> pick_error + string" where
  "pickIndexFile candidates notBefore =
     (let captured = filter (\<lambda>c. HasSuffix (ic_name c) indexSchemaSuffix) candidates;
          sawStale = list_ex (\<lambda>c. ic_modTime c < notBefore) captured;
          schemas = filter (\<lambda>c. \<not> ic_modTime c < notBefore) captured;
          canonical = filter (\<lambda>c. canonicalIndexRe (ic_name c)) schemas;
          chosen = (if canonical = [] then schemas else canonical) in
      case chosen of
        [] \<Rightarrow> Inl (if sawStale then StaleIndex else NoIndex)
      | c # cs \<Rightarrow> Inr (ic_name (newest c cs)))"


section \<open>What the tape promises\<close>

text \<open>
  A volume: the blocks of each partition; a view of the state gives the position. A \<open>Locate\<close> that
  succeeds moves there, a read that succeeds gives the block there and moves past it.
\<close>

definition tape_laws :: "('e, 'z) BlockReader \<Rightarrow> (string \<Rightarrow> string list) \<Rightarrow> ('z \<Rightarrow> string \<times> nat) \<Rightarrow> bool" where
  "tape_laws r volume at \<longleftrightarrow>
     (\<forall>p b z z'. br_Locate r p b z = (None, z') \<longrightarrow> at z' = (p, unat b))
   \<and> (\<forall>z blk z' p k. br_ReadBlock r z = (Inr blk, z') \<longrightarrow> at z = (p, k) \<longrightarrow>
        k < length (volume p) \<and> blk = volume p ! k \<and> at z' = (p, Suc k))"

definition bytes_from :: "(string \<Rightarrow> string list) \<Rightarrow> string \<Rightarrow> nat \<Rightarrow> string" where
  "bytes_from volume p k = concat (drop k (volume p))"

lemma read_blocks_prefix:
  "tape_laws r volume at \<Longrightarrow> read_blocks r need buf z = (Inr out, z') \<Longrightarrow> at z = (p, k) \<Longrightarrow>
    prefix out (buf @ bytes_from volume p k) \<and> unat need \<le> length out"
proof (induction r need buf z arbitrary: k rule: read_blocks.induct)
  case (1 r need buf z)
  show ?case
  proof (cases "unat need \<le> length buf")
    case True
    then show ?thesis using "1.prems"(2) by (simp add: read_blocks.simps)
  next
    case False
    then obtain blk z1 where b: "br_ReadBlock r z = (Inr blk, z1)" "blk \<noteq> []" "read_blocks r need (buf @ blk) z1 = (Inr out, z')"
      using "1.prems"(2) by (subst (asm) read_blocks.simps) (auto split: prod.splits sum.splits if_splits)
    have "k < length (volume p) \<and> blk = volume p ! k \<and> at z1 = (p, Suc k)"
      using "1.prems"(1) b(1) "1.prems"(3) unfolding tape_laws_def by blast
    then have k: "k < length (volume p)" "blk = volume p ! k" "at z1 = (p, Suc k)" by simp_all
    have "prefix out ((buf @ blk) @ bytes_from volume p (Suc k)) \<and> unat need \<le> length out"
      using "1.IH" [OF False b(1) [symmetric] refl b(2) "1.prems"(1) b(3) k(3)] by simp
    moreover have "bytes_from volume p k = blk @ bytes_from volume p (Suc k)"
      using k(1,2) by (simp add: bytes_from_def Cons_nth_drop_Suc [symmetric])
    ultimately show ?thesis by simp
  qed
qed

text \<open>An extent is in order when the guards of \<open>readExtent\<close> let it pass.\<close>

definition in_range :: "Extent \<Rightarrow> 64 word \<Rightarrow> bool" where
  "in_range x len \<longleftrightarrow> unat (ex_ByteOffset x) + unat (ex_ByteCount x) \<le> unat MaxInt
     \<and> unat (ex_FileOffset x) + unat (ex_ByteCount x) \<le> unat len"

lemma guards_pass:
  assumes "\<not> ex_ByteCount x > (- 1) - ex_ByteOffset x" "\<not> ex_ByteOffset x + ex_ByteCount x > MaxInt"
    "\<not> (ex_FileOffset x > len \<or> ex_ByteCount x > len - ex_FileOffset x)"
  shows "in_range x len" "unat (ex_ByteOffset x + ex_ByteCount x) = unat (ex_ByteOffset x) + unat (ex_ByteCount x)"
proof -
  have "unat (ex_ByteCount x) \<le> unat ((- 1) - ex_ByteOffset x)" using assms(1) by (simp add: word_le_nat_alt not_less)
  also have "\<dots> = unat (- 1 :: 64 word) - unat (ex_ByteOffset x)" by (simp add: unat_sub)
  also have "unat (- 1 :: 64 word) = 2 ^ 64 - 1" by (simp add: unsigned_minus_1_eq_mask mask_eq_exp_minus_1)
  finally have fits: "unat (ex_ByteOffset x) + unat (ex_ByteCount x) < 2 ^ 64"
    using unsigned_less [of "ex_ByteOffset x", where 'a = nat] by simp
  then show sum: "unat (ex_ByteOffset x + ex_ByteCount x) = unat (ex_ByteOffset x) + unat (ex_ByteCount x)"
    by (simp add: unat_word_ariths)
  have "unat (ex_ByteOffset x + ex_ByteCount x) \<le> unat MaxInt" using assms(2) by (simp add: word_le_nat_alt not_less)
  moreover have "unat (ex_FileOffset x) \<le> unat len" using assms(3) by (simp add: word_le_nat_alt not_less)
  moreover have "unat (ex_ByteCount x) \<le> unat len - unat (ex_FileOffset x)"
  proof -
    have "ex_FileOffset x \<le> len" "unat (ex_ByteCount x) \<le> unat (len - ex_FileOffset x)"
      using assms(3) by (simp_all add: word_le_nat_alt not_less)
    then show ?thesis using unat_sub [of "ex_FileOffset x" len] by simp
  qed
  ultimately show "in_range x len" using sum by (simp add: in_range_def)
qed

lemma read_blocks_length: "read_blocks r need buf z = (Inr out, z') \<Longrightarrow> unat need \<le> length out"
proof (induction r need buf z rule: read_blocks.induct)
  case (1 r need buf z)
  show ?case
  proof (cases "unat need \<le> length buf")
    case True
    then show ?thesis using "1.prems" by (simp add: read_blocks.simps)
  next
    case False
    then obtain blk z1 where b: "br_ReadBlock r z = (Inr blk, z1)" "blk \<noteq> []" "read_blocks r need (buf @ blk) z1 = (Inr out, z')"
      using "1.prems" by (subst (asm) read_blocks.simps) (auto split: prod.splits sum.splits if_splits)
    then show ?thesis using "1.IH" [OF False b(1) [symmetric] refl b(2) b(3)] by simp
  qed
qed

lemma readExtent_data:
  assumes "readExtent maxAlloc r x len z = Some (Inr d, z')"
  obtains z1 buf where "in_range x len" "br_Locate r (ex_Partition x) (ex_StartBlock x) z = (None, z1)"
    "read_blocks r (ex_ByteOffset x + ex_ByteCount x) [] z1 = (Inr buf, z')"
    "d = take (unat (ex_ByteCount x)) (drop (unat (ex_ByteOffset x)) buf)"
    "unat (ex_ByteOffset x) + unat (ex_ByteCount x) \<le> length buf"
proof -
  have g: "\<not> ex_ByteCount x > (- 1) - ex_ByteOffset x" "\<not> ex_ByteOffset x + ex_ByteCount x > MaxInt"
    "\<not> (ex_FileOffset x > len \<or> ex_ByteCount x > len - ex_FileOffset x)"
    using assms unfolding readExtent_def Let_def by (auto split: if_splits)
  obtain z1 buf where s: "br_Locate r (ex_Partition x) (ex_StartBlock x) z = (None, z1)"
    "read_blocks r (ex_ByteOffset x + ex_ByteCount x) [] z1 = (Inr buf, z')"
    "slice_bytes buf (unat (ex_ByteOffset x)) (unat (ex_ByteOffset x + ex_ByteCount x)) = Some d"
    using assms g unfolding readExtent_def Let_def by (auto split: prod.splits option.splits sum.splits)
  show thesis
    using that [OF guards_pass(1) [OF g] s(1,2)] s(3) guards_pass(2) [OF g] by (auto simp: slice_bytes_def split: if_splits)
qed

section \<open>Recovering a file\<close>

text \<open>An extent says where the bytes of the contents are on the volume.\<close>

definition describes :: "(string \<Rightarrow> string list) \<Rightarrow> string \<Rightarrow> Extent \<Rightarrow> bool" where
  "describes volume c x \<longleftrightarrow>
     take (unat (ex_ByteCount x)) (drop (unat (ex_ByteOffset x)) (bytes_from volume (ex_Partition x) (unat (ex_StartBlock x))))
       = take (unat (ex_ByteCount x)) (drop (unat (ex_FileOffset x)) c)"

definition covers :: "Extent \<Rightarrow> nat \<Rightarrow> bool" where
  "covers x i \<longleftrightarrow> unat (ex_FileOffset x) \<le> i \<and> i < unat (ex_FileOffset x) + unat (ex_ByteCount x)"

lemma take_drop_prefix: "prefix buf bs \<Longrightarrow> m + n \<le> length buf \<Longrightarrow> take n (drop m buf) = take n (drop m bs)"
  by (auto simp: prefix_def)

lemma nth_copy_into:
  assumes "copy_into out at d = Some out'" "at + length d \<le> length out"
  shows "length out' = length out \<and> (\<forall>i < length out. out' ! i = (if at \<le> i \<and> i < at + length d then d ! (i - at) else out ! i))"
proof -
  have "out' = take at out @ d @ drop (at + length d) out" using assms by (auto simp: copy_into_def Let_def min_def split: if_splits)
  then show ?thesis using assms(2) by (auto simp: nth_append)
qed

lemma extract_step:
  assumes laws: "tape_laws r volume at" and desc: "describes volume c x"
    and run: "readExtent maxAlloc r x len z = Some (Inr d, z1)" "copy_into out (unat (ex_FileOffset x)) d = Some out'"
    and len: "unat len = length c" "length out = length c"
  shows "length out' = length c \<and> (\<forall>i < length c. out' ! i = (if covers x i then c ! i else out ! i))"
proof -
  let ?bo = "unat (ex_ByteOffset x)" and ?bc = "unat (ex_ByteCount x)" and ?fo = "unat (ex_FileOffset x)"
  obtain z2 buf where s: "in_range x len" "br_Locate r (ex_Partition x) (ex_StartBlock x) z = (None, z2)"
    "read_blocks r (ex_ByteOffset x + ex_ByteCount x) [] z2 = (Inr buf, z1)" "d = take ?bc (drop ?bo buf)" "?bo + ?bc \<le> length buf"
    using readExtent_data [OF run(1)] by blast
  have "at z2 = (ex_Partition x, unat (ex_StartBlock x))" using laws s(2) unfolding tape_laws_def by blast
  then have "prefix buf (bytes_from volume (ex_Partition x) (unat (ex_StartBlock x)))"
    using read_blocks_prefix [OF laws s(3)] by auto
  then have "d = take ?bc (drop ?bo (bytes_from volume (ex_Partition x) (unat (ex_StartBlock x))))"
    using take_drop_prefix [OF _ s(5)] s(4) by simp
  then have d: "d = take ?bc (drop ?fo c)" using desc by (simp add: describes_def)
  have ld: "length d = ?bc" using s(4,5) by simp
  have room: "?fo + length d \<le> length out" using s(1) ld len by (simp add: in_range_def)
  have nd: "d ! (i - ?fo) = c ! i" if "?fo \<le> i" "i < ?fo + ?bc" "i < length c" for i
    unfolding d using that by simp
  show ?thesis using nth_copy_into [OF run(2) room] nd len ld by (auto simp: covers_def)
qed

lemma extract_extents_result:
  assumes laws: "tape_laws r volume at" and len: "unat len = length c"
  shows "extract_extents maxAlloc r nm len xs out z = Some (Inr res, z') \<Longrightarrow> \<forall>x \<in> set xs. describes volume c x \<Longrightarrow>
    length out = length c \<Longrightarrow>
    length res = length c \<and> (\<forall>i < length c. res ! i = (if \<exists>x \<in> set xs. covers x i then c ! i else out ! i))"
proof (induction xs arbitrary: out z)
  case (Cons x xs)
  obtain d z1 out' where s: "readExtent maxAlloc r x len z = Some (Inr d, z1)" "copy_into out (unat (ex_FileOffset x)) d = Some out'"
    "extract_extents maxAlloc r nm len xs out' z1 = Some (Inr res, z')"
    using Cons.prems(1) by (auto split: option.splits prod.splits sum.splits)
  note e = extract_step [OF laws _ s(1,2) len Cons.prems(3)]
  then have "length out' = length c" using Cons.prems(2) by simp
  then show ?case using Cons.IH [OF s(3)] e Cons.prems(2) by auto
qed simp

lemma extract_correct:
  assumes "tape_laws r volume at" and "Lookup idx nm = Some f" and "unat (tf_Length f) = length c"
    and "\<forall>x \<in> set (tf_Extents f). describes volume c x"
    and "\<forall>i < length c. (\<forall>x \<in> set (tf_Extents f). \<not> covers x i) \<longrightarrow> c ! i = CHR 0x00"
    and "ExtractFile maxAlloc idx nm r z = Some (Inr out, z')"
  shows "out = c"
proof -
  have f: "ix_files idx nm = Some f" using assms(2) by (simp add: Lookup_def)
  obtain buf where "make_bytes maxAlloc (tf_Length f) = Some buf"
    and run: "extract_extents maxAlloc r nm (tf_Length f) (tf_Extents f) buf z = Some (Inr out, z')"
    using assms(6) f by (auto simp: ExtractFile_def split: if_splits option.splits)
  then have b: "buf = replicate (length c) (CHR 0x00)" using assms(3) by (auto simp: make_bytes_def split: if_splits)
  then have lb: "length buf = length c" by simp
  note e = extract_extents_result [OF assms(1,3) run assms(4) lb]
  show ?thesis
  proof (rule nth_equalityI)
    show "length out = length c" using e by simp
    fix i assume "i < length out"
    then have i: "i < length c" using e by simp
    show "out ! i = c ! i"
    proof (cases "\<exists>x \<in> set (tf_Extents f). covers x i")
      case False
      then have "c ! i = CHR 0x00" using assms(5) i by blast
      then show ?thesis using e i False b by simp
    qed (use e i in simp)
  qed
qed

text \<open>C16:
  Recovery from raw blocks: when the extents of a file in the index say where its bytes are, and the
  bytes no extent holds are zero, reading them back without a mount gives the file or an error, never
  other bytes. The extents may overlap, be packed into shared blocks and come in any order.\<close>

theorem extract_recovers_file:
  assumes "tape_laws r volume at" and "Lookup idx nm = Some f" and "unat (tf_Length f) = length c"
    and "\<forall>x \<in> set (tf_Extents f). describes volume c x"
    and "\<forall>i < length c. (\<forall>x \<in> set (tf_Extents f). \<not> covers x i) \<longrightarrow> c ! i = CHR 0x00"
    and "ExtractFile maxAlloc idx nm r z = Some (Inr out, z')"
  shows "out = c"
  using assms by (rule extract_correct)

text \<open>A file in two extents, the second before the first, with a hole between them.\<close>

definition sample_volume :: "string \<Rightarrow> string list" where
  "sample_volume p = (if p = ''b'' then [''label'', ''..abc'', ''de'', ''fgh''] else [])"

definition sample_reader :: "(unit, string \<times> nat) BlockReader" where
  "sample_reader = \<lparr> br_Locate = (\<lambda>p b z. (None, (p, unat b))),
     br_ReadBlock = (\<lambda>(p, k). if k < length (sample_volume p) then (Inr (sample_volume p ! k), (p, Suc k)) else (Inl (), (p, k))) \<rparr>"

definition sample_file :: tape_file where
  "sample_file = \<lparr> tf_Path = ''f'', tf_Length = 7, tf_Extents =
     [\<lparr> ex_Partition = ''b'', ex_StartBlock = 3, ex_ByteOffset = 1, ex_ByteCount = 2, ex_FileOffset = 5 \<rparr>,
      \<lparr> ex_Partition = ''b'', ex_StartBlock = 1, ex_ByteOffset = 2, ex_ByteCount = 4, ex_FileOffset = 0 \<rparr>] \<rparr>"

definition sample_index :: Index where
  "sample_index = \<lparr> ix_VolumeName = ''T1'', ix_Generation = 1, ix_Location = \<lparr> il_Partition = ''a'', il_StartBlock = 5 \<rparr>,
     ix_files = [''f'' \<mapsto> sample_file], ix_order = [''f''] \<rparr>"

definition sample_contents :: string where
  "sample_contents = ''abcd'' @ [CHR 0x00] @ ''gh''"

lemma sample_tape: "tape_laws sample_reader sample_volume id"
  by (auto simp: tape_laws_def sample_reader_def split: if_splits)

lemma sample_run: "ExtractFile 100 sample_index ''f'' sample_reader (''a'', 0) = Some (Inr sample_contents, (''b'', 3))"
  by code_simp

lemma sample_holes:
  "\<forall>i < length sample_contents. (\<forall>x \<in> set (tf_Extents sample_file). \<not> covers x i) \<longrightarrow> sample_contents ! i = CHR 0x00"
proof -
  have "list_all (\<lambda>i. list_all (\<lambda>x. \<not> covers x i) (tf_Extents sample_file) \<longrightarrow> sample_contents ! i = CHR 0x00)
      [0..<length sample_contents]"
    by code_simp
  then show ?thesis by (auto simp: list_all_iff)
qed

theorem extract_recovers_file_witness:
  "\<exists>out z'. ExtractFile 100 sample_index ''f'' sample_reader (''a'', 0) = Some (Inr out, z') \<and> out = sample_contents"
proof -
  have l: "Lookup sample_index ''f'' = Some sample_file" by (simp add: Lookup_def sample_index_def)
  have n: "unat (tf_Length sample_file) = length sample_contents" by (simp add: sample_file_def sample_contents_def)
  have d: "\<forall>x \<in> set (tf_Extents sample_file). describes sample_volume sample_contents x"
    by (simp add: sample_file_def describes_def bytes_from_def sample_volume_def sample_contents_def)
  note g = sample_holes
  show ?thesis using extract_recovers_file [OF sample_tape l n d g sample_run] sample_run by blast
qed

section \<open>Corrupt indexes\<close>

lemma readExtent_no_panic:
  assumes "unat (ex_ByteOffset x) + unat (ex_ByteCount x) \<le> maxAlloc"
  shows "readExtent maxAlloc r x len z \<noteq> None"
proof (cases "ex_ByteCount x > (- 1) - ex_ByteOffset x \<or> ex_ByteOffset x + ex_ByteCount x > MaxInt
    \<or> (ex_FileOffset x > len \<or> ex_ByteCount x > len - ex_FileOffset x)")
  case True
  then show ?thesis by (auto simp: readExtent_def Let_def)
next
  case False
  then have g: "\<not> ex_ByteCount x > (- 1) - ex_ByteOffset x" "\<not> ex_ByteOffset x + ex_ByteCount x > MaxInt"
    "\<not> (ex_FileOffset x > len \<or> ex_ByteCount x > len - ex_FileOffset x)" by auto
  have m: "make_bytes maxAlloc (ex_ByteOffset x + ex_ByteCount x) \<noteq> None"
    using assms guards_pass(2) [OF g] by (simp add: make_bytes_def)
  obtain a z1 where loc: "br_Locate r (ex_Partition x) (ex_StartBlock x) z = (a, z1)" by fastforce
  obtain res z2 where rd: "read_blocks r (ex_ByteOffset x + ex_ByteCount x) [] z1 = (res, z2)" by fastforce
  have "slice_bytes buf (unat (ex_ByteOffset x)) (unat (ex_ByteOffset x + ex_ByteCount x)) \<noteq> None" if "res = Inr buf" for buf
    using read_blocks_length [of r "ex_ByteOffset x + ex_ByteCount x" "[]" z1 buf z2] rd that guards_pass(2) [OF g] by (simp add: slice_bytes_def)
  then show ?thesis using g m loc rd unfolding readExtent_def Let_def
    by (cases a; cases res) auto
qed

lemma extract_extents_no_panic:
  "\<forall>x \<in> set xs. unat (ex_ByteOffset x) + unat (ex_ByteCount x) \<le> maxAlloc \<Longrightarrow> length out = unat len \<Longrightarrow>
   extract_extents maxAlloc r nm len xs out z \<noteq> None"
proof (induction xs arbitrary: out z)
  case (Cons x xs)
  obtain res z1 where res: "readExtent maxAlloc r x len z = Some (res, z1)"
    using readExtent_no_panic [of x maxAlloc r len z] Cons.prems(1) by auto
  show ?case
  proof (cases res)
    case (Inl e)
    then show ?thesis using res by simp
  next
    case (Inr d)
    then obtain buf where "in_range x len" "d = take (unat (ex_ByteCount x)) (drop (unat (ex_ByteOffset x)) buf)"
      using readExtent_data res by metis
    moreover from this have "length d \<le> unat (ex_ByteCount x)" by simp
    ultimately have "unat (ex_FileOffset x) + length d \<le> length out" using Cons.prems(2) unfolding in_range_def by linarith
    then obtain out' where out': "copy_into out (unat (ex_FileOffset x)) d = Some out'" "length out' = length out"
      by (auto simp: copy_into_def Let_def)
    then show ?thesis using Cons.IH [of out' z1] Cons.prems res Inr by simp
  qed
qed simp

text \<open>C17:
  A corrupt index cannot crash the recovery while its sizes can be allocated: whatever its offsets,
  counts, lengths and partitions are, and whatever the drive answers, no 64-bit sum wraps past a guard
  and no slice or copy is out of bounds.\<close>

theorem extract_never_panics:
  assumes "\<forall>f. Lookup idx nm = Some f \<longrightarrow> unat (tf_Length f) \<le> maxAlloc
      \<and> (\<forall>x \<in> set (tf_Extents f). unat (ex_ByteOffset x) + unat (ex_ByteCount x) \<le> maxAlloc)"
  shows "\<exists>res z'. ExtractFile maxAlloc idx nm r z = Some (res, z')"
proof (cases "ix_files idx nm")
  case None
  then show ?thesis by (simp add: ExtractFile_def)
next
  case (Some f)
  then have f: "unat (tf_Length f) \<le> maxAlloc" "\<forall>x \<in> set (tf_Extents f). unat (ex_ByteOffset x) + unat (ex_ByteCount x) \<le> maxAlloc"
    using assms by (simp_all add: Lookup_def)
  show ?thesis
  proof (cases "tf_Length f > MaxInt")
    case False
    have "extract_extents maxAlloc r nm (tf_Length f) (tf_Extents f) (replicate (unat (tf_Length f)) (CHR 0x00)) z \<noteq> None"
      using f(2) by (intro extract_extents_no_panic) simp_all
    then show ?thesis using Some False f(1) by (simp add: ExtractFile_def make_bytes_def)
  qed (use Some in \<open>simp add: ExtractFile_def\<close>)
qed

theorem extract_never_panics_witness: "\<exists>res z'. ExtractFile 7 sample_index ''f'' sample_reader (''a'', 0) = Some (res, z')"
  by (rule extract_never_panics) (simp add: Lookup_def sample_index_def sample_file_def)

text \<open>
  The guards compare with the largest \<open>int\<close>, but the runtime allocates at most \<open>2 ^ 48\<close> bytes on 64-bit
  Linux: a declared length between the two passes them and panics.
\<close>

definition corrupt_index :: Index where
  "corrupt_index = \<lparr> ix_VolumeName = ''T1'', ix_Generation = 1, ix_Location = \<lparr> il_Partition = ''a'', il_StartBlock = 5 \<rparr>,
     ix_files = [''f'' \<mapsto> \<lparr> tf_Path = ''f'', tf_Length = 0x4000000000000, tf_Extents = [] \<rparr>], ix_order = [''f''] \<rparr>"

lemma corrupt_length_panics: "ExtractFile (2 ^ 48) corrupt_index ''f'' r z = None"
proof -
  have "unat (0x4000000000000 :: 64 word) = 0x4000000000000" by simp
  moreover have "\<not> MaxInt < (0x4000000000000 :: 64 word)" by (simp add: MaxInt_def)
  ultimately show ?thesis by (simp add: ExtractFile_def corrupt_index_def make_bytes_def)
qed

section \<open>What the index lists\<close>

text \<open>The files of a document, with their paths, in document order.\<close>

fun doc_files :: "string \<Rightarrow> xmlDir \<Rightarrow> (string \<times> xmlFile) list"
and doc_dirs :: "string \<Rightarrow> xmlDir list \<Rightarrow> (string \<times> xmlFile) list" where
  "doc_files pre (XmlDir nm files dirs) = map (\<lambda>f. (under pre (decode (xf_Name f)), f)) files @ doc_dirs pre dirs"
| "doc_dirs pre [] = []"
| "doc_dirs pre (d # ds) = doc_files (under pre (decode (xd_Name d))) d @ doc_dirs pre ds"

definition indexed :: "string \<times> xmlFile \<Rightarrow> tape_file" where
  "indexed e = \<lparr> tf_Path = fst e, tf_Length = xf_Length (snd e), tf_Extents = sort_key ex_FileOffset (xf_Extents (snd e)) \<rparr>"

definition index_adds :: "Index \<Rightarrow> (string \<times> xmlFile) list \<Rightarrow> Index \<Rightarrow> bool" where
  "index_adds idx es idx' \<longleftrightarrow>
     ix_order idx' = ix_order idx @ map fst es \<and> distinct (map fst es)
   \<and> (\<forall>e \<in> set es. ix_files idx (fst e) = None \<and> ix_files idx' (fst e) = Some (indexed e))
   \<and> (\<forall>p. p \<notin> fst ` set es \<longrightarrow> ix_files idx' p = ix_files idx p)"

lemma index_adds_Nil [simp]: "index_adds idx [] idx"
  by (simp add: index_adds_def)

lemma index_adds_append:
  assumes "index_adds idx es idx1" "index_adds idx1 es' idx2"
  shows "index_adds idx (es @ es') idx2"
  unfolding index_adds_def
proof (intro conjI ballI allI impI)
  have fresh: "fst e \<notin> fst ` set es" if "e \<in> set es'" for e
    using that assms unfolding index_adds_def by (metis imageE option.distinct(1))
  then show "distinct (map fst (es @ es'))" using assms unfolding index_adds_def by (auto simp: image_iff)
  show "ix_order idx2 = ix_order idx @ map fst (es @ es')" using assms by (simp add: index_adds_def)
  have kept: "ix_files idx2 p = ix_files idx1 p" if "p \<in> fst ` set es" for p
  proof -
    have "p \<notin> fst ` set es'"
    proof
      assume "p \<in> fst ` set es'"
      then obtain e where "e \<in> set es'" "p = fst e" by blast
      then show False using fresh that by blast
    qed
    then show ?thesis using assms(2) unfolding index_adds_def by simp
  qed
  have old: "ix_files idx (fst e) = None" "ix_files idx2 (fst e) = Some (indexed e)" if "e \<in> set es" for e
    using that assms(1) kept [of "fst e"] unfolding index_adds_def by simp_all
  have new: "ix_files idx (fst e) = None" "ix_files idx2 (fst e) = Some (indexed e)" if "e \<in> set es'" for e
    using that assms fresh [OF that] unfolding index_adds_def by auto
  show "ix_files idx (fst e) = None" "ix_files idx2 (fst e) = Some (indexed e)" if "e \<in> set (es @ es')" for e
    using that old new unfolding set_append by blast+
  show "ix_files idx2 p = ix_files idx p" if "p \<notin> fst ` set (es @ es')" for p
    using that assms unfolding index_adds_def by (auto simp: image_Un)
qed

lemma walk_files_adds:
  "(walk_files pre fs idx :: walk_error + Index) = Inr idx' \<Longrightarrow> index_adds idx (map (\<lambda>f. (under pre (decode (xf_Name f)), f)) fs) idx'"
proof (induction fs arbitrary: idx)
  case (Cons f fs)
  let ?full = "under pre (decode (xf_Name f))"
  let ?idx1 = "idx\<lparr> ix_files := (ix_files idx)(?full \<mapsto> indexed (?full, f)), ix_order := ix_order idx @ [?full] \<rparr>"
  have s: "ix_files idx ?full = None" "(walk_files pre fs ?idx1 :: walk_error + Index) = Inr idx'"
    using Cons.prems by (auto simp: Let_def indexed_def split: if_splits)
  have "index_adds idx [(?full, f)] ?idx1" using s(1) by (simp add: index_adds_def)
  from index_adds_append [OF this Cons.IH [OF s(2)]] show ?case by simp
qed simp

lemma walk_adds:
  "\<forall>idx'. (walk pre d idx :: walk_error + Index) = Inr idx' \<longrightarrow> index_adds idx (doc_files pre d) idx'"
  "\<forall>idx'. (walk_dirs pre ds idx :: walk_error + Index) = Inr idx' \<longrightarrow> index_adds idx (doc_dirs pre ds) idx'"
proof (induction pre d idx and pre ds idx rule: walk_walk_dirs.induct)
  case (1 pre nm files dirs idx)
  show ?case
  proof (intro allI impI)
    fix idx' assume "(walk pre (XmlDir nm files dirs) idx :: walk_error + Index) = Inr idx'"
    then obtain idx1 where s: "(walk_files pre files idx :: walk_error + Index) = Inr idx1"
      "(walk_dirs pre dirs idx1 :: walk_error + Index) = Inr idx'"
      by (auto simp: bindE_def split: sum.splits)
    show "index_adds idx (doc_files pre (XmlDir nm files dirs)) idx'"
      using index_adds_append [OF walk_files_adds [OF s(1)]] 1 s by simp
  qed
next
  case (3 pre d ds idx)
  show ?case
  proof (intro allI impI)
    fix idx' assume "(walk_dirs pre (d # ds) idx :: walk_error + Index) = Inr idx'"
    then obtain idx1 where s: "decode (xd_Name d) \<noteq> []"
      "(walk (under pre (decode (xd_Name d))) d idx :: walk_error + Index) = Inr idx1"
      "(walk_dirs pre ds idx1 :: walk_error + Index) = Inr idx'"
      by (auto simp: bindE_def Let_def split: sum.splits if_splits)
    show "index_adds idx (doc_dirs pre (d # ds)) idx'"
      using index_adds_append [OF "3.IH"(1) [OF refl s(1), rule_format, OF s(2)]] "3.IH"(2) [OF refl s(1)] s by auto
  qed
qed simp

text \<open>A parsed index lists exactly the files of the document, each once and in path order, under the path its
  directories spell, with its length and all its extents in the order of the file.\<close>

theorem parsed_index_lists_files:
  fixes unmarshal :: "string \<Rightarrow> 'e + xmlIndex"
  assumes "ParseIndex unmarshal data = Inr idx"
  shows "\<exists>doc. unmarshal data = Inr doc
    \<and> sorted_wrt (<) (map tf_Path (Files idx))
    \<and> mset (map tf_Path (Files idx)) = mset (map fst (doc_files [] (xi_Directory doc)))
    \<and> (\<forall>(p, f) \<in> set (doc_files [] (xi_Directory doc)). \<exists>t. Lookup idx p = Some t \<and> tf_Path t = p
         \<and> tf_Length t = xf_Length f \<and> mset (tf_Extents t) = mset (xf_Extents f) \<and> sorted (map ex_FileOffset (tf_Extents t)))"
proof -
  obtain doc where doc: "unmarshal data = Inr doc" using assms by (auto simp: ParseIndex_def split: sum.splits)
  let ?es = "doc_files [] (xi_Directory doc)"
  let ?idx0 = "\<lparr> ix_VolumeName = decode (xd_Name (xi_Directory doc)), ix_Generation = xi_Generation doc,
                ix_Location = xi_Location doc, ix_files = Map.empty, ix_order = [] \<rparr>"
  obtain idx1 where idx1: "(walk [] (xi_Directory doc) ?idx0 :: walk_error + Index) = Inr idx1" "idx = idx1\<lparr> ix_order := sort (ix_order idx1) \<rparr>"
    using assms doc by (auto simp: ParseIndex_def split: if_splits sum.splits)
  have a: "index_adds ?idx0 ?es idx1" using walk_adds(1) idx1(1) by blast
  have order: "ix_order idx = sort (map fst ?es)" and dist: "distinct (map fst ?es)"
    and files: "\<And>e. e \<in> set ?es \<Longrightarrow> ix_files idx (fst e) = Some (indexed e)"
    using a idx1(2) by (simp_all add: index_adds_def)
  have "tf_Path (the (ix_files idx p)) = p" if "p \<in> set (ix_order idx)" for p
    using that files unfolding order by (auto simp: indexed_def)
  then have paths: "map tf_Path (Files idx) = sort (map fst ?es)"
    unfolding Files_def map_map order [symmetric] by (intro map_idI) simp
  have "sorted_wrt (<) (map tf_Path (Files idx))"
    using dist by (simp add: paths strict_sorted_iff)
  moreover have "mset (map tf_Path (Files idx)) = mset (map fst ?es)" by (simp add: paths)
  moreover have "\<forall>(p, f) \<in> set ?es. \<exists>t. Lookup idx p = Some t \<and> tf_Path t = p
         \<and> tf_Length t = xf_Length f \<and> mset (tf_Extents t) = mset (xf_Extents f) \<and> sorted (map ex_FileOffset (tf_Extents t))"
    using files by (fastforce simp: Lookup_def indexed_def)
  ultimately show ?thesis using doc by blast
qed

definition plain_name :: "string \<Rightarrow> xmlName" where
  "plain_name s = \<lparr> xn_Value = s, xn_PercentEncoded = False \<rparr>"

definition sample_document :: xmlIndex where
  "sample_document = \<lparr> xi_XMLName = ''ltfsindex'', xi_Generation = 1, xi_Location = \<lparr> il_Partition = ''a'', il_StartBlock = 5 \<rparr>,
     xi_Directory = XmlDir (plain_name ''T1'') [\<lparr> xf_Name = plain_name ''z'', xf_Length = 0, xf_Extents = [] \<rparr>]
       [XmlDir (plain_name ''d'') [\<lparr> xf_Name = \<lparr> xn_Value = ''a%3ab'', xn_PercentEncoded = True \<rparr>, xf_Length = 7,
          xf_Extents = tf_Extents sample_file \<rparr>] []] \<rparr>"

lemma sample_parse:
  "case ParseIndex (\<lambda>_. Inr sample_document :: unit + xmlIndex) [] of
     Inr idx \<Rightarrow> ix_order idx = [''d/a:b'', ''z''] | Inl _ \<Rightarrow> False"
  by code_simp

theorem parsed_index_lists_files_witness:
  "\<exists>idx. ParseIndex (\<lambda>_. Inr sample_document :: unit + xmlIndex) [] = Inr idx \<and> sorted_wrt (<) (map tf_Path (Files idx))"
proof -
  obtain idx where i: "ParseIndex (\<lambda>_. Inr sample_document :: unit + xmlIndex) [] = Inr idx"
    using sample_parse by (auto split: sum.splits)
  show ?thesis using i parsed_index_lists_files [OF i] by blast
qed

section \<open>Which captured index\<close>

lemma newest_is:
  "newest c cs \<in> set (c # cs) \<and> (\<forall>d \<in> set (c # cs). ic_modTime d \<le> ic_modTime (newest c cs))"
proof (induction c cs rule: newest.induct)
  case (2 b c cs)
  then show ?case by (auto split: if_splits)
qed simp

text \<open>
  The index a mount captured is chosen among the schema files no older than the mount: one with the
  canonical name when there is one, and then the newest. Without any, the error tells whether there
  were only stale ones.\<close>

theorem pick_index_fresh:
  "case pickIndexFile candidates notBefore of
     Inr nm \<Rightarrow> \<exists>c \<in> set candidates. ic_name c = nm \<and> HasSuffix nm indexSchemaSuffix \<and> notBefore \<le> ic_modTime c
       \<and> (\<forall>d \<in> set candidates. HasSuffix (ic_name d) indexSchemaSuffix \<longrightarrow> notBefore \<le> ic_modTime d \<longrightarrow>
            (canonicalIndexRe (ic_name d) \<longrightarrow> canonicalIndexRe nm)
          \<and> ((canonicalIndexRe (ic_name d) \<longleftrightarrow> canonicalIndexRe nm) \<longrightarrow> ic_modTime d \<le> ic_modTime c))
   | Inl e \<Rightarrow> (\<forall>d \<in> set candidates. HasSuffix (ic_name d) indexSchemaSuffix \<longrightarrow> ic_modTime d < notBefore)
       \<and> (e = StaleIndex \<longleftrightarrow> (\<exists>d \<in> set candidates. HasSuffix (ic_name d) indexSchemaSuffix))"
proof -
  define captured where "captured = filter (\<lambda>c. HasSuffix (ic_name c) indexSchemaSuffix) candidates"
  define schemas where "schemas = filter (\<lambda>c. \<not> ic_modTime c < notBefore) captured"
  define canonical where "canonical = filter (\<lambda>c. canonicalIndexRe (ic_name c)) schemas"
  define chosen where "chosen = (if canonical = [] then schemas else canonical)"
  have p: "pickIndexFile candidates notBefore = (case chosen of
        [] \<Rightarrow> Inl (if list_ex (\<lambda>c. ic_modTime c < notBefore) captured then StaleIndex else NoIndex)
      | c # cs \<Rightarrow> Inr (ic_name (newest c cs)))"
    by (simp add: pickIndexFile_def captured_def schemas_def canonical_def chosen_def Let_def)
  show ?thesis
  proof (cases chosen)
    case Nil
    then have "schemas = []" by (auto simp: chosen_def split: if_splits)
    then show ?thesis unfolding p Nil
      by (auto simp: schemas_def captured_def filter_empty_conv list_ex_iff)
  next
    case (Cons c cs)
    let ?n = "newest c cs"
    have n: "?n \<in> set chosen" "\<And>d. d \<in> set chosen \<Longrightarrow> ic_modTime d \<le> ic_modTime ?n"
      using newest_is [of c cs] Cons by auto
    have sub: "set chosen \<subseteq> set schemas" by (auto simp: chosen_def canonical_def)
    have canon: "canonicalIndexRe (ic_name ?n)" if "d \<in> set schemas" "canonicalIndexRe (ic_name d)" for d
    proof -
      have "d \<in> set canonical" using that by (simp add: canonical_def)
      then have "chosen = canonical" by (auto simp: chosen_def)
      then show ?thesis using n(1) by (simp add: canonical_def)
    qed
    have same: "ic_modTime d \<le> ic_modTime ?n"
      if d: "d \<in> set schemas" "canonicalIndexRe (ic_name d) \<longleftrightarrow> canonicalIndexRe (ic_name ?n)" for d
    proof -
      have "d \<in> set chosen"
      proof (cases "canonical = []")
        case True
        then show ?thesis using d(1) by (simp add: chosen_def)
      next
        case False
        then have "canonicalIndexRe (ic_name ?n)" using n(1) by (simp add: chosen_def canonical_def)
        then show ?thesis using d False by (simp add: chosen_def canonical_def)
      qed
      then show ?thesis by (rule n(2))
    qed
    have mem: "d \<in> set schemas \<longleftrightarrow> d \<in> set candidates \<and> HasSuffix (ic_name d) indexSchemaSuffix \<and> notBefore \<le> ic_modTime d" for d
      by (auto simp: schemas_def captured_def)
    have "?n \<in> set schemas" using n(1) sub by blast
    then show ?thesis unfolding p Cons using canon same by (auto simp: mem)
  qed
qed

theorem pick_index_fresh_witness:
  "\<forall>d \<in> set [\<lparr> ic_name = ''volume.schema'', ic_modTime = 9 \<rparr>, \<lparr> ic_name = ''old.schema'', ic_modTime = 3 \<rparr>].
     HasSuffix (ic_name d) indexSchemaSuffix \<longrightarrow> 5 \<le> ic_modTime d \<longrightarrow> ic_modTime d \<le> 9"
proof -
  let ?cs = "[\<lparr> ic_name = ''volume.schema'', ic_modTime = 9 \<rparr>, \<lparr> ic_name = ''old.schema'', ic_modTime = 3 \<rparr>]"
  have "pickIndexFile ?cs 5 = Inr ''volume.schema''" by code_simp
  then show ?thesis using pick_index_fresh [of ?cs 5] by auto
qed

end
