(* ===== verification/RawRead.thy ===== *)
theory RawRead
  imports LtfsIndex Scsi
begin

text \<open>
  \<open>pkg/tape/rawread_linux.go\<close>: reading the blocks of a tape through SCSI commands, without a mount. The
  device is a parameter that answers a command block, for a read with the bytes of its buffer. On a
  drive that keeps the documented behaviour of LOCATE(16) and READ(6), recovery over this reader
  gives the file.
\<close>

section \<open>Commands\<close>

definition opcodeLocate16 :: byte where "opcodeLocate16 = 0x92"
definition locate16CP :: byte where "locate16CP = 0x02"
definition rawReadBufSize :: nat where "rawReadBufSize = 512 * 1024"
definition ltfsIndexPartition :: byte where "ltfsIndexPartition = 0"
definition ltfsDataPartition :: byte where "ltfsDataPartition = 1"

type_synonym 'z block_device = "'z \<Rightarrow> byte list \<Rightarrow> nat \<Rightarrow> (string + sg_completion \<times> string) \<times> 'z"

datatype raw_error =
  UnknownPartition string
| IoctlFailed string
| LocateFailed byte "64 word" byte byte byte
| ReadTransport "16 word" "16 word"
| NoDataBlock byte byte byte byte bool
| ReadNothing
| ReadPanic

definition partitionNumber :: "string \<Rightarrow> raw_error + byte" where
  "partitionNumber label =
     (if label = ''a'' \<or> label = ''A'' then Inr ltfsIndexPartition
      else if label = ''b'' \<or> label = ''B'' then Inr ltfsDataPartition
      else Inl (UnknownPartition label))"

text \<open>\<open>binary.BigEndian.PutUint64\<close>.\<close>

definition put_be64 :: "64 word \<Rightarrow> byte list" where
  "put_be64 x = map (\<lambda>i. ucast (drop_bit (8 * i) x)) [7, 6, 5, 4, 3, 2, 1, 0]"

definition locate16_cdb :: "byte \<Rightarrow> 64 word \<Rightarrow> byte list" where
  "locate16_cdb part block = [opcodeLocate16, locate16CP, 0, part] @ put_be64 block @ [0, 0, 0, 0]"

definition scsiLocate :: "'z block_device \<Rightarrow> byte \<Rightarrow> 64 word \<Rightarrow> 'z \<Rightarrow> raw_error option \<times> 'z" where
  "scsiLocate dev part block z =
     (case dev z (locate16_cdb part block) 0 of
        (Inl errno, z1) \<Rightarrow> (Some (IoctlFailed errno), z1)
      | (Inr (hdr, _), z1) \<Rightarrow>
          if good hdr then (None, z1)
          else (case parseSense (sg_sense hdr) of
              None \<Rightarrow> (Some ReadPanic, z1)
            | Some (key, asc, ascq, _) \<Rightarrow> (Some (LocateFailed part block key asc ascq), z1)))"

text \<open>A negative residual would make the slice of the buffer panic.\<close>

definition decodeReadBlock :: "sg_completion \<Rightarrow> string \<Rightarrow> raw_error + string" where
  "decodeReadBlock hdr buf =
     (if sg_hostStatus hdr \<noteq> 0 \<or> sg_driverStatus hdr AND NOT driverSense \<noteq> 0
      then Inl (ReadTransport (sg_hostStatus hdr) (sg_driverStatus hdr))
      else if sg_status hdr \<noteq> statusGood \<and> sg_status hdr \<noteq> statusCheckCondition
      then Inl (NoDataBlock (sg_status hdr) 0 0 0 False)
      else (case parseSense (sg_sense hdr) of
          None \<Rightarrow> Inl ReadPanic
        | Some (key, asc, ascq, filemark) \<Rightarrow>
            let transferred = sg_dxferLen hdr - sg_resid hdr in
            if filemark \<or> key \<noteq> senseKeyNoSense then Inl (NoDataBlock (sg_status hdr) key asc ascq filemark)
            else if transferred \<le> 0 then Inl ReadNothing
            else if int (length buf) < transferred then Inl ReadPanic
            else Inr (take (nat transferred) buf)))"

definition scsiReadBlock :: "'z block_device \<Rightarrow> nat \<Rightarrow> 'z \<Rightarrow> (raw_error + string) \<times> 'z" where
  "scsiReadBlock dev bufSize z =
     (case dev z (read6_cdb bufSize) bufSize of
        (Inl errno, z1) \<Rightarrow> (Inl (IoctlFailed errno), z1)
      | (Inr (hdr, buf), z1) \<Rightarrow> (decodeReadBlock hdr buf, z1))"

definition Locate :: "'z block_device \<Rightarrow> string \<Rightarrow> 64 word \<Rightarrow> 'z \<Rightarrow> raw_error option \<times> 'z" where
  "Locate dev part block z =
     (case partitionNumber part of
        Inl e \<Rightarrow> (Some e, z)
      | Inr number \<Rightarrow> scsiLocate dev number block z)"

definition RawReader :: "'z block_device \<Rightarrow> (raw_error, 'z) BlockReader" where
  "RawReader dev = \<lparr> br_Locate = Locate dev, br_ReadBlock = scsiReadBlock dev rawReadBufSize \<rparr>"

section \<open>A conforming drive\<close>

text \<open>Big-endian numbers as the drive reads them from a command block.\<close>

definition be_number :: "byte list \<Rightarrow> nat" where
  "be_number bs = foldl (\<lambda>n b. 256 * n + unat b) 0 bs"

text \<open>
  The blocks of the partitions by number, and the position: LOCATE(16) with the partition change bit that
  ends well moves to the partition in byte 3 and the block in bytes 4 to 11. A READ(6) with SILI that ends with
  status GOOD or CHECK CONDITION, sense key NO SENSE, no filemark and data has transferred the block at the
  position, if the transfer length in bytes 2 to 4 holds it, and moved past it.
\<close>

definition drive_laws :: "'z block_device \<Rightarrow> (nat \<Rightarrow> string list) \<Rightarrow> ('z \<Rightarrow> nat \<times> nat) \<Rightarrow> bool" where
  "drive_laws dev volume pos \<longleftrightarrow>
     (\<forall>z cdb n hdr buf z'. dev z cdb n = (Inr (hdr, buf), z') \<longrightarrow> length cdb = 16 \<longrightarrow> cdb ! 0 = 0x92 \<longrightarrow> cdb ! 1 = 0x02 \<longrightarrow>
        good hdr \<longrightarrow> pos z' = (unat (cdb ! 3), be_number (take 8 (drop 4 cdb))))
   \<and> (\<forall>z cdb n hdr buf z' asc ascq p k. dev z cdb n = (Inr (hdr, buf), z') \<longrightarrow> length cdb = 6 \<longrightarrow> cdb ! 0 = 0x08 \<longrightarrow> cdb ! 1 = 0x02 \<longrightarrow>
        be_number (take 3 (drop 2 cdb)) = n \<longrightarrow> sg_hostStatus hdr = 0 \<longrightarrow> sg_status hdr \<in> {0x00, 0x02} \<longrightarrow>
        parseSense (sg_sense hdr) = Some (0, asc, ascq, False) \<longrightarrow> 0 < sg_dxferLen hdr - sg_resid hdr \<longrightarrow> pos z = (p, k) \<longrightarrow>
        k < length (volume p) \<and> pos z' = (p, Suc k)
        \<and> (length (volume p ! k) \<le> n \<longrightarrow> sg_dxferLen hdr - sg_resid hdr = int (length (volume p ! k)) \<and> prefix (volume p ! k) buf))"

lemma be_number_append: "be_number (bs @ [b]) = 256 * be_number bs + unat b"
  by (simp add: be_number_def)

lemma unat_ucast_byte: "unat (ucast x :: byte) = unat x mod 256" for x :: "64 word"
  by (simp add: unsigned_ucast_eq take_bit_eq_mod)

lemma unat_drop: "unat (drop_bit i x) = unat x div 2 ^ i" for x :: "64 word"
  by (simp only: unat_drop_bit_eq) (simp add: drop_bit_eq_div)

lemma be_number_put: "be_number (put_be64 x) = unat x"
proof -
  define n where "n = unat x"
  have bound: "n < 2 ^ 64" unfolding n_def using unsigned_less[of x] by simp
  have digit: "256 * (n div (256 * m)) + n div m mod 256 = n div m" for m
    by (metis div_mult2_eq mult.commute mult_div_mod_eq)
  have "n div 2 ^ 64 = 0" using bound by simp
  then have "n div 2 ^ 56 mod 256 = n div 2 ^ 56" using bound by simp
  then show ?thesis
    using digit[of "2 ^ 48"] digit[of "2 ^ 40"] digit[of "2 ^ 32"] digit[of "2 ^ 24"] digit[of "2 ^ 16"] digit[of "2 ^ 8"] digit[of 1]
    by (simp add: be_number_def put_be64_def unat_ucast_byte unat_drop n_def[symmetric])
qed

lemma locate16_cdb_fields:
  "length (locate16_cdb p b) = 16" "locate16_cdb p b ! 0 = 0x92" "locate16_cdb p b ! 1 = 0x02" "locate16_cdb p b ! 3 = p"
  "be_number (take 8 (drop 4 (locate16_cdb p b))) = unat b"
proof -
  have len: "length (put_be64 b) = 8" by (simp add: put_be64_def)
  then show "length (locate16_cdb p b) = 16" by (simp add: locate16_cdb_def)
  show "locate16_cdb p b ! 0 = 0x92" "locate16_cdb p b ! 1 = 0x02" "locate16_cdb p b ! 3 = p"
    by (simp_all add: locate16_cdb_def opcodeLocate16_def locate16CP_def)
  show "be_number (take 8 (drop 4 (locate16_cdb p b))) = unat b"
    using be_number_put[of b] len by (simp add: locate16_cdb_def)
qed

lemma read6_cdb_raw: "read6_cdb rawReadBufSize = [0x08, 0x02, 0x08, 0, 0, 0]"
  by (simp add: read6_cdb_def opcodeRead6_def read6SILI_def byte_of_def rawReadBufSize_def drop_bit_eq_div word_of_nat_eq_0_iff)

lemma read6_cdb_fields:
  "length (read6_cdb rawReadBufSize) = 6" "read6_cdb rawReadBufSize ! 0 = 0x08" "read6_cdb rawReadBufSize ! 1 = 0x02"
  "be_number (take 3 (drop 2 (read6_cdb rawReadBufSize))) = rawReadBufSize"
  unfolding read6_cdb_raw by (simp_all add: be_number_def rawReadBufSize_def)

lemma scsiLocate_ok:
  assumes "drive_laws dev volume pos" "scsiLocate dev p b z = (None, z')"
  shows "pos z' = (unat p, unat b)"
proof -
  obtain hdr buf where run: "dev z (locate16_cdb p b) 0 = (Inr (hdr, buf), z')" "good hdr"
    using assms(2) by (auto simp: scsiLocate_def split: sum.splits prod.splits if_splits option.splits)
  show ?thesis
    using conjunct1[OF assms(1)[unfolded drive_laws_def], rule_format, OF run(1) locate16_cdb_fields(1,2,3) run(2)]
    by (simp add: locate16_cdb_fields)
qed

lemma scsiReadBlock_ok:
  assumes laws: "drive_laws dev volume pos" and "scsiReadBlock dev rawReadBufSize z = (Inr blk, z')" and "pos z = (p, k)"
    and small: "\<And>b. b \<in> set (volume p) \<Longrightarrow> length b \<le> rawReadBufSize"
  shows "k < length (volume p) \<and> blk = volume p ! k \<and> pos z' = (p, Suc k)"
proof -
  obtain hdr buf where run: "dev z (read6_cdb rawReadBufSize) rawReadBufSize = (Inr (hdr, buf), z')"
    and dec: "decodeReadBlock hdr buf = Inr blk"
    using assms(2) by (auto simp: scsiReadBlock_def split: sum.splits prod.splits)
  obtain asc ascq where hdr: "sg_hostStatus hdr = 0" "sg_status hdr \<in> {0x00, 0x02}" "parseSense (sg_sense hdr) = Some (0, asc, ascq, False)"
    "0 < sg_dxferLen hdr - sg_resid hdr" "blk = take (nat (sg_dxferLen hdr - sg_resid hdr)) buf"
    using dec by (auto simp: decodeReadBlock_def Let_def statusGood_def statusCheckCondition_def senseKeyNoSense_def
        split: if_splits option.splits prod.splits)
  note law = conjunct2[OF laws[unfolded drive_laws_def], rule_format,
      OF run read6_cdb_fields(1,2,3,4) hdr(1,2,3,4) assms(3)]
  then have "length (volume p ! k) \<le> rawReadBufSize" using small by simp
  then have "nat (sg_dxferLen hdr - sg_resid hdr) = length (volume p ! k)" "prefix (volume p ! k) buf" using law by auto
  then have "blk = volume p ! k" using hdr(5) by (auto simp: prefix_def)
  then show ?thesis using law by simp
qed

section \<open>Recovery over the reader\<close>

text \<open>Only the lower-case labels name a partition uniquely, so the laws are shown for a reader that takes just these.\<close>

definition lower_reader :: "'z block_device \<Rightarrow> (raw_error, 'z) BlockReader" where
  "lower_reader dev = (RawReader dev)\<lparr> br_Locate :=
     (\<lambda>p b z. if p = ''a'' \<or> p = ''b'' then Locate dev p b z else (Some (UnknownPartition p), z)) \<rparr>"

definition label_of :: "nat \<Rightarrow> string" where
  "label_of p = (if p = 0 then ''a'' else if p = 1 then ''b'' else replicate p (CHR ''#''))"

definition by_label :: "(nat \<Rightarrow> string list) \<Rightarrow> string \<Rightarrow> string list" where
  "by_label volume l = (if l = ''a'' then volume 0 else if l = ''b'' then volume 1 else volume (length l))"

lemma by_label_of: "by_label volume (label_of p) = volume p"
proof (cases "p < 2")
  case True
  then show ?thesis by (auto simp: by_label_def label_of_def less_Suc_eq numeral_2_eq_2)
next
  case False
  then have "length (replicate p (CHR ''#'')) \<noteq> length ''a''" by simp
  then have "replicate p (CHR ''#'') \<noteq> ''a''" "replicate p (CHR ''#'') \<noteq> ''b''" by (metis, metis length_Cons)
  then show ?thesis using False by (simp add: by_label_def label_of_def)
qed

lemma lower_reader_laws:
  assumes laws: "drive_laws dev volume pos" and small: "\<And>p b. b \<in> set (volume p) \<Longrightarrow> length b \<le> rawReadBufSize"
  shows "tape_laws (lower_reader dev) (by_label volume) (\<lambda>z. (label_of (fst (pos z)), snd (pos z)))"
proof -
  have "(\<lambda>z. (label_of (fst (pos z)), snd (pos z))) z' = (p, unat b)"
    if "br_Locate (lower_reader dev) p b z = (None, z')" for p b z z'
    using that scsiLocate_ok[OF laws]
    by (auto simp: lower_reader_def Locate_def partitionNumber_def label_of_def ltfsIndexPartition_def ltfsDataPartition_def split: if_splits)
  moreover have "k < length (by_label volume p) \<and> blk = by_label volume p ! k \<and> (label_of (fst (pos z')), snd (pos z')) = (p, Suc k)"
    if "br_ReadBlock (lower_reader dev) z = (Inr blk, z')" "(label_of (fst (pos z)), snd (pos z)) = (p, k)" for z blk z' p k
    using scsiReadBlock_ok[OF laws _ prod.collapse[symmetric] small, of z blk z'] that
    by (auto simp: lower_reader_def RawReader_def by_label_of)
  ultimately show ?thesis unfolding tape_laws_def by simp
qed

lemma read_blocks_same:
  "br_ReadBlock r = br_ReadBlock r' \<Longrightarrow> read_blocks r need buf z = read_blocks r' need buf z"
proof (induction r need buf z rule: read_blocks.induct)
  case (1 r need buf z)
  show ?case
    unfolding read_blocks.simps[of r need buf z] read_blocks.simps[of r' need buf z] 1(2)[symmetric]
    using 1(1)[OF _ surjective_pairing[symmetric]] 1(2) by (auto split: sum.split prod.split)
qed

lemma readExtent_same:
  assumes "br_ReadBlock r = br_ReadBlock r'" "br_Locate r (ex_Partition x) = br_Locate r' (ex_Partition x)"
  shows "readExtent maxAlloc r x len z = readExtent maxAlloc r' x len z"
  unfolding readExtent_def assms(2) read_blocks_same[OF assms(1)] by (rule refl)

lemma extract_extents_same:
  assumes "br_ReadBlock r = br_ReadBlock r'"
  shows "\<forall>x \<in> set xs. br_Locate r (ex_Partition x) = br_Locate r' (ex_Partition x) \<Longrightarrow>
    extract_extents maxAlloc r nm len xs out z = extract_extents maxAlloc r' nm len xs out z"
  by (induction xs arbitrary: out z) (auto simp: readExtent_same[OF assms] split: option.split sum.split prod.split)

lemma ExtractFile_same:
  assumes "br_ReadBlock r = br_ReadBlock r'" "Lookup idx nm = Some f"
    and "\<forall>x \<in> set (tf_Extents f). br_Locate r (ex_Partition x) = br_Locate r' (ex_Partition x)"
  shows "ExtractFile maxAlloc idx nm r z = ExtractFile maxAlloc idx nm r' z"
  using assms(2) extract_extents_same[OF assms(1,3)] by (simp add: ExtractFile_def Lookup_def split: option.split)

text \<open>C38: recovery down to the SCSI commands: on a drive that keeps the documented behaviour of LOCATE(16) and
  READ(6), with blocks no longer than the read buffer, reading back a file whose extents in the captured index
  are right gives exactly the file or an error; the byte order of the command blocks, the partition labels
  and the residual counts do not lose or shift a byte.\<close>
theorem raw_recovery:
  assumes "drive_laws dev volume pos" and "\<forall>p. \<forall>b \<in> set (volume p). length b \<le> rawReadBufSize"
    and "Lookup idx nm = Some f" and "unat (tf_Length f) = length c"
    and "\<forall>x \<in> set (tf_Extents f). ex_Partition x \<in> {''a'', ''b''} \<and> describes (by_label volume) c x"
    and "\<forall>i < length c. (\<forall>x \<in> set (tf_Extents f). \<not> covers x i) \<longrightarrow> c ! i = CHR 0x00"
    and "ExtractFile maxAlloc idx nm (RawReader dev) z = Some (Inr out, z')"
  shows "out = c"
proof -
  have "ExtractFile maxAlloc idx nm (RawReader dev) z = ExtractFile maxAlloc idx nm (lower_reader dev) z"
    by (rule ExtractFile_same[OF _ assms(3)]) (use assms(5) in \<open>auto simp: lower_reader_def RawReader_def\<close>)
  then have run: "ExtractFile maxAlloc idx nm (lower_reader dev) z = Some (Inr out, z')" using assms(7) by simp
  have laws: "tape_laws (lower_reader dev) (by_label volume) (\<lambda>z. (label_of (fst (pos z)), snd (pos z)))"
    by (rule lower_reader_laws[OF assms(1)]) (use assms(2) in blast)
  show ?thesis by (rule extract_correct[OF laws assms(3,4) _ assms(6) run]) (use assms(5) in blast)
qed

text \<open>A drive that holds the sample volume in partition one.\<close>

definition sample_blocks :: "nat \<Rightarrow> string list" where
  "sample_blocks p = (if p = 1 then sample_volume ''b'' else [])"

definition sample_good :: "int \<Rightarrow> sg_completion" where
  "sample_good n = \<lparr> sg_status = 0, sg_hostStatus = 0, sg_driverStatus = 0, sg_sense = [], sg_dxferLen = n, sg_resid = 0 \<rparr>"

definition sample_drive :: "(nat \<times> nat) block_device" where
  "sample_drive z cdb n =
     (if length cdb = 16 then (Inr (sample_good 0, []), (unat (cdb ! 3), be_number (take 8 (drop 4 cdb))))
      else
        let (p, k) = z in
        if k < length (sample_blocks p)
        then (Inr (sample_good (int (length (sample_blocks p ! k))), sample_blocks p ! k), (p, Suc k))
        else (Inl ''end of data'', z))"

lemma sample_drive_laws: "drive_laws sample_drive sample_blocks id"
  by (auto simp: drive_laws_def sample_drive_def sample_good_def split: if_splits)

definition sample_raw :: "(raw_error, nat \<times> nat) BlockReader" where
  "sample_raw = \<lparr> br_Locate = (\<lambda>l b z. if l = ''a'' then (None, (0, unat b)) else (None, (1, unat b))),
     br_ReadBlock = (\<lambda>(p, k). if k < length (sample_blocks p) then (Inr (sample_blocks p ! k), (p, Suc k))
       else (Inl (IoctlFailed ''end of data''), (p, k))) \<rparr>"

lemma sample_raw_reads: "br_ReadBlock (RawReader sample_drive) = br_ReadBlock sample_raw"
proof -
  have nonempty: "sample_blocks p ! k \<noteq> []" if "k < length (sample_blocks p)" for p k
  proof -
    have "\<forall>b \<in> set (sample_blocks p). b \<noteq> []" by (auto simp: sample_blocks_def sample_volume_def)
    then show ?thesis using nth_mem[OF that] by blast
  qed
  have "scsiReadBlock sample_drive rawReadBufSize (p, k) = br_ReadBlock sample_raw (p, k)" for p k
    using nonempty[of k p]
    by (simp add: scsiReadBlock_def read6_cdb_raw sample_drive_def sample_raw_def decodeReadBlock_def sample_good_def
        parseSense_def statusGood_def senseKeyNoSense_def Let_def)
  then show ?thesis by (simp add: RawReader_def fun_eq_iff)
qed

lemma sample_raw_locates: "l \<in> {''a'', ''b''} \<Longrightarrow> br_Locate (RawReader sample_drive) l = br_Locate sample_raw l"
  by (auto simp: fun_eq_iff RawReader_def Locate_def partitionNumber_def scsiLocate_def sample_drive_def locate16_cdb_fields
      good_def sample_good_def sample_raw_def ltfsIndexPartition_def ltfsDataPartition_def)

lemma sample_extents: "\<forall>x \<in> set (tf_Extents sample_file). ex_Partition x \<in> {''a'', ''b''} \<and> describes (by_label sample_blocks) sample_contents x"
  by (simp add: sample_file_def describes_def bytes_from_def by_label_def sample_blocks_def sample_volume_def sample_contents_def)

lemma sample_extracted: "ExtractFile 100 sample_index ''f'' (RawReader sample_drive) (0, 0) = Some (Inr sample_contents, (1, 3))"
proof -
  have f: "Lookup sample_index ''f'' = Some sample_file" by (simp add: Lookup_def sample_index_def)
  have "ExtractFile 100 sample_index ''f'' (RawReader sample_drive) (0, 0) = ExtractFile 100 sample_index ''f'' sample_raw (0, 0)"
    by (rule ExtractFile_same[OF sample_raw_reads f]) (use sample_extents sample_raw_locates in blast)
  also have "\<dots> = Some (Inr sample_contents, (1, 3))" by code_simp
  finally show ?thesis .
qed

theorem raw_recovery_witness:
  "\<exists>out z'. ExtractFile 100 sample_index ''f'' (RawReader sample_drive) (0, 0) = Some (Inr out, z') \<and> out = sample_contents"
proof -
  have f: "Lookup sample_index ''f'' = Some sample_file" by (simp add: Lookup_def sample_index_def)
  have n: "unat (tf_Length sample_file) = length sample_contents" by (simp add: sample_file_def sample_contents_def)
  have small: "\<forall>p. \<forall>b \<in> set (sample_blocks p). length b \<le> rawReadBufSize"
    by (simp add: sample_blocks_def sample_volume_def rawReadBufSize_def)
  show ?thesis
    using raw_recovery[OF sample_drive_laws small f n sample_extents sample_holes sample_extracted] sample_extracted by blast
qed

end
