(* ===== verification/DriveInfo.thy ===== *)
theory DriveInfo
  imports Types Scsi
begin

text \<open>
  What the report says about a drive and its medium: the INQUIRY identity (\<open>pkg/tape/inquiry.go\<close>), the LTO
  generation of the medium (\<open>density.go\<close>), and the log pages read through \<open>sg_logs\<close> (\<open>logpage.go\<close>). The
  processes, the clock and the parsed JSON are parameters; a slice or an index out of range is \<open>None\<close>.
\<close>

section \<open>INQUIRY\<close>

definition unknownGeneration :: string where "unknownGeneration = ''unknown''"
definition inquiryVendorOffset :: nat where "inquiryVendorOffset = 8"
definition inquiryVendorLen :: nat where "inquiryVendorLen = 8"
definition inquiryProductOffset :: nat where "inquiryProductOffset = 16"
definition inquiryProductLen :: nat where "inquiryProductLen = 16"
definition inquiryRevisionOffset :: nat where "inquiryRevisionOffset = 32"
definition inquiryRevisionLen :: nat where "inquiryRevisionLen = 4"
definition vpdPageLengthOffset :: nat where "vpdPageLengthOffset = 3"
definition vpdSerialOffset :: nat where "vpdSerialOffset = 4"

record DeviceInfo =
  di_Vendor :: string
  di_Product :: string
  di_Revision :: string
  di_Serial :: string

definition Model :: "DeviceInfo \<Rightarrow> string" where
  "Model i = TrimSpace (di_Vendor i @ '' '' @ di_Product i)"

text \<open>
  \<open>ToUpper\<close> on ASCII and on the two other characters with an ASCII upper case, the dotless i and the long s; the
  bytes of the rest stay above ASCII, which is all the caller looks at.
\<close>

definition upper_char :: "char \<Rightarrow> char" where
  "upper_char c = (if CHR ''a'' \<le> c \<and> c \<le> CHR ''z'' then char_of (of_char c - 32 :: nat) else c)"

fun ToUpper :: "string \<Rightarrow> string" where
  "ToUpper [] = []"
| "ToUpper (c # cs) =
     (if c = CHR 0xC4 \<and> take 1 cs = [CHR 0xB1] then CHR ''I'' # ToUpper (drop 1 cs)
      else if c = CHR 0xC5 \<and> take 1 cs = [CHR 0xBF] then CHR ''S'' # ToUpper (drop 1 cs)
      else upper_char c # ToUpper cs)"

definition ltoGenerationFromProduct :: "string \<Rightarrow> string option" where
  "ltoGenerationFromProduct product =
     (let upper = ToUpper (TrimSpace product);
          generation = (if Contains upper ''ULT3580-'' \<or> Contains upper ''ULTRIUM-''
            then (if upper = [] then None else Some (last upper))
            else if HasPrefix upper ''ULTRIUM ''
            then (let t = TrimPrefix upper ''ULTRIUM '' in
              if 2 \<le> length t \<and> t ! 1 = CHR ''-'' then Some (t ! 0) else Some (CHR 0x00))
            else Some (CHR 0x00)) in
      map_option (\<lambda>g. if CHR ''5'' \<le> g \<and> g \<le> CHR ''9'' then ''LTO-'' @ [g] else unknownGeneration) generation)"

definition LTOGeneration :: "DeviceInfo \<Rightarrow> string option" where
  "LTOGeneration i = ltoGenerationFromProduct (di_Product i)"

definition asciiField :: "byte list \<Rightarrow> nat \<Rightarrow> nat \<Rightarrow> string option" where
  "asciiField data offset n =
     (if length data \<le> offset then Some []
      else map_option (\<lambda>b. TrimSpace (bytes_string b)) (slice data offset (min (offset + n) (length data))))"

definition decodeStandardInquiry :: "byte list \<Rightarrow> (string \<times> string \<times> string) option" where
  "decodeStandardInquiry data =
     do { vendor \<leftarrow> asciiField data inquiryVendorOffset inquiryVendorLen;
          product \<leftarrow> asciiField data inquiryProductOffset inquiryProductLen;
          revision \<leftarrow> asciiField data inquiryRevisionOffset inquiryRevisionLen;
          Some (vendor, product, revision) }"

definition decodeUnitSerial :: "byte list \<Rightarrow> string option" where
  "decodeUnitSerial data =
     (if length data \<le> vpdSerialOffset then Some []
      else do { n \<leftarrow> Scsi.at data vpdPageLengthOffset;
                b \<leftarrow> slice data vpdSerialOffset (min (vpdSerialOffset + unat n) (length data));
                Some (TrimSpace (bytes_string b)) })"

section \<open>The medium\<close>

definition ltoDensityCodes :: "byte \<Rightarrow> string option" where
  "ltoDensityCodes code = map_of
     [(0x40, ''LTO-1''), (0x42, ''LTO-2''), (0x44, ''LTO-3''), (0x46, ''LTO-4''), (0x58, ''LTO-5''), (0x5a, ''LTO-6''),
      (0x5c, ''LTO-7''), (0x5d, ''LTO-7 Type M (M8)''), (0x5e, ''LTO-8''), (0x60, ''LTO-9'')] code"

text \<open>Panicking, no block descriptor, or the code.\<close>

definition densityCode :: "byte list \<Rightarrow> byte option option" where
  "densityCode response =
     (if length response < 8 then Some None
      else do { descriptorLen \<leftarrow> be16 response 6;
                if descriptorLen = 0 \<or> length response < 8 + unat descriptorLen then Some None
                else do { c \<leftarrow> Scsi.at response 8; Some (Some c) } })"

datatype 'e medium_error = NoReadyMedium 'e | SgModesFailed 'e | NoBlockDescriptor

definition MediumGeneration ::
  "('z \<Rightarrow> 'e option \<times> 'z) \<Rightarrow> ('z \<Rightarrow> ('e + byte list) \<times> 'z) \<Rightarrow> 'z \<Rightarrow> (string \<times> 'e medium_error option) option \<times> 'z" where
  "MediumGeneration testUnitReady sgModes z =
     (case testUnitReady z of
        (Some e, z1) \<Rightarrow> (Some (unknownGeneration, Some (NoReadyMedium e)), z1)
      | (None, z1) \<Rightarrow>
          (case sgModes z1 of
             (Inl e, z2) \<Rightarrow> (Some (unknownGeneration, Some (SgModesFailed e)), z2)
           | (Inr out, z2) \<Rightarrow>
               (map_option (\<lambda>code. case code of
                    None \<Rightarrow> (unknownGeneration, Some NoBlockDescriptor)
                  | Some c \<Rightarrow> ((case ltoDensityCodes c of None \<Rightarrow> unknownGeneration | Some g \<Rightarrow> g), None)) (densityCode out), z2)))"

section \<open>Log pages\<close>

definition sgLogsAttempts :: nat where "sgLogsAttempts = 5"

text \<open>
  The attempts left; the second function waits for the retry delay and tells whether the context was
  done first.
\<close>

fun sg_logs_loop :: "('z \<Rightarrow> ('e + string) \<times> 'z) \<Rightarrow> ('z \<Rightarrow> bool \<times> 'z) \<Rightarrow> nat \<Rightarrow> 'e + string \<Rightarrow> 'z \<Rightarrow> ('e + string) \<times> 'z" where
  "sg_logs_loop run wait 0 res z = (res, z)"
| "sg_logs_loop run wait (Suc n) res z =
     (case run z of
        (Inr out, z1) \<Rightarrow> (Inr out, z1)
      | (Inl e, z1) \<Rightarrow>
          (case wait z1 of
             (True, z2) \<Rightarrow> (Inl e, z2)
           | (False, z2) \<Rightarrow> sg_logs_loop run wait n (Inl e) z2))"

definition runSgLogs :: "('z \<Rightarrow> ('e + string) \<times> 'z) \<Rightarrow> ('z \<Rightarrow> bool \<times> 'z) \<Rightarrow> 'z \<Rightarrow> ('e + string) \<times> 'z" where
  "runSgLogs run wait z = sg_logs_loop run wait sgLogsAttempts (Inr []) z"

text \<open>The parsed documents: number, meaning and flag of each parameter; code and count of each parameter.\<close>

datatype 'e log_error = SgLogsFailed 'e | BadJSON

definition parseTapeAlert :: "(string \<Rightarrow> (int \<times> string \<times> int) list option) \<Rightarrow> string \<Rightarrow> 'e log_error + TapeAlertFlag list" where
  "parseTapeAlert unmarshal output =
     (case unmarshal output of
        None \<Rightarrow> Inl BadJSON
      | Some params \<Rightarrow> Inr (map (\<lambda>(n, meaning, flag). \<lparr> taf_Number = n, taf_Description = meaning, taf_Set = (flag \<noteq> 0) \<rparr>) params))"

definition tapeUsageParamSuspendedWrites :: int where "tapeUsageParamSuspendedWrites = 5"

definition parseTapeUsage :: "(string \<Rightarrow> (int \<times> int) list option) \<Rightarrow> string \<Rightarrow> 'e log_error + int \<times> bool" where
  "parseTapeUsage unmarshal output =
     (case unmarshal output of
        None \<Rightarrow> Inl BadJSON
      | Some params \<Rightarrow>
          (case find (\<lambda>(code, n). code = tapeUsageParamSuspendedWrites) params of
             None \<Rightarrow> Inr (0, False) | Some (_, n) \<Rightarrow> Inr (n, True)))"

text \<open>\<open>run page\<close> is \<open>sg_logs\<close> for a page; a drive without the usage page reports not measured.\<close>

definition ReadLogPages ::
  "(string \<Rightarrow> 'z \<Rightarrow> ('e + string) \<times> 'z) \<Rightarrow> ('z \<Rightarrow> bool \<times> 'z) \<Rightarrow> (string \<Rightarrow> (int \<times> string \<times> int) list option) \<Rightarrow>
     (string \<Rightarrow> (int \<times> int) list option) \<Rightarrow> 'z \<Rightarrow> ('e log_error + LogPageResult) \<times> 'z" where
  "ReadLogPages run wait alertJSON usageJSON z =
     (case runSgLogs (run ''0x2e'') wait z of
        (Inl e, z1) \<Rightarrow> (Inl (SgLogsFailed e), z1)
      | (Inr out, z1) \<Rightarrow>
          (case parseTapeAlert alertJSON out of
             Inl e \<Rightarrow> (Inl e, z1)
           | Inr flags \<Rightarrow>
               (case runSgLogs (run ''0x30'') wait z1 of
                  (Inl _, z2) \<Rightarrow> (Inr \<lparr> lpr_TapeAlert = flags, lpr_Repositions = 0, lpr_RepositionsMeasured = False \<rparr>, z2)
                | (Inr out2, z2) \<Rightarrow>
                    (case parseTapeUsage usageJSON out2 of
                       Inl e \<Rightarrow> (Inl e, z2)
                     | Inr (n, measured) \<Rightarrow>
                         (Inr \<lparr> lpr_TapeAlert = flags, lpr_Repositions = n, lpr_RepositionsMeasured = measured \<rparr>, z2)))))"

section \<open>No device data panics\<close>

lemma Contains_nonempty: "Contains s sub \<Longrightarrow> sub \<noteq> [] \<Longrightarrow> s \<noteq> []"
  by (cases s) auto

lemma ltoGenerationFromProduct_total:
  "\<exists>g. ltoGenerationFromProduct product = Some g \<and> (g = unknownGeneration \<or> g \<in> {''LTO-5'', ''LTO-6'', ''LTO-7'', ''LTO-8'', ''LTO-9''})"
proof -
  have digits: "c \<in> {CHR ''5'', CHR ''6'', CHR ''7'', CHR ''8'', CHR ''9''}" if "CHR ''5'' \<le> c" "c \<le> CHR ''9''" for c
  proof -
    have "53 \<le> (of_char c :: nat)" "of_char c \<le> (57 :: nat)" using that by (simp_all add: less_eq_char_def)
    then have "of_char c = (53 :: nat) \<or> of_char c = (54 :: nat) \<or> of_char c = (55 :: nat) \<or> of_char c = (56 :: nat) \<or> of_char c = (57 :: nat)"
      by linarith
    then have "c = char_of (53 :: nat) \<or> c = char_of (54 :: nat) \<or> c = char_of (55 :: nat) \<or> c = char_of (56 :: nat) \<or> c = char_of (57 :: nat)"
      by (elim disjE) (auto dest: arg_cong[where f = "char_of :: nat \<Rightarrow> char"])
    moreover have "char_of (53 :: nat) = CHR ''5''" "char_of (54 :: nat) = CHR ''6''" "char_of (55 :: nat) = CHR ''7''"
      "char_of (56 :: nat) = CHR ''8''" "char_of (57 :: nat) = CHR ''9''"
      by (simp_all add: char_of_def bit_0)
    ultimately show ?thesis by auto
  qed
  have "\<not> Contains [] ''ULT3580-''" "\<not> Contains [] ''ULTRIUM-''" by simp_all
  then show ?thesis unfolding ltoGenerationFromProduct_def Let_def
    using digits by auto
qed

lemma asciiField_total: "\<exists>s. asciiField data offset n = Some s"
  by (auto simp: asciiField_def slice_def)

theorem drive_info_never_panics:
  "decodeStandardInquiry data \<noteq> None \<and> decodeUnitSerial data \<noteq> None \<and> densityCode data \<noteq> None
   \<and> ltoGenerationFromProduct product \<noteq> None \<and> fst (MediumGeneration testUnitReady sgModes z) \<noteq> None"
proof -
  have density: "densityCode d \<noteq> None" for d
  proof (cases "length d < 8")
    case False
    then obtain w where w: "be16 d 6 = Some w" using be16_ok[of 6 d] by auto
    have "8 < length d" if "w \<noteq> 0" "\<not> length d < 8 + unat w"
    proof -
      have "0 < unat w" using that(1) by (simp add: unat_gt_0)
      then show ?thesis using that(2) by linarith
    qed
    then show ?thesis using False w by (auto simp: densityCode_def Scsi.at_def)
  qed (simp add: densityCode_def)
  have "decodeStandardInquiry data \<noteq> None"
    using asciiField_total[of data] unfolding decodeStandardInquiry_def by (metis bind.bind_lunit option.distinct(1))
  moreover have "decodeUnitSerial data \<noteq> None"
    by (auto simp: decodeUnitSerial_def Scsi.at_def slice_def vpdPageLengthOffset_def vpdSerialOffset_def)
  moreover have "fst (MediumGeneration testUnitReady sgModes z) \<noteq> None"
    unfolding MediumGeneration_def
    by (cases "testUnitReady z"; cases "fst (testUnitReady z)"; cases "sgModes (snd (testUnitReady z))"; cases "fst (sgModes (snd (testUnitReady z)))")
      (simp_all add: density)
  moreover have "ltoGenerationFromProduct product \<noteq> None" using ltoGenerationFromProduct_total[of product] by auto
  ultimately show ?thesis using density by blast
qed

end
