(* ===== verification/Pipeline.thy ===== *)
theory Pipeline
  imports Prelude
begin

text \<open>
  The streaming pipeline of the Prepare phase (\<open>runPipeline\<close> and \<open>pipeStage\<close> of
  \<open>workflows/backup/prepare.go\<close>): tar, an optional zstd, age and Split run concurrently, joined by
  \<open>io.Pipe\<close>s, all but Split in an \<open>errgroup\<close>. The code of a stage is a parameter: in each of its
  states it offers the operations it is ready for. A stage around a child process reads and writes
  concurrently, so it may offer both.

  The model is a step relation. It shows that the pipeline never deadlocks and always ends, and that a
  pipeline that succeeds has computed the sequential composition of its stages.
\<close>

section \<open>Stages\<close>

text \<open>
  \<open>Read n r c\<close>: a read with a buffer of \<open>Suc n\<close> bytes goes on with \<open>r d\<close> when data arrives, with
  \<open>c None\<close> at end of file and with \<open>c (Some e)\<close> when the pipe was closed with an error. \<open>Write b k c\<close>: of
  a write of \<open>b\<close>, \<open>k m\<close> follows when the reader took \<open>m\<close> bytes, \<open>c e\<close> when it closed the pipe.
  \<open>Cancelled\<close> is ready when the context of the group is cancelled.
\<close>

datatype ('e, 'r, 's) operation =
  Internal 's
| Cancelled 's
| Read nat "string \<Rightarrow> 's" "'e option \<Rightarrow> 's"
| Write string "nat \<Rightarrow> 's" "'e \<Rightarrow> 's"
| Return "'e + 'r"

type_synonym ('e, 'r, 's) offers = "'s \<Rightarrow> ('e, 'r, 's) operation list"

datatype ('e, 'r, 's) stage = Running 's | Ended "'e + 'r"

definition ended :: "('e, 'r, 's) stage \<Rightarrow> bool" where
  "ended g \<longleftrightarrow> (case g of Ended _ \<Rightarrow> True | Running _ \<Rightarrow> False)"

lemma ended_simps [simp]: "ended (Ended x)" "\<not> ended (Running s)"
  by (simp_all add: ended_def)

lemma not_ended: "\<not> ended g \<longleftrightarrow> (\<exists>s. g = Running s)"
  by (cases g) simp_all

text \<open>
  The stages in order, the context of the group, its first error, and, as history, the bytes that
  went through the pipe after each stage.
\<close>

record ('e, 'r, 's) pipeline =
  pp_stages :: "('e, 'r, 's) stage list"
  pp_cancelled :: bool
  pp_groupErr :: "'e option"
  pp_sent :: "nat \<Rightarrow> string"

section \<open>Steps\<close>

text \<open>The error that a reader leaves to the writer: \<open>CloseWithError(nil)\<close> is \<open>io.ErrClosedPipe\<close>.\<close>

definition reader_error :: "'e \<Rightarrow> 'e + 'r \<Rightarrow> 'e" where
  "reader_error closedPipe x = (case x of Inl e \<Rightarrow> e | Inr _ \<Rightarrow> closedPipe)"

definition writer_error :: "'e + 'r \<Rightarrow> 'e option" where
  "writer_error x = (case x of Inl e \<Rightarrow> Some e | Inr _ \<Rightarrow> None)"

text \<open>
  A stage returns: its pipes are closed with its error. Every stage but the last is in the group,
  whose first error is kept and cancels the context.
\<close>

definition pipeStage_return :: "nat \<Rightarrow> 'e + 'r \<Rightarrow> ('e, 'r, 's) pipeline \<Rightarrow> ('e, 'r, 's) pipeline" where
  "pipeStage_return i x p =
     (let p' = p\<lparr> pp_stages := (pp_stages p)[i := Ended x] \<rparr> in
      case x of
        Inr _ \<Rightarrow> p'
      | Inl e \<Rightarrow>
          if Suc i < length (pp_stages p) \<and> pp_groupErr p = None
          then p'\<lparr> pp_groupErr := Some e, pp_cancelled := True \<rparr> else p')"

inductive pipe_step :: "'e \<Rightarrow> ('e, 'r, 's) offers \<Rightarrow> ('e, 'r, 's) pipeline \<Rightarrow> ('e, 'r, 's) pipeline \<Rightarrow> bool"
  for closedPipe :: 'e and offers :: "('e, 'r, 's) offers" where
  internal: "i < length (pp_stages p) \<Longrightarrow> pp_stages p ! i = Running s \<Longrightarrow> Internal s' \<in> set (offers s) \<Longrightarrow>
    pipe_step closedPipe offers p (p\<lparr> pp_stages := (pp_stages p)[i := Running s'] \<rparr>)"
| cancelled: "i < length (pp_stages p) \<Longrightarrow> pp_stages p ! i = Running s \<Longrightarrow> Cancelled s' \<in> set (offers s) \<Longrightarrow>
    pp_cancelled p \<Longrightarrow> pipe_step closedPipe offers p (p\<lparr> pp_stages := (pp_stages p)[i := Running s'] \<rparr>)"
| returns: "i < length (pp_stages p) \<Longrightarrow> pp_stages p ! i = Running s \<Longrightarrow> Return x \<in> set (offers s) \<Longrightarrow>
    pipe_step closedPipe offers p (pipeStage_return i x p)"
| transfer: "Suc i < length (pp_stages p) \<Longrightarrow> pp_stages p ! i = Running s \<Longrightarrow> pp_stages p ! Suc i = Running t \<Longrightarrow>
    Write b k c \<in> set (offers s) \<Longrightarrow> Read n r c' \<in> set (offers t) \<Longrightarrow> m = min (Suc n) (length b) \<Longrightarrow>
    pipe_step closedPipe offers p
      (p\<lparr> pp_stages := (pp_stages p)[i := Running (k m), Suc i := Running (r (take m b))],
         pp_sent := (pp_sent p)(i := pp_sent p i @ take m b) \<rparr>)"
| read_end: "Suc i < length (pp_stages p) \<Longrightarrow> pp_stages p ! i = Ended x \<Longrightarrow> pp_stages p ! Suc i = Running t \<Longrightarrow>
    Read n r c \<in> set (offers t) \<Longrightarrow>
    pipe_step closedPipe offers p (p\<lparr> pp_stages := (pp_stages p)[Suc i := Running (c (writer_error x))] \<rparr>)"
| write_closed: "Suc i < length (pp_stages p) \<Longrightarrow> pp_stages p ! i = Running s \<Longrightarrow> pp_stages p ! Suc i = Ended x \<Longrightarrow>
    Write b k c \<in> set (offers s) \<Longrightarrow>
    pipe_step closedPipe offers p (p\<lparr> pp_stages := (pp_stages p)[i := Running (c (reader_error closedPipe x))] \<rparr>)"

text \<open>The run may be cancelled from outside at any time.\<close>

definition cancel_run :: "('e, 'r, 's) pipeline \<Rightarrow> ('e, 'r, 's) pipeline" where
  "cancel_run p = p\<lparr> pp_cancelled := True \<rparr>"

inductive reaches :: "'e \<Rightarrow> ('e, 'r, 's) offers \<Rightarrow> ('e, 'r, 's) pipeline \<Rightarrow> ('e, 'r, 's) pipeline \<Rightarrow> bool"
  for closedPipe :: 'e and offers :: "('e, 'r, 's) offers" and p0 :: "('e, 'r, 's) pipeline" where
  start: "reaches closedPipe offers p0 p0"
| cancels: "reaches closedPipe offers p0 p \<Longrightarrow> reaches closedPipe offers p0 (cancel_run p)"
| steps: "reaches closedPipe offers p0 p \<Longrightarrow> pipe_step closedPipe offers p p' \<Longrightarrow> reaches closedPipe offers p0 p'"

definition started :: "'s list \<Rightarrow> ('e, 'r, 's) pipeline" where
  "started ss = \<lparr> pp_stages = map Running ss, pp_cancelled = False, pp_groupErr = None, pp_sent = (\<lambda>_. []) \<rparr>"

text \<open>What \<open>runPipeline\<close> returns once every stage has ended: the first error of the group, or that of Split.\<close>

datatype 'e pipeline_error = BadSliceSize int | GroupErr 'e | SplitErr 'e | StillRunning

definition pipeline_result :: "('e, 'r, 's) pipeline \<Rightarrow> 'e pipeline_error + 'r" where
  "pipeline_result p =
     (case pp_groupErr p of
        Some e \<Rightarrow> Inl (GroupErr e)
      | None \<Rightarrow>
          (case last (pp_stages p) of
             Ended (Inl e) \<Rightarrow> Inl (SplitErr e)
           | Ended (Inr r) \<Rightarrow> Inr r
           | Running _ \<Rightarrow> Inl StillRunning))"

text \<open>The stages of \<open>runPipeline\<close>; zstd only runs when the archive is compressed.\<close>

definition pipeline_stages :: "bool \<Rightarrow> 's \<Rightarrow> 's \<Rightarrow> 's \<Rightarrow> 's \<Rightarrow> 's list" where
  "pipeline_stages compress tar zstd age split =
     tar # (if compress then [zstd] else []) @ [age, split]"

section \<open>One stage on its own\<close>

text \<open>What a stage can have done: the bytes it has read, those it has written, and its state.\<close>

inductive stage_run :: "('e, 'r, 's) offers \<Rightarrow> 's \<Rightarrow> string \<Rightarrow> string \<Rightarrow> 's \<Rightarrow> bool"
  for offers :: "('e, 'r, 's) offers" and s0 :: 's where
  begins: "stage_run offers s0 [] [] s0"
| does: "stage_run offers s0 inp out s \<Longrightarrow> Internal s' \<in> set (offers s) \<or> Cancelled s' \<in> set (offers s) \<Longrightarrow>
    stage_run offers s0 inp out s'"
| reads: "stage_run offers s0 inp out s \<Longrightarrow> Read n r c \<in> set (offers s) \<Longrightarrow> length d \<le> Suc n \<Longrightarrow>
    stage_run offers s0 (inp @ d) out (r d)"
| read_ends: "stage_run offers s0 inp out s \<Longrightarrow> Read n r c \<in> set (offers s) \<Longrightarrow> stage_run offers s0 inp out (c e)"
| writes: "stage_run offers s0 inp out s \<Longrightarrow> Write b k c \<in> set (offers s) \<Longrightarrow> m \<le> length b \<Longrightarrow>
    stage_run offers s0 inp (out @ take m b) (k m)"
| write_fails: "stage_run offers s0 inp out s \<Longrightarrow> Write b k c \<in> set (offers s) \<Longrightarrow> stage_run offers s0 inp out (c e)"

definition offers_read :: "('e, 'r, 's) offers \<Rightarrow> 's \<Rightarrow> bool" where
  "offers_read offers s \<longleftrightarrow> (\<exists>n r c. Read n r c \<in> set (offers s))"

definition offers_write :: "('e, 'r, 's) offers \<Rightarrow> 's \<Rightarrow> bool" where
  "offers_write offers s \<longleftrightarrow> (\<exists>b k c. Write b k c \<in> set (offers s))"

definition busy :: "('e, 'r, 's) operation \<Rightarrow> bool" where
  "busy x \<longleftrightarrow> (case x of Cancelled _ \<Rightarrow> False | _ \<Rightarrow> True)"

text \<open>
  The code of a pipeline: no stage waits for nothing but a cancellation, the first has nothing to read
  from and the last nothing to write to.
\<close>

definition well_joined :: "('e, 'r, 's) offers \<Rightarrow> 's list \<Rightarrow> bool" where
  "well_joined offers ss \<longleftrightarrow> ss \<noteq> []
     \<and> (\<forall>s0 \<in> set ss. \<forall>inp out s. stage_run offers s0 inp out s \<longrightarrow> (\<exists>x \<in> set (offers s). busy x))
     \<and> (\<forall>inp out s. stage_run offers (hd ss) inp out s \<longrightarrow> \<not> offers_read offers s)
     \<and> (\<forall>inp out s. stage_run offers (last ss) inp out s \<longrightarrow> \<not> offers_write offers s)"

text \<open>The steps of a stage other than receiving data.\<close>

inductive quiet :: "('e, 'r, 's) offers \<Rightarrow> 's \<Rightarrow> 's \<Rightarrow> bool" for offers :: "('e, 'r, 's) offers" where
  "Internal s' \<in> set (offers s) \<Longrightarrow> quiet offers s s'"
| "Cancelled s' \<in> set (offers s) \<Longrightarrow> quiet offers s s'"
| "Read n r c \<in> set (offers s) \<Longrightarrow> quiet offers s (c e)"
| "Write b k c \<in> set (offers s) \<Longrightarrow> m \<le> length b \<Longrightarrow> 0 < m \<or> b = [] \<Longrightarrow> quiet offers s (k m)"
| "Write b k c \<in> set (offers s) \<Longrightarrow> quiet offers s (c e)"

section \<open>Every stage of a pipeline runs its own code\<close>

definition input_of :: "('e, 'r, 's) pipeline \<Rightarrow> nat \<Rightarrow> string" where
  "input_of p i = (case i of 0 \<Rightarrow> [] | Suc j \<Rightarrow> pp_sent p j)"

lemma input_of_simps [simp]:
  "input_of p 0 = []" "input_of p (Suc i) = pp_sent p i"
  "input_of (p\<lparr> pp_stages := gs \<rparr>) = input_of p"
  "input_of (p\<lparr> pp_cancelled := c \<rparr>) = input_of p"
  "input_of (p\<lparr> pp_groupErr := e \<rparr>) = input_of p"
  by (auto simp: input_of_def split: nat.split)

definition on_its_own :: "('e, 'r, 's) offers \<Rightarrow> 's \<Rightarrow> string \<Rightarrow> string \<Rightarrow> ('e, 'r, 's) stage \<Rightarrow> bool" where
  "on_its_own offers s0 inp out g \<longleftrightarrow>
     (\<exists>s. stage_run offers s0 inp out s \<and> (case g of Running s' \<Rightarrow> s' = s | Ended x \<Rightarrow> Return x \<in> set (offers s)))"

lemma on_its_own_Running [simp]: "on_its_own offers s0 inp out (Running s) \<longleftrightarrow> stage_run offers s0 inp out s"
  by (auto simp: on_its_own_def)

lemma on_its_own_Ended:
  "on_its_own offers s0 inp out (Ended x) \<longleftrightarrow> (\<exists>s. stage_run offers s0 inp out s \<and> Return x \<in> set (offers s))"
  by (simp add: on_its_own_def)

definition pipe_ok :: "('e, 'r, 's) offers \<Rightarrow> 's list \<Rightarrow> ('e, 'r, 's) pipeline \<Rightarrow> bool" where
  "pipe_ok offers ss p \<longleftrightarrow> length (pp_stages p) = length ss
     \<and> (\<forall>i < length ss. on_its_own offers (ss ! i) (input_of p i) (pp_sent p i) (pp_stages p ! i))
     \<and> (pp_groupErr p = None \<longrightarrow> (\<forall>i e. Suc i < length ss \<longrightarrow> pp_stages p ! i \<noteq> Ended (Inl e)))"

lemma pipe_ok_own:
  assumes "pipe_ok offers ss p" "i < length ss" "pp_stages p ! i = Running s"
  shows "stage_run offers (ss ! i) (input_of p i) (pp_sent p i) s"
  using assms unfolding pipe_ok_def by (metis on_its_own_Running)

lemma pipe_ok_local:
  assumes "pipe_ok offers ss p" "i < length ss"
    and "on_its_own offers (ss ! i) (input_of p i) (pp_sent p i) g"
    and "pp_groupErr p = None \<Longrightarrow> Suc i < length ss \<Longrightarrow> \<forall>e. g \<noteq> Ended (Inl e)"
  shows "pipe_ok offers ss (p\<lparr> pp_stages := (pp_stages p)[i := g] \<rparr>)"
  using assms by (auto simp: pipe_ok_def nth_list_update)

lemma pipe_ok_flags: "pipe_ok offers ss p \<Longrightarrow> pipe_ok offers ss (p\<lparr> pp_cancelled := c \<rparr>)"
  by (auto simp: pipe_ok_def)

lemma pipe_ok_transfer:
  assumes ok: "pipe_ok offers ss p" and i: "Suc i < length ss"
    and "pp_stages p ! i = Running s" "pp_stages p ! Suc i = Running t"
    and "Write b k c \<in> set (offers s)" "Read n r c' \<in> set (offers t)" "m = min (Suc n) (length b)"
  shows "pipe_ok offers ss (p\<lparr> pp_stages := (pp_stages p)[i := Running (k m), Suc i := Running (r (take m b))],
         pp_sent := (pp_sent p)(i := pp_sent p i @ take m b) \<rparr>)"
proof -
  have "stage_run offers (ss ! i) (input_of p i) (pp_sent p i) s"
    "stage_run offers (ss ! Suc i) (pp_sent p i) (pp_sent p (Suc i)) t"
    using pipe_ok_own [OF ok _ assms(3)] pipe_ok_own [OF ok i assms(4)] i by simp_all
  then have "stage_run offers (ss ! i) (input_of p i) (pp_sent p i @ take m b) (k m)"
    "stage_run offers (ss ! Suc i) (pp_sent p i @ take m b) (pp_sent p (Suc i)) (r (take m b))"
    using assms(5-7) by (auto intro: stage_run.intros)
  then show ?thesis using ok i
    by (auto simp: pipe_ok_def nth_list_update input_of_def split: nat.split)
qed

lemma pipe_ok_returns:
  assumes ok: "pipe_ok offers ss p" and i: "i < length ss" and "pp_stages p ! i = Running s" "Return x \<in> set (offers s)"
  shows "pipe_ok offers ss (pipeStage_return i x p)"
proof -
  have own: "on_its_own offers (ss ! i) (input_of p i) (pp_sent p i) (Ended x)"
    using pipe_ok_own [OF ok i assms(3)] assms(4) by (auto simp: on_its_own_Ended)
  have len: "length (pp_stages p) = length ss" using ok by (simp add: pipe_ok_def)
  show ?thesis
  proof (cases x)
    case (Inr r)
    then show ?thesis using pipe_ok_local [OF ok i own] by (simp add: pipeStage_return_def Let_def)
  next
    case (Inl e)
    then show ?thesis using ok own i len
      by (auto simp: pipeStage_return_def Let_def pipe_ok_def nth_list_update)
  qed
qed

lemma pipe_ok_step:
  assumes "pipe_step closedPipe offers p p'" and ok: "pipe_ok offers ss p"
  shows "pipe_ok offers ss p'"
proof -
  have len: "length (pp_stages p) = length ss" using ok by (simp add: pipe_ok_def)
  have own: "stage_run offers (ss ! i) (input_of p i) (pp_sent p i) s" if "i < length ss" "pp_stages p ! i = Running s" for i s
    using pipe_ok_own [OF ok that] .
  show ?thesis using assms(1)
  proof cases
    case (internal i s s')
    then show ?thesis using len own [of i s] pipe_ok_local [OF ok, of i "Running s'"] by (auto intro: stage_run.intros)
  next
    case (cancelled i s s')
    then show ?thesis using len own [of i s] pipe_ok_local [OF ok, of i "Running s'"] by (auto intro: stage_run.intros)
  next
    case (returns i s x)
    then show ?thesis using len pipe_ok_returns [OF ok, of i s x] by simp
  next
    case (transfer i s t b k c n r c' m)
    then show ?thesis using len pipe_ok_transfer [OF ok, of i s t b k c n r c' m] by simp
  next
    case (read_end i x t n r c)
    then show ?thesis using len own [of "Suc i" t] pipe_ok_local [OF ok, of "Suc i" "Running (c (writer_error x))"]
      by (auto intro: stage_run.intros)
  next
    case (write_closed i s x b k c)
    then show ?thesis using len own [of i s] pipe_ok_local [OF ok, of i "Running (c (reader_error closedPipe x))"]
      by (auto intro: stage_run.intros)
  qed
qed

lemma pipe_ok_reaches: "reaches closedPipe offers (started ss) p \<Longrightarrow> pipe_ok offers ss p"
proof (induction rule: reaches.induct)
  case start
  then show ?case by (auto simp: pipe_ok_def started_def input_of_def intro: stage_run.begins split: nat.split)
next
  case (cancels p)
  then show ?case by (simp add: cancel_run_def pipe_ok_flags)
next
  case (steps p p')
  then show ?case by (blast intro: pipe_ok_step)
qed

section \<open>No deadlock\<close>

lemma stuck_stage:
  assumes stuck: "\<not> (\<exists>p'. pipe_step closedPipe offers p p')"
    and i: "i < length (pp_stages p)" "pp_stages p ! i = Running s" and busy: "\<exists>x \<in> set (offers s). busy x"
  shows "offers_read offers s \<or> offers_write offers s"
proof -
  obtain x where x: "x \<in> set (offers s)" "busy x" using busy by blast
  have "\<not> (\<exists>s'. x = Internal s')" using stuck i x(1) pipe_step.internal [of i p s] by blast
  moreover have "\<not> (\<exists>y. x = Return y)" using stuck i x(1) pipe_step.returns [of i p s] by blast
  ultimately show ?thesis using x by (cases x) (auto simp: busy_def offers_read_def offers_write_def)
qed

text \<open>A stuck reader waits for a stage that runs and does not write, a stuck writer for one that does not read.\<close>

lemma stuck_reader:
  assumes stuck: "\<not> (\<exists>p'. pipe_step closedPipe offers p p')"
    and i: "Suc i < length (pp_stages p)" "pp_stages p ! Suc i = Running t" "offers_read offers t"
  obtains s where "pp_stages p ! i = Running s" "\<not> offers_write offers s"
proof -
  obtain n r c where o: "Read n r c \<in> set (offers t)" using i(3) by (auto simp: offers_read_def)
  have "\<not> (\<exists>x. pp_stages p ! i = Ended x)" using stuck pipe_step.read_end [where offers = offers, OF i(1) _ i(2) o] by blast
  then obtain s where s: "pp_stages p ! i = Running s" by (cases "pp_stages p ! i") auto
  have "\<not> offers_write offers s"
  proof
    assume "offers_write offers s"
    then obtain b k c' where "Write b k c' \<in> set (offers s)" by (auto simp: offers_write_def)
    then show False using stuck pipe_step.transfer [where offers = offers, OF i(1) s i(2) _ o refl] by blast
  qed
  then show thesis using that s by blast
qed

lemma stuck_writer:
  assumes stuck: "\<not> (\<exists>p'. pipe_step closedPipe offers p p')"
    and i: "Suc i < length (pp_stages p)" "pp_stages p ! i = Running s" "offers_write offers s"
  obtains t where "pp_stages p ! Suc i = Running t" "\<not> offers_read offers t"
proof -
  obtain b k c where o: "Write b k c \<in> set (offers s)" using i(3) by (auto simp: offers_write_def)
  have "\<not> (\<exists>x. pp_stages p ! Suc i = Ended x)" using stuck pipe_step.write_closed [where offers = offers, OF i(1,2) _ o] by blast
  then obtain t where t: "pp_stages p ! Suc i = Running t" by (cases "pp_stages p ! Suc i") auto
  have "\<not> offers_read offers t"
  proof
    assume "offers_read offers t"
    then obtain n r c' where "Read n r c' \<in> set (offers t)" by (auto simp: offers_read_def)
    then show False using stuck pipe_step.transfer [where offers = offers, OF i(1,2) t o _ refl] by blast
  qed
  then show thesis using that t by blast
qed

lemma well_joined_busy:
  "well_joined offers ss \<Longrightarrow> i < length ss \<Longrightarrow> stage_run offers (ss ! i) inp out s \<Longrightarrow> \<exists>x \<in> set (offers s). busy x"
  unfolding well_joined_def by (metis nth_mem)

lemma no_stuck_reader:
  assumes wj: "well_joined offers ss" and ok: "pipe_ok offers ss p" and stuck: "\<not> (\<exists>p'. pipe_step closedPipe offers p p')"
  shows "i < length ss \<Longrightarrow> pp_stages p ! i = Running s \<Longrightarrow> \<not> offers_read offers s"
proof (induction i arbitrary: s)
  case 0
  then have "stage_run offers (hd ss) (input_of p 0) (pp_sent p 0) s"
    using pipe_ok_own [OF ok, of 0 s] by (simp add: hd_conv_nth)
  then show ?case using wj unfolding well_joined_def by blast
next
  case (Suc i)
  have len: "length (pp_stages p) = length ss" using ok by (simp add: pipe_ok_def)
  show ?case
  proof
    assume "offers_read offers s"
    then obtain s' where s': "pp_stages p ! i = Running s'" "\<not> offers_write offers s'"
      using stuck_reader [OF stuck, of i s] Suc.prems len by auto
    then have "\<exists>x \<in> set (offers s'). busy x"
      using well_joined_busy [OF wj _ pipe_ok_own [OF ok _ s'(1)]] Suc.prems(1) by simp
    then show False using stuck_stage [OF stuck _ s'(1)] Suc s' len by auto
  qed
qed

lemma no_stuck_writer:
  assumes wj: "well_joined offers ss" and ok: "pipe_ok offers ss p" and stuck: "\<not> (\<exists>p'. pipe_step closedPipe offers p p')"
  shows "i < length ss \<Longrightarrow> pp_stages p ! i = Running s \<Longrightarrow> \<not> offers_write offers s"
proof (induction "length ss - i" arbitrary: i s)
  case (Suc n)
  have len: "length (pp_stages p) = length ss" using ok by (simp add: pipe_ok_def)
  have "\<not> offers_write offers s" if "Suc i = length ss"
  proof -
    have "ss \<noteq> []" using Suc.prems(1) by auto
    then have "last ss = ss ! i" by (simp add: last_conv_nth flip: that)
    then show ?thesis using wj pipe_ok_own [OF ok Suc.prems] unfolding well_joined_def by auto
  qed
  moreover have "\<not> offers_write offers s" if i: "Suc i < length ss"
  proof
    assume "offers_write offers s"
    then obtain t where t: "pp_stages p ! Suc i = Running t" "\<not> offers_read offers t"
      using stuck_writer [OF stuck, of i s] Suc.prems i len by auto
    have "\<not> offers_write offers t" using Suc.hyps(1) [of "Suc i" t] Suc.hyps(2) i t(1) by linarith
    then show False
      using stuck_stage [OF stuck _ t(1) well_joined_busy [OF wj i pipe_ok_own [OF ok i t(1)]]] t(2) i len by simp
  qed
  ultimately show ?case using Suc.prems(1) by linarith
qed simp

lemma pipeline_not_stuck:
  assumes "well_joined offers ss" "pipe_ok offers ss p"
  shows "(\<forall>g \<in> set (pp_stages p). ended g) \<or> (\<exists>p'. pipe_step closedPipe offers p p')"
proof (rule disjCI)
  assume stuck: "\<not> (\<exists>p'. pipe_step closedPipe offers p p')"
  have len: "length (pp_stages p) = length ss" using assms(2) by (simp add: pipe_ok_def)
  show "\<forall>g \<in> set (pp_stages p). ended g"
  proof
    fix g assume "g \<in> set (pp_stages p)"
    then obtain i where i: "i < length ss" "pp_stages p ! i = g" using len by (auto simp: in_set_conv_nth)
    show "ended g"
    proof (rule ccontr)
      assume "\<not> ended g"
      then obtain s where s: "pp_stages p ! i = Running s" using i(2) by (auto simp: not_ended)
      then show False
        using stuck_stage [OF stuck _ s well_joined_busy [OF assms(1) i(1) pipe_ok_own [OF assms(2) i(1) s]]]
          no_stuck_reader [OF assms stuck i(1) s] no_stuck_writer [OF assms stuck i(1) s] i(1) len by simp
    qed
  qed
qed

section \<open>Termination\<close>

text \<open>A running stage may take quiet steps and end; the stages are compared lexicographically.\<close>

definition stage_rel :: "('e, 'r, 's) offers \<Rightarrow> (('e, 'r, 's) stage \<times> ('e, 'r, 's) stage) set" where
  "stage_rel offers = {(g', g). \<exists>s. g = Running s \<and> (case g' of Ended _ \<Rightarrow> True | Running s' \<Rightarrow> quiet offers s s')}"

lemma stage_rel_simps [simp]:
  "(Ended x, Running s) \<in> stage_rel offers"
  "(Running s', Running s) \<in> stage_rel offers \<longleftrightarrow> quiet offers s s'"
  "(g, Ended x) \<notin> stage_rel offers"
  by (simp_all add: stage_rel_def)

lemma wf_stage_rel:
  fixes offers :: "('e, 'r, 's) offers"
  assumes "wf {(s', s). quiet offers s s'}"
  shows "wf (stage_rel offers)"
proof (rule wfUNIVI)
  fix P :: "('e, 'r, 's) stage \<Rightarrow> bool" and g
  assume step: "\<forall>g. (\<forall>g'. (g', g) \<in> stage_rel offers \<longrightarrow> P g') \<longrightarrow> P g"
  have e: "P (Ended x)" for x using step by simp
  have "P (Running s)" for s
    using assms
  proof (induction s rule: wf_induct_rule)
    case (less s)
    have "P g'" if "(g', Running s) \<in> stage_rel offers" for g'
      using that less e by (cases g') auto
    then show ?case using step by blast
  qed
  then show "P g" using e by (cases g) auto
qed

lemma lex_update:
  assumes "i < length gs" "(g, gs ! i) \<in> R"
  shows "(gs[i := g], gs) \<in> lex R"
proof -
  have "gs = take i gs @ gs ! i # drop (Suc i) gs" using assms(1) by (simp add: id_take_nth_drop)
  moreover have "gs[i := g] = take i gs @ g # drop (Suc i) gs" using assms(1) by (simp add: upd_conv_take_nth_drop)
  ultimately show ?thesis using assms unfolding lex_conv by fastforce
qed

lemma lex_update2:
  assumes "Suc i < length gs" "(g, gs ! i) \<in> R"
  shows "(gs[i := g, Suc i := h], gs) \<in> lex R"
proof -
  have "gs = take i gs @ gs ! i # gs ! Suc i # drop (Suc (Suc i)) gs"
    using assms(1) by (metis Cons_nth_drop_Suc Suc_lessD id_take_nth_drop)
  moreover have "gs[i := g, Suc i := h] = take i gs @ g # h # drop (Suc (Suc i)) gs"
    using assms(1) by (intro nth_equalityI) (auto simp: nth_append nth_list_update nth_Cons split: nat.split intro!: arg_cong [where f = "(!) gs"])
  ultimately show ?thesis using assms unfolding lex_conv
    by (smt (verit) case_prodI length_Cons length_append mem_Collect_eq)
qed

lemma pipe_step_decreases:
  assumes "pipe_step closedPipe offers p p'"
  shows "(pp_stages p', pp_stages p) \<in> lex (stage_rel offers)"
  using assms
proof cases
  case (transfer i s t b k c n r c' m)
  have "0 < m \<or> b = []" "m \<le> length b" using transfer by auto
  then have "quiet offers s (k m)" using quiet.intros(4) [of b k c offers s m] transfer by blast
  then show ?thesis using transfer by (simp add: lex_update2)
qed (auto simp: pipeStage_return_def Let_def split: sum.split intro!: lex_update intro: quiet.intros)

text \<open>Whatever the interleaving, and whenever the run is cancelled, only finitely many steps are made.\<close>

definition pipe_run :: "'e \<Rightarrow> ('e, 'r, 's) offers \<Rightarrow> (nat \<Rightarrow> ('e, 'r, 's) pipeline) \<Rightarrow> bool" where
  "pipe_run closedPipe offers f \<longleftrightarrow> (\<forall>n. f (Suc n) = cancel_run (f n) \<or> pipe_step closedPipe offers (f n) (f (Suc n)))"

lemma pipe_run_finite:
  assumes wf: "wf {(s', s). quiet offers s s'}" and run: "pipe_run closedPipe offers f"
  shows "finite {n. pipe_step closedPipe offers (f n) (f (Suc n))}"
proof -
  define R where "R = lex (stage_rel offers)"
  let ?g = "\<lambda>n. pp_stages (f n)"
  have wfR: "wf R" using wf_stage_rel [OF wf] unfolding R_def by blast
  have dec: "(?g (Suc n), ?g n) \<in> R" if "pipe_step closedPipe offers (f n) (f (Suc n))" for n
    using pipe_step_decreases [OF that] by (simp add: R_def)
  have le: "(?g (n + k), ?g n) \<in> R\<^sup>*" for n k
  proof (induction k)
    case (Suc k)
    have "?g (Suc (n + k)) = ?g (n + k) \<or> (?g (Suc (n + k)), ?g (n + k)) \<in> R"
    proof (cases "pipe_step closedPipe offers (f (n + k)) (f (Suc (n + k)))")
      case False
      then have "f (Suc (n + k)) = cancel_run (f (n + k))" using run unfolding pipe_run_def by blast
      then show ?thesis by (simp add: cancel_run_def)
    qed (use dec in blast)
    then show ?case using Suc converse_rtrancl_into_rtrancl [of "?g (Suc (n + k))" "?g (n + k)" R "?g n"] by auto
  qed simp
  obtain z where z: "z \<in> range ?g" "\<And>y. (y, z) \<in> R\<^sup>+ \<Longrightarrow> y \<notin> range ?g"
    using wfE_min [OF wf_trancl [OF wfR], of "?g 0" "range ?g"] by blast
  then obtain n where n: "\<And>m. (?g m, ?g n) \<notin> R\<^sup>+" by blast
  have "{m. pipe_step closedPipe offers (f m) (f (Suc m))} \<subseteq> {..<n}"
  proof (rule subsetI, rule ccontr)
    fix m assume m: "m \<in> {m. pipe_step closedPipe offers (f m) (f (Suc m))}" "m \<notin> {..<n}"
    then have "(?g (Suc m), ?g m) \<in> R" using dec by blast
    moreover have "(?g m, ?g n) \<in> R\<^sup>*" using le [of n "m - n"] m(2) by simp
    ultimately show False using n [of "Suc m"] by (meson rtrancl_into_trancl2)
  qed
  then show ?thesis by (rule finite_subset) simp
qed

text \<open>C31:
  The staging pipeline never deadlocks and always ends. Whatever the stages do and however their reads,
  writes, failures and a cancellation interleave: as long as a stage still runs some stage can go on, and
  only finitely many steps are made. A failed stage releases its neighbours by closing both its pipes.\<close>

theorem pipeline_always_ends:
  assumes "well_joined offers ss" and "wf {(s', s). quiet offers s s'}"
  shows "(\<forall>p. reaches closedPipe offers (started ss) p \<longrightarrow>
            (\<forall>g \<in> set (pp_stages p). ended g) \<or> (\<exists>p'. pipe_step closedPipe offers p p'))
       \<and> (\<forall>f. pipe_run closedPipe offers f \<longrightarrow> finite {n. pipe_step closedPipe offers (f n) (f (Suc n))})"
  using pipeline_not_stuck [OF assms(1) pipe_ok_reaches] pipe_run_finite [OF assms(2)] by blast

section \<open>The composition\<close>

text \<open>
  What is known of a stage that returns without error: a relation of the bytes it read, those it
  wrote, and its result.
\<close>

definition delivers :: "('e, 'r, 's) offers \<Rightarrow> 's \<Rightarrow> (string \<Rightarrow> string \<Rightarrow> 'r \<Rightarrow> bool) \<Rightarrow> bool" where
  "delivers offers s0 F \<longleftrightarrow> (\<forall>inp out s r. stage_run offers s0 inp out s \<longrightarrow> Return (Inr r) \<in> set (offers s) \<longrightarrow> F inp out r)"

lemma pipeline_delivered:
  assumes ok: "pipe_ok offers ss p" and res: "pipeline_result p = Inr r"
    and all: "\<forall>g \<in> set (pp_stages p). ended g" and i: "i < length ss"
  shows "\<exists>r'. pp_stages p ! i = Ended (Inr r') \<and> (Suc i = length ss \<longrightarrow> r' = r)"
proof -
  have len: "length (pp_stages p) = length ss" using ok by (simp add: pipe_ok_def)
  have "pp_stages p \<noteq> []" using i len by auto
  then have l: "last (pp_stages p) = pp_stages p ! (length ss - 1)" by (simp add: last_conv_nth len)
  have none: "pp_groupErr p = None" and lr: "last (pp_stages p) = Ended (Inr r)"
    using res by (auto simp: pipeline_result_def split: option.splits stage.splits sum.splits)
  show ?thesis
  proof (cases "Suc i = length ss")
    case True
    then have "length ss - 1 = i" by simp
    then have "pp_stages p ! i = Ended (Inr r)" using l lr by metis
    then show ?thesis by blast
  next
    case False
    have "ended (pp_stages p ! i)" using all i len by simp
    then obtain x where x: "pp_stages p ! i = Ended x" by (cases "pp_stages p ! i") auto
    moreover have "\<forall>e. x \<noteq> Inl e" using ok none False i x unfolding pipe_ok_def by auto
    ultimately show ?thesis using False by (cases x) auto
  qed
qed

text \<open>C32:
  When \<open>runPipeline\<close> returns slices, they are those Split makes of what age makes of the archive, compressed
  if asked for: the concurrent pipeline, its partial reads, buffers and interleavings included, is the
  sequential composition of its stages. Nothing is lost, repeated or reordered between two stages.\<close>

theorem pipeline_composes:
  assumes "reaches closedPipe offers (started (pipeline_stages compress tar zstd age split)) p"
    and "\<forall>g \<in> set (pp_stages p). ended g" and "pipeline_result p = Inr slices"
    and "delivers offers tar (\<lambda>_ out _. Tar out)" and "delivers offers zstd (\<lambda>inp out _. Zstd inp out)"
    and "delivers offers age (\<lambda>inp out _. Age inp out)" and "delivers offers split (\<lambda>inp _ r. Sliced inp r)"
  shows "\<exists>archive input encrypted. Tar archive \<and> (if compress then Zstd archive input else input = archive)
     \<and> Age input encrypted \<and> Sliced encrypted slices"
proof -
  let ?ss = "pipeline_stages compress tar zstd age split"
  have ok: "pipe_ok offers ?ss p" by (rule pipe_ok_reaches [OF assms(1)])
  have stage: "\<exists>r. F (input_of p i) (pp_sent p i) r \<and> (Suc i = length ?ss \<longrightarrow> r = slices)"
    if i: "i < length ?ss" and F: "delivers offers (?ss ! i) F" for i F
  proof -
    obtain r where r: "pp_stages p ! i = Ended (Inr r)" "Suc i = length ?ss \<longrightarrow> r = slices"
      using pipeline_delivered [OF ok assms(3,2) i] by blast
    then obtain s where "stage_run offers (?ss ! i) (input_of p i) (pp_sent p i) s" "Return (Inr r) \<in> set (offers s)"
      using ok i unfolding pipe_ok_def by (metis on_its_own_Ended)
    then show ?thesis using F r(2) unfolding delivers_def by blast
  qed
  show ?thesis
  proof (cases compress)
    case True
    have "Tar (pp_sent p 0)" "Zstd (pp_sent p 0) (pp_sent p 1)" "Age (pp_sent p 1) (pp_sent p 2)" "Sliced (pp_sent p 2) slices"
      using stage [of 0 "\<lambda>_ out _. Tar out"] stage [of 1 "\<lambda>inp out _. Zstd inp out"] stage [of 2 "\<lambda>inp out _. Age inp out"]
        stage [of 3 "\<lambda>inp _ r. Sliced inp r"] assms(4-7) True
      by (simp_all add: pipeline_stages_def input_of_def numeral_eq_Suc)
    then show ?thesis using True by auto
  next
    case False
    have "Tar (pp_sent p 0)" "Age (pp_sent p 0) (pp_sent p 1)" "Sliced (pp_sent p 1) slices"
      using stage [of 0 "\<lambda>_ out _. Tar out"] stage [of 1 "\<lambda>inp out _. Age inp out"]
        stage [of 2 "\<lambda>inp _ r. Sliced inp r"] assms(4,6,7) False
      by (simp_all add: pipeline_stages_def input_of_def numeral_eq_Suc)
    then show ?thesis using False by auto
  qed
qed

section \<open>A small pipeline\<close>

text \<open>A source, two stages that copy with a buffer of two bytes, and a sink that collects.\<close>

datatype demo = Emit string | Copying | Put string | Collect string | Finish string | Broken

definition after_write :: "string \<Rightarrow> demo \<Rightarrow> (string \<Rightarrow> demo) \<Rightarrow> nat \<Rightarrow> demo" where
  "after_write b finished again m = (if length b \<le> m then finished else again (drop m b))"

fun demo_offers :: "(unit, string, demo) offers" where
  "demo_offers (Emit b) = [Write b (after_write b (Finish []) Emit) (\<lambda>_. Broken)]"
| "demo_offers Copying = [Read 1 Put (\<lambda>e. if e = None then Finish [] else Broken), Cancelled Broken]"
| "demo_offers (Put b) = [Write b (after_write b Copying Put) (\<lambda>_. Broken), Cancelled Broken]"
| "demo_offers (Collect acc) = [Read 7 (\<lambda>d. Collect (acc @ d)) (\<lambda>e. if e = None then Finish acc else Broken)]"
| "demo_offers (Finish r) = [Return (Inr r)]"
| "demo_offers Broken = [Return (Inl ())]"

fun demo_size :: "demo \<Rightarrow> nat" where
  "demo_size (Emit b) = Suc (length b)"
| "demo_size Copying = 2"
| "demo_size (Put b) = 3 + length b"
| "demo_size (Collect _) = 2"
| "demo_size (Finish _) = 0"
| "demo_size Broken = 0"

lemma demo_wf: "wf {(s', s). quiet demo_offers s s'}"
proof (rule wf_subset [OF wf_measure [of demo_size]], clarify)
  fix s' s assume "quiet demo_offers s s'"
  then show "(s', s) \<in> measure demo_size" by (cases; cases s) (auto simp: after_write_def split: if_splits)
qed

definition demo_split :: "bool \<Rightarrow> demo list" where
  "demo_split compress = pipeline_stages compress (Emit ''abc'') Copying Copying (Collect [])"

lemma demo_emit: "stage_run demo_offers (Emit b) inp out s \<Longrightarrow>
    case s of Emit b' \<Rightarrow> out @ b' = b | Finish _ \<Rightarrow> out = b | Broken \<Rightarrow> True | _ \<Rightarrow> False"
  by (induction rule: stage_run.induct) (auto simp: after_write_def split: demo.splits if_splits)

lemma demo_copy: "stage_run demo_offers Copying inp out s \<Longrightarrow>
    case s of Copying \<Rightarrow> out = inp | Put b \<Rightarrow> out @ b = inp | Finish _ \<Rightarrow> out = inp | Broken \<Rightarrow> True | _ \<Rightarrow> False"
  by (induction rule: stage_run.induct) (auto simp: after_write_def split: demo.splits if_splits)

lemma demo_collect: "stage_run demo_offers (Collect []) inp out s \<Longrightarrow>
    case s of Collect acc \<Rightarrow> acc = inp | Finish acc \<Rightarrow> acc = inp | Broken \<Rightarrow> True | _ \<Rightarrow> False"
  by (induction rule: stage_run.induct) (auto simp: after_write_def split: demo.splits if_splits)

lemma demo_joined: "well_joined demo_offers (demo_split c)"
proof -
  have "\<exists>x \<in> set (demo_offers s). busy x" for s by (cases s) (auto simp: busy_def)
  moreover have "\<not> offers_read demo_offers s" if "stage_run demo_offers (Emit b) inp out s" for b inp out s
    using demo_emit [OF that] by (cases s) (auto simp: offers_read_def)
  moreover have "\<not> offers_write demo_offers s" if "stage_run demo_offers (Collect []) inp out s" for inp out s
    using demo_collect [OF that] by (cases s) (auto simp: offers_write_def)
  ultimately show ?thesis by (auto simp: well_joined_def demo_split_def pipeline_stages_def)
qed

theorem pipeline_always_ends_witness:
  "\<exists>p'. pipe_step () demo_offers (started (demo_split True)) p'"
proof -
  have "\<not> (\<forall>g \<in> set (pp_stages (started (demo_split True))). ended g)"
    by (simp add: started_def demo_split_def pipeline_stages_def)
  then show ?thesis
    using conjunct1 [OF pipeline_always_ends [OF demo_joined [of True] demo_wf], THEN spec, THEN mp, OF reaches.start] by blast
qed

lemma demo_delivers:
  "delivers demo_offers (Emit b) (\<lambda>_ out _. out = b)"
  "delivers demo_offers Copying (\<lambda>inp out _. out = inp)"
  "delivers demo_offers (Collect []) (\<lambda>inp _ r. r = inp)"
proof -
  have e: "s = Finish r" if "Return (Inr r) \<in> set (demo_offers s)" for s r using that by (cases s) auto
  show "delivers demo_offers (Emit b) (\<lambda>_ out _. out = b)"
    using demo_emit [of b] by (auto simp: delivers_def dest!: e) fastforce
  show "delivers demo_offers Copying (\<lambda>inp out _. out = inp)"
    using demo_copy by (auto simp: delivers_def dest!: e) fastforce
  show "delivers demo_offers (Collect []) (\<lambda>inp _ r. r = inp)"
    using demo_collect by (auto simp: delivers_def dest!: e) fastforce
qed

text \<open>One run, without compression, with a partial read.\<close>

definition demo_at :: "(unit, string, demo) stage list \<Rightarrow> string \<Rightarrow> string \<Rightarrow> (unit, string, demo) pipeline" where
  "demo_at gs a b = \<lparr> pp_stages = gs, pp_cancelled = False, pp_groupErr = None,
     pp_sent = (\<lambda>i. if i = 0 then a else if i = 1 then b else []) \<rparr>"

lemma demo_at_simps [simp]:
  "pp_stages (demo_at gs a b) = gs"
  "pp_sent (demo_at gs a b) 0 = a"
  "pp_sent (demo_at gs a b) (Suc 0) = b"
  "(demo_at gs a b)\<lparr> pp_stages := gs' \<rparr> = demo_at gs' a b"
  "(demo_at gs a b)\<lparr> pp_sent := (pp_sent (demo_at gs2 a b))(0 := x) \<rparr> = demo_at gs x b"
  "(demo_at gs a b)\<lparr> pp_sent := (pp_sent (demo_at gs2 a b))(Suc 0 := x) \<rparr> = demo_at gs a x"
  "(demo_at gs a b)\<lparr> pp_stages := gs', pp_sent := f \<rparr> = (demo_at gs a b)\<lparr> pp_sent := f, pp_stages := gs' \<rparr>"
  by (auto simp: demo_at_def fun_eq_iff)

lemma demo_transfer0:
  assumes "min (Suc 1) (length x) = m"
  shows "pipe_step () demo_offers (demo_at [Running (Emit x), Running Copying, g] a b)
     (demo_at [Running (after_write x (Finish []) Emit m), Running (Put (take m x)), g] (a @ take m x) b)"
  using pipe_step.transfer [of 0 "demo_at [Running (Emit x), Running Copying, g] a b" "Emit x" Copying x
      "after_write x (Finish []) Emit" "\<lambda>_. Broken" demo_offers 1 Put
      "\<lambda>e. if e = None then Finish [] else Broken" m "()"] assms
  by simp

lemma demo_transfer1:
  assumes "min (Suc 7) (length x) = m"
  shows "pipe_step () demo_offers (demo_at [h, Running (Put x), Running (Collect y)] a b)
     (demo_at [h, Running (after_write x Copying Put m), Running (Collect (y @ take m x))] a (b @ take m x))"
  using pipe_step.transfer [of 1 "demo_at [h, Running (Put x), Running (Collect y)] a b" "Put x" "Collect y" x
      "after_write x Copying Put" "\<lambda>_. Broken" demo_offers 7 "\<lambda>d. Collect (y @ d)"
      "\<lambda>e. if e = None then Finish y else Broken" m "()"] assms
  by simp

definition demo_end :: "(unit, string, demo) pipeline" where
  "demo_end = demo_at [Ended (Inr []), Ended (Inr []), Ended (Inr ''abc'')] ''abc'' ''abc''"

lemma demo_reaches: "reaches () demo_offers (started (demo_split False)) demo_end"
proof -
  let ?r = "reaches () demo_offers (started (demo_split False))"
  have "started (demo_split False) = demo_at [Running (Emit ''abc''), Running Copying, Running (Collect [])] [] []"
    by (auto simp: started_def demo_split_def pipeline_stages_def demo_at_def)
  then have "?r (demo_at [Running (Emit ''abc''), Running Copying, Running (Collect [])] [] [])" using reaches.start by metis
  from reaches.steps [OF this demo_transfer0 [OF refl]]
  have "?r (demo_at [Running (Emit ''c''), Running (Put ''ab''), Running (Collect [])] ''ab'' [])" by (simp add: after_write_def)
  from reaches.steps [OF this demo_transfer1 [OF refl]]
  have "?r (demo_at [Running (Emit ''c''), Running Copying, Running (Collect ''ab'')] ''ab'' ''ab'')" by (simp add: after_write_def)
  from reaches.steps [OF this demo_transfer0 [OF refl]]
  have "?r (demo_at [Running (Finish []), Running (Put ''c''), Running (Collect ''ab'')] ''abc'' ''ab'')" by (simp add: after_write_def)
  from reaches.steps [OF this demo_transfer1 [OF refl]]
  have "?r (demo_at [Running (Finish []), Running Copying, Running (Collect ''abc'')] ''abc'' ''abc'')" by (simp add: after_write_def)
  from reaches.steps [OF this pipe_step.returns [of 0 _ "Finish []" "Inr []"]]
  have "?r (demo_at [Ended (Inr []), Running Copying, Running (Collect ''abc'')] ''abc'' ''abc'')"
    by (simp add: pipeStage_return_def)
  from reaches.steps [OF this pipe_step.read_end [of 0 _ "Inr []" Copying 1 Put "\<lambda>e. if e = None then Finish [] else Broken"]]
  have "?r (demo_at [Ended (Inr []), Running (Finish []), Running (Collect ''abc'')] ''abc'' ''abc'')"
    by (simp add: writer_error_def)
  from reaches.steps [OF this pipe_step.returns [of 1 _ "Finish []" "Inr []"]]
  have "?r (demo_at [Ended (Inr []), Ended (Inr []), Running (Collect ''abc'')] ''abc'' ''abc'')"
    by (simp add: pipeStage_return_def)
  from reaches.steps [OF this pipe_step.read_end [of 1 _ "Inr []" "Collect ''abc''" 7 "\<lambda>d. Collect (''abc'' @ d)"
        "\<lambda>e. if e = None then Finish ''abc'' else Broken"]]
  have "?r (demo_at [Ended (Inr []), Ended (Inr []), Running (Finish ''abc'')] ''abc'' ''abc'')"
    by (simp add: writer_error_def)
  from reaches.steps [OF this pipe_step.returns [of 2 _ "Finish ''abc''" "Inr ''abc''"]]
  show ?thesis by (simp add: pipeStage_return_def demo_end_def)
qed

theorem pipeline_composes_witness:
  "\<exists>archive input encrypted. archive = ''abc'' \<and> (if False then input = archive else input = archive)
     \<and> encrypted = input \<and> pipeline_result demo_end = Inr encrypted"
proof -
  have r: "pipeline_result demo_end = Inr ''abc''" by (simp add: pipeline_result_def demo_end_def demo_at_def)
  have e: "\<forall>g \<in> set (pp_stages demo_end). ended g" by (simp add: demo_end_def)
  from pipeline_composes [OF demo_reaches [unfolded demo_split_def] e r demo_delivers(1,2,2,3)]
  show ?thesis using r by auto
qed

end
