(* ===== verification/Prepare.thy ===== *)
theory Prepare
  imports Resolve Split TarWalk GoFloat
begin

text \<open>
  The Prepare phase (\<open>workflows/backup/prepare.go\<close>) and the projection of its remaining time
  (\<open>eta.go\<close>): locating the directory of a snapshot, staging the archives in order, and the progress
  that is reported while the pipeline of theory \<open>Pipeline\<close> streams. Times and durations are nanoseconds.
\<close>

section \<open>Remaining time\<close>

definition etaWindow :: int where "etaWindow = 5 * 60 * 10 ^ 9"

record etaSample =
  es_at :: int
  es_done :: int

record etaEstimator =
  ee_window :: int
  ee_samples :: "etaSample list"

definition newETAEstimator :: "int \<Rightarrow> int \<Rightarrow> etaEstimator" where
  "newETAEstimator start window = \<lparr> ee_window = window, ee_samples = [\<lparr> es_at = start, es_done = 0 \<rparr>] \<rparr>"

text \<open>Samples are dropped while the one after is not after the start of the window.\<close>

fun drop_samples :: "int \<Rightarrow> etaSample list \<Rightarrow> etaSample list" where
  "drop_samples cutoff (s # t # rest) =
     (if \<not> cutoff < es_at t then drop_samples cutoff (t # rest) else s # t # rest)"
| "drop_samples cutoff ss = ss"

definition observe :: "etaEstimator \<Rightarrow> int \<Rightarrow> int \<Rightarrow> etaEstimator" where
  "observe e now bytes =
     (let ss = ee_samples e;
          ss' = (if \<not> es_at (last ss) < now then butlast ss @ [(last ss)\<lparr> es_done := bytes \<rparr>]
                 else ss @ [\<lparr> es_at = now, es_done = bytes \<rparr>]) in
      e\<lparr> ee_samples := drop_samples (now - ee_window e) ss' \<rparr>)"

text \<open>
  \<open>time.Duration\<close> of a float outside the range of \<open>int64\<close> is the least \<open>int64\<close> on the amd64
  machines this runs on. \<open>Duration.Round\<close> rounds halves away from zero and saturates.
\<close>

definition to_int64 :: "rat \<Rightarrow> int" where
  "to_int64 x = (let t = math_Trunc x in if - (2 ^ 63) \<le> t \<and> t < 2 ^ 63 then t else - (2 ^ 63))"

definition round_duration :: "int \<Rightarrow> int \<Rightarrow> int" where
  "round_duration d m =
     (if d < 0 then
        (let r = (- d) mod m in
         if 2 * r < m then d + r else if d - m + r < - (2 ^ 63) then - (2 ^ 63) else d - m + r)
      else
        (let r = d mod m in
         if 2 * r < m then d - r else if 2 ^ 63 \<le> d + m - r then 2 ^ 63 - 1 else d + m - r))"

definition estimate :: "etaEstimator \<Rightarrow> int \<Rightarrow> int \<Rightarrow> int \<Rightarrow> int \<times> etaEstimator" where
  "estimate e now bytes goal =
     (let e' = observe e now bytes;
          oldest = hd (ee_samples e'); newest = last (ee_samples e');
          remaining = goal - bytes; span = es_at newest - es_at oldest;
          progressed = es_done newest - es_done oldest in
      (if remaining \<le> 0 \<or> span \<le> 0 \<or> progressed \<le> 0 then 0
       else round_duration (to_int64 (fmul (fdiv (float64 remaining) (float64 progressed)) (float64 span))) (10 ^ 9), e'))"

section \<open>Progress\<close>

record PrepareProgress =
  pg_TotalArchives :: nat
  pg_CompletedArchives :: nat
  pg_CurrentSourceIndex :: nat
  pg_CurrentLabel :: string
  pg_CurrentStage :: string
  pg_CurrentArchivePercent :: rat
  pg_SourceBytesRead :: int
  pg_TotalSourceBytes :: int
  pg_OverallPercent :: rat
  pg_EstimatedTimeRemaining :: int

record prepareCurrentArchive =
  pc_sourceIndex :: nat
  pc_label :: string
  pc_logicalBytes :: int
  pc_readBytes :: int
  pc_stage :: string

definition no_archive :: prepareCurrentArchive where
  "no_archive = \<lparr> pc_sourceIndex = 0, pc_label = [], pc_logicalBytes = 0, pc_readBytes = 0, pc_stage = [] \<rparr>"

record prepareProgressTracker =
  pt_totalArchives :: nat
  pt_totalBytes :: int
  pt_eta :: etaEstimator
  pt_completedCount :: nat
  pt_completedBytes :: int
  pt_current :: prepareCurrentArchive

definition newPrepareProgressTracker :: "ResolvedArchive list \<Rightarrow> int \<Rightarrow> prepareProgressTracker" where
  "newPrepareProgressTracker archives now =
     \<lparr> pt_totalArchives = length archives, pt_totalBytes = sum_list (map ra_LogicalBytes archives),
       pt_eta = newETAEstimator now etaWindow, pt_completedCount = 0, pt_completedBytes = 0, pt_current = no_archive \<rparr>"

definition startArchive :: "nat \<Rightarrow> string \<Rightarrow> int \<Rightarrow> prepareProgressTracker \<Rightarrow> prepareProgressTracker" where
  "startArchive index label logical p = p\<lparr> pt_current :=
     \<lparr> pc_sourceIndex = index, pc_label = label, pc_logicalBytes = logical, pc_readBytes = 0, pc_stage = ''streaming'' \<rparr> \<rparr>"

definition addSourceBytes :: "int \<Rightarrow> prepareProgressTracker \<Rightarrow> prepareProgressTracker" where
  "addSourceBytes n p = p\<lparr> pt_current := (pt_current p)\<lparr> pc_readBytes := pc_readBytes (pt_current p) + n \<rparr> \<rparr>"

definition finishArchive :: "prepareProgressTracker \<Rightarrow> prepareProgressTracker" where
  "finishArchive p = p\<lparr> pt_completedBytes := pt_completedBytes p + pc_logicalBytes (pt_current p),
     pt_completedCount := pt_completedCount p + 1, pt_current := no_archive \<rparr>"

definition roundPercent :: "rat \<Rightarrow> rat" where
  "roundPercent percent = fdiv (of_int (math_Round (fmul percent 10))) 10"

definition percent_of :: "int \<Rightarrow> int \<Rightarrow> rat" where
  "percent_of part whole = roundPercent (fmul (fdiv (float64 part) (float64 whole)) 100)"

definition progress_snapshot :: "int \<Rightarrow> prepareProgressTracker \<Rightarrow> PrepareProgress \<times> prepareProgressTracker" where
  "progress_snapshot now p =
     (let current = pt_current p;
          currentBytes = min (pc_readBytes current) (pc_logicalBytes current);
          doneBytes = pt_completedBytes p + currentBytes;
          (eta, e') = (if 0 < pt_totalBytes p then estimate (pt_eta p) now doneBytes (pt_totalBytes p) else (0, pt_eta p)) in
      (\<lparr> pg_TotalArchives = pt_totalArchives p, pg_CompletedArchives = pt_completedCount p,
         pg_CurrentSourceIndex = pc_sourceIndex current, pg_CurrentLabel = pc_label current,
         pg_CurrentStage = pc_stage current,
         pg_CurrentArchivePercent = (if 0 < pc_logicalBytes current then percent_of currentBytes (pc_logicalBytes current) else 0),
         pg_SourceBytesRead = doneBytes, pg_TotalSourceBytes = pt_totalBytes p,
         pg_OverallPercent = (if 0 < pt_totalBytes p then percent_of doneBytes (pt_totalBytes p) else 0),
         pg_EstimatedTimeRemaining = eta \<rparr>,
       p\<lparr> pt_eta := e' \<rparr>))"

section \<open>Locating a snapshot\<close>

text \<open>Errors; \<open>AppError\<close> is a non-retryable Temporal application error, the others wrap a cause.\<close>

datatype 'e prepare_error =
  AppError string string
| Failed 'e
| ZfsFailed string zfs_error
| CreateStagingDir string 'e
| SliceSize int
| LocateSnapshot string "'e prepare_error"
| PrepareSource nat "'e prepare_error"
| Lifted string "'e prepare_error"

definition datasetNotMountedErrorType :: string where
  "datasetNotMountedErrorType = ''dataset-not-mounted''"

text \<open>
  The effects of the phase. \<open>po_SnapshotDir\<close> is \<open>zfs.SnapshotDir\<close>; \<open>po_stream\<close> runs the stages of the
  pipeline for an archive and answers, besides its result, the byte counts its counting writer saw.
\<close>

record ('e, 'z) prepare_ops =
  po_zfs :: "'z zfs_cli"
  po_SnapshotDir :: "string \<Rightarrow> string \<Rightarrow> 'z \<Rightarrow> ('e + string) \<times> 'z"
  po_MkdirAll :: "string \<Rightarrow> 'z \<Rightarrow> 'e option \<times> 'z"
  po_stream :: "string \<Rightarrow> Member list \<Rightarrow> bool \<Rightarrow> string list \<Rightarrow> int \<Rightarrow> 'z \<Rightarrow> ('e + Slice list) \<times> int list \<times> 'z"

text \<open>\<open>zfsLocator.SnapshotDir\<close>: a dataset that is read live, or through its mount, must be mounted.\<close>

definition locate :: "('e, 'z) prepare_ops \<Rightarrow> ResolvedSnapshot \<Rightarrow> 'z \<Rightarrow> ('e prepare_error + string) \<times> 'z" where
  "locate ops snapshot z =
     (let (dataset, snapName) = datasetAndSnapshot snapshot in
      case Mountpoint (po_zfs ops) z dataset of
        (Inl e, z1) \<Rightarrow> (Inl (ZfsFailed dataset e), z1)
      | (Inr mount, z1) \<Rightarrow>
          (let named = (\<lambda>z. case po_SnapshotDir ops mount snapName z of
                  (Inl e, z') \<Rightarrow> (Inl (Failed e), z') | (Inr d, z') \<Rightarrow> (Inr d, z')) in
           if snapName = [] \<or> rs_RunScoped snapshot then
             (case Mounted (po_zfs ops) z1 dataset of
                (Inl e, z2) \<Rightarrow> (Inl (ZfsFailed dataset e), z2)
              | (Inr mounted, z2) \<Rightarrow>
                  if \<not> mounted then (Inl (AppError (dataset @ '' '' @ mount) datasetNotMountedErrorType), z2)
                  else if snapName = [] then (Inr mount, z2) else named z2)
           else named z1))"

fun resolveMembers ::
  "('e, 'z) prepare_ops \<Rightarrow> ResolvedSnapshot list \<Rightarrow> 'z \<Rightarrow> ('e prepare_error + Member list) \<times> 'z" where
  "resolveMembers ops [] z = (Inr [], z)"
| "resolveMembers ops (snapshot # snapshots) z =
     (case locate ops snapshot z of
        (Inl e, z1) \<Rightarrow> (Inl (LocateSnapshot (rs_ZFSPath snapshot) e), z1)
      | (Inr dir, z1) \<Rightarrow>
          (case resolveMembers ops snapshots z1 of
             (Inl e, z2) \<Rightarrow> (Inl e, z2)
           | (Inr members, z2) \<Rightarrow> (Inr (\<lparr> mb_Subdir = memberName snapshot, mb_Dir = dir \<rparr> # members), z2)))"

section \<open>Staging\<close>

definition runPipeline ::
  "('e, 'z) prepare_ops \<Rightarrow> string \<Rightarrow> Member list \<Rightarrow> bool \<Rightarrow> string list \<Rightarrow> int \<Rightarrow> 'z \<Rightarrow>
     ('e prepare_error + Slice list) \<times> int list \<times> 'z" where
  "runPipeline ops dir members compress recipients sliceSize z =
     (if sliceSize \<le> 0 then (Inl (SliceSize sliceSize), [], z)
      else (case po_stream ops dir members compress recipients sliceSize z of
          (Inl e, counts, z1) \<Rightarrow> (Inl (Failed e), counts, z1)
        | (Inr slices, counts, z1) \<Rightarrow> (Inr slices, counts, z1)))"

definition tarMembers ::
  "('m, 'e, 'f, 'r, 'z) tar_ops \<Rightarrow> (string \<Rightarrow> ('m, 'e) node) \<Rightarrow> Member list \<Rightarrow> 'z \<Rightarrow> 'e archive_error option \<times> 'z" where
  "tarMembers ops trees members z =
     (if length members = 1 then Tar ops trees (mb_Dir (members ! 0)) z else TarMembers ops trees members z)"

definition staged_slice :: "Slice \<Rightarrow> StagedSlice" where
  "staged_slice s = \<lparr> sl_Path = se_Path s, sl_SHA256 = se_SHA256 s, sl_SizeBytes = int (se_SizeBytes s) \<rparr>"

definition archive_dir :: "string \<Rightarrow> nat \<Rightarrow> string" where
  "archive_dir stagingDir index = path_join stagingDir (pad0 3 (itoa index))"

definition stageArchive ::
  "('e, 'z) prepare_ops \<Rightarrow> string \<Rightarrow> ResolvedArchive \<Rightarrow> string list \<Rightarrow> int \<Rightarrow> prepareProgressTracker \<Rightarrow> 'z \<Rightarrow>
     ('e prepare_error + StagedArchive) \<times> prepareProgressTracker \<times> 'z" where
  "stageArchive ops stagingDir a recipients sliceSize p z =
     (let dir = archive_dir stagingDir (ra_SourceIndex a) in
      case po_MkdirAll ops dir z of
        (Some e, z1) \<Rightarrow> (Inl (CreateStagingDir dir e), p, z1)
      | (None, z1) \<Rightarrow>
          (case resolveMembers ops (ra_Snapshots a) z1 of
             (Inl e, z2) \<Rightarrow> (Inl e, p, z2)
           | (Inr members, z2) \<Rightarrow>
               (let (res, counts, z3) = runPipeline ops dir members (ra_Compression a) recipients sliceSize z2;
                    p' = fold addSourceBytes counts p in
                case res of
                  Inl e \<Rightarrow> (Inl e, p', z3)
                | Inr slices \<Rightarrow>
                    (Inr \<lparr> sa_SourceIndex = ra_SourceIndex a, sa_Slices = map staged_slice slices,
                           sa_SizeBytes = sum_list (map (int \<circ> se_SizeBytes) slices) \<rparr>, p', z3))))"

fun prepare ::
  "('e, 'z) prepare_ops \<Rightarrow> string \<Rightarrow> ResolvedArchive list \<Rightarrow> string list \<Rightarrow> int \<Rightarrow> prepareProgressTracker \<Rightarrow> 'z \<Rightarrow>
     ('e prepare_error + StagedArchive list) \<times> prepareProgressTracker \<times> 'z" where
  "prepare ops stagingDir [] recipients sliceSize p z = (Inr [], p, z)"
| "prepare ops stagingDir (a # archives) recipients sliceSize p z =
     (let p1 = startArchive (ra_SourceIndex a) (ra_Label a) (ra_LogicalBytes a) p in
      case stageArchive ops stagingDir a recipients sliceSize p1 z of
        (Inl e, p2, z1) \<Rightarrow> (Inl (PrepareSource (ra_SourceIndex a) e), p2, z1)
      | (Inr staged, p2, z1) \<Rightarrow>
          (case prepare ops stagingDir archives recipients sliceSize (finishArchive p2) z1 of
             (Inl e, p3, z2) \<Rightarrow> (Inl e, p3, z2)
           | (Inr rest, p3, z2) \<Rightarrow> (Inr (staged # rest), p3, z2)))"

text \<open>\<open>errors.As\<close>: the first application error of a chain, with whether the chain is that error itself.\<close>

fun app_error :: "'e prepare_error \<Rightarrow> string option" where
  "app_error (AppError msg ty) = Some ty"
| "app_error (Lifted ty e) = Some ty"
| "app_error (LocateSnapshot s e) = app_error e"
| "app_error (PrepareSource i e) = app_error e"
| "app_error _ = None"

definition liftNonRetryable :: "'e prepare_error \<Rightarrow> 'e prepare_error" where
  "liftNonRetryable e =
     (case app_error e of
        None \<Rightarrow> e
      | Some ty \<Rightarrow> (case e of AppError _ _ \<Rightarrow> e | Lifted _ _ \<Rightarrow> e | _ \<Rightarrow> Lifted ty e))"

definition retryable :: "'e prepare_error \<Rightarrow> bool" where
  "retryable e = (case e of AppError _ _ \<Rightarrow> False | Lifted _ _ \<Rightarrow> False | _ \<Rightarrow> True)"

definition PrepareArchives ::
  "('e, 'z) prepare_ops \<Rightarrow> string \<Rightarrow> string \<Rightarrow> string list \<Rightarrow> ResolvedArchive list \<Rightarrow> int \<Rightarrow> int \<Rightarrow> 'z \<Rightarrow>
     ('e prepare_error + StagedArchive list) \<times> 'z" where
  "PrepareArchives ops stagingRoot runID recipients archives sliceSize now z =
     (if stagingRoot = [] then (Inl (AppError ''staging directory is not configured'' ''prepare-misconfigured''), z)
      else
        let (res, p, z1) = prepare ops (path_join stagingRoot runID) archives recipients sliceSize
               (newPrepareProgressTracker archives now) z in
        (case res of Inl e \<Rightarrow> Inl (liftNonRetryable e) | Inr staged \<Rightarrow> Inr staged, z1))"

section \<open>The window of the estimate\<close>

definition samples_ok :: "etaEstimator \<Rightarrow> bool" where
  "samples_ok e \<longleftrightarrow> ee_samples e \<noteq> [] \<and> sorted_wrt (<) (map es_at (ee_samples e))"

lemma last_drop_samples: "ss \<noteq> [] \<Longrightarrow> drop_samples c ss \<noteq> [] \<and> last (drop_samples c ss) = last ss"
  by (induction c ss rule: drop_samples.induct) auto

lemma drop_samples_suffix: "\<exists>xs. ss = xs @ drop_samples c ss"
proof (induction c ss rule: drop_samples.induct)
  case (1 c s t r)
  then show ?case by (cases "c < es_at t") (simp, metis append_Cons drop_samples.simps(1))
qed simp_all

text \<open>At most the first sample that is kept is at or before the start of the window.\<close>

lemma drop_samples_window:
  "drop_samples c ss = a # b # r \<Longrightarrow> c < es_at b"
  by (induction c ss rule: drop_samples.induct) (auto split: if_splits)

lemma drop_samples_anchor:
  "s \<in> set ss \<Longrightarrow> es_at s \<le> c \<Longrightarrow> sorted_wrt (<) (map es_at ss) \<Longrightarrow>
    es_at s \<le> es_at (hd (drop_samples c ss)) \<and> es_at (hd (drop_samples c ss)) \<le> c"
proof (induction c ss arbitrary: s rule: drop_samples.induct)
  case (1 c a b r)
  show ?case
  proof (cases "c < es_at b")
    case True
    then have "s = a" using "1.prems" by auto
    then show ?thesis using "1.prems" True by simp
  next
    case False
    then have d: "drop_samples c (a # b # r) = drop_samples c (b # r)" by simp
    have h: "es_at b \<le> c" "sorted_wrt (<) (map es_at (b # r))" using False "1.prems"(3) by auto
    have "es_at s \<le> es_at b \<or> s \<in> set (b # r)" using "1.prems"(1,3) by auto
    then show ?thesis using "1.IH" [OF False, of s] "1.IH" [OF False, of b] h "1.prems"(2) unfolding d by auto
  qed
qed simp_all

lemma samples_ok_new [simp]: "samples_ok (newETAEstimator start w)"
  by (simp add: samples_ok_def newETAEstimator_def)

lemma samples_ok_observe:
  assumes "samples_ok e"
  shows "samples_ok (observe e now b)"
proof -
  obtain xs l where e: "ee_samples e = xs @ [l]" using assms by (cases "ee_samples e" rule: rev_cases) (auto simp: samples_ok_def)
  define ss' where "ss' = (if \<not> es_at l < now then xs @ [l\<lparr> es_done := b \<rparr>] else (xs @ [l]) @ [\<lparr> es_at = now, es_done = b \<rparr>])"
  have "sorted_wrt (<) (map es_at ss')"
    using assms unfolding samples_ok_def e ss'_def by (auto simp: sorted_wrt_append)
  moreover obtain ys where "ss' = ys @ drop_samples (now - ee_window e) ss'" using drop_samples_suffix by metis
  ultimately have "sorted_wrt (<) (map es_at (drop_samples (now - ee_window e) ss'))"
    by (metis map_append sorted_wrt_append)
  moreover have "drop_samples (now - ee_window e) ss' \<noteq> []" using last_drop_samples [of ss'] by (simp add: ss'_def)
  moreover have "ee_samples (observe e now b) = drop_samples (now - ee_window e) ss'"
    by (simp add: observe_def Let_def e ss'_def)
  ultimately show ?thesis by (simp add: samples_ok_def)
qed

section \<open>Bounds of the progress\<close>

lemma roundPercent_bounds: "0 \<le> x \<Longrightarrow> x \<le> 100 \<Longrightarrow> 0 \<le> roundPercent x \<and> roundPercent x \<le> 100"
proof -
  assume x: "0 \<le> x" "x \<le> 100"
  have a: "0 \<le> fmul x 10 \<and> fmul x 10 \<le> 1000" using rnd_below [of "x * 10" 1000] x by (simp add: fmul_def)
  have b: "0 \<le> math_Round (fmul x 10) \<and> math_Round (fmul x 10) \<le> 1000"
    using math_Round_mono [of "fmul x 10" 1000] math_Round_mono [of 0 "fmul x 10"] math_Round_int [of 1000] math_Round_int [of 0] a by simp
  then show ?thesis using rnd_below [of "of_int (math_Round (fmul x 10)) / 10" 100] by (simp add: roundPercent_def fdiv_def)
qed

lemma percent_of_bounds:
  assumes "0 \<le> a" "a \<le> b" "0 < b"
  shows "0 \<le> percent_of a b \<and> percent_of a b \<le> 100"
proof -
  have f: "0 \<le> float64 a" "float64 a \<le> float64 b" "1 \<le> float64 b"
    using assms float64_mono [of a b] float64_pos [of b] by simp_all
  then have q: "0 \<le> fdiv (float64 a) (float64 b) \<and> fdiv (float64 a) (float64 b) \<le> 1"
    using rnd_below [of "float64 a / float64 b" 1] by (simp add: fdiv_def)
  then have "0 \<le> fmul (fdiv (float64 a) (float64 b)) 100 \<and> fmul (fdiv (float64 a) (float64 b)) 100 \<le> 100"
    using rnd_below [of "fdiv (float64 a) (float64 b) * 100" 100] by (simp add: fmul_def)
  then show ?thesis unfolding percent_of_def by (intro roundPercent_bounds) simp_all
qed

lemma percent_of_whole: "0 < b \<Longrightarrow> percent_of b b = 100"
proof -
  assume "0 < b"
  then have "float64 b / float64 b = 1" using float64_pos [of b] by simp
  then have "fdiv (float64 b) (float64 b) = 1" using rnd_int [of 1] by (simp add: fdiv_def)
  then show ?thesis
    using rnd_int [of 100] rnd_int [of 1000] math_Round_int [of 1000] by (simp add: percent_of_def roundPercent_def fmul_def fdiv_def)
qed

text \<open>What the phase does to its tracker: the events of the archives, in order.\<close>

datatype tracker_event = Started ResolvedArchive | Counted int | Finished

fun track :: "tracker_event \<Rightarrow> prepareProgressTracker \<Rightarrow> prepareProgressTracker" where
  "track (Started a) p = startArchive (ra_SourceIndex a) (ra_Label a) (ra_LogicalBytes a) p"
| "track (Counted n) p = addSourceBytes n p"
| "track Finished p = finishArchive p"

definition archive_events :: "ResolvedArchive \<times> int list \<Rightarrow> tracker_event list" where
  "archive_events ac = Started (fst ac) # map Counted (snd ac) @ [Finished]"

lemma archive_events_pair: "archive_events (a, cs) = Started a # map Counted cs @ [Finished]"
  by (simp add: archive_events_def)

lemma fold_counts: "fold addSourceBytes counts p = fold track (map Counted counts) p"
  by (induction counts arbitrary: p) simp_all

lemma stageArchive_tracks:
  "\<exists>counts. fst (snd (stageArchive ops d a recipients n p z)) = fold track (map Counted counts) p"
proof -
  have "\<exists>counts. fst (snd (stageArchive ops d a recipients n p z)) = fold addSourceBytes counts p"
    by (auto simp: stageArchive_def Let_def split: option.split prod.split sum.split intro: exI [of _ "[]"])
  then show ?thesis by (simp add: fold_counts)
qed

text \<open>A run of the phase makes a prefix of the events of its archives; a successful one makes them all.\<close>

lemma prepare_tracks:
  "\<exists>css evs. length css = length archives \<and> prefix evs (concat (map archive_events (zip archives css)))
     \<and> fst (snd (prepare ops d archives recipients n p z)) = fold track evs p
     \<and> ((\<exists>r. fst (prepare ops d archives recipients n p z) = Inr r) \<longrightarrow> evs = concat (map archive_events (zip archives css)))"
proof (induction archives arbitrary: p z)
  case (Cons a archives)
  let ?p1 = "startArchive (ra_SourceIndex a) (ra_Label a) (ra_LogicalBytes a) p"
  obtain res p2 z1 where st: "stageArchive ops d a recipients n ?p1 z = (res, p2, z1)" by (metis prod.exhaust)
  obtain cs where cs: "p2 = fold track (map Counted cs) ?p1"
    using stageArchive_tracks [of ops d a recipients n ?p1 z] st by auto
  obtain css evs where ih: "length css = length archives" "prefix evs (concat (map archive_events (zip archives css)))"
    "fst (snd (prepare ops d archives recipients n (finishArchive p2) z1)) = fold track evs (finishArchive p2)"
    "(\<exists>r. fst (prepare ops d archives recipients n (finishArchive p2) z1) = Inr r) \<longrightarrow> evs = concat (map archive_events (zip archives css))"
    using Cons.IH by blast
  show ?case
  proof (cases res)
    case (Inl e)
    then show ?thesis using st cs ih(1)
      by (intro exI [of _ "cs # css"] exI [of _ "Started a # map Counted cs"]) (auto simp: archive_events_pair prefix_def)
  next
    case (Inr s)
    obtain r3 p3 z3 where rest: "prepare ops d archives recipients n (finishArchive p2) z1 = (r3, p3, z3)" by (metis prod.exhaust)
    show ?thesis using st cs ih Inr rest
      by (intro exI [of _ "cs # css"] exI [of _ "archive_events (a, cs) @ evs"])
        (auto simp: archive_events_pair split: sum.splits)
  qed
qed (auto intro!: exI [of _ "[]"])

text \<open>The bounds that every event keeps.\<close>

definition tracker_ok :: "ResolvedArchive list \<Rightarrow> nat \<Rightarrow> bool \<Rightarrow> prepareProgressTracker \<Rightarrow> bool" where
  "tracker_ok archives k busy p \<longleftrightarrow>
     pt_totalArchives p = length archives \<and> pt_totalBytes p = sum_list (map ra_LogicalBytes archives)
   \<and> pt_completedCount p = k \<and> pt_completedBytes p = sum_list (map ra_LogicalBytes (take k archives))
   \<and> 0 \<le> pc_readBytes (pt_current p)
   \<and> (if busy then k < length archives \<and> pc_logicalBytes (pt_current p) = ra_LogicalBytes (archives ! k)
      else k \<le> length archives \<and> pt_current p = no_archive)"

lemma sum_take_le:
  fixes xs :: "int list"
  assumes "\<forall>x \<in> set xs. 0 \<le> x"
  shows "0 \<le> sum_list (take k xs)" "sum_list (take k xs) \<le> sum_list xs"
proof -
  have "0 \<le> sum_list ys" if "set ys \<subseteq> set xs" for ys using assms that by (intro sum_list_nonneg) auto
  from this [OF set_take_subset] this [OF set_drop_subset]
  have "0 \<le> sum_list (take k xs)" "0 \<le> sum_list (drop k xs)" by blast+
  moreover have "sum_list xs = sum_list (take k xs) + sum_list (drop k xs)"
    by (metis append_take_drop_id sum_list_append)
  ultimately show "0 \<le> sum_list (take k xs)" "sum_list (take k xs) \<le> sum_list xs" by simp_all
qed

lemma tracker_ok_bounds:
  assumes ok: "tracker_ok archives k busy p" and pos: "\<forall>a \<in> set archives. 0 \<le> ra_LogicalBytes a"
  shows "0 \<le> pt_completedBytes p + min (pc_readBytes (pt_current p)) (pc_logicalBytes (pt_current p))"
    "pt_completedBytes p + min (pc_readBytes (pt_current p)) (pc_logicalBytes (pt_current p)) \<le> pt_totalBytes p"
    "0 \<le> pc_logicalBytes (pt_current p)"
proof -
  let ?L = "map ra_LogicalBytes archives"
  have P: "\<forall>x \<in> set ?L. 0 \<le> x" using pos by auto
  have c: "pt_completedBytes p = sum_list (take k ?L)" "pt_totalBytes p = sum_list ?L"
    using ok by (simp_all add: tracker_ok_def take_map)
  show l: "0 \<le> pc_logicalBytes (pt_current p)"
    using ok pos by (auto simp: tracker_ok_def no_archive_def split: if_splits)
  have r: "0 \<le> pc_readBytes (pt_current p)" using ok by (simp add: tracker_ok_def)
  have "sum_list (take k ?L) + pc_logicalBytes (pt_current p) \<le> sum_list ?L"
  proof (cases busy)
    case True
    then have k: "k < length ?L" "pc_logicalBytes (pt_current p) = ?L ! k" using ok by (simp_all add: tracker_ok_def)
    then have "sum_list (take (Suc k) ?L) = sum_list (take k ?L) + pc_logicalBytes (pt_current p)"
      by (simp only: take_Suc_conv_app_nth sum_list_append) simp
    then show ?thesis using sum_take_le(2) [OF P, of "Suc k"] by linarith
  next
    case False
    then have "pc_logicalBytes (pt_current p) = 0" using ok by (simp add: tracker_ok_def no_archive_def)
    then show ?thesis using sum_take_le(2) [OF P, of k] by simp
  qed
  then show "pt_completedBytes p + min (pc_readBytes (pt_current p)) (pc_logicalBytes (pt_current p)) \<le> pt_totalBytes p"
    using c by linarith
  show "0 \<le> pt_completedBytes p + min (pc_readBytes (pt_current p)) (pc_logicalBytes (pt_current p))"
    using sum_take_le(1) [OF P, of k] c l r by simp
qed

lemma tracker_ok_counts:
  "tracker_ok archives k True p \<Longrightarrow> \<forall>c \<in> set cs. 0 \<le> c \<Longrightarrow> tracker_ok archives k True (fold track (map Counted cs) p)"
  by (induction cs arbitrary: p) (simp_all add: tracker_ok_def addSourceBytes_def)

lemma tracker_ok_start:
  assumes "tracker_ok archives k False p" "k < length archives"
  shows "tracker_ok archives k True (track (Started (archives ! k)) p)"
  using assms by (simp add: tracker_ok_def startArchive_def)

lemma tracker_ok_finish:
  assumes "tracker_ok archives k True p"
  shows "tracker_ok archives (Suc k) False (track Finished p)"
  using assms by (simp add: tracker_ok_def finishArchive_def no_archive_def take_Suc_conv_app_nth)

text \<open>After any prefix of the events of the archives from the \<open>k\<close>-th on.\<close>

lemma tracker_ok_prefix:
  assumes nonneg: "\<forall>cs \<in> set css. \<forall>c \<in> set cs. 0 \<le> c"
  shows "length css = length (drop k archives) \<Longrightarrow> tracker_ok archives k False p \<Longrightarrow> k \<le> length archives \<Longrightarrow>
    prefix evs (concat (map archive_events (zip (drop k archives) css))) \<Longrightarrow>
    \<exists>k' busy. tracker_ok archives k' busy (fold track evs p)
      \<and> (evs = concat (map archive_events (zip (drop k archives) css)) \<longrightarrow> k' = length archives \<and> \<not> busy)"
  using nonneg
proof (induction css arbitrary: k p evs)
  case Nil
  then have "evs = []" "k = length archives" by simp_all
  then show ?case using Nil.prems(2) by (intro exI [of _ k] exI [of _ False]) simp
next
  case (Cons cs css)
  have k: "k < length archives" using Cons.prems(1) by simp
  then have dr: "drop k archives = archives ! k # drop (Suc k) archives" by (simp add: Cons_nth_drop_Suc)
  let ?rest = "concat (map archive_events (zip (drop (Suc k) archives) css))"
  have all: "concat (map archive_events (zip (drop k archives) (cs # css))) = archive_events (archives ! k, cs) @ ?rest"
    by (simp add: dr)
  let ?p1 = "track (Started (archives ! k)) p"
  have started: "tracker_ok archives k True ?p1" by (rule tracker_ok_start [OF Cons.prems(2) k])
  from Cons.prems(4) have "prefix evs (archive_events (archives ! k, cs) @ ?rest)" unfolding all .
  then consider "prefix evs (archive_events (archives ! k, cs))" "evs \<noteq> archive_events (archives ! k, cs)"
    | evs' where "evs = archive_events (archives ! k, cs) @ evs'" "prefix evs' ?rest"
  proof -
    assume *: "prefix evs (archive_events (archives ! k, cs) @ ?rest)"
      "prefix evs (archive_events (archives ! k, cs)) \<Longrightarrow> evs \<noteq> archive_events (archives ! k, cs) \<Longrightarrow> thesis"
      "\<And>evs'. evs = archive_events (archives ! k, cs) @ evs' \<Longrightarrow> prefix evs' ?rest \<Longrightarrow> thesis"
    show thesis using *(1) *(2) *(3) [of "[]"] *(3) unfolding prefix_append by fastforce
  qed
  then show ?case
  proof cases
    case 1
    have short: "evs \<noteq> archive_events (archives ! k, cs) @ ?rest" using 1 prefix_order.antisym prefixI by blast
    have "evs = [] \<or> (\<exists>cs'. prefix cs' cs \<and> evs = Started (archives ! k) # map Counted cs')"
    proof (cases evs)
      case (Cons e es)
      then have "e = Started (archives ! k)" "prefix es (map Counted cs @ [Finished])" "es \<noteq> map Counted cs @ [Finished]"
        using 1 by (auto simp: archive_events_pair)
      moreover from this have "prefix es (map Counted cs)" by (auto simp: prefix_append prefix_Cons)
      ultimately show ?thesis using Cons by (metis prefix_map_rightE)
    qed simp
    then show ?thesis
    proof
      assume "evs = []"
      then show ?thesis using Cons.prems(2) short unfolding all
        by (intro exI [of _ k] exI [of _ False]) (simp add: archive_events_pair)
    next
      assume "\<exists>cs'. prefix cs' cs \<and> evs = Started (archives ! k) # map Counted cs'"
      then obtain cs' where cs': "prefix cs' cs" "evs = Started (archives ! k) # map Counted cs'" by blast
      then have "\<forall>c \<in> set cs'. 0 \<le> c" using Cons.prems(5) by (auto dest: set_mono_prefix)
      then show ?thesis using tracker_ok_counts [OF started] cs' short unfolding all
        by (intro exI [of _ k] exI [of _ True]) simp
    qed
  next
    case (2 evs')
    let ?p2 = "track Finished (fold track (map Counted cs) ?p1)"
    have "tracker_ok archives (Suc k) False ?p2"
      using tracker_ok_finish tracker_ok_counts [OF started] Cons.prems(5) by simp
    moreover have "fold track evs p = fold track evs' ?p2" by (simp add: 2(1) archive_events_pair)
    ultimately show ?thesis
      using Cons.IH [of "Suc k" ?p2 evs'] Cons.prems(1,5) 2 k unfolding all by simp
  qed
qed



section \<open>What is staged\<close>

text \<open>A directory that may be archived for a snapshot: what is read live, or through a mount, was mounted.\<close>

definition located :: "('e, 'z) prepare_ops \<Rightarrow> ResolvedSnapshot \<Rightarrow> string \<Rightarrow> bool" where
  "located ops snapshot dir \<longleftrightarrow> (\<exists>dataset snapName mount z z1.
     datasetAndSnapshot snapshot = (dataset, snapName) \<and> Mountpoint (po_zfs ops) z dataset = (Inr mount, z1)
   \<and> (snapName = [] \<or> rs_RunScoped snapshot \<longrightarrow> fst (Mounted (po_zfs ops) z1 dataset) = Inr True)
   \<and> (if snapName = [] then dir = mount else \<exists>z2. fst (po_SnapshotDir ops mount snapName z2) = Inr dir))"

lemma locate_located: "locate ops snapshot z = (Inr dir, z') \<Longrightarrow> located ops snapshot dir"
  unfolding locate_def located_def Let_def
  by (auto split: prod.splits sum.splits if_splits) (metis fst_conv)+

lemma resolveMembers_located:
  "resolveMembers ops snapshots z = (Inr members, z') \<Longrightarrow>
    list_all2 (\<lambda>s m. mb_Subdir m = memberName s \<and> located ops s (mb_Dir m)) snapshots members"
  by (induction snapshots arbitrary: z members) (auto split: prod.splits sum.splits dest: locate_located)

definition staged_from :: "('e, 'z) prepare_ops \<Rightarrow> string \<Rightarrow> string list \<Rightarrow> int \<Rightarrow> ResolvedArchive \<Rightarrow> StagedArchive \<Rightarrow> bool" where
  "staged_from ops d recipients n a s \<longleftrightarrow> (\<exists>members slices counts z z'.
     list_all2 (\<lambda>s m. mb_Subdir m = memberName s \<and> located ops s (mb_Dir m)) (ra_Snapshots a) members
   \<and> po_stream ops (archive_dir d (ra_SourceIndex a)) members (ra_Compression a) recipients n z = (Inr slices, counts, z')
   \<and> sa_SourceIndex s = ra_SourceIndex a \<and> sa_Slices s = map staged_slice slices
   \<and> sa_SizeBytes s = sum_list (map sl_SizeBytes (sa_Slices s)))"

lemma stageArchive_staged:
  "stageArchive ops d a recipients n p z = (Inr s, p', z') \<Longrightarrow> 0 < n \<and> staged_from ops d recipients n a s"
  by (auto simp: stageArchive_def runPipeline_def staged_from_def Let_def staged_slice_def comp_def
      split: option.splits prod.splits sum.splits if_splits dest!: resolveMembers_located) blast

text \<open>C34:
  A Prepare phase that succeeds has staged every archive, in order, each by a pipeline of its own into a
  directory of its own, from the directories its snapshots were located at, with the recipients and slice
  size of the run; the recorded size is that of its slices. A dataset read live or through its mount was
  reported mounted, and every refusal of an unmounted one stops the retries.\<close>

theorem prepare_stages_every_archive:
  "(\<forall>staged z'. PrepareArchives ops stagingRoot run recipients archives n now z = (Inr staged, z') \<longrightarrow>
      stagingRoot \<noteq> [] \<and> list_all2 (staged_from ops (path_join stagingRoot run) recipients n) archives staged)
   \<and> (\<forall>e z'. PrepareArchives ops stagingRoot run recipients archives n now z = (Inl e, z') \<longrightarrow>
      (app_error e \<noteq> None \<longleftrightarrow> \<not> retryable e))"
proof -
  have loop: "prepare ops d archives recipients n p z = (Inr staged, p', z') \<Longrightarrow> list_all2 (staged_from ops d recipients n) archives staged" for d p p' z z' staged
  proof (induction archives arbitrary: p z staged)
    case (Cons a archives)
    then show ?case by (auto simp: Let_def split: prod.splits sum.splits dest!: stageArchive_staged)
  qed simp
  have lift: "app_error (liftNonRetryable e) \<noteq> None \<longleftrightarrow> \<not> retryable (liftNonRetryable e)" for e :: "'e prepare_error"
    by (cases e) (auto simp: liftNonRetryable_def retryable_def split: option.split)
  show ?thesis
    by (auto simp: PrepareArchives_def Let_def retryable_def dest: loop split: prod.splits sum.splits if_splits)
      (use lift in \<open>auto simp: retryable_def\<close>)
qed

definition sample_ops :: "(unit, unit) prepare_ops" where
  "sample_ops = \<lparr> po_zfs = (\<lambda>z args. (\<lparr> ex_out = (if args ! 4 = ''mounted'' then ''yes'' else ''/tank/a''), ex_err = [], ex_ok = True \<rparr>, z)),
     po_SnapshotDir = (\<lambda>m s z. (Inr (m @ ''/.zfs/snapshot/'' @ s), z)), po_MkdirAll = (\<lambda>d z. (None, z)),
     po_stream = (\<lambda>d ms c rs n z. (Inr [\<lparr> se_Path = d @ ''/archive.000'', se_SHA256 = ''00'', se_SizeBytes = 5 \<rparr>], [3, 4], z)) \<rparr>"

definition sample_archive :: ResolvedArchive where
  "sample_archive = \<lparr> ra_SourceIndex = 0, ra_Label = ''a'', ra_Compression = True, ra_Snapshots =
     [\<lparr> rs_ZFSPath = ''tank/a'', rs_Dataset = [], rs_SnapshotName = [], rs_Namespace = [], rs_VolumeSnapshot = [],
        rs_PVC = [], rs_RunScoped = False, rs_CreatedAt = 0 \<rparr>], ra_EstimatedBytes = 9, ra_LogicalBytes = 9 \<rparr>"

definition sample_staged :: "StagedArchive list" where
  "sample_staged = [\<lparr> sa_SourceIndex = 0, sa_Slices = [\<lparr> sl_Path = ''/s/run/000/archive.000'', sl_SHA256 = ''00'', sl_SizeBytes = 5 \<rparr>],
     sa_SizeBytes = 5 \<rparr>]"

lemma sample_prepare: "PrepareArchives sample_ops ''/s'' ''run'' [''age1pq1x''] [sample_archive] 8 0 () = (Inr sample_staged, ())"
  by code_simp

theorem prepare_stages_every_archive_witness:
  "list_all2 (staged_from sample_ops (path_join ''/s'' ''run'') [''age1pq1x''] 8) [sample_archive] sample_staged"
  using prepare_stages_every_archive [of sample_ops "''/s''" "''run''" "[''age1pq1x'']" "[sample_archive]" 8 0 "()"] sample_prepare
  by blast

end
