(* ===== verification/RunsSubmit.thy ===== *)
theory RunsSubmit
  imports Types
begin

text \<open>
  Submitting and steering runs over HTTP: \<open>pkg/runsubmit\<close> and the handlers of
  \<open>pkg/runsapi/runsapi.go\<close> that reach Temporal (submit, resume, abort, cancel), with the ownership of
  devices and the library topology of the deployment. JSON decoding and the Temporal client are
  parameters.
\<close>

section \<open>Dry runs\<close>

definition MHVTLChangerEnv :: string where "MHVTLChangerEnv = ''MHVTL_CHANGER_DEV''"
definition MHVTLDrive0Env :: string where "MHVTLDrive0Env = ''MHVTL_DRIVE0_DEV''"
definition MHVTLDrive1Env :: string where "MHVTLDrive1Env = ''MHVTL_DRIVE1_DEV''"

datatype submit_error =
  MissingMHVTLEnv "string list"
| InvalidAfterDryRun config_error
| InvalidConfig config_error
| InvalidAfterDeploy config_error
| NoDeployChanger
| NoDeployDrives
| NoDeployBurner
| NoDeployWebhook
| SlotOutside nat int int
| SlotReserved nat int string

definition with_library :: "(Library \<Rightarrow> Library) \<Rightarrow> Config \<Rightarrow> Config" where
  "with_library f c = c\<lparr> cfg_Library := f (cfg_Library c) \<rparr>"

definition with_delivery :: "(Delivery \<Rightarrow> Delivery) \<Rightarrow> Config \<Rightarrow> Config" where
  "with_delivery f c = c\<lparr> cfg_Delivery := f (cfg_Delivery c) \<rparr>"

definition ApplyDryRun :: "(string \<Rightarrow> string) \<Rightarrow> Config \<Rightarrow> submit_error + Config" where
  "ApplyDryRun getenv cfg =
     (let changer = getenv MHVTLChangerEnv; drive0 = getenv MHVTLDrive0Env; drive1 = getenv MHVTLDrive1Env;
          missing = (if changer = [] then [MHVTLChangerEnv] else []) @ (if drive0 = [] then [MHVTLDrive0Env] else [])
            @ (if drive1 = [] then [MHVTLDrive1Env] else []) in
      if missing \<noteq> [] then Inl (MissingMHVTLEnv missing)
      else
        let own = lib_Changer (cfg_Library cfg);
            source = (if own \<noteq> [] \<and> own \<noteq> changer then own else []);
            c1 = with_library (\<lambda>l. l\<lparr> lib_MirrorSourceChanger := source, lib_Changer := changer, lib_Drives := [drive0, drive1] \<rparr>) cfg;
            c2 = with_delivery (\<lambda>d. d\<lparr> del_OpticalBurn := None \<rparr>) c1 in
        (case Validate c2 of Inl e \<Rightarrow> Inl (InvalidAfterDryRun e) | Inr _ \<Rightarrow> Inr c2))"

section \<open>What the deployment owns\<close>

record deploy =
  dp_Changer :: string
  dp_Drives :: "string list"
  dp_WebhookURL :: string
  dp_OpticalBurnerDrives :: "string list"
  dp_SlotCount :: int
  dp_CleaningSlots :: "int list"
  dp_IOStationSlots :: "int list"

definition applyDeployConfig :: "deploy \<Rightarrow> Config \<Rightarrow> Config \<times> bool" where
  "applyDeployConfig h cfg =
     (let c1 = (if dp_Changer h \<noteq> [] then with_library (\<lambda>l. l\<lparr> lib_Changer := dp_Changer h \<rparr>) cfg else cfg);
          c2 = (if dp_Drives h \<noteq> [] then with_library (\<lambda>l. l\<lparr> lib_Drives := dp_Drives h \<rparr>) c1 else c1);
          c3 = (if dp_WebhookURL h \<noteq> [] then with_delivery (\<lambda>d. d\<lparr> del_WebhookURL := dp_WebhookURL h \<rparr>) c2 else c2);
          burn = dp_OpticalBurnerDrives h \<noteq> [] \<and> del_OpticalBurn (cfg_Delivery c3) \<noteq> None;
          c4 = (if burn then with_delivery (\<lambda>d. d\<lparr> del_OpticalBurn :=
                  map_option (\<lambda>b. b\<lparr> ob_Drives := dp_OpticalBurnerDrives h \<rparr>) (del_OpticalBurn d) \<rparr>) c3 else c3) in
      (c4, dp_Changer h \<noteq> [] \<or> dp_Drives h \<noteq> [] \<or> dp_WebhookURL h \<noteq> [] \<or> burn))"

definition requireDeviceOwnership :: "deploy \<Rightarrow> Config \<Rightarrow> submit_error + unit" where
  "requireDeviceOwnership h cfg =
     (if dp_Changer h = [] then Inl NoDeployChanger
      else if dp_Drives h = [] then Inl NoDeployDrives
      else if dp_OpticalBurnerDrives h = []
        \<and> (case del_OpticalBurn (cfg_Delivery cfg) of None \<Rightarrow> False | Some b \<Rightarrow> ob_Drives b \<noteq> [])
      then Inl NoDeployBurner
      else if dp_WebhookURL h = [] \<and> del_WebhookURL (cfg_Delivery cfg) \<noteq> [] then Inl NoDeployWebhook
      else Inr ())"

text \<open>An I/O-station slot wins over a cleaning slot in the map of reserved slots.\<close>

definition reserved_slot :: "deploy \<Rightarrow> int \<Rightarrow> string option" where
  "reserved_slot h slot =
     (if slot \<in> set (dp_IOStationSlots h) then Some ''an I/O-station slot''
      else if slot \<in> set (dp_CleaningSlots h) then Some ''a cleaning slot'' else None)"

fun check_slots :: "deploy \<Rightarrow> nat \<Rightarrow> int list \<Rightarrow> submit_error + unit" where
  "check_slots h i [] = Inr ()"
| "check_slots h i (slot # slots) =
     (if slot < 1 \<or> dp_SlotCount h < slot then Inl (SlotOutside i slot (dp_SlotCount h))
      else (case reserved_slot h slot of
          Some kind \<Rightarrow> Inl (SlotReserved i slot kind)
        | None \<Rightarrow> check_slots h (Suc i) slots))"

definition validateBlankSlotsAgainstTopology :: "deploy \<Rightarrow> Config \<Rightarrow> submit_error + unit" where
  "validateBlankSlotsAgainstTopology h cfg =
     (if dp_SlotCount h \<le> 0 then Inr () else check_slots h 0 (lib_BlankSlots (cfg_Library cfg)))"

section \<open>Submitting\<close>

text \<open>From the decoded request to the configuration that is submitted; \<open>Parse\<close> validates first.\<close>

definition submission :: "deploy \<Rightarrow> (string \<Rightarrow> string) \<Rightarrow> Config \<Rightarrow> bool \<Rightarrow> submit_error + Config" where
  "submission h getenv parsed dryRun =
     bindE (case Validate parsed of Inl e \<Rightarrow> Inl (InvalidConfig e) | Inr _ \<Rightarrow> Inr ()) (\<lambda>_.
     let (cfg, applied) = applyDeployConfig h parsed in
     bindE (if applied then (case Validate cfg of Inl e \<Rightarrow> Inl (InvalidAfterDeploy e) | Inr _ \<Rightarrow> Inr ()) else Inr ()) (\<lambda>_.
     bindE (if dryRun then Inr () else requireDeviceOwnership h cfg) (\<lambda>_.
     bindE (validateBlankSlotsAgainstTopology h cfg) (\<lambda>_.
     if dryRun then ApplyDryRun getenv cfg else Inr cfg))))"

text \<open>Errors of the Temporal client, as \<open>statusForTemporalError\<close> tells them apart.\<close>

datatype temporal_error = NotFound | InvalidArgument | AlreadyStarted string | DeadlineExceeded | ContextCanceled | OtherError string

datatype api_error =
  Temporal temporal_error
| RunNotPaused
| EjectPauseCannotAbort
| RunNotInProgress

definition statusForTemporalError :: "api_error \<Rightarrow> nat" where
  "statusForTemporalError e =
     (case e of
        RunNotPaused \<Rightarrow> 409 | EjectPauseCannotAbort \<Rightarrow> 409 | RunNotInProgress \<Rightarrow> 409
      | Temporal t \<Rightarrow>
          (case t of
             NotFound \<Rightarrow> 404 | InvalidArgument \<Rightarrow> 400 | AlreadyStarted _ \<Rightarrow> 409 | DeadlineExceeded \<Rightarrow> 504
           | ContextCanceled \<Rightarrow> 499 | OtherError _ \<Rightarrow> 502))"

text \<open>
  The Temporal client as the handlers use it. A query that fails or whose result cannot be decoded is
  \<open>Inl\<close>; \<open>tc_history\<close> is the pause derived from the history of the run.
\<close>

record 'z temporal_client =
  tc_ExecuteWorkflow :: "bool \<Rightarrow> Config \<Rightarrow> 'z \<Rightarrow> (temporal_error + string) \<times> 'z"
  tc_QueryPause :: "string \<Rightarrow> 'z \<Rightarrow> (temporal_error + CurrentPause) \<times> 'z"
  tc_HistoryPause :: "string \<Rightarrow> 'z \<Rightarrow> (temporal_error + CurrentPause) \<times> 'z"
  tc_SignalWorkflow :: "string \<Rightarrow> string \<Rightarrow> 'z \<Rightarrow> temporal_error option \<times> 'z"
  tc_Describe :: "string \<Rightarrow> 'z \<Rightarrow> (temporal_error + bool) \<times> 'z"
  tc_CancelWorkflow :: "string \<Rightarrow> 'z \<Rightarrow> temporal_error option \<times> 'z"

text \<open>Only \<open>ApplyDryRun\<close> may set the source of the mirror: a production submit clears it.\<close>

definition Submit :: "'z temporal_client \<Rightarrow> Config \<Rightarrow> bool \<Rightarrow> 'z \<Rightarrow> (temporal_error + string) \<times> 'z" where
  "Submit tc cfg dryRun z =
     (let cfg' = (if dryRun then cfg else with_library (\<lambda>l. l\<lparr> lib_MirrorSourceChanger := [] \<rparr>) cfg) in
      tc_ExecuteWorkflow tc dryRun cfg' z)"

datatype response =
  BadRequest submit_error
| Rejected nat string
| Upstream nat
| Created string
| Accepted string

text \<open>What is wrong with a body: too large, not one JSON object, or without a configuration.\<close>

datatype body_error = BodyTooLarge | BadBody string | NoConfigGiven | BadConfigJSON string

definition submitRun ::
  "'z temporal_client \<Rightarrow> deploy \<Rightarrow> (string \<Rightarrow> string) \<Rightarrow> (string \<Rightarrow> body_error + Config \<times> bool) \<Rightarrow> string \<Rightarrow> 'z \<Rightarrow> response \<times> 'z" where
  "submitRun tc h getenv decode body z =
     (case decode body of
        Inl BodyTooLarge \<Rightarrow> (Rejected 413 ''too large'', z)
      | Inl _ \<Rightarrow> (Rejected 400 ''bad request'', z)
      | Inr (parsed, dryRun) \<Rightarrow>
          (case submission h getenv parsed dryRun of
             Inl e \<Rightarrow> (BadRequest e, z)
           | Inr cfg \<Rightarrow>
               (case Submit tc cfg dryRun z of
                  (Inl e, z1) \<Rightarrow> (Upstream (statusForTemporalError (Temporal e)), z1)
                | (Inr run, z1) \<Rightarrow> (Created run, z1))))"

section \<open>Steering a paused run\<close>

definition pauseAcceptsAbort :: "PauseKind \<Rightarrow> bool" where
  "pauseAcceptsAbort k \<longleftrightarrow> k \<noteq> PauseNone \<and> k \<noteq> PauseEject"

definition OperatorResumeSignal :: string where "OperatorResumeSignal = ''operatorResume''"
definition OperatorAbortSignal :: string where "OperatorAbortSignal = ''operatorAbort''"

text \<open>The live query, or the history when it fails; with neither, the error of the query.\<close>

definition currentPauseForAction :: "'z temporal_client \<Rightarrow> string \<Rightarrow> 'z \<Rightarrow> (temporal_error + CurrentPause) \<times> 'z" where
  "currentPauseForAction tc run z =
     (case tc_QueryPause tc run z of
        (Inr pause, z1) \<Rightarrow> (Inr pause, z1)
      | (Inl e, z1) \<Rightarrow>
          (case tc_HistoryPause tc run z1 of
             (Inl _, z2) \<Rightarrow> (Inl e, z2)
           | (Inr pause, z2) \<Rightarrow> (Inr pause, z2)))"

definition signalPausedRun ::
  "'z temporal_client \<Rightarrow> string \<Rightarrow> (CurrentPause \<Rightarrow> api_error option) \<Rightarrow> string \<Rightarrow> 'z \<Rightarrow> response \<times> 'z" where
  "signalPausedRun tc signal allow run z =
     (if run = [] then (Rejected 400 ''runID is required'', z)
      else (case currentPauseForAction tc run z of
          (Inl e, z1) \<Rightarrow> (Upstream (statusForTemporalError (Temporal e)), z1)
        | (Inr pause, z1) \<Rightarrow>
            if cp_Kind pause = PauseNone then (Rejected (statusForTemporalError RunNotPaused) ''not paused'', z1)
            else (case allow pause of
                Some e \<Rightarrow> (Rejected (statusForTemporalError e) ''not allowed'', z1)
              | None \<Rightarrow>
                  (case tc_SignalWorkflow tc run signal z1 of
                     (Some e, z2) \<Rightarrow> (Upstream (statusForTemporalError (Temporal e)), z2)
                   | (None, z2) \<Rightarrow> (Accepted signal, z2)))))"

definition resumeRun :: "'z temporal_client \<Rightarrow> string \<Rightarrow> 'z \<Rightarrow> response \<times> 'z" where
  "resumeRun tc run z = signalPausedRun tc OperatorResumeSignal (\<lambda>_. None) run z"

definition abortRun :: "'z temporal_client \<Rightarrow> string \<Rightarrow> 'z \<Rightarrow> response \<times> 'z" where
  "abortRun tc run z = signalPausedRun tc OperatorAbortSignal
     (\<lambda>pause. if \<not> pauseAcceptsAbort (cp_Kind pause) then Some EjectPauseCannotAbort else None) run z"

definition cancelRun :: "'z temporal_client \<Rightarrow> string \<Rightarrow> 'z \<Rightarrow> response \<times> 'z" where
  "cancelRun tc run z =
     (if run = [] then (Rejected 400 ''runID is required'', z)
      else (case tc_Describe tc run z of
          (Inl e, z1) \<Rightarrow> (Upstream (statusForTemporalError (Temporal e)), z1)
        | (Inr running, z1) \<Rightarrow>
            if \<not> running then (Rejected (statusForTemporalError RunNotInProgress) ''not in progress'', z1)
            else (case tc_CancelWorkflow tc run z1 of
                (Some e, z2) \<Rightarrow> (Upstream (statusForTemporalError (Temporal e)), z2)
              | (None, z2) \<Rightarrow> (Accepted ''cancel requested'', z2))))"

section \<open>Only what the deployment owns is used\<close>

text \<open>What may run: the devices of the deployment, or the virtual ones.\<close>

definition owned_config :: "deploy \<Rightarrow> Config \<Rightarrow> bool" where
  "owned_config h cfg \<longleftrightarrow>
     dp_Changer h \<noteq> [] \<and> lib_Changer (cfg_Library cfg) = dp_Changer h
   \<and> dp_Drives h \<noteq> [] \<and> lib_Drives (cfg_Library cfg) = dp_Drives h
   \<and> (\<forall>b. del_OpticalBurn (cfg_Delivery cfg) = Some b \<longrightarrow> dp_OpticalBurnerDrives h \<noteq> [] \<and> ob_Drives b = dp_OpticalBurnerDrives h)
   \<and> del_WebhookURL (cfg_Delivery cfg) = dp_WebhookURL h"

definition virtual_config :: "(string \<Rightarrow> string) \<Rightarrow> Config \<Rightarrow> bool" where
  "virtual_config getenv cfg \<longleftrightarrow>
     getenv MHVTLChangerEnv \<noteq> [] \<and> lib_Changer (cfg_Library cfg) = getenv MHVTLChangerEnv
   \<and> getenv MHVTLDrive0Env \<noteq> [] \<and> getenv MHVTLDrive1Env \<noteq> []
   \<and> lib_Drives (cfg_Library cfg) = [getenv MHVTLDrive0Env, getenv MHVTLDrive1Env]
   \<and> del_OpticalBurn (cfg_Delivery cfg) = None"

definition in_topology :: "deploy \<Rightarrow> Config \<Rightarrow> bool" where
  "in_topology h cfg \<longleftrightarrow> (0 < dp_SlotCount h \<longrightarrow> (\<forall>s \<in> set (lib_BlankSlots (cfg_Library cfg)).
     1 \<le> s \<and> s \<le> dp_SlotCount h \<and> s \<notin> set (dp_CleaningSlots h) \<and> s \<notin> set (dp_IOStationSlots h)))"

lemma check_slots_ok: "check_slots h i slots = Inr () \<longleftrightarrow>
   (\<forall>s \<in> set slots. 1 \<le> s \<and> s \<le> dp_SlotCount h \<and> s \<notin> set (dp_CleaningSlots h) \<and> s \<notin> set (dp_IOStationSlots h))"
  by (induction slots arbitrary: i) (auto simp: reserved_slot_def)

lemma in_topology_iff: "validateBlankSlotsAgainstTopology h cfg = Inr () \<longleftrightarrow> in_topology h cfg"
  by (auto simp: validateBlankSlotsAgainstTopology_def in_topology_def check_slots_ok)

lemma with_library_simps [simp]:
  "cfg_Library (with_library f c) = f (cfg_Library c)" "cfg_Delivery (with_library f c) = cfg_Delivery c"
  "cfg_Library (with_delivery g c) = cfg_Library c" "cfg_Delivery (with_delivery g c) = g (cfg_Delivery c)"
  by (simp_all add: with_library_def with_delivery_def)

lemma ApplyDryRun_virtual:
  assumes "ApplyDryRun getenv cfg = Inr c"
  shows "virtual_config getenv c \<and> Validate c = Inr () \<and> lib_BlankSlots (cfg_Library c) = lib_BlankSlots (cfg_Library cfg)
     \<and> lib_MirrorSourceChanger (cfg_Library c) \<in> {[], lib_Changer (cfg_Library cfg)}"
proof -
  let ?c1 = "with_library (\<lambda>l. l\<lparr> lib_MirrorSourceChanger :=
      (if lib_Changer (cfg_Library cfg) \<noteq> [] \<and> lib_Changer (cfg_Library cfg) \<noteq> getenv MHVTLChangerEnv then lib_Changer (cfg_Library cfg) else []),
      lib_Changer := getenv MHVTLChangerEnv, lib_Drives := [getenv MHVTLDrive0Env, getenv MHVTLDrive1Env] \<rparr>) cfg"
  let ?c2 = "with_delivery (\<lambda>d. d\<lparr> del_OpticalBurn := None \<rparr>) ?c1"
  have env: "getenv MHVTLChangerEnv \<noteq> []" "getenv MHVTLDrive0Env \<noteq> []" "getenv MHVTLDrive1Env \<noteq> []"
    using assms unfolding ApplyDryRun_def Let_def by (auto split: if_splits)
  then have "(case Validate ?c2 of Inl e \<Rightarrow> Inl (InvalidAfterDryRun e) | Inr _ \<Rightarrow> Inr ?c2) = Inr c"
    using assms unfolding ApplyDryRun_def Let_def by simp
  then have c: "c = ?c2" "Validate c = Inr ()" by (auto split: sum.splits)
  show ?thesis using env c(2) by (auto simp: c(1) virtual_config_def)
qed

lemma Validate_burn: "Validate c = Inr () \<Longrightarrow> valid_burn (del_OpticalBurn (cfg_Delivery c))"
  by (simp add: Validate_def run_simps Delivery_validate_def OpticalBurn_validate_ok)

lemma Validate_mirror: "Validate (with_library (\<lambda>l. l\<lparr> lib_MirrorSourceChanger := m \<rparr>) c) = Validate c"
  by (simp add: Validate_def Library_validate_def with_library_def)

lemma submission_cases:
  assumes "submission h getenv parsed dryRun = Inr cfg"
  obtains c applied where "applyDeployConfig h parsed = (c, applied)" "Validate c = Inr ()" "in_topology h c"
    "dryRun \<Longrightarrow> ApplyDryRun getenv c = Inr cfg" "\<not> dryRun \<Longrightarrow> requireDeviceOwnership h c = Inr () \<and> cfg = c"
proof -
  obtain c applied where a: "applyDeployConfig h parsed = (c, applied)" by fastforce
  have "Validate parsed = Inr ()" "applied \<longrightarrow> Validate c = Inr ()" "in_topology h c"
    "dryRun \<longrightarrow> ApplyDryRun getenv c = Inr cfg" "\<not> dryRun \<longrightarrow> requireDeviceOwnership h c = Inr () \<and> cfg = c"
    using assms a by (auto simp: submission_def run_simps in_topology_iff split: sum.splits if_splits)
  moreover have "\<not> applied \<longrightarrow> c = parsed" using a by (auto simp: applyDeployConfig_def Let_def split: if_splits)
  ultimately show thesis using that [OF a] by (cases applied) auto
qed

lemma applied_devices:
  assumes "applyDeployConfig h parsed = (c, applied)"
  shows "dp_Changer h \<noteq> [] \<Longrightarrow> lib_Changer (cfg_Library c) = dp_Changer h"
    "dp_Drives h \<noteq> [] \<Longrightarrow> lib_Drives (cfg_Library c) = dp_Drives h"
    "dp_WebhookURL h \<noteq> [] \<Longrightarrow> del_WebhookURL (cfg_Delivery c) = dp_WebhookURL h"
    "dp_OpticalBurnerDrives h \<noteq> [] \<Longrightarrow> del_OpticalBurn (cfg_Delivery c) = Some b \<Longrightarrow> ob_Drives b = dp_OpticalBurnerDrives h"
  using assms by (auto simp: applyDeployConfig_def Let_def split: if_splits)


definition sample_client :: "nat temporal_client" where
  "sample_client = \<lparr> tc_ExecuteWorkflow = (\<lambda>d c z. (Inr ''run'', Suc z)), tc_QueryPause = (\<lambda>r z. (Inl DeadlineExceeded, z)),
     tc_HistoryPause = (\<lambda>r z. (Inl NotFound, z)), tc_SignalWorkflow = (\<lambda>r s z. (None, z)),
     tc_Describe = (\<lambda>r z. (Inr True, z)), tc_CancelWorkflow = (\<lambda>r z. (None, z)) \<rparr>"

definition sample_deploy :: deploy where
  "sample_deploy = \<lparr> dp_Changer = ''/dev/sch0'', dp_Drives = [''/dev/nst0''], dp_WebhookURL = ''https://hook'',
     dp_OpticalBurnerDrives = [], dp_SlotCount = 40, dp_CleaningSlots = [40], dp_IOStationSlots = [] \<rparr>"

lemma sample_submit:
  "submitRun sample_client sample_deploy (\<lambda>_. ''x'') (\<lambda>_. Inr (example_config [example_source ''pool/a''], False)) [] 0 = (Created ''run'', 1)"
  by code_simp


end
