(* ===== verification/RunsHistory.thy ===== *)
theory RunsHistory
  imports RunsSubmit
begin

text \<open>
  The views of the web API over the raw history of a run: joining the events of an activity
  (\<open>pkg/runsapi/history.go\<close>), the phase timeline (\<open>phases.go\<close>), and the pause and the last phase as
  fallbacks for live queries (\<open>derive.go\<close>). Payloads are abstract; decoding them is a parameter that may fail. The display facts of a phase are not modelled.
\<close>

section \<open>Phases\<close>

definition phaseOrder :: "string list" where
  "phaseOrder = [''Resolve'', ''Prepare'', ''Pack'', ''Generate PAR2'', ''Verify'', ''Load'', ''Write'', ''Eject'',
     ''Report'', ''Burn'', ''Deliver'']"

section \<open>History\<close>

record 'p activityRecord =
  ar_ScheduledEventID :: int
  ar_ActivityID :: string
  ar_Name :: string
  ar_TaskQueue :: string
  ar_ScheduledTime :: int
  ar_Input :: "'p option"
  ar_Started :: bool
  ar_Completed :: bool
  ar_Failed :: bool
  ar_TimedOut :: bool
  ar_Canceled :: bool
  ar_EndTime :: "int option"
  ar_Result :: "'p option"
  ar_ErrorText :: string
  ar_Barcode :: string

definition Terminal :: "'p activityRecord \<Rightarrow> bool" where
  "Terminal a \<longleftrightarrow> ar_Completed a \<or> ar_Failed a \<or> ar_TimedOut a \<or> ar_Canceled a"

definition Failure :: "'p activityRecord \<Rightarrow> bool" where
  "Failure a \<longleftrightarrow> ar_Failed a \<or> ar_TimedOut a \<or> ar_Canceled a"

record 'p runHistory =
  rh_StartInput :: "'p option"
  rh_StartTime :: int
  rh_Activities :: "'p activityRecord list"
  rh_Closed :: bool
  rh_Succeeded :: bool
  rh_CloseTime :: int
  rh_FailureMessage :: string
  rh_FailingPhase :: string
  rh_FailingSummary :: string

text \<open>The events of a history that the views read, with their id and time.\<close>

datatype 'p event_kind =
  WorkflowStarted "'p option"
| ActivityScheduled string string string "'p option"
| ActivityStarted int
| ActivityCompleted int "'p option"
| ActivityFailed int string
| ActivityTimedOut int string
| ActivityCanceled int
| WorkflowCompleted
| WorkflowFailed string
| WorkflowTimedOut
| WorkflowTerminated
| WorkflowCanceled
| OtherEvent

record 'p history_event =
  he_id :: int
  he_time :: int
  he_kind :: "'p event_kind"

text \<open>The payload decoders of the default data converter.\<close>

record 'p decoders =
  dc_Barcode :: "'p \<Rightarrow> string option"
  dc_NotifyFailure :: "'p \<Rightarrow> (string \<times> string) option"
  dc_WritePathPause :: "'p \<Rightarrow> (string \<times> string list \<times> int list \<times> string) option"
  dc_OperatorPause :: "'p \<Rightarrow> (string list \<times> nat) option"
  dc_BurnPause :: "'p \<Rightarrow> (string list \<times> string) option"
  dc_LoadedTapes :: "'p \<Rightarrow> LoadedTape list option"
  dc_TapeMeasurement :: "'p \<Rightarrow> WriteHealth option"

definition decoded :: "('p \<Rightarrow> 'a option) \<Rightarrow> 'p option \<Rightarrow> 'a option" where
  "decoded f p = (case p of None \<Rightarrow> None | Some x \<Rightarrow> f x)"

definition extractBarcode :: "'p decoders \<Rightarrow> string \<Rightarrow> 'p option \<Rightarrow> string" where
  "extractBarcode d name input =
     (if name \<in> {''FormatTape'', ''WriteTree'', ''FinalizeTape'', ''MeasureWriteHealth''}
      then (case decoded (dc_Barcode d) input of Some b \<Rightarrow> b | None \<Rightarrow> []) else [])"

definition emptyHistory :: "'p runHistory" where
  "emptyHistory = \<lparr> rh_StartInput = None, rh_StartTime = 0, rh_Activities = [], rh_Closed = False, rh_Succeeded = False,
     rh_CloseTime = 0, rh_FailureMessage = [], rh_FailingPhase = [], rh_FailingSummary = [] \<rparr>"

definition update_activity ::
  "(int \<rightharpoonup> nat) \<Rightarrow> int \<Rightarrow> ('p activityRecord \<Rightarrow> 'p activityRecord) \<Rightarrow> 'p runHistory \<Rightarrow> 'p runHistory" where
  "update_activity index i f h =
     (case index i of
        None \<Rightarrow> h
      | Some k \<Rightarrow> h\<lparr> rh_Activities := (rh_Activities h)[k := f (rh_Activities h ! k)] \<rparr>)"

definition closed_with :: "int \<Rightarrow> string \<Rightarrow> 'p runHistory \<Rightarrow> 'p runHistory" where
  "closed_with t msg h = h\<lparr> rh_Closed := True, rh_CloseTime := t, rh_FailureMessage := msg \<rparr>"

definition applyHistoryEvent ::
  "'p decoders \<Rightarrow> 'p history_event \<Rightarrow> 'p runHistory \<times> (int \<rightharpoonup> nat) \<Rightarrow> 'p runHistory \<times> (int \<rightharpoonup> nat)" where
  "applyHistoryEvent d ev hi =
     (let (h, index) = hi; t = he_time ev in
      case he_kind ev of
        WorkflowStarted input \<Rightarrow> (h\<lparr> rh_StartInput := input, rh_StartTime := t \<rparr>, index)
      | ActivityScheduled aid name queue input \<Rightarrow>
          (h\<lparr> rh_Activities := rh_Activities h @ [\<lparr> ar_ScheduledEventID = he_id ev, ar_ActivityID = aid, ar_Name = name,
               ar_TaskQueue = queue, ar_ScheduledTime = t, ar_Input = input, ar_Started = False, ar_Completed = False,
               ar_Failed = False, ar_TimedOut = False, ar_Canceled = False, ar_EndTime = None, ar_Result = None,
               ar_ErrorText = [], ar_Barcode = extractBarcode d name input \<rparr>] \<rparr>,
           index(he_id ev \<mapsto> length (rh_Activities h)))
      | ActivityStarted i \<Rightarrow> (update_activity index i (\<lambda>a. a\<lparr> ar_Started := True \<rparr>) h, index)
      | ActivityCompleted i r \<Rightarrow>
          (update_activity index i (\<lambda>a. a\<lparr> ar_Completed := True, ar_EndTime := Some t, ar_Result := r \<rparr>) h, index)
      | ActivityFailed i msg \<Rightarrow>
          (update_activity index i (\<lambda>a. a\<lparr> ar_Failed := True, ar_EndTime := Some t, ar_ErrorText := msg \<rparr>) h, index)
      | ActivityTimedOut i msg \<Rightarrow>
          (update_activity index i (\<lambda>a. a\<lparr> ar_TimedOut := True, ar_EndTime := Some t, ar_ErrorText := msg \<rparr>) h, index)
      | ActivityCanceled i \<Rightarrow>
          (update_activity index i (\<lambda>a. a\<lparr> ar_Canceled := True, ar_EndTime := Some t \<rparr>) h, index)
      | WorkflowCompleted \<Rightarrow> (h\<lparr> rh_Closed := True, rh_Succeeded := True, rh_CloseTime := t \<rparr>, index)
      | WorkflowFailed msg \<Rightarrow> (closed_with t msg h, index)
      | WorkflowTimedOut \<Rightarrow> (closed_with t ''workflow execution timed out'' h, index)
      | WorkflowTerminated \<Rightarrow> (closed_with t ''workflow execution terminated'' h, index)
      | WorkflowCanceled \<Rightarrow> (closed_with t ''workflow execution canceled'' h, index)
      | OtherEvent \<Rightarrow> (h, index))"

section \<open>The failing phase\<close>

definition normalizeFailingPhase :: "string \<Rightarrow> string" where
  "normalizeFailingPhase phase = (if phase = ''Hold'' \<or> phase = ''Snapshot'' then ''Resolve'' else phase)"

text \<open>The first decodable alert decides: its phase, or only its summary.\<close>

fun notified :: "'p decoders \<Rightarrow> 'p activityRecord list \<Rightarrow> (string \<times> string) option" where
  "notified d [] = None"
| "notified d (a # as) =
     (if ar_Name a \<noteq> ''NotifyFailure'' then notified d as
      else (case decoded (dc_NotifyFailure d) (ar_Input a) of None \<Rightarrow> notified d as | Some x \<Rightarrow> Some x))"

definition phase_of_message :: "string \<Rightarrow> string option" where
  "phase_of_message msg =
     (if \<not> HasPrefix msg ''phase '' then None
      else (case Cut (TrimPrefix msg ''phase '') (CHR '':'') of
          (name, _, True) \<Rightarrow> Some (TrimSpace name) | _ \<Rightarrow> None))"

definition populateFailingPhase :: "'p decoders \<Rightarrow> 'p runHistory \<Rightarrow> 'p runHistory" where
  "populateFailingPhase d h =
     (let fallback = (\<lambda>h. if \<not> rh_Closed h \<or> rh_Succeeded h \<or> rh_FailureMessage h = [] then h
            else (case phase_of_message (rh_FailureMessage h) of
                None \<Rightarrow> h
              | Some name \<Rightarrow> h\<lparr> rh_FailingPhase := normalizeFailingPhase name,
                  rh_FailingSummary := (if rh_FailingSummary h = [] then rh_FailureMessage h else rh_FailingSummary h) \<rparr>)) in
      case notified d (rh_Activities h) of
        None \<Rightarrow> fallback h
      | Some (phase, summary) \<Rightarrow>
          if phase = [] then fallback (h\<lparr> rh_FailingSummary := summary \<rparr>)
          else h\<lparr> rh_FailingPhase := normalizeFailingPhase phase, rh_FailingSummary := summary \<rparr>)"

definition fetchRunHistory :: "'p decoders \<Rightarrow> 'p history_event list \<Rightarrow> 'p runHistory" where
  "fetchRunHistory d events = populateFailingPhase d (fst (fold (applyHistoryEvent d) events (emptyHistory, Map.empty)))"

section \<open>The phase of an activity\<close>

definition writePathPausePhase :: "'p decoders \<Rightarrow> 'p option \<Rightarrow> string" where
  "writePathPausePhase d input =
     (case decoded (dc_WritePathPause d) input of
        Some (phase, _) \<Rightarrow> if phase = ''Load'' then ''Load'' else ''Write'' | None \<Rightarrow> ''Write'')"

definition phaseForActivity :: "'p decoders \<Rightarrow> string \<Rightarrow> 'p option \<Rightarrow> string option" where
  "phaseForActivity d name input =
     (if name \<in> {''ResolvePropertySources'', ''ListClaimSources'', ''ResolveK8sSources'', ''ResolveAndCheck'', ''CreateRunSnapshots'', ''HoldSnapshots''}
      then Some ''Resolve''
      else if name = ''PrepareArchives'' then Some ''Prepare''
      else if name = ''Pack'' then Some ''Pack''
      else if name = ''GeneratePAR2'' then Some ''Generate PAR2''
      else if name = ''Verify'' then Some ''Verify''
      else if name = ''Load'' then Some ''Load''
      else if name \<in> {''FormatTape'', ''WriteTree'', ''FinalizeTape'', ''MeasureWriteHealth'', ''TeardownSession''} then Some ''Write''
      else if name \<in> {''Eject'', ''IOStationStatus'', ''NotifyOperatorPause''} then Some ''Eject''
      else if name = ''BuildReport'' then Some ''Report''
      else if name \<in> {''BurnDisc'', ''VerifyDisc'', ''NotifyBurnPause'', ''RebuildDeliveredReport''} then Some ''Burn''
      else if name = ''Deliver'' then Some ''Deliver''
      else if name = ''NotifyWritePathPause'' then Some (writePathPausePhase d input)
      else None)"

section \<open>The current pause\<close>

definition isPauseAlert :: "string \<Rightarrow> bool" where
  "isPauseAlert name \<longleftrightarrow> name \<in> {''NotifyWritePathPause'', ''NotifyOperatorPause'', ''NotifyBurnPause''}"

definition pauseFromAlert :: "'p decoders \<Rightarrow> 'p activityRecord \<Rightarrow> CurrentPause" where
  "pauseFromAlert d a =
     (if ar_Name a = ''NotifyWritePathPause'' then
        (case decoded (dc_WritePathPause d) (ar_Input a) of
           None \<Rightarrow> noPause\<lparr> cp_Kind := PauseWriteFailure \<rparr>
         | Some (phase, tapes, slots, msg) \<Rightarrow> noPause\<lparr> cp_Kind := PauseWriteFailure, cp_Phase := phase,
             cp_AffectedTapes := tapes, cp_ReloadSlots := slots, cp_ErrorSummary := msg \<rparr>)
      else if ar_Name a = ''NotifyOperatorPause'' then
        (case decoded (dc_OperatorPause d) (ar_Input a) of
           None \<Rightarrow> noPause\<lparr> cp_Kind := PauseEject \<rparr>
         | Some (ready, awaiting) \<Rightarrow> noPause\<lparr> cp_Kind := PauseEject, cp_AffectedTapes := ready, cp_AwaitingExport := awaiting \<rparr>)
      else if ar_Name a = ''NotifyBurnPause'' then
        (case decoded (dc_BurnPause d) (ar_Input a) of
           None \<Rightarrow> noPause\<lparr> cp_Kind := PauseBurn \<rparr>
         | Some (devices, msg) \<Rightarrow> noPause\<lparr> cp_Kind := PauseBurn, cp_Devices := devices, cp_ErrorSummary := msg \<rparr>)
      else noPause)"

text \<open>The index of the last alert, as the loop keeps it.\<close>

fun last_alert :: "nat \<Rightarrow> int \<Rightarrow> 'p activityRecord list \<Rightarrow> int" where
  "last_alert i found [] = found"
| "last_alert i found (a # as) = last_alert (Suc i) (if isPauseAlert (ar_Name a) then int i else found) as"

definition derivePause :: "'p decoders \<Rightarrow> 'p runHistory \<Rightarrow> CurrentPause" where
  "derivePause d h =
     (if rh_Closed h then noPause
      else
        let lastAlert = last_alert 0 (- 1) (rh_Activities h) in
        if lastAlert = - 1 \<or> lastAlert \<noteq> int (length (rh_Activities h)) - 1 then noPause
        else pauseFromAlert d (rh_Activities h ! nat lastAlert))"

section \<open>The timeline\<close>

datatype PhaseStatus = PhasePending | PhaseActive | PhaseCompleted | PhaseFailed

record PhaseInfo =
  pi_Name :: string
  pi_Status :: PhaseStatus
  pi_StartTime :: "int option"
  pi_EndTime :: "int option"
  pi_Error :: string

definition by_phase :: "'p decoders \<Rightarrow> 'p activityRecord list \<Rightarrow> string \<Rightarrow> 'p activityRecord list" where
  "by_phase d as phase = filter (\<lambda>a. phaseForActivity d (ar_Name a) (ar_Input a) = Some phase) as"

fun phase_index :: "nat \<Rightarrow> string list \<Rightarrow> string \<Rightarrow> int" where
  "phase_index i [] name = - 1"
| "phase_index i (p # ps) name = (if p = name then int i else phase_index (Suc i) ps name)"

definition phaseIndex :: "string \<Rightarrow> int" where
  "phaseIndex name = phase_index 0 phaseOrder name"

fun latest_record :: "nat \<Rightarrow> int \<times> int \<Rightarrow> 'p activityRecord list \<Rightarrow> int \<times> int" where
  "latest_record i acc [] = acc"
| "latest_record i (latest, eid) (a # as) =
     latest_record i (if eid \<le> ar_ScheduledEventID a then (int i, ar_ScheduledEventID a) else (latest, eid)) as"

fun latest_phase :: "nat \<Rightarrow> int \<times> int \<Rightarrow> (string \<Rightarrow> 'p activityRecord list) \<Rightarrow> string list \<Rightarrow> int \<times> int" where
  "latest_phase i acc byPhase [] = acc"
| "latest_phase i acc byPhase (p # ps) = latest_phase (Suc i) (latest_record i acc (byPhase p)) byPhase ps"

definition timelineFrontier :: "'p runHistory \<Rightarrow> (string \<Rightarrow> 'p activityRecord list) \<Rightarrow> int \<times> bool \<times> string" where
  "timelineFrontier h byPhase =
     (if rh_Succeeded h then (int (length phaseOrder), False, [])
      else if rh_Closed h \<and> rh_FailingPhase h \<noteq> [] \<and> 0 \<le> phaseIndex (rh_FailingPhase h)
      then (phaseIndex (rh_FailingPhase h), True, rh_FailingSummary h)
      else
        let latest = fst (latest_phase 0 (- 1, 0) byPhase phaseOrder) in
        if rh_Closed h then (latest, 0 \<le> latest, rh_FailureMessage h) else (latest, False, []))"

fun activitySpan :: "int option \<times> int option \<Rightarrow> 'p activityRecord list \<Rightarrow> int option \<times> int option" where
  "activitySpan se [] = se"
| "activitySpan (start, stop) (a # as) = activitySpan
     (case start of None \<Rightarrow> Some (ar_ScheduledTime a) | Some s \<Rightarrow> Some (min s (ar_ScheduledTime a)),
      case (ar_EndTime a, stop) of (None, _) \<Rightarrow> stop | (Some e, None) \<Rightarrow> Some e | (Some e, Some s) \<Rightarrow> Some (max e s)) as"

definition phase_info :: "'p runHistory \<Rightarrow> int \<Rightarrow> bool \<Rightarrow> string \<Rightarrow> bool \<Rightarrow> nat \<Rightarrow> string \<Rightarrow> 'p activityRecord list \<Rightarrow> PhaseInfo" where
  "phase_info h frontier failed msg paused i name records =
     (let (start, stop) = activitySpan (None, None) (sort_key ar_ScheduledEventID records) in
      if failed \<and> int i = frontier
      then \<lparr> pi_Name = name, pi_Status = PhaseFailed, pi_StartTime = start, pi_EndTime = stop, pi_Error = msg \<rparr>
      else if rh_Succeeded h \<or> int i < frontier
      then \<lparr> pi_Name = name, pi_Status = PhaseCompleted, pi_StartTime = start, pi_EndTime = stop, pi_Error = [] \<rparr>
      else if \<not> rh_Closed h \<and> (int i = frontier \<or> (records \<noteq> [] \<and> \<not> paused))
      then \<lparr> pi_Name = name, pi_Status = PhaseActive, pi_StartTime = start, pi_EndTime = None, pi_Error = [] \<rparr>
      else \<lparr> pi_Name = name, pi_Status = PhasePending, pi_StartTime = None, pi_EndTime = None, pi_Error = [] \<rparr>)"

definition buildPhaseTimeline :: "'p decoders \<Rightarrow> 'p runHistory \<Rightarrow> PhaseInfo list" where
  "buildPhaseTimeline d h =
     (let byPhase = by_phase d (rh_Activities h);
          (frontier, failed, msg) = timelineFrontier h byPhase;
          paused = cp_Kind (derivePause d h) \<noteq> PauseNone in
      map (\<lambda>i. phase_info h frontier failed msg paused i (phaseOrder ! i) (byPhase (phaseOrder ! i))) [0..<length phaseOrder])"

fun last_completed :: "string \<Rightarrow> PhaseInfo list \<Rightarrow> string" where
  "last_completed found [] = found"
| "last_completed found (p # ps) = last_completed (if pi_Status p = PhaseCompleted then pi_Name p else found) ps"

definition lastCompletedPhase :: "PhaseInfo list \<Rightarrow> string" where
  "lastCompletedPhase timeline = last_completed [] timeline"

definition deriveLastCompletedPhase :: "'p decoders \<Rightarrow> 'p runHistory \<Rightarrow> string" where
  "deriveLastCompletedPhase d h = lastCompletedPhase (buildPhaseTimeline d h)"

record RunPhases =
  rp_LastCompleted :: string
  rp_Active :: "PhaseInfo list"

definition DeriveRunPhases :: "'p decoders \<Rightarrow> 'p history_event list \<Rightarrow> RunPhases" where
  "DeriveRunPhases d events =
     (let timeline = buildPhaseTimeline d (fetchRunHistory d events) in
      \<lparr> rp_LastCompleted = lastCompletedPhase timeline, rp_Active = filter (\<lambda>p. pi_Status p = PhaseActive) timeline \<rparr>)"

section \<open>Joining the events of an activity\<close>

text \<open>What a single event does to the record of an activity, and the record it opens.\<close>

fun refers :: "'p event_kind \<Rightarrow> int option" where
  "refers (ActivityStarted i) = Some i"
| "refers (ActivityCompleted i _) = Some i"
| "refers (ActivityFailed i _) = Some i"
| "refers (ActivityTimedOut i _) = Some i"
| "refers (ActivityCanceled i) = Some i"
| "refers _ = None"

definition touch :: "'p history_event \<Rightarrow> 'p activityRecord \<Rightarrow> 'p activityRecord" where
  "touch ev a =
     (if refers (he_kind ev) \<noteq> Some (ar_ScheduledEventID a) then a
      else (case he_kind ev of
          ActivityStarted _ \<Rightarrow> a\<lparr> ar_Started := True \<rparr>
        | ActivityCompleted _ r \<Rightarrow> a\<lparr> ar_Completed := True, ar_EndTime := Some (he_time ev), ar_Result := r \<rparr>
        | ActivityFailed _ msg \<Rightarrow> a\<lparr> ar_Failed := True, ar_EndTime := Some (he_time ev), ar_ErrorText := msg \<rparr>
        | ActivityTimedOut _ msg \<Rightarrow> a\<lparr> ar_TimedOut := True, ar_EndTime := Some (he_time ev), ar_ErrorText := msg \<rparr>
        | ActivityCanceled _ \<Rightarrow> a\<lparr> ar_Canceled := True, ar_EndTime := Some (he_time ev) \<rparr>
        | _ \<Rightarrow> a))"

fun opened :: "'p decoders \<Rightarrow> 'p history_event \<Rightarrow> 'p activityRecord list" where
  "opened d \<lparr> he_id = i, he_time = t, he_kind = ActivityScheduled aid name queue input \<rparr> =
     [\<lparr> ar_ScheduledEventID = i, ar_ActivityID = aid, ar_Name = name,
        ar_TaskQueue = queue, ar_ScheduledTime = t, ar_Input = input, ar_Started = False, ar_Completed = False,
        ar_Failed = False, ar_TimedOut = False, ar_Canceled = False, ar_EndTime = None, ar_Result = None,
        ar_ErrorText = [], ar_Barcode = extractBarcode d name input \<rparr>]"
| "opened d _ = []"

text \<open>The activities of a history: one per scheduling event, in order, with the later events about it.\<close>

fun joined_activities :: "'p decoders \<Rightarrow> 'p history_event list \<Rightarrow> 'p activityRecord list" where
  "joined_activities d [] = []"
| "joined_activities d (ev # evs) = map (\<lambda>a. fold touch evs a) (opened d ev) @ joined_activities d evs"

lemma touch_id [simp]: "ar_ScheduledEventID (touch ev a) = ar_ScheduledEventID a"
  by (auto simp: touch_def split: event_kind.split)

lemma joined_activities_snoc:
  "joined_activities d (evs @ [ev]) = map (touch ev) (joined_activities d evs) @ opened d ev"
  by (induction evs) simp_all

definition index_ok :: "'p runHistory \<times> (int \<rightharpoonup> nat) \<Rightarrow> bool" where
  "index_ok hi \<longleftrightarrow> (\<forall>i k. snd hi i = Some k \<longleftrightarrow>
     k < length (rh_Activities (fst hi)) \<and> ar_ScheduledEventID (rh_Activities (fst hi) ! k) = i)"

lemma update_activity_touch:
  assumes ok: "index_ok (h, index)" and "refers (he_kind ev) = Some i" and f: "\<And>a. ar_ScheduledEventID a = i \<Longrightarrow> f a = touch ev a"
  shows "update_activity index i f h = h\<lparr> rh_Activities := map (touch ev) (rh_Activities h) \<rparr>"
proof -
  have other: "touch ev a = a" if "ar_ScheduledEventID a \<noteq> i" for a using that assms(2) by (simp add: touch_def)
  show ?thesis
  proof (cases "index i")
    case None
    then have "ar_ScheduledEventID a \<noteq> i" if a: "a \<in> set (rh_Activities h)" for a
    proof -
      obtain ia where ia: "ia < length (rh_Activities h)" "rh_Activities h ! ia = a" using a by (auto simp: in_set_conv_nth)
      have "index (ar_ScheduledEventID a) = Some ia" using ok ia by (auto simp: index_ok_def)
      then show ?thesis using None by auto
    qed
    then have "map (touch ev) (rh_Activities h) = rh_Activities h" using other by (simp add: map_idI)
    then show ?thesis using None by (simp add: update_activity_def)
  next
    case (Some k)
    then have k: "k < length (rh_Activities h)" "ar_ScheduledEventID (rh_Activities h ! k) = i" using ok by (auto simp: index_ok_def)
    have "(rh_Activities h)[k := f (rh_Activities h ! k)] = map (touch ev) (rh_Activities h)"
    proof (rule nth_equalityI)
      fix j assume j: "j < length ((rh_Activities h)[k := f (rh_Activities h ! k)])"
      show "(rh_Activities h)[k := f (rh_Activities h ! k)] ! j = map (touch ev) (rh_Activities h) ! j"
      proof (cases "j = k")
        case False
        then have "ar_ScheduledEventID (rh_Activities h ! j) \<noteq> i"
          using ok Some j unfolding index_ok_def by (metis fst_conv snd_conv length_list_update option.inject)
        then show ?thesis using other False j by simp
      qed (use k f in simp)
    qed simp
    then show ?thesis using Some by (simp add: update_activity_def)
  qed
qed

lemma index_ok_touch:
  "index_ok (h, index) \<Longrightarrow> index_ok (h'\<lparr> rh_Activities := map (touch ev) (rh_Activities h) \<rparr>, index)"
  unfolding index_ok_def by auto

definition closes :: "'p event_kind \<Rightarrow> bool" where
  "closes k \<longleftrightarrow> k \<in> {WorkflowCompleted, WorkflowTimedOut, WorkflowTerminated, WorkflowCanceled} \<or> (\<exists>m. k = WorkflowFailed m)"

lemma update_activity_closed [simp]:
  "rh_Closed (update_activity index i f h) = rh_Closed h" "rh_Succeeded (update_activity index i f h) = rh_Succeeded h"
  by (simp_all add: update_activity_def split: option.split)

lemma apply_closed:
  "rh_Closed (fst (applyHistoryEvent d ev (h, index))) \<longleftrightarrow> rh_Closed h \<or> closes (he_kind ev)"
  "rh_Succeeded (fst (applyHistoryEvent d ev (h, index))) \<longleftrightarrow> rh_Succeeded h \<or> he_kind ev = WorkflowCompleted"
  by (cases "he_kind ev"; simp add: applyHistoryEvent_def closes_def closed_with_def)+

lemma opened_unless: "(\<And>aid name queue input. he_kind ev \<noteq> ActivityScheduled aid name queue input) \<Longrightarrow> opened d ev = []"
  by (cases ev; cases "he_kind ev") auto

lemma touch_unless: "refers (he_kind ev) = None \<Longrightarrow> map (touch ev) as = as"
  by (simp add: touch_def map_idI)

lemma apply_event:
  assumes ok: "index_ok (h, index)"
    and fresh: "opened d ev \<noteq> [] \<Longrightarrow> \<forall>a \<in> set (rh_Activities h). ar_ScheduledEventID a \<noteq> he_id ev"
    and step: "applyHistoryEvent d ev (h, index) = (h', index')"
  shows "index_ok (h', index') \<and> rh_Activities h' = map (touch ev) (rh_Activities h) @ opened d ev"
proof (cases "he_kind ev")
  case (ActivityScheduled aid name queue input)
  obtain i t where ev: "ev = \<lparr> he_id = i, he_time = t, he_kind = ActivityScheduled aid name queue input \<rparr>"
    using ActivityScheduled by (cases ev) auto
  have "map (touch ev) (rh_Activities h) = rh_Activities h" using ActivityScheduled by (simp add: touch_unless)
  moreover have "index_ok (h', index')"
  proof -
    have "\<forall>k < length (rh_Activities h). ar_ScheduledEventID (rh_Activities h ! k) \<noteq> i" using fresh ev by simp
    then show ?thesis using step ev ok
      by (auto simp: applyHistoryEvent_def index_ok_def nth_append less_Suc_eq split: if_splits)
  qed
  ultimately show ?thesis using step ev by (auto simp: applyHistoryEvent_def)
qed (use step opened_unless[of ev d] index_ok_touch[OF ok] ok in
  \<open>auto simp: applyHistoryEvent_def closed_with_def touch_unless touch_def index_ok_def
     update_activity_touch[OF ok, where ev = ev]\<close>)

definition scheduled_ids :: "'p history_event list \<Rightarrow> int list" where
  "scheduled_ids events = map he_id (filter (\<lambda>ev. \<exists>aid name queue input. he_kind ev = ActivityScheduled aid name queue input) events)"

lemma joined_ids: "map ar_ScheduledEventID (joined_activities d events) = scheduled_ids events"
proof (induction events)
  case (Cons ev events)
  have fold_id: "ar_ScheduledEventID (fold touch evs a) = ar_ScheduledEventID a" for evs and a :: "'a activityRecord"
    by (induction evs arbitrary: a) simp_all
  show ?case using Cons by (cases ev; cases "he_kind ev") (auto simp: scheduled_ids_def fold_id)
qed (simp add: scheduled_ids_def)

lemma fold_events:
  assumes "distinct (scheduled_ids events)" "fold (applyHistoryEvent d) events (emptyHistory, Map.empty) = (h, index)"
  shows "index_ok (h, index) \<and> rh_Activities h = joined_activities d events
     \<and> (rh_Closed h \<longleftrightarrow> (\<exists>ev \<in> set events. closes (he_kind ev)))
     \<and> (rh_Succeeded h \<longleftrightarrow> (\<exists>ev \<in> set events. he_kind ev = WorkflowCompleted))"
  using assms
proof (induction events arbitrary: h index rule: rev_induct)
  case Nil
  then show ?case by (auto simp: emptyHistory_def index_ok_def)
next
  case (snoc ev events)
  obtain h0 index0 where h0: "fold (applyHistoryEvent d) events (emptyHistory, Map.empty) = (h0, index0)" by (meson surj_pair)
  have "distinct (scheduled_ids events)" using snoc.prems(1) by (simp add: scheduled_ids_def)
  note ih = snoc.IH[OF this h0]
  have fresh: "\<forall>a \<in> set (rh_Activities h0). ar_ScheduledEventID a \<noteq> he_id ev" if "opened d ev \<noteq> []"
  proof -
    have "he_id ev \<notin> set (scheduled_ids events)"
      using snoc.prems(1) that by (cases ev; cases "he_kind ev") (auto simp: scheduled_ids_def)
    then show ?thesis using ih joined_ids[of d events] by (metis imageI list.set_map)
  qed
  have step: "applyHistoryEvent d ev (h0, index0) = (h, index)" using snoc.prems(2) h0 by simp
  show ?case using apply_event[OF _ fresh step] apply_closed[of d ev h0 index0] ih step
    by (auto simp: joined_activities_snoc)
qed

lemma populate_keeps [simp]:
  "rh_Activities (populateFailingPhase d h) = rh_Activities h" "rh_Closed (populateFailingPhase d h) = rh_Closed h"
  "rh_Succeeded (populateFailingPhase d h) = rh_Succeeded h"
  by (simp_all add: populateFailingPhase_def Let_def split: option.split prod.split)

lemma history_activities:
  "distinct (scheduled_ids events) \<Longrightarrow> rh_Activities (fetchRunHistory d events) = joined_activities d events"
  "distinct (scheduled_ids events) \<Longrightarrow> rh_Closed (fetchRunHistory d events) \<longleftrightarrow> (\<exists>ev \<in> set events. closes (he_kind ev))"
  using fold_events[of events d, OF _ prod.collapse[symmetric]] by (simp_all add: fetchRunHistory_def)

text \<open>The views of a run are read from a history in which every activity is one record: however the
  events interleave, the record of an activity is what its scheduling event opened, changed by exactly the
  later events that refer to it and by no other, in order; and the history is closed exactly when a
  closing event is in it.\<close>
theorem history_joins_events:
  assumes "distinct (scheduled_ids events)"
  shows "rh_Activities (fetchRunHistory d events) = joined_activities d events
     \<and> (rh_Closed (fetchRunHistory d events) \<longleftrightarrow> (\<exists>ev \<in> set events. closes (he_kind ev)))
     \<and> (rh_Succeeded (fetchRunHistory d events) \<longleftrightarrow> (\<exists>ev \<in> set events. he_kind ev = WorkflowCompleted))"
  using fold_events[of events d, OF assms prod.collapse[symmetric]] by (simp add: fetchRunHistory_def)

section \<open>The shape of the timeline\<close>

lemma latest_record_fst: "fst (latest_record i acc as) = fst acc \<or> fst (latest_record i acc as) = int i"
  by (induction i acc as rule: latest_record.induct) auto

lemma latest_record_none:
  assumes "\<forall>a \<in> set as. 0 < ar_ScheduledEventID a" "fst acc = - 1 \<longrightarrow> snd acc = 0"
  shows "fst (latest_record i acc as) = - 1 \<longrightarrow> fst acc = - 1 \<and> snd (latest_record i acc as) = 0 \<and> as = []"
proof (cases as)
  case (Cons a as')
  have "fst (latest_record i acc as) \<noteq> - 1" if "fst acc \<noteq> - 1" for i acc and as :: "'a activityRecord list"
    using latest_record_fst[of i acc as] that by auto
  from this[of _ _ as'] show ?thesis using Cons assms latest_record_fst[of i "(fst acc, snd acc)" as]
    by (cases acc) auto
qed (use assms in simp)

lemma latest_phase_range:
  "- 1 \<le> fst acc \<Longrightarrow> fst acc < int i + int (length ps)
    \<Longrightarrow> - 1 \<le> fst (latest_phase i acc by ps) \<and> fst (latest_phase i acc by ps) < int i + int (length ps)"
proof (induction i acc "by" ps rule: latest_phase.induct)
  case (2 i acc "by" p ps)
  show ?case using 2(1) 2(2,3) latest_record_fst[of i acc "by p"] by auto
qed simp

lemma latest_phase_none:
  assumes "\<forall>p. \<forall>a \<in> set (by p). 0 < ar_ScheduledEventID a" "fst acc = - 1 \<longrightarrow> snd acc = 0"
    "fst (latest_phase i acc by ps) = - 1"
  shows "fst acc = - 1 \<and> (\<forall>p \<in> set ps. by p = [])"
  using assms(2-)
proof (induction ps arbitrary: i acc)
  case (Cons p ps)
  note rec = latest_record_none[of "by p" acc i, OF spec[OF assms(1)] Cons.prems(1)]
  then have "fst (latest_record i acc (by p)) = - 1 \<longrightarrow> snd (latest_record i acc (by p)) = 0" by blast
  moreover have "fst (latest_phase (Suc i) (latest_record i acc (by p)) by ps) = - 1" using Cons.prems(2) by simp
  ultimately have "fst (latest_record i acc (by p)) = - 1 \<and> (\<forall>p \<in> set ps. by p = [])" by (rule Cons.IH)
  then show ?case using rec by simp
qed simp

lemma phase_index_range: "phase_index i ps name = - 1 \<or> (int i \<le> phase_index i ps name \<and> phase_index i ps name < int i + int (length ps))"
  by (induction i ps name rule: phase_index.induct) auto

lemma upt_split: "k < n \<Longrightarrow> map f [0..<n] = map f [0..<k] @ f k # map f [Suc k..<n]"
  by (metis le_add1 less_imp_add_positive list.simps(9) map_append plus_nat.add_0 upt_add_eq_append upt_conv_Cons)

lemma map_replicate_upt: "(\<And>i. i \<in> {a..<b} \<Longrightarrow> f i = c) \<Longrightarrow> map f [a..<b] = replicate (b - a) c"
  by (rule nth_equalityI) auto

definition statuses :: "PhaseInfo list \<Rightarrow> PhaseStatus list" where
  "statuses timeline = map pi_Status timeline"

text \<open>What a reader may rely on about the timeline of a run.\<close>

definition timeline_shape :: "'p decoders \<Rightarrow> 'p runHistory \<Rightarrow> PhaseInfo list \<Rightarrow> bool" where
  "timeline_shape d h timeline \<longleftrightarrow>
     map pi_Name timeline = phaseOrder \<and>
     (\<forall>p \<in> set timeline. pi_Error p \<noteq> [] \<longrightarrow> pi_Status p = PhaseFailed) \<and>
     (if rh_Succeeded h then statuses timeline = replicate 11 PhaseCompleted
      else statuses timeline = replicate 11 PhasePending \<or>
        (\<exists>k beyond. statuses timeline = replicate k PhaseCompleted @ (if rh_Closed h then PhaseFailed else PhaseActive) # beyond
           \<and> set beyond \<subseteq> (if rh_Closed h \<or> cp_Kind (derivePause d h) \<noteq> PauseNone then {PhasePending} else {PhaseActive, PhasePending})))"

lemma phase_info_status:
  "pi_Status (phase_info h frontier failed msg paused i name records) =
     (if failed \<and> int i = frontier then PhaseFailed
      else if rh_Succeeded h \<or> int i < frontier then PhaseCompleted
      else if \<not> rh_Closed h \<and> (int i = frontier \<or> (records \<noteq> [] \<and> \<not> paused)) then PhaseActive else PhasePending)"
  unfolding phase_info_def Let_def
  by (cases "activitySpan (None, None) (sort_key ar_ScheduledEventID records)") simp

lemma phase_info_name [simp]: "pi_Name (phase_info h frontier failed msg paused i name records) = name"
  unfolding phase_info_def Let_def
  by (cases "activitySpan (None, None) (sort_key ar_ScheduledEventID records)") simp

lemma phase_info_error:
  "pi_Error (phase_info h frontier failed msg paused i name records) \<noteq> []
     \<Longrightarrow> pi_Status (phase_info h frontier failed msg paused i name records) = PhaseFailed"
  unfolding phase_info_def Let_def
  by (cases "activitySpan (None, None) (sort_key ar_ScheduledEventID records)") (simp split: if_splits)

lemma frontier_range:
  assumes "\<not> rh_Succeeded h" "timelineFrontier h byPhase = (frontier, failed, msg)"
  shows "- 1 \<le> frontier \<and> frontier < 11 \<and> (failed \<longleftrightarrow> rh_Closed h \<and> 0 \<le> frontier)"
  using assms latest_phase_range[of "(- 1, 0)" 0 phaseOrder byPhase] phase_index_range[of 0 phaseOrder "rh_FailingPhase h"]
  by (auto simp: timelineFrontier_def phaseIndex_def Let_def phaseOrder_def split: if_splits)

lemma frontier_none:
  assumes "\<forall>a \<in> set (rh_Activities h). 0 < ar_ScheduledEventID a" "\<not> rh_Succeeded h" "\<not> rh_Closed h"
    "timelineFrontier h (by_phase d (rh_Activities h)) = (- 1, failed, msg)" "p \<in> set phaseOrder"
  shows "by_phase d (rh_Activities h) p = []"
  using assms latest_phase_none[of "by_phase d (rh_Activities h)" "(- 1, 0)" 0 phaseOrder]
  by (auto simp: timelineFrontier_def Let_def by_phase_def split: if_splits)

text \<open>The statuses of the phases, from their indexes alone.\<close>

lemma status_shape:
  assumes st: "\<And>i. st i = (if failed \<and> int i = frontier then PhaseFailed else if int i < frontier then PhaseCompleted
      else if \<not> over \<and> (int i = frontier \<or> (busy i \<and> \<not> paused)) then PhaseActive else PhasePending)"
    and range: "- 1 \<le> frontier" "frontier < 11" "failed \<longleftrightarrow> over \<and> 0 \<le> frontier"
    and idle: "\<And>i. frontier = - 1 \<Longrightarrow> \<not> over \<Longrightarrow> i < 11 \<Longrightarrow> \<not> busy i"
  shows "map st [0..<11] = replicate 11 PhasePending \<or>
    (\<exists>k beyond. map st [0..<11] = replicate k PhaseCompleted @ (if over then PhaseFailed else PhaseActive) # beyond
       \<and> set beyond \<subseteq> (if over \<or> paused then {PhasePending} else {PhaseActive, PhasePending}))"
proof (cases "frontier = - 1")
  case True
  then have "st i = PhasePending" if "i < 11" for i using st[of i] range idle[of i] that by auto
  then show ?thesis using map_replicate_upt[of 0 11 st PhasePending] by simp
next
  case False
  define k where "k = nat frontier"
  have k: "k < 11" "frontier = int k" using range False by (auto simp: k_def)
  have "map st [0..<k] = replicate k PhaseCompleted" using map_replicate_upt[of 0 k st PhaseCompleted] k st by simp
  moreover have "st k = (if over then PhaseFailed else PhaseActive)" using range k st by simp
  moreover have "set (map st [Suc k..<11]) \<subseteq> (if over \<or> paused then {PhasePending} else {PhaseActive, PhasePending})"
    using k st by auto
  ultimately have "\<exists>k beyond. map st [0..<11] = replicate k PhaseCompleted @ (if over then PhaseFailed else PhaseActive) # beyond
      \<and> set beyond \<subseteq> (if over \<or> paused then {PhasePending} else {PhaseActive, PhasePending})"
    using upt_split[OF k(1), of st] by (intro exI[of _ k] exI[of _ "map st [Suc k..<11]"]) simp
  then show ?thesis by simp
qed

text \<open>C37: every timeline shows the eleven phases in their order; a succeeded run shows all of them completed;
  a run that ended otherwise shows nothing, or completed phases, then exactly one failed phase, then
  pending ones; an open run shows nothing, or completed phases, then an active one, then phases that are
  active or pending, only pending when the run is paused. An error text appears on a failed phase only.\<close>
theorem timeline_has_shape:
  assumes ids: "\<forall>a \<in> set (rh_Activities h). 0 < ar_ScheduledEventID a"
  shows "timeline_shape d h (buildPhaseTimeline d h)"
proof -
  define paused where "paused = (cp_Kind (derivePause d h) \<noteq> PauseNone)"
  define ph where "ph = by_phase d (rh_Activities h)"
  obtain frontier failed msg where fr: "timelineFrontier h ph = (frontier, failed, msg)" by (metis prod_cases3)
  define info where "info = (\<lambda>i. phase_info h frontier failed msg paused i (phaseOrder ! i) (ph (phaseOrder ! i)))"
  define st where "st = (\<lambda>i. pi_Status (info i))"
  have len: "length phaseOrder = 11" by (simp add: phaseOrder_def)
  have tl: "buildPhaseTimeline d h = map info [0..<11]"
    using fr len unfolding buildPhaseTimeline_def Let_def ph_def info_def paused_def by simp
  have names: "map pi_Name (map info [0..<11]) = phaseOrder"
    by (rule nth_equalityI) (simp_all add: info_def phaseOrder_def)
  have err: "\<forall>p \<in> set (map info [0..<11]). pi_Error p \<noteq> [] \<longrightarrow> pi_Status p = PhaseFailed"
    by (auto simp: info_def phase_info_error)
  have sts: "statuses (map info [0..<11]) = map st [0..<11]" by (simp add: statuses_def st_def comp_def)
  note facts = names err sts
  show ?thesis
  proof (cases "rh_Succeeded h")
    case True
    then have "st i = PhaseCompleted" if "i < 11" for i
      using fr that by (auto simp: st_def info_def phase_info_status timelineFrontier_def)
    then show ?thesis using True map_replicate_upt[of 0 11 st PhaseCompleted] facts
      unfolding tl timeline_shape_def by simp
  next
    case False
    have "ph (phaseOrder ! i) = []" if "frontier = - 1" "\<not> rh_Closed h" "i < 11" for i
      using frontier_none[OF ids False that(2), of d failed msg "phaseOrder ! i"] fr that(1,3) len by (simp add: ph_def)
    then have idle: "\<not> ph (phaseOrder ! i) \<noteq> []" if "frontier = - 1" "\<not> rh_Closed h" "i < 11" for i using that by simp
    have st: "st i = (if failed \<and> int i = frontier then PhaseFailed else if int i < frontier then PhaseCompleted
        else if \<not> rh_Closed h \<and> (int i = frontier \<or> (ph (phaseOrder ! i) \<noteq> [] \<and> \<not> paused)) then PhaseActive else PhasePending)" for i
      using False by (simp add: st_def info_def phase_info_status)
    have range: "- 1 \<le> frontier" "frontier < 11" "failed \<longleftrightarrow> rh_Closed h \<and> 0 \<le> frontier"
      using frontier_range[OF False fr] by simp_all
    show ?thesis using status_shape[OF st range idle] False facts
      unfolding tl timeline_shape_def paused_def[symmetric] by simp
  qed
qed

section \<open>Pauses read from history\<close>

lemma last_alert_snoc:
  "last_alert i found (as @ [a]) = (if isPauseAlert (ar_Name a) then int (i + length as) else last_alert i found as)"
  by (induction i found as rule: last_alert.induct) simp_all

lemma last_alert_range: "last_alert i found as = found \<or> (int i \<le> last_alert i found as \<and> last_alert i found as < int (i + length as))"
  by (induction i found as rule: last_alert.induct) (simp, fastforce)

lemma derivePause_last:
  "derivePause d h = (if \<not> rh_Closed h \<and> rh_Activities h \<noteq> [] \<and> isPauseAlert (ar_Name (last (rh_Activities h)))
     then pauseFromAlert d (last (rh_Activities h)) else noPause)"
proof (cases "rh_Activities h" rule: rev_cases)
  case (snoc as a)
  then show ?thesis using last_alert_range[of 0 "- 1" as] by (auto simp: derivePause_def last_alert_snoc Let_def)
qed (simp add: derivePause_def)

lemma pauseFromAlert_kind:
  "isPauseAlert (ar_Name a) \<Longrightarrow> cp_Kind (pauseFromAlert d a) =
     (if ar_Name a = ''NotifyWritePathPause'' then PauseWriteFailure
      else if ar_Name a = ''NotifyOperatorPause'' then PauseEject else PauseBurn)"
  by (auto simp: isPauseAlert_def pauseFromAlert_def split: option.split)

text \<open>Sending the signal, after the checks.\<close>

definition send_signal :: "'z temporal_client \<Rightarrow> string \<Rightarrow> string \<Rightarrow> 'z \<Rightarrow> response \<times> 'z" where
  "send_signal tc run signal z =
     (case tc_SignalWorkflow tc run signal z of
        (Some e, z') \<Rightarrow> (Upstream (statusForTemporalError (Temporal e)), z')
      | (None, z') \<Rightarrow> (Accepted signal, z'))"

text \<open>C36: when no worker answers the pause query, resume and abort act on the history alone, and safely: a
  signal is sent only to a run whose history has no closing event and whose last scheduled activity is a
  pause alert, for an abort an alert other than the eject pause's; every other request is answered
  with a conflict and changes nothing.\<close>
theorem actions_without_a_worker:
  assumes ids: "distinct (scheduled_ids events)"
    and query: "tc_QueryPause tc run z = (Inl e, z1)"
    and history: "tc_HistoryPause tc run z1 = (Inr (derivePause d (fetchRunHistory d events)), z2)"
    and run: "run \<noteq> []"
  defines "acts \<equiv> joined_activities d events"
  defines "paused \<equiv> \<not> (\<exists>ev \<in> set events. closes (he_kind ev)) \<and> acts \<noteq> [] \<and> isPauseAlert (ar_Name (last acts))"
  shows "resumeRun tc run z = (if paused then send_signal tc run OperatorResumeSignal z2 else (Rejected 409 ''not paused'', z2))
     \<and> abortRun tc run z = (if \<not> paused then (Rejected 409 ''not paused'', z2)
         else if ar_Name (last acts) = ''NotifyOperatorPause'' then (Rejected 409 ''not allowed'', z2)
         else send_signal tc run OperatorAbortSignal z2)"
proof -
  define pause where "pause = derivePause d (fetchRunHistory d events)"
  have cur: "currentPauseForAction tc run z = (Inr pause, z2)"
    using query history by (simp add: currentPauseForAction_def pause_def)
  have kind: "cp_Kind pause = (if \<not> paused then PauseNone
      else if ar_Name (last acts) = ''NotifyWritePathPause'' then PauseWriteFailure
      else if ar_Name (last acts) = ''NotifyOperatorPause'' then PauseEject else PauseBurn)"
    using history_activities[OF ids, of d] pauseFromAlert_kind[of "last acts" d]
    by (auto simp: pause_def derivePause_last paused_def acts_def noPause_def)
  show ?thesis using cur kind run
    by (auto simp: resumeRun_def abortRun_def signalPausedRun_def send_signal_def pauseAcceptsAbort_def statusForTemporalError_def)
qed

lemma sample_history_ids: "distinct (scheduled_ids
    [\<lparr> he_id = 1, he_time = 0, he_kind = WorkflowStarted (Some ()) \<rparr>,
     \<lparr> he_id = 5, he_time = 10, he_kind = ActivityScheduled ''5'' ''Load'' ''data'' None \<rparr>,
     \<lparr> he_id = 6, he_time = 20, he_kind = ActivityFailed 5 ''no'' \<rparr>,
     \<lparr> he_id = 7, he_time = 30, he_kind = ActivityScheduled ''7'' ''NotifyWritePathPause'' ''control'' None \<rparr>])"
  by (simp add: scheduled_ids_def)

definition sample_decoders :: "unit decoders" where
  "sample_decoders = \<lparr> dc_Barcode = (\<lambda>_. Some ''T1''), dc_NotifyFailure = (\<lambda>_. None), dc_WritePathPause = (\<lambda>_. None),
     dc_OperatorPause = (\<lambda>_. None), dc_BurnPause = (\<lambda>_. None), dc_LoadedTapes = (\<lambda>_. None), dc_TapeMeasurement = (\<lambda>_. None) \<rparr>"

definition sample_events :: "unit history_event list" where
  "sample_events =
    [\<lparr> he_id = 1, he_time = 0, he_kind = WorkflowStarted (Some ()) \<rparr>,
     \<lparr> he_id = 5, he_time = 10, he_kind = ActivityScheduled ''5'' ''Load'' ''data'' None \<rparr>,
     \<lparr> he_id = 6, he_time = 20, he_kind = ActivityFailed 5 ''no'' \<rparr>,
     \<lparr> he_id = 7, he_time = 30, he_kind = ActivityScheduled ''7'' ''NotifyWritePathPause'' ''control'' None \<rparr>]"

theorem history_joins_events_witness:
  "map ar_ErrorText (rh_Activities (fetchRunHistory sample_decoders sample_events)) = [''no'', []]"
  using history_joins_events[of sample_events sample_decoders] sample_history_ids
  by (simp add: sample_events_def touch_def)

theorem timeline_has_shape_witness:
  "timeline_shape sample_decoders (fetchRunHistory sample_decoders sample_events)
     (buildPhaseTimeline sample_decoders (fetchRunHistory sample_decoders sample_events))"
proof (rule timeline_has_shape)
  have "rh_Activities (fetchRunHistory sample_decoders sample_events) = joined_activities sample_decoders sample_events"
    by (rule history_activities) (simp add: sample_events_def sample_history_ids)
  then show "\<forall>a \<in> set (rh_Activities (fetchRunHistory sample_decoders sample_events)). 0 < ar_ScheduledEventID a"
    by (simp add: sample_events_def touch_def)
qed

definition silent_client :: "nat temporal_client" where
  "silent_client = sample_client\<lparr> tc_HistoryPause := (\<lambda>r z. (Inr (derivePause sample_decoders (fetchRunHistory sample_decoders sample_events)), z)) \<rparr>"

theorem actions_without_a_worker_witness:
  "abortRun silent_client ''run'' 0 = (Accepted OperatorAbortSignal, 0)"
proof -
  have "tc_QueryPause silent_client ''run'' 0 = (Inl DeadlineExceeded, 0)"
    "tc_HistoryPause silent_client ''run'' 0 = (Inr (derivePause sample_decoders (fetchRunHistory sample_decoders sample_events)), 0)"
    "distinct (scheduled_ids sample_events)" "''run'' \<noteq> []"
    by (simp_all add: silent_client_def sample_client_def sample_history_ids sample_events_def)
  from actions_without_a_worker[OF this(3,1,2,4)] show ?thesis
    by (simp add: sample_events_def closes_def isPauseAlert_def touch_def send_signal_def silent_client_def sample_client_def)
qed

end
