(* ===== verification/RunsTapes.thy ===== *)
theory RunsTapes
  imports RunsHistory
begin

text \<open>
  Two more views over the history of a run: the outcome of each tape that was loaded
  (\<open>pkg/runsapi/tapes.go\<close>) and the phases whose activity waits for a worker (\<open>waiting.go\<close>).
\<close>

section \<open>The outcome of each tape\<close>

definition tapeOutcomeLoaded :: string where "tapeOutcomeLoaded = ''loaded''"
definition tapeOutcomeWritten :: string where "tapeOutcomeWritten = ''written''"
definition tapeOutcomeFailed :: string where "tapeOutcomeFailed = ''failed''"

record WriteHealthInfo =
  whi_Measured :: bool
  whi_ThroughputMBps :: rat
  whi_ThroughputUnmeasurable :: bool
  whi_FloorMBps :: rat
  whi_FloorKnown :: bool
  whi_BelowFloor :: bool
  whi_Repositions :: int
  whi_RepositionsMeasured :: bool
  whi_TapeAlertFlags :: "string list"
  whi_Healthy :: bool

definition toWriteHealthInfo :: "WriteHealth \<Rightarrow> WriteHealthInfo" where
  "toWriteHealthInfo health =
     \<lparr> whi_Measured = wh_Measured health, whi_ThroughputMBps = wh_ThroughputMBps health,
       whi_ThroughputUnmeasurable = wh_ThroughputUnmeasurable health, whi_FloorMBps = wh_FloorMBps health,
       whi_FloorKnown = wh_FloorKnown health, whi_BelowFloor = wh_BelowFloor health,
       whi_Repositions = wh_Repositions health, whi_RepositionsMeasured = wh_RepositionsMeasured health,
       whi_TapeAlertFlags = wh_TapeAlertFlags health, whi_Healthy = Healthy health \<rparr>"

record TapeOutcome =
  to_Barcode :: string
  to_TapeIndex :: nat
  to_CopyIndex :: nat
  to_DriveIndex :: nat
  to_Slot :: int
  to_Result :: string
  to_Error :: string
  to_OverwroteNonBlank :: bool
  to_WriteHealth :: "WriteHealthInfo option"

fun activityByBarcode :: "'p activityRecord list \<Rightarrow> string \<Rightarrow> string \<Rightarrow> 'p activityRecord option" where
  "activityByBarcode activities name barcode =
     (if barcode = [] then None else find (\<lambda>a. ar_Name a = name \<and> ar_Barcode a = barcode) activities)"

text \<open>The loop over the write activities: the outcome so far, and whether a failure ended the function.\<close>

fun tape_steps :: "'p activityRecord list \<Rightarrow> string list \<Rightarrow> TapeOutcome \<Rightarrow> TapeOutcome \<times> bool" where
  "tape_steps activities [] outcome = (outcome, False)"
| "tape_steps activities (name # names) outcome =
     (case activityByBarcode activities name (to_Barcode outcome) of
        None \<Rightarrow> (outcome, False)
      | Some a \<Rightarrow>
          if Failure a then (outcome\<lparr> to_Result := tapeOutcomeFailed, to_Error := ar_ErrorText a \<rparr>, True)
          else tape_steps activities names
            (if name = ''FinalizeTape'' \<and> ar_Completed a then outcome\<lparr> to_Result := tapeOutcomeWritten \<rparr> else outcome))"

definition tapeOutcomeFor :: "'p decoders \<Rightarrow> 'p activityRecord list \<Rightarrow> LoadedTape \<Rightarrow> TapeOutcome" where
  "tapeOutcomeFor d activities tape =
     (let (outcome, ended) = tape_steps activities [''FormatTape'', ''WriteTree'', ''FinalizeTape'']
          \<lparr> to_Barcode = lt_Barcode tape, to_TapeIndex = lt_TapeIndex tape, to_CopyIndex = lt_CopyIndex tape,
            to_DriveIndex = lt_DriveIndex tape, to_Slot = lt_SourceSlot tape, to_Result = tapeOutcomeLoaded, to_Error = [],
            to_OverwroteNonBlank = lt_OverwroteNonBlank tape, to_WriteHealth = None \<rparr> in
      if ended then outcome
      else (case activityByBarcode activities ''MeasureWriteHealth'' (lt_Barcode tape) of
          None \<Rightarrow> outcome
        | Some a \<Rightarrow>
            if \<not> ar_Completed a then outcome
            else (case decoded (dc_TapeMeasurement d) (ar_Result a) of
                None \<Rightarrow> outcome
              | Some health \<Rightarrow> outcome\<lparr> to_WriteHealth := Some (toWriteHealthInfo health) \<rparr>)))"

definition loaded_tapes :: "'p decoders \<Rightarrow> 'p activityRecord list \<Rightarrow> LoadedTape list" where
  "loaded_tapes d activities = concat (map (\<lambda>a.
     if ar_Name a \<noteq> ''Load'' \<or> \<not> ar_Completed a then []
     else (case decoded (dc_LoadedTapes d) (ar_Result a) of None \<Rightarrow> [] | Some batch \<Rightarrow> batch)) activities)"

text \<open>
  By tape index, then copy, then barcode. Outcomes equal in all three keep their order here, which
  \<open>sort.Slice\<close> leaves open.
\<close>

definition deriveTapeOutcomes :: "'p decoders \<Rightarrow> 'p activityRecord list \<Rightarrow> TapeOutcome list" where
  "deriveTapeOutcomes d activities =
     sort_key to_TapeIndex (sort_key to_CopyIndex (sort_key to_Barcode (map (tapeOutcomeFor d activities) (loaded_tapes d activities))))"

definition step_passed :: "'p activityRecord list \<Rightarrow> string \<Rightarrow> string \<Rightarrow> bool" where
  "step_passed activities barcode name \<longleftrightarrow> (\<exists>a. activityByBarcode activities name barcode = Some a \<and> \<not> Failure a)"

definition step_failed :: "'p activityRecord list \<Rightarrow> string \<Rightarrow> string \<Rightarrow> bool" where
  "step_failed activities barcode name \<longleftrightarrow> (\<exists>a. activityByBarcode activities name barcode = Some a \<and> Failure a)"

definition step_completed :: "'p activityRecord list \<Rightarrow> string \<Rightarrow> string \<Rightarrow> bool" where
  "step_completed activities barcode name \<longleftrightarrow>
     (\<exists>a. activityByBarcode activities name barcode = Some a \<and> \<not> Failure a \<and> ar_Completed a)"

lemmas outcome_words = tapeOutcomeLoaded_def tapeOutcomeWritten_def tapeOutcomeFailed_def

lemma tapeOutcomeFor_result:
  "to_Result (tapeOutcomeFor d as tape) =
     to_Result (fst (tape_steps as [''FormatTape'', ''WriteTree'', ''FinalizeTape'']
       \<lparr> to_Barcode = lt_Barcode tape, to_TapeIndex = lt_TapeIndex tape, to_CopyIndex = lt_CopyIndex tape,
         to_DriveIndex = lt_DriveIndex tape, to_Slot = lt_SourceSlot tape, to_Result = tapeOutcomeLoaded, to_Error = [],
         to_OverwroteNonBlank = lt_OverwroteNonBlank tape, to_WriteHealth = None \<rparr>))"
  by (simp add: tapeOutcomeFor_def Let_def del: tape_steps.simps split: prod.split option.split)

lemma tape_result:
  "to_Result (tapeOutcomeFor d as tape) =
     (let b = lt_Barcode tape in
      if step_failed as b ''FormatTape'' then tapeOutcomeFailed
      else if \<not> step_passed as b ''FormatTape'' then tapeOutcomeLoaded
      else if step_failed as b ''WriteTree'' then tapeOutcomeFailed
      else if \<not> step_passed as b ''WriteTree'' then tapeOutcomeLoaded
      else if step_failed as b ''FinalizeTape'' then tapeOutcomeFailed
      else if step_completed as b ''FinalizeTape'' then tapeOutcomeWritten else tapeOutcomeLoaded)"
  unfolding tapeOutcomeFor_result
  by (auto simp: step_failed_def step_passed_def step_completed_def Let_def simp del: activityByBarcode.simps split: option.split)

lemma step_exclusive: "step_completed as b n \<Longrightarrow> step_passed as b n" "step_passed as b n \<Longrightarrow> \<not> step_failed as b n"
  by (auto simp: step_failed_def step_passed_def step_completed_def simp del: activityByBarcode.simps)

lemma tape_steps_barcode: "tape_steps as ns out = (out', ended) \<Longrightarrow> to_Barcode out' = to_Barcode out"
  by (induction ns arbitrary: out) (auto simp del: activityByBarcode.simps split: option.splits if_splits)

lemma tapeOutcomeFor_barcode: "to_Barcode (tapeOutcomeFor d as tape) = lt_Barcode tape"
proof -
  define names where "names = [''FormatTape'', ''WriteTree'', ''FinalizeTape'']"
  define out where "out = \<lparr> to_Barcode = lt_Barcode tape, to_TapeIndex = lt_TapeIndex tape, to_CopyIndex = lt_CopyIndex tape,
    to_DriveIndex = lt_DriveIndex tape, to_Slot = lt_SourceSlot tape, to_Result = tapeOutcomeLoaded, to_Error = [],
    to_OverwroteNonBlank = lt_OverwroteNonBlank tape, to_WriteHealth = None \<rparr>"
  obtain out' ended where run: "tape_steps as names out = (out', ended)" by (meson surj_pair)
  have "to_Barcode out' = lt_Barcode tape" using tape_steps_barcode[OF run] by (simp add: out_def)
  then show ?thesis using run
    by (simp add: tapeOutcomeFor_def names_def[symmetric] out_def[symmetric] del: activityByBarcode.simps split: option.split)
qed

text \<open>The outcomes of a run are one per tape that a completed load reported, in order of the tape index; a
  tape is reported written exactly when its format, its write and its finalisation are all in the history
  without a failure and the finalisation is complete, and failed exactly when the first of the three that did
  not pass is in the history as a failure.\<close>
theorem tape_outcomes_follow_history:
  "mset (deriveTapeOutcomes d as) = image_mset (tapeOutcomeFor d as) (mset (loaded_tapes d as))
   \<and> sorted (map to_TapeIndex (deriveTapeOutcomes d as))
   \<and> to_Barcode (tapeOutcomeFor d as tape) = lt_Barcode tape
   \<and> (to_Result (tapeOutcomeFor d as tape) = tapeOutcomeWritten \<longleftrightarrow>
        step_passed as (lt_Barcode tape) ''FormatTape'' \<and> step_passed as (lt_Barcode tape) ''WriteTree''
        \<and> step_completed as (lt_Barcode tape) ''FinalizeTape'')
   \<and> (to_Result (tapeOutcomeFor d as tape) = tapeOutcomeFailed \<longleftrightarrow>
        step_failed as (lt_Barcode tape) ''FormatTape''
        \<or> step_passed as (lt_Barcode tape) ''FormatTape'' \<and> step_failed as (lt_Barcode tape) ''WriteTree''
        \<or> step_passed as (lt_Barcode tape) ''FormatTape'' \<and> step_passed as (lt_Barcode tape) ''WriteTree''
          \<and> step_failed as (lt_Barcode tape) ''FinalizeTape'')"
proof -
  have "to_Barcode (tapeOutcomeFor d as tape) = lt_Barcode tape" by (rule tapeOutcomeFor_barcode)
  moreover note step_exclusive[of as "lt_Barcode tape"]
  ultimately show ?thesis unfolding tape_result
    by (auto simp: deriveTapeOutcomes_def Let_def outcome_words)
qed

section \<open>Phases that wait for a worker\<close>

text \<open>The fields of Temporal's pending-activity list that are read; \<open>pa_ScheduledTime\<close> is unset at times.\<close>

record pending_activity =
  pac_ActivityID :: string
  pac_Scheduled :: bool
  pac_Paused :: bool
  pac_NextAttempt :: bool
  pac_ScheduledTime :: "int option"
  pac_TaskQueue :: string

record PhaseWaiting =
  pw_Activity :: string
  pw_TaskQueue :: string
  pw_Since :: int
  pw_Stalled :: bool

text \<open>Times are in nanoseconds.\<close>

definition workerWaitGrace :: int where "workerWaitGrace = 60 * 1000000000"

definition open_by_id :: "'p activityRecord list \<Rightarrow> string \<rightharpoonup> 'p activityRecord" where
  "open_by_id as = fold (\<lambda>a m. if ar_ActivityID a \<noteq> [] \<and> \<not> Terminal a then m(ar_ActivityID a \<mapsto> a) else m) as Map.empty"

text \<open>The body of the loop: the phase and the wait that a pending activity stands for, if any.\<close>

definition pending_wait :: "'p decoders \<Rightarrow> (string \<rightharpoonup> 'p activityRecord) \<Rightarrow> int \<Rightarrow> pending_activity \<Rightarrow> (string \<times> PhaseWaiting) option" where
  "pending_wait d byActivityID now p =
     (if \<not> pac_Scheduled p \<or> pac_Paused p \<or> pac_NextAttempt p then None
      else (case byActivityID (pac_ActivityID p) of
          None \<Rightarrow> None
        | Some a \<Rightarrow>
            if ar_Started a then None
            else (case phaseForActivity d (ar_Name a) (ar_Input a) of
                None \<Rightarrow> None
              | Some phase \<Rightarrow>
                  let since = (case pac_ScheduledTime p of Some t \<Rightarrow> t | None \<Rightarrow> ar_ScheduledTime a) in
                  if now < since then None
                  else Some (phase, \<lparr> pw_Activity = ar_Name a,
                    pw_TaskQueue = (if ar_TaskQueue a = [] then pac_TaskQueue p else ar_TaskQueue a),
                    pw_Since = since, pw_Stalled = (workerWaitGrace \<le> now - since) \<rparr>))))"

definition add_wait :: "(string \<times> PhaseWaiting) option \<Rightarrow> (string \<rightharpoonup> PhaseWaiting) \<Rightarrow> (string \<rightharpoonup> PhaseWaiting)" where
  "add_wait pw waits =
     (case pw of
        None \<Rightarrow> waits
      | Some (phase, w) \<Rightarrow>
          (case waits phase of
             None \<Rightarrow> waits(phase \<mapsto> w)
           | Some existing \<Rightarrow> if \<not> pw_Since w < pw_Since existing then waits else waits(phase \<mapsto> w)))"

definition waitingByPhase :: "'p decoders \<Rightarrow> 'p runHistory \<Rightarrow> pending_activity list \<Rightarrow> int \<Rightarrow> (string \<rightharpoonup> PhaseWaiting)" where
  "waitingByPhase d h pending now =
     (if rh_Closed h \<or> pending = [] then Map.empty
      else fold (\<lambda>p. add_wait (pending_wait d (open_by_id (rh_Activities h)) now p)) pending Map.empty)"

lemma open_by_id_unfinished: "open_by_id as i = Some a \<Longrightarrow> a \<in> set as \<and> \<not> Terminal a \<and> ar_ActivityID a = i"
  unfolding open_by_id_def
  by (induction as rule: rev_induct) (auto split: if_splits)

definition waits_of :: "'p decoders \<Rightarrow> 'p runHistory \<Rightarrow> pending_activity list \<Rightarrow> int \<Rightarrow> string \<Rightarrow> PhaseWaiting set" where
  "waits_of d h pending now phase =
     {w. \<exists>p \<in> set pending. pending_wait d (open_by_id (rh_Activities h)) now p = Some (phase, w)}"

lemma fold_add_wait:
  fixes f :: "'a \<Rightarrow> (string \<times> PhaseWaiting) option"
  shows "case fold (\<lambda>p. add_wait (f p)) ps Map.empty phase of
     None \<Rightarrow> \<forall>p \<in> set ps. \<forall>w. f p \<noteq> Some (phase, w)
   | Some w \<Rightarrow> (\<exists>p \<in> set ps. f p = Some (phase, w)) \<and> (\<forall>p \<in> set ps. \<forall>w'. f p = Some (phase, w') \<longrightarrow> pw_Since w \<le> pw_Since w')"
proof (induction ps rule: rev_induct)
  case (snoc p ps)
  show ?case using snoc
    by (cases "f p"; cases "fold (\<lambda>p. add_wait (f p)) ps Map.empty phase")
      (auto simp: add_wait_def ball_Un split: option.splits if_splits)
qed simp

text \<open>A phase is shown as waiting exactly when the run is open and some scheduled activity of the phase
  has neither ended nor started; the wait shown is one of these, of an unfinished activity in the history, it
  began in the past, it is the longest, and it is called stalled exactly from sixty seconds on.\<close>
theorem waiting_is_the_longest:
  "case waitingByPhase d h pending now phase of
     None \<Rightarrow> rh_Closed h \<or> waits_of d h pending now phase = {}
   | Some w \<Rightarrow> (\<not> rh_Closed h) \<and> w \<in> waits_of d h pending now phase
       \<and> (\<forall>w'. w' \<in> waits_of d h pending now phase \<longrightarrow> pw_Since w \<le> pw_Since w')
       \<and> pw_Since w \<le> now \<and> (pw_Stalled w \<longleftrightarrow> 60 * 1000000000 \<le> now - pw_Since w)
       \<and> (\<exists>a. a \<in> set (rh_Activities h) \<and> ar_Name a = pw_Activity w \<and> (\<not> Terminal a) \<and> (\<not> ar_Started a)
            \<and> phaseForActivity d (ar_Name a) (ar_Input a) = Some phase)"
proof -
  have facts: "pw_Since w \<le> now \<and> (pw_Stalled w \<longleftrightarrow> 60 * 1000000000 \<le> now - pw_Since w)
      \<and> (\<exists>a. a \<in> set (rh_Activities h) \<and> ar_Name a = pw_Activity w \<and> \<not> Terminal a \<and> \<not> ar_Started a
            \<and> phaseForActivity d (ar_Name a) (ar_Input a) = Some phase)"
    if w: "w \<in> waits_of d h pending now phase" for w
  proof -
    obtain p where p: "pending_wait d (open_by_id (rh_Activities h)) now p = Some (phase, w)" using w by (auto simp: waits_of_def)
    obtain a where a: "open_by_id (rh_Activities h) (pac_ActivityID p) = Some a"
      using p by (auto simp: pending_wait_def split: if_splits option.splits)
    note unfinished = open_by_id_unfinished[OF a]
    have "\<not> ar_Started a \<and> phaseForActivity d (ar_Name a) (ar_Input a) = Some phase \<and> ar_Name a = pw_Activity w
        \<and> pw_Since w \<le> now \<and> pw_Stalled w = (60 * 1000000000 \<le> now - pw_Since w)"
      using p a by (auto simp: pending_wait_def Let_def workerWaitGrace_def split: if_splits option.splits)
    then show ?thesis using unfinished by blast
  qed
  show ?thesis
    using facts fold_add_wait[where f = "pending_wait d (open_by_id (rh_Activities h)) now" and ps = pending and phase = phase]
    by (auto simp: waitingByPhase_def waits_of_def split: option.splits)
qed

theorem waiting_is_the_longest_witness:
  "pw_Since (the (waitingByPhase sample_decoders (fetchRunHistory sample_decoders (take 2 sample_events))
      [\<lparr> pac_ActivityID = ''5'', pac_Scheduled = True, pac_Paused = False, pac_NextAttempt = False,
         pac_ScheduledTime = Some 12, pac_TaskQueue = [] \<rparr>] 50 ''Load'')) \<le> 50"
proof -
  let ?h = "fetchRunHistory sample_decoders (take 2 sample_events)"
  let ?p = "[\<lparr> pac_ActivityID = ''5'', pac_Scheduled = True, pac_Paused = False, pac_NextAttempt = False,
         pac_ScheduledTime = Some 12, pac_TaskQueue = [] \<rparr>]"
  have "waitingByPhase sample_decoders ?h ?p 50 ''Load'' \<noteq> None" by code_simp
  then show ?thesis using waiting_is_the_longest[where d = sample_decoders and h = ?h and pending = ?p and now = 50 and phase = "''Load''"] by (auto split: option.splits)
qed

end
