(* ===== verification/WebAuth.thy ===== *)
theory WebAuth
  imports GoStrings RunSnapshot Scsi
begin

text \<open>
  The login of the web server (\<open>pkg/webauth/webauth.go\<close>, \<open>cookie.go\<close>): the OIDC authorization-code
  flow, the sealed session and state cookies, the session gate in front of the API, and the
  restriction of redirects to the own site.

  AES-GCM, the JSON of the cookie payloads, the provider and its ID tokens are parameters, as are
  \<open>url.Parse\<close>, \<open>EqualFold\<close> and the printable characters of Unicode; the base64 of the cookies is
  modelled. Paths are as \<open>ServeMux\<close> hands them on, that is clean.
\<close>

section \<open>Base64\<close>

text \<open>\<open>RawURLEncoding\<close>: the URL alphabet without padding. Decoding skips line breaks and ignores trailing bits.\<close>

definition b64_char :: "nat \<Rightarrow> char" where
  "b64_char n = (if n < 26 then char_of (65 + n) else if n < 52 then char_of (71 + n)
     else if n < 62 then char_of (n - 4) else if n = 62 then char_of (45 :: nat) else char_of (95 :: nat))"

definition b64_value :: "char \<Rightarrow> nat option" where
  "b64_value c = (let n = of_char c :: nat in
     if 65 \<le> n \<and> n < 91 then Some (n - 65) else if 97 \<le> n \<and> n < 123 then Some (n - 71)
     else if 48 \<le> n \<and> n < 58 then Some (n + 4) else if n = 45 then Some 62
     else if n = 95 then Some 63 else None)"

fun b64_digits :: "nat list \<Rightarrow> nat list" where
  "b64_digits [] = []"
| "b64_digits [a] = [a div 4, a mod 4 * 16]"
| "b64_digits [a, b] = [a div 4, a mod 4 * 16 + b div 16, b mod 16 * 4]"
| "b64_digits (a # b # c # bs) =
     a div 4 # (a mod 4 * 16 + b div 16) # (b mod 16 * 4 + c div 64) # c mod 64 # b64_digits bs"

fun b64_bytes :: "nat list \<Rightarrow> nat list option" where
  "b64_bytes [] = Some []"
| "b64_bytes [w] = None"
| "b64_bytes [w, x] = Some [w * 4 + x div 16]"
| "b64_bytes [w, x, y] = Some [w * 4 + x div 16, x mod 16 * 16 + y div 4]"
| "b64_bytes (w # x # y # z # ds) =
     map_option (\<lambda>bs. (w * 4 + x div 16) # (x mod 16 * 16 + y div 4) # (y mod 4 * 64 + z) # bs) (b64_bytes ds)"

definition RawURLEncode :: "string \<Rightarrow> string" where
  "RawURLEncode s = map b64_char (b64_digits (map of_char s))"

definition line_break :: "char \<Rightarrow> bool" where
  "line_break c \<longleftrightarrow> (of_char c :: nat) \<in> {10, 13}"

definition RawURLDecode :: "string \<Rightarrow> string option" where
  "RawURLDecode s =
     (let cs = filter (\<lambda>c. \<not> line_break c) s; ds = map b64_value cs in
      if None \<in> set ds then None else map_option (map char_of) (b64_bytes (map the ds)))"

lemma b64_value_char: "n < 64 \<Longrightarrow> b64_value (b64_char n) = Some n \<and> \<not> line_break (b64_char n)"
  by (auto simp: b64_value_def b64_char_def line_break_def Let_def)

lemma b64_digits_small: "\<forall>b \<in> set bs. b < 256 \<Longrightarrow> \<forall>d \<in> set (b64_digits bs). d < 64"
  by (induction bs rule: b64_digits.induct) auto

lemma b64_bytes_digits: "\<forall>b \<in> set bs. b < 256 \<Longrightarrow> b64_bytes (b64_digits bs) = Some bs"
  by (induction bs rule: b64_digits.induct) (auto simp: div_mult2_eq mult.commute)

lemma RawURLDecode_encode [simp]: "RawURLDecode (RawURLEncode s) = Some s"
proof -
  define ds where "ds = b64_digits (map of_char s)"
  have bytes: "\<forall>b \<in> set (map of_char s :: nat list). b < 256" by auto
  have small: "\<forall>d \<in> set ds. d < 64" unfolding ds_def by (rule b64_digits_small [OF bytes])
  have "filter (\<lambda>c. \<not> line_break c) (map b64_char ds) = map b64_char ds"
    using small b64_value_char by (intro filter_True) auto
  moreover have "map b64_value (map b64_char ds) = map Some ds"
    using small b64_value_char by auto
  moreover have "None \<notin> set (map Some ds)" by auto
  moreover have "map the (map Some ds) = ds" by (simp add: comp_def)
  moreover have "b64_bytes ds = Some (map of_char s)" unfolding ds_def by (rule b64_bytes_digits [OF bytes])
  moreover have "map char_of (map of_char s :: nat list) = s" by (simp add: map_idI)
  ultimately show ?thesis unfolding RawURLEncode_def RawURLDecode_def ds_def [symmetric] Let_def
    by (simp del: map_map)
qed

section \<open>The data\<close>

text \<open>Times and durations are in nanoseconds; the times in the claims are Unix seconds.\<close>

definition stateCookieTTL :: int where "stateCookieTTL = 10 * 60 * 1000000000"
definition maxSessionDuration :: int where "maxSessionDuration = 24 * 3600 * 1000000000"
definition minSessionDuration :: int where "minSessionDuration = 8 * 3600 * 1000000000"
definition sessionCookieName :: string where "sessionCookieName = ''ta_session''"
definition stateCookieName :: string where "stateCookieName = ''ta_oidc_state''"
definition sessionPurpose :: string where "sessionPurpose = ''session''"
definition statePurpose :: string where "statePurpose = ''state''"
definition loginPath :: string where "loginPath = ''/login''"
definition loginErrorDenied :: string where "loginErrorDenied = ''denied''"
definition loginErrorExpired :: string where "loginErrorExpired = ''expired''"
definition idpErrorDescriptionMaxLen :: nat where "idpErrorDescriptionMaxLen = 300"

definition Unix :: "int \<Rightarrow> int" where "Unix t = t div 1000000000"

record Identity =
  id_Subject :: string
  id_Email :: string
  id_Name :: string

record sessionClaims =
  se_Subject :: string
  se_Email :: string
  se_Name :: string
  se_ExpiresAt :: int

record stateClaims =
  st_State :: string
  st_Nonce :: string
  st_PKCEVerifier :: string
  st_RedirectPath :: string
  st_ExpiresAt :: int

text \<open>
  The authenticator: its configuration, the cipher with nonce, text and additional data, the JSON of the
  two payloads, the URL of the provider's login page, and library functions left abstract.
\<close>

record authenticator =
  au_NonceSize :: nat
  au_Seal :: "string \<Rightarrow> string \<Rightarrow> string \<Rightarrow> string"
  au_Open :: "string \<Rightarrow> string \<Rightarrow> string \<Rightarrow> string option"
  au_MarshalSession :: "sessionClaims \<Rightarrow> string"
  au_UnmarshalSession :: "string \<Rightarrow> sessionClaims option"
  au_MarshalState :: "stateClaims \<Rightarrow> string"
  au_UnmarshalState :: "string \<Rightarrow> stateClaims option"
  au_AuthCodeURL :: "string \<Rightarrow> string \<Rightarrow> string \<Rightarrow> string"
  au_appVersion :: string
  au_footerHost :: string
  au_ParseHost :: "string \<Rightarrow> string option"
  au_ParseOk :: "string \<Rightarrow> bool"
  au_EqualFold :: "string \<Rightarrow> string \<Rightarrow> bool"
  au_IsPrint :: "string \<Rightarrow> bool"

text \<open>The provider: the answer to a code exchange (the raw ID token, if any) and the verified tokens.\<close>

record id_token =
  it_Subject :: string
  it_Nonce :: string
  it_Expiry :: int
  it_Claims :: "(string \<times> string \<times> string) option"

record idp =
  ip_Exchange :: "string \<Rightarrow> string \<Rightarrow> string option option"
  ip_Verify :: "string \<Rightarrow> id_token option"

text \<open>A request with what the handlers read of it.\<close>

record request =
  rq_Method :: string
  rq_Path :: string
  rq_Query :: "string \<Rightarrow> string"
  rq_Host :: string
  rq_SecFetchSite :: string
  rq_Origin :: string
  rq_ForwardedProto :: string
  rq_TLS :: bool
  rq_SessionCookie :: "string option"
  rq_StateCookie :: "string option"

text \<open>
  The handling of a request: the clock when a cookie is checked and when a session is issued, the random
  tokens, the nonce of a cookie (\<open>None\<close> if the source of randomness failed), and the provider.
\<close>

record event =
  ev_Request :: request
  ev_Now :: int
  ev_Issued :: int
  ev_State :: string
  ev_Nonce :: string
  ev_Verifier :: string
  ev_CookieNonce :: "string option"
  ev_Provider :: idp

text \<open>All cookies have path \<open>/\<close>, \<open>HttpOnly\<close> and \<open>SameSite=Lax\<close>.\<close>

record set_cookie =
  sc_Name :: string
  sc_Value :: string
  sc_MaxAge :: int
  sc_Expires :: "int option"
  sc_Secure :: bool

datatype reply_body =
  Found string
| JSONError nat string
| PlainError nat string
| Served "Identity option"
| Me Identity
| BuildInfo string string

record reply =
  rp_Cookies :: "set_cookie list"
  rp_Body :: reply_body

section \<open>Cookies\<close>

definition encrypt :: "authenticator \<Rightarrow> string \<Rightarrow> string \<Rightarrow> string option \<Rightarrow> string option" where
  "encrypt A purpose plaintext nonce =
     map_option (\<lambda>n. RawURLEncode (n @ au_Seal A n plaintext purpose)) nonce"

datatype cookie_error = InvalidCookieEncoding | InvalidCookie

definition decrypt :: "authenticator \<Rightarrow> string \<Rightarrow> string \<Rightarrow> (string \<Rightarrow> 'a option) \<Rightarrow> cookie_error + 'a" where
  "decrypt A purpose value unmarshal =
     (case RawURLDecode value of
        None \<Rightarrow> Inl InvalidCookieEncoding
      | Some raw \<Rightarrow>
          if length raw < au_NonceSize A then Inl InvalidCookie
          else (case au_Open A (take (au_NonceSize A) raw) (drop (au_NonceSize A) raw) purpose of
              None \<Rightarrow> Inl InvalidCookie
            | Some plaintext \<Rightarrow> (case unmarshal plaintext of None \<Rightarrow> Inl InvalidCookie | Some v \<Rightarrow> Inr v)))"

definition isTLS :: "authenticator \<Rightarrow> request \<Rightarrow> bool" where
  "isTLS A r \<longleftrightarrow> rq_TLS r \<or> au_EqualFold A (rq_ForwardedProto r) ''https''"

definition clearCookie :: "authenticator \<Rightarrow> request \<Rightarrow> string \<Rightarrow> set_cookie" where
  "clearCookie A r name = \<lparr> sc_Name = name, sc_Value = [], sc_MaxAge = - 1, sc_Expires = None, sc_Secure = isTLS A r \<rparr>"

definition identityFromSessionCookie :: "authenticator \<Rightarrow> event \<Rightarrow> Identity option" where
  "identityFromSessionCookie A ev =
     (case rq_SessionCookie (ev_Request ev) of
        None \<Rightarrow> None
      | Some value \<Rightarrow>
          (case decrypt A sessionPurpose value (au_UnmarshalSession A) of
             Inl _ \<Rightarrow> None
           | Inr claims \<Rightarrow>
               if se_ExpiresAt claims \<le> Unix (ev_Now ev) then None
               else Some \<lparr> id_Subject = se_Subject claims, id_Email = se_Email claims, id_Name = se_Name claims \<rparr>))"

text \<open>The state cookie, which the handler of the callback also clears in every reply.\<close>

definition consumeStateCookie :: "authenticator \<Rightarrow> event \<Rightarrow> stateClaims option" where
  "consumeStateCookie A ev =
     (case rq_StateCookie (ev_Request ev) of
        None \<Rightarrow> None
      | Some value \<Rightarrow>
          (case decrypt A statePurpose value (au_UnmarshalState A) of
             Inl _ \<Rightarrow> None
           | Inr claims \<Rightarrow> if st_ExpiresAt claims \<le> Unix (ev_Now ev) then None else Some claims))"

section \<open>Redirects\<close>

definition control_char :: "char \<Rightarrow> bool" where
  "control_char c \<longleftrightarrow> (of_char c :: nat) < 0x20 \<or> (of_char c :: nat) = 0x7F"

definition backslash :: char where "backslash = CHR 0x5C"

definition sanitizeRedirectPath :: "string \<Rightarrow> string" where
  "sanitizeRedirectPath path =
     (if path = [] \<or> \<not> HasPrefix path ''/'' \<or> HasPrefix path ''//'' \<or> ContainsChar path backslash
         \<or> (\<exists>c \<in> set path. control_char c) then ''/''
      else
        let pathname = takeWhile (\<lambda>c. c \<noteq> CHR ''?'' \<and> c \<noteq> CHR ''#'') path in
        if pathname = ''/login'' \<or> pathname = ''/login/'' then ''/'' else path)"

text \<open>
  The \<open>Location\<close> that \<open>http.Redirect\<close> writes for a path on the own host: cleaned up to the query when the
  URL parses, and with non-ASCII bytes escaped.
\<close>

definition hex_digit :: "nat \<Rightarrow> char" where
  "hex_digit n = (if n < 10 then char_of (48 + n) else char_of (87 + n))"

definition escape_byte :: "char \<Rightarrow> string" where
  "escape_byte c = (let n = of_char c :: nat in
     if n < 128 then [c] else [CHR ''%'', hex_digit (n div 16), hex_digit (n mod 16)])"

definition hexEscapeNonASCII :: "string \<Rightarrow> string" where
  "hexEscapeNonASCII s = concat (map escape_byte s)"

definition redirect_location :: "authenticator \<Rightarrow> string \<Rightarrow> string" where
  "redirect_location A url = hexEscapeNonASCII
     (if \<not> au_ParseOk A url then url
      else
        let path = takeWhile (\<lambda>c. c \<noteq> CHR ''?'') url; query = dropWhile (\<lambda>c. c \<noteq> CHR ''?'') url;
            clean = path_Clean path in
        (if HasSuffix path ''/'' \<and> \<not> HasSuffix clean ''/'' then clean @ ''/'' else clean) @ query)"

text \<open>\<open>url.Values.Encode\<close> over keys in order: the unreserved characters stay, a space is a plus sign.\<close>

definition hex_upper :: "nat \<Rightarrow> char" where
  "hex_upper n = (if n < 10 then char_of (48 + n) else char_of (55 + n))"

definition QueryEscape :: "string \<Rightarrow> string" where
  "QueryEscape s = concat (map (\<lambda>c.
     if (CHR ''a'' \<le> c \<and> c \<le> CHR ''z'') \<or> (CHR ''A'' \<le> c \<and> c \<le> CHR ''Z'') \<or> (CHR ''0'' \<le> c \<and> c \<le> CHR ''9'')
       \<or> c \<in> set ''-_.~'' then [c]
     else if c = CHR '' '' then ''+''
     else [CHR ''%'', hex_upper (of_char c div 16), hex_upper (of_char c mod 16)]) s)"

definition query_string :: "(string \<times> string) list \<Rightarrow> string" where
  "query_string kvs = join_with ''&'' (map (\<lambda>(k, v). QueryEscape k @ ''='' @ QueryEscape v) kvs)"

definition loginErrorRedirect :: "string \<Rightarrow> string \<Rightarrow> string \<Rightarrow> reply_body" where
  "loginErrorRedirect code redirectPath detail = Found (loginPath @ ''?'' @ query_string
     ([(''error'', code)] @ (if detail \<noteq> [] then [(''error_description'', detail)] else [])
      @ (if redirectPath \<noteq> [] \<and> redirectPath \<noteq> ''/'' then [(''redirect'', redirectPath)] else [])))"

definition rejectCallback :: "string \<Rightarrow> string \<Rightarrow> reply_body" where
  "rejectCallback code redirectPath = loginErrorRedirect code redirectPath []"

text \<open>The characters of a string; an invalid byte is U+FFFD.\<close>

fun runes :: "nat \<Rightarrow> string \<Rightarrow> string list" where
  "runes 0 s = []"
| "runes (Suc n) s =
     (if s = [] then []
      else (if rune_width s = 1 \<and> 128 \<le> (of_char (hd s) :: nat) then [CHR 0xEF, CHR 0xBF, CHR 0xBD]
            else take (rune_width s) s) # runes n (drop (rune_width s) s))"

definition sanitizeIdPErrorDescription :: "authenticator \<Rightarrow> string \<Rightarrow> string" where
  "sanitizeIdPErrorDescription A description =
     (let collapsed = join_with '' '' (Fields [] description) in
      concat (take idpErrorDescriptionMaxLen (filter (au_IsPrint A) (runes (length collapsed) collapsed))))"

section \<open>The handlers\<close>

definition login_claims :: "event \<Rightarrow> stateClaims" where
  "login_claims ev = \<lparr> st_State = ev_State ev, st_Nonce = ev_Nonce ev, st_PKCEVerifier = ev_Verifier ev,
     st_RedirectPath = sanitizeRedirectPath (rq_Query (ev_Request ev) ''redirect''), st_ExpiresAt = Unix (ev_Now ev + stateCookieTTL) \<rparr>"

definition handleLogin :: "authenticator \<Rightarrow> event \<Rightarrow> reply" where
  "handleLogin A ev =
     (case encrypt A statePurpose (au_MarshalState A (login_claims ev)) (ev_CookieNonce ev) of
        None \<Rightarrow> \<lparr> rp_Cookies = [], rp_Body = PlainError 500 ''failed to start login'' \<rparr>
      | Some value \<Rightarrow>
          \<lparr> rp_Cookies = [\<lparr> sc_Name = stateCookieName, sc_Value = value, sc_MaxAge = stateCookieTTL div 1000000000,
               sc_Expires = None, sc_Secure = isTLS A (ev_Request ev) \<rparr>],
            rp_Body = Found (au_AuthCodeURL A (ev_State ev) (ev_Nonce ev) (ev_Verifier ev)) \<rparr>)"

text \<open>The lifetime of a session, clamped between the two bounds.\<close>

definition session_expiry :: "int \<Rightarrow> int \<Rightarrow> int" where
  "session_expiry now expiry =
     (let e1 = (if expiry < now + minSessionDuration then now + minSessionDuration else expiry) in
      if now + maxSessionDuration < e1 then now + maxSessionDuration else e1)"

definition session_claims :: "id_token \<Rightarrow> string \<times> string \<times> string \<Rightarrow> int \<Rightarrow> sessionClaims" where
  "session_claims tok claims expiresAt =
     (let (email, name, preferred) = claims in
      \<lparr> se_Subject = it_Subject tok, se_Email = email, se_Name = (if name = [] then preferred else name),
        se_ExpiresAt = Unix expiresAt \<rparr>)"

text \<open>The checks of the callback up to the session: what it rejects with, or the claims and their expiry.\<close>

definition callback_session :: "event \<Rightarrow> stateClaims \<Rightarrow> reply_body + sessionClaims \<times> int" where
  "callback_session ev state =
     (let query = rq_Query (ev_Request ev); reject = Inl (rejectCallback loginErrorExpired (st_RedirectPath state)) in
      if query ''state'' = [] \<or> query ''state'' \<noteq> st_State state then reject
      else if query ''code'' = [] then reject
      else (case ip_Exchange (ev_Provider ev) (query ''code'') (st_PKCEVerifier state) of
          None \<Rightarrow> reject
        | Some None \<Rightarrow> reject
        | Some (Some raw) \<Rightarrow>
            if raw = [] then reject
            else (case ip_Verify (ev_Provider ev) raw of
                None \<Rightarrow> reject
              | Some tok \<Rightarrow>
                  if it_Nonce tok \<noteq> st_Nonce state then reject
                  else (case it_Claims tok of
                      None \<Rightarrow> reject
                    | Some claims \<Rightarrow>
                        let expiresAt = session_expiry (ev_Issued ev) (it_Expiry tok) in
                        Inr (session_claims tok claims expiresAt, expiresAt)))))"

definition handleCallback :: "authenticator \<Rightarrow> event \<Rightarrow> reply" where
  "handleCallback A ev =
     (let r = ev_Request ev; cleared = clearCookie A r stateCookieName in
      case consumeStateCookie A ev of
        None \<Rightarrow> \<lparr> rp_Cookies = [cleared], rp_Body = rejectCallback loginErrorExpired [] \<rparr>
      | Some state \<Rightarrow>
          if rq_Query r ''error'' \<noteq> [] then
            \<lparr> rp_Cookies = [cleared], rp_Body = loginErrorRedirect loginErrorDenied (st_RedirectPath state)
                (sanitizeIdPErrorDescription A (rq_Query r ''error_description'')) \<rparr>
          else (case callback_session ev state of
              Inl body \<Rightarrow> \<lparr> rp_Cookies = [cleared], rp_Body = body \<rparr>
            | Inr (session, expiresAt) \<Rightarrow>
                (case encrypt A sessionPurpose (au_MarshalSession A session) (ev_CookieNonce ev) of
                   None \<Rightarrow> \<lparr> rp_Cookies = [cleared], rp_Body = PlainError 500 ''failed to establish session'' \<rparr>
                 | Some value \<Rightarrow>
                     \<lparr> rp_Cookies = [cleared, \<lparr> sc_Name = sessionCookieName, sc_Value = value, sc_MaxAge = 0,
                          sc_Expires = Some expiresAt, sc_Secure = isTLS A r \<rparr>],
                       rp_Body = Found (redirect_location A
                          (if st_RedirectPath state = [] then ''/'' else st_RedirectPath state)) \<rparr>)))"

definition handleLogout :: "authenticator \<Rightarrow> event \<Rightarrow> reply" where
  "handleLogout A ev =
     \<lparr> rp_Cookies = [clearCookie A (ev_Request ev) sessionCookieName], rp_Body = Found ''/'' \<rparr>"

definition handleMe :: "Identity option \<Rightarrow> reply_body" where
  "handleMe identity = (case identity of None \<Rightarrow> JSONError 401 ''unauthorized'' | Some i \<Rightarrow> Me i)"

definition handleBuildInfo :: "authenticator \<Rightarrow> reply_body" where
  "handleBuildInfo A = BuildInfo (au_appVersion A) (au_footerHost A)"

section \<open>The gate\<close>

definition isCrossSiteMutation :: "authenticator \<Rightarrow> request \<Rightarrow> bool" where
  "isCrossSiteMutation A r =
     (if rq_Method r \<in> {''GET'', ''HEAD'', ''OPTIONS'', ''TRACE''} then False
      else if rq_SecFetchSite r = ''same-origin'' \<or> rq_SecFetchSite r = ''none'' then False
      else if rq_SecFetchSite r = ''cross-site'' then True
      else if rq_Origin r = [] then False
      else (case au_ParseHost A (rq_Origin r) of
          None \<Rightarrow> True
        | Some host \<Rightarrow> if host = [] then True else \<not> au_EqualFold A host (rq_Host r)))"

definition requireSession :: "authenticator \<Rightarrow> event \<Rightarrow> (Identity option \<Rightarrow> reply_body) \<Rightarrow> reply_body" where
  "requireSession A ev next =
     (let api = HasPrefix (rq_Path (ev_Request ev)) ''/api/'' in
      if api \<and> isCrossSiteMutation A (ev_Request ev) then JSONError 403 ''cross-site request forbidden''
      else (case identityFromSessionCookie A ev of
          None \<Rightarrow> if api then JSONError 401 ''unauthorized'' else next None
        | Some identity \<Rightarrow> next (Some identity)))"

text \<open>The routes of \<open>Wrap\<close>; a pattern for GET also takes HEAD.\<close>

definition Wrap :: "authenticator \<Rightarrow> event \<Rightarrow> reply" where
  "Wrap A ev =
     (let r = ev_Request ev; get = rq_Method r = ''GET'' \<or> rq_Method r = ''HEAD''; plain = (\<lambda>b. \<lparr> rp_Cookies = [], rp_Body = b \<rparr>) in
      if get \<and> rq_Path r = ''/auth/login'' then handleLogin A ev
      else if get \<and> rq_Path r = ''/auth/callback'' then handleCallback A ev
      else if get \<and> rq_Path r = ''/auth/logout'' then handleLogout A ev
      else if get \<and> rq_Path r = ''/api/build-info'' then plain (handleBuildInfo A)
      else if get \<and> rq_Path r = ''/api/me'' then plain (requireSession A ev handleMe)
      else plain (requireSession A ev Served))"

section \<open>The hypotheses\<close>

text \<open>
  AES-GCM opens what it sealed; a random nonce has the right length; and the JSON of the payloads
  decodes to what was encoded, up to the path of a login state, which may hold invalid UTF-8.
\<close>

definition cipher_ok :: "authenticator \<Rightarrow> bool" where
  "cipher_ok A \<longleftrightarrow> 0 < au_NonceSize A \<and> (\<forall>n p ad. length n = au_NonceSize A \<longrightarrow> au_Open A n (au_Seal A n p ad) ad = Some p)"

definition payload_ok :: "authenticator \<Rightarrow> event \<Rightarrow> bool" where
  "payload_ok A ev \<longleftrightarrow>
     (\<forall>n. ev_CookieNonce ev = Some n \<longrightarrow> length n = au_NonceSize A)
   \<and> (\<exists>path. au_UnmarshalState A (au_MarshalState A (login_claims ev)) = Some ((login_claims ev)\<lparr> st_RedirectPath := path \<rparr>))
   \<and> (\<forall>state s e. callback_session ev state = Inr (s, e) \<longrightarrow> au_UnmarshalSession A (au_MarshalSession A s) = Some s)"

text \<open>
  Unforgeability: a cookie that opens under a purpose was sealed for it by an earlier reply. As the
  server seals nothing but cookies, the sealed text is that of a cookie which that reply set.
\<close>

definition cookie_of :: "string \<Rightarrow> request \<Rightarrow> string option" where
  "cookie_of purpose r = (if purpose = sessionPurpose then rq_SessionCookie r else rq_StateCookie r)"

definition sealed_by :: "authenticator \<Rightarrow> event \<Rightarrow> string \<Rightarrow> string \<Rightarrow> bool" where
  "sealed_by A ev purpose plaintext \<longleftrightarrow> (\<exists>c n. c \<in> set (rp_Cookies (Wrap A ev)) \<and> length n = au_NonceSize A
     \<and> sc_Name c = (if purpose = sessionPurpose then sessionCookieName else stateCookieName)
     \<and> sc_Value c = RawURLEncode (n @ au_Seal A n plaintext purpose))"

definition unforgeable :: "authenticator \<Rightarrow> event list \<Rightarrow> bool" where
  "unforgeable A evs \<longleftrightarrow> (\<forall>i < length evs. \<forall>purpose \<in> {sessionPurpose, statePurpose}. \<forall>value plaintext.
     cookie_of purpose (ev_Request (evs ! i)) = Some value \<longrightarrow> decrypt A purpose value Some = Inr plaintext \<longrightarrow>
     (\<exists>j < i. sealed_by A (evs ! j) purpose plaintext))"

section \<open>What a cookie proves\<close>

lemma decrypt_encrypt:
  assumes "cipher_ok A" "length n = au_NonceSize A"
  shows "decrypt A purpose (RawURLEncode (n @ au_Seal A n plaintext purpose)) unmarshal =
     (case unmarshal plaintext of None \<Rightarrow> Inl InvalidCookie | Some v \<Rightarrow> Inr v)"
  using assms by (simp add: decrypt_def cipher_ok_def split: option.split)

lemma decrypt_plaintext:
  "decrypt A purpose value unmarshal = Inr v \<Longrightarrow> \<exists>plaintext. decrypt A purpose value Some = Inr plaintext \<and> unmarshal plaintext = Some v"
  by (auto simp: decrypt_def split: option.splits if_splits)

lemma sealed_unique:
  assumes "cipher_ok A" "length n = au_NonceSize A" "length n' = au_NonceSize A"
    and "RawURLEncode (n @ au_Seal A n p purpose) = RawURLEncode (n' @ au_Seal A n' p' purpose)"
  shows "p = p'"
  using decrypt_encrypt[OF assms(1,2), of purpose p Some] decrypt_encrypt[OF assms(1,3), of purpose p' Some] assms(4) by simp

lemma sealed_nonempty: "cipher_ok A \<Longrightarrow> length n = au_NonceSize A \<Longrightarrow> RawURLEncode (n @ t) \<noteq> []"
proof
  assume ok: "cipher_ok A" "length n = au_NonceSize A" and "RawURLEncode (n @ t) = []"
  then have "RawURLDecode [] = Some (n @ t)" by (metis RawURLDecode_encode)
  then show False using ok by (auto simp: RawURLDecode_def cipher_ok_def)
qed

definition is_login :: "event \<Rightarrow> bool" where
  "is_login ev \<longleftrightarrow> rq_Path (ev_Request ev) = ''/auth/login''"

definition is_callback :: "event \<Rightarrow> bool" where
  "is_callback ev \<longleftrightarrow> rq_Path (ev_Request ev) = ''/auth/callback''"

lemma login_cookie:
  assumes "c \<in> set (rp_Cookies (Wrap A ev))" "sc_Value c \<noteq> []" "sc_Name c = stateCookieName"
  shows "is_login ev \<and> (\<exists>n. ev_CookieNonce ev = Some n
     \<and> sc_Value c = RawURLEncode (n @ au_Seal A n (au_MarshalState A (login_claims ev)) statePurpose))"
  using assms
  by (auto simp: Wrap_def handleLogin_def handleCallback_def handleLogout_def clearCookie_def Let_def is_login_def encrypt_def
      stateCookieName_def sessionCookieName_def split: if_splits option.splits sum.splits)

lemma session_cookie:
  assumes "c \<in> set (rp_Cookies (Wrap A ev))" "sc_Value c \<noteq> []" "sc_Name c = sessionCookieName"
  shows "is_callback ev \<and> (\<exists>n state s e. ev_CookieNonce ev = Some n \<and> consumeStateCookie A ev = Some state
     \<and> callback_session ev state = Inr (s, e)
     \<and> sc_Value c = RawURLEncode (n @ au_Seal A n (au_MarshalSession A s) sessionPurpose))"
  using assms
  by (auto simp: Wrap_def handleLogin_def handleCallback_def handleLogout_def clearCookie_def Let_def is_callback_def encrypt_def
      stateCookieName_def sessionCookieName_def split: if_splits option.splits sum.splits)

lemma sealed_state:
  assumes ok: "cipher_ok A" "payload_ok A ev" and "sealed_by A ev statePurpose plaintext"
  shows "is_login ev \<and> plaintext = au_MarshalState A (login_claims ev)"
proof -
  obtain c n where c: "c \<in> set (rp_Cookies (Wrap A ev))" "length n = au_NonceSize A" "sc_Name c = stateCookieName"
    "sc_Value c = RawURLEncode (n @ au_Seal A n plaintext statePurpose)"
    using assms(3) by (auto simp: sealed_by_def sessionPurpose_def statePurpose_def)
  have "sc_Value c \<noteq> []" using sealed_nonempty[OF ok(1) c(2)] c(4) by simp
  from login_cookie[OF c(1) this c(3)] obtain n' where n': "is_login ev" "ev_CookieNonce ev = Some n'"
    "sc_Value c = RawURLEncode (n' @ au_Seal A n' (au_MarshalState A (login_claims ev)) statePurpose)" by blast
  have "length n' = au_NonceSize A" using ok(2) n'(2) by (simp add: payload_ok_def)
  then show ?thesis using sealed_unique[OF ok(1) c(2)] n' c(4) by metis
qed

lemma sealed_session:
  assumes ok: "cipher_ok A" "payload_ok A ev" and "sealed_by A ev sessionPurpose plaintext"
  shows "is_callback ev \<and> (\<exists>state s e. consumeStateCookie A ev = Some state
     \<and> callback_session ev state = Inr (s, e) \<and> plaintext = au_MarshalSession A s)"
proof -
  obtain c n where c: "c \<in> set (rp_Cookies (Wrap A ev))" "length n = au_NonceSize A" "sc_Name c = sessionCookieName"
    "sc_Value c = RawURLEncode (n @ au_Seal A n plaintext sessionPurpose)"
    using assms(3) by (auto simp: sealed_by_def)
  have "sc_Value c \<noteq> []" using sealed_nonempty[OF ok(1) c(2)] c(4) by simp
  from session_cookie[OF c(1) this c(3)] obtain n' state s e where n': "is_callback ev" "ev_CookieNonce ev = Some n'"
    "consumeStateCookie A ev = Some state" "callback_session ev state = Inr (s, e)"
    "sc_Value c = RawURLEncode (n' @ au_Seal A n' (au_MarshalSession A s) sessionPurpose)" by blast
  have "length n' = au_NonceSize A" using ok(2) n'(2) by (simp add: payload_ok_def)
  then have "plaintext = au_MarshalSession A s" using sealed_unique[OF ok(1) c(2)] n'(5) c(4) by metis
  then show ?thesis using n' by blast
qed

lemma session_expiry_bounds:
  "now + minSessionDuration \<le> session_expiry now expiry \<and> session_expiry now expiry \<le> now + maxSessionDuration"
  by (auto simp: session_expiry_def Let_def minSessionDuration_def maxSessionDuration_def)

lemma Unix_before: "Unix s < Unix t \<Longrightarrow> s < t"
  unfolding Unix_def using zdiv_mono1[of t s 1000000000] by linarith

lemma callback_session_checks:
  assumes "callback_session ev state = Inr (s, e)"
  shows "\<exists>raw tok. rq_Query (ev_Request ev) ''state'' = st_State state
     \<and> ip_Exchange (ev_Provider ev) (rq_Query (ev_Request ev) ''code'') (st_PKCEVerifier state) = Some (Some raw)
     \<and> ip_Verify (ev_Provider ev) raw = Some tok \<and> it_Nonce tok = st_Nonce state \<and> se_Subject s = it_Subject tok
     \<and> se_ExpiresAt s = Unix e \<and> e = session_expiry (ev_Issued ev) (it_Expiry tok)"
  using assms
  by (auto simp: callback_session_def session_claims_def Let_def split: if_splits option.splits prod.splits)

text \<open>The login that a session rests on: a start at \<open>k\<close>, and at \<open>j\<close> the callback that finished it.\<close>

definition verified_login :: "event list \<Rightarrow> nat \<Rightarrow> nat \<Rightarrow> string \<Rightarrow> bool" where
  "verified_login evs k j subject \<longleftrightarrow> k < j \<and> is_login (evs ! k) \<and> is_callback (evs ! j)
     \<and> ev_Now (evs ! j) < ev_Now (evs ! k) + stateCookieTTL
     \<and> rq_Query (ev_Request (evs ! j)) ''state'' = ev_State (evs ! k)
     \<and> (\<exists>raw tok. ip_Exchange (ev_Provider (evs ! j)) (rq_Query (ev_Request (evs ! j)) ''code'') (ev_Verifier (evs ! k)) = Some (Some raw)
          \<and> ip_Verify (ev_Provider (evs ! j)) raw = Some tok \<and> it_Nonce tok = ev_Nonce (evs ! k) \<and> it_Subject tok = subject)"

lemma identity_verified:
  assumes cipher: "cipher_ok A" and payload: "\<forall>ev \<in> set evs. payload_ok A ev" and unforgeable: "unforgeable A evs"
    and i: "i < length evs" and identity: "identityFromSessionCookie A (evs ! i) = Some identity"
  shows "\<exists>k j. j < i \<and> verified_login evs k j (id_Subject identity) \<and> ev_Now (evs ! i) < ev_Issued (evs ! j) + maxSessionDuration"
proof -
  obtain val0 s where v0: "rq_SessionCookie (ev_Request (evs ! i)) = Some val0"
    "decrypt A sessionPurpose val0 (au_UnmarshalSession A) = Inr s" "Unix (ev_Now (evs ! i)) < se_ExpiresAt s"
    "id_Subject identity = se_Subject s"
    using identity by (auto simp: identityFromSessionCookie_def split: option.splits sum.splits if_splits)
  obtain p where p: "decrypt A sessionPurpose val0 Some = Inr p" "au_UnmarshalSession A p = Some s"
    using decrypt_plaintext[OF v0(2)] by blast
  have "cookie_of sessionPurpose (ev_Request (evs ! i)) = Some val0" using v0(1) by (simp add: cookie_of_def)
  then obtain j where j: "j < i" "sealed_by A (evs ! j) sessionPurpose p"
    using unforgeable i p(1) unfolding unforgeable_def by blast
  have pj: "payload_ok A (evs ! j)" using payload j(1) i by simp
  from sealed_session[OF cipher pj j(2)] obtain state s' e where st: "is_callback (evs ! j)"
    "consumeStateCookie A (evs ! j) = Some state" "callback_session (evs ! j) state = Inr (s', e)" "p = au_MarshalSession A s'" by blast
  have "s' = s" using pj st(3,4) p(2) unfolding payload_ok_def by (metis option.inject)
  note checks = callback_session_checks[OF st(3)[unfolded this]]
  obtain val1 where v': "rq_StateCookie (ev_Request (evs ! j)) = Some val1"
    "decrypt A statePurpose val1 (au_UnmarshalState A) = Inr state" "Unix (ev_Now (evs ! j)) < st_ExpiresAt state"
    using st(2) by (auto simp: consumeStateCookie_def split: option.splits sum.splits if_splits)
  obtain p' where p': "decrypt A statePurpose val1 Some = Inr p'" "au_UnmarshalState A p' = Some state"
    using decrypt_plaintext[OF v'(2)] by blast
  have "cookie_of statePurpose (ev_Request (evs ! j)) = Some val1"
    using v'(1) by (simp add: cookie_of_def statePurpose_def sessionPurpose_def)
  moreover have "j < length evs" using j(1) i by simp
  ultimately obtain k where k: "k < j" "sealed_by A (evs ! k) statePurpose p'"
    using unforgeable p'(1) unfolding unforgeable_def by blast
  have pk: "payload_ok A (evs ! k)" using payload k(1) j(1) i by simp
  note login = sealed_state[OF cipher pk k(2)]
  obtain path where "state = (login_claims (evs ! k))\<lparr> st_RedirectPath := path \<rparr>"
    using pk login p'(2) by (auto simp: payload_ok_def)
  then have state: "st_State state = ev_State (evs ! k)" "st_Nonce state = ev_Nonce (evs ! k)"
    "st_PKCEVerifier state = ev_Verifier (evs ! k)" "st_ExpiresAt state = Unix (ev_Now (evs ! k) + stateCookieTTL)"
    by (simp_all add: login_claims_def)
  have "ev_Now (evs ! j) < ev_Now (evs ! k) + stateCookieTTL" using v'(3) state(4) Unix_before by simp
  moreover have "ev_Now (evs ! i) < ev_Issued (evs ! j) + maxSessionDuration"
    using checks v0(3) Unix_before session_expiry_bounds by (metis order_less_le_trans)
  ultimately show ?thesis using checks login st(1) k(1) j(1) state v0(4)
    by (intro exI[of _ k] exI[of _ j]) (auto simp: verified_login_def)
qed

text \<open>C39: the API is only reached after a login: if no cookie was forged, a request under \<open>/api/\<close> other than the
  build information that is not refused carries the identity of a user whom the provider's verified ID token
  named, in a callback of the last 24 hours that presented the state and the nonce of a login which this
  server started less than ten minutes before; and it is not marked as a cross-site mutation.\<close>
theorem api_needs_verified_login:
  assumes "cipher_ok A" "\<forall>ev \<in> set evs. payload_ok A ev" "unforgeable A evs" "i < length evs"
    and "HasPrefix (rq_Path (ev_Request (evs ! i))) ''/api/''"
    and "rp_Body (Wrap A (evs ! i)) \<noteq> BuildInfo (au_appVersion A) (au_footerHost A)"
    and "\<forall>status message. rp_Body (Wrap A (evs ! i)) \<noteq> JSONError status message"
  shows "\<exists>identity k j. rp_Body (Wrap A (evs ! i)) \<in> {Served (Some identity), Me identity}
     \<and> j < i \<and> verified_login evs k j (id_Subject identity) \<and> ev_Now (evs ! i) < ev_Issued (evs ! j) + maxSessionDuration
     \<and> \<not> isCrossSiteMutation A (ev_Request (evs ! i))"
proof -
  let ?r = "ev_Request (evs ! i)"
  have "\<not> HasPrefix ''/auth/login'' ''/api/''" "\<not> HasPrefix ''/auth/callback'' ''/api/''" "\<not> HasPrefix ''/auth/logout'' ''/api/''"
    by (simp_all add: HasPrefix_def)
  then have path: "rq_Path ?r \<noteq> ''/auth/login''" "rq_Path ?r \<noteq> ''/auth/callback''" "rq_Path ?r \<noteq> ''/auth/logout''"
    using assms(5) by metis+
  obtain identity where id: "identityFromSessionCookie A (evs ! i) = Some identity"
    "rp_Body (Wrap A (evs ! i)) \<in> {Served (Some identity), Me identity}" "\<not> isCrossSiteMutation A ?r"
    using assms(5-7) path
    by (cases "identityFromSessionCookie A (evs ! i)")
      (auto simp: Wrap_def requireSession_def handleMe_def handleBuildInfo_def Let_def split: if_splits)
  then show ?thesis using identity_verified[OF assms(1-4) id(1)] by blast
qed

section \<open>The life of a session\<close>

text \<open>The session cookie of a successful callback is accepted, and names the user of the token, in every
  later request whose second is before the end of eight hours, and in none from 24 hours on.\<close>
theorem session_lives_eight_to_24_hours:
  assumes "cipher_ok A" "payload_ok A ev" "c \<in> set (rp_Cookies (Wrap A ev))" "sc_Name c = sessionCookieName" "sc_Value c \<noteq> []"
    and "rq_SessionCookie (ev_Request later) = Some (sc_Value c)"
  shows "(Unix (ev_Now later) < Unix (ev_Issued ev + minSessionDuration) \<longrightarrow>
        (\<exists>identity code raw tok verifier. identityFromSessionCookie A later = Some identity
          \<and> ip_Exchange (ev_Provider ev) code verifier = Some (Some raw) \<and> ip_Verify (ev_Provider ev) raw = Some tok
          \<and> id_Subject identity = it_Subject tok))
     \<and> (ev_Issued ev + maxSessionDuration \<le> ev_Now later \<longrightarrow> identityFromSessionCookie A later = None)"
proof -
  obtain n state s e where n: "ev_CookieNonce ev = Some n" "callback_session ev state = Inr (s, e)"
    "sc_Value c = RawURLEncode (n @ au_Seal A n (au_MarshalSession A s) sessionPurpose)"
    using session_cookie[OF assms(3,5,4)] by blast
  have len: "length n = au_NonceSize A" and rt: "au_UnmarshalSession A (au_MarshalSession A s) = Some s"
    using assms(2) n(1,2) unfolding payload_ok_def by blast+
  have dec: "decrypt A sessionPurpose (sc_Value c) (au_UnmarshalSession A) = Inr s"
    using decrypt_encrypt[OF assms(1) len, of sessionPurpose "au_MarshalSession A s" "au_UnmarshalSession A"] rt
    unfolding n(3) by simp
  have idn: "identityFromSessionCookie A later = (if se_ExpiresAt s \<le> Unix (ev_Now later) then None
      else Some \<lparr> id_Subject = se_Subject s, id_Email = se_Email s, id_Name = se_Name s \<rparr>)"
    using assms(6) dec by (simp add: identityFromSessionCookie_def)
  obtain raw tok where checks: "ip_Exchange (ev_Provider ev) (rq_Query (ev_Request ev) ''code'') (st_PKCEVerifier state) = Some (Some raw)"
    "ip_Verify (ev_Provider ev) raw = Some tok" "se_Subject s = it_Subject tok" "se_ExpiresAt s = Unix e"
    "e = session_expiry (ev_Issued ev) (it_Expiry tok)"
    using callback_session_checks[OF n(2)] by blast
  have mono: "Unix (ev_Issued ev + minSessionDuration) \<le> Unix e \<and> Unix e \<le> Unix (ev_Issued ev + maxSessionDuration)"
    unfolding Unix_def checks(5) using session_expiry_bounds zdiv_mono1[of _ _ 1000000000] by auto
  have "Unix (ev_Issued ev + maxSessionDuration) \<le> Unix (ev_Now later)" if "ev_Issued ev + maxSessionDuration \<le> ev_Now later"
    unfolding Unix_def using that zdiv_mono1[of _ _ 1000000000] by simp
  then have "identityFromSessionCookie A later = None" if "ev_Issued ev + maxSessionDuration \<le> ev_Now later"
    using that mono idn checks(4) by auto
  moreover have "\<exists>identity code raw tok verifier. identityFromSessionCookie A later = Some identity
          \<and> ip_Exchange (ev_Provider ev) code verifier = Some (Some raw) \<and> ip_Verify (ev_Provider ev) raw = Some tok
          \<and> id_Subject identity = it_Subject tok" if "Unix (ev_Now later) < Unix (ev_Issued ev + minSessionDuration)"
  proof -
    have "identityFromSessionCookie A later = Some \<lparr> id_Subject = se_Subject s, id_Email = se_Email s, id_Name = se_Name s \<rparr>"
      using that mono idn checks(4) by simp
    moreover have "id_Subject \<lparr> id_Subject = se_Subject s, id_Email = se_Email s, id_Name = se_Name s \<rparr> = it_Subject tok"
      using checks(3) by simp
    ultimately show ?thesis using checks(1,2) by blast
  qed
  ultimately show ?thesis by blast
qed

section \<open>Redirects stay on the site\<close>

text \<open>
  How a browser reads a \<open>Location\<close>: leading blanks, tabs and line breaks are dropped, a backslash is a slash. It
  stays on the own host if one slash comes first, but not two.
\<close>

definition browser_reads :: "string \<Rightarrow> string" where
  "browser_reads url = map (\<lambda>c. if c = backslash then CHR ''/'' else c)
     (filter (\<lambda>c. (of_char c :: nat) \<notin> {9, 10, 13}) (dropWhile (\<lambda>c. (of_char c :: nat) \<le> 0x20) url))"

definition stays_on_site :: "string \<Rightarrow> bool" where
  "stays_on_site url \<longleftrightarrow> (\<exists>t. browser_reads url = CHR ''/'' # t \<and> \<not> prefix ''/'' t)"

definition local_path :: "string \<Rightarrow> bool" where
  "local_path s \<longleftrightarrow> (\<exists>t. s = CHR ''/'' # t \<and> \<not> prefix ''/'' t \<and> (\<forall>c \<in> set s. \<not> control_char c \<and> c \<noteq> backslash))"

lemma local_path_stays: "local_path s \<Longrightarrow> stays_on_site s"
proof -
  assume "local_path s"
  then obtain t where t: "s = CHR ''/'' # t" "\<not> prefix ''/'' t" "\<forall>c \<in> set s. \<not> control_char c \<and> c \<noteq> backslash"
    by (auto simp: local_path_def)
  have "filter (\<lambda>c. (of_char c :: nat) \<notin> {9, 10, 13}) s = s"
    using t(3) by (intro filter_True) (auto simp: control_char_def)
  moreover have "dropWhile (\<lambda>c. (of_char c :: nat) \<le> 0x20) s = s" using t(1) by simp
  moreover have "map (\<lambda>c. if c = backslash then CHR ''/'' else c) s = s" using t(3) by (simp add: map_idI)
  ultimately have "browser_reads s = s" by (simp add: browser_reads_def)
  then show ?thesis using t by (auto simp: stays_on_site_def)
qed

lemma sanitized_local: "local_path (sanitizeRedirectPath path)"
proof -
  have "local_path ''/''" by (simp add: local_path_def control_char_def backslash_def)
  moreover have "local_path path" if "HasPrefix path ''/''" "\<not> HasPrefix path ''//''" "\<not> ContainsChar path backslash" "\<forall>c \<in> set path. \<not> control_char c"
    using that by (cases path) (auto simp: local_path_def HasPrefix_def ContainsChar_def)
  ultimately show ?thesis by (auto simp: sanitizeRedirectPath_def Let_def)
qed

lemma clean_words:
  "\<forall>w \<in> set ws. CHR ''/'' \<notin> set w \<Longrightarrow> \<forall>w \<in> set acc. w \<noteq> [] \<and> CHR ''/'' \<notin> set w
     \<Longrightarrow> \<forall>w \<in> set (foldl (clean_step rooted) acc ws). w \<noteq> [] \<and> CHR ''/'' \<notin> set w \<and> (w \<in> set acc \<or> w \<in> set ws)"
proof (induction ws arbitrary: acc)
  case (Cons v ws)
  have "\<forall>w \<in> set (clean_step rooted acc v). w \<noteq> [] \<and> CHR ''/'' \<notin> set w \<and> (w \<in> set acc \<or> w = v)"
    using Cons.prems by (auto dest: in_set_butlastD)
  note step = this
  have p1: "\<forall>w \<in> set ws. CHR ''/'' \<notin> set w" using Cons.prems(1) by simp
  have p2: "\<forall>w \<in> set (clean_step rooted acc v). w \<noteq> [] \<and> CHR ''/'' \<notin> set w" using step by blast
  have "\<forall>w \<in> set (foldl (clean_step rooted) (clean_step rooted acc v) ws). w \<noteq> [] \<and> CHR ''/'' \<notin> set w
      \<and> (w \<in> set (clean_step rooted acc v) \<or> w \<in> set ws)"
    by (rule Cons.IH[OF p1 p2])
  note all = this
  show ?case
  proof
    fix w assume "w \<in> set (foldl (clean_step rooted) acc (v # ws))"
    then have "w \<in> set (foldl (clean_step rooted) (clean_step rooted acc v) ws)" by (simp only: foldl.simps)
    note w = bspec[OF all this]
    then show "w \<noteq> [] \<and> CHR ''/'' \<notin> set w \<and> (w \<in> set acc \<or> w \<in> set (v # ws))"
      using bspec[OF step, of w] by (metis list.set_intros(1,2))
  qed
qed simp

lemma join_with_chars: "c \<in> set (join_with sep ws) \<Longrightarrow> c \<in> set sep \<or> (\<exists>w \<in> set ws. c \<in> set w)"
  by (induction sep ws rule: join_with.induct) auto

lemma join_with_hd: "ws \<noteq> [] \<Longrightarrow> hd ws \<noteq> [] \<Longrightarrow> join_with sep ws \<noteq> [] \<and> hd (join_with sep ws) = hd (hd ws)"
  by (cases ws rule: remdups_adj.cases) auto

lemma path_Clean_local:
  assumes "p = CHR ''/'' # t" "\<forall>c \<in> set p. \<not> control_char c \<and> c \<noteq> backslash"
  shows "local_path (path_Clean p)"
proof -
  define ws where "ws = foldl (clean_step True) [] (split_on (CHR ''/'') p)"
  have clean: "path_Clean p = CHR ''/'' # join_with ''/'' ws" using assms(1) by (simp add: path_Clean_def IsAbs_def Let_def ws_def)
  have words: "\<forall>w \<in> set ws. w \<noteq> [] \<and> CHR ''/'' \<notin> set w \<and> w \<in> set (split_on (CHR ''/'') p)"
    using clean_words[of "split_on (CHR ''/'') p" "[]" True] split_on_chars unfolding ws_def by fastforce
  have "\<not> prefix ''/'' (join_with ''/'' ws)"
  proof (cases ws)
    case (Cons w ws')
    then have "w \<noteq> []" "CHR ''/'' \<notin> set w" using words by auto
    then have "hd (hd ws) \<noteq> CHR ''/''" "hd ws \<noteq> []" using Cons by (metis list.set_sel(1) list.sel(1))+
    then have "hd (join_with ''/'' ws) \<noteq> CHR ''/''" "join_with ''/'' ws \<noteq> []" using join_with_hd[of ws "''/''"] Cons by simp_all
    then show ?thesis by (cases "join_with ''/'' ws") auto
  qed simp
  moreover have "\<not> control_char c \<and> c \<noteq> backslash" if c: "c \<in> set (path_Clean p)" for c
  proof -
    have "c = CHR ''/'' \<or> c \<in> set p"
      using c words join_with_chars[of c "''/''" ws] split_on_chars unfolding clean by fastforce
    then show ?thesis using assms by auto
  qed
  ultimately show ?thesis unfolding local_path_def clean by blast
qed

lemma local_path_append:
  assumes "local_path s" "\<forall>c \<in> set q. \<not> control_char c \<and> c \<noteq> backslash" "q \<noteq> [] \<Longrightarrow> s = ''/'' \<Longrightarrow> hd q \<noteq> CHR ''/''"
  shows "local_path (s @ q)"
proof -
  obtain t where t: "s = CHR ''/'' # t" "\<not> prefix ''/'' t" using assms(1) by (auto simp: local_path_def)
  have "\<not> prefix ''/'' (t @ q)" using t assms(3) by (cases t; cases q) auto
  then show ?thesis using t assms(1,2) by (auto simp: local_path_def)
qed

lemma hex_digit_plain: "n < 16 \<Longrightarrow> \<not> control_char (hex_digit n) \<and> hex_digit n \<noteq> backslash"
  by (auto simp: hex_digit_def control_char_def backslash_def dest!: arg_cong[where f = "of_char :: char \<Rightarrow> nat"])

lemma escape_byte_plain: "\<not> control_char c \<Longrightarrow> c \<noteq> backslash \<Longrightarrow> d \<in> set (escape_byte c) \<Longrightarrow> \<not> control_char d \<and> d \<noteq> backslash"
proof -
  assume c: "\<not> control_char c" "c \<noteq> backslash" "d \<in> set (escape_byte c)"
  have "of_char c div 16 < (16 :: nat)" "of_char c mod 16 < (16 :: nat)" by (simp_all add: div_less_iff_less_mult)
  note plain = hex_digit_plain[OF this(1)] hex_digit_plain[OF this(2)]
  have "d = c \<or> d = CHR ''%'' \<or> d = hex_digit (of_char c div 16) \<or> d = hex_digit (of_char c mod 16)"
    using c(3) by (auto simp: escape_byte_def Let_def split: if_splits)
  moreover have "\<not> control_char (CHR ''%'') \<and> CHR ''%'' \<noteq> backslash" by (simp add: control_char_def backslash_def)
  ultimately show ?thesis using c(1,2) plain by (elim disjE) simp_all
qed

lemma escape_byte_hd: "escape_byte c \<noteq> [] \<and> (c \<noteq> CHR ''/'' \<longrightarrow> hd (escape_byte c) \<noteq> CHR ''/'')"
  by (simp add: escape_byte_def Let_def)

lemma hexEscape_local: "local_path s \<Longrightarrow> local_path (hexEscapeNonASCII s)"
proof -
  assume s: "local_path s"
  then obtain t where t: "s = CHR ''/'' # t" "\<not> prefix ''/'' t" "\<forall>c \<in> set s. \<not> control_char c \<and> c \<noteq> backslash"
    by (auto simp: local_path_def)
  have "\<forall>c \<in> set (hexEscapeNonASCII s). \<not> control_char c \<and> c \<noteq> backslash"
  proof
    fix c assume "c \<in> set (hexEscapeNonASCII s)"
    then obtain b where "b \<in> set s" "c \<in> set (escape_byte b)" by (auto simp: hexEscapeNonASCII_def)
    then show "\<not> control_char c \<and> c \<noteq> backslash" using t(3) escape_byte_plain by blast
  qed
  moreover have "hexEscapeNonASCII s = CHR ''/'' # hexEscapeNonASCII t"
    using t(1) by (simp add: hexEscapeNonASCII_def escape_byte_def)
  moreover have "\<not> prefix ''/'' (hexEscapeNonASCII t)"
  proof (cases t)
    case (Cons c t')
    then have "c \<noteq> CHR ''/''" using t(2) by simp
    then show ?thesis using Cons escape_byte_hd[of c] by (cases "escape_byte c") (auto simp: hexEscapeNonASCII_def)
  qed (simp add: hexEscapeNonASCII_def)
  ultimately show ?thesis by (auto simp: local_path_def)
qed

lemma redirect_location_local: "local_path url \<Longrightarrow> local_path (redirect_location A url)"
proof -
  assume url: "local_path url"
  then obtain t where t: "url = CHR ''/'' # t" "\<forall>c \<in> set url. \<not> control_char c \<and> c \<noteq> backslash"
    by (auto simp: local_path_def)
  define p where "p = takeWhile (\<lambda>c. c \<noteq> CHR ''?'') url"
  define q where "q = dropWhile (\<lambda>c. c \<noteq> CHR ''?'') url"
  have "set p \<subseteq> set url" "set q \<subseteq> set url"
    unfolding p_def q_def by (auto dest: set_takeWhileD set_dropWhileD)
  then have plain: "\<forall>c \<in> set p. \<not> control_char c \<and> c \<noteq> backslash" "\<forall>c \<in> set q. \<not> control_char c \<and> c \<noteq> backslash"
    using t(2) by blast+
  obtain u where "p = CHR ''/'' # u" using t(1) by (simp add: p_def)
  note clean = path_Clean_local[OF this plain(1)]
  have slash: "local_path (path_Clean p @ ''/'')" if "\<not> HasSuffix (path_Clean p) ''/''"
    by (rule local_path_append[OF clean]) (use that in \<open>auto simp: control_char_def backslash_def HasSuffix_def\<close>)
  have "hd q = CHR ''?''" if "q \<noteq> []"
    using hd_dropWhile[of "\<lambda>c. c \<noteq> CHR ''?''" url] that unfolding q_def by blast
  then have query: "local_path (s @ q)" if "local_path s" for s
    by (intro local_path_append[OF that plain(2)]) simp
  have "local_path ((if HasSuffix p ''/'' \<and> \<not> HasSuffix (path_Clean p) ''/'' then path_Clean p @ ''/'' else path_Clean p) @ q)"
    by (rule query) (use clean slash in simp)
  then show ?thesis
    using hexEscape_local url unfolding redirect_location_def Let_def p_def[symmetric] q_def[symmetric] by simp
qed

lemma sanitize_idem: "sanitizeRedirectPath (sanitizeRedirectPath path) = sanitizeRedirectPath path"
proof -
  have "sanitizeRedirectPath ''/'' = ''/''" by code_simp
  then show ?thesis by (auto simp: sanitizeRedirectPath_def Let_def)
qed

text \<open>C40: whatever redirect a login was started with, the path kept in its state is one a browser reads as a path on
  the own host and not the login page, and so is the address the browser is sent to after the login,
  whether or not the library cleans the path; sanitising twice changes nothing.\<close>
theorem redirect_stays_on_site:
  "stays_on_site (sanitizeRedirectPath path)
   \<and> stays_on_site (redirect_location A (sanitizeRedirectPath path))
   \<and> sanitizeRedirectPath (sanitizeRedirectPath path) = sanitizeRedirectPath path
   \<and> takeWhile (\<lambda>c. c \<noteq> CHR ''?'' \<and> c \<noteq> CHR ''#'') (sanitizeRedirectPath path) \<notin> {''/login'', ''/login/''}"
proof -
  have "takeWhile (\<lambda>c. c \<noteq> CHR ''?'' \<and> c \<noteq> CHR ''#'') (sanitizeRedirectPath path) \<notin> {''/login'', ''/login/''}"
    by (auto simp: sanitizeRedirectPath_def Let_def)
  then show ?thesis
    using local_path_stays[OF sanitized_local] local_path_stays[OF redirect_location_local[OF sanitized_local]] sanitize_idem
    by blast
qed

text \<open>
  The page after a login can still be the login page: a path with a dot segment passes the sanitiser, and
  \<open>http.Redirect\<close>, or the browser, cleans it.
\<close>

lemma redirect_reaches_login:
  "au_ParseOk A ''/./login'' \<Longrightarrow> redirect_location A (sanitizeRedirectPath ''/./login'') = ''/login''"
proof -
  have "sanitizeRedirectPath ''/./login'' = ''/./login''" by code_simp
  moreover have "path_Clean ''/./login'' = ''/login''" by code_simp
  moreover have "hexEscapeNonASCII ''/login'' = ''/login''" by code_simp
  moreover have "takeWhile (\<lambda>c. c \<noteq> CHR ''?'') ''/./login'' = ''/./login''" "dropWhile (\<lambda>c. c \<noteq> CHR ''?'') ''/./login'' = []"
    "\<not> HasSuffix ''/./login'' ''/''" by code_simp+
  ultimately show "au_ParseOk A ''/./login'' \<Longrightarrow> redirect_location A (sanitizeRedirectPath ''/./login'') = ''/login''"
    unfolding redirect_location_def Let_def by simp
qed

text \<open>The errors of \<open>decrypt\<close> tell a value that is not base64 from one that does not open.\<close>

lemma decrypt_errors_differ:
  "decrypt A purpose ''!'' unmarshal = Inl InvalidCookieEncoding"
  "0 < au_NonceSize A \<Longrightarrow> decrypt A purpose [] unmarshal = Inl InvalidCookie"
  by (simp_all add: decrypt_def RawURLDecode_def b64_value_def line_break_def Let_def)

section \<open>A sample login\<close>

definition sample_idp :: idp where
  "sample_idp = \<lparr> ip_Exchange = (\<lambda>code verifier. if code = ''code'' \<and> verifier = ''pkce'' then Some (Some ''jwt'') else None),
     ip_Verify = (\<lambda>raw. Some \<lparr> it_Subject = ''alice'', it_Nonce = ''nonce'', it_Expiry = 0, it_Claims = Some ([], [], ''al'') \<rparr>) \<rparr>"

definition sample_session :: sessionClaims where
  "sample_session = \<lparr> se_Subject = ''alice'', se_Email = [], se_Name = ''al'', se_ExpiresAt = 28805 \<rparr>"

definition sample_state :: stateClaims where
  "sample_state = \<lparr> st_State = ''state'', st_Nonce = ''nonce'', st_PKCEVerifier = ''pkce'', st_RedirectPath = ''/'', st_ExpiresAt = 600 \<rparr>"

definition sample_auth :: authenticator where
  "sample_auth = \<lparr> au_NonceSize = 1, au_Seal = (\<lambda>n p ad. ad @ p), au_Open = (\<lambda>n c ad. if prefix ad c then Some (drop (length ad) c) else None),
     au_MarshalSession = (\<lambda>_. ''{s}''), au_UnmarshalSession = (\<lambda>_. Some sample_session),
     au_MarshalState = (\<lambda>c. [char_of (nat (st_ExpiresAt c - 600))]),
     au_UnmarshalState = (\<lambda>p. Some (sample_state\<lparr> st_ExpiresAt := 600 + int (of_char (hd p)) \<rparr>)),
     au_AuthCodeURL = (\<lambda>s n v. ''https://idp/''), au_appVersion = ''v1'', au_footerHost = [], au_ParseHost = (\<lambda>_. None),
     au_ParseOk = (\<lambda>_. True), au_EqualFold = (=), au_IsPrint = (\<lambda>_. True) \<rparr>"

definition sample_event :: "string \<Rightarrow> (string \<Rightarrow> string) \<Rightarrow> string option \<Rightarrow> string option \<Rightarrow> int \<Rightarrow> event" where
  "sample_event path query session state now =
     \<lparr> ev_Request = \<lparr> rq_Method = ''GET'', rq_Path = path, rq_Query = query, rq_Host = ''tapes'', rq_SecFetchSite = [], rq_Origin = [],
         rq_ForwardedProto = ''https'', rq_TLS = False, rq_SessionCookie = session, rq_StateCookie = state \<rparr>,
       ev_Now = now, ev_Issued = now, ev_State = ''state'', ev_Nonce = ''nonce'', ev_Verifier = ''pkce'', ev_CookieNonce = Some ''N'',
       ev_Provider = sample_idp \<rparr>"

definition sample_query :: "string \<Rightarrow> string" where
  "sample_query k = (if k = ''state'' then ''state'' else if k = ''code'' then ''code'' else [])"

definition sample_login :: event where
  "sample_login = sample_event ''/auth/login'' (\<lambda>_. []) None None 0"

definition sample_callback :: event where
  "sample_callback = sample_event ''/auth/callback'' sample_query None (Some (RawURLEncode (''Nstate'' @ [CHR 0x00]))) 5000000000"

definition sample_call :: "int \<Rightarrow> event" where
  "sample_call now = sample_event ''/api/runs'' (\<lambda>_. []) (Some (RawURLEncode ''Nsession{s}'')) None now"

definition sample_trace :: "event list" where
  "sample_trace = [sample_login, sample_callback, sample_call 6000000000]"

lemma sample_replies:
  "rp_Cookies (Wrap sample_auth sample_login) =
     [\<lparr> sc_Name = ''ta_oidc_state'', sc_Value = RawURLEncode (''Nstate'' @ [CHR 0x00]), sc_MaxAge = 600, sc_Expires = None, sc_Secure = True \<rparr>]"
  "rp_Cookies (Wrap sample_auth sample_callback) =
     [\<lparr> sc_Name = ''ta_oidc_state'', sc_Value = [], sc_MaxAge = - 1, sc_Expires = None, sc_Secure = True \<rparr>,
      \<lparr> sc_Name = ''ta_session'', sc_Value = RawURLEncode ''Nsession{s}'', sc_MaxAge = 0, sc_Expires = Some 28805000000000, sc_Secure = True \<rparr>]"
  "rp_Body (Wrap sample_auth (sample_call 6000000000)) = Served (Some \<lparr> id_Subject = ''alice'', id_Email = [], id_Name = ''al'' \<rparr>)"
  by code_simp+

lemma sample_cipher: "cipher_ok sample_auth"
  by (simp add: cipher_ok_def sample_auth_def)

lemma sample_payload: "\<forall>ev \<in> set sample_trace. payload_ok sample_auth ev"
proof -
  have claims: "login_claims sample_login = sample_state" "login_claims sample_callback = sample_state\<lparr> st_ExpiresAt := 605 \<rparr>"
    "login_claims (sample_call 6000000000) = sample_state\<lparr> st_ExpiresAt := 606 \<rparr>"
    by code_simp+
  have state: "au_UnmarshalState sample_auth (au_MarshalState sample_auth sample_state) = Some sample_state"
    "au_UnmarshalState sample_auth (au_MarshalState sample_auth (sample_state\<lparr> st_ExpiresAt := 605 \<rparr>)) = Some (sample_state\<lparr> st_ExpiresAt := 605 \<rparr>)"
    "au_UnmarshalState sample_auth (au_MarshalState sample_auth (sample_state\<lparr> st_ExpiresAt := 606 \<rparr>)) = Some (sample_state\<lparr> st_ExpiresAt := 606 \<rparr>)"
    by code_simp+
  have path: "\<exists>path. c = (c\<lparr> st_RedirectPath := path \<rparr>)" for c :: stateClaims by (rule exI[of _ "st_RedirectPath c"]) simp
  have nonce: "ev_CookieNonce (sample_event p q s t n) = Some ''N''" "au_NonceSize sample_auth = 1" for p q s t n
    by (simp_all add: sample_event_def sample_auth_def)
  have none: "callback_session (sample_event p (\<lambda>_. []) s t n) state \<noteq> Inr r" for p s t n state r
    by (simp add: callback_session_def sample_event_def Let_def)
  have session: "callback_session sample_callback state = Inr (s, e) \<Longrightarrow> s = sample_session" for state s e
    by (auto simp: callback_session_def sample_callback_def sample_event_def sample_query_def sample_idp_def session_claims_def sample_session_def
        session_expiry_def minSessionDuration_def maxSessionDuration_def Unix_def Let_def split: if_splits)
  have unmarshal: "au_UnmarshalSession sample_auth t = Some sample_session" for t by (simp add: sample_auth_def)
  have "payload_ok sample_auth sample_login"
    unfolding payload_ok_def claims state by (simp add: sample_login_def path none nonce)
  moreover have "payload_ok sample_auth sample_callback"
    unfolding payload_ok_def claims state unmarshal using session nonce by (auto simp: path sample_callback_def)
  moreover have "payload_ok sample_auth (sample_call 6000000000)"
    unfolding payload_ok_def claims state by (simp add: sample_call_def path none nonce)
  ultimately show ?thesis by (simp add: sample_trace_def)
qed

lemma sample_decrypts:
  "decrypt sample_auth statePurpose (RawURLEncode (''Nstate'' @ [CHR 0x00])) Some = Inr [CHR 0x00]"
  "decrypt sample_auth sessionPurpose (RawURLEncode ''Nsession{s}'') Some = Inr ''{s}''"
  by code_simp+

lemma sample_seals:
  "sealed_by sample_auth sample_login statePurpose [CHR 0x00]"
  "sealed_by sample_auth sample_callback sessionPurpose ''{s}''"
proof -
  note simps = sample_auth_def sessionPurpose_def statePurpose_def stateCookieName_def sessionCookieName_def
  show "sealed_by sample_auth sample_login statePurpose [CHR 0x00]"
    unfolding sealed_by_def sample_replies
    by (rule exI[of _ "\<lparr> sc_Name = ''ta_oidc_state'', sc_Value = RawURLEncode (''Nstate'' @ [CHR 0x00]), sc_MaxAge = 600,
      sc_Expires = None, sc_Secure = True \<rparr>"], rule exI[of _ "''N''"]) (simp add: simps)
  show "sealed_by sample_auth sample_callback sessionPurpose ''{s}''"
    unfolding sealed_by_def sample_replies
    by (rule exI[of _ "\<lparr> sc_Name = ''ta_session'', sc_Value = RawURLEncode ''Nsession{s}'', sc_MaxAge = 0,
      sc_Expires = Some 28805000000000, sc_Secure = True \<rparr>"], rule exI[of _ "''N''"]) (simp add: simps)
qed

lemma sample_unforgeable: "unforgeable sample_auth sample_trace"
proof -
  have cookies: "cookie_of purpose (ev_Request sample_login) = None"
    "cookie_of purpose (ev_Request sample_callback) = (if purpose = sessionPurpose then None else Some (RawURLEncode (''Nstate'' @ [CHR 0x00])))"
    "cookie_of purpose (ev_Request (sample_call n)) = (if purpose = sessionPurpose then Some (RawURLEncode ''Nsession{s}'') else None)" for purpose n
    by (simp_all add: cookie_of_def sample_login_def sample_callback_def sample_call_def sample_event_def)
  have "\<exists>j < i. sealed_by sample_auth (sample_trace ! j) purpose plaintext"
    if i: "i < length sample_trace" and purpose: "purpose \<in> {sessionPurpose, statePurpose}"
      and cookie: "cookie_of purpose (ev_Request (sample_trace ! i)) = Some val0" "decrypt sample_auth purpose val0 Some = Inr plaintext"
    for i purpose val0 plaintext
  proof -
    consider "i = 0" | "i = 1" | "i = 2" using i by (auto simp: sample_trace_def less_Suc_eq numeral_2_eq_2)
    then show ?thesis
    proof cases
      case 1
      then show ?thesis using cookie by (simp add: cookies sample_trace_def)
    next
      case 2
      then have "purpose = statePurpose" "val0 = RawURLEncode (''Nstate'' @ [CHR 0x00])"
        using cookie purpose by (auto simp: cookies sample_trace_def sessionPurpose_def statePurpose_def)
      then have "plaintext = [CHR 0x00]" using cookie(2) sample_decrypts by simp
      then show ?thesis using sample_seals(1) 2 \<open>purpose = statePurpose\<close> by (intro exI[of _ 0]) (simp add: sample_trace_def)
    next
      case 3
      then have "purpose = sessionPurpose" "val0 = RawURLEncode ''Nsession{s}''"
        using cookie purpose by (auto simp: cookies sample_trace_def split: if_splits)
      then have "plaintext = ''{s}''" using cookie(2) sample_decrypts by simp
      then show ?thesis using sample_seals(2) 3 \<open>purpose = sessionPurpose\<close> by (intro exI[of _ 1]) (simp add: sample_trace_def)
    qed
  qed
  then show ?thesis unfolding unforgeable_def by blast
qed

theorem api_needs_verified_login_witness:
  "\<exists>identity k j. rp_Body (Wrap sample_auth (sample_call 6000000000)) \<in> {Served (Some identity), Me identity}
     \<and> verified_login sample_trace k j (id_Subject identity)"
proof -
  have last: "sample_trace ! 2 = sample_call 6000000000" "2 < length sample_trace" by (simp_all add: sample_trace_def)
  have path: "HasPrefix (rq_Path (ev_Request (sample_call 6000000000))) ''/api/''"
    by (simp add: sample_call_def sample_event_def HasPrefix_def)
  show ?thesis
    using api_needs_verified_login[OF sample_cipher sample_payload sample_unforgeable last(2)] path
    unfolding last(1) sample_replies(3) by auto
qed

theorem session_lives_eight_to_24_hours_witness:
  "(\<exists>identity. identityFromSessionCookie sample_auth (sample_call 28804999999999) = Some identity)
   \<and> identityFromSessionCookie sample_auth (sample_call 86405000000000) = None"
proof -
  let ?c = "\<lparr> sc_Name = ''ta_session'', sc_Value = RawURLEncode ''Nsession{s}'', sc_MaxAge = 0, sc_Expires = Some 28805000000000, sc_Secure = True \<rparr>"
  have c: "?c \<in> set (rp_Cookies (Wrap sample_auth sample_callback))" "sc_Name ?c = sessionCookieName" "sc_Value ?c \<noteq> []"
    unfolding sample_replies by (simp_all add: sessionCookieName_def, code_simp)
  have payload: "payload_ok sample_auth sample_callback" using sample_payload by (simp add: sample_trace_def)
  have later: "rq_SessionCookie (ev_Request (sample_call n)) = Some (sc_Value ?c)" for n by (simp add: sample_call_def sample_event_def)
  have times: "ev_Now (sample_call n) = n" "ev_Issued sample_callback = 5000000000" for n
    by (simp_all add: sample_call_def sample_callback_def sample_event_def)
  show ?thesis
    using session_lives_eight_to_24_hours[OF sample_cipher payload c later, of 28804999999999]
      session_lives_eight_to_24_hours[OF sample_cipher payload c later, of 86405000000000]
    unfolding times by (auto simp: Unix_def minSessionDuration_def maxSessionDuration_def)
qed

end
