(* ===== verification/Spec2Isabelle.thy ===== *)
theory Spec2Isabelle
  imports Par2 Config Types Pack Fill Verify Label Slices K8s Zfs RunSnapshot Resolve Scsi Changer Library Media SimLibrary
    Workers Optical Pause BurnPath TapeWrite WritePath TapePath SimTapePath Workflow Cleanup
    Split TarSparse ReadAhead LtfsIndex
    RawRead DriveInfo Pipeline Prepare RunsSubmit RunsTapes WebAuth
begin

text \<open>
  A verification library for tape-archiver, a Temporal worker that writes ZFS snapshots to LTO
  tapes as encrypted, PAR2-protected slices, burns recovery discs, and is steered through a web
  server. This theory only collects the others.

  \<^bold>\<open>The run.\<close> A configuration is submitted (\<open>pkg/runsubmit\<close>) and validated (\<open>internal/config\<close>); its
  sources are resolved to ZFS snapshots (\<open>workflows/backup/resolve.go\<close>, \<open>pkg/k8ssnap\<close>, \<open>pkg/zfs\<close>); bare
  datasets get run-scoped snapshots and everything read is held (\<open>runsnapshot.go\<close>, \<open>hold.go\<close>); each archive
  is streamed through tar, zstd and age into slices (\<open>prepare.go\<close>, \<open>pkg/archive\<close>), which are packed onto tapes
  (\<open>plan.go\<close>), given PAR2 recovery (\<open>par2.go\<close>, \<open>pkg/par2\<close>), verified (\<open>verify.go\<close>), written in sets of one
  tape per drive (\<open>library.go\<close>, \<open>write.go\<close>, \<open>session.go\<close>, over \<open>pkg/tape\<close>), while discs are burned
  (\<open>burn.go\<close>, \<open>burnpath.go\<close>, \<open>pkg/optical\<close>); deferred functions release the holds, destroy the snapshots and
  clean the staging directory (\<open>workflow.go\<close>, \<open>cleanup.go\<close>). Whoever lost the library recovers a file from
  raw blocks with the captured LTFS index (\<open>pkg/ltfs\<close>, \<open>rawread_linux.go\<close>). The web server shows a run from its
  history and lets an operator submit, resume, abort and cancel (\<open>pkg/runsapi\<close>, \<open>pkg/webauth\<close>).

  \<^bold>\<open>Shared theories.\<close>
  \<^item> \<open>Prelude\<close>: error sums, checked loops, batching, ceiling division; the shared simp rules.
  \<^item> \<open>GoStrings\<close>: the functions of \<open>strings\<close>, \<open>path\<close> and \<open>strconv\<close> the code calls.
  \<^item> \<open>GoFloat\<close>: \<open>float64\<close> as rationals with round-to-nearest-even at 53 bits, and its monotonicity.
  \<^item> \<open>Batching\<close>: the set-filling loops of \<open>planDriveSets\<close> and \<open>planBurnSets\<close>, as a locale.
  \<^item> \<open>Workers\<close>: goroutines that share an environment, under every schedule, as a step relation and a
    locale; the drive sets and the burn sets interpret it.

  \<^bold>\<open>Configuration and sources.\<close>
  \<^item> \<open>Config\<close>: \<open>internal/config\<close>, data and validation, equivalent to a declarative predicate.
  \<^item> \<open>Types\<close>: the records of \<open>workflows/backup/types.go\<close> and the log pages of a drive.
  \<^item> \<open>K8s\<close>: \<open>pkg/k8ssnap\<close> over an abstract cluster. \<open>Zfs\<close>: \<open>pkg/zfs\<close> over an abstract \<open>zfs\<close> binary whose
    state is threaded. \<open>Resolve\<close>: the Resolve phase over its injected interfaces.
  \<^item> \<open>RunSnapshot\<close>: \<open>runsnapshot.go\<close> and \<open>hold.go\<close>; which snapshots are ever destroyed.
  \<^item> \<open>Label\<close>, \<open>Slices\<close>: \<open>label.go\<close>; the slice size and the payload guard of \<open>resolve.go\<close>.

  \<^bold>\<open>Staging.\<close>
  \<^item> \<open>TarWalk\<close>: \<open>pkg/archive/tar.go\<close>, the entries of a source tree and its hard links.
  \<^item> \<open>TarHeader\<close>, \<open>TarSparse\<close>: \<open>tar_sparse.go\<close> and the region probe of \<open>tar_unix.go\<close>; a sparse member read back by
    a reader written from the format's documentation.
  \<^item> \<open>ReadAhead\<close>: \<open>readahead.go\<close> as a step relation of walker, loaders and writer; it returns, and
    gives what the serial path gives.
  \<^item> \<open>Split\<close>: \<open>split.go\<close>, slices that concatenate to the stream.
  \<^item> \<open>Pipeline\<close>: \<open>runPipeline\<close> and \<open>pipeStage\<close> of \<open>prepare.go\<close> as a step relation; it always ends, and
    success is the composition of its stages. \<open>Prepare\<close>: the phase around it, its progress and \<open>eta.go\<close>.

  \<^bold>\<open>Planning.\<close>
  \<^item> \<open>Par2\<close>: \<open>pkg/par2/par2.go\<close> sizing and \<open>memory.go\<close> planning.
  \<^item> \<open>Pack\<close>, \<open>Fill\<close>, \<open>Verify\<close>: \<open>plan.go\<close>, the redundancy choice of \<open>par2.go\<close>, \<open>verify.go\<close>, and that they fit together.

  \<^bold>\<open>Tapes.\<close>
  \<^item> \<open>Scsi\<close>, \<open>Changer\<close>: the SCSI layer of \<open>pkg/tape\<close> (sense data, blank probe, element addressing and
    status, command blocks, UNIT ATTENTION retries) and what it promises its callers.
  \<^item> \<open>DriveInfo\<close>: inquiry data, density codes and log pages; no answer of a device makes them panic.
  \<^item> \<open>Library\<close>, \<open>Media\<close>, \<open>SimLibrary\<close>: the activities of \<open>library.go\<close> over a library with drives
    and a clock; what they do to the tapes of a library that obeys its contract; a library that does.
  \<^item> \<open>TapeWrite\<close>: the files of a tape, its copy, the mount registry and the write activities
    (\<open>write.go\<close>, \<open>session.go\<close>), the write-health verdict and timeouts (\<open>writehealth.go\<close>).
  \<^item> \<open>Pause\<close>: operator pauses, stale signals, the polling child workflow (\<open>writepause.go\<close>, \<open>burnpause.go\<close>,
    \<open>eject_wait.go\<close>).
  \<^item> \<open>WritePath\<close>, \<open>TapePath\<close>, \<open>SimTapePath\<close>: load, write, eject and retry of drive sets up to
    \<open>runTapePath\<close>; what the path guarantees over the activities of \<open>Library\<close>; concrete runs.
  \<^item> \<open>LtfsIndex\<close>: \<open>pkg/ltfs/extent.go\<close> and \<open>index.go\<close>, recovery over an abstract block reader. \<open>RawRead\<close>: the
    block reader of \<open>rawread_linux.go\<close> down to its command blocks, and recovery composed with it.

  \<^bold>\<open>Discs and the whole run.\<close>
  \<^item> \<open>Optical\<close>, \<open>BurnPath\<close>: \<open>pkg/optical\<close> and \<open>burn.go\<close>; the burn path.
  \<^item> \<open>Workflow\<close>, \<open>Cleanup\<close>: the phases with their deferred functions; the staging cleanup.

  \<^bold>\<open>Web server.\<close>
  \<^item> \<open>RunsSubmit\<close>: \<open>pkg/runsubmit\<close> and the handlers of \<open>runsapi.go\<close> that reach Temporal.
  \<^item> \<open>RunsHistory\<close>, \<open>RunsTapes\<close>: the views over a run's history (\<open>history.go\<close>, \<open>phases.go\<close>, \<open>derive.go\<close>, \<open>tapes.go\<close>,
    \<open>waiting.go\<close>). A resume without a worker rests on the pause that \<open>derive.go\<close> reads off the history.
  \<^item> \<open>WebAuth\<close>: \<open>pkg/webauth\<close>, the login, its cookies, the session gate and the redirects.

  \<^bold>\<open>Conventions.\<close> Errors are values of a datatype per component in a sum type, in the order the code
  checks them. Go panics are \<open>None\<close>. 64-bit integers whose wrap-around matters (PAR2 sizing, the byte
  counts of an index) are words; the others are \<open>int\<close>. Processes, devices, the file system, the clock
  and third-party packages are functions on a state \<open>'z\<close> that is threaded through in the order of the
  calls; what a property needs of them is a hypothesis with a witness on a concrete instance. Log
  lines are left out. Concurrent code is a step relation, or a pool of workers under any schedule.

  \<^bold>\<open>Loops.\<close> A loop whose end depends on its environment is a \<open>partial_function (option)\<close>, so not ending is
  \<open>None\<close>; that it ends is proved where it does. \<open>fix_size\<close> of a PAX record has a proved result.
  \<open>split_loop\<close> and \<open>seekDataRegions\<close> end because each round consumes the stream or moves the offset.
  \<open>eject_loop\<close> returns if a cleared station has a free slot, which the property assumes. The loops over bytes of a string
  take the string's length as fuel, and each round consumes a byte, which is proved. Reading ahead
  takes at most six steps per entry and six more. The pipeline decreases a lexicographic measure over
  its stages. A pool of workers takes as many steps as its workers have.

  \<^bold>\<open>Not modelled.\<close> Starting processes and parsing their progress (\<open>par2\<close>, \<open>zstd\<close>, \<open>ltfs\<close> and its mount table,
  \<open>sg_logs\<close>, \<open>typst\<close>, mhvtl): effects outside the code, parameters where a phase depends on them. The
  ioctl and the device nodes. The PDF report and the recovery kit, which lay out text. Deliveries
  and alerts, which post texts to a webhook. The web API's log, metric and event streams, presets,
  OpenAPI document and listings, which are queries to other services and JSON. Metrics, health checks,
  logging, the Temporal client, the servers, the commands under \<open>cmd\<close> and the test support, which wire
  the rest together.
\<close>

end
